(* ===== verification/Prelude.thy ===== *)
theory Prelude
  imports Main
begin

text \<open>
  Shared vocabulary of the development: the result type for code that may panic, Go's
  \<open>range\<close> loops, Go maps and the order in which a \<open>range\<close> statement visits them,
  \<open>time.Time\<close> and \<open>time.Duration\<close>, runs of a transition system with the locale
  that lifts an inductive invariant to every reachable state, and the collections of
  theorems the component theories add to.
\<close>

section \<open>Collections\<close>

named_theorems go_simps \<open>unfolding equations of small accessor and mutator methods\<close>
named_theorems handler_defs \<open>definitions of the dealer's accept, reject and abandon helpers\<close>

section \<open>Panics\<close>

datatype go_panic = NilDeref | IndexOutOfRange | DivisionByZero | TypeAssertion | SendOnClosedChannel | PanicMsg string

type_synonym 'a result = "go_panic + 'a"

definition bind_r :: "'a result \<Rightarrow> ('a \<Rightarrow> 'b result) \<Rightarrow> 'b result" where
  "bind_r m f = (case m of Inl e \<Rightarrow> Inl e | Inr x \<Rightarrow> f x)"

fun foldM :: "('a \<Rightarrow> 's \<Rightarrow> 's result) \<Rightarrow> 'a list \<Rightarrow> 's \<Rightarrow> 's result" where
  "foldM f [] s = Inr s"
| "foldM f (x # xs) s = bind_r (f x s) (foldM f xs)"

lemma bind_r_simps [simp]:
  "bind_r (Inl e) f = Inl e"
  "bind_r (Inr x) f = f x"
  by (simp_all add: bind_r_def)

lemma bind_r_eq_Inr: "bind_r m f = Inr y \<longleftrightarrow> (\<exists>x. m = Inr x \<and> f x = Inr y)"
  by (cases m) auto

lemma bind_r_eq_Inl: "bind_r m f = Inl e \<longleftrightarrow> m = Inl e \<or> (\<exists>x. m = Inr x \<and> f x = Inl e)"
  by (cases m) auto

text \<open>A loop whose body keeps \<open>P\<close> and never panics under \<open>P\<close> keeps \<open>P\<close> and never panics.\<close>

lemma foldM_inv:
  assumes "P s" and "\<And>x s. x \<in> set xs \<Longrightarrow> P s \<Longrightarrow> \<exists>s'. f x s = Inr s' \<and> P s'"
  shows "\<exists>s'. foldM f xs s = Inr s' \<and> P s'"
  using assms
proof (induction xs arbitrary: s)
  case Nil
  then show ?case by simp
next
  case (Cons x xs)
  from Cons.prems obtain s1 where s1: "f x s = Inr s1" "P s1" by force
  have "\<exists>s'. foldM f xs s1 = Inr s' \<and> P s'"
    by (rule Cons.IH [OF s1(2)]) (use Cons.prems(2) in auto)
  with s1 show ?case by simp
qed

lemma foldM_Inr_inv:
  assumes "foldM f xs s = Inr s'" and "P s"
    and "\<And>x s s'. x \<in> set xs \<Longrightarrow> P s \<Longrightarrow> f x s = Inr s' \<Longrightarrow> P s'"
  shows "P s'"
  using assms
proof (induction xs arbitrary: s)
  case (Cons x xs)
  then obtain s1 where "f x s = Inr s1" "foldM f xs s1 = Inr s'"
    by (auto simp: bind_r_eq_Inr)
  with Cons show ?case by (metis list.set_intros)
qed simp

lemma fold_inv:
  assumes "P s" and "\<And>x s. x \<in> set xs \<Longrightarrow> P s \<Longrightarrow> P (f x s)"
  shows "P (fold f xs s)"
  using assms by (induction xs arbitrary: s) auto

text \<open>
  A loop over distinct items, each of which owns a guard \<open>G\<close> that the other iterations
  respect, is a run of the relation its iterations respect.
\<close>

lemma fold_run:
  assumes "distinct xs" and "\<And>x. x \<in> set xs \<Longrightarrow> G x s" and "I s"
    and "\<And>x s. x \<in> set xs \<Longrightarrow> I s \<Longrightarrow> G x s \<Longrightarrow> R\<^sup>*\<^sup>* (v s) (v (f x s)) \<and> I (f x s)"
    and "\<And>x y s. x \<in> set xs \<Longrightarrow> y \<in> set xs \<Longrightarrow> y \<noteq> x \<Longrightarrow> I s \<Longrightarrow> G x s \<Longrightarrow> G y s \<Longrightarrow> G y (f x s)"
  shows "R\<^sup>*\<^sup>* (v s) (v (fold f xs s)) \<and> I (fold f xs s)"
  using assms
proof (induction xs arbitrary: s)
  case (Cons x xs)
  have x: "R\<^sup>*\<^sup>* (v s) (v (f x s))" "I (f x s)" using Cons.prems(2,3,4) by auto
  have "R\<^sup>*\<^sup>* (v (f x s)) (v (fold f xs (f x s))) \<and> I (fold f xs (f x s))"
  proof (rule Cons.IH)
    show "G y (f x s)" if "y \<in> set xs" for y
      using that Cons.prems(1) by (intro Cons.prems(5)) (auto intro: Cons.prems(2,3))
  qed (use Cons.prems x in \<open>auto intro: Cons.prems(4,5)\<close>)
  with x show ?case by auto
qed simp

section \<open>Loops with an early exit\<close>

text \<open>
  The iteration of \<open>Range\<close>, \<open>Ascend\<close> and \<open>SortedRange\<close>: the callback updates the
  variables it captures and answers whether to go on.
\<close>

fun range_loop :: "('a \<Rightarrow> 's \<Rightarrow> 's \<times> bool) \<Rightarrow> 'a list \<Rightarrow> 's \<Rightarrow> 's" where
  "range_loop f [] s = s"
| "range_loop f (x # xs) s = (case f x s of (s', go) \<Rightarrow> if go then range_loop f xs s' else s')"

lemma range_loop_all:
  "(\<And>x s. snd (f x s)) \<Longrightarrow> range_loop f xs s = fold (\<lambda>x s. fst (f x s)) xs s"
  by (induction xs arbitrary: s) (auto simp: case_prod_beta)

section \<open>Go maps\<close>

text \<open>
  A Go map is a partial function. A \<open>range\<close> statement over a map visits its keys in an
  unspecified order, so a definition that ranges over a map takes the visited keys
  \<open>ks\<close> as an argument, and its theorems hold for every enumeration of the domain.
\<close>

definition enumerates :: "'k list \<Rightarrow> ('k \<rightharpoonup> 'v) \<Rightarrow> bool" where
  "enumerates ks m \<longleftrightarrow> distinct ks \<and> set ks = dom m"

lemma enumerates_finite: "enumerates ks m \<Longrightarrow> finite (dom m)"
  by (metis enumerates_def List.finite_set)

lemma enumerates_mset:
  "enumerates ks m \<Longrightarrow> enumerates ks' m \<Longrightarrow> sum_list (map g ks) = (sum_list (map g ks') :: 'a :: comm_monoid_add)"
  by (simp add: enumerates_def sum_list_distinct_conv_sum_set)

section \<open>Time\<close>

text \<open>
  \<open>time.Time\<close> is its number of nanoseconds on the time line, \<open>time.Duration\<close> a signed
  64-bit number of nanoseconds; \<open>Time.Sub\<close> saturates at the ends of that range.
\<close>

type_synonym time = int
type_synonym duration = int

definition maxDuration :: duration where "maxDuration = 2 ^ 63 - 1"
definition minDuration :: duration where "minDuration = - (2 ^ 63)"

definition Time_Sub :: "time \<Rightarrow> time \<Rightarrow> duration" where
  "Time_Sub t u = max minDuration (min maxDuration (t - u))"

lemma Time_Sub_exact:
  "minDuration \<le> t - u \<Longrightarrow> t - u \<le> maxDuration \<Longrightarrow> Time_Sub t u = t - u"
  by (simp add: Time_Sub_def)

lemma Time_Sub_bounds: "minDuration \<le> Time_Sub t u \<and> Time_Sub t u \<le> maxDuration"
  by (auto simp: Time_Sub_def minDuration_def maxDuration_def)

section \<open>64-bit integers\<close>

text \<open>The value a signed 64-bit integer takes when the exact result is \<open>x\<close>.\<close>

definition wrap64 :: "int \<Rightarrow> int" where
  "wrap64 x = (x + 2 ^ 63) mod 2 ^ 64 - 2 ^ 63"

lemma wrap64_exact: "- (2 ^ 63) \<le> x \<Longrightarrow> x < 2 ^ 63 \<Longrightarrow> wrap64 x = x"
  by (simp add: wrap64_def)

section \<open>Runs and invariants\<close>

text \<open>The states a transition system reaches from its initial states.\<close>

inductive reach :: "('s \<Rightarrow> bool) \<Rightarrow> ('s \<Rightarrow> 's \<Rightarrow> bool) \<Rightarrow> 's \<Rightarrow> bool" for init and step where
  reach_init: "init s \<Longrightarrow> reach init step s"
| reach_step: "reach init step s \<Longrightarrow> step s t \<Longrightarrow> reach init step t"

text \<open>
  The contract between a component's step relation and its invariant. Each component
  interprets it on its own steps and invariant.
\<close>

locale invariant_system =
  fixes init :: "'s \<Rightarrow> bool" and step :: "'s \<Rightarrow> 's \<Rightarrow> bool" and inv :: "'s \<Rightarrow> bool"
  assumes init_inv: "init s \<Longrightarrow> inv s"
    and step_inv: "inv s \<Longrightarrow> step s t \<Longrightarrow> inv t"
begin

lemma reachable_inv: "reach init step s \<Longrightarrow> inv s"
  by (induction rule: reach.induct) (auto intro: init_inv step_inv)

lemma run_inv: "step\<^sup>*\<^sup>* s t \<Longrightarrow> inv s \<Longrightarrow> inv t"
  by (induction rule: rtranclp_induct) (auto intro: step_inv)

lemma run_reachable: "step\<^sup>*\<^sup>* s t \<Longrightarrow> reach init step s \<Longrightarrow> reach init step t"
  by (induction rule: rtranclp_induct) (auto intro: reach_step)

text \<open>A relation that every step from an invariant state respects relates the ends of a run.\<close>

lemma run_relates:
  assumes "step\<^sup>*\<^sup>* s t" and "inv s"
    and "\<And>x. R x x" and "\<And>x y z. R x y \<Longrightarrow> R y z \<Longrightarrow> R x z"
    and "\<And>x y. inv x \<Longrightarrow> step x y \<Longrightarrow> R x y"
  shows "R s t"
  using assms(1)
proof (induction rule: rtranclp_induct)
  case base
  show ?case by (rule assms(3))
next
  case (step y z)
  from step.hyps(1) assms(2) have "inv y" by (rule run_inv)
  with step show ?case by (blast intro: assms(4,5))
qed

end

end
