(* ===== verification/Domains.thy ===== *)
theory Domains
  imports Complex_Main Prelude
begin

text \<open>
  The package \<open>domains\<close>: order sides, book sides, order types, assets and the registry of
  symbols (\<open>commons.go\<close>, \<open>asset.go\<close>, \<open>symbol.go\<close>, \<open>master_symbols.go\<close>).

  Numbers of the third-party package \<open>shopspring/decimal\<close> are a type parameter
  \<open>'d :: linordered_idom\<close>: the package documents exact addition, subtraction,
  multiplication, negation and comparison, and the class says no more than that. What the
  code uses beyond it (division, truncation, conversion of floating-point literals) is a
  function argument of the definitions that use it.
\<close>

section \<open>commons.go\<close>

datatype Side = SideNone | SideBuy | SideSell

definition Side_String :: "Side \<Rightarrow> string" where
  "Side_String s = (case s of SideBuy \<Rightarrow> ''BUY'' | SideSell \<Rightarrow> ''SELL'' | SideNone \<Rightarrow> ''NONE'')"

definition Opposite :: "Side \<Rightarrow> Side" where
  "Opposite s = (case s of SideBuy \<Rightarrow> SideSell | SideSell \<Rightarrow> SideBuy | SideNone \<Rightarrow> SideNone)"

definition Sign :: "Side \<Rightarrow> int" where
  "Sign s = (case s of SideNone \<Rightarrow> 0 | SideBuy \<Rightarrow> 1 | SideSell \<Rightarrow> -1)"

definition DecimalSign :: "Side \<Rightarrow> 'd :: linordered_idom" where
  "DecimalSign s = of_int (Sign s)"

datatype BookSide = BookSideNone | BookSideBid | BookSideAsk

datatype OrderType =
    OrderTypeUnknown
  | OrderTypeMarket
  | OrderTypeLimit
  | OrderTypeLimitFOK
  | OrderTypeLimitIOC
  | OrderTypeLimitMaker

definition IsTaker :: "OrderType \<Rightarrow> bool" where
  "IsTaker t \<longleftrightarrow> t = OrderTypeMarket \<or> t = OrderTypeLimitFOK \<or> t = OrderTypeLimitIOC"

definition IsMaker :: "OrderType \<Rightarrow> bool" where
  "IsMaker t \<longleftrightarrow> t = OrderTypeLimitMaker \<or> t = OrderTypeLimit"

definition IsAmenable :: "OrderType \<Rightarrow> bool" where
  "IsAmenable t \<longleftrightarrow> t = OrderTypeLimitMaker \<or> t = OrderTypeLimit"

definition IsPricable :: "OrderType \<Rightarrow> bool" where
  "IsPricable t \<longleftrightarrow> t = OrderTypeLimit \<or> t = OrderTypeLimitFOK \<or> t = OrderTypeLimitIOC \<or>
     t = OrderTypeLimitMaker"

definition OrderType_String :: "OrderType \<Rightarrow> string" where
  "OrderType_String t =
     (case t of
        OrderTypeMarket \<Rightarrow> ''MARKET''
      | OrderTypeLimit \<Rightarrow> ''LIMIT''
      | OrderTypeLimitFOK \<Rightarrow> ''LIMIT_FOK''
      | OrderTypeLimitIOC \<Rightarrow> ''LIMIT_IOC''
      | OrderTypeLimitMaker \<Rightarrow> ''LIMIT_MAKER''
      | OrderTypeUnknown \<Rightarrow> ''UNKNOWN'')"

section \<open>asset.go\<close>

datatype Asset = AssetUnknown | AssetBTC | AssetUSDT | AssetUSDC

definition Asset_String :: "Asset \<Rightarrow> string" where
  "Asset_String c =
     (case c of
        AssetBTC \<Rightarrow> ''BTC'' | AssetUSDT \<Rightarrow> ''USDT'' | AssetUSDC \<Rightarrow> ''USDC''
      | AssetUnknown \<Rightarrow> ''Unknown'')"

section \<open>symbol.go\<close>

record 'd Symbol =
  sym_id :: string
  sym_exchange :: string
  sym_product :: string
  sym_name :: string
  sym_tickSize :: 'd
  sym_minOrderQty :: 'd
  sym_baseAsset :: Asset

text \<open>The two package-level maps that \<open>newSymbol\<close> fills.\<close>

record 'd symbol_tables =
  symbolMapByID :: "string \<rightharpoonup> 'd Symbol"
  symbolMapByName :: "string \<rightharpoonup> 'd Symbol"

text \<open>
  \<open>nf\<close> stands for \<open>decimal.NewFromFloat\<close>; a floating-point literal of the source is the
  rational number it is written as.
\<close>

definition newSymbol ::
  "(rat \<Rightarrow> 'd) \<Rightarrow> string \<Rightarrow> string \<Rightarrow> string \<Rightarrow> rat \<Rightarrow> rat \<Rightarrow> Asset \<Rightarrow> 'd symbol_tables \<Rightarrow> 'd Symbol \<times> 'd symbol_tables" where
  "newSymbol nf ex pr nm tick minq asset tb =
     (let s = \<lparr>sym_id = ex @ ''_'' @ pr @ ''_'' @ nm, sym_exchange = ex, sym_product = pr,
               sym_name = nm, sym_tickSize = nf tick, sym_minOrderQty = nf minq, sym_baseAsset = asset\<rparr>
      in (s, tb\<lparr>symbolMapByID := (symbolMapByID tb)(sym_id s \<mapsto> s),
                symbolMapByName := (symbolMapByName tb)(sym_name s \<mapsto> s)\<rparr>))"

definition empty_tables :: "'d symbol_tables" where
  "empty_tables = \<lparr>symbolMapByID = Map.empty, symbolMapByName = Map.empty\<rparr>"

section \<open>master_symbols.go\<close>

definition ExchangeUnknown :: string where "ExchangeUnknown = ''Unknown''"
definition ExchangeCoinEx :: string where "ExchangeCoinEx = ''CoinEx''"
definition ExchangeBybit :: string where "ExchangeBybit = ''Bybit''"
definition ProductUnknown :: string where "ProductUnknown = ''Unknown''"
definition ProductFutures :: string where "ProductFutures = ''futures''"
definition ProductLinear :: string where "ProductLinear = ''linear''"

text \<open>The declarations of the file, in order: the arguments of each \<open>newSymbol\<close> call.\<close>

definition master_symbols :: "(string \<times> string \<times> string \<times> rat \<times> rat \<times> Asset) list" where
  "master_symbols =
    [(ExchangeUnknown, ProductUnknown, ''Unknown'', 0, 0, AssetUnknown),
     (ExchangeCoinEx, ProductFutures, ''BTCUSDT'', 1/100, 1/10000, AssetUSDT),
     (ExchangeCoinEx, ProductFutures, ''ETHUSDT'', 1/100, 5/1000, AssetUSDT),
     (ExchangeCoinEx, ProductFutures, ''XRPUSDT'', 1/10000, 5, AssetUSDT),
     (ExchangeCoinEx, ProductFutures, ''SOLUSDT'', 1/100, 5/100, AssetUSDT),
     (ExchangeBybit, ProductLinear, ''BTCUSDT'', 1/10, 1/1000, AssetUSDT),
     (ExchangeBybit, ProductLinear, ''ETHUSDT'', 1/100, 1/100, AssetUSDT),
     (ExchangeBybit, ProductLinear, ''SOLUSDT'', 1/1000, 1/10, AssetUSDT),
     (ExchangeBybit, ProductLinear, ''XRPUSDT'', 1/10000, 10, AssetUSDT)]"

text \<open>Package initialisation: the symbols, in the order declared, and the tables they leave.\<close>

fun init_symbols ::
  "(rat \<Rightarrow> 'd) \<Rightarrow> (string \<times> string \<times> string \<times> rat \<times> rat \<times> Asset) list \<Rightarrow> 'd symbol_tables \<Rightarrow>
     'd Symbol list \<times> 'd symbol_tables" where
  "init_symbols nf [] tb = ([], tb)"
| "init_symbols nf ((ex, pr, nm, t, q, a) # rest) tb =
     (case newSymbol nf ex pr nm t q a tb of
        (s, tb1) \<Rightarrow> (case init_symbols nf rest tb1 of (ss, tb2) \<Rightarrow> (s # ss, tb2)))"

definition SymbolUnknown :: "(rat \<Rightarrow> 'd) \<Rightarrow> 'd Symbol" where
  "SymbolUnknown nf =
     fst (newSymbol nf ExchangeUnknown ProductUnknown ''Unknown'' 0 0 AssetUnknown empty_tables)"

definition symbols :: "(rat \<Rightarrow> 'd) \<Rightarrow> 'd Symbol list" where
  "symbols nf = fst (init_symbols nf master_symbols empty_tables)"

definition tables :: "(rat \<Rightarrow> 'd) \<Rightarrow> 'd symbol_tables" where
  "tables nf = snd (init_symbols nf master_symbols empty_tables)"

definition GetSymbol :: "(rat \<Rightarrow> 'd) \<Rightarrow> string \<Rightarrow> 'd Symbol" where
  "GetSymbol nf i = (case symbolMapByID (tables nf) i of Some s \<Rightarrow> s | None \<Rightarrow> SymbolUnknown nf)"

section \<open>The symbol registry\<close>

lemma newSymbol_fst_snd:
  "newSymbol nf ex pr nm t q a tb = (s, tb') \<Longrightarrow>
     sym_id s = ex @ ''_'' @ pr @ ''_'' @ nm \<and> symbolMapByID tb' = (symbolMapByID tb)(sym_id s \<mapsto> s)"
  by (auto simp: newSymbol_def Let_def)

lemma init_symbols_table:
  "init_symbols nf ms tb = (ss, tb') \<Longrightarrow>
     symbolMapByID tb' = symbolMapByID tb ++ map_of (rev (map (\<lambda>s. (sym_id s, s)) ss)) \<and>
     map sym_id ss = map (\<lambda>(ex, pr, nm, _). ex @ ''_'' @ pr @ ''_'' @ nm) ms"
proof (induction nf ms tb arbitrary: ss tb' rule: init_symbols.induct)
  case (2 nf ex pr nm t q a rest tb)
  obtain s tb1 where s: "newSymbol nf ex pr nm t q a tb = (s, tb1)" by fastforce
  obtain ss2 tb2 where r: "init_symbols nf rest tb1 = (ss2, tb2)" by fastforce
  note IH = "2.IH" [OF s [symmetric] r]
  have "ss = s # ss2" "tb' = tb2" using 2 s r by auto
  with IH newSymbol_fst_snd [OF s] show ?case by (auto simp: map_add_def fun_eq_iff split: option.split)
qed simp

text \<open>With distinct identifiers no declaration overwrites another one's entry.\<close>

lemma init_symbols_lookup:
  assumes "init_symbols nf ms tb = (ss, tb')"
    and "distinct (map (\<lambda>(ex, pr, nm, _). ex @ ''_'' @ pr @ ''_'' @ nm) ms)" and "s \<in> set ss"
  shows "symbolMapByID tb' (sym_id s) = Some s"
proof -
  let ?l = "map (\<lambda>s. (sym_id s, s)) ss"
  from init_symbols_table [OF assms(1)] have
    t: "symbolMapByID tb' = symbolMapByID tb ++ map_of (rev ?l)" and
    d: "distinct (map sym_id ss)" using assms(2) by auto
  have "map_of (rev ?l) (sym_id s) = Some s"
    by (rule map_of_is_SomeI) (use d assms(3) in \<open>auto simp: rev_map [symmetric] comp_def\<close>)
  with t show ?thesis by (simp add: map_add_Some_iff)
qed

lemma master_ids_distinct:
  "distinct (map (\<lambda>(ex, pr, nm, _). ex @ ''_'' @ pr @ ''_'' @ nm) master_symbols)"
  by (simp add: master_symbols_def ExchangeUnknown_def ExchangeCoinEx_def ExchangeBybit_def
      ProductUnknown_def ProductFutures_def ProductLinear_def)

lemma Opposite_Opposite: "Opposite (Opposite s) = s"
  by (cases s) (simp_all add: Opposite_def)

lemma Sign_Opposite: "Sign (Opposite s) = - Sign s"
  by (cases s) (simp_all add: Opposite_def Sign_def)

lemma IsTaker_IsMaker: "t \<noteq> OrderTypeUnknown \<Longrightarrow> IsTaker t \<longleftrightarrow> \<not> IsMaker t"
  by (cases t) (simp_all add: IsTaker_def IsMaker_def)

text \<open>
  Looking a declared symbol up by its identifier yields that very symbol: no declaration
  of \<open>master_symbols.go\<close> overwrites another one's entry of \<open>symbolMapByID\<close>.
\<close>

lemma GetSymbol_roundtrip: "s \<in> set (symbols nf) \<Longrightarrow> GetSymbol nf (sym_id s) = s"
  using init_symbols_lookup [OF _ master_ids_distinct, of nf empty_tables "symbols nf" "tables nf" s]
  by (simp add: GetSymbol_def symbols_def tables_def)

end
