(* ===== verification/Mutex.thy ===== *)
theory Mutex
  imports Prelude
begin

text \<open>
  The package \<open>mutex\<close>: \<open>Flag\<close>, \<open>Map\<close> and \<open>Slice\<close>. Every method runs under
  the value's own lock from its first statement to its last, so it is one atomic
  function of the protected value. The file ends with the interface \<open>mutex_map\<close> the
  clients of \<open>Map\<close> rely on, interpreted on the model of \<open>Map\<close>.
\<close>

section \<open>Flag\<close>

record Flag =
  f_v :: bool

definition NewFlag :: "bool \<Rightarrow> Flag" where "NewFlag v = \<lparr>f_v = v\<rparr>"
definition Flag_Get :: "Flag \<Rightarrow> bool" where "Flag_Get f = f_v f"
definition Flag_Set :: "Flag \<Rightarrow> bool \<Rightarrow> Flag" where "Flag_Set f v = f\<lparr>f_v := v\<rparr>"

lemma Flag_simps [simp]:
  "Flag_Get (NewFlag v) = v"
  "Flag_Get (Flag_Set f v) = v"
  by (simp_all add: Flag_Get_def Flag_Set_def NewFlag_def)

section \<open>Map\<close>

record ('k, 'v) Map =
  m_mm :: "'k \<rightharpoonup> 'v"

definition NewMap :: "('k \<rightharpoonup> 'v) option \<Rightarrow> ('k, 'v) Map" where
  "NewMap m = (case m of None \<Rightarrow> \<lparr>m_mm = Map.empty\<rparr> | Some mm \<Rightarrow> \<lparr>m_mm = mm\<rparr>)"

definition Map_GetKeys :: "'k list \<Rightarrow> ('k, 'v) Map \<Rightarrow> 'k list" where
  "Map_GetKeys ks m = filter (\<lambda>k. m_mm m k \<noteq> None) ks"

definition Map_Values :: "'k list \<Rightarrow> ('k, 'v) Map \<Rightarrow> 'v list" where
  "Map_Values ks m = List.map_filter (m_mm m) ks"

definition Map_Set :: "('k, 'v) Map \<Rightarrow> 'k \<Rightarrow> 'v \<Rightarrow> ('k, 'v) Map" where
  "Map_Set m k v = m\<lparr>m_mm := (m_mm m)(k \<mapsto> v)\<rparr>"

text \<open>\<open>SetIfAbsent\<close> answers the existing value, or that it inserted the new one.\<close>

definition Map_SetIfAbsent :: "('k, 'v) Map \<Rightarrow> 'k \<Rightarrow> 'v \<Rightarrow> 'v option \<times> ('k, 'v) Map" where
  "Map_SetIfAbsent m k v =
     (case m_mm m k of
        Some existing \<Rightarrow> (Some existing, m)
      | None \<Rightarrow> (None, m\<lparr>m_mm := (m_mm m)(k \<mapsto> v)\<rparr>))"

definition Map_Get :: "('k, 'v) Map \<Rightarrow> 'k \<Rightarrow> 'v option" where
  "Map_Get m k = m_mm m k"

text \<open>\<open>Gets\<close> answers the zero value (nil for pointers: \<open>None\<close>) for a missing key.\<close>

definition Map_Gets :: "('k, 'v) Map \<Rightarrow> 'k list \<Rightarrow> 'v option list" where
  "Map_Gets m ks = map (m_mm m) ks"

definition Map_Delete :: "('k, 'v) Map \<Rightarrow> 'k \<Rightarrow> ('k, 'v) Map" where
  "Map_Delete m k = m\<lparr>m_mm := (m_mm m)(k := None)\<rparr>"

definition Map_BulkDelete :: "('k, 'v) Map \<Rightarrow> 'k list \<Rightarrow> ('k, 'v) Map" where
  "Map_BulkDelete m ks = m\<lparr>m_mm := fold (\<lambda>k mm. mm(k := None)) ks (m_mm m)\<rparr>"

definition Map_Len :: "('k, 'v) Map \<Rightarrow> nat" where
  "Map_Len m = card (dom (m_mm m))"

definition Map_Range :: "'k list \<Rightarrow> ('k \<Rightarrow> 'v \<Rightarrow> 's \<Rightarrow> 's \<times> bool) \<Rightarrow> ('k, 'v) Map \<Rightarrow> 's \<Rightarrow> 's" where
  "Map_Range ks f m s =
     range_loop (\<lambda>k s. case m_mm m k of Some v \<Rightarrow> f k v s | None \<Rightarrow> (s, True)) ks s"

section \<open>Slice\<close>

record 'a Slice =
  s_maxLen :: int
  s_a :: "'a list"

definition NewSlice :: "'a list \<Rightarrow> int \<Rightarrow> 'a Slice" where
  "NewSlice src mx =
     (let dst = (if 0 < mx \<and> mx < int (length src) then take (nat mx) src else src)
      in \<lparr>s_maxLen = mx, s_a = dst\<rparr>)"

text \<open>
  \<open>drop\<close>: shift the tail one place to the left over position \<open>i\<close>, then cut the
  last (zeroed) cell. All callers pass a position in range.
\<close>

definition drop_at :: "'a list \<Rightarrow> nat \<Rightarrow> 'a list" where
  "drop_at a i = take i a @ drop (Suc i) a"

definition Slice_AppendHead :: "'a Slice \<Rightarrow> 'a \<Rightarrow> 'a Slice" where
  "Slice_AppendHead s item =
     (let a = (if 0 < s_maxLen s \<and> s_maxLen s \<le> int (length (s_a s))
               then drop_at (s_a s) (length (s_a s) - 1) else s_a s)
      in s\<lparr>s_a := item # a\<rparr>)"

definition Slice_Append :: "'a Slice \<Rightarrow> 'a \<Rightarrow> 'a Slice" where
  "Slice_Append s item =
     (let a = (if 0 < s_maxLen s \<and> s_maxLen s \<le> int (length (s_a s))
               then drop_at (s_a s) 0 else s_a s)
      in s\<lparr>s_a := a @ [item]\<rparr>)"

definition Slice_Merge :: "'a Slice \<Rightarrow> 'a Slice \<Rightarrow> 'a Slice" where
  "Slice_Merge s s2 =
     (let a = s_a s @ s_a s2
      in s\<lparr>s_a := (if 0 < s_maxLen s \<and> s_maxLen s < int (length a)
                  then drop (length a - nat (s_maxLen s)) a else a)\<rparr>)"

definition Slice_Range :: "(nat \<Rightarrow> 'a \<Rightarrow> 's \<Rightarrow> 's \<times> bool) \<Rightarrow> 'a Slice \<Rightarrow> 's \<Rightarrow> 's" where
  "Slice_Range f s st = range_loop (\<lambda>(i, x). f i x) (zip [0..<length (s_a s)] (s_a s)) st"

definition Slice_Drop :: "'a Slice \<Rightarrow> int \<Rightarrow> bool \<times> 'a Slice" where
  "Slice_Drop s i =
     (if i < 0 \<or> int (length (s_a s)) \<le> i then (False, s)
      else (True, s\<lparr>s_a := drop_at (s_a s) (nat i)\<rparr>))"

text \<open>\<open>uniqueSorted\<close>: sort a copy, keep each element that differs from its predecessor.\<close>

fun keep_changes :: "int option \<Rightarrow> int list \<Rightarrow> int list" where
  "keep_changes prev [] = []"
| "keep_changes prev (x # xs) =
     (if prev = Some x then keep_changes (Some x) xs else x # keep_changes (Some x) xs)"

definition uniqueSorted :: "int list \<Rightarrow> int list" where
  "uniqueSorted indices = keep_changes None (sort indices)"

text \<open>\<open>drops\<close>: \<open>removed\<close> is the loop counter, which also counts the skipped positions.\<close>

fun drops_loop :: "int \<Rightarrow> int list \<Rightarrow> 'a list \<Rightarrow> 'a list" where
  "drops_loop removed [] a = a"
| "drops_loop removed (idx # idxs) a =
     (let adj = idx - removed in
      if adj < 0 \<or> int (length a) \<le> adj then drops_loop (removed + 1) idxs a
      else drops_loop (removed + 1) idxs (drop_at a (nat adj)))"

definition Slice_Drops :: "'a Slice \<Rightarrow> int list \<Rightarrow> 'a Slice" where
  "Slice_Drops s indices = s\<lparr>s_a := drops_loop 0 (uniqueSorted indices) (s_a s)\<rparr>"

definition Slice_Len :: "'a Slice \<Rightarrow> nat" where
  "Slice_Len s = length (s_a s)"

definition Slice_Get :: "'a Slice \<Rightarrow> int \<Rightarrow> 'a result" where
  "Slice_Get s i =
     (let j = (if i < 0 then int (length (s_a s)) + i else i)
      in if 0 \<le> j \<and> j < int (length (s_a s)) then Inr (s_a s ! nat j) else Inl IndexOutOfRange)"

section \<open>The map interface\<close>

text \<open>
  What a client of \<open>mutex.Map\<close> relies on, for a representation type \<open>'m\<close>: lookups
  after each update.
\<close>

locale mutex_map =
  fixes get :: "'m \<Rightarrow> 'k \<Rightarrow> 'v option"
    and put :: "'m \<Rightarrow> 'k \<Rightarrow> 'v \<Rightarrow> 'm"
    and put_if_absent :: "'m \<Rightarrow> 'k \<Rightarrow> 'v \<Rightarrow> 'v option \<times> 'm"
    and remove :: "'m \<Rightarrow> 'k \<Rightarrow> 'm"
    and remove_all :: "'m \<Rightarrow> 'k list \<Rightarrow> 'm"
  assumes get_put: "get (put m k v) k' = (if k' = k then Some v else get m k')"
    and put_if_absent: "put_if_absent m k v = (get m k, if get m k = None then put m k v else m)"
    and get_remove: "get (remove m k) k' = (if k' = k then None else get m k')"
    and get_remove_all: "get (remove_all m ks) k' = (if k' \<in> set ks then None else get m k')"
begin

lemma get_put_same [simp]: "get (put m k v) k = Some v"
  by (simp add: get_put)

lemma get_put_other: "k' \<noteq> k \<Longrightarrow> get (put m k v) k' = get m k'"
  by (simp add: get_put)

lemma get_after_put_if_absent:
  "get (snd (put_if_absent m k v)) k' =
     (if k' = k then Some (case get m k of Some w \<Rightarrow> w | None \<Rightarrow> v) else get m k')"
  by (auto simp: put_if_absent get_put split: option.split)

lemma keys_put: "{k'. get (put m k v) k' \<noteq> None} = insert k {k'. get m k' \<noteq> None}"
  by (auto simp: get_put)

lemma keys_remove: "{k'. get (remove m k) k' \<noteq> None} = {k'. get m k' \<noteq> None} - {k}"
  by (auto simp: get_remove)

end

lemma fold_remove: "fold (\<lambda>k mm. mm(k := None)) ks mm k' = (if k' \<in> set ks then None else mm k')"
  by (induction ks arbitrary: mm) auto

interpretation mmap: mutex_map Map_Get Map_Set Map_SetIfAbsent Map_Delete Map_BulkDelete
  by unfold_locales
    (auto simp: Map_Get_def Map_Set_def Map_SetIfAbsent_def Map_Delete_def Map_BulkDelete_def
      fold_remove split: option.split)

lemmas map_get_simps [simp] = mmap.get_put mmap.get_remove mmap.get_remove_all

lemma NewMap_None [simp]: "Map_Get (NewMap None) k = None"
  by (simp add: NewMap_def Map_Get_def)

lemma Map_Gets_Get: "Map_Gets m ks = map (Map_Get m) ks"
  by (simp add: Map_Gets_def Map_Get_def)

lemma Map_Range_fold:
  assumes "\<And>k v s. snd (f k v s)"
  shows "Map_Range ks f m s = fold (\<lambda>k s. case Map_Get m k of Some v \<Rightarrow> fst (f k v s) | None \<Rightarrow> s) ks s"
  unfolding Map_Range_def
  by (subst range_loop_all)
    (auto simp: assms Map_Get_def fun_eq_iff split: option.split intro!: fold_cong)

section \<open>Slices never exceed their bound\<close>

definition slice_ok :: "'a Slice \<Rightarrow> bool" where
  "slice_ok s \<longleftrightarrow> (0 < s_maxLen s \<longrightarrow> int (length (s_a s)) \<le> s_maxLen s)"

lemma length_drop_at: "i < length a \<Longrightarrow> length (drop_at a i) = length a - 1"
  by (simp add: drop_at_def)

lemma drop_at_0 [simp]: "drop_at a 0 = tl a"
  by (simp add: drop_at_def drop_Suc)

lemma drop_at_last: "drop_at a (length a - Suc 0) = butlast a"
  by (cases a rule: rev_cases) (simp_all add: drop_at_def)

lemma length_drops_loop: "length (drops_loop removed idxs a) \<le> length a"
proof (induction removed idxs a rule: drops_loop.induct)
  case (2 removed idx idxs a)
  show ?case
  proof (cases "idx - removed < 0 \<or> int (length a) \<le> idx - removed")
    case True
    with 2 show ?thesis by (simp add: Let_def)
  next
    case False
    then have "length (drop_at a (nat (idx - removed))) = length a - 1"
      by (intro length_drop_at) linarith
    moreover have "length (drops_loop removed (idx # idxs) a) \<le> length (drop_at a (nat (idx - removed)))"
      using 2 False by (simp add: Let_def)
    ultimately show ?thesis by simp
  qed
qed simp

lemma slice_ok_NewSlice: "slice_ok (NewSlice src mx)"
  by (auto simp: slice_ok_def NewSlice_def Let_def)

lemma slice_ok_AppendHead: "slice_ok s \<Longrightarrow> slice_ok (Slice_AppendHead s x)"
  by (auto simp: slice_ok_def Slice_AppendHead_def drop_at_last Let_def)

lemma slice_ok_Append: "slice_ok s \<Longrightarrow> slice_ok (Slice_Append s x)"
  by (auto simp: slice_ok_def Slice_Append_def Let_def)

lemma slice_ok_Merge: "slice_ok (Slice_Merge s t)"
  by (auto simp: slice_ok_def Slice_Merge_def Let_def)

lemma slice_ok_Drop: "slice_ok s \<Longrightarrow> slice_ok (snd (Slice_Drop s i))"
  by (auto simp: slice_ok_def Slice_Drop_def length_drop_at)

lemma slice_ok_Drops: "slice_ok s \<Longrightarrow> slice_ok (Slice_Drops s is)"
  using length_drops_loop [of 0 "uniqueSorted is" "s_a s"]
  by (auto simp: slice_ok_def Slice_Drops_def)

lemma Slice_Append_unbounded [simp]: "s_maxLen s \<le> 0 \<Longrightarrow> s_a (Slice_Append s x) = s_a s @ [x]"
  by (simp add: Slice_Append_def)

lemma s_maxLen_Append [simp]: "s_maxLen (Slice_Append s x) = s_maxLen s"
  by (simp add: Slice_Append_def Let_def)

lemma NewSlice_simps [simp]: "s_maxLen (NewSlice src mx) = mx" "s_a (NewSlice [] mx) = []"
  by (simp_all add: NewSlice_def Let_def)

text \<open>The public mutators of a slice, for statements about every sequence of calls.\<close>

datatype 'a SliceCall =
  CallAppendHead 'a | CallAppend 'a | CallMerge "'a Slice" | CallDrop int | CallDrops "int list"

fun slice_call :: "'a SliceCall \<Rightarrow> 'a Slice \<Rightarrow> 'a Slice" where
  "slice_call (CallAppendHead x) s = Slice_AppendHead s x"
| "slice_call (CallAppend x) s = Slice_Append s x"
| "slice_call (CallMerge t) s = Slice_Merge s t"
| "slice_call (CallDrop i) s = snd (Slice_Drop s i)"
| "slice_call (CallDrops is) s = Slice_Drops s is"

lemma slice_call_ok: "slice_ok s \<Longrightarrow> slice_ok (slice_call c s)"
  by (cases c)
    (simp_all add: slice_ok_AppendHead slice_ok_Append slice_ok_Merge slice_ok_Drop slice_ok_Drops)

lemma slice_call_maxLen: "s_maxLen (slice_call c s) = s_maxLen s"
  by (cases c) (auto simp: Slice_AppendHead_def Slice_Append_def Slice_Merge_def Slice_Drop_def
      Slice_Drops_def Let_def)

lemma slice_calls_ok:
  "slice_ok s \<Longrightarrow> slice_ok (fold slice_call cs s) \<and> s_maxLen (fold slice_call cs s) = s_maxLen s"
  by (induction cs arbitrary: s) (auto simp: slice_call_ok slice_call_maxLen)

section \<open>What Drops removes\<close>

lemma keep_changes_props:
  "sorted xs \<Longrightarrow> (\<forall>p. prev = Some p \<longrightarrow> (\<forall>x\<in>set xs. p \<le> x)) \<Longrightarrow>
   sorted_wrt (<) (keep_changes prev xs) \<and>
   set (keep_changes prev xs) = set xs - set_option prev"
proof (induction prev xs rule: keep_changes.induct)
  case (2 prev x xs)
  have IH: "sorted_wrt (<) (keep_changes (Some x) xs)"
    "set (keep_changes (Some x) xs) = set xs - {x}"
    using 2 by auto
  have "\<forall>y \<in> set xs. x \<le> y" using "2.prems"(1) by simp
  with IH "2.prems" show ?case by force
qed simp

lemma sorted_uniqueSorted: "sorted_wrt (<) (uniqueSorted xs)"
  using keep_changes_props [of "sort xs" None] by (simp add: uniqueSorted_def)

lemma set_uniqueSorted: "set (uniqueSorted xs) = set xs"
  using keep_changes_props [of "sort xs" None] by (simp add: uniqueSorted_def)

lemma nths_all_kept: "(\<And>j. j < length a \<Longrightarrow> j \<in> A) \<Longrightarrow> nths a A = a"
  by (rule nths_all) auto

lemma nths_agree: "(\<And>j. j < length a \<Longrightarrow> j \<in> A \<longleftrightarrow> j \<in> B) \<Longrightarrow> nths a A = nths a B"
  unfolding nths_def by (intro arg_cong [where f = "map fst"] filter_cong) (auto simp: set_zip)

lemma nths_drop_at:
  assumes "k < length a" and "k \<notin> A"
  shows "nths a A = nths (drop_at a k) {j. (if j < k then j else Suc j) \<in> A}"
proof -
  have a: "a = take k a @ a ! k # drop (Suc k) a"
    using assms(1) by (simp add: id_take_nth_drop)
  have 1: "nths a A = nths (take k a) A @ nths (drop (Suc k) a) {j. j + Suc k \<in> A}"
    using assms by (subst a, subst nths_append) (simp add: nths_Cons min_absorb2)
  have 2: "nths (take k a) A = nths (take k a) {j. (if j < k then j else Suc j) \<in> A}"
    by (rule nths_agree) simp
  have 3: "{j. j + Suc k \<in> A} = {j. j + k \<in> {j. (if j < k then j else Suc j) \<in> A}}"
    by auto
  show ?thesis
    unfolding drop_at_def by (subst nths_append) (use 1 2 3 assms(1) in \<open>simp add: min_absorb2\<close>)
qed

lemma drops_loop_nths:
  "sorted_wrt (<) idxs \<Longrightarrow> (\<forall>i\<in>set idxs. removed \<le> i) \<Longrightarrow>
   drops_loop removed idxs a = nths a {j. int j + removed \<notin> set idxs}"
proof (induction removed idxs a rule: drops_loop.induct)
  case (1 removed a)
  then show ?case by (simp add: nths_all)
next
  case (2 removed idx idxs a)
  let ?adj = "idx - removed"
  have ge: "removed \<le> idx" and gt: "\<forall>i\<in>set idxs. idx < i" and later: "\<forall>i\<in>set idxs. removed + 1 \<le> i"
    using "2.prems" by auto
  show ?case
  proof (cases "int (length a) \<le> ?adj")
    case True
    then have "drops_loop removed (idx # idxs) a = nths a {j. int j + (removed + 1) \<notin> set idxs}"
      using 2 later by (simp add: Let_def)
    also have "\<dots> = a" by (rule nths_all_kept) (use True gt in force)
    also have "\<dots> = nths a {j. int j + removed \<notin> set (idx # idxs)}"
      by (rule sym, rule nths_all_kept) (use True gt in force)
    finally show ?thesis .
  next
    case False
    let ?k = "nat ?adj"
    have k: "?k < length a" using False ge by linarith
    have "drops_loop removed (idx # idxs) a =
        nths (drop_at a ?k) {j. int j + (removed + 1) \<notin> set idxs}"
      using 2 False ge later by (simp add: Let_def)
    also have "{j. int j + (removed + 1) \<notin> set idxs} =
        {j. (if j < ?k then j else Suc j) \<in> {j. int j + removed \<notin> set (idx # idxs)}}"
      using ge gt by (auto simp: algebra_simps)
    also have "nths (drop_at a ?k) \<dots> = nths a {j. int j + removed \<notin> set (idx # idxs)}"
      by (rule sym, rule nths_drop_at [OF k]) (use ge in simp)
    finally show ?thesis .
  qed
qed

section \<open>Properties of slices\<close>

text \<open>
  A slice made with a positive \<open>maxLen\<close> never holds more items than that, whatever sequence
  of its mutators is called.
\<close>

lemma bounded_slice_stays_bounded:
  "0 < mx \<Longrightarrow> int (Slice_Len (fold slice_call cs (NewSlice src mx))) \<le> mx"
  using slice_calls_ok [OF slice_ok_NewSlice, of cs src mx] by (auto simp: slice_ok_def Slice_Len_def)

text \<open>
  \<open>Drops\<close> with indices that are not negative (in any order, with repetitions, also beyond
  the end) keeps exactly the items at the other positions, in order.
\<close>

theorem Drops_removes_exactly_the_indices:
  "\<forall>i \<in> set indices. 0 \<le> i \<Longrightarrow> s_a (Slice_Drops s indices) = nths (s_a s) {j. int j \<notin> set indices}"
  using drops_loop_nths [of "uniqueSorted indices" 0 "s_a s"]
  by (simp add: Slice_Drops_def sorted_uniqueSorted set_uniqueSorted)

theorem Drops_removes_exactly_the_indices_witness:
  "s_a (Slice_Drops (NewSlice [10, 20, 30, 40 :: nat] 0) [3, 1, 1, 9]) = [10, 30]"
proof -
  have "nths [10, 20, 30, 40 :: nat] {j. int j \<notin> set [3, 1, 1, 9]} = [10, 30]" by (simp add: nths_Cons)
  then show ?thesis
    using Drops_removes_exactly_the_indices [of "[3, 1, 1, 9]" "NewSlice [10, 20, 30, 40 :: nat] 0"]
    by (simp add: NewSlice_def)
qed

text \<open>A negative index is not ignored: it shifts the removals that follow it by one place.\<close>

lemma Drops_negative_index: "s_a (Slice_Drops (NewSlice [10, 20, 30 :: nat] 0) [-1, 1]) = [20, 30]"
  by code_simp

end
