(* ===== verification/Orders.thy ===== *)
theory Orders
  imports Domains Mutex
begin

text \<open>
  \<open>deals/order.go\<close>, \<open>deals/errors.go\<close>, \<open>deals/order_data.go\<close>, \<open>deals/order_resps.go\<close>:
  the \<open>Order\<close> struct with its locked accessors, its callback lists, the constructors and
  the conversions between a signed size and a quantity with a side.

  A pointer \<open>*Order\<close> is a reference into a store of orders (\<open>Dealer.thy\<close>); the methods
  here are functions of the order they are called on. Each takes the order's read-write
  lock \<open>mu\<close> for its whole body, so it is atomic.
\<close>

section \<open>errors.go\<close>

datatype sentinel =
    ServerTimeoutError | ParameterError | PriceSettingError | AuthError | ExecLateLimitError
  | LateLimitError | InsufficientBalanceError | AccountLockError | HttpRequestError
  | InfoError | WarnError | OtherError
  | OrderIsNotExists
  | DealingErrorOrderIsAlreadyExists | DealingErrorOrderNotReadyForOperation
  | DealingErrorOrderNotFound | DealingErrorOrderIsNotAmendable

text \<open>
  An \<open>error\<close> value: one of the package's sentinels, a sentinel wrapped with \<open>%w\<close> and a
  message, or any error made from a message alone.
\<close>

datatype error = Sentinel sentinel | Wrapped error string | Message string

definition mk_Error :: "error \<Rightarrow> string \<Rightarrow> error" where
  "mk_Error err msg = Wrapped err msg"

text \<open>\<open>errors.Is\<close> of the standard library: some error of the chain is the target.\<close>

fun errors_Is :: "error \<Rightarrow> sentinel \<Rightarrow> bool" where
  "errors_Is (Sentinel s) target = (s = target)"
| "errors_Is (Wrapped e m) target = errors_Is e target"
| "errors_Is (Message m) target = False"

section \<open>order_data.go\<close>

datatype OrderDoneReason =
    OrderDoneReasonUnknown
  | OrderDoneReasonFilled
  | OrderDoneReasonPartiallyFilledAndCanceled
  | OrderDoneReasonCanceled
  | OrderDoneReasonAmended
  | OrderDoneReasonRejected
  | OrderDoneReasonAbandoned

definition OrderDoneReason_String :: "OrderDoneReason \<Rightarrow> string" where
  "OrderDoneReason_String r =
     (case r of
        OrderDoneReasonFilled \<Rightarrow> ''Filled''
      | OrderDoneReasonCanceled \<Rightarrow> ''Canceled''
      | OrderDoneReasonAmended \<Rightarrow> ''Amended''
      | _ \<Rightarrow> ''Unknown'')"

datatype OrderDataStatus =
    OrderDataStatusUnknown
  | OrderDataStatusOpened
  | OrderDataStatusCanceled
  | OrderDataStatusFilled
  | OrderDataStatusPartiallyFilled
  | OrderDataStatusRejected

record 'd OrderData =
  od_ID :: string
  od_PublicID :: string
  od_Side :: Side
  od_Price :: 'd
  od_Qty :: 'd
  od_AvgExecPrice :: 'd
  od_CumFee :: 'd
  od_CumExecQty :: 'd
  od_Status :: OrderDataStatus
  od_ArrivedAt :: "time option"
  od_ConfirmedAt :: "time option"

definition OrderData_isDone :: "'d OrderData \<Rightarrow> bool" where
  "OrderData_isDone o1 \<longleftrightarrow> od_Status o1 = OrderDataStatusFilled \<or> od_Status o1 = OrderDataStatusCanceled \<or>
     od_Status o1 = OrderDataStatusRejected"

definition OrderData_isUnrelated :: "'d OrderData \<Rightarrow> bool" where
  "OrderData_isUnrelated o1 \<longleftrightarrow> od_ID o1 = []"

definition OrderData_DoneReason :: "'d OrderData \<Rightarrow> OrderDoneReason" where
  "OrderData_DoneReason o1 =
     (case od_Status o1 of
        OrderDataStatusFilled \<Rightarrow> OrderDoneReasonFilled
      | OrderDataStatusCanceled \<Rightarrow> OrderDoneReasonCanceled
      | OrderDataStatusRejected \<Rightarrow> OrderDoneReasonRejected
      | _ \<Rightarrow> OrderDoneReasonUnknown)"

section \<open>order.go: the order\<close>

datatype OrderStatus =
    OrderStatusUnknown
  | OrderStatusBorn
  | OrderStatusSending
  | OrderStatusPending
  | OrderStatusCanceling
  | OrderStatusAmending
  | OrderStatusDone

definition OrderStatus_String :: "OrderStatus \<Rightarrow> string" where
  "OrderStatus_String s =
     (case s of
        OrderStatusBorn \<Rightarrow> ''Born''
      | OrderStatusSending \<Rightarrow> ''Sending''
      | OrderStatusPending \<Rightarrow> ''Pending''
      | OrderStatusCanceling \<Rightarrow> ''Canceling''
      | OrderStatusAmending \<Rightarrow> ''Amending''
      | OrderStatusDone \<Rightarrow> ''Done''
      | OrderStatusUnknown \<Rightarrow> ''Unknown'')"

record 'd AmendDetail =
  ad_Price :: 'd
  ad_Qty :: 'd

text \<open>
  An \<open>OrderCallback\<close> is one of the closures the package registers (the deferred amend of
  \<open>AmendOrder\<close>, which captures the detail it was called with, and the deferred cancel of
  \<open>CancelOrder\<close> and \<open>CancelOrders\<close>) or a function of the user, known by a number.
\<close>

datatype 'd OrderCallback =
  UserCallback nat | DeferredAmend "'d AmendDetail" | DeferredCancel

record 'd Order =
  o_id :: string
  o_publicID :: string
  o_hide :: bool
  o_memo :: string
  o_orderType :: OrderType
  o_price :: 'd
  o_qty :: 'd
  o_side :: Side
  o_sentAt :: "time option"
  o_arrivedAt :: "time option"
  o_confirmedAt :: "time option"
  o_lastOperatedAt :: "time option"
  o_status :: OrderStatus
  o_filledAt :: "time option"
  o_avgPrice :: 'd
  o_execQty :: 'd
  o_fee :: 'd
  o_orderDoneReason :: "OrderDoneReason option"
  o_createCallbacks :: "'d OrderCallback list"
  o_amendCallbacks :: "'d OrderCallback list"
  o_fillCallbacks :: "'d OrderCallback list"
  o_partiallyFillCallBacks :: "'d OrderCallback list"
  o_cancelCallbacks :: "'d OrderCallback list"
  o_createRejectCallbacks :: "'d OrderCallback list"
  o_amendRejectCallbacks :: "'d OrderCallback list"
  o_amendRejectOrderNotExistCallbacks :: "'d OrderCallback list"
  o_cancelRejectCallbacks :: "'d OrderCallback list"
  o_amendingDetail :: "'d AmendDetail option"
  o_amendCount :: int

text \<open>The zero value of the struct.\<close>

definition zeroOrder :: "'d :: linordered_idom Order" where
  "zeroOrder = \<lparr>o_id = [], o_publicID = [], o_hide = False, o_memo = [],
     o_orderType = OrderTypeUnknown, o_price = 0, o_qty = 0, o_side = SideNone,
     o_sentAt = None, o_arrivedAt = None, o_confirmedAt = None, o_lastOperatedAt = None,
     o_status = OrderStatusUnknown, o_filledAt = None, o_avgPrice = 0, o_execQty = 0, o_fee = 0,
     o_orderDoneReason = None, o_createCallbacks = [], o_amendCallbacks = [], o_fillCallbacks = [],
     o_partiallyFillCallBacks = [], o_cancelCallbacks = [], o_createRejectCallbacks = [],
     o_amendRejectCallbacks = [], o_amendRejectOrderNotExistCallbacks = [],
     o_cancelRejectCallbacks = [], o_amendingDetail = None, o_amendCount = 0\<rparr>"

subsection \<open>Accessors\<close>

definition GetID :: "'d Order \<Rightarrow> string" where [go_simps]: "GetID o1 = o_id o1"
definition setPublicID :: "string \<Rightarrow> 'd Order \<Rightarrow> 'd Order" where
  [go_simps]: "setPublicID i o1 = o1\<lparr>o_publicID := i\<rparr>"
definition GetPublicID :: "'d Order \<Rightarrow> string" where [go_simps]: "GetPublicID o1 = o_publicID o1"
definition IsHide :: "'d Order \<Rightarrow> bool" where [go_simps]: "IsHide o1 = o_hide o1"
definition GetMemo :: "'d Order \<Rightarrow> string" where [go_simps]: "GetMemo o1 = o_memo o1"
definition SetMemo :: "string \<Rightarrow> 'd Order \<Rightarrow> 'd Order" where [go_simps]: "SetMemo m o1 = o1\<lparr>o_memo := m\<rparr>"
definition GetOrderType :: "'d Order \<Rightarrow> OrderType" where [go_simps]: "GetOrderType o1 = o_orderType o1"
definition GetPrice :: "'d Order \<Rightarrow> 'd" where [go_simps]: "GetPrice o1 = o_price o1"
definition GetQty :: "'d Order \<Rightarrow> 'd" where [go_simps]: "GetQty o1 = o_qty o1"
definition GetSide :: "'d Order \<Rightarrow> Side" where [go_simps]: "GetSide o1 = o_side o1"
definition GetSentAt :: "'d Order \<Rightarrow> time option" where [go_simps]: "GetSentAt o1 = o_sentAt o1"
definition GetArrivedAt :: "'d Order \<Rightarrow> time option" where [go_simps]: "GetArrivedAt o1 = o_arrivedAt o1"
definition GetConfirmedAt :: "'d Order \<Rightarrow> time option" where
  [go_simps]: "GetConfirmedAt o1 = o_confirmedAt o1"
definition GetFilledAt :: "'d Order \<Rightarrow> time option" where [go_simps]: "GetFilledAt o1 = o_filledAt o1"
definition setFilledAt :: "time option \<Rightarrow> 'd Order \<Rightarrow> 'd Order" where
  [go_simps]: "setFilledAt t o1 = o1\<lparr>o_filledAt := t\<rparr>"
definition GetAvgPrice :: "'d Order \<Rightarrow> 'd" where [go_simps]: "GetAvgPrice o1 = o_avgPrice o1"
definition setAvgPrice :: "'d \<Rightarrow> 'd Order \<Rightarrow> 'd Order" where
  [go_simps]: "setAvgPrice p o1 = o1\<lparr>o_avgPrice := p\<rparr>"
definition GetExecQty :: "'d Order \<Rightarrow> 'd" where [go_simps]: "GetExecQty o1 = o_execQty o1"
definition setExecQty :: "'d \<Rightarrow> 'd Order \<Rightarrow> 'd Order" where
  [go_simps]: "setExecQty q o1 = o1\<lparr>o_execQty := q\<rparr>"
definition GetFee :: "'d Order \<Rightarrow> 'd" where [go_simps]: "GetFee o1 = o_fee o1"
definition setFee :: "'d \<Rightarrow> 'd Order \<Rightarrow> 'd Order" where [go_simps]: "setFee f o1 = o1\<lparr>o_fee := f\<rparr>"
definition GetOrderDoneReason :: "'d Order \<Rightarrow> OrderDoneReason option" where
  [go_simps]: "GetOrderDoneReason o1 = o_orderDoneReason o1"

fun IsOneOfStatus :: "'d Order \<Rightarrow> OrderStatus list \<Rightarrow> bool" where
  "IsOneOfStatus o1 [] = False"
| "IsOneOfStatus o1 (s # ss) = (if o_status o1 = s then True else IsOneOfStatus o1 ss)"

definition isConfirmed :: "'d Order \<Rightarrow> bool" where [go_simps]: "isConfirmed o1 \<longleftrightarrow> o_confirmedAt o1 \<noteq> None"

text \<open>\<open>now\<close> is what \<open>time.Now()\<close> answers at this call.\<close>

definition recordLastOperatedTimestamp :: "time \<Rightarrow> 'd Order \<Rightarrow> 'd Order" where
  [go_simps]: "recordLastOperatedTimestamp now o1 = o1\<lparr>o_lastOperatedAt := Some now\<rparr>"

definition setSentTimestamp :: "time option \<Rightarrow> 'd Order \<Rightarrow> 'd Order" where
  [go_simps]: "setSentTimestamp orderingAt o1 =
    (if orderingAt \<noteq> None then o1\<lparr>o_sentAt := orderingAt\<rparr> else o1)"

definition setConfirmTimestamps :: "time option \<Rightarrow> time option \<Rightarrow> 'd Order \<Rightarrow> 'd Order" where
  [go_simps]: "setConfirmTimestamps arrivedAt confirmedAt o1 =
    (let o2 = (if arrivedAt \<noteq> None then o1\<lparr>o_arrivedAt := arrivedAt\<rparr> else o1)
     in if confirmedAt \<noteq> None then o2\<lparr>o_confirmedAt := confirmedAt\<rparr> else o2)"

text \<open>\<open>amend\<close> reads through its pointer argument, so a nil detail panics.\<close>

definition amend :: "'d AmendDetail option \<Rightarrow> 'd Order \<Rightarrow> 'd Order result" where
  "amend detail o1 =
     (case detail of
        None \<Rightarrow> Inl NilDeref
      | Some ad \<Rightarrow> Inr (o1\<lparr>o_price := ad_Price ad, o_qty := ad_Qty ad\<rparr>))"

definition setOrderDoneReason :: "OrderDoneReason \<Rightarrow> 'd Order \<Rightarrow> 'd Order" where
  [go_simps]: "setOrderDoneReason r o1 = o1\<lparr>o_orderDoneReason := Some r\<rparr>"
definition GetStatus :: "'d Order \<Rightarrow> OrderStatus" where [go_simps]: "GetStatus o1 = o_status o1"
definition setStatus :: "OrderStatus \<Rightarrow> 'd Order \<Rightarrow> 'd Order" where
  [go_simps]: "setStatus s o1 = o1\<lparr>o_status := s\<rparr>"
definition getLastOperatedTimestamp :: "'d Order \<Rightarrow> time option" where
  [go_simps]: "getLastOperatedTimestamp o1 = o_lastOperatedAt o1"
definition setAmendingDetail :: "'d AmendDetail option \<Rightarrow> 'd Order \<Rightarrow> 'd Order" where
  [go_simps]: "setAmendingDetail ad o1 = o1\<lparr>o_amendingDetail := ad\<rparr>"
definition GetAmendingDetail :: "'d Order \<Rightarrow> 'd AmendDetail option" where
  [go_simps]: "GetAmendingDetail o1 = o_amendingDetail o1"
definition incAmendCount :: "'d Order \<Rightarrow> 'd Order" where
  [go_simps]: "incAmendCount o1 = o1\<lparr>o_amendCount := o_amendCount o1 + 1\<rparr>"

subsection \<open>Callback registration\<close>

definition SetCreateCallback :: "'d OrderCallback \<Rightarrow> 'd Order \<Rightarrow> 'd Order" where
  [go_simps]: "SetCreateCallback cb o1 =
    (if IsTaker (GetOrderType o1) then o1 else o1\<lparr>o_createCallbacks := o_createCallbacks o1 @ [cb]\<rparr>)"

definition SetCreateRejectCallback :: "'d OrderCallback \<Rightarrow> 'd Order \<Rightarrow> 'd Order" where
  [go_simps]: "SetCreateRejectCallback cb o1 =
    o1\<lparr>o_createRejectCallbacks := o_createRejectCallbacks o1 @ [cb]\<rparr>"

definition SetCancelCallback :: "'d OrderCallback \<Rightarrow> 'd Order \<Rightarrow> 'd Order" where
  [go_simps]: "SetCancelCallback cb o1 = o1\<lparr>o_cancelCallbacks := o_cancelCallbacks o1 @ [cb]\<rparr>"

definition SetCancelRejectCallback :: "'d OrderCallback \<Rightarrow> 'd Order \<Rightarrow> 'd Order" where
  [go_simps]: "SetCancelRejectCallback cb o1 =
    o1\<lparr>o_cancelRejectCallbacks := o_cancelRejectCallbacks o1 @ [cb]\<rparr>"

definition SetAmendCallback :: "'d OrderCallback \<Rightarrow> 'd Order \<Rightarrow> 'd Order" where
  [go_simps]: "SetAmendCallback cb o1 =
    (if \<not> IsAmenable (GetOrderType o1) then o1 else o1\<lparr>o_amendCallbacks := o_amendCallbacks o1 @ [cb]\<rparr>)"

definition SetAmendRejectCallback :: "'d OrderCallback \<Rightarrow> 'd Order \<Rightarrow> 'd Order" where
  [go_simps]: "SetAmendRejectCallback cb o1 =
    o1\<lparr>o_amendRejectCallbacks := o_amendRejectCallbacks o1 @ [cb]\<rparr>"

definition SetAmendRejectOrderNotExistCallback :: "'d OrderCallback \<Rightarrow> 'd Order \<Rightarrow> 'd Order" where
  [go_simps]: "SetAmendRejectOrderNotExistCallback cb o1 =
    o1\<lparr>o_amendRejectOrderNotExistCallbacks := o_amendRejectOrderNotExistCallbacks o1 @ [cb]\<rparr>"

definition SetFillCallback :: "'d OrderCallback \<Rightarrow> 'd Order \<Rightarrow> 'd Order" where
  [go_simps]: "SetFillCallback cb o1 = o1\<lparr>o_fillCallbacks := o_fillCallbacks o1 @ [cb]\<rparr>"

definition SetPartiallyFillCallback :: "'d OrderCallback \<Rightarrow> 'd Order \<Rightarrow> 'd Order" where
  [go_simps]: "SetPartiallyFillCallback cb o1 =
    o1\<lparr>o_partiallyFillCallBacks := o_partiallyFillCallBacks o1 @ [cb]\<rparr>"

definition ReplaceCreateCallbacks :: "'d OrderCallback \<Rightarrow> 'd Order \<Rightarrow> 'd Order" where
  [go_simps]: "ReplaceCreateCallbacks cb o1 = o1\<lparr>o_createCallbacks := [cb]\<rparr>"

definition ReplaceAmendCallbacks :: "'d OrderCallback \<Rightarrow> 'd Order \<Rightarrow> 'd Order" where
  [go_simps]: "ReplaceAmendCallbacks cb o1 = o1\<lparr>o_amendCallbacks := [cb]\<rparr>"

subsection \<open>Guards\<close>

text \<open>In status Amending the code reads through \<open>amendingDetail\<close>, so a nil detail panics.\<close>

definition isNeedToAmend :: "'d :: linordered_idom AmendDetail \<Rightarrow> 'd Order \<Rightarrow> bool result" where
  "isNeedToAmend detail o1 =
     (case o_status o1 of
        OrderStatusPending \<Rightarrow> Inr (o_price o1 \<noteq> ad_Price detail \<or> o_qty o1 \<noteq> ad_Qty detail)
      | OrderStatusAmending \<Rightarrow>
          (case o_amendingDetail o1 of
             None \<Rightarrow> Inl NilDeref
           | Some ad \<Rightarrow>
               (let oDiff = (o_price o1 \<noteq> ad_Price detail \<or> o_qty o1 \<noteq> ad_Qty detail);
                    aDiff = (ad_Price ad \<noteq> ad_Price detail \<or> ad_Qty ad \<noteq> ad_Qty detail)
                in Inr (oDiff \<and> aDiff)))
      | _ \<Rightarrow> Inr False)"

definition isAmendAble :: "'d Order \<Rightarrow> bool" where
  "isAmendAble o1 \<longleftrightarrow> o_amendCount o1 < 9500"

definition OutboundDuration :: "'d Order \<Rightarrow> duration option" where
  "OutboundDuration o1 =
     (case (o_arrivedAt o1, o_sentAt o1) of (Some a, Some s) \<Rightarrow> Some (Time_Sub a s) | _ \<Rightarrow> None)"

definition ReturnDuration :: "'d Order \<Rightarrow> duration option" where
  "ReturnDuration o1 =
     (case (o_arrivedAt o1, o_confirmedAt o1) of (Some a, Some c) \<Rightarrow> Some (Time_Sub c a) | _ \<Rightarrow> None)"

definition RoundTripDuration :: "'d Order \<Rightarrow> duration option" where
  "RoundTripDuration o1 =
     (case (o_sentAt o1, o_confirmedAt o1) of (Some s, Some c) \<Rightarrow> Some (Time_Sub c s) | _ \<Rightarrow> None)"

subsection \<open>Sizes, quantities and constructors\<close>

definition ToSize :: "Side \<Rightarrow> 'd :: linordered_idom \<Rightarrow> 'd" where
  "ToSize s q = (case s of SideBuy \<Rightarrow> q | SideSell \<Rightarrow> - q | SideNone \<Rightarrow> 0)"

definition ToQty :: "'d :: linordered_idom \<Rightarrow> 'd \<times> Side" where
  "ToQty size1 =
     (let s = (if size1 < 0 then SideSell else if 0 < size1 then SideBuy else SideNone)
      in (\<bar>size1\<bar>, s))"

definition GetSize :: "'d :: linordered_idom Order \<Rightarrow> 'd" where
  "GetSize o1 = ToSize (o_side o1) (GetQty o1)"

text \<open>\<open>xid\<close> is the identifier \<open>xid.New().String()\<close> answers.\<close>

definition NewLimitOrder ::
  "string \<Rightarrow> 'd \<Rightarrow> 'd \<Rightarrow> Side \<Rightarrow> bool \<Rightarrow> string \<Rightarrow> 'd :: linordered_idom Order" where
  "NewLimitOrder xid p q s h m = zeroOrder\<lparr>o_id := xid, o_orderType := OrderTypeLimit,
     o_price := p, o_qty := q, o_side := s, o_status := OrderStatusBorn, o_hide := h, o_memo := m\<rparr>"

definition NewLimitOrderBySize ::
  "string \<Rightarrow> 'd \<Rightarrow> 'd \<Rightarrow> bool \<Rightarrow> string \<Rightarrow> 'd :: linordered_idom Order" where
  "NewLimitOrderBySize xid p sz h m = (case ToQty sz of (q, s) \<Rightarrow> NewLimitOrder xid p q s h m)"

definition NewLimitFOKOrder ::
  "string \<Rightarrow> 'd \<Rightarrow> 'd \<Rightarrow> Side \<Rightarrow> string \<Rightarrow> 'd :: linordered_idom Order" where
  "NewLimitFOKOrder xid p q s m = zeroOrder\<lparr>o_id := xid, o_orderType := OrderTypeLimitFOK,
     o_price := p, o_qty := q, o_side := s, o_status := OrderStatusBorn, o_hide := False, o_memo := m\<rparr>"

definition NewLimitFOKOrderBySize ::
  "string \<Rightarrow> 'd \<Rightarrow> 'd \<Rightarrow> string \<Rightarrow> 'd :: linordered_idom Order" where
  "NewLimitFOKOrderBySize xid p sz m = (case ToQty sz of (q, s) \<Rightarrow> NewLimitFOKOrder xid p q s m)"

definition NewLimitIOCOrder ::
  "string \<Rightarrow> 'd \<Rightarrow> 'd \<Rightarrow> 'd \<Rightarrow> Side \<Rightarrow> string \<Rightarrow> 'd :: linordered_idom Order" where
  "NewLimitIOCOrder xid p arrowSlippage q s m =
     (let adjustedPrice = (case s of SideSell \<Rightarrow> p - arrowSlippage | SideBuy \<Rightarrow> p + arrowSlippage
                           | SideNone \<Rightarrow> p)
      in zeroOrder\<lparr>o_id := xid, o_orderType := OrderTypeLimitIOC, o_price := adjustedPrice,
           o_qty := q, o_side := s, o_status := OrderStatusBorn, o_hide := False, o_memo := m\<rparr>)"

definition NewLimitIOCOrderBySize ::
  "string \<Rightarrow> 'd \<Rightarrow> 'd \<Rightarrow> 'd \<Rightarrow> string \<Rightarrow> 'd :: linordered_idom Order" where
  "NewLimitIOCOrderBySize xid p arrowSlippage sz m =
     (case ToQty sz of (q, s) \<Rightarrow> NewLimitIOCOrder xid p arrowSlippage q s m)"

definition NewLimitMakerOrder ::
  "string \<Rightarrow> 'd \<Rightarrow> 'd \<Rightarrow> Side \<Rightarrow> bool \<Rightarrow> string \<Rightarrow> 'd :: linordered_idom Order" where
  "NewLimitMakerOrder xid p q s h m = zeroOrder\<lparr>o_id := xid, o_orderType := OrderTypeLimitMaker,
     o_price := p, o_qty := q, o_side := s, o_status := OrderStatusBorn, o_hide := h, o_memo := m\<rparr>"

definition NewLimitMakerOrderBySize ::
  "string \<Rightarrow> 'd \<Rightarrow> 'd \<Rightarrow> bool \<Rightarrow> string \<Rightarrow> 'd :: linordered_idom Order" where
  "NewLimitMakerOrderBySize xid p sz h m = (case ToQty sz of (q, s) \<Rightarrow> NewLimitMakerOrder xid p q s h m)"

definition NewMarketOrder ::
  "string \<Rightarrow> 'd \<Rightarrow> Side \<Rightarrow> string \<Rightarrow> 'd :: linordered_idom Order" where
  "NewMarketOrder xid q s m = zeroOrder\<lparr>o_id := xid, o_orderType := OrderTypeMarket,
     o_price := 0, o_qty := q, o_side := s, o_status := OrderStatusBorn, o_hide := False, o_memo := m\<rparr>"

definition NewMarketOrderBySize :: "string \<Rightarrow> 'd \<Rightarrow> string \<Rightarrow> 'd :: linordered_idom Order" where
  "NewMarketOrderBySize xid sz m = (case ToQty sz of (q, s) \<Rightarrow> NewMarketOrder xid q s m)"

section \<open>order_resps.go\<close>

record CreateOrderResp =
  cr_OrderID :: string
  cr_PublicID :: string
  cr_ArrivedAt :: "time option"
  cr_ConfirmedAt :: "time option"
  cr_Err :: "error option"

record 'd AmendOrderResp =
  ar_OrderID :: string
  ar_Detail :: "'d AmendDetail option"
  ar_ArrivedAt :: "time option"
  ar_ConfirmedAt :: "time option"
  ar_Err :: "error option"

record CancelOrderResp =
  xr_OrderID :: string
  xr_Err :: "error option"

text \<open>The response maps hold pointers; a key may be bound to nil (\<open>Some None\<close>).\<close>

type_synonym CreateOrdersRespMap = "string \<rightharpoonup> CreateOrderResp option"
type_synonym 'd AmendOrdersRespMap = "string \<rightharpoonup> 'd AmendOrderResp option"
type_synonym CancelOrdersRespMap = "string \<rightharpoonup> CancelOrderResp option"

section \<open>Lemmas\<close>

lemma IsOneOfStatus_iff: "IsOneOfStatus o1 ss \<longleftrightarrow> o_status o1 \<in> set ss"
  by (induction ss) auto

lemma errors_Is_mk_Error [simp]: "errors_Is (mk_Error e m) s = errors_Is e s"
  by (simp add: mk_Error_def)

lemma isNeedToAmend_no_panic:
  "(o_status o1 = OrderStatusAmending \<Longrightarrow> o_amendingDetail o1 \<noteq> None) \<Longrightarrow>
     \<exists>b. isNeedToAmend detail o1 = Inr b"
  by (auto simp: isNeedToAmend_def Let_def split: OrderStatus.split option.split)

lemma ToSize_ToQty: "(case ToQty sz of (q, s) \<Rightarrow> ToSize s q) = sz"
  by (simp add: ToQty_def ToSize_def Let_def)

lemma ToQty_ToSize: "0 < q \<Longrightarrow> s \<noteq> SideNone \<Longrightarrow> ToQty (ToSize s q) = (q, s)"
  by (cases s) (simp_all add: ToQty_def ToSize_def Let_def)

text \<open>
  Round trip of signed sizes: every order built from a signed size, by any of the five
  \<open>BySize\<close> constructors, reports that size through \<open>GetSize\<close>; it is born, with a
  non-negative quantity.
\<close>

theorem BySize_orders_report_size:
  assumes "o1 \<in> {NewLimitOrderBySize xid p sz h m, NewLimitFOKOrderBySize xid p sz m,
     NewLimitIOCOrderBySize xid p slip sz m, NewLimitMakerOrderBySize xid p sz h m,
     NewMarketOrderBySize xid sz m}"
  shows "GetSize o1 = sz \<and> 0 \<le> GetQty o1 \<and> GetStatus o1 = OrderStatusBorn \<and> GetID o1 = xid"
  using assms
  by (auto simp: NewLimitOrderBySize_def NewLimitFOKOrderBySize_def NewLimitIOCOrderBySize_def
      NewLimitMakerOrderBySize_def NewMarketOrderBySize_def NewLimitOrder_def NewLimitFOKOrder_def
      NewLimitIOCOrder_def NewLimitMakerOrder_def NewMarketOrder_def GetSize_def ToQty_def ToSize_def
      go_simps Let_def)

theorem BySize_orders_report_size_witness:
  "GetSize (NewLimitIOCOrderBySize ''x1'' 100 2 (-5) [] :: int Order) = -5 \<and>
   GetPrice (NewLimitIOCOrderBySize ''x1'' 100 2 (-5) [] :: int Order) = 98"
  using BySize_orders_report_size [of "NewLimitIOCOrderBySize ''x1'' 100 2 (-5 :: int) []" "''x1''" 100 "-5" False "[]" 2]
  by (simp add: NewLimitIOCOrderBySize_def NewLimitIOCOrder_def ToQty_def GetPrice_def)

end
