(* ===== verification/Position.thy ===== *)
theory Position
  imports Orders
begin

text \<open>
  \<open>deals/position.go\<close> and \<open>deals/position_data.go\<close>: the current position of a dealer and
  the position messages of the exchange. Each method holds the position's lock for its
  whole body.
\<close>

datatype PositionMode =
  PositionModeUnknown | PositionModeOneWay | PositionModeHedgeOfBuySide | PositionModeHedgeOfSellSide

record 'd PositionData =
  pd_Timestamp :: time
  pd_PositionMode :: PositionMode
  pd_Side :: Side
  pd_Qty :: 'd

record 'd Position =
  p_value :: 'd
  p_lastUpdateAt :: time

definition PosSide :: "'d :: linordered_idom \<Rightarrow> Side" where
  "PosSide pos = (if 0 < pos then SideBuy else if pos < 0 then SideSell else SideNone)"

definition NewPosition :: "time \<Rightarrow> 'd :: linordered_idom Position" where
  "NewPosition now = \<lparr>p_value = 0, p_lastUpdateAt = now\<rparr>"

definition Position_Get :: "'d Position \<Rightarrow> 'd" where
  [go_simps]: "Position_Get p = p_value p"

definition Position_GetQty :: "'d :: linordered_idom Position \<Rightarrow> Side \<times> 'd" where
  "Position_GetQty p = (let pos = Position_Get p in (PosSide pos, \<bar>pos\<bar>))"

definition Position_GetSide :: "'d :: linordered_idom Position \<Rightarrow> Side" where
  "Position_GetSide p = PosSide (Position_Get p)"

definition getLastUpdateAt :: "'d Position \<Rightarrow> time" where
  [go_simps]: "getLastUpdateAt p = p_lastUpdateAt p"

definition Position_update :: "time \<Rightarrow> 'd \<Rightarrow> 'd Position \<Rightarrow> 'd Position" where
  [go_simps]: "Position_update ts v p = p\<lparr>p_value := v, p_lastUpdateAt := ts\<rparr>"

text \<open>The side and quantity a position reports denote its signed value.\<close>

lemma Position_GetQty_size: "(case Position_GetQty p of (s, q) \<Rightarrow> ToSize s q) = Position_Get p"
  by (simp add: Position_GetQty_def PosSide_def ToSize_def Let_def)

lemma PosSide_ToQty: "PosSide sz = snd (ToQty sz)"
  by (auto simp: PosSide_def ToQty_def Let_def)

end
