(* ===== verification/Dealer.thy ===== *)
theory Dealer
  imports Position
begin

text \<open>
  \<open>deals/dealer.go\<close> and \<open>deals/dealing_handlers.go\<close>: the per-symbol order manager.

  The state is the \<open>DealerImpl\<close> struct together with what its methods touch outside it:
  the store the order pointers refer to (\<open>d_heap\<close>, \<open>d_next\<close> the next free reference), the
  requests handed to the exchange agent (\<open>d_requests\<close>), the goroutines started with
  \<open>go cb(o)\<close> that have not run yet (\<open>d_spawned\<close>), and the calls of the injected functions
  (\<open>d_onError\<close>, \<open>d_posCalls\<close>). Log output is left out.

  The agent's immediate answer (\<open>None\<close> for nil) and the clock are arguments \<open>ag\<close> and
  \<open>now\<close> of the operations that use them; the asynchronous answer arrives later, through
  the response handlers. An operation is one atomic step: what it does between taking
  and releasing an order's operation lock \<open>muOpe\<close> is not interleaved with another
  operation on that order.
\<close>

section \<open>State\<close>

type_synonym oref = nat

datatype 'd AgentRequest =
    ReqSendOrder oref
  | ReqSendOrders "oref list"
  | ReqAmendOrder oref "'d AmendDetail"
  | ReqCancelOrder oref
  | ReqCancelOrders "oref list"

record 'd DealerImpl =
  d_acceptOrder :: Flag
  d_onError :: "error list"
  d_LivingOrders :: "(string, oref) Map"
  d_UnrelatedOrders :: "(string, oref) Map"
  d_amendingDetailMap :: "(string, 'd AmendDetail) Map"
  d_doneOrders :: "oref Slice"
  d_CurrentPosition :: "'d Position"
  d_posUpdatedHandlers :: "nat list"
  d_posCalls :: "(nat \<times> 'd PositionData list) list"
  d_heap :: "oref \<Rightarrow> 'd Order"
  d_next :: oref
  d_requests :: "'d AgentRequest list"
  d_spawned :: "(oref \<times> 'd OrderCallback) list"

definition NewOrdersMap :: "(string \<rightharpoonup> oref) option \<Rightarrow> (string, oref) Map" where
  "NewOrdersMap m = NewMap m"

definition NewOrderMuArray :: "oref list \<Rightarrow> oref Slice" where
  "NewOrderMuArray s = NewSlice s 0"

text \<open>The struct literal of \<open>NewDealer\<close>, over a given store of orders.\<close>

definition freshDealer :: "time \<Rightarrow> (oref \<Rightarrow> 'd Order) \<Rightarrow> oref \<Rightarrow> 'd :: linordered_idom DealerImpl" where
  "freshDealer now h n =
     \<lparr>d_acceptOrder = NewFlag True, d_onError = [], d_LivingOrders = NewOrdersMap None,
      d_UnrelatedOrders = NewOrdersMap None, d_amendingDetailMap = NewMap None,
      d_doneOrders = NewOrderMuArray [], d_CurrentPosition = NewPosition now,
      d_posUpdatedHandlers = [], d_posCalls = [], d_heap = h, d_next = n, d_requests = [],
      d_spawned = []\<rparr>"

text \<open>
  \<open>NewDealer\<close> over the registry of instances (\<open>dealerInstances\<close>, keyed by the symbol's
  pointer): an existing instance is returned as it is.
\<close>

definition NewDealer ::
  "(nat \<rightharpoonup> 'd DealerImpl) \<Rightarrow> nat \<Rightarrow> time \<Rightarrow> (oref \<Rightarrow> 'd Order) \<Rightarrow> oref \<Rightarrow>
     'd :: linordered_idom DealerImpl \<times> (nat \<rightharpoonup> 'd DealerImpl)" where
  "NewDealer instances symbol now h n =
     (case instances symbol of
        Some ins \<Rightarrow> (ins, instances)
      | None \<Rightarrow> (let ins = freshDealer now h n in (ins, instances(symbol \<mapsto> ins))))"

text \<open>Calling a mutator on \<open>*r\<close>, starting goroutines for \<open>*r\<close>, and calling the agent.\<close>

definition ord :: "'d DealerImpl \<Rightarrow> oref \<Rightarrow> 'd Order" where
  "ord d r = d_heap d r"

definition on :: "oref \<Rightarrow> ('d Order \<Rightarrow> 'd Order) \<Rightarrow> 'd DealerImpl \<Rightarrow> 'd DealerImpl" where
  "on r f d = d\<lparr>d_heap := (d_heap d)(r := f (d_heap d r))\<rparr>"

definition spawn :: "oref \<Rightarrow> 'd OrderCallback list \<Rightarrow> 'd DealerImpl \<Rightarrow> 'd DealerImpl" where
  "spawn r cbs d = d\<lparr>d_spawned := d_spawned d @ map (Pair r) cbs\<rparr>"

definition request :: "'d AgentRequest \<Rightarrow> 'd DealerImpl \<Rightarrow> 'd DealerImpl" where
  "request q d = d\<lparr>d_requests := d_requests d @ [q]\<rparr>"

definition execCreateCallbacks :: "oref \<Rightarrow> 'd DealerImpl \<Rightarrow> 'd DealerImpl" where
  "execCreateCallbacks r d = spawn r (o_createCallbacks (ord d r)) d"
definition execAmendCallbacks :: "oref \<Rightarrow> 'd DealerImpl \<Rightarrow> 'd DealerImpl" where
  "execAmendCallbacks r d = spawn r (o_amendCallbacks (ord d r)) d"
definition execFillCallbacks :: "oref \<Rightarrow> 'd DealerImpl \<Rightarrow> 'd DealerImpl" where
  "execFillCallbacks r d = spawn r (o_fillCallbacks (ord d r)) d"
definition execPartiallyFillCallbacks :: "oref \<Rightarrow> 'd DealerImpl \<Rightarrow> 'd DealerImpl" where
  "execPartiallyFillCallbacks r d = spawn r (o_partiallyFillCallBacks (ord d r)) d"
definition execCancelCallbacks :: "oref \<Rightarrow> 'd DealerImpl \<Rightarrow> 'd DealerImpl" where
  "execCancelCallbacks r d = spawn r (o_cancelCallbacks (ord d r)) d"
definition execCreateRejectCallbacks :: "oref \<Rightarrow> 'd DealerImpl \<Rightarrow> 'd DealerImpl" where
  "execCreateRejectCallbacks r d = spawn r (o_createRejectCallbacks (ord d r)) d"
definition execAmendRejectCallbacks :: "oref \<Rightarrow> 'd DealerImpl \<Rightarrow> 'd DealerImpl" where
  "execAmendRejectCallbacks r d = spawn r (o_amendRejectCallbacks (ord d r)) d"
definition execAmendRejectOrderNotExistCallbacks :: "oref \<Rightarrow> 'd DealerImpl \<Rightarrow> 'd DealerImpl" where
  "execAmendRejectOrderNotExistCallbacks r d =
     spawn r (o_amendRejectOrderNotExistCallbacks (ord d r)) d"
definition execCancelRejectCallbacks :: "oref \<Rightarrow> 'd DealerImpl \<Rightarrow> 'd DealerImpl" where
  "execCancelRejectCallbacks r d = spawn r (o_cancelRejectCallbacks (ord d r)) d"

section \<open>OrdersMutexMap\<close>

definition getOrder :: "(string, oref) Map \<Rightarrow> string \<Rightarrow> oref option" where
  "getOrder m oid = Map_Get m oid"

text \<open>The nil entries that \<open>Gets\<close> yields for missing keys are dropped, like orders of another status.\<close>

definition with_status ::
  "OrderStatus \<Rightarrow> (oref \<Rightarrow> 'd Order) \<Rightarrow> oref option list \<Rightarrow> oref list" where
  "with_status st h rs =
     List.map_filter (\<lambda>ro. case ro of None \<Rightarrow> None
        | Some r \<Rightarrow> if GetStatus (h r) = st then Some r else None) rs"

definition getAmendingOrders :: "(oref \<Rightarrow> 'd Order) \<Rightarrow> (string, oref) Map \<Rightarrow> string list \<Rightarrow> oref list" where
  "getAmendingOrders h m ids = with_status OrderStatusAmending h (Map_Gets m ids)"
definition getSendingOrders :: "(oref \<Rightarrow> 'd Order) \<Rightarrow> (string, oref) Map \<Rightarrow> string list \<Rightarrow> oref list" where
  "getSendingOrders h m ids = with_status OrderStatusSending h (Map_Gets m ids)"
definition getCancelingOrders :: "(oref \<Rightarrow> 'd Order) \<Rightarrow> (string, oref) Map \<Rightarrow> string list \<Rightarrow> oref list" where
  "getCancelingOrders h m ids = with_status OrderStatusCanceling h (Map_Gets m ids)"

definition getAmendingOrder :: "(oref \<Rightarrow> 'd Order) \<Rightarrow> (string, oref) Map \<Rightarrow> string \<Rightarrow> oref option" where
  "getAmendingOrder h m oid =
     (case Map_Get m oid of
        Some r \<Rightarrow> if GetStatus (h r) = OrderStatusAmending then Some r else None | None \<Rightarrow> None)"
definition getSendingOrder :: "(oref \<Rightarrow> 'd Order) \<Rightarrow> (string, oref) Map \<Rightarrow> string \<Rightarrow> oref option" where
  "getSendingOrder h m oid =
     (case Map_Get m oid of
        Some r \<Rightarrow> if GetStatus (h r) = OrderStatusSending then Some r else None | None \<Rightarrow> None)"
definition getCancelingOrder :: "(oref \<Rightarrow> 'd Order) \<Rightarrow> (string, oref) Map \<Rightarrow> string \<Rightarrow> oref option" where
  "getCancelingOrder h m oid =
     (case Map_Get m oid of
        Some r \<Rightarrow> if GetStatus (h r) = OrderStatusCanceling then Some r else None | None \<Rightarrow> None)"
definition getPendingOrder :: "(oref \<Rightarrow> 'd Order) \<Rightarrow> (string, oref) Map \<Rightarrow> string \<Rightarrow> oref option" where
  "getPendingOrder h m oid =
     (case Map_Get m oid of
        Some r \<Rightarrow> if GetStatus (h r) = OrderStatusPending then Some r else None | None \<Rightarrow> None)"

definition sumSize :: "string list \<Rightarrow> (oref \<Rightarrow> 'd Order) \<Rightarrow> (string, oref) Map \<Rightarrow> 'd :: linordered_idom" where
  "sumSize ks h m = Map_Range ks (\<lambda>_ r acc. (acc + GetSize (h r), True)) m 0"

text \<open>
  \<open>Orders.Unique\<close>: a map from identifier to the last order with it; \<open>ks\<close> is the order in
  which the final \<open>range\<close> visits the map.
\<close>

definition unique_map :: "(oref \<Rightarrow> 'd Order) \<Rightarrow> oref list \<Rightarrow> (string \<rightharpoonup> oref)" where
  "unique_map h rs = fold (\<lambda>r m. m(GetID (h r) \<mapsto> r)) rs Map.empty"

definition Unique :: "string list \<Rightarrow> (oref \<Rightarrow> 'd Order) \<Rightarrow> oref list \<Rightarrow> oref list" where
  "Unique ks h rs = List.map_filter (unique_map h rs) ks"

section \<open>dealing\_handlers.go: accept, reject, abandon\<close>

definition Living_Delete :: "oref \<Rightarrow> 'd DealerImpl \<Rightarrow> 'd DealerImpl" where
  "Living_Delete r d = d\<lparr>d_LivingOrders := Map_Delete (d_LivingOrders d) (GetID (ord d r))\<rparr>"

definition done_Append :: "oref \<Rightarrow> 'd DealerImpl \<Rightarrow> 'd DealerImpl" where
  "done_Append r d = d\<lparr>d_doneOrders := Slice_Append (d_doneOrders d) r\<rparr>"

definition setOrderFillInfo :: "oref \<Rightarrow> 'd OrderData \<Rightarrow> 'd DealerImpl \<Rightarrow> 'd DealerImpl" where
  "setOrderFillInfo r data d =
     on r (\<lambda>o0.
       let o1 = setFilledAt (od_ArrivedAt data) o0;
           o2 = setAvgPrice (od_AvgExecPrice data) o1;
           o3 = setExecQty (od_CumExecQty data) o2;
           o4 = setFee (od_CumFee data) o3
       in if GetOrderType o4 = OrderTypeMarket
          then setConfirmTimestamps (od_ArrivedAt data) (od_ConfirmedAt data)
                 (setSentTimestamp (getLastOperatedTimestamp o4) o4)
          else o4) d"

definition setOrderPartiallyFillInfo :: "oref \<Rightarrow> 'd OrderData \<Rightarrow> 'd DealerImpl \<Rightarrow> 'd DealerImpl" where
  "setOrderPartiallyFillInfo r data d =
     on r (\<lambda>o0.
       let o1 = setFilledAt (od_ArrivedAt data) o0;
           o2 = setAvgPrice (od_AvgExecPrice data) o1;
           o3 = setExecQty (od_CumExecQty data) o2
       in setFee (od_CumFee data) o3) d"

definition acceptFilled :: "oref \<Rightarrow> 'd DealerImpl \<Rightarrow> 'd DealerImpl" where
  [handler_defs]: "acceptFilled r d =
     (let d1 = on r (setStatus OrderStatusDone) d;
          d2 = on r (setOrderDoneReason OrderDoneReasonFilled) d1;
          d3 = Living_Delete r d2;
          d4 = done_Append r d3
      in execFillCallbacks r d4)"

definition acceptPartiallyFilled :: "oref \<Rightarrow> 'd DealerImpl \<Rightarrow> 'd DealerImpl" where
  [handler_defs]: "acceptPartiallyFilled r d =
     (if GetOrderType (ord d r) = OrderTypeLimitIOC then
        (let d1 = on r (setStatus OrderStatusDone) d;
             d2 = on r (setOrderDoneReason OrderDoneReasonPartiallyFilledAndCanceled) d1;
             d3 = Living_Delete r d2;
             d4 = done_Append r d3
         in execPartiallyFillCallbacks r d4)
      else d)"

definition acceptAmend ::
  "oref \<Rightarrow> 'd AmendDetail option \<Rightarrow> time option \<Rightarrow> time option \<Rightarrow> 'd DealerImpl \<Rightarrow> 'd DealerImpl result" where
  [handler_defs]: "acceptAmend r detail arrivedAt confirmedAt d =
     (let d1 = on r (setStatus OrderStatusPending) d;
          d2 = on r (setAmendingDetail None) d1
      in bind_r (amend detail (ord d2 r)) (\<lambda>o3.
           let d3 = on r (\<lambda>_. o3) d2;
               d4 = on r (setSentTimestamp (getLastOperatedTimestamp (ord d3 r))) d3;
               d5 = on r (setConfirmTimestamps arrivedAt confirmedAt) d4
           in Inr (execAmendCallbacks r d5)))"

definition acceptCreate ::
  "oref \<Rightarrow> string \<Rightarrow> time option \<Rightarrow> time option \<Rightarrow> 'd DealerImpl \<Rightarrow> 'd DealerImpl" where
  [handler_defs]: "acceptCreate r publicID arrivedAt confirmedAt d =
     (let d1 = on r (setStatus OrderStatusPending) d;
          d2 = (if publicID \<noteq> [] then on r (setPublicID publicID) d1 else d1);
          d3 = on r (setSentTimestamp (getLastOperatedTimestamp (ord d2 r))) d2;
          d4 = on r (setConfirmTimestamps arrivedAt confirmedAt) d3
      in execCreateCallbacks r d4)"

definition acceptCancel :: "oref \<Rightarrow> 'd DealerImpl \<Rightarrow> 'd DealerImpl" where
  [handler_defs]: "acceptCancel r d =
     (let d1 = on r (setStatus OrderStatusDone) d;
          d2 = on r (setOrderDoneReason OrderDoneReasonCanceled) d1;
          d3 = Living_Delete r d2;
          d4 = done_Append r d3
      in execCancelCallbacks r d4)"

definition rejectAmend :: "oref \<Rightarrow> 'd DealerImpl \<Rightarrow> 'd DealerImpl" where
  [handler_defs]: "rejectAmend r d =
     (let d1 = on r (setStatus OrderStatusPending) d;
          d2 = on r (setAmendingDetail None) d1
      in execAmendRejectCallbacks r d2)"

definition rejectAmends :: "oref list \<Rightarrow> 'd DealerImpl \<Rightarrow> 'd DealerImpl" where
  "rejectAmends rs d = fold rejectAmend rs d"

definition rejectCreate :: "oref \<Rightarrow> 'd DealerImpl \<Rightarrow> 'd DealerImpl" where
  [handler_defs]: "rejectCreate r d =
     (let d1 = on r (setStatus OrderStatusDone) d;
          d2 = on r (setOrderDoneReason OrderDoneReasonRejected) d1;
          d3 = Living_Delete r d2;
          d4 = done_Append r d3
      in execCreateRejectCallbacks r d4)"

definition rejectCreates :: "oref list \<Rightarrow> 'd DealerImpl \<Rightarrow> 'd DealerImpl" where
  "rejectCreates rs d = fold rejectCreate rs d"

definition rejectCancel :: "oref \<Rightarrow> 'd DealerImpl \<Rightarrow> 'd DealerImpl" where
  [handler_defs]: "rejectCancel r d =
     (let d1 = on r (setStatus OrderStatusPending) d
      in execCancelRejectCallbacks r d1)"

definition rejectCancels :: "oref list \<Rightarrow> 'd DealerImpl \<Rightarrow> 'd DealerImpl" where
  "rejectCancels rs d = fold rejectCancel rs d"

definition abandonOrder :: "oref \<Rightarrow> 'd DealerImpl \<Rightarrow> 'd DealerImpl" where
  [handler_defs]: "abandonOrder r d =
     (let d1 = on r (setStatus OrderStatusDone) d;
          d2 = on r (setOrderDoneReason OrderDoneReasonAbandoned) d1;
          d3 = on r (setSentTimestamp (getLastOperatedTimestamp (ord d2 r))) d2;
          d4 = Living_Delete r d3
      in done_Append r d4)"

definition noticeError :: "error \<Rightarrow> 'd DealerImpl \<Rightarrow> 'd DealerImpl" where
  "noticeError err d =
     (if errors_Is err InfoError then d
      else if errors_Is err WarnError \<or> errors_Is err HttpRequestError
           then d\<lparr>d_onError := d_onError d @ [err]\<rparr>
      else d\<lparr>d_acceptOrder := Flag_Set (d_acceptOrder d) False, d_onError := d_onError d @ [err]\<rparr>)"

section \<open>dealing\_handlers.go: HTTP responses\<close>

definition handleSendOrderResp ::
  "CreateOrderResp \<Rightarrow> error option \<Rightarrow> 'd DealerImpl \<Rightarrow> 'd DealerImpl" where
  "handleSendOrderResp resp err d =
     (case getSendingOrder (d_heap d) (d_LivingOrders d) (cr_OrderID resp) of
        None \<Rightarrow> d
      | Some r \<Rightarrow>
          (case err of
             Some e \<Rightarrow> noticeError e (rejectCreate r d)
           | None \<Rightarrow>
               (case cr_Err resp of
                  Some e \<Rightarrow> noticeError e (rejectCreate r d)
                | None \<Rightarrow>
                    (if GetStatus (ord d r) = OrderStatusSending then
                       (case GetOrderType (ord d r) of
                          OrderTypeUnknown \<Rightarrow> d
                        | OrderTypeMarket \<Rightarrow> d
                        | _ \<Rightarrow> acceptCreate r (cr_PublicID resp) (cr_ArrivedAt resp) (cr_ConfirmedAt resp) d)
                     else d))))"

text \<open>\<open>ids\<close> is the order in which \<open>resps.IDs()\<close> visits the response map.\<close>

definition handleSendOrdersResp ::
  "string list \<Rightarrow> CreateOrdersRespMap \<Rightarrow> error option \<Rightarrow> 'd DealerImpl \<Rightarrow> 'd DealerImpl result" where
  "handleSendOrdersResp ids resps err d =
     (let rs = getSendingOrders (d_heap d) (d_LivingOrders d) ids in
      case err of
        Some e \<Rightarrow> Inr (noticeError e (rejectCreates rs d))
      | None \<Rightarrow>
          foldM (\<lambda>r d.
            case resps (GetID (ord d r)) of
              Some (Some resp) \<Rightarrow> Inr (handleSendOrderResp resp None d)
            | _ \<Rightarrow> Inl NilDeref) rs d)"

definition handleAmendOrderResp ::
  "'d AmendOrderResp \<Rightarrow> error option \<Rightarrow> 'd DealerImpl \<Rightarrow> 'd DealerImpl result" where
  "handleAmendOrderResp resp err d =
     (case getAmendingOrder (d_heap d) (d_LivingOrders d) (ar_OrderID resp) of
        None \<Rightarrow> Inr d
      | Some r \<Rightarrow>
          (case err of
             Some e \<Rightarrow>
               Inr (if errors_Is e OrderIsNotExists then abandonOrder r d
                    else noticeError e (rejectAmend r d))
           | None \<Rightarrow>
               (case ar_Err resp of
                  Some e \<Rightarrow>
                    Inr (if errors_Is e OrderIsNotExists then abandonOrder r d
                         else noticeError e (rejectAmend r d))
                | None \<Rightarrow> acceptAmend r (ar_Detail resp) (ar_ArrivedAt resp) (ar_ConfirmedAt resp) d)))"

definition handleAmendOrdersResp ::
  "string list \<Rightarrow> 'd AmendOrdersRespMap \<Rightarrow> error option \<Rightarrow> 'd DealerImpl \<Rightarrow> 'd DealerImpl result" where
  "handleAmendOrdersResp ids resps err d =
     (let rs = getAmendingOrders (d_heap d) (d_LivingOrders d) ids in
      case err of
        Some e \<Rightarrow> Inr (noticeError e (rejectAmends rs d))
      | None \<Rightarrow>
          foldM (\<lambda>r d.
            case resps (GetID (ord d r)) of
              Some (Some resp) \<Rightarrow> handleAmendOrderResp resp None d
            | _ \<Rightarrow> Inl NilDeref) rs d)"

definition handleCancelOrderResp ::
  "CancelOrderResp \<Rightarrow> error option \<Rightarrow> 'd DealerImpl \<Rightarrow> 'd DealerImpl" where
  "handleCancelOrderResp resp err d =
     (case getCancelingOrder (d_heap d) (d_LivingOrders d) (xr_OrderID resp) of
        None \<Rightarrow> d
      | Some r \<Rightarrow>
          (case err of
             Some e \<Rightarrow>
               (if errors_Is e OrderIsNotExists then abandonOrder r d
                else noticeError e (rejectCancel r d))
           | None \<Rightarrow>
               (case xr_Err resp of
                  Some e \<Rightarrow>
                    (if errors_Is e OrderIsNotExists then abandonOrder r d
                     else noticeError e (rejectCancel r d))
                | None \<Rightarrow> acceptCancel r d)))"

definition handleCancelOrdersResp ::
  "string list \<Rightarrow> CancelOrdersRespMap \<Rightarrow> error option \<Rightarrow> 'd DealerImpl \<Rightarrow> 'd DealerImpl result" where
  "handleCancelOrdersResp ids resps err d =
     (let rs = getCancelingOrders (d_heap d) (d_LivingOrders d) ids in
      case err of
        Some e \<Rightarrow> Inr (noticeError e (rejectCancels rs d))
      | None \<Rightarrow>
          foldM (\<lambda>r d.
            case resps (GetID (ord d r)) of
              Some (Some resp) \<Rightarrow> Inr (handleCancelOrderResp resp None d)
            | _ \<Rightarrow> Inl NilDeref) rs d)"

section \<open>dealing\_handlers.go: WebSocket messages\<close>

text \<open>The branch for messages without a client identifier.\<close>

definition trackUnrelated :: "'d :: linordered_idom OrderData \<Rightarrow> 'd DealerImpl \<Rightarrow> 'd DealerImpl" where
  "trackUnrelated data d =
     (if OrderData_isUnrelated data then
        (let d1 = (if od_Status data = OrderDataStatusOpened then
                     (let o1 = setConfirmTimestamps (od_ArrivedAt data) (od_ConfirmedAt data)
                                 (zeroOrder\<lparr>o_publicID := od_PublicID data\<rparr>);
                          r = d_next d
                      in d\<lparr>d_heap := (d_heap d)(r := o1), d_next := Suc r,
                           d_UnrelatedOrders := Map_Set (d_UnrelatedOrders d) (od_PublicID data) r\<rparr>)
                   else d)
         in if OrderData_isDone data then
              (case getOrder (d_UnrelatedOrders d1) (od_PublicID data) of
                 Some r \<Rightarrow> (done_Append r d1)
                             \<lparr>d_UnrelatedOrders := Map_Delete (d_UnrelatedOrders d1) (od_PublicID data)\<rparr>
               | None \<Rightarrow> d1)
            else d1)
      else d)"

definition handleOrderDatum :: "'d :: linordered_idom OrderData \<Rightarrow> 'd DealerImpl \<Rightarrow> 'd DealerImpl" where
  "handleOrderDatum data d0 =
     (let d = trackUnrelated data d0 in
      case getOrder (d_LivingOrders d) (od_ID data) of
        None \<Rightarrow> d
      | Some r \<Rightarrow>
          (if od_Status data = OrderDataStatusFilled then acceptFilled r (setOrderFillInfo r data d)
           else if od_Status data = OrderDataStatusPartiallyFilled
                then acceptPartiallyFilled r (setOrderPartiallyFillInfo r data d)
           else d))"

definition HandleOrderData :: "'d :: linordered_idom OrderData list \<Rightarrow> 'd DealerImpl \<Rightarrow> 'd DealerImpl" where
  "HandleOrderData datas d = fold handleOrderDatum datas d"

definition extractPositionData :: "'d PositionData list \<Rightarrow> string + 'd PositionData" where
  "extractPositionData datas =
     (let oneWayDatas = filter (\<lambda>data. pd_PositionMode data = PositionModeOneWay) datas;
          invalidDatas = filter (\<lambda>data. pd_PositionMode data \<noteq> PositionModeOneWay) datas
      in if 0 < length invalidDatas
           then Inl ''invalid position data: include invalid position data''
         else if 2 \<le> length oneWayDatas
           then Inl ''invalid position data: more than one one-way position data''
         else case oneWayDatas of
                [] \<Rightarrow> Inl ''invalid position data: no one-way position data''
              | data # _ \<Rightarrow> Inr data)"

definition HandlePositionData ::
  "'d :: linordered_idom PositionData list \<Rightarrow> 'd DealerImpl \<Rightarrow> 'd DealerImpl" where
  "HandlePositionData datas d =
     (case extractPositionData datas of
        Inl _ \<Rightarrow> d
      | Inr data \<Rightarrow>
          (let dataTs = pd_Timestamp data; lastUpdateAt = getLastUpdateAt (d_CurrentPosition d) in
           if lastUpdateAt < dataTs \<or> dataTs = lastUpdateAt then
             (let size0 = 0;
                  size1 = (if pd_Side data = SideBuy then pd_Qty data else size0);
                  size2 = (if pd_Side data = SideSell then - pd_Qty data else size1)
              in d\<lparr>d_CurrentPosition := Position_update (pd_Timestamp data) size2 (d_CurrentPosition d),
                   d_posCalls := d_posCalls d @ map (\<lambda>h. (h, datas)) (d_posUpdatedHandlers d)\<rparr>)
           else d))"

definition SetPosUpdatedHandler :: "nat \<Rightarrow> 'd DealerImpl \<Rightarrow> 'd DealerImpl" where
  "SetPosUpdatedHandler h d = d\<lparr>d_posUpdatedHandlers := d_posUpdatedHandlers d @ [h]\<rparr>"

section \<open>dealer.go\<close>

definition notAccepting :: error where
  "notAccepting = Message ''dealer does not accept order''"

text \<open>The body \<open>SendOrder\<close> and \<open>SendOrders\<close> run under the order's operation lock.\<close>

definition enterSending :: "time \<Rightarrow> oref \<Rightarrow> 'd DealerImpl \<Rightarrow> 'd DealerImpl" where
  "enterSending now r d =
     (let d1 = d\<lparr>d_LivingOrders := Map_Set (d_LivingOrders d) (GetID (ord d r)) r\<rparr>;
          d2 = on r (setStatus OrderStatusSending) d1
      in on r (recordLastOperatedTimestamp now) d2)"

definition SendOrder :: "error option \<Rightarrow> time \<Rightarrow> oref \<Rightarrow> 'd DealerImpl \<Rightarrow> error option \<times> 'd DealerImpl" where
  "SendOrder ag now r d =
     (if \<not> Flag_Get (d_acceptOrder d) then (Some notAccepting, d)
      else if getOrder (d_LivingOrders d) (GetID (ord d r)) \<noteq> None
           then (Some (Sentinel DealingErrorOrderIsAlreadyExists), d)
      else (let d1 = request (ReqSendOrder r) (enterSending now r d)
            in case ag of
                 Some e \<Rightarrow> (Some e, rejectCreate r d1)
               | None \<Rightarrow> (None, d1)))"

definition SendOrders ::
  "error option \<Rightarrow> time \<Rightarrow> oref list \<Rightarrow> 'd DealerImpl \<Rightarrow> error option \<times> 'd DealerImpl" where
  "SendOrders ag now rs d =
     (if \<not> Flag_Get (d_acceptOrder d) then (Some notAccepting, d)
      else if list_ex (\<lambda>r. getOrder (d_LivingOrders d) (GetID (ord d r)) \<noteq> None) rs
           then (Some (Sentinel DealingErrorOrderIsAlreadyExists), d)
      else (let d1 = request (ReqSendOrders rs) (fold (enterSending now) rs d)
            in case ag of
                 Some e \<Rightarrow> (Some e, rejectCreates rs d1)
               | None \<Rightarrow> (None, d1)))"

definition AmendOrders :: "'d DealerImpl \<Rightarrow> error option \<times> 'd DealerImpl" where
  "AmendOrders d = (None, d)"

text \<open>The part of \<open>amendOrder\<close> that runs under the operation lock: the error it sets and the state.\<close>

definition amendOrder_locked ::
  "error option \<Rightarrow> time \<Rightarrow> oref \<Rightarrow> 'd :: linordered_idom AmendDetail \<Rightarrow> 'd DealerImpl \<Rightarrow>
     (error option \<times> 'd DealerImpl) result" where
  "amendOrder_locked ag now r detail d =
     (if \<not> isAmendAble (ord d r) then Inr (Some (Sentinel DealingErrorOrderIsNotAmendable), d)
      else bind_r (isNeedToAmend detail (ord d r)) (\<lambda>need.
        if \<not> need then Inr (None, d)
        else if GetStatus (ord d r) \<noteq> OrderStatusPending then
          Inr (Some (mk_Error (Sentinel DealingErrorOrderNotReadyForOperation)
                 (''(order status: '' @ OrderStatus_String (GetStatus (ord d r)) @ '')'')), d)
        else
          (let d1 = on r (setStatus OrderStatusAmending) d;
               d2 = on r (setAmendingDetail (Some detail)) d1;
               d3 = on r (recordLastOperatedTimestamp now) d2
           in Inr (ag, request (ReqAmendOrder r detail) d3))))"

definition amendOrder ::
  "error option \<Rightarrow> time \<Rightarrow> oref \<Rightarrow> 'd :: linordered_idom AmendDetail \<Rightarrow> 'd DealerImpl \<Rightarrow>
     (error option \<times> 'd DealerImpl) result" where
  "amendOrder ag now r detail d =
     (if getOrder (d_LivingOrders d) (GetID (ord d r)) = None
        then Inr (None, execAmendRejectOrderNotExistCallbacks r d)
      else bind_r (amendOrder_locked ag now r detail d) (\<lambda>(err, d1).
        case err of
          Some e \<Rightarrow> Inr (Some e, rejectAmend r d1)
        | None \<Rightarrow> Inr (None, d1)))"

text \<open>The closure \<open>cb\<close> of \<open>AmendOrder\<close>, run in a goroutine once the order is pending again.\<close>

definition runDeferredAmend ::
  "error option \<Rightarrow> time \<Rightarrow> oref \<Rightarrow> 'd :: linordered_idom AmendDetail \<Rightarrow> 'd DealerImpl \<Rightarrow> 'd DealerImpl result" where
  "runDeferredAmend ag now r detail d =
     (let oid = GetID (ord d r);
          amendDetail = (case Map_Get (d_amendingDetailMap d) oid of Some ad \<Rightarrow> ad | None \<Rightarrow> detail);
          d1 = d\<lparr>d_amendingDetailMap := Map_Delete (d_amendingDetailMap d) oid\<rparr>
      in bind_r (amendOrder ag now r amendDetail d1) (\<lambda>(_, d2). Inr d2))"

definition AmendOrder ::
  "error option \<Rightarrow> time \<Rightarrow> oref \<Rightarrow> 'd :: linordered_idom AmendDetail \<Rightarrow> 'd DealerImpl \<Rightarrow>
     (error option \<times> 'd DealerImpl) result" where
  "AmendOrder ag now r detail d =
     (if \<not> Flag_Get (d_acceptOrder d) then Inr (Some notAccepting, d)
      else
        (let oid = GetID (ord d r) in
         case GetStatus (ord d r) of
           OrderStatusDone \<Rightarrow> Inr (None, execAmendRejectOrderNotExistCallbacks r d)
         | OrderStatusPending \<Rightarrow> amendOrder ag now r detail d
         | OrderStatusSending \<Rightarrow>
             (let d1 = (if Map_Get (d_amendingDetailMap d) oid = None
                        then on r (SetCreateCallback (DeferredAmend detail)) d else d)
              in Inr (None, d1\<lparr>d_amendingDetailMap := Map_Set (d_amendingDetailMap d1) oid detail\<rparr>))
         | OrderStatusAmending \<Rightarrow>
             (let d1 = (if Map_Get (d_amendingDetailMap d) oid = None
                        then on r (SetAmendCallback (DeferredAmend detail)) d else d)
              in Inr (None, d1\<lparr>d_amendingDetailMap := Map_Set (d_amendingDetailMap d1) oid detail\<rparr>))
         | _ \<Rightarrow> Inr (Some (Sentinel DealingErrorOrderNotReadyForOperation), d)))"

definition cancelOrder :: "error option \<Rightarrow> time \<Rightarrow> oref \<Rightarrow> 'd DealerImpl \<Rightarrow> error option \<times> 'd DealerImpl" where
  "cancelOrder ag now r d =
     (if GetStatus (ord d r) = OrderStatusCanceling then (None, d)
      else if GetStatus (ord d r) \<noteq> OrderStatusPending
           then (Some (Sentinel DealingErrorOrderNotReadyForOperation), d)
      else
        (let d1 = on r (setStatus OrderStatusCanceling) d;
             d2 = on r (recordLastOperatedTimestamp now) d1;
             d3 = request (ReqCancelOrder r) d2
         in case ag of
              Some e \<Rightarrow> (Some e, rejectCancel r d3)
            | None \<Rightarrow> (None, d3)))"

text \<open>The closure \<open>cb\<close> of \<open>CancelOrder\<close> and \<open>CancelOrders\<close>: the error is only logged.\<close>

definition runDeferredCancel :: "error option \<Rightarrow> time \<Rightarrow> oref \<Rightarrow> 'd DealerImpl \<Rightarrow> 'd DealerImpl" where
  "runDeferredCancel ag now r d = snd (cancelOrder ag now r d)"

text \<open>Cancelling an order that is being sent or amended replaces its pending callbacks.\<close>

definition deferCancel :: "oref \<Rightarrow> 'd DealerImpl \<Rightarrow> 'd DealerImpl" where
  "deferCancel r d =
     (let del = d\<lparr>d_amendingDetailMap := Map_Delete (d_amendingDetailMap d) (GetID (ord d r))\<rparr> in
      case GetStatus (ord d r) of
        OrderStatusSending \<Rightarrow> on r (ReplaceCreateCallbacks DeferredCancel) del
      | OrderStatusAmending \<Rightarrow> on r (ReplaceAmendCallbacks DeferredCancel) del
      | _ \<Rightarrow> d)"

definition CancelOrder :: "error option \<Rightarrow> time \<Rightarrow> oref \<Rightarrow> 'd DealerImpl \<Rightarrow> error option \<times> 'd DealerImpl" where
  "CancelOrder ag now r d =
     (None,
      if GetStatus (ord d r) = OrderStatusPending then runDeferredCancel ag now r d
      else deferCancel r d)"

text \<open>The first loop of \<open>CancelOrders\<close>: the orders to cancel now; the others are deferred.\<close>

fun splitCancelTargets :: "oref list \<Rightarrow> 'd DealerImpl \<Rightarrow> oref list \<times> 'd DealerImpl" where
  "splitCancelTargets [] d = ([], d)"
| "splitCancelTargets (r # rs) d =
     (if GetStatus (ord d r) = OrderStatusPending then
        (case splitCancelTargets rs d of (ts, d') \<Rightarrow> (r # ts, d'))
      else splitCancelTargets rs (deferCancel r d))"

definition enterCanceling :: "time \<Rightarrow> oref \<Rightarrow> 'd DealerImpl \<Rightarrow> 'd DealerImpl" where
  "enterCanceling now r d =
     on r (recordLastOperatedTimestamp now) (on r (setStatus OrderStatusCanceling) d)"

definition CancelOrders ::
  "error option \<Rightarrow> time \<Rightarrow> string list \<Rightarrow> oref list \<Rightarrow> 'd DealerImpl \<Rightarrow> error option \<times> 'd DealerImpl" where
  "CancelOrders ag now ks orders d =
     (let rs = Unique ks (d_heap d) orders in
      case splitCancelTargets rs d of (cancelTargets, d1) \<Rightarrow>
        (let (err, d2) =
               (if 0 < length cancelTargets
                then (ag, request (ReqCancelOrders cancelTargets) (fold (enterCanceling now) cancelTargets d1))
                else (None, d1))
         in (None, case err of Some e \<Rightarrow> rejectCancels rs d2 | None \<Rightarrow> d2)))"

definition ExportDoneOrders :: "'d DealerImpl \<Rightarrow> oref Slice \<times> 'd DealerImpl" where
  "ExportDoneOrders d = (d_doneOrders d, d\<lparr>d_doneOrders := NewOrderMuArray []\<rparr>)"

text \<open>A goroutine started with \<open>go cb(o)\<close>. What a user's function calls are steps of their own.\<close>

definition runCallback ::
  "error option \<Rightarrow> time \<Rightarrow> oref \<times> 'd OrderCallback \<Rightarrow> 'd :: linordered_idom DealerImpl \<Rightarrow> 'd DealerImpl result" where
  "runCallback ag now t d =
     (case t of
        (r, UserCallback n) \<Rightarrow> Inr d
      | (r, DeferredAmend detail) \<Rightarrow> runDeferredAmend ag now r detail d
      | (r, DeferredCancel) \<Rightarrow> Inr (runDeferredCancel ag now r d))"

end
