(* ===== verification/Dealer_Spec.thy ===== *)
theory Dealer_Spec
  imports Dealer
begin

text \<open>
  The abstract specification of the dealer: which orders are living, what is done and
  exported, and the status of each order, with the moves the specification allows. It has
  no callbacks, prices, timestamps, requests or messages. \<open>view\<close> reads an abstract state
  off the detailed one; \<open>Dealer_Refinement.thy\<close> shows that every operation of the detailed
  dealer is a sequence of moves.
\<close>

section \<open>Abstract states and moves\<close>

record absd =
  a_living :: "string \<Rightarrow> oref option"
  a_unrel :: "string \<Rightarrow> oref option"
  a_done :: "oref list"
  a_exported :: "oref list"
  a_bound :: int
  a_next :: oref
  a_id :: "oref \<Rightarrow> string"
  a_type :: "oref \<Rightarrow> OrderType"
  a_st :: "oref \<Rightarrow> OrderStatus"
  a_ad :: "oref \<Rightarrow> bool"
  a_cnt :: "oref \<Rightarrow> int"

definition active :: "OrderStatus \<Rightarrow> bool" where
  "active s \<longleftrightarrow> s \<in> {OrderStatusSending, OrderStatusPending, OrderStatusAmending, OrderStatusCanceling}"

text \<open>The order types whose creation the response handler confirms.\<close>

definition confirmable :: "OrderType \<Rightarrow> bool" where
  "confirmable t \<longleftrightarrow> t \<noteq> OrderTypeMarket \<and> t \<noteq> OrderTypeUnknown"

definition a_finish :: "oref \<Rightarrow> absd \<Rightarrow> absd" where
  "a_finish r a = a\<lparr>a_st := (a_st a)(r := OrderStatusDone),
     a_living := (a_living a)(a_id a r := None), a_done := a_done a @ [r]\<rparr>"

definition a_alloc :: "string \<Rightarrow> OrderType \<Rightarrow> OrderStatus \<Rightarrow> absd \<Rightarrow> absd" where
  "a_alloc i t st a = a\<lparr>a_next := Suc (a_next a), a_id := (a_id a)(a_next a := i),
     a_type := (a_type a)(a_next a := t), a_st := (a_st a)(a_next a := st),
     a_ad := (a_ad a)(a_next a := False), a_cnt := (a_cnt a)(a_next a := 0)\<rparr>"

inductive amove :: "absd \<Rightarrow> absd \<Rightarrow> bool" where
  m_new: "amove a (a_alloc i t OrderStatusBorn a)"
| m_send: "a_st a r = OrderStatusBorn \<Longrightarrow> a_living a (a_id a r) = None \<Longrightarrow>
    amove a (a\<lparr>a_living := (a_living a)(a_id a r \<mapsto> r), a_st := (a_st a)(r := OrderStatusSending)\<rparr>)"
| m_created: "a_st a r = OrderStatusSending \<Longrightarrow> confirmable (a_type a r) \<Longrightarrow>
    amove a (a\<lparr>a_st := (a_st a)(r := OrderStatusPending)\<rparr>)"
| m_finish: "a_living a (a_id a r) = Some r \<Longrightarrow> amove a (a_finish r a)"
| m_amend: "a_st a r = OrderStatusPending \<Longrightarrow>
    amove a (a\<lparr>a_st := (a_st a)(r := OrderStatusAmending), a_ad := (a_ad a)(r := True)\<rparr>)"
| m_amended: "a_st a r = OrderStatusAmending \<Longrightarrow>
    amove a (a\<lparr>a_st := (a_st a)(r := OrderStatusPending), a_ad := (a_ad a)(r := False)\<rparr>)"
| m_cancel: "a_st a r = OrderStatusPending \<Longrightarrow>
    amove a (a\<lparr>a_st := (a_st a)(r := OrderStatusCanceling)\<rparr>)"
| m_kept: "a_st a r = OrderStatusCanceling \<Longrightarrow>
    amove a (a\<lparr>a_st := (a_st a)(r := OrderStatusPending)\<rparr>)"
| m_seen: "amove a ((a_alloc [] OrderTypeUnknown OrderStatusUnknown a)
    \<lparr>a_unrel := (a_unrel a)(p \<mapsto> a_next a)\<rparr>)"
| m_gone: "a_unrel a p = Some r \<Longrightarrow>
    amove a (a\<lparr>a_done := a_done a @ [r], a_unrel := (a_unrel a)(p := None)\<rparr>)"
| m_export: "amove a (a\<lparr>a_exported := a_exported a @ a_done a, a_done := []\<rparr>)"

inductive_cases amove_cases: "amove a b"

text \<open>The edges of the life of an order; the first one is its construction.\<close>

fun edge :: "OrderType \<Rightarrow> OrderStatus \<Rightarrow> OrderStatus \<Rightarrow> bool" where
  "edge t OrderStatusBorn s' = (s' = OrderStatusSending)"
| "edge t OrderStatusSending s' = (s' = OrderStatusDone \<or> s' = OrderStatusPending \<and> confirmable t)"
| "edge t OrderStatusPending s' = (s' \<in> {OrderStatusAmending, OrderStatusCanceling, OrderStatusDone})"
| "edge t OrderStatusAmending s' = (s' \<in> {OrderStatusPending, OrderStatusDone})"
| "edge t OrderStatusCanceling s' = (s' \<in> {OrderStatusPending, OrderStatusDone})"
| "edge t _ s' = False"

section \<open>The invariant of the specification\<close>

definition listed :: "absd \<Rightarrow> oref list" where
  "listed a = a_exported a @ a_done a"

text \<open>How often an order may be listed as finished, by its status.\<close>

definition may_list :: "absd \<Rightarrow> oref \<Rightarrow> nat set" where
  "may_list a r =
     (case a_st a r of
        OrderStatusDone \<Rightarrow> {1}
      | OrderStatusUnknown \<Rightarrow> if r \<in> ran (a_unrel a) \<or> a_next a \<le> r then {0} else {0, 1}
      | _ \<Rightarrow> {0})"

definition order_ok :: "absd \<Rightarrow> oref \<Rightarrow> bool" where
  "order_ok a r \<longleftrightarrow>
     (active (a_st a r) \<longrightarrow> a_living a (a_id a r) = Some r) \<and>
     (a_st a r = OrderStatusAmending \<longrightarrow> a_ad a r) \<and> a_cnt a r = 0 \<and>
     (a_next a \<le> r \<longrightarrow> a_st a r = OrderStatusUnknown) \<and>
     (a_st a r \<in> {OrderStatusPending, OrderStatusAmending, OrderStatusCanceling} \<longrightarrow>
        confirmable (a_type a r))"

definition ainv :: "absd \<Rightarrow> bool" where
  "ainv a \<longleftrightarrow> a_bound a = 0 \<and> (\<forall>r. order_ok a r) \<and> (\<forall>r. count_list (listed a) r \<in> may_list a r) \<and>
     (\<forall>i r. a_living a i = Some r \<longrightarrow> a_id a r = i \<and> active (a_st a r)) \<and>
     (\<forall>p r. a_unrel a p = Some r \<longrightarrow> a_st a r = OrderStatusUnknown \<and> r < a_next a) \<and>
     inj_on (a_unrel a) (dom (a_unrel a))"

section \<open>Every move keeps the invariant\<close>

lemma active_simps [simp]:
  "active OrderStatusSending" "active OrderStatusPending" "active OrderStatusAmending"
  "active OrderStatusCanceling" "\<not> active OrderStatusBorn" "\<not> active OrderStatusDone"
  "\<not> active OrderStatusUnknown"
  by (simp_all add: active_def)

lemma a_finish_simps [simp]:
  "a_st (a_finish r a) = (a_st a)(r := OrderStatusDone)"
  "a_living (a_finish r a) = (a_living a)(a_id a r := None)"
  "a_id (a_finish r a) = a_id a" "a_unrel (a_finish r a) = a_unrel a" "a_ad (a_finish r a) = a_ad a"
  "a_next (a_finish r a) = a_next a" "a_type (a_finish r a) = a_type a" "a_cnt (a_finish r a) = a_cnt a"
  "a_bound (a_finish r a) = a_bound a" "a_done (a_finish r a) = a_done a @ [r]"
  "a_exported (a_finish r a) = a_exported a"
  by (simp_all add: a_finish_def)

lemma a_alloc_simps [simp]:
  "a_st (a_alloc i t st a) = (a_st a)(a_next a := st)" "a_id (a_alloc i t st a) = (a_id a)(a_next a := i)"
  "a_type (a_alloc i t st a) = (a_type a)(a_next a := t)"
  "a_ad (a_alloc i t st a) = (a_ad a)(a_next a := False)"
  "a_cnt (a_alloc i t st a) = (a_cnt a)(a_next a := 0)" "a_next (a_alloc i t st a) = Suc (a_next a)"
  "a_living (a_alloc i t st a) = a_living a" "a_unrel (a_alloc i t st a) = a_unrel a"
  "a_bound (a_alloc i t st a) = a_bound a" "a_done (a_alloc i t st a) = a_done a"
  "a_exported (a_alloc i t st a) = a_exported a"
  by (simp_all add: a_alloc_def)

lemma listed_simps [simp]:
  "listed (a\<lparr>a_st := s\<rparr>) = listed a" "listed (a\<lparr>a_ad := b\<rparr>) = listed a"
  "listed (a\<lparr>a_living := l\<rparr>) = listed a" "listed (a\<lparr>a_unrel := u\<rparr>) = listed a"
  "listed (a_alloc i t st a) = listed a" "listed (a\<lparr>a_done := a_done a @ [r]\<rparr>) = listed a @ [r]"
  "listed (a_finish r a) = listed a @ [r]"
  "listed (a\<lparr>a_exported := a_exported a @ a_done a, a_done := []\<rparr>) = listed a"
  by (simp_all add: listed_def a_alloc_def a_finish_def)

lemma may_list_simps [simp]:
  "active (a_st a r) \<Longrightarrow> may_list a r = {0}" "a_st a r = OrderStatusBorn \<Longrightarrow> may_list a r = {0}"
  "a_st a r = OrderStatusDone \<Longrightarrow> may_list a r = {1}"
  by (auto simp: may_list_def active_def)

lemma may_list_mono:
  assumes "a_st b r = a_st a r" and "a_next a \<le> a_next b" and "r \<in> ran (a_unrel b) \<Longrightarrow> r \<in> ran (a_unrel a)"
  shows "may_list a r \<subseteq> may_list b r"
  using assms by (auto simp: may_list_def split: OrderStatus.split)

lemma ainvD:
  assumes "ainv a"
  shows "order_ok a r" "count_list (listed a) r \<in> may_list a r" "a_bound a = 0"
    "a_living a i = Some r \<Longrightarrow> a_id a r = i \<and> active (a_st a r)"
    "a_unrel a p = Some r \<Longrightarrow> a_st a r = OrderStatusUnknown \<and> r < a_next a"
    "inj_on (a_unrel a) (dom (a_unrel a))"
  using assms unfolding ainv_def by blast+

lemma ainvI:
  assumes "\<And>r. order_ok a r" and "\<And>r. count_list (listed a) r \<in> may_list a r" and "a_bound a = 0"
    and "\<And>i r. a_living a i = Some r \<Longrightarrow> a_id a r = i \<and> active (a_st a r)"
    and "\<And>p r. a_unrel a p = Some r \<Longrightarrow> a_st a r = OrderStatusUnknown \<and> r < a_next a"
    and "inj_on (a_unrel a) (dom (a_unrel a))"
  shows "ainv a"
  using assms unfolding ainv_def by blast

lemma living_iff:
  "ainv a \<Longrightarrow> a_living a i = Some r \<longleftrightarrow> a_id a r = i \<and> active (a_st a r)"
  using ainvD(1) [of a r] ainvD(4) [of a i r] by (auto simp: order_ok_def)

lemma unallocated: "ainv a \<Longrightarrow> a_st a r \<noteq> OrderStatusUnknown \<Longrightarrow> r < a_next a"
  using ainvD(1) [of a r] by (force simp: order_ok_def)

lemma active_not_unrel: "ainv a \<Longrightarrow> a_st a r \<noteq> OrderStatusUnknown \<Longrightarrow> a_unrel a p \<noteq> Some r"
  using ainvD(5) by blast

lemma same_id_living:
  "ainv a \<Longrightarrow> active (a_st a q) \<Longrightarrow> active (a_st a r) \<Longrightarrow> a_id a q = a_id a r \<Longrightarrow> q = r"
  using ainvD(1) [of a r] ainvD(1) [of a q] by (auto simp: order_ok_def)

text \<open>Changing the status of one living order to another active one.\<close>

lemma ainv_restatus:
  assumes "ainv a" and "active (a_st a r)" and "active st"
    and "st = OrderStatusAmending \<Longrightarrow> b" and "st \<noteq> OrderStatusSending \<Longrightarrow> confirmable (a_type a r)"
  shows "ainv (a\<lparr>a_st := (a_st a)(r := st), a_ad := (a_ad a)(r := b)\<rparr>)" (is "ainv ?b")
proof (rule ainvI)
  note lt = unallocated [OF assms(1), of r]
  show "order_ok ?b q" for q
  proof (cases "q = r")
    case True
    with ainvD(1) [OF assms(1), of r] assms(2-5) show ?thesis
      unfolding order_ok_def by (cases st) (use lt in auto)
  next
    case False
    with ainvD(1) [OF assms(1), of q] show ?thesis by (simp add: order_ok_def)
  qed
  show "count_list (listed ?b) q \<in> may_list ?b q" for q
    using ainvD(2) [OF assms(1), of q] assms(2,3) may_list_mono [of ?b q a]
    by (cases "q = r") auto
qed (use ainvD [OF assms(1)] active_not_unrel [OF assms(1), of r] assms(2,3) in auto)

lemma ainv_m_send:
  assumes "ainv a" and "a_st a r = OrderStatusBorn" and "a_living a (a_id a r) = None"
  shows "ainv (a\<lparr>a_living := (a_living a)(a_id a r \<mapsto> r), a_st := (a_st a)(r := OrderStatusSending)\<rparr>)"
    (is "ainv ?b")
proof (rule ainvI)
  have lt: "r < a_next a" using assms(1,2) by (auto intro: unallocated)
  show "order_ok ?b q" for q
    using ainvD(1) [OF assms(1), of q] assms(2,3) lt
    by (cases "q = r") (auto simp: order_ok_def)
  show "count_list (listed ?b) q \<in> may_list ?b q" for q
    using ainvD(2) [OF assms(1), of q] assms(2) may_list_mono [of ?b q a]
    by (cases "q = r") auto
qed (use ainvD [OF assms(1)] active_not_unrel [OF assms(1), of r] assms(2,3) in \<open>auto split: if_splits\<close>)

lemma ainv_m_finish:
  assumes "ainv a" and "a_living a (a_id a r) = Some r"
  shows "ainv (a_finish r a)" (is "ainv ?b")
proof (rule ainvI)
  have act: "active (a_st a r)" using ainvD(4) [OF assms] by simp
  then have nu: "a_st a r \<noteq> OrderStatusUnknown" by auto
  show "order_ok ?b q" for q
    using ainvD(1) [OF assms(1), of q] same_id_living [OF assms(1) act, of q] unallocated [OF assms(1) nu]
    by (cases "q = r") (auto simp: order_ok_def)
  show "count_list (listed ?b) q \<in> may_list ?b q" for q
    using ainvD(2) [OF assms(1), of q] act may_list_mono [of ?b q a]
    by (cases "q = r") auto
  show "a_id ?b q = i \<and> active (a_st ?b q)" if "a_living ?b i = Some q" for i q
    using that ainvD(4) [OF assms(1), of i q] by (auto split: if_splits)
  show "a_st ?b q = OrderStatusUnknown \<and> q < a_next ?b" if "a_unrel ?b p = Some q" for p q
    using that ainvD(5) [OF assms(1), of p q] nu by auto
qed (use ainvD(3,6) [OF assms(1)] in simp_all)

lemma ainv_alloc:
  assumes "ainv a" and "st = OrderStatusBorn \<or> st = OrderStatusUnknown"
  shows "ainv (a_alloc i t st a)" (is "ainv ?b")
proof (rule ainvI)
  have n: "a_st a (a_next a) = OrderStatusUnknown"
    using ainvD(1) [OF assms(1), of "a_next a"] by (simp add: order_ok_def)
  have nu: "a_next a \<notin> ran (a_unrel a)" using ainvD(5) [OF assms(1)] by (force simp: ran_def)
  show "order_ok ?b q" for q
    using ainvD(1) [OF assms(1), of q] assms(2)
    by (cases "q = a_next a") (auto simp: order_ok_def)
  show "count_list (listed ?b) q \<in> may_list ?b q" for q
  proof (cases "q = a_next a")
    case True
    with ainvD(2) [OF assms(1), of q] n assms(2) show ?thesis by (auto simp: may_list_def)
  next
    case False
    with ainvD(2) [OF assms(1), of q] may_list_mono [of ?b q a] show ?thesis by auto
  qed
  show "a_id ?b q = j \<and> active (a_st ?b q)" if "a_living ?b j = Some q" for j q
    using that ainvD(4) [OF assms(1), of j q] n by auto
  show "a_st ?b q = OrderStatusUnknown \<and> q < a_next ?b" if "a_unrel ?b p = Some q" for p q
    using that ainvD(5) [OF assms(1), of p q] by auto
qed (use ainvD(3,6) [OF assms(1)] in simp_all)

lemma ainv_m_seen:
  assumes "ainv a"
  shows "ainv ((a_alloc [] OrderTypeUnknown OrderStatusUnknown a)\<lparr>a_unrel := (a_unrel a)(p \<mapsto> a_next a)\<rparr>)"
    (is "ainv ?b")
proof (rule ainvI)
  let ?a = "a_alloc [] OrderTypeUnknown OrderStatusUnknown a"
  have a: "ainv ?a" using assms by (simp add: ainv_alloc)
  have n: "a_st a (a_next a) = OrderStatusUnknown"
    using ainvD(1) [OF assms, of "a_next a"] by (simp add: order_ok_def)
  have fresh: "a_unrel a p' \<noteq> Some (a_next a)" for p'
    using ainvD(5) [OF assms, of p' "a_next a"] by auto
  show "order_ok ?b q" for q using ainvD(1) [OF a, of q] by (simp add: order_ok_def)
  have "count_list (listed a) (a_next a) = 0"
    using ainvD(2) [OF assms, of "a_next a"] n by (simp add: may_list_def)
  then have "count_list (listed ?b) (a_next a) \<in> may_list ?b (a_next a)" by (auto simp: may_list_def)
  moreover have "may_list ?a q \<subseteq> may_list ?b q" if "q \<noteq> a_next a" for q
    by (rule may_list_mono) (use that in \<open>auto simp: ran_def split: if_splits\<close>)
  ultimately show "count_list (listed ?b) q \<in> may_list ?b q" for q
    using ainvD(2) [OF a, of q] by (cases "q = a_next a") auto
  show "a_st ?b q = OrderStatusUnknown \<and> q < a_next ?b" if "a_unrel ?b p' = Some q" for p' q
    using that ainvD(5) [OF assms, of p' q] by (auto split: if_splits)
  show "inj_on (a_unrel ?b) (dom (a_unrel ?b))"
    using ainvD(6) [OF assms] fresh fresh [symmetric] by (auto simp: inj_on_def dom_def split: if_splits)
  show "a_id ?b q = i \<and> active (a_st ?b q)" if "a_living ?b i = Some q" for i q
    using that ainvD(4) [OF a, of i q] by simp
qed (use ainvD(3) [OF assms] in simp)

lemma ainv_m_gone:
  assumes "ainv a" and "a_unrel a p = Some r"
  shows "ainv (a\<lparr>a_done := a_done a @ [r], a_unrel := (a_unrel a)(p := None)\<rparr>)" (is "ainv ?b")
proof (rule ainvI)
  have r: "a_st a r = OrderStatusUnknown" "r < a_next a" using ainvD(5) [OF assms] by auto
  have "r \<in> ran (a_unrel a)" using assms(2) by (auto simp: ran_def)
  then have z: "count_list (listed a) r = 0" using ainvD(2) [OF assms(1), of r] r by (simp add: may_list_def)
  have "p' = p" if "a_unrel a p' = Some r" for p'
    by (rule inj_onD [OF ainvD(6) [OF assms(1)]]) (use that assms(2) in auto)
  then have out: "r \<notin> ran (a_unrel ?b)" by (auto simp: ran_def split: if_splits)
  have l: "listed ?b = listed a @ [r]" by (simp add: listed_def)
  show "order_ok ?b q" for q using ainvD(1) [OF assms(1), of q] by (simp add: order_ok_def)
  have mono: "may_list a q \<subseteq> may_list ?b q" for q
    by (rule may_list_mono) (auto simp: ran_def split: if_splits)
  show "count_list (listed ?b) q \<in> may_list ?b q" for q
  proof (cases "q = r")
    case True
    with z r out show ?thesis unfolding l by (simp add: may_list_def)
  next
    case False
    with ainvD(2) [OF assms(1), of q] mono [of q] show ?thesis unfolding l by auto
  qed
  show "inj_on (a_unrel ?b) (dom (a_unrel ?b))"
    using ainvD(6) [OF assms(1)] by (auto simp: inj_on_def dom_def split: if_splits)
qed (use ainvD [OF assms(1)] in \<open>auto split: if_splits\<close>)

lemma ainv_m_export:
  assumes "ainv a"
  shows "ainv (a\<lparr>a_exported := a_exported a @ a_done a, a_done := []\<rparr>)" (is "ainv ?b")
proof (rule ainvI)
  show "order_ok ?b q" for q using ainvD(1) [OF assms, of q] by (simp add: order_ok_def)
  show "count_list (listed ?b) q \<in> may_list ?b q" for q
    using ainvD(2) [OF assms, of q] may_list_mono [of ?b q a] by auto
qed (use ainvD [OF assms] in auto)

lemma confirmed_types:
  "ainv a \<Longrightarrow> a_st a r \<in> {OrderStatusPending, OrderStatusAmending, OrderStatusCanceling} \<Longrightarrow>
     confirmable (a_type a r)"
  using ainvD(1) [of a r] by (simp add: order_ok_def)

lemma amove_inv: "ainv a \<Longrightarrow> amove a b \<Longrightarrow> ainv b"
proof (erule amove_cases)
  show "ainv b" if "ainv a" "b = a\<lparr>a_st := (a_st a)(r := OrderStatusPending)\<rparr>"
    "a_st a r = OrderStatusSending" "confirmable (a_type a r)" for r
    using that ainv_restatus [of a r OrderStatusPending "a_ad a r"] by simp
  show "ainv b" if "ainv a" "b = a\<lparr>a_st := (a_st a)(r := OrderStatusCanceling)\<rparr>"
    "a_st a r = OrderStatusPending" for r
    using that ainv_restatus [of a r OrderStatusCanceling "a_ad a r"] confirmed_types [of a r] by simp
  show "ainv b" if "ainv a" "b = a\<lparr>a_st := (a_st a)(r := OrderStatusPending)\<rparr>"
    "a_st a r = OrderStatusCanceling" for r
    using that ainv_restatus [of a r OrderStatusPending "a_ad a r"] confirmed_types [of a r] by simp
  show "ainv b" if "ainv a" "b = a\<lparr>a_st := (a_st a)(r := OrderStatusPending), a_ad := (a_ad a)(r := False)\<rparr>"
    "a_st a r = OrderStatusAmending" for r
    using that ainv_restatus [of a r OrderStatusPending False] confirmed_types [of a r] by simp
qed (simp_all add: ainv_m_send ainv_m_finish ainv_alloc ainv_m_seen ainv_m_gone ainv_m_export
    ainv_restatus confirmed_types)

section \<open>The life of an order\<close>

text \<open>Allocated references keep their identifier and type, and their status follows the edges.\<close>

lemma active_edge_Done: "active s \<Longrightarrow> edge t s OrderStatusDone"
  by (cases s) auto

lemma amove_edge:
  assumes "amove a b" and "ainv a" and "r < a_next a"
  shows "a_id b r = a_id a r \<and> a_type b r = a_type a r \<and> r < a_next b \<and>
    (edge (a_type a r))\<^sup>*\<^sup>* (a_st a r) (a_st b r)"
  using assms(1)
proof cases
  case (m_finish q)
  then show ?thesis using ainvD(4) [OF assms(2) m_finish(2)] assms(3)
    by (auto intro!: active_edge_Done)
qed (use assms(3) in auto)

interpretation spec: invariant_system "\<lambda>a. ainv a" amove ainv
  by unfold_locales (simp_all add: amove_inv)

text \<open>The same along a run of moves.\<close>

lemma amoves_edges:
  assumes "amove\<^sup>*\<^sup>* a b" and "ainv a" and "r < a_next a"
  shows "a_id b r = a_id a r \<and> a_type b r = a_type a r \<and> r < a_next b \<and>
    (edge (a_type a r))\<^sup>*\<^sup>* (a_st a r) (a_st b r)"
  using assms
proof (induction rule: rtranclp_induct)
  case (step b c)
  then have "ainv b" by (blast intro: spec.run_inv)
  with step amove_edge [OF step.hyps(2), of r] show ?case by (auto intro: rtranclp_trans)
qed simp

text \<open>What is exported or done stays listed, in the same order.\<close>

lemma amove_listed: "amove a b \<Longrightarrow> \<exists>new. listed b = listed a @ new"
  by (erule amove_cases) (auto simp: listed_def a_finish_def a_alloc_def)

lemma amoves_listed: "amove\<^sup>*\<^sup>* a b \<Longrightarrow> \<exists>new. listed b = listed a @ new"
  by (induction rule: rtranclp_induct) (use amove_listed in fastforce)+

end
