(* ===== verification/Dealer_Events.thy ===== *)
theory Dealer_Events
  imports Dealer
begin

text \<open>
  The dealer in its environment: \<open>event\<close> lists every way the state changes (the calls of
  the strategy, the answers of the exchange agent, the WebSocket messages, a started
  callback that gets to run), \<open>exec\<close> runs one event, \<open>admissible\<close> states what callers and
  agents guarantee. Any sequence of events, in any order, is a run of \<open>dstep\<close>: an answer
  may arrive late, twice or never, and a started callback may run at any later time.
\<close>

section \<open>Events\<close>

text \<open>The public registration methods of \<open>Order\<close> and \<open>SetMemo\<close>, for a callback of the user.\<close>

datatype registration =
    RegCreate nat | RegCreateReject nat | RegCancel nat | RegCancelReject nat | RegAmend nat
  | RegAmendReject nat | RegAmendRejectOrderNotExist nat | RegFill nat | RegPartiallyFill nat
  | RegReplaceCreate nat | RegReplaceAmend nat | RegMemo string

fun register :: "registration \<Rightarrow> 'd Order \<Rightarrow> 'd Order" where
  "register (RegCreate n) o1 = SetCreateCallback (UserCallback n) o1"
| "register (RegCreateReject n) o1 = SetCreateRejectCallback (UserCallback n) o1"
| "register (RegCancel n) o1 = SetCancelCallback (UserCallback n) o1"
| "register (RegCancelReject n) o1 = SetCancelRejectCallback (UserCallback n) o1"
| "register (RegAmend n) o1 = SetAmendCallback (UserCallback n) o1"
| "register (RegAmendReject n) o1 = SetAmendRejectCallback (UserCallback n) o1"
| "register (RegAmendRejectOrderNotExist n) o1 = SetAmendRejectOrderNotExistCallback (UserCallback n) o1"
| "register (RegFill n) o1 = SetFillCallback (UserCallback n) o1"
| "register (RegPartiallyFill n) o1 = SetPartiallyFillCallback (UserCallback n) o1"
| "register (RegReplaceCreate n) o1 = ReplaceCreateCallbacks (UserCallback n) o1"
| "register (RegReplaceAmend n) o1 = ReplaceAmendCallbacks (UserCallback n) o1"
| "register (RegMemo m) o1 = SetMemo m o1"

datatype 'd event =
    EvNew "'d Order"
  | EvRegister oref registration
  | EvSendOrder "error option" time oref
  | EvSendOrders "error option" time "oref list"
  | EvAmendOrder "error option" time oref "'d AmendDetail"
  | EvCancelOrder "error option" time oref
  | EvCancelOrders "error option" time "string list" "oref list"
  | EvExport
  | EvSendResp CreateOrderResp "error option"
  | EvSendsResp "string list" CreateOrdersRespMap "error option"
  | EvAmendResp "'d AmendOrderResp" "error option"
  | EvAmendsResp "string list" "'d AmendOrdersRespMap" "error option"
  | EvCancelResp CancelOrderResp "error option"
  | EvCancelsResp "string list" CancelOrdersRespMap "error option"
  | EvOrderData "'d OrderData list"
  | EvPositionData "'d PositionData list"
  | EvPosHandler nat
  | EvCallback "error option" time nat

text \<open>The dealer and the orders handed out so far by \<open>ExportDoneOrders\<close>.\<close>

record 'd market =
  k_dealer :: "'d DealerImpl"
  k_exported :: "oref list"

definition alloc :: "'d Order \<Rightarrow> 'd DealerImpl \<Rightarrow> 'd DealerImpl" where
  "alloc o1 d = d\<lparr>d_heap := (d_heap d)(d_next d := o1), d_next := Suc (d_next d)\<rparr>"

fun exec_dealer :: "'d :: linordered_idom event \<Rightarrow> 'd DealerImpl \<Rightarrow> 'd DealerImpl result" where
  "exec_dealer (EvNew o1) d = Inr (alloc o1 d)"
| "exec_dealer (EvRegister r g) d = Inr (on r (register g) d)"
| "exec_dealer (EvSendOrder ag now r) d = Inr (snd (SendOrder ag now r d))"
| "exec_dealer (EvSendOrders ag now rs) d = Inr (snd (SendOrders ag now rs d))"
| "exec_dealer (EvAmendOrder ag now r detail) d =
     bind_r (AmendOrder ag now r detail d) (\<lambda>(_, d'). Inr d')"
| "exec_dealer (EvCancelOrder ag now r) d = Inr (snd (CancelOrder ag now r d))"
| "exec_dealer (EvCancelOrders ag now ks rs) d = Inr (snd (CancelOrders ag now ks rs d))"
| "exec_dealer EvExport d = Inr (snd (ExportDoneOrders d))"
| "exec_dealer (EvSendResp resp err) d = Inr (handleSendOrderResp resp err d)"
| "exec_dealer (EvSendsResp ids resps err) d = handleSendOrdersResp ids resps err d"
| "exec_dealer (EvAmendResp resp err) d = handleAmendOrderResp resp err d"
| "exec_dealer (EvAmendsResp ids resps err) d = handleAmendOrdersResp ids resps err d"
| "exec_dealer (EvCancelResp resp err) d = Inr (handleCancelOrderResp resp err d)"
| "exec_dealer (EvCancelsResp ids resps err) d = handleCancelOrdersResp ids resps err d"
| "exec_dealer (EvOrderData datas) d = Inr (HandleOrderData datas d)"
| "exec_dealer (EvPositionData datas) d = Inr (HandlePositionData datas d)"
| "exec_dealer (EvPosHandler h) d = Inr (SetPosUpdatedHandler h d)"
| "exec_dealer (EvCallback ag now i) d =
     (if i < length (d_spawned d)
      then runCallback ag now (d_spawned d ! i) (d\<lparr>d_spawned := drop_at (d_spawned d) i\<rparr>)
      else Inr d)"

fun exports :: "'d event \<Rightarrow> 'd DealerImpl \<Rightarrow> oref list" where
  "exports EvExport d = s_a (fst (ExportDoneOrders d))"
| "exports _ d = []"

definition exec :: "'d :: linordered_idom event \<Rightarrow> 'd market \<Rightarrow> 'd market result" where
  "exec e k = bind_r (exec_dealer e (k_dealer k)) (\<lambda>d.
     Inr \<lparr>k_dealer = d, k_exported = k_exported k @ exports e (k_dealer k)\<rparr>)"

section \<open>What callers and agents guarantee\<close>

text \<open>An order as the constructors of \<open>order.go\<close> build it.\<close>

definition newborn :: "'d Order \<Rightarrow> bool" where
  "newborn o1 \<longleftrightarrow> o_status o1 = OrderStatusBorn \<and> o_amendingDetail o1 = None \<and> o_amendCount o1 = 0"

text \<open>
  Orders are constructed by the package and sent once, while born, each identifier once per
  batch. A response map is visited in some order of its keys; without an error it binds each
  key to a response for that key, and a successful amend response carries its detail. The
  guard on \<open>EvCancelOrders\<close> is needed: when the agent refuses a batch at once, the code
  treats every order of the batch as if its cancel had been requested.
\<close>

fun admissible :: "'d event \<Rightarrow> 'd DealerImpl \<Rightarrow> bool" where
  "admissible (EvNew o1) d = newborn o1"
| "admissible (EvSendOrder ag now r) d = (GetStatus (ord d r) = OrderStatusBorn)"
| "admissible (EvSendOrders ag now rs) d =
     ((\<forall>r \<in> set rs. GetStatus (ord d r) = OrderStatusBorn) \<and> distinct (map (\<lambda>r. GetID (ord d r)) rs))"
| "admissible (EvCancelOrders ag now ks rs) d =
     (enumerates ks (unique_map (d_heap d) rs) \<and>
      (ag \<noteq> None \<longrightarrow> (\<forall>r \<in> set rs. GetStatus (ord d r) = OrderStatusPending)))"
| "admissible (EvSendsResp ids resps err) d =
     (enumerates ids resps \<and>
      (err = None \<longrightarrow> (\<forall>i \<in> set ids. \<exists>resp. resps i = Some (Some resp) \<and> cr_OrderID resp = i)))"
| "admissible (EvAmendResp resp err) d = (err = None \<and> ar_Err resp = None \<longrightarrow> ar_Detail resp \<noteq> None)"
| "admissible (EvAmendsResp ids resps err) d =
     (enumerates ids resps \<and>
      (err = None \<longrightarrow> (\<forall>i \<in> set ids. \<exists>resp. resps i = Some (Some resp) \<and> ar_OrderID resp = i \<and>
         (ar_Err resp = None \<longrightarrow> ar_Detail resp \<noteq> None))))"
| "admissible (EvCancelsResp ids resps err) d =
     (enumerates ids resps \<and>
      (err = None \<longrightarrow> (\<forall>i \<in> set ids. \<exists>resp. resps i = Some (Some resp) \<and> xr_OrderID resp = i)))"
| "admissible _ d = True"

inductive dstep :: "'d :: linordered_idom market \<Rightarrow> 'd market \<Rightarrow> bool" where
  dstep: "admissible e (k_dealer k) \<Longrightarrow> exec e k = Inr k' \<Longrightarrow> dstep k k'"

inductive_simps dstep_iff: "dstep k k'"

text \<open>A new dealer, before any order is constructed.\<close>

definition dinit :: "'d :: linordered_idom market \<Rightarrow> bool" where
  "dinit k \<longleftrightarrow> (\<exists>now. k = \<lparr>k_dealer = freshDealer now (\<lambda>_. zeroOrder) 0, k_exported = []\<rparr>)"

text \<open>Running a list of events, each checked for admissibility.\<close>

fun run_events :: "'d :: linordered_idom event list \<Rightarrow> 'd market \<Rightarrow> 'd market result" where
  "run_events [] k = Inr k"
| "run_events (e # es) k = bind_r (exec e k) (run_events es)"

fun all_admissible :: "'d :: linordered_idom event list \<Rightarrow> 'd market \<Rightarrow> bool" where
  "all_admissible [] k = True"
| "all_admissible (e # es) k =
     (admissible e (k_dealer k) \<and> (case exec e k of Inl _ \<Rightarrow> True | Inr k' \<Rightarrow> all_admissible es k'))"

lemma run_events_dstep:
  "all_admissible es k \<Longrightarrow> run_events es k = Inr k' \<Longrightarrow> dstep\<^sup>*\<^sup>* k k'"
proof (induction es arbitrary: k)
  case (Cons e es)
  then obtain k1 where "exec e k = Inr k1" "run_events es k1 = Inr k'" by (auto simp: bind_r_eq_Inr)
  with Cons show ?case by (auto intro: converse_rtranclp_into_rtranclp dstep)
qed simp

end
