(* ===== verification/Dealer_Refinement.thy ===== *)
theory Dealer_Refinement
  imports Dealer_Spec Dealer_Events
begin

text \<open>
  The detailed dealer refines its specification: \<open>view\<close> maps a detailed state to an
  abstract one, and every operation of \<open>Dealer.thy\<close> is a sequence of abstract moves.
  Under the guarantees of \<open>admissible\<close> every event does, and never panics.
\<close>

section \<open>The view of a detailed state\<close>

definition view :: "oref list \<Rightarrow> 'd DealerImpl \<Rightarrow> absd" where
  "view ex d = \<lparr>a_living = Map_Get (d_LivingOrders d), a_unrel = Map_Get (d_UnrelatedOrders d),
     a_done = s_a (d_doneOrders d), a_exported = ex, a_bound = s_maxLen (d_doneOrders d),
     a_next = d_next d, a_id = (\<lambda>r. o_id (d_heap d r)), a_type = (\<lambda>r. o_orderType (d_heap d r)),
     a_st = (\<lambda>r. o_status (d_heap d r)), a_ad = (\<lambda>r. o_amendingDetail (d_heap d r) \<noteq> None),
     a_cnt = (\<lambda>r. o_amendCount (d_heap d r))\<rparr>"

lemma view_sel [simp]:
  "a_living (view ex d) = Map_Get (d_LivingOrders d)" "a_unrel (view ex d) = Map_Get (d_UnrelatedOrders d)"
  "a_done (view ex d) = s_a (d_doneOrders d)" "a_exported (view ex d) = ex"
  "a_bound (view ex d) = s_maxLen (d_doneOrders d)" "a_next (view ex d) = d_next d"
  "a_id (view ex d) r = o_id (d_heap d r)" "a_type (view ex d) r = o_orderType (d_heap d r)"
  "a_st (view ex d) r = o_status (d_heap d r)" "a_ad (view ex d) r = (o_amendingDetail (d_heap d r) \<noteq> None)"
  "a_cnt (view ex d) r = o_amendCount (d_heap d r)"
  by (simp_all add: view_def)

lemmas dealer_defs = ord_def on_def spawn_def request_def Living_Delete_def done_Append_def
  execCreateCallbacks_def execAmendCallbacks_def execFillCallbacks_def execPartiallyFillCallbacks_def
  execCancelCallbacks_def execCreateRejectCallbacks_def execAmendRejectCallbacks_def
  execAmendRejectOrderNotExistCallbacks_def execCancelRejectCallbacks_def

text \<open>Operations that leave the view alone.\<close>

definition keeps_view :: "('d Order \<Rightarrow> 'd Order) \<Rightarrow> bool" where
  "keeps_view f \<longleftrightarrow> (\<forall>x. o_id (f x) = o_id x \<and> o_orderType (f x) = o_orderType x \<and>
     o_status (f x) = o_status x \<and> o_amendingDetail (f x) = o_amendingDetail x \<and>
     o_amendCount (f x) = o_amendCount x)"

lemma view_on_keeps: "keeps_view f \<Longrightarrow> view ex (on r f d) = view ex d"
  by (simp add: view_def on_def keeps_view_def fun_eq_iff)

lemma view_spawn [simp]: "view ex (spawn r cbs d) = view ex d"
  by (simp add: view_def spawn_def)

lemma view_request [simp]: "view ex (request q d) = view ex d"
  by (simp add: view_def request_def)

lemma view_noticeError [simp]: "view ex (noticeError e d) = view ex d"
  by (simp add: view_def noticeError_def)

lemma view_amendingDetailMap [simp]: "view ex (d\<lparr>d_amendingDetailMap := m\<rparr>) = view ex d"
  by (simp add: view_def)

lemma view_exec [simp]:
  "view ex (execAmendRejectOrderNotExistCallbacks r d) = view ex d"
  by (simp add: execAmendRejectOrderNotExistCallbacks_def)

lemma keeps_view_simps [simp]:
  "keeps_view (SetCreateCallback cb)" "keeps_view (SetAmendCallback cb)"
  "keeps_view (ReplaceCreateCallbacks cb)" "keeps_view (ReplaceAmendCallbacks cb)"
  "keeps_view (recordLastOperatedTimestamp now)"
  by (simp_all add: keeps_view_def go_simps)

section \<open>Handlers as moves\<close>

lemma view_setOrderFillInfo [simp]: "view ex (setOrderFillInfo r data d) = view ex d"
  unfolding setOrderFillInfo_def
  by (rule view_on_keeps) (auto simp: keeps_view_def go_simps Let_def)

lemma view_setOrderPartiallyFillInfo [simp]: "view ex (setOrderPartiallyFillInfo r data d) = view ex d"
  unfolding setOrderPartiallyFillInfo_def
  by (rule view_on_keeps) (auto simp: keeps_view_def go_simps Let_def)

lemma view_finish:
  assumes "s_maxLen (d_doneOrders d) = 0"
  shows "view ex (acceptFilled r d) = a_finish r (view ex d)"
    "view ex (acceptCancel r d) = a_finish r (view ex d)"
    "view ex (rejectCreate r d) = a_finish r (view ex d)"
    "view ex (abandonOrder r d) = a_finish r (view ex d)"
    "o_orderType (ord d r) = OrderTypeLimitIOC \<Longrightarrow>
       view ex (acceptPartiallyFilled r d) = a_finish r (view ex d)"
  using assms
  by (simp_all add: handler_defs view_def a_finish_def dealer_defs go_simps fun_eq_iff Let_def)

lemma view_pending:
  "view ex (acceptCreate r pid t1 t2 d) = (view ex d)\<lparr>a_st := (a_st (view ex d))(r := OrderStatusPending)\<rparr>"
  "view ex (rejectCancel r d) = (view ex d)\<lparr>a_st := (a_st (view ex d))(r := OrderStatusPending)\<rparr>"
  "view ex (rejectAmend r d) = (view ex d)\<lparr>a_st := (a_st (view ex d))(r := OrderStatusPending),
     a_ad := (a_ad (view ex d))(r := False)\<rparr>"
  by (simp_all add: handler_defs view_def dealer_defs go_simps fun_eq_iff Let_def)

lemma view_acceptAmend:
  "acceptAmend r (Some ad) t1 t2 d = Inr d' \<Longrightarrow>
   view ex d' = (view ex d)\<lparr>a_st := (a_st (view ex d))(r := OrderStatusPending),
     a_ad := (a_ad (view ex d))(r := False)\<rparr>"
  by (auto simp: acceptAmend_def amend_def view_def dealer_defs go_simps fun_eq_iff Let_def)

lemma acceptAmend_no_panic: "\<exists>d'. acceptAmend r (Some ad) t1 t2 d = Inr d'"
  by (simp add: acceptAmend_def amend_def Let_def)

lemma view_enter:
  "view ex (enterSending now r d) = (view ex d)
     \<lparr>a_living := (a_living (view ex d))(a_id (view ex d) r \<mapsto> r),
      a_st := (a_st (view ex d))(r := OrderStatusSending)\<rparr>"
  "view ex (enterCanceling now r d) = (view ex d)\<lparr>a_st := (a_st (view ex d))(r := OrderStatusCanceling)\<rparr>"
  by (simp_all add: enterSending_def enterCanceling_def view_def dealer_defs go_simps fun_eq_iff Let_def)

section \<open>Moves of single handlers\<close>

lemma moves_finish:
  assumes "ainv (view ex d)" and "Map_Get (d_LivingOrders d) (o_id (d_heap d r)) = Some r"
  shows "amove\<^sup>*\<^sup>* (view ex d) (view ex (acceptFilled r d))"
    "amove\<^sup>*\<^sup>* (view ex d) (view ex (acceptCancel r d))"
    "amove\<^sup>*\<^sup>* (view ex d) (view ex (rejectCreate r d))"
    "amove\<^sup>*\<^sup>* (view ex d) (view ex (abandonOrder r d))"
    "amove\<^sup>*\<^sup>* (view ex d) (view ex (acceptPartiallyFilled r d))"
proof -
  have b: "s_maxLen (d_doneOrders d) = 0" using ainvD(3) [OF assms(1)] by simp
  have m: "amove\<^sup>*\<^sup>* (view ex d) (a_finish r (view ex d))"
    using assms(2) by (intro r_into_rtranclp m_finish) simp
  show "amove\<^sup>*\<^sup>* (view ex d) (view ex (acceptFilled r d))"
    "amove\<^sup>*\<^sup>* (view ex d) (view ex (acceptCancel r d))"
    "amove\<^sup>*\<^sup>* (view ex d) (view ex (rejectCreate r d))"
    "amove\<^sup>*\<^sup>* (view ex d) (view ex (abandonOrder r d))"
    using m by (simp_all add: view_finish [OF b])
  show "amove\<^sup>*\<^sup>* (view ex d) (view ex (acceptPartiallyFilled r d))"
    using m view_finish(5) [OF b]
    by (cases "o_orderType (ord d r) = OrderTypeLimitIOC") (simp_all add: acceptPartiallyFilled_def go_simps)
qed

lemma moves_rejectAmend:
  "o_status (d_heap d r) = OrderStatusAmending \<Longrightarrow> amove\<^sup>*\<^sup>* (view ex d) (view ex (rejectAmend r d))"
  unfolding view_pending by (intro r_into_rtranclp m_amended) simp

lemma moves_rejectCancel:
  "o_status (d_heap d r) = OrderStatusCanceling \<Longrightarrow> amove\<^sup>*\<^sup>* (view ex d) (view ex (rejectCancel r d))"
  unfolding view_pending by (intro r_into_rtranclp m_kept) simp

lemma moves_acceptCreate:
  "o_status (d_heap d r) = OrderStatusSending \<Longrightarrow> confirmable (o_orderType (d_heap d r)) \<Longrightarrow>
     amove\<^sup>*\<^sup>* (view ex d) (view ex (acceptCreate r pid t1 t2 d))"
  unfolding view_pending by (intro r_into_rtranclp m_created) simp_all

lemma moves_acceptAmend:
  "o_status (d_heap d r) = OrderStatusAmending \<Longrightarrow> acceptAmend r (Some ad) t1 t2 d = Inr d' \<Longrightarrow>
     amove\<^sup>*\<^sup>* (view ex d) (view ex d')"
  by (drule view_acceptAmend [where ex = ex]) (simp add: m_amended r_into_rtranclp)

text \<open>What a successful lookup by status says of the order found.\<close>

lemma lookup_status:
  "getSendingOrder h m i = Some r \<longleftrightarrow> Map_Get m i = Some r \<and> o_status (h r) = OrderStatusSending"
  "getAmendingOrder h m i = Some r \<longleftrightarrow> Map_Get m i = Some r \<and> o_status (h r) = OrderStatusAmending"
  "getCancelingOrder h m i = Some r \<longleftrightarrow> Map_Get m i = Some r \<and> o_status (h r) = OrderStatusCanceling"
  by (auto simp: getSendingOrder_def getAmendingOrder_def getCancelingOrder_def go_simps
      split: option.splits if_splits)

lemma living_self:
  "ainv (view ex d) \<Longrightarrow> Map_Get (d_LivingOrders d) i = Some r \<Longrightarrow>
     Map_Get (d_LivingOrders d) (o_id (d_heap d r)) = Some r"
  using ainvD(4) [of "view ex d" i r] by simp

lemma moves_handleSendOrderResp:
  assumes "ainv (view ex d)"
  shows "amove\<^sup>*\<^sup>* (view ex d) (view ex (handleSendOrderResp resp err d))"
proof (cases "getSendingOrder (d_heap d) (d_LivingOrders d) (cr_OrderID resp)")
  case (Some r)
  then have r: "Map_Get (d_LivingOrders d) (o_id (d_heap d r)) = Some r" "o_status (d_heap d r) = OrderStatusSending"
    using living_self [OF assms] by (auto simp: lookup_status)
  with moves_finish(3) [OF assms r(1)] moves_acceptCreate [OF r(2)] Some show ?thesis
    by (auto simp: handleSendOrderResp_def confirmable_def ord_def go_simps
        split: option.split OrderType.split)
qed (simp add: handleSendOrderResp_def)

lemma moves_handleCancelOrderResp:
  assumes "ainv (view ex d)"
  shows "amove\<^sup>*\<^sup>* (view ex d) (view ex (handleCancelOrderResp resp err d))"
proof (cases "getCancelingOrder (d_heap d) (d_LivingOrders d) (xr_OrderID resp)")
  case (Some r)
  then have r: "Map_Get (d_LivingOrders d) (o_id (d_heap d r)) = Some r" "o_status (d_heap d r) = OrderStatusCanceling"
    using living_self [OF assms] by (auto simp: lookup_status)
  with moves_finish(2,4) [OF assms r(1)] moves_rejectCancel [OF r(2)] Some show ?thesis
    by (auto simp: handleCancelOrderResp_def split: option.split)
qed (simp add: handleCancelOrderResp_def)

lemma moves_handleAmendOrderResp:
  assumes "ainv (view ex d)" and "err = None \<and> ar_Err resp = None \<longrightarrow> ar_Detail resp \<noteq> None"
  shows "\<exists>d'. handleAmendOrderResp resp err d = Inr d' \<and> amove\<^sup>*\<^sup>* (view ex d) (view ex d')"
proof (cases "getAmendingOrder (d_heap d) (d_LivingOrders d) (ar_OrderID resp)")
  case (Some r)
  then have r: "Map_Get (d_LivingOrders d) (o_id (d_heap d r)) = Some r" "o_status (d_heap d r) = OrderStatusAmending"
    using living_self [OF assms(1)] by (auto simp: lookup_status)
  show ?thesis
  proof (cases "err = None \<and> ar_Err resp = None")
    case True
    with assms(2) obtain ad where ad: "ar_Detail resp = Some ad" by auto
    obtain d' where "acceptAmend r (Some ad) (ar_ArrivedAt resp) (ar_ConfirmedAt resp) d = Inr d'"
      using acceptAmend_no_panic by blast
    with True ad Some moves_acceptAmend [OF r(2) this, of ex] show ?thesis
      by (simp add: handleAmendOrderResp_def)
  next
    case False
    with moves_finish(4) [OF assms(1) r(1)] moves_rejectAmend [OF r(2)] Some show ?thesis
      by (auto simp: handleAmendOrderResp_def split: option.split)
  qed
qed (simp add: handleAmendOrderResp_def)

end
