(* ===== verification/Dealer_Runs.thy ===== *)
theory Dealer_Runs
  imports Dealer_Refinement
begin

text \<open>
  Batches and events: the remaining operations of the dealer as sequences of moves of the
  specification, and what follows for every reachable state of the detailed dealer.
\<close>

section \<open>Batches of orders\<close>

lemma moves_inv: "ainv (view ex d) \<Longrightarrow> amove\<^sup>*\<^sup>* (view ex d) (view ex d') \<Longrightarrow> ainv (view ex d')"
  by (rule spec.run_inv)

lemma moves_keep_id:
  "ainv (view ex d) \<Longrightarrow> amove\<^sup>*\<^sup>* (view ex d) (view ex d') \<Longrightarrow> r < d_next d \<Longrightarrow>
     o_id (d_heap d' r) = o_id (d_heap d r)"
  using amoves_edges [of "view ex d" "view ex d'" r] by simp

text \<open>The orders found by status for a list of identifiers are distinct, living and of that status.\<close>

lemma with_status_mem:
  "r \<in> set (with_status st h (Map_Gets m ids)) \<longleftrightarrow> (\<exists>i \<in> set ids. Map_Get m i = Some r \<and> o_status (h r) = st)"
  by (force simp: with_status_def List.map_filter_def Map_Gets_Get go_simps split: option.splits if_splits)

lemma distinct_map_filter:
  assumes "distinct xs" and "\<And>x y z. f x = Some z \<Longrightarrow> f y = Some z \<Longrightarrow> x = y"
  shows "distinct (List.map_filter f xs)"
  using assms by (induction xs) (auto simp: List.map_filter_def split: option.splits, metis)

lemma with_status_distinct:
  assumes "ainv (view ex d)" and "distinct ids"
  shows "distinct (with_status st (d_heap d) (Map_Gets (d_LivingOrders d) ids))"
proof -
  have "with_status st (d_heap d) (Map_Gets (d_LivingOrders d) ids) =
      List.map_filter (\<lambda>i. case Map_Get (d_LivingOrders d) i of None \<Rightarrow> None
        | Some r \<Rightarrow> if GetStatus (d_heap d r) = st then Some r else None) ids"
    by (simp add: with_status_def Map_Gets_Get List.map_filter_def comp_def filter_map)
  also have "distinct \<dots>"
  proof (rule distinct_map_filter [OF assms(2)])
    fix x y z
    assume "(case Map_Get (d_LivingOrders d) x of None \<Rightarrow> None
        | Some r \<Rightarrow> if GetStatus (d_heap d r) = st then Some r else None) = Some z"
      and "(case Map_Get (d_LivingOrders d) y of None \<Rightarrow> None
        | Some r \<Rightarrow> if GetStatus (d_heap d r) = st then Some r else None) = Some z"
    then have "Map_Get (d_LivingOrders d) x = Some z" "Map_Get (d_LivingOrders d) y = Some z"
      by (auto split: option.splits if_splits)
    with ainvD(4) [OF assms(1), of _ z] show "x = y" by simp metis
  qed
  finally show ?thesis .
qed

text \<open>Rejecting a batch.\<close>

lemma living_after_finish:
  assumes "ainv (view ex d)" and "x \<noteq> y"
    and "Map_Get (d_LivingOrders d) (o_id (d_heap d x)) = Some x"
    and "Map_Get (d_LivingOrders d) (o_id (d_heap d y)) = Some y"
  shows "Map_Get (d_LivingOrders (rejectCreate x d)) (o_id (d_heap (rejectCreate x d) y)) = Some y"
  using assms by (auto simp: rejectCreate_def dealer_defs go_simps Let_def)

lemma moves_rejectCreates:
  assumes "ainv (view ex d)" and "distinct rs"
    and "\<And>r. r \<in> set rs \<Longrightarrow> Map_Get (d_LivingOrders d) (o_id (d_heap d r)) = Some r"
  shows "amove\<^sup>*\<^sup>* (view ex d) (view ex (rejectCreates rs d))"
proof -
  have "amove\<^sup>*\<^sup>* (view ex d) (view ex (fold rejectCreate rs d)) \<and> ainv (view ex (fold rejectCreate rs d))"
    by (rule fold_run [where G = "\<lambda>r d. Map_Get (d_LivingOrders d) (o_id (d_heap d r)) = Some r"
          and v = "view ex" and I = "\<lambda>d. ainv (view ex d)"])
      (use assms in \<open>auto intro: moves_finish(3) moves_inv living_after_finish [of ex]\<close>)
  then show ?thesis by (simp add: rejectCreates_def)
qed

text \<open>A batch of orders of one status, each moved on its own.\<close>

lemma moves_fold_status:
  assumes "ainv (view ex d)" and "distinct rs" and "\<And>r. r \<in> set rs \<Longrightarrow> o_status (d_heap d r) = st"
    and "\<And>r d. o_status (d_heap d r) = st \<Longrightarrow> amove\<^sup>*\<^sup>* (view ex d) (view ex (f r d))"
    and "\<And>x y d. y \<noteq> x \<Longrightarrow> d_heap (f x d) y = d_heap d y"
  shows "amove\<^sup>*\<^sup>* (view ex d) (view ex (fold f rs d)) \<and> ainv (view ex (fold f rs d))"
  by (rule fold_run [where G = "\<lambda>r d. o_status (d_heap d r) = st" and v = "view ex" and I = "\<lambda>d. ainv (view ex d)"])
    (use assms in \<open>auto intro: moves_inv\<close>)

lemma frames [simp]:
  "y \<noteq> x \<Longrightarrow> d_heap (rejectAmend x d) y = d_heap d y"
  "y \<noteq> x \<Longrightarrow> d_heap (rejectCancel x d) y = d_heap d y"
  "y \<noteq> x \<Longrightarrow> d_heap (enterCanceling now x d) y = d_heap d y"
  "y \<noteq> x \<Longrightarrow> d_heap (enterSending now x d) y = d_heap d y"
  by (simp_all add: handler_defs enterCanceling_def enterSending_def dealer_defs Let_def)

lemma moves_rejectAmends:
  assumes "ainv (view ex d)" and "distinct rs"
    and "\<And>r. r \<in> set rs \<Longrightarrow> o_status (d_heap d r) = OrderStatusAmending"
  shows "amove\<^sup>*\<^sup>* (view ex d) (view ex (rejectAmends rs d))"
  unfolding rejectAmends_def
  using moves_fold_status [of ex d rs OrderStatusAmending rejectAmend] assms moves_rejectAmend frames by blast

lemma moves_rejectCancels:
  assumes "ainv (view ex d)" and "distinct rs"
    and "\<And>r. r \<in> set rs \<Longrightarrow> o_status (d_heap d r) = OrderStatusCanceling"
  shows "amove\<^sup>*\<^sup>* (view ex d) (view ex (rejectCancels rs d))"
  unfolding rejectCancels_def
  using moves_fold_status [of ex d rs OrderStatusCanceling rejectCancel] assms moves_rejectCancel frames by blast

text \<open>
  A batch of responses: for each order found, its response is looked up by the order's
  identifier and handled.
\<close>

lemma moves_foldM:
  fixes d :: "'d DealerImpl"
  assumes "ainv (view ex d)" and "\<And>r. r \<in> set rs \<Longrightarrow> r < d_next d"
    and "\<And>r d'. r \<in> set rs \<Longrightarrow> ainv (view ex d') \<Longrightarrow> o_id (d_heap d' r) = o_id (d_heap d r) \<Longrightarrow>
       \<exists>d''. f r d' = Inr d'' \<and> amove\<^sup>*\<^sup>* (view ex d') (view ex d'')"
  shows "\<exists>d'. foldM f rs d = Inr d' \<and> amove\<^sup>*\<^sup>* (view ex d) (view ex d')"
proof (rule foldM_inv [where P = "\<lambda>d'. amove\<^sup>*\<^sup>* (view ex d) (view ex d')"])
  fix r and d' :: "'d DealerImpl"
  assume r: "r \<in> set rs" and m: "amove\<^sup>*\<^sup>* (view ex d) (view ex d')"
  with assms(3) [OF r moves_inv [OF assms(1) m]] moves_keep_id [OF assms(1) m assms(2) [OF r]]
  show "\<exists>d''. f r d' = Inr d'' \<and> amove\<^sup>*\<^sup>* (view ex d) (view ex d'')"
    by (meson rtranclp_trans)
qed simp

lemma active_allocated: "ainv (view ex d) \<Longrightarrow> active (o_status (d_heap d r)) \<Longrightarrow> r < d_next d"
  using unallocated [of "view ex d" r] by fastforce

text \<open>An order found among the identifiers \<open>ids\<close> has one of them as its identifier.\<close>

lemma found_id:
  "ainv (view ex d) \<Longrightarrow> r \<in> set (with_status st (d_heap d) (Map_Gets (d_LivingOrders d) ids)) \<Longrightarrow>
     o_id (d_heap d r) \<in> set ids \<and> o_status (d_heap d r) = st \<and> r < d_next d \<and>
     Map_Get (d_LivingOrders d) (o_id (d_heap d r)) = Some r"
  using ainvD(4) [of "view ex d" _ r] active_allocated [of ex d r] by (auto simp: with_status_mem)

lemma moves_resps:
  fixes d :: "'d DealerImpl"
  assumes "ainv (view ex d)" and "\<forall>i \<in> set ids. \<exists>resp. resps i = Some (Some resp) \<and> Q resp"
    and "\<And>resp d'. ainv (view ex d') \<Longrightarrow> Q resp \<Longrightarrow>
       \<exists>d''. g resp d' = Inr d'' \<and> amove\<^sup>*\<^sup>* (view ex d') (view ex d'')"
  shows "\<exists>d'. foldM (\<lambda>r d. case resps (GetID (ord d r)) of Some (Some resp) \<Rightarrow> g resp d | _ \<Rightarrow> Inl NilDeref)
      (with_status st (d_heap d) (Map_Gets (d_LivingOrders d) ids)) d = Inr d' \<and>
    amove\<^sup>*\<^sup>* (view ex d) (view ex d')"
proof (rule moves_foldM [OF assms(1)])
  fix r and d' :: "'d DealerImpl"
  assume r: "r \<in> set (with_status st (d_heap d) (Map_Gets (d_LivingOrders d) ids))"
    and d': "ainv (view ex d')" "o_id (d_heap d' r) = o_id (d_heap d r)"
  from found_id [OF assms(1) r] assms(2) d'(2) obtain resp
    where "resps (GetID (ord d' r)) = Some (Some resp)" "Q resp" by (auto simp: ord_def go_simps)
  with assms(3) [OF d'(1)]
  show "\<exists>d''. (case resps (GetID (ord d' r)) of Some (Some resp) \<Rightarrow> g resp d' | _ \<Rightarrow> Inl NilDeref) = Inr d'' \<and>
    amove\<^sup>*\<^sup>* (view ex d') (view ex d'')" by simp
qed (use found_id [OF assms(1)] in blast)

lemma moves_handleSendOrdersResp:
  assumes "ainv (view ex d)" and "admissible (EvSendsResp ids resps err) d"
  shows "\<exists>d'. handleSendOrdersResp ids resps err d = Inr d' \<and> amove\<^sup>*\<^sup>* (view ex d) (view ex d')"
proof (cases err)
  case None
  show ?thesis unfolding handleSendOrdersResp_def getSendingOrders_def None Let_def option.case
    by (rule moves_resps [OF assms(1), where Q = "\<lambda>_. True"])
      (use assms(2) None moves_handleSendOrderResp in auto)
next
  case (Some e)
  with moves_rejectCreates [OF assms(1) with_status_distinct [OF assms(1)]] found_id [OF assms(1)] assms(2)
  show ?thesis by (simp add: handleSendOrdersResp_def getSendingOrders_def Let_def enumerates_def)
qed

lemma moves_handleAmendOrdersResp:
  assumes "ainv (view ex d)" and "admissible (EvAmendsResp ids resps err) d"
  shows "\<exists>d'. handleAmendOrdersResp ids resps err d = Inr d' \<and> amove\<^sup>*\<^sup>* (view ex d) (view ex d')"
proof (cases err)
  case None
  show ?thesis unfolding handleAmendOrdersResp_def getAmendingOrders_def None Let_def option.case
  proof (rule moves_resps [OF assms(1), where Q = "\<lambda>resp. ar_Err resp = None \<longrightarrow> ar_Detail resp \<noteq> None"])
    show "\<forall>i \<in> set ids. \<exists>resp. resps i = Some (Some resp) \<and> (ar_Err resp = None \<longrightarrow> ar_Detail resp \<noteq> None)"
      using assms(2) None by auto
  qed (rule moves_handleAmendOrderResp, simp_all)
next
  case (Some e)
  with moves_rejectAmends [OF assms(1) with_status_distinct [OF assms(1)]] found_id [OF assms(1)] assms(2)
  show ?thesis by (simp add: handleAmendOrdersResp_def getAmendingOrders_def Let_def enumerates_def)
qed

lemma moves_handleCancelOrdersResp:
  assumes "ainv (view ex d)" and "admissible (EvCancelsResp ids resps err) d"
  shows "\<exists>d'. handleCancelOrdersResp ids resps err d = Inr d' \<and> amove\<^sup>*\<^sup>* (view ex d) (view ex d')"
proof (cases err)
  case None
  show ?thesis unfolding handleCancelOrdersResp_def getCancelingOrders_def None Let_def option.case
    by (rule moves_resps [OF assms(1), where Q = "\<lambda>_. True"])
      (use assms(2) None moves_handleCancelOrderResp in auto)
next
  case (Some e)
  with moves_rejectCancels [OF assms(1) with_status_distinct [OF assms(1)]] found_id [OF assms(1)] assms(2)
  show ?thesis by (simp add: handleCancelOrdersResp_def getCancelingOrders_def Let_def enumerates_def)
qed

section \<open>The operations of the strategy\<close>

lemma moves_enterSending:
  "o_status (d_heap d r) = OrderStatusBorn \<Longrightarrow> Map_Get (d_LivingOrders d) (o_id (d_heap d r)) = None \<Longrightarrow>
     amove\<^sup>*\<^sup>* (view ex d) (view ex (enterSending now r d))"
  unfolding view_enter by (intro r_into_rtranclp m_send) simp_all

lemma enterSending_sel [simp]:
  "Map_Get (d_LivingOrders (enterSending now r d)) i = (if i = o_id (d_heap d r) then Some r else Map_Get (d_LivingOrders d) i)"
  "o_id (d_heap (enterSending now r d) q) = o_id (d_heap d q)"
  by (simp_all add: enterSending_def dealer_defs go_simps Let_def)

lemma moves_SendOrder:
  assumes "ainv (view ex d)" and "admissible (EvSendOrder ag now r) d"
  shows "amove\<^sup>*\<^sup>* (view ex d) (view ex (snd (SendOrder ag now r d)))"
proof (cases "getOrder (d_LivingOrders d) (GetID (ord d r)) = None \<and> Flag_Get (d_acceptOrder d)")
  case True
  let ?d = "request (ReqSendOrder r) (enterSending now r d)"
  have m: "amove\<^sup>*\<^sup>* (view ex d) (view ex ?d)"
    using True assms(2) by (simp add: moves_enterSending getOrder_def go_simps ord_def)
  have "amove\<^sup>*\<^sup>* (view ex ?d) (view ex (rejectCreate r ?d))"
    by (rule moves_finish(3) [OF moves_inv [OF assms(1) m]]) (simp add: request_def)
  with m True show ?thesis by (auto simp: SendOrder_def Let_def split: option.split)
qed (auto simp: SendOrder_def)

lemma moves_SendOrders:
  assumes "ainv (view ex d)" and "admissible (EvSendOrders ag now rs) d"
  shows "amove\<^sup>*\<^sup>* (view ex d) (view ex (snd (SendOrders ag now rs d)))"
proof (cases "(\<forall>r \<in> set rs. getOrder (d_LivingOrders d) (GetID (ord d r)) = None) \<and> Flag_Get (d_acceptOrder d)")
  case True
  let ?f = "fold (enterSending now) rs d"
  let ?d = "request (ReqSendOrders rs) ?f"
  have dist: "distinct rs" "inj_on (\<lambda>r. o_id (d_heap d r)) (set rs)"
    using assms(2) by (auto simp: distinct_map ord_def go_simps)
  have ids: "o_id (d_heap (fold (enterSending now) qs d) q) = o_id (d_heap d q)" for qs q
    by (induction qs arbitrary: d) simp_all
  have "amove\<^sup>*\<^sup>* (view ex d) (view ex ?f) \<and> ainv (view ex ?f) \<and> (\<forall>r. o_id (d_heap ?f r) = o_id (d_heap d r))"
    by (rule fold_run [where v = "view ex"
          and I = "\<lambda>s. ainv (view ex s) \<and> (\<forall>r. o_id (d_heap s r) = o_id (d_heap d r))"
          and G = "\<lambda>r s. o_status (d_heap s r) = OrderStatusBorn \<and> Map_Get (d_LivingOrders s) (o_id (d_heap d r)) = None"])
      (use assms True dist in \<open>auto intro: moves_enterSending moves_inv [OF _ moves_enterSending]
        simp: getOrder_def go_simps ord_def inj_on_def\<close>)
  then have m: "amove\<^sup>*\<^sup>* (view ex d) (view ex ?d)" by simp
  have "Map_Get (d_LivingOrders (fold (enterSending now) qs d)) (o_id (d_heap d r)) = Some r"
    if "r \<in> set qs" "set qs \<subseteq> set rs" for r qs
    using that dist(2)
  proof (induction qs rule: rev_induct)
    case (snoc q qs)
    then show ?case by (auto simp: ids inj_on_def)
  qed simp
  then have "amove\<^sup>*\<^sup>* (view ex ?d) (view ex (rejectCreates rs ?d))"
    by (intro moves_rejectCreates moves_inv [OF assms(1) m] dist(1)) (simp add: request_def ids)
  with m True show ?thesis by (auto simp: SendOrders_def Let_def list_ex_iff split: option.split)
qed (auto simp: SendOrders_def list_ex_iff)

text \<open>Amending.\<close>

lemma moves_amendOrder:
  fixes d :: "'d :: linordered_idom DealerImpl"
  assumes "ainv (view ex d)"
  shows "\<exists>err d'. amendOrder ag now r detail d = Inr (err, d') \<and> amove\<^sup>*\<^sup>* (view ex d) (view ex d')"
proof -
  let ?o = "d_heap d r"
  have ok: "order_ok (view ex d) r" by (rule ainvD(1) [OF assms])
  then have able: "isAmendAble ?o" by (simp add: order_ok_def isAmendAble_def)
  from ok obtain need where need: "isNeedToAmend detail ?o = Inr need"
    using isNeedToAmend_no_panic [of ?o detail] by (auto simp: order_ok_def)
  let ?d = "request (ReqAmendOrder r detail) (on r (recordLastOperatedTimestamp now)
     (on r (setAmendingDetail (Some detail)) (on r (setStatus OrderStatusAmending) d)))"
  have v: "view ex ?d = (view ex d)\<lparr>a_st := (a_st (view ex d))(r := OrderStatusAmending),
     a_ad := (a_ad (view ex d))(r := True)\<rparr>"
    by (simp add: view_def dealer_defs go_simps fun_eq_iff)
  have sent: "amove\<^sup>*\<^sup>* (view ex d) (view ex ?d)" "amove\<^sup>*\<^sup>* (view ex d) (view ex (rejectAmend r ?d))"
    if "o_status ?o = OrderStatusPending"
  proof -
    show m: "amove\<^sup>*\<^sup>* (view ex d) (view ex ?d)"
      unfolding v using that by (intro r_into_rtranclp m_amend) simp
    have "amove\<^sup>*\<^sup>* (view ex ?d) (view ex (rejectAmend r ?d))"
      by (rule moves_rejectAmend) (simp add: dealer_defs go_simps)
    with m show "amove\<^sup>*\<^sup>* (view ex d) (view ex (rejectAmend r ?d))" by simp
  qed
  have "o_status ?o = OrderStatusPending \<or> o_status ?o = OrderStatusAmending" if need
    using need that by (auto simp: isNeedToAmend_def split: OrderStatus.splits)
  then show ?thesis
    using able need sent moves_rejectAmend [of d r ex]
    by (auto simp: amendOrder_def amendOrder_locked_def ord_def [of d] GetStatus_def Let_def
        split: option.split)
qed

lemma moves_runDeferredAmend:
  assumes "ainv (view ex d)"
  shows "\<exists>d'. runDeferredAmend ag now r detail d = Inr d' \<and> amove\<^sup>*\<^sup>* (view ex d) (view ex d')"
proof -
  let ?ad = "case Map_Get (d_amendingDetailMap d) (GetID (ord d r)) of Some ad \<Rightarrow> ad | None \<Rightarrow> detail"
  obtain err d' where
    "amendOrder ag now r ?ad (d\<lparr>d_amendingDetailMap := Map_Delete (d_amendingDetailMap d) (GetID (ord d r))\<rparr>) = Inr (err, d')"
    "amove\<^sup>*\<^sup>* (view ex d) (view ex d')"
    using moves_amendOrder [of ex "d\<lparr>d_amendingDetailMap := Map_Delete (d_amendingDetailMap d) (GetID (ord d r))\<rparr>"]
      assms by (metis view_amendingDetailMap)
  then show ?thesis by (simp add: runDeferredAmend_def Let_def)
qed

lemma moves_AmendOrder:
  assumes "ainv (view ex d)"
  shows "\<exists>err d'. AmendOrder ag now r detail d = Inr (err, d') \<and> amove\<^sup>*\<^sup>* (view ex d) (view ex d')"
  using moves_amendOrder [OF assms, of ag now r detail]
  by (auto simp: AmendOrder_def Let_def view_on_keeps split: OrderStatus.split)

text \<open>Cancelling.\<close>

lemma moves_enterCanceling:
  "o_status (d_heap d r) = OrderStatusPending \<Longrightarrow> amove\<^sup>*\<^sup>* (view ex d) (view ex (enterCanceling now r d))"
  unfolding view_enter by (intro r_into_rtranclp m_cancel) simp_all

lemma enterCanceling_status [simp]:
  "o_status (d_heap (enterCanceling now r d) q) = (if q = r then OrderStatusCanceling else o_status (d_heap d q))"
  by (simp add: enterCanceling_def dealer_defs go_simps)

lemma cancelOrder_alt:
  "cancelOrder ag now r d =
     (if o_status (d_heap d r) = OrderStatusCanceling then (None, d)
      else if o_status (d_heap d r) \<noteq> OrderStatusPending
           then (Some (Sentinel DealingErrorOrderNotReadyForOperation), d)
      else (ag, (if ag = None then id else rejectCancel r) (request (ReqCancelOrder r) (enterCanceling now r d))))"
  by (auto simp: cancelOrder_def enterCanceling_def ord_def [of d] GetStatus_def Let_def split: option.split)

lemma moves_runDeferredCancel: "amove\<^sup>*\<^sup>* (view ex d) (view ex (runDeferredCancel ag now r d))"
proof (cases "o_status (d_heap d r) = OrderStatusPending")
  case True
  let ?d = "request (ReqCancelOrder r) (enterCanceling now r d)"
  have m: "amove\<^sup>*\<^sup>* (view ex d) (view ex ?d)" using True by (simp add: moves_enterCanceling)
  have "amove\<^sup>*\<^sup>* (view ex ?d) (view ex (rejectCancel r ?d))"
    by (rule moves_rejectCancel) (simp add: request_def)
  with m True show ?thesis by (auto simp: runDeferredCancel_def cancelOrder_alt)
qed (simp add: runDeferredCancel_def cancelOrder_alt)

lemma view_deferCancel [simp]: "view ex (deferCancel r d) = view ex d"
  by (simp add: deferCancel_def view_on_keeps Let_def split: OrderStatus.split)

lemma moves_CancelOrder: "amove\<^sup>*\<^sup>* (view ex d) (view ex (snd (CancelOrder ag now r d)))"
  by (simp add: CancelOrder_def moves_runDeferredCancel)

lemma deferCancel_status [simp]: "o_status (d_heap (deferCancel r d) q) = o_status (d_heap d q)"
  by (simp add: deferCancel_def dealer_defs go_simps Let_def split: OrderStatus.split)

lemma splitCancelTargets_sound:
  "splitCancelTargets rs d = (ts, d') \<Longrightarrow>
     view ex d' = view ex d \<and> ts = filter (\<lambda>r. o_status (d_heap d r) = OrderStatusPending) rs \<and>
     (\<forall>r. o_status (d_heap d' r) = o_status (d_heap d r))"
  by (induction rs d arbitrary: ts rule: splitCancelTargets.induct)
    (auto simp: ord_def GetStatus_def split: if_splits prod.splits)

text \<open>\<open>Unique\<close> keeps each order at most once, and only orders of the list.\<close>

lemma unique_map_Some: "unique_map h rs i = Some r \<Longrightarrow> r \<in> set rs \<and> o_id (h r) = i"
  unfolding unique_map_def by (induction rs rule: rev_induct) (auto simp: GetID_def split: if_splits)

lemma Unique_props:
  "enumerates ks (unique_map h rs) \<Longrightarrow> distinct (Unique ks h rs) \<and> set (Unique ks h rs) \<subseteq> set rs"
proof
  show "set (Unique ks h rs) \<subseteq> set rs"
    by (auto simp: Unique_def List.map_filter_def dest: unique_map_Some)
  show "distinct (Unique ks h rs)" if "enumerates ks (unique_map h rs)"
    unfolding Unique_def by (rule distinct_map_filter) (use that in \<open>auto simp: enumerates_def dest: unique_map_Some\<close>)
qed

lemma moves_CancelOrders:
  assumes "ainv (view ex d)" and "admissible (EvCancelOrders ag now ks orders) d"
  shows "amove\<^sup>*\<^sup>* (view ex d) (view ex (snd (CancelOrders ag now ks orders d)))"
proof -
  let ?rs = "Unique ks (d_heap d) orders"
  obtain ts d1 where split: "splitCancelTargets ?rs d = (ts, d1)" by fastforce
  note props = splitCancelTargets_sound [OF split, of ex]
  have u: "distinct ?rs" "set ?rs \<subseteq> set orders" using Unique_props assms(2) by auto
  let ?f = "fold (enterCanceling now) ts d1"
  let ?d = "request (ReqCancelOrders ts) ?f"
  have f: "amove\<^sup>*\<^sup>* (view ex d1) (view ex ?f) \<and> ainv (view ex ?f)"
    by (rule moves_fold_status [where st = OrderStatusPending])
      (use assms(1) props u(1) moves_enterCanceling in auto)
  have st: "o_status (d_heap (fold (enterCanceling now) qs d1) r) = OrderStatusCanceling" if "r \<in> set qs" for r qs
    using that by (induction qs rule: rev_induct) auto
  have "amove\<^sup>*\<^sup>* (view ex ?d) (view ex (rejectCancels ?rs ?d))" if "ag \<noteq> None"
  proof (rule moves_rejectCancels [OF _ u(1)])
    have "ts = ?rs" using props u(2) that assms(2) by (auto simp: filter_id_conv ord_def GetStatus_def)
    then show "o_status (d_heap ?d r) = OrderStatusCanceling" if "r \<in> set ?rs" for r
      using st [of r ts] that by (simp add: request_def)
  qed (use f in simp)
  with f props split show ?thesis
    by (auto simp: CancelOrders_def Let_def split: option.split)
qed

section \<open>WebSocket messages\<close>

lemma moves_gone:
  assumes "ainv (view ex d)" and "Map_Get (d_UnrelatedOrders d) p = Some r"
  shows "amove\<^sup>*\<^sup>* (view ex d)
    (view ex ((done_Append r d)\<lparr>d_UnrelatedOrders := Map_Delete (d_UnrelatedOrders d) p\<rparr>))"
proof -
  have "view ex ((done_Append r d)\<lparr>d_UnrelatedOrders := Map_Delete (d_UnrelatedOrders d) p\<rparr>) =
      (view ex d)\<lparr>a_done := a_done (view ex d) @ [r], a_unrel := (a_unrel (view ex d))(p := None)\<rparr>"
    using ainvD(3) [OF assms(1)] by (simp add: view_def done_Append_def fun_eq_iff)
  with assms(2) m_gone [of "view ex d" p r] show ?thesis by auto
qed

lemma moves_trackUnrelated:
  assumes "ainv (view ex d)"
  shows "amove\<^sup>*\<^sup>* (view ex d) (view ex (trackUnrelated data d))"
proof -
  let ?p = "od_PublicID data"
  let ?new = "setConfirmTimestamps (od_ArrivedAt data) (od_ConfirmedAt data) (zeroOrder\<lparr>o_publicID := ?p\<rparr>)"
  define d1 where "d1 = (if od_Status data = OrderDataStatusOpened
     then d\<lparr>d_heap := (d_heap d)(d_next d := ?new), d_next := Suc (d_next d),
            d_UnrelatedOrders := Map_Set (d_UnrelatedOrders d) ?p (d_next d)\<rparr> else d)"
  have m: "amove\<^sup>*\<^sup>* (view ex d) (view ex d1)"
  proof (cases "od_Status data = OrderDataStatusOpened")
    case True
    then have "view ex d1 = (a_alloc [] OrderTypeUnknown OrderStatusUnknown (view ex d))
        \<lparr>a_unrel := (a_unrel (view ex d))(?p \<mapsto> a_next (view ex d))\<rparr>"
      by (simp add: d1_def view_def a_alloc_def zeroOrder_def go_simps fun_eq_iff Let_def)
    then show ?thesis using m_seen [of "view ex d" ?p] by auto
  qed (simp add: d1_def)
  have "amove\<^sup>*\<^sup>* (view ex d)
      (view ex ((done_Append r d1)\<lparr>d_UnrelatedOrders := Map_Delete (d_UnrelatedOrders d1) ?p\<rparr>))"
    if "getOrder (d_UnrelatedOrders d1) ?p = Some r" for r
    using moves_gone [OF moves_inv [OF assms m], of ?p r] that m by (simp add: getOrder_def)
  then show ?thesis
    using m unfolding trackUnrelated_def Let_def d1_def [symmetric] by (auto split: option.split)
qed

lemma view_living:
  assumes "view ex x = view ex d" and "Map_Get (d_LivingOrders d) (o_id (d_heap d r)) = Some r"
  shows "Map_Get (d_LivingOrders x) (o_id (d_heap x r)) = Some r"
  using assms(2) arg_cong [OF assms(1), of a_living] fun_cong [OF arg_cong [OF assms(1), of a_id], of r]
  by simp

lemma moves_handleOrderDatum:
  assumes "ainv (view ex d)"
  shows "amove\<^sup>*\<^sup>* (view ex d) (view ex (handleOrderDatum data d))"
proof -
  let ?d = "trackUnrelated data d"
  have m: "amove\<^sup>*\<^sup>* (view ex d) (view ex ?d)" by (rule moves_trackUnrelated [OF assms])
  note inv = moves_inv [OF assms m]
  show ?thesis
  proof (cases "getOrder (d_LivingOrders ?d) (od_ID data)")
    case (Some r)
    let ?fi = "setOrderFillInfo r data ?d" and ?pi = "setOrderPartiallyFillInfo r data ?d"
    have r: "Map_Get (d_LivingOrders ?d) (o_id (d_heap ?d r)) = Some r"
      using living_self [OF inv] Some by (simp add: getOrder_def)
    have v: "view ex ?fi = view ex ?d" "view ex ?pi = view ex ?d" by simp_all
    have "amove\<^sup>*\<^sup>* (view ex ?d) (view ex (acceptFilled r ?fi))"
      "amove\<^sup>*\<^sup>* (view ex ?d) (view ex (acceptPartiallyFilled r ?pi))"
      using moves_finish(1) [of ex ?fi r] moves_finish(5) [of ex ?pi r] inv v
        view_living [OF v(1) r] view_living [OF v(2) r] by auto
    with m Some show ?thesis by (auto simp: handleOrderDatum_def Let_def)
  qed (use m in \<open>simp add: handleOrderDatum_def\<close>)
qed

lemma moves_HandleOrderData:
  assumes "ainv (view ex d)"
  shows "amove\<^sup>*\<^sup>* (view ex d) (view ex (HandleOrderData datas d))"
  unfolding HandleOrderData_def
  by (rule fold_inv [where P = "\<lambda>d'. amove\<^sup>*\<^sup>* (view ex d) (view ex d')"])
    (auto intro: rtranclp_trans moves_handleOrderDatum moves_inv [OF assms])

lemma view_HandlePositionData [simp]: "view ex (HandlePositionData datas d) = view ex d"
  by (simp add: HandlePositionData_def view_def Let_def split: sum.split)

lemma view_SetPosUpdatedHandler [simp]: "view ex (SetPosUpdatedHandler h d) = view ex d"
  by (simp add: SetPosUpdatedHandler_def view_def)

section \<open>Every admissible event is a run of the specification\<close>

lemma keeps_view_register: "keeps_view (register g)"
  by (cases g) (simp_all add: keeps_view_def go_simps)

lemma view_spawned [simp]: "view ex (d\<lparr>d_spawned := s\<rparr>) = view ex d"
  by (simp add: view_def)

lemma moves_runCallback:
  assumes "ainv (view ex d)"
  shows "\<exists>d'. runCallback ag now t d = Inr d' \<and> amove\<^sup>*\<^sup>* (view ex d) (view ex d')"
  using moves_runDeferredAmend [OF assms] moves_runDeferredCancel [of ex d]
  by (auto simp: runCallback_def split: prod.split OrderCallback.split)

lemma moves_event:
  fixes d :: "'d :: linordered_idom DealerImpl"
  assumes "ainv (view ex d)" and "admissible e d" and "e \<noteq> EvExport"
  shows "\<exists>d'. exec_dealer e d = Inr d' \<and> amove\<^sup>*\<^sup>* (view ex d) (view ex d')"
proof (cases e)
  case (EvNew o1)
  then have "view ex (alloc o1 d) = a_alloc (o_id o1) (o_orderType o1) OrderStatusBorn (view ex d)"
    using assms(2) by (simp add: view_def alloc_def a_alloc_def newborn_def fun_eq_iff)
  with EvNew show ?thesis by (auto intro: m_new)
next
  case (EvAmendOrder ag now r detail)
  then show ?thesis using moves_AmendOrder [OF assms(1), of ag now r detail] by auto
next
  case (EvCallback ag now i)
  then show ?thesis using moves_runCallback [of ex "d\<lparr>d_spawned := drop_at (d_spawned d) i\<rparr>"] assms(1)
    by auto
qed (use assms moves_SendOrder [OF assms(1)] moves_SendOrders [OF assms(1)] moves_CancelOrder [of ex d]
    moves_CancelOrders [OF assms(1)] moves_handleSendOrderResp [OF assms(1)]
    moves_handleSendOrdersResp [OF assms(1)] moves_handleAmendOrderResp [OF assms(1)]
    moves_handleAmendOrdersResp [OF assms(1)] moves_handleCancelOrderResp [OF assms(1)]
    moves_handleCancelOrdersResp [OF assms(1)] moves_HandleOrderData [OF assms(1)] in
    \<open>simp_all add: view_on_keeps [OF keeps_view_register]\<close>)

definition kview :: "'d market \<Rightarrow> absd" where
  "kview k = view (k_exported k) (k_dealer k)"

lemma moves_exec:
  assumes "ainv (kview k)" and "admissible e (k_dealer k)"
  shows "\<exists>k'. exec e k = Inr k' \<and> amove\<^sup>*\<^sup>* (kview k) (kview k')"
proof (cases "e = EvExport")
  case True
  let ?k = "\<lparr>k_dealer = snd (ExportDoneOrders (k_dealer k)),
     k_exported = k_exported k @ s_a (fst (ExportDoneOrders (k_dealer k)))\<rparr>"
  have "kview ?k = (kview k)\<lparr>a_exported := a_exported (kview k) @ a_done (kview k), a_done := []\<rparr>"
    using ainvD(3) [OF assms(1)] by (simp add: kview_def view_def ExportDoneOrders_def NewOrderMuArray_def)
  then have "amove\<^sup>*\<^sup>* (kview k) (kview ?k)" using m_export [of "kview k"] by auto
  with True show ?thesis by (simp add: exec_def)
next
  case False
  with moves_event [OF assms(1) [unfolded kview_def] assms(2)] obtain d'
    where "exec_dealer e (k_dealer k) = Inr d'" "amove\<^sup>*\<^sup>* (kview k) (view (k_exported k) d')"
    by (auto simp: kview_def)
  moreover have "exports e (k_dealer k) = []" using False by (cases e) auto
  ultimately show ?thesis by (simp add: exec_def kview_def)
qed

lemma dstep_moves: "ainv (kview k) \<Longrightarrow> dstep k k' \<Longrightarrow> amove\<^sup>*\<^sup>* (kview k) (kview k')"
  using moves_exec by (fastforce simp: dstep_iff)

lemma dinit_ainv: "dinit k \<Longrightarrow> ainv (kview k)"
  by (auto simp: dinit_def kview_def ainv_def order_ok_def may_list_def listed_def freshDealer_def
      NewOrdersMap_def NewOrderMuArray_def zeroOrder_def inj_on_def)

interpretation dealer: invariant_system dinit dstep "\<lambda>k. ainv (kview k)"
proof
  show "ainv (kview k)" if "dinit k" for k :: "'a market" by (rule dinit_ainv [OF that])
  show "ainv (kview k')" if "ainv (kview k)" "dstep k k'" for k k' :: "'a market"
    using spec.run_inv [OF dstep_moves [OF that] that(1)] .
qed

lemma runs_moves: "dstep\<^sup>*\<^sup>* k k' \<Longrightarrow> ainv (kview k) \<Longrightarrow> amove\<^sup>*\<^sup>* (kview k) (kview k')"
proof (induction rule: rtranclp_induct)
  case (step y z)
  then show ?case using dstep_moves [OF dealer.run_inv [OF step.hyps(1)]] by (meson rtranclp_trans)
qed simp

end
