(* ===== verification/Goroutines.thy ===== *)
theory Goroutines
  imports Prelude "HOL-Library.Multiset"
begin

text \<open>
  Goroutines that share a state and take mutexes. A program is a tree: it returns a value, makes one
  atomic access to the shared state and goes on depending on what it saw, or takes or releases a
  mutex. \<open>alone\<close> is what a program does when nothing comes in between. A pool is a shared state,
  the owners of the mutexes and the programs under way; in every step one of them makes its next
  access. The locking discipline \<open>locks\<close> reads off a program which mutexes it holds where; from it
  follow mutual exclusion and, if at most one program takes several mutexes at a time, that the
  pool is never stuck. Every pool comes to an end, since every step leaves a smaller program.
\<close>

section \<open>Programs\<close>

datatype ('s, 'l, 'v) prog =
    Return 'v
  | Act "'s \<Rightarrow> 's result" "'s \<Rightarrow> ('s, 'l, 'v) prog"
  | Lock 'l "('s, 'l, 'v) prog"
  | Unlock 'l "('s, 'l, 'v) prog"

text \<open>\<open>Act f k\<close> changes the state with \<open>f\<close> and goes on with \<open>k\<close> of the state it found.\<close>

primrec bind_p :: "('s, 'l, 'v) prog \<Rightarrow> ('v \<Rightarrow> ('s, 'l, 'w) prog) \<Rightarrow> ('s, 'l, 'w) prog" where
  "bind_p (Return v) g = g v"
| "bind_p (Act f k) g = Act f (\<lambda>s. bind_p (k s) g)"
| "bind_p (Lock l p) g = Lock l (bind_p p g)"
| "bind_p (Unlock l p) g = Unlock l (bind_p p g)"

lemma bind_p_assoc: "bind_p (bind_p p f) g = bind_p p (\<lambda>v. bind_p (f v) g)"
  by (induction p) simp_all

definition read_p :: "('s \<Rightarrow> 'v) \<Rightarrow> ('s, 'l, 'v) prog" where
  "read_p g = Act Inr (\<lambda>s. Return (g s))"

definition upd_p :: "('s \<Rightarrow> 's) \<Rightarrow> ('s, 'l, unit) prog" where
  "upd_p f = Act (\<lambda>s. Inr (f s)) (\<lambda>_. Return ())"

definition try_p :: "('s \<Rightarrow> 's result) \<Rightarrow> ('s, 'l, unit) prog" where
  "try_p f = Act f (\<lambda>_. Return ())"

definition eval_p :: "('s \<Rightarrow> 'v result) \<Rightarrow> ('s, 'l, 'v) prog" where
  "eval_p g = Act (\<lambda>s. bind_r (g s) (\<lambda>_. Inr s)) (\<lambda>s. Return (case g s of Inr v \<Rightarrow> v | Inl _ \<Rightarrow> undefined))"

definition crash_p :: "go_panic \<Rightarrow> ('s, 'l, 'v) prog" where
  "crash_p e = Act (\<lambda>_. Inl e) (\<lambda>_. Return undefined)"

definition then_p :: "('s, 'l, unit) prog \<Rightarrow> ('s, 'l, 'v) prog \<Rightarrow> ('s, 'l, 'v) prog" where
  "then_p p q = bind_p p (\<lambda>_. q)"

text \<open>A list of state changes, each atomic, and a loop.\<close>

primrec acts :: "('s \<Rightarrow> 's) list \<Rightarrow> ('s, 'l, unit) prog" where
  "acts [] = Return ()"
| "acts (f # fs) = then_p (upd_p f) (acts fs)"

primrec for_p :: "('a \<Rightarrow> ('s, 'l, unit) prog) \<Rightarrow> 'a list \<Rightarrow> ('s, 'l, unit) prog" where
  "for_p body [] = Return ()"
| "for_p body (x # xs) = then_p (body x) (for_p body xs)"

primrec lock_all :: "'l list \<Rightarrow> ('s, 'l, unit) prog" where
  "lock_all [] = Return ()"
| "lock_all (l # ls) = Lock l (lock_all ls)"

primrec unlock_all :: "'l list \<Rightarrow> ('s, 'l, unit) prog" where
  "unlock_all [] = Return ()"
| "unlock_all (l # ls) = Unlock l (unlock_all ls)"

section \<open>A program on its own\<close>

primrec alone :: "('s, 'l, 'v) prog \<Rightarrow> 's \<Rightarrow> ('v \<times> 's) result" where
  "alone (Return v) s = Inr (v, s)"
| "alone (Act f k) s = bind_r (f s) (alone (k s))"
| "alone (Lock l p) s = alone p s"
| "alone (Unlock l p) s = alone p s"

lemma bind_r_assoc: "bind_r (bind_r m f) g = bind_r m (\<lambda>x. bind_r (f x) g)"
  by (cases m) simp_all

lemma alone_bind [simp]: "alone (bind_p p g) s = bind_r (alone p s) (\<lambda>(v, s'). alone (g v) s')"
  by (induction p arbitrary: s) (auto simp: bind_r_def split: sum.splits)

lemma alone_simps [simp]:
  "alone (read_p g) s = Inr (g s, s)" "alone (upd_p f) s = Inr ((), f s)"
  "alone (try_p t) s = bind_r (t s) (\<lambda>s'. Inr ((), s'))" "alone (crash_p e) s = Inl e"
  "alone (eval_p h) s = bind_r (h s) (\<lambda>v. Inr (v, s))"
  by (simp_all add: read_p_def upd_p_def try_p_def crash_p_def eval_p_def bind_r_def split: sum.split)

lemma alone_then [simp]: "alone (then_p p q) s = bind_r (alone p s) (\<lambda>(_, s'). alone q s')"
  by (simp add: then_p_def)

lemma alone_acts [simp]: "alone (acts fs) s = Inr ((), fold (\<lambda>f. f) fs s)"
  by (induction fs arbitrary: s) simp_all

lemma alone_lock_all [simp]:
  "alone (lock_all ls) s = Inr ((), s)" "alone (unlock_all ls) s = Inr ((), s)"
  by (induction ls) simp_all

text \<open>A loop whose body is the function \<open>f\<close> when alone is the fold of \<open>f\<close>.\<close>

lemma alone_for:
  "(\<And>x s. alone (body x) s = Inr ((), f x s)) \<Longrightarrow> alone (for_p body xs) s = Inr ((), fold f xs s)"
  by (induction xs arbitrary: s) simp_all

lemma alone_forM:
  "(\<And>x s. alone (body x) s = bind_r (f x s) (\<lambda>s'. Inr ((), s'))) \<Longrightarrow>
     alone (for_p body xs) s = bind_r (foldM f xs s) (\<lambda>s'. Inr ((), s'))"
  by (induction xs arbitrary: s) (auto simp: bind_r_def split: sum.splits)

section \<open>Which mutexes a program holds\<close>

text \<open>
  \<open>locks m p H Q\<close>: started with the mutexes \<open>H\<close>, the program never takes one it holds, releases
  only what it holds, takes a further one while it holds some only if \<open>m\<close>, and returns with a value
  and mutexes that satisfy \<open>Q\<close>.
\<close>

primrec locks :: "bool \<Rightarrow> ('s, 'l, 'v) prog \<Rightarrow> 'l set \<Rightarrow> ('v \<Rightarrow> 'l set \<Rightarrow> bool) \<Rightarrow> bool" where
  "locks m (Return v) H Q = Q v H"
| "locks m (Act f k) H Q = (\<forall>s. locks m (k s) H Q)"
| "locks m (Lock l p) H Q = (l \<notin> H \<and> (m \<or> H = {}) \<and> locks m p (insert l H) Q)"
| "locks m (Unlock l p) H Q = (l \<in> H \<and> locks m p (H - {l}) Q)"

lemma locks_bind [simp]: "locks m (bind_p p g) H Q = locks m p H (\<lambda>v H'. locks m (g v) H' Q)"
  by (induction p arbitrary: H) simp_all

lemma locks_mono:
  "locks m p H Q \<Longrightarrow> (m \<Longrightarrow> m') \<Longrightarrow> (\<And>v H'. Q v H' \<Longrightarrow> Q' v H') \<Longrightarrow> locks m' p H Q'"
  by (induction p arbitrary: H) auto

lemma locks_read [simp]: "locks m (read_p g) H Q = (\<forall>s. Q (g s) H)"
  by (simp add: read_p_def)

lemma locks_eval [simp]: "locks m (eval_p g) H Q = (\<forall>s. Q (case g s of Inr v \<Rightarrow> v | Inl _ \<Rightarrow> undefined) H)"
  by (simp add: eval_p_def)

lemma locks_then [simp]: "locks m (then_p p q) H Q = locks m p H (\<lambda>_ H'. locks m q H' Q)"
  by (simp add: then_p_def)

lemma locks_crash [simp]: "locks m (crash_p e) H Q = Q undefined H"
  by (simp add: crash_p_def)

lemma locks_upd [simp]: "locks m (upd_p f) H Q = Q () H" "locks m (try_p t) H Q = Q () H"
  by (simp_all add: upd_p_def try_p_def)

lemma locks_acts [simp]: "locks m (acts fs) H Q = Q () H"
  by (induction fs) simp_all

text \<open>A loop whose body gives back the mutexes it takes.\<close>

lemma locks_for:
  assumes "\<And>x. x \<in> set xs \<Longrightarrow> locks m (body x) H (\<lambda>_ H'. H' = H)" and "Q () H"
  shows "locks m (for_p body xs) H Q"
  using assms
proof (induction xs)
  case (Cons x xs)
  then have "locks m (for_p body xs) H Q" by simp
  with Cons.prems(1) [of x] show ?case by (auto intro: locks_mono)
qed simp

lemma locks_lock_all:
  "distinct ls \<Longrightarrow> set ls \<inter> H = {} \<Longrightarrow> locks True (lock_all ls) H Q = Q () (set ls \<union> H)"
  by (induction ls arbitrary: H) (auto simp: insert_commute)

lemma locks_unlock_all:
  "distinct ls \<Longrightarrow> set ls \<subseteq> H \<Longrightarrow> locks m (unlock_all ls) H Q = Q () (H - set ls)"
proof (induction ls arbitrary: H)
  case (Cons l ls)
  then have "set ls \<subseteq> H - {l}" by auto
  moreover have "H - {l} - set ls = H - set (l # ls)" by auto
  ultimately show ?case using Cons.IH [of "H - {l}"] Cons.prems by simp
qed simp

section \<open>Pools\<close>

text \<open>
  A goroutine is named by its position in \<open>p_threads\<close>. \<open>tstep i\<close> is the next access of goroutine \<open>i\<close>:
  \<open>None\<close> if it has returned or waits for a mutex, a panic if the access panics. Releasing a mutex
  that is not held ends a Go program.
\<close>

record ('s, 'l) pool =
  p_state :: 's
  p_owner :: "'l \<Rightarrow> nat option"
  p_threads :: "('s, 'l, unit) prog list"

definition tstep :: "nat \<Rightarrow> ('s, 'l) pool \<Rightarrow> ('s, 'l) pool result option" where
  "tstep i P =
     (if i < length (p_threads P) then
        (case p_threads P ! i of
           Return _ \<Rightarrow> None
         | Act f k \<Rightarrow> Some (bind_r (f (p_state P)) (\<lambda>s.
             Inr (P\<lparr>p_state := s, p_threads := (p_threads P)[i := k (p_state P)]\<rparr>)))
         | Lock l p \<Rightarrow>
             (if p_owner P l = None
              then Some (Inr (P\<lparr>p_owner := (p_owner P)(l \<mapsto> i), p_threads := (p_threads P)[i := p]\<rparr>))
              else None)
         | Unlock l p \<Rightarrow>
             Some (if p_owner P l = None then Inl (PanicMsg ''sync: unlock of unlocked mutex'')
                   else Inr (P\<lparr>p_owner := (p_owner P)(l := None), p_threads := (p_threads P)[i := p]\<rparr>)))
      else None)"

definition pstep :: "('s, 'l) pool \<Rightarrow> ('s, 'l) pool \<Rightarrow> bool" where
  "pstep P P' \<longleftrightarrow> (\<exists>i. tstep i P = Some (Inr P'))"

definition returned :: "('s, 'l, 'v) prog \<Rightarrow> bool" where
  "returned p \<longleftrightarrow> (case p of Return _ \<Rightarrow> True | _ \<Rightarrow> False)"

definition all_returned :: "('s, 'l) pool \<Rightarrow> bool" where
  "all_returned P \<longleftrightarrow> list_all returned (p_threads P)"

text \<open>Running the goroutines in the order of a schedule; a goroutine that cannot run is passed over.\<close>

fun run_schedule :: "nat list \<Rightarrow> ('s, 'l) pool \<Rightarrow> ('s, 'l) pool result" where
  "run_schedule [] P = Inr P"
| "run_schedule (i # is) P =
     (case tstep i P of None \<Rightarrow> run_schedule is P | Some m \<Rightarrow> bind_r m (run_schedule is))"

lemma run_schedule_psteps: "run_schedule is P = Inr P' \<Longrightarrow> pstep\<^sup>*\<^sup>* P P'"
proof (induction "is" arbitrary: P)
  case (Cons i "is")
  show ?case
  proof (cases "tstep i P")
    case None
    with Cons show ?thesis by simp
  next
    case (Some m)
    with Cons.prems obtain P1 where "m = Inr P1" "run_schedule is P1 = Inr P'"
      by (auto simp: bind_r_eq_Inr)
    with Some Cons.IH show ?thesis
      by (auto simp: pstep_def intro: converse_rtranclp_into_rtranclp)
  qed
qed simp

subsection \<open>Every pool comes to an end\<close>

inductive_set sub_prog :: "(('s, 'l, 'v) prog \<times> ('s, 'l, 'v) prog) set" where
  "(k s, Act f k) \<in> sub_prog"
| "(p, Lock l p) \<in> sub_prog"
| "(p, Unlock l p) \<in> sub_prog"

inductive_cases sub_progE: "(q, Return v) \<in> sub_prog" "(q, Act f k) \<in> sub_prog"
  "(q, Lock l p) \<in> sub_prog" "(q, Unlock l p) \<in> sub_prog"

lemma wf_sub_prog: "wf sub_prog"
proof (rule wfUNIVI)
  fix P :: "('s, 'l, 'v) prog \<Rightarrow> bool" and p
  assume "\<forall>x. (\<forall>y. (y, x) \<in> sub_prog \<longrightarrow> P y) \<longrightarrow> P x"
  then show "P p" by (induction p) (blast elim: sub_progE)+
qed

lemma tstep_sub_prog:
  "tstep i P = Some (Inr P') \<Longrightarrow>
     \<exists>p. i < length (p_threads P) \<and> p_threads P' = (p_threads P)[i := p] \<and> (p, p_threads P ! i) \<in> sub_prog"
  by (auto simp: tstep_def bind_r_eq_Inr intro: sub_prog.intros split: if_splits prog.splits)

lemma mset_update_mult:
  assumes "i < length xs" and "(y, xs ! i) \<in> R"
  shows "(mset (xs[i := y]), mset xs) \<in> mult1 R"
proof -
  have "mset xs = add_mset (xs ! i) (mset xs - {#xs ! i#})" using assms(1) by simp
  moreover have "mset (xs[i := y]) = (mset xs - {#xs ! i#}) + {#y#}" using assms(1) by (simp add: mset_update)
  ultimately show ?thesis using assms(2) unfolding mult1_def by fastforce
qed

lemma wf_pstep: "wf {(P', P). pstep P P'}"
proof (rule wf_subset)
  show "wf (inv_image (mult1 sub_prog) (\<lambda>P. mset (p_threads P)))"
    by (intro wf_inv_image wf_mult1 wf_sub_prog)
  show "{(P', P). pstep P P'} \<subseteq> inv_image (mult1 sub_prog) (\<lambda>P. mset (p_threads P))"
    by (auto simp: pstep_def dest!: tstep_sub_prog intro: mset_update_mult)
qed

section \<open>The discipline in a pool\<close>

definition held :: "('s, 'l) pool \<Rightarrow> nat \<Rightarrow> 'l set" where
  "held P i = {l. p_owner P l = Some i}"

definition nothing_held :: "unit \<Rightarrow> 'l set \<Rightarrow> bool" where
  "nothing_held v H \<longleftrightarrow> H = {}"

text \<open>Every goroutine keeps the discipline with the mutexes it owns; those in \<open>M\<close> may take several.\<close>

definition disciplined :: "(nat \<Rightarrow> bool) \<Rightarrow> ('s, 'l) pool \<Rightarrow> bool" where
  "disciplined M P \<longleftrightarrow>
     (\<forall>i < length (p_threads P). locks (M i) (p_threads P ! i) (held P i) nothing_held) \<and>
     (\<forall>l i. p_owner P l = Some i \<longrightarrow> i < length (p_threads P))"

lemma disciplinedD:
  assumes "disciplined M P"
  shows "i < length (p_threads P) \<Longrightarrow> locks (M i) (p_threads P ! i) (held P i) nothing_held"
    and "p_owner P l = Some i \<Longrightarrow> i < length (p_threads P)"
  using assms by (auto simp: disciplined_def)

lemma held_simps [simp]:
  "held (P\<lparr>p_state := s\<rparr>) = held P" "held (P\<lparr>p_threads := ts\<rparr>) = held P"
  by (simp_all add: held_def fun_eq_iff)

lemma held_lock:
  "p_owner P l = None \<Longrightarrow>
     held (P\<lparr>p_owner := (p_owner P)(l \<mapsto> i)\<rparr>) k = (if k = i then insert l (held P i) else held P k)"
  by (auto simp: held_def)

lemma held_unlock:
  "l \<in> held P i \<Longrightarrow>
     held (P\<lparr>p_owner := (p_owner P)(l := None)\<rparr>) k = (if k = i then held P i - {l} else held P k)"
  by (auto simp: held_def)

lemma locks_update:
  assumes "disciplined M P" and "\<And>k. k \<noteq> i \<Longrightarrow> held P' k = held P k"
    and "p_threads P' = (p_threads P)[i := p]" and "locks (M i) p (held P' i) nothing_held"
    and "\<And>l k. p_owner P' l = Some k \<Longrightarrow> k < length (p_threads P)"
  shows "disciplined M P'"
proof -
  have "locks (M k) (p_threads P' ! k) (held P' k) nothing_held" if "k < length (p_threads P)" for k
    using that assms(2-4) disciplinedD(1) [OF assms(1) that] by (cases "k = i") auto
  with assms(3,5) show ?thesis by (auto simp: disciplined_def)
qed

lemma tstep_disciplined:
  assumes "disciplined M P" and "tstep i P = Some (Inr P')"
  shows "disciplined M P'"
proof -
  have i: "i < length (p_threads P)" using assms(2) by (auto simp: tstep_def split: if_splits)
  note lk = disciplinedD(1) [OF assms(1) i] and own = disciplinedD(2) [OF assms(1)]
  show ?thesis
  proof (cases "p_threads P ! i")
    case (Return v)
    with assms(2) i show ?thesis by (simp add: tstep_def)
  next
    case (Act f k)
    with assms(2) i obtain s where
      P': "P' = P\<lparr>p_state := s, p_threads := (p_threads P)[i := k (p_state P)]\<rparr>"
      by (auto simp: tstep_def bind_r_eq_Inr)
    show ?thesis
      by (rule locks_update [OF assms(1), where i = i and p = "k (p_state P)"])
        (use lk own Act in \<open>auto simp: P' held_def\<close>)
  next
    case (Lock l p)
    with assms(2) i have l: "p_owner P l = None" and
      P': "P' = P\<lparr>p_owner := (p_owner P)(l \<mapsto> i), p_threads := (p_threads P)[i := p]\<rparr>"
      by (auto simp: tstep_def split: if_splits)
    show ?thesis
      by (rule locks_update [OF assms(1), where i = i and p = p])
        (use lk own i Lock held_lock [OF l] in \<open>auto simp: P' split: if_splits\<close>)
  next
    case (Unlock l p)
    with lk have l: "l \<in> held P i" by simp
    with assms(2) i Unlock have
      P': "P' = P\<lparr>p_owner := (p_owner P)(l := None), p_threads := (p_threads P)[i := p]\<rparr>"
      by (auto simp: tstep_def held_def split: if_splits)
    show ?thesis
      by (rule locks_update [OF assms(1), where i = i and p = p])
        (use lk own Unlock held_unlock [OF l] in \<open>auto simp: P' split: if_splits\<close>)
  qed
qed

text \<open>A goroutine that is neither done nor waiting for a mutex can run.\<close>

lemma tstep_None_iff:
  "i < length (p_threads P) \<Longrightarrow>
     tstep i P = None \<longleftrightarrow> returned (p_threads P ! i) \<or>
       (\<exists>l p k. p_threads P ! i = Lock l p \<and> p_owner P l = Some k)"
  by (auto simp: tstep_def returned_def split: prog.splits)

text \<open>A goroutine that takes one mutex at a time never waits while it holds one.\<close>

lemma single_holder_runs:
  assumes "disciplined M P" and "p_owner P l = Some i" and "\<not> M i"
  shows "tstep i P \<noteq> None"
proof -
  have i: "i < length (p_threads P)" using assms(1,2) by (rule disciplinedD(2))
  have "held P i \<noteq> {}" using assms(2) by (auto simp: held_def)
  with disciplinedD(1) [OF assms(1) i] assms(3) show ?thesis
    unfolding tstep_None_iff [OF i]
    by (cases "p_threads P ! i") (auto simp: returned_def nothing_held_def)
qed

lemma holder_not_returned:
  assumes "disciplined M P" and "p_owner P l = Some i"
  shows "i < length (p_threads P) \<and> \<not> returned (p_threads P ! i)"
proof
  show i: "i < length (p_threads P)" using assms by (rule disciplinedD(2))
  show "\<not> returned (p_threads P ! i)"
    using assms(2) disciplinedD(1) [OF assms(1) i]
    by (cases "p_threads P ! i") (auto simp: returned_def nothing_held_def held_def)
qed

text \<open>At most one goroutine that may take several mutexes is under way.\<close>

definition one_multi :: "(nat \<Rightarrow> bool) \<Rightarrow> ('s, 'l) pool \<Rightarrow> bool" where
  "one_multi M P \<longleftrightarrow>
     (\<forall>i < length (p_threads P). \<forall>k < length (p_threads P).
        M i \<and> M k \<and> \<not> returned (p_threads P ! i) \<and> \<not> returned (p_threads P ! k) \<longrightarrow> i = k)"

lemma disciplined_progress:
  assumes "disciplined M P" and "one_multi M P" and "\<not> all_returned P"
  shows "\<exists>i. tstep i P \<noteq> None"
proof -
  obtain i where i: "i < length (p_threads P)" "\<not> returned (p_threads P ! i)"
    using assms(3) by (auto simp: all_returned_def list_all_length)
  have holder: "\<exists>i. tstep i P \<noteq> None" if k: "p_owner P l = Some k" for l k
  proof (cases "M k")
    case False
    with k assms(1) show ?thesis by (blast dest: single_holder_runs)
  next
    case True
    note nr = holder_not_returned [OF assms(1) k]
    have "\<not> M k'" if "p_threads P ! k = Lock m p" "p_owner P m = Some k'" for m p k'
    proof -
      have "k' \<noteq> k" using that disciplinedD(1) [OF assms(1), of k] nr by (auto simp: held_def)
      with True nr holder_not_returned [OF assms(1) that(2)] assms(2) show ?thesis
        by (auto simp: one_multi_def)
    qed
    then show ?thesis
      using nr tstep_None_iff [of k P] single_holder_runs [OF assms(1)] by blast
  qed
  then show ?thesis using tstep_None_iff [OF i(1)] i(2) by blast
qed

lemma disciplined_no_bad_unlock:
  assumes "disciplined M P" and "i < length (p_threads P)" and "p_threads P ! i = Unlock l p"
  shows "p_owner P l = Some i"
  using disciplinedD(1) [OF assms(1,2)] assms(3) by (simp add: held_def)

section \<open>One goroutine runs to its end\<close>

lemma solo_run:
  assumes "i < length (p_threads P)" and "p_threads P ! i = p"
    and "alone p (p_state P) = Inr (v, s')" and "locks True p (held P i) nothing_held"
    and "\<And>l k. p_owner P l = Some k \<Longrightarrow> k = i"
  shows "pstep\<^sup>*\<^sup>* P (P\<lparr>p_state := s', p_owner := (\<lambda>_. None), p_threads := (p_threads P)[i := Return ()]\<rparr>)"
  using assms
proof (induction p arbitrary: P)
  case (Return u)
  then have "p_owner P l = None" for l by (cases "p_owner P l") (auto simp: held_def nothing_held_def)
  then have "p_owner P = (\<lambda>_. None)" by (simp add: fun_eq_iff)
  with Return have "P\<lparr>p_state := s', p_owner := (\<lambda>_. None), p_threads := (p_threads P)[i := Return ()]\<rparr> = P"
    by (cases P) (auto simp: list_update_same_conv)
  then show ?case by simp
next
  case (Act f k)
  then obtain s1 where f: "f (p_state P) = Inr s1" "alone (k (p_state P)) s1 = Inr (v, s')"
    by (auto simp: bind_r_eq_Inr)
  let ?P = "P\<lparr>p_state := s1, p_threads := (p_threads P)[i := k (p_state P)]\<rparr>"
  have "pstep P ?P" using Act.prems(1,2) f by (auto simp: pstep_def tstep_def intro!: exI [of _ i])
  moreover have "pstep\<^sup>*\<^sup>* ?P (?P\<lparr>p_state := s', p_owner := (\<lambda>_. None), p_threads := (p_threads ?P)[i := Return ()]\<rparr>)"
    by (rule Act.IH) (use Act.prems f in \<open>auto simp: held_def\<close>)
  ultimately have "pstep\<^sup>*\<^sup>* P (?P\<lparr>p_state := s', p_owner := (\<lambda>_. None), p_threads := (p_threads ?P)[i := Return ()]\<rparr>)"
    by (rule converse_rtranclp_into_rtranclp)
  then show ?case by simp
next
  case (Lock l p)
  then have l: "p_owner P l = None" by (cases "p_owner P l") (auto simp: held_def)
  let ?P = "P\<lparr>p_owner := (p_owner P)(l \<mapsto> i), p_threads := (p_threads P)[i := p]\<rparr>"
  have "pstep P ?P" using Lock.prems(1,2) l by (auto simp: pstep_def tstep_def intro!: exI [of _ i])
  moreover have "pstep\<^sup>*\<^sup>* ?P (?P\<lparr>p_state := s', p_owner := (\<lambda>_. None), p_threads := (p_threads ?P)[i := Return ()]\<rparr>)"
  proof (rule Lock.IH)
    show "k = i" if "p_owner ?P m = Some k" for m k
      using that Lock.prems(5) [of m k] by (cases "m = l") simp_all
  qed (use Lock.prems(1-4) held_lock [OF l, of i i] in simp_all)
  ultimately have "pstep\<^sup>*\<^sup>* P (?P\<lparr>p_state := s', p_owner := (\<lambda>_. None), p_threads := (p_threads ?P)[i := Return ()]\<rparr>)"
    by (rule converse_rtranclp_into_rtranclp)
  then show ?case by simp
next
  case (Unlock l p)
  then have l: "l \<in> held P i" by simp
  let ?P = "P\<lparr>p_owner := (p_owner P)(l := None), p_threads := (p_threads P)[i := p]\<rparr>"
  have "pstep P ?P" using Unlock.prems(1,2) l by (auto simp: pstep_def tstep_def held_def intro!: exI [of _ i])
  moreover have "pstep\<^sup>*\<^sup>* ?P (?P\<lparr>p_state := s', p_owner := (\<lambda>_. None), p_threads := (p_threads ?P)[i := Return ()]\<rparr>)"
  proof (rule Unlock.IH)
    show "k = i" if "p_owner ?P m = Some k" for m k
      using that Unlock.prems(5) [of m k] by (cases "m = l") simp_all
  qed (use Unlock.prems(1-4) held_unlock [OF l, of i] in simp_all)
  ultimately have "pstep\<^sup>*\<^sup>* P (?P\<lparr>p_state := s', p_owner := (\<lambda>_. None), p_threads := (p_threads ?P)[i := Return ()]\<rparr>)"
    by (rule converse_rtranclp_into_rtranclp)
  then show ?case by simp
qed

section \<open>Calls that start goroutines\<close>

text \<open>
  A system is a pool with the call each goroutine was started for. \<open>prog_of\<close> is the program of a call.
  Whether a call may start can depend on the state. A call of the set \<open>batch\<close> (those that take several mutexes) starts only when no other one is under way.
\<close>

inductive sys_step ::
  "('e \<Rightarrow> ('s, 'l, unit) prog) \<Rightarrow> ('e \<Rightarrow> 's \<Rightarrow> bool) \<Rightarrow> ('e \<Rightarrow> bool) \<Rightarrow>
     ('s, 'l) pool \<times> 'e list \<Rightarrow> ('s, 'l) pool \<times> 'e list \<Rightarrow> bool"
  for prog_of and ok and batch where
  sys_go: "ok e (p_state P) \<Longrightarrow>
     (\<And>i. batch e \<Longrightarrow> i < length cs \<Longrightarrow> batch (cs ! i) \<Longrightarrow> returned (p_threads P ! i)) \<Longrightarrow>
     sys_step prog_of ok batch (P, cs) (P\<lparr>p_threads := p_threads P @ [prog_of e]\<rparr>, cs @ [e])"
| sys_run: "pstep P P' \<Longrightarrow> sys_step prog_of ok batch (P, cs) (P', cs)"

definition sys_init :: "('s, 'l) pool \<times> 'e list \<Rightarrow> bool" where
  "sys_init X \<longleftrightarrow> (\<exists>s. X = (\<lparr>p_state = s, p_owner = (\<lambda>_. None), p_threads = []\<rparr>, []))"

definition sys_inv :: "('e \<Rightarrow> bool) \<Rightarrow> ('s, 'l) pool \<times> 'e list \<Rightarrow> bool" where
  "sys_inv batch X \<longleftrightarrow> (case X of (P, cs) \<Rightarrow>
     length (p_threads P) = length cs \<and> disciplined (\<lambda>i. batch (cs ! i)) P \<and> one_multi (\<lambda>i. batch (cs ! i)) P)"

text \<open>What the programs of the calls promise, and what follows for every system of them.\<close>

locale locking_calls =
  fixes prog_of :: "'e \<Rightarrow> ('s, 'l, unit) prog" and ok :: "'e \<Rightarrow> 's \<Rightarrow> bool" and batch :: "'e \<Rightarrow> bool"
  assumes call_locks: "ok e s \<Longrightarrow> locks (batch e) (prog_of e) {} nothing_held"
begin

lemma run_one_multi:
  assumes "one_multi M P" and "pstep P P'"
  shows "one_multi M P'"
proof -
  obtain i p where "i < length (p_threads P)" and ts: "p_threads P' = (p_threads P)[i := p]"
    and sub: "(p, p_threads P ! i) \<in> sub_prog"
    using assms(2) by (auto simp: pstep_def dest!: tstep_sub_prog)
  have "\<not> returned (p_threads P ! i)"
    using sub by (cases "p_threads P ! i") (auto simp: returned_def elim: sub_progE)
  then have "\<not> returned (p_threads P ! k)" if "\<not> returned (p_threads P' ! k)" "k < length (p_threads P)" for k
    using that ts by (cases "k = i") auto
  with assms(1) ts show ?thesis by (auto simp: one_multi_def)
qed

lemma go_inv:
  assumes "sys_inv batch (P, cs)" and "ok e (p_state P)"
    and "\<And>i. batch e \<Longrightarrow> i < length cs \<Longrightarrow> batch (cs ! i) \<Longrightarrow> returned (p_threads P ! i)"
  shows "sys_inv batch (P\<lparr>p_threads := p_threads P @ [prog_of e]\<rparr>, cs @ [e])"
proof -
  let ?P = "P\<lparr>p_threads := p_threads P @ [prog_of e]\<rparr>" and ?M = "\<lambda>i. batch ((cs @ [e]) ! i)"
  have len: "length (p_threads P) = length cs" and dis: "disciplined (\<lambda>i. batch (cs ! i)) P"
    and one: "one_multi (\<lambda>i. batch (cs ! i)) P"
    using assms(1) by (auto simp: sys_inv_def)
  have "held P (length cs) = {}" using disciplinedD(2) [OF dis] len by (fastforce simp: held_def)
  with call_locks [OF assms(2)] disciplinedD [OF dis] len
  have "disciplined ?M ?P" by (fastforce simp: disciplined_def nth_append less_Suc_eq)
  moreover have "one_multi ?M ?P"
    using one assms(3) len by (fastforce simp: one_multi_def nth_append less_Suc_eq)
  ultimately show ?thesis using len by (simp add: sys_inv_def)
qed

lemma step_inv:
  assumes "sys_step prog_of ok batch X Y" and "sys_inv batch X"
  shows "sys_inv batch Y"
  using assms
proof cases
  case (sys_go e cs P)
  then show ?thesis using go_inv assms(2) by simp
next
  case (sys_run P P' cs)
  then have "disciplined (\<lambda>i. batch (cs ! i)) P'" "length (p_threads P') = length (p_threads P)"
    using assms(2) by (auto simp: sys_inv_def pstep_def dest: tstep_disciplined tstep_sub_prog)
  with sys_run assms(2) run_one_multi show ?thesis by (auto simp: sys_inv_def)
qed

lemma reachable_inv: "reach sys_init (sys_step prog_of ok batch) X \<Longrightarrow> sys_inv batch X"
proof (induction rule: reach.induct)
  case (reach_init X)
  then show ?case by (auto simp: sys_init_def sys_inv_def disciplined_def one_multi_def)
qed (blast intro: step_inv)

lemma never_stuck:
  "reach sys_init (sys_step prog_of ok batch) (P, cs) \<Longrightarrow> all_returned P \<or> (\<exists>i. tstep i P \<noteq> None)"
  using reachable_inv [of "(P, cs)"] by (auto simp: sys_inv_def dest: disciplined_progress)

text \<open>With no further calls, the goroutines come to an end: all return, or one panics.\<close>

lemma all_return:
  assumes "reach sys_init (sys_step prog_of ok batch) (P, cs)"
  shows "\<exists>P'. pstep\<^sup>*\<^sup>* P P' \<and> (all_returned P' \<or> (\<exists>i e. tstep i P' = Some (Inl e)))"
  using assms
proof (induction P rule: wf_induct_rule [OF wf_pstep])
  case (1 P)
  show ?case
  proof (cases "\<exists>P'. pstep P P'")
    case True
    then obtain P1 where P1: "pstep P P1" ..
    have "reach sys_init (sys_step prog_of ok batch) (P1, cs)"
      using 1(2) sys_run [OF P1] by (rule reach_step)
    with 1(1) P1 show ?thesis by (blast intro: converse_rtranclp_into_rtranclp)
  next
    case False
    then have "all_returned P \<or> (\<exists>i e. tstep i P = Some (Inl e))"
      using never_stuck [OF 1(2)] by (metis option.exhaust pstep_def sum.exhaust)
    then show ?thesis by blast
  qed
qed

end

end
