(* ===== verification/Dealer_Threads.thy ===== *)
theory Dealer_Threads
  imports Dealer_Events Goroutines
begin

text \<open>
  The operations of the dealer at the level of their locks. Every access to an order, to a map, to the
  list of finished orders and to the flag runs under a lock of its own and is one atomic step; between
  two of them other goroutines run, unless the operation lock \<open>muOpe\<close> of the order keeps them out
  (\<open>WithOpLock\<close>, \<open>WithOpeLocks\<close> of \<open>order.go\<close>). As in the code, the handlers look an order up before
  they take its lock. The theorem at the end: an operation that is not interrupted does what its
  atomic definition in \<open>Dealer\<close> says.
\<close>

type_synonym ('d, 'v) dprog = "('d DealerImpl, oref, 'v) prog"

section \<open>Locks\<close>

definition WithOpLock :: "oref \<Rightarrow> ('d, 'v) dprog \<Rightarrow> ('d, 'v) dprog" where
  "WithOpLock r f = Lock r (bind_p f (\<lambda>v. Unlock r (Return v)))"

text \<open>\<open>ks\<close> is the order in which \<open>Unique\<close> visits its map, and so the order in which the locks are taken.\<close>

definition WithOpeLocks :: "string list \<Rightarrow> oref list \<Rightarrow> ('d, 'v) dprog \<Rightarrow> ('d, 'v) dprog" where
  "WithOpeLocks ks orders f =
     bind_p (read_p (\<lambda>d. Unique ks (d_heap d) orders)) (\<lambda>rs.
       then_p (lock_all rs) (bind_p f (\<lambda>v. then_p (unlock_all rs) (Return v))))"

section \<open>Accept, reject, abandon\<close>

definition setSent_t :: "oref \<Rightarrow> ('d, unit) dprog" where
  "setSent_t r = bind_p (read_p (\<lambda>d. getLastOperatedTimestamp (ord d r))) (\<lambda>t.
     upd_p (on r (setSentTimestamp t)))"

definition setOrderFillInfo_t :: "oref \<Rightarrow> 'd OrderData \<Rightarrow> ('d, unit) dprog" where
  "setOrderFillInfo_t r data =
     then_p (acts [on r (setFilledAt (od_ArrivedAt data)), on r (setAvgPrice (od_AvgExecPrice data)),
                   on r (setExecQty (od_CumExecQty data)), on r (setFee (od_CumFee data))])
       (bind_p (read_p (\<lambda>d. GetOrderType (ord d r))) (\<lambda>t.
          if t = OrderTypeMarket
          then then_p (setSent_t r) (upd_p (on r (setConfirmTimestamps (od_ArrivedAt data) (od_ConfirmedAt data))))
          else Return ()))"

definition setOrderPartiallyFillInfo_t :: "oref \<Rightarrow> 'd OrderData \<Rightarrow> ('d, unit) dprog" where
  "setOrderPartiallyFillInfo_t r data =
     acts [on r (setFilledAt (od_ArrivedAt data)), on r (setAvgPrice (od_AvgExecPrice data)),
           on r (setExecQty (od_CumExecQty data)), on r (setFee (od_CumFee data))]"

definition acceptFilled_t :: "oref \<Rightarrow> ('d, unit) dprog" where
  "acceptFilled_t r =
     acts [on r (setStatus OrderStatusDone), on r (setOrderDoneReason OrderDoneReasonFilled),
           Living_Delete r, done_Append r, execFillCallbacks r]"

definition acceptPartiallyFilled_t :: "oref \<Rightarrow> ('d, unit) dprog" where
  "acceptPartiallyFilled_t r =
     bind_p (read_p (\<lambda>d. GetOrderType (ord d r))) (\<lambda>t.
       if t = OrderTypeLimitIOC
       then acts [on r (setStatus OrderStatusDone),
                  on r (setOrderDoneReason OrderDoneReasonPartiallyFilledAndCanceled),
                  Living_Delete r, done_Append r, execPartiallyFillCallbacks r]
       else Return ())"

definition acceptAmend_t ::
  "oref \<Rightarrow> 'd AmendDetail option \<Rightarrow> time option \<Rightarrow> time option \<Rightarrow> ('d, unit) dprog" where
  "acceptAmend_t r detail arrivedAt confirmedAt =
     then_p (acts [on r (setStatus OrderStatusPending), on r (setAmendingDetail None)])
       (then_p (try_p (\<lambda>d. bind_r (amend detail (ord d r)) (\<lambda>o1. Inr (on r (\<lambda>_. o1) d))))
         (then_p (setSent_t r)
           (acts [on r (setConfirmTimestamps arrivedAt confirmedAt), execAmendCallbacks r])))"

definition acceptCreate_t :: "oref \<Rightarrow> string \<Rightarrow> time option \<Rightarrow> time option \<Rightarrow> ('d, unit) dprog" where
  "acceptCreate_t r publicID arrivedAt confirmedAt =
     then_p (upd_p (on r (setStatus OrderStatusPending)))
       (then_p (if publicID \<noteq> [] then upd_p (on r (setPublicID publicID)) else Return ())
         (then_p (setSent_t r)
           (acts [on r (setConfirmTimestamps arrivedAt confirmedAt), execCreateCallbacks r])))"

definition acceptCancel_t :: "oref \<Rightarrow> ('d, unit) dprog" where
  "acceptCancel_t r =
     acts [on r (setStatus OrderStatusDone), on r (setOrderDoneReason OrderDoneReasonCanceled),
           Living_Delete r, done_Append r, execCancelCallbacks r]"

definition rejectAmend_t :: "oref \<Rightarrow> ('d, unit) dprog" where
  "rejectAmend_t r =
     acts [on r (setStatus OrderStatusPending), on r (setAmendingDetail None), execAmendRejectCallbacks r]"

definition rejectCreate_t :: "oref \<Rightarrow> ('d, unit) dprog" where
  "rejectCreate_t r =
     acts [on r (setStatus OrderStatusDone), on r (setOrderDoneReason OrderDoneReasonRejected),
           Living_Delete r, done_Append r, execCreateRejectCallbacks r]"

definition rejectCancel_t :: "oref \<Rightarrow> ('d, unit) dprog" where
  "rejectCancel_t r = acts [on r (setStatus OrderStatusPending), execCancelRejectCallbacks r]"

definition abandonOrder_t :: "oref \<Rightarrow> ('d, unit) dprog" where
  "abandonOrder_t r =
     then_p (acts [on r (setStatus OrderStatusDone), on r (setOrderDoneReason OrderDoneReasonAbandoned)])
       (then_p (setSent_t r) (acts [Living_Delete r, done_Append r]))"

definition rejectAmends_t :: "oref list \<Rightarrow> ('d, unit) dprog" where
  "rejectAmends_t orders = for_p (\<lambda>r. WithOpLock r (rejectAmend_t r)) orders"

definition rejectCreates_t :: "oref list \<Rightarrow> ('d, unit) dprog" where
  "rejectCreates_t orders = for_p (\<lambda>r. WithOpLock r (rejectCreate_t r)) orders"

definition rejectCancels_t :: "oref list \<Rightarrow> ('d, unit) dprog" where
  "rejectCancels_t orders = for_p (\<lambda>r. WithOpLock r (rejectCancel_t r)) orders"

definition noticeError_t :: "error \<Rightarrow> ('d, unit) dprog" where
  "noticeError_t err =
     (if errors_Is err InfoError then Return ()
      else if errors_Is err WarnError \<or> errors_Is err HttpRequestError
           then upd_p (\<lambda>d. d\<lparr>d_onError := d_onError d @ [err]\<rparr>)
      else acts [\<lambda>d. d\<lparr>d_acceptOrder := Flag_Set (d_acceptOrder d) False\<rparr>,
                 \<lambda>d. d\<lparr>d_onError := d_onError d @ [err]\<rparr>])"

section \<open>Looking orders up\<close>

text \<open>\<open>get...Order\<close>: the map is read, then the status of the order found.\<close>

definition lookup_t :: "OrderStatus \<Rightarrow> string \<Rightarrow> ('d, oref option) dprog" where
  "lookup_t st oid =
     bind_p (read_p (\<lambda>d. Map_Get (d_LivingOrders d) oid)) (\<lambda>ro.
       case ro of
         None \<Rightarrow> Return None
       | Some r \<Rightarrow> bind_p (read_p (\<lambda>d. GetStatus (ord d r))) (\<lambda>s. Return (if s = st then Some r else None)))"

text \<open>\<open>get...Orders\<close>: one access for all entries of the map, then one for the status of each order.\<close>

primrec keep_status_t :: "OrderStatus \<Rightarrow> oref option list \<Rightarrow> ('d, oref list) dprog" where
  "keep_status_t st [] = Return []"
| "keep_status_t st (ro # ros) =
     (case ro of
        None \<Rightarrow> keep_status_t st ros
      | Some r \<Rightarrow> bind_p (read_p (\<lambda>d. GetStatus (ord d r))) (\<lambda>s.
          bind_p (keep_status_t st ros) (\<lambda>rs. Return (if s = st then r # rs else rs))))"

definition lookups_t :: "OrderStatus \<Rightarrow> string list \<Rightarrow> ('d, oref list) dprog" where
  "lookups_t st ids = bind_p (read_p (\<lambda>d. Map_Gets (d_LivingOrders d) ids)) (keep_status_t st)"

section \<open>dealing\_handlers.go: HTTP responses\<close>

definition handleSendOrderResp_t :: "CreateOrderResp \<Rightarrow> error option \<Rightarrow> ('d, unit) dprog" where
  "handleSendOrderResp_t resp err =
     bind_p (lookup_t OrderStatusSending (cr_OrderID resp)) (\<lambda>ro.
       case ro of
         None \<Rightarrow> Return ()
       | Some r \<Rightarrow> WithOpLock r
           (case err of
              Some e \<Rightarrow> then_p (rejectCreate_t r) (noticeError_t e)
            | None \<Rightarrow>
                (case cr_Err resp of
                   Some e \<Rightarrow> then_p (rejectCreate_t r) (noticeError_t e)
                 | None \<Rightarrow> bind_p (read_p (\<lambda>d. GetStatus (ord d r))) (\<lambda>s.
                     if s = OrderStatusSending then
                       bind_p (read_p (\<lambda>d. GetOrderType (ord d r))) (\<lambda>t.
                         case t of
                           OrderTypeUnknown \<Rightarrow> Return ()
                         | OrderTypeMarket \<Rightarrow> Return ()
                         | _ \<Rightarrow> acceptCreate_t r (cr_PublicID resp) (cr_ArrivedAt resp) (cr_ConfirmedAt resp))
                     else Return ()))))"

definition handleSendOrdersResp_t ::
  "string list \<Rightarrow> CreateOrdersRespMap \<Rightarrow> error option \<Rightarrow> ('d, unit) dprog" where
  "handleSendOrdersResp_t ids resps err =
     bind_p (lookups_t OrderStatusSending ids) (\<lambda>rs.
       case err of
         Some e \<Rightarrow> then_p (rejectCreates_t rs) (noticeError_t e)
       | None \<Rightarrow> for_p (\<lambda>r. bind_p (read_p (\<lambda>d. GetID (ord d r))) (\<lambda>i.
           case resps i of
             Some (Some resp) \<Rightarrow> handleSendOrderResp_t resp None
           | _ \<Rightarrow> crash_p NilDeref)) rs)"

definition handleAmendOrderResp_t :: "'d AmendOrderResp \<Rightarrow> error option \<Rightarrow> ('d, unit) dprog" where
  "handleAmendOrderResp_t resp err =
     bind_p (lookup_t OrderStatusAmending (ar_OrderID resp)) (\<lambda>ro.
       case ro of
         None \<Rightarrow> Return ()
       | Some r \<Rightarrow> WithOpLock r
           (case err of
              Some e \<Rightarrow>
                (if errors_Is e OrderIsNotExists then abandonOrder_t r
                 else then_p (rejectAmend_t r) (noticeError_t e))
            | None \<Rightarrow>
                (case ar_Err resp of
                   Some e \<Rightarrow>
                     (if errors_Is e OrderIsNotExists then abandonOrder_t r
                      else then_p (rejectAmend_t r) (noticeError_t e))
                 | None \<Rightarrow> acceptAmend_t r (ar_Detail resp) (ar_ArrivedAt resp) (ar_ConfirmedAt resp))))"

definition handleAmendOrdersResp_t ::
  "string list \<Rightarrow> 'd AmendOrdersRespMap \<Rightarrow> error option \<Rightarrow> ('d, unit) dprog" where
  "handleAmendOrdersResp_t ids resps err =
     bind_p (lookups_t OrderStatusAmending ids) (\<lambda>rs.
       case err of
         Some e \<Rightarrow> then_p (rejectAmends_t rs) (noticeError_t e)
       | None \<Rightarrow> for_p (\<lambda>r. bind_p (read_p (\<lambda>d. GetID (ord d r))) (\<lambda>i.
           case resps i of
             Some (Some resp) \<Rightarrow> handleAmendOrderResp_t resp None
           | _ \<Rightarrow> crash_p NilDeref)) rs)"

text \<open>What the handler does with the order it found once it has the lock.\<close>

definition cancelAnswer_t :: "oref \<Rightarrow> CancelOrderResp \<Rightarrow> error option \<Rightarrow> ('d, unit) dprog" where
  "cancelAnswer_t r resp err =
     (case err of
        Some e \<Rightarrow>
          (if errors_Is e OrderIsNotExists then abandonOrder_t r
           else then_p (rejectCancel_t r) (noticeError_t e))
      | None \<Rightarrow>
          (case xr_Err resp of
             Some e \<Rightarrow>
               (if errors_Is e OrderIsNotExists then abandonOrder_t r
                else then_p (rejectCancel_t r) (noticeError_t e))
           | None \<Rightarrow> acceptCancel_t r))"

definition handleCancelOrderResp_t :: "CancelOrderResp \<Rightarrow> error option \<Rightarrow> ('d, unit) dprog" where
  "handleCancelOrderResp_t resp err =
     bind_p (lookup_t OrderStatusCanceling (xr_OrderID resp)) (\<lambda>ro.
       case ro of
         None \<Rightarrow> Return ()
       | Some r \<Rightarrow> WithOpLock r (cancelAnswer_t r resp err))"

definition handleCancelOrdersResp_t ::
  "string list \<Rightarrow> CancelOrdersRespMap \<Rightarrow> error option \<Rightarrow> ('d, unit) dprog" where
  "handleCancelOrdersResp_t ids resps err =
     bind_p (lookups_t OrderStatusCanceling ids) (\<lambda>rs.
       case err of
         Some e \<Rightarrow> then_p (rejectCancels_t rs) (noticeError_t e)
       | None \<Rightarrow> for_p (\<lambda>r. bind_p (read_p (\<lambda>d. GetID (ord d r))) (\<lambda>i.
           case resps i of
             Some (Some resp) \<Rightarrow> handleCancelOrderResp_t resp None
           | _ \<Rightarrow> crash_p NilDeref)) rs)"

section \<open>dealing\_handlers.go: WebSocket messages\<close>

definition trackUnrelated_t :: "'d :: linordered_idom OrderData \<Rightarrow> ('d, unit) dprog" where
  "trackUnrelated_t data =
     (if OrderData_isUnrelated data then
        then_p
          (if od_Status data = OrderDataStatusOpened then
             upd_p (\<lambda>d. let o1 = setConfirmTimestamps (od_ArrivedAt data) (od_ConfirmedAt data)
                                   (zeroOrder\<lparr>o_publicID := od_PublicID data\<rparr>);
                            r = d_next d
                        in d\<lparr>d_heap := (d_heap d)(r := o1), d_next := Suc r,
                             d_UnrelatedOrders := Map_Set (d_UnrelatedOrders d) (od_PublicID data) r\<rparr>)
           else Return ())
          (if OrderData_isDone data then
             bind_p (read_p (\<lambda>d. getOrder (d_UnrelatedOrders d) (od_PublicID data))) (\<lambda>ro.
               case ro of
                 Some r \<Rightarrow> WithOpLock r (acts
                   [done_Append r,
                    \<lambda>d. d\<lparr>d_UnrelatedOrders := Map_Delete (d_UnrelatedOrders d) (od_PublicID data)\<rparr>])
               | None \<Rightarrow> Return ())
           else Return ())
      else Return ())"

definition handleOrderDatum_t :: "'d :: linordered_idom OrderData \<Rightarrow> ('d, unit) dprog" where
  "handleOrderDatum_t data =
     then_p (trackUnrelated_t data)
       (bind_p (read_p (\<lambda>d. getOrder (d_LivingOrders d) (od_ID data))) (\<lambda>ro1.
          if od_Status data = OrderDataStatusFilled \<and> ro1 \<noteq> None
          then WithOpLock (the ro1) (then_p (setOrderFillInfo_t (the ro1) data) (acceptFilled_t (the ro1)))
          else
            bind_p (read_p (\<lambda>d. getOrder (d_LivingOrders d) (od_ID data))) (\<lambda>ro2.
              if od_Status data = OrderDataStatusPartiallyFilled \<and> ro2 \<noteq> None
              then WithOpLock (the ro2)
                     (then_p (setOrderPartiallyFillInfo_t (the ro2) data) (acceptPartiallyFilled_t (the ro2)))
              else Return ())))"

definition HandleOrderData_t :: "'d :: linordered_idom OrderData list \<Rightarrow> ('d, unit) dprog" where
  "HandleOrderData_t datas = for_p handleOrderDatum_t datas"

definition HandlePositionData_t :: "'d :: linordered_idom PositionData list \<Rightarrow> ('d, unit) dprog" where
  "HandlePositionData_t datas =
     (case extractPositionData datas of
        Inl _ \<Rightarrow> Return ()
      | Inr data \<Rightarrow>
          bind_p (read_p (\<lambda>d. getLastUpdateAt (d_CurrentPosition d))) (\<lambda>lastUpdateAt.
            if lastUpdateAt < pd_Timestamp data \<or> pd_Timestamp data = lastUpdateAt then
              (let size0 = 0;
                   size1 = (if pd_Side data = SideBuy then pd_Qty data else size0);
                   size2 = (if pd_Side data = SideSell then - pd_Qty data else size1)
               in then_p
                    (upd_p (\<lambda>d. d\<lparr>d_CurrentPosition :=
                       Position_update (pd_Timestamp data) size2 (d_CurrentPosition d)\<rparr>))
                    (bind_p (read_p d_posUpdatedHandlers)
                      (for_p (\<lambda>h. upd_p (\<lambda>d. d\<lparr>d_posCalls := d_posCalls d @ [(h, datas)]\<rparr>)))))
            else Return ()))"

section \<open>dealer.go\<close>

definition enterSending_t :: "time \<Rightarrow> oref \<Rightarrow> ('d, unit) dprog" where
  "enterSending_t now r =
     acts [\<lambda>d. d\<lparr>d_LivingOrders := Map_Set (d_LivingOrders d) (GetID (ord d r)) r\<rparr>,
           on r (setStatus OrderStatusSending), on r (recordLastOperatedTimestamp now)]"

definition SendOrder_t :: "error option \<Rightarrow> time \<Rightarrow> oref \<Rightarrow> ('d, error option) dprog" where
  "SendOrder_t ag now r =
     bind_p (read_p (\<lambda>d. Flag_Get (d_acceptOrder d))) (\<lambda>acc.
       if \<not> acc then Return (Some notAccepting)
       else bind_p (read_p (\<lambda>d. getOrder (d_LivingOrders d) (GetID (ord d r)))) (\<lambda>ro.
         if ro \<noteq> None then Return (Some (Sentinel DealingErrorOrderIsAlreadyExists))
         else then_p
           (WithOpLock r (then_p (enterSending_t now r) (upd_p (request (ReqSendOrder r)))))
           (case ag of
              Some e \<Rightarrow> then_p (WithOpLock r (rejectCreate_t r)) (Return (Some e))
            | None \<Rightarrow> Return None)))"

text \<open>The first loop of \<open>SendOrders\<close>: whether one of the orders is living already.\<close>

primrec any_living_t :: "oref list \<Rightarrow> ('d, bool) dprog" where
  "any_living_t [] = Return False"
| "any_living_t (r # rs) =
     bind_p (read_p (\<lambda>d. getOrder (d_LivingOrders d) (GetID (ord d r)))) (\<lambda>ro.
       if ro \<noteq> None then Return True else any_living_t rs)"

definition SendOrders_t :: "error option \<Rightarrow> time \<Rightarrow> oref list \<Rightarrow> ('d, error option) dprog" where
  "SendOrders_t ag now rs =
     bind_p (read_p (\<lambda>d. Flag_Get (d_acceptOrder d))) (\<lambda>acc.
       if \<not> acc then Return (Some notAccepting)
       else bind_p (any_living_t rs) (\<lambda>ex.
         if ex then Return (Some (Sentinel DealingErrorOrderIsAlreadyExists))
         else then_p (for_p (\<lambda>r. WithOpLock r (enterSending_t now r)) rs)
           (then_p (upd_p (request (ReqSendOrders rs)))
             (case ag of
                Some e \<Rightarrow> then_p (rejectCreates_t rs) (Return (Some e))
              | None \<Rightarrow> Return None))))"

definition amendOrder_t ::
  "error option \<Rightarrow> time \<Rightarrow> oref \<Rightarrow> 'd :: linordered_idom AmendDetail \<Rightarrow> ('d, error option) dprog" where
  "amendOrder_t ag now r detail =
     bind_p (read_p (\<lambda>d. getOrder (d_LivingOrders d) (GetID (ord d r)))) (\<lambda>ro.
       if ro = None then then_p (upd_p (execAmendRejectOrderNotExistCallbacks r)) (Return None)
       else bind_p
         (WithOpLock r
           (bind_p (read_p (\<lambda>d. isAmendAble (ord d r))) (\<lambda>able.
              if \<not> able then Return (Some (Sentinel DealingErrorOrderIsNotAmendable))
              else bind_p (eval_p (\<lambda>d. isNeedToAmend detail (ord d r))) (\<lambda>need.
                if \<not> need then Return None
                else bind_p (read_p (\<lambda>d. GetStatus (ord d r))) (\<lambda>s.
                  if s \<noteq> OrderStatusPending then
                    bind_p (read_p (\<lambda>d. GetStatus (ord d r))) (\<lambda>s2.
                      Return (Some (mk_Error (Sentinel DealingErrorOrderNotReadyForOperation)
                        (''(order status: '' @ OrderStatus_String s2 @ '')''))))
                  else then_p
                    (acts [on r (setStatus OrderStatusAmending), on r (setAmendingDetail (Some detail)),
                           on r (recordLastOperatedTimestamp now), request (ReqAmendOrder r detail)])
                    (Return ag))))))
         (\<lambda>err. case err of
            Some e \<Rightarrow> then_p (WithOpLock r (rejectAmend_t r)) (Return (Some e))
          | None \<Rightarrow> Return None))"

definition runDeferredAmend_t ::
  "error option \<Rightarrow> time \<Rightarrow> oref \<Rightarrow> 'd :: linordered_idom AmendDetail \<Rightarrow> ('d, unit) dprog" where
  "runDeferredAmend_t ag now r detail =
     bind_p (read_p (\<lambda>d. Map_Get (d_amendingDetailMap d) (GetID (ord d r)))) (\<lambda>found.
       then_p (upd_p (\<lambda>d. d\<lparr>d_amendingDetailMap := Map_Delete (d_amendingDetailMap d) (GetID (ord d r))\<rparr>))
         (bind_p (amendOrder_t ag now r (case found of Some ad \<Rightarrow> ad | None \<Rightarrow> detail)) (\<lambda>_. Return ())))"

text \<open>The two deferring branches of \<open>AmendOrder\<close>; \<open>reg\<close> registers the closure.\<close>

definition deferAmend_t ::
  "('d AmendDetail \<Rightarrow> 'd Order \<Rightarrow> 'd Order) \<Rightarrow> oref \<Rightarrow> 'd AmendDetail \<Rightarrow> ('d, unit) dprog" where
  "deferAmend_t reg r detail =
     bind_p (read_p (\<lambda>d. Map_Get (d_amendingDetailMap d) (GetID (ord d r)))) (\<lambda>found.
       then_p (if found = None then upd_p (on r (reg detail)) else Return ())
         (upd_p (\<lambda>d. d\<lparr>d_amendingDetailMap := Map_Set (d_amendingDetailMap d) (GetID (ord d r)) detail\<rparr>)))"

definition AmendOrder_t ::
  "error option \<Rightarrow> time \<Rightarrow> oref \<Rightarrow> 'd :: linordered_idom AmendDetail \<Rightarrow> ('d, error option) dprog" where
  "AmendOrder_t ag now r detail =
     bind_p (read_p (\<lambda>d. Flag_Get (d_acceptOrder d))) (\<lambda>acc.
       if \<not> acc then Return (Some notAccepting)
       else bind_p
         (WithOpLock r
           (bind_p (read_p (\<lambda>d. GetStatus (ord d r))) (\<lambda>s.
              case s of
                OrderStatusDone \<Rightarrow> then_p (upd_p (execAmendRejectOrderNotExistCallbacks r)) (Return (None, False))
              | OrderStatusPending \<Rightarrow> Return (None, True)
              | OrderStatusSending \<Rightarrow>
                  then_p (deferAmend_t (\<lambda>ad. SetCreateCallback (DeferredAmend ad)) r detail) (Return (None, False))
              | OrderStatusAmending \<Rightarrow>
                  then_p (deferAmend_t (\<lambda>ad. SetAmendCallback (DeferredAmend ad)) r detail) (Return (None, False))
              | _ \<Rightarrow> Return (Some (Sentinel DealingErrorOrderNotReadyForOperation), False))))
         (\<lambda>(err, pending). if pending then amendOrder_t ag now r detail else Return err))"

text \<open>\<open>cancelOrder\<close> takes no lock: \<open>CancelOrder\<close> calls it with the lock held, the deferred closure without.\<close>

definition cancelOrder_t :: "error option \<Rightarrow> time \<Rightarrow> oref \<Rightarrow> ('d, error option) dprog" where
  "cancelOrder_t ag now r =
     bind_p (read_p (\<lambda>d. GetStatus (ord d r))) (\<lambda>s1.
       if s1 = OrderStatusCanceling then Return None
       else bind_p (read_p (\<lambda>d. GetStatus (ord d r))) (\<lambda>s2.
         if s2 \<noteq> OrderStatusPending then Return (Some (Sentinel DealingErrorOrderNotReadyForOperation))
         else then_p
           (acts [on r (setStatus OrderStatusCanceling), on r (recordLastOperatedTimestamp now),
                  request (ReqCancelOrder r)])
           (case ag of
              Some e \<Rightarrow> then_p (rejectCancel_t r) (Return (Some e))
            | None \<Rightarrow> Return None)))"

definition runDeferredCancel_t :: "error option \<Rightarrow> time \<Rightarrow> oref \<Rightarrow> ('d, unit) dprog" where
  "runDeferredCancel_t ag now r = bind_p (cancelOrder_t ag now r) (\<lambda>_. Return ())"

text \<open>The branches of the two cancel operations for an order that is being sent or amended.\<close>

definition deferCancel_t :: "OrderStatus \<Rightarrow> oref \<Rightarrow> ('d, unit) dprog" where
  "deferCancel_t s r =
     (let del = (\<lambda>d. d\<lparr>d_amendingDetailMap := Map_Delete (d_amendingDetailMap d) (GetID (ord d r))\<rparr>) in
      case s of
        OrderStatusSending \<Rightarrow> acts [del, on r (ReplaceCreateCallbacks DeferredCancel)]
      | OrderStatusAmending \<Rightarrow> acts [del, on r (ReplaceAmendCallbacks DeferredCancel)]
      | _ \<Rightarrow> Return ())"

definition CancelOrder_t :: "error option \<Rightarrow> time \<Rightarrow> oref \<Rightarrow> ('d, error option) dprog" where
  "CancelOrder_t ag now r =
     then_p
       (WithOpLock r (bind_p (read_p (\<lambda>d. GetStatus (ord d r))) (\<lambda>s.
          if s = OrderStatusPending then runDeferredCancel_t ag now r else deferCancel_t s r)))
       (Return None)"

primrec splitCancelTargets_t :: "oref list \<Rightarrow> ('d, oref list) dprog" where
  "splitCancelTargets_t [] = Return []"
| "splitCancelTargets_t (r # rs) =
     bind_p (read_p (\<lambda>d. GetStatus (ord d r))) (\<lambda>s.
       if s = OrderStatusPending then bind_p (splitCancelTargets_t rs) (\<lambda>ts. Return (r # ts))
       else then_p (deferCancel_t s r) (splitCancelTargets_t rs))"

definition enterCanceling_t :: "time \<Rightarrow> oref \<Rightarrow> ('d, unit) dprog" where
  "enterCanceling_t now r =
     acts [on r (setStatus OrderStatusCanceling), on r (recordLastOperatedTimestamp now)]"

definition CancelOrders_t ::
  "error option \<Rightarrow> time \<Rightarrow> string list \<Rightarrow> string list \<Rightarrow> oref list \<Rightarrow> ('d, error option) dprog" where
  "CancelOrders_t ag now ks ks2 orders =
     bind_p (read_p (\<lambda>d. Unique ks (d_heap d) orders)) (\<lambda>rs.
       bind_p
         (WithOpeLocks ks2 rs
           (bind_p (splitCancelTargets_t rs) (\<lambda>cancelTargets.
              if 0 < length cancelTargets then
                then_p (for_p (enterCanceling_t now) cancelTargets)
                  (then_p (upd_p (request (ReqCancelOrders cancelTargets))) (Return ag))
              else Return None)))
         (\<lambda>err. then_p (case err of Some e \<Rightarrow> rejectCancels_t rs | None \<Rightarrow> Return ()) (Return None)))"

definition ExportDoneOrders_t :: "('d, oref Slice) dprog" where
  "ExportDoneOrders_t =
     Act (\<lambda>d. Inr (d\<lparr>d_doneOrders := NewOrderMuArray []\<rparr>)) (\<lambda>d. Return (d_doneOrders d))"

definition runCallback_t ::
  "error option \<Rightarrow> time \<Rightarrow> oref \<times> 'd OrderCallback \<Rightarrow> ('d :: linordered_idom, unit) dprog" where
  "runCallback_t ag now t =
     (case t of
        (r, UserCallback n) \<Rightarrow> Return ()
      | (r, DeferredAmend detail) \<Rightarrow> runDeferredAmend_t ag now r detail
      | (r, DeferredCancel) \<Rightarrow> runDeferredCancel_t ag now r)"

section \<open>The program of an event\<close>

text \<open>
  The goroutine of an event. The order in which a batch takes its locks is part of the call. Functions
  that set callbacks are to be called inside \<open>WithOpLock\<close>, as their comments ask.
\<close>

type_synonym 'd call = "string list \<times> 'd event"

definition unit_p :: "('s, 'l, 'v) prog \<Rightarrow> ('s, 'l, unit) prog" where
  "unit_p p = bind_p p (\<lambda>_. Return ())"

fun prog_of :: "'d :: linordered_idom call \<Rightarrow> ('d, unit) dprog" where
  "prog_of (lk, EvNew o1) = upd_p (alloc o1)"
| "prog_of (lk, EvRegister r g) = WithOpLock r (upd_p (on r (register g)))"
| "prog_of (lk, EvSendOrder ag now r) = unit_p (SendOrder_t ag now r)"
| "prog_of (lk, EvSendOrders ag now rs) = unit_p (SendOrders_t ag now rs)"
| "prog_of (lk, EvAmendOrder ag now r detail) = unit_p (AmendOrder_t ag now r detail)"
| "prog_of (lk, EvCancelOrder ag now r) = unit_p (CancelOrder_t ag now r)"
| "prog_of (lk, EvCancelOrders ag now ks rs) = unit_p (CancelOrders_t ag now ks lk rs)"
| "prog_of (lk, EvExport) = unit_p ExportDoneOrders_t"
| "prog_of (lk, EvSendResp resp err) = handleSendOrderResp_t resp err"
| "prog_of (lk, EvSendsResp ids resps err) = handleSendOrdersResp_t ids resps err"
| "prog_of (lk, EvAmendResp resp err) = handleAmendOrderResp_t resp err"
| "prog_of (lk, EvAmendsResp ids resps err) = handleAmendOrdersResp_t ids resps err"
| "prog_of (lk, EvCancelResp resp err) = handleCancelOrderResp_t resp err"
| "prog_of (lk, EvCancelsResp ids resps err) = handleCancelOrdersResp_t ids resps err"
| "prog_of (lk, EvOrderData datas) = HandleOrderData_t datas"
| "prog_of (lk, EvPositionData datas) = HandlePositionData_t datas"
| "prog_of (lk, EvPosHandler h) = upd_p (SetPosUpdatedHandler h)"
| "prog_of (lk, EvCallback ag now i) =
     Act (\<lambda>d. Inr (if i < length (d_spawned d) then d\<lparr>d_spawned := drop_at (d_spawned d) i\<rparr> else d))
       (\<lambda>d. if i < length (d_spawned d) then runCallback_t ag now (d_spawned d ! i) else Return ())"

section \<open>Uninterrupted operations\<close>

lemma alone_locked [simp]: "alone (WithOpLock r p) d = alone p d"
  by (simp add: WithOpLock_def case_prod_beta) (cases "alone p d", simp_all)

lemma alone_batch [simp]: "alone (WithOpeLocks ks rs p) d = alone p d"
  by (simp add: WithOpeLocks_def case_prod_beta) (cases "alone p d", simp_all)

lemma alone_unit [simp]: "alone (unit_p p) d = bind_r (alone p d) (\<lambda>(_, d'). Inr ((), d'))"
  by (simp add: unit_p_def)

lemma on_on: "on r g (on r f d) = on r (\<lambda>x. g (f x)) d"
  by (simp add: on_def)

lemma ord_on [simp]: "ord (on r f d) q = (if q = r then f (ord d r) else ord d q)"
  by (simp add: on_def ord_def)

lemma alone_setSent [simp]:
  "alone (setSent_t r) d = Inr ((), on r (setSentTimestamp (getLastOperatedTimestamp (ord d r))) d)"
  by (simp add: setSent_t_def)

lemma alone_accepts [simp]:
  "alone (acceptFilled_t r) d = Inr ((), acceptFilled r d)"
  "alone (acceptPartiallyFilled_t r) d = Inr ((), acceptPartiallyFilled r d)"
  "alone (acceptCreate_t r p a c) d = Inr ((), acceptCreate r p a c d)"
  "alone (acceptCancel_t r) d = Inr ((), acceptCancel r d)"
  "alone (rejectAmend_t r) d = Inr ((), rejectAmend r d)"
  "alone (rejectCreate_t r) d = Inr ((), rejectCreate r d)"
  "alone (rejectCancel_t r) d = Inr ((), rejectCancel r d)"
  "alone (abandonOrder_t r) d = Inr ((), abandonOrder r d)"
  by (simp_all add: acceptFilled_t_def acceptPartiallyFilled_t_def acceptCreate_t_def acceptCancel_t_def
      rejectAmend_t_def rejectCreate_t_def rejectCancel_t_def abandonOrder_t_def handler_defs Let_def)

lemma alone_acceptAmend [simp]:
  "alone (acceptAmend_t r detail a c) d = bind_r (acceptAmend r detail a c d) (\<lambda>d'. Inr ((), d'))"
  by (simp add: acceptAmend_t_def acceptAmend_def Let_def bind_r_assoc)

lemma alone_rejects [simp]:
  "alone (rejectAmends_t rs) d = Inr ((), rejectAmends rs d)"
  "alone (rejectCreates_t rs) d = Inr ((), rejectCreates rs d)"
  "alone (rejectCancels_t rs) d = Inr ((), rejectCancels rs d)"
  by (simp_all add: rejectAmends_t_def rejectCreates_t_def rejectCancels_t_def rejectAmends_def
      rejectCreates_def rejectCancels_def alone_for)

lemma alone_notice [simp]: "alone (noticeError_t e) d = Inr ((), noticeError e d)"
  by (simp add: noticeError_t_def noticeError_def)

lemma alone_fill_info [simp]:
  "alone (setOrderFillInfo_t r data) d = Inr ((), setOrderFillInfo r data d)"
  "alone (setOrderPartiallyFillInfo_t r data) d = Inr ((), setOrderPartiallyFillInfo r data d)"
  by (simp_all add: setOrderFillInfo_t_def setOrderFillInfo_def setOrderPartiallyFillInfo_t_def
      setOrderPartiallyFillInfo_def Let_def on_on)
    (simp add: on_def ord_def)

lemma alone_lookup [simp]:
  "alone (lookup_t OrderStatusSending i) d = Inr (getSendingOrder (d_heap d) (d_LivingOrders d) i, d)"
  "alone (lookup_t OrderStatusAmending i) d = Inr (getAmendingOrder (d_heap d) (d_LivingOrders d) i, d)"
  "alone (lookup_t OrderStatusCanceling i) d = Inr (getCancelingOrder (d_heap d) (d_LivingOrders d) i, d)"
  by (auto simp: lookup_t_def getSendingOrder_def getAmendingOrder_def getCancelingOrder_def ord_def
      split: option.splits)

lemma alone_keep_status [simp]: "alone (keep_status_t st ros) d = Inr (with_status st (d_heap d) ros, d)"
  by (induction ros) (auto simp: with_status_def map_filter_simps ord_def split: option.splits)

lemma alone_lookups [simp]:
  "alone (lookups_t OrderStatusSending is) d = Inr (getSendingOrders (d_heap d) (d_LivingOrders d) is, d)"
  "alone (lookups_t OrderStatusAmending is) d = Inr (getAmendingOrders (d_heap d) (d_LivingOrders d) is, d)"
  "alone (lookups_t OrderStatusCanceling is) d = Inr (getCancelingOrders (d_heap d) (d_LivingOrders d) is, d)"
  by (simp_all add: lookups_t_def getSendingOrders_def getAmendingOrders_def getCancelingOrders_def)

lemma alone_responses [simp]:
  "alone (handleSendOrderResp_t cr err) d = Inr ((), handleSendOrderResp cr err d)"
  "alone (handleAmendOrderResp_t ar err) d = bind_r (handleAmendOrderResp ar err d) (\<lambda>d'. Inr ((), d'))"
  "alone (handleCancelOrderResp_t xr err) d = Inr ((), handleCancelOrderResp xr err d)"
  by (simp_all add: handleSendOrderResp_t_def handleSendOrderResp_def handleAmendOrderResp_t_def
      handleAmendOrderResp_def handleCancelOrderResp_t_def cancelAnswer_t_def handleCancelOrderResp_def
      split: option.split OrderType.split)

lemma alone_batch_responses [simp]:
  "alone (handleSendOrdersResp_t ids crs err) d = bind_r (handleSendOrdersResp ids crs err d) (\<lambda>d'. Inr ((), d'))"
  "alone (handleAmendOrdersResp_t ids ars err) d = bind_r (handleAmendOrdersResp ids ars err d) (\<lambda>d'. Inr ((), d'))"
  "alone (handleCancelOrdersResp_t ids xrs err) d = bind_r (handleCancelOrdersResp ids xrs err d) (\<lambda>d'. Inr ((), d'))"
  by (auto simp: handleSendOrdersResp_t_def handleSendOrdersResp_def handleAmendOrdersResp_t_def
      handleAmendOrdersResp_def handleCancelOrdersResp_t_def handleCancelOrdersResp_def Let_def
      intro!: alone_forM split: option.split)

lemma alone_messages [simp]:
  "alone (handleOrderDatum_t data) d = Inr ((), handleOrderDatum data d)"
proof -
  have "alone (trackUnrelated_t data) d = Inr ((), trackUnrelated data d)"
    by (auto simp: trackUnrelated_t_def trackUnrelated_def Let_def done_Append_def split: option.split)
  then show ?thesis by (auto simp: handleOrderDatum_t_def handleOrderDatum_def Let_def split: option.split)
qed

lemma alone_HandleOrderData [simp]: "alone (HandleOrderData_t datas) d = Inr ((), HandleOrderData datas d)"
  by (simp add: HandleOrderData_t_def HandleOrderData_def alone_for)

lemma fold_posCalls:
  "fold (\<lambda>h d. d\<lparr>d_posCalls := d_posCalls d @ [(h, datas)]\<rparr>) hs d =
     d\<lparr>d_posCalls := d_posCalls d @ map (\<lambda>h. (h, datas)) hs\<rparr>"
  by (induction hs arbitrary: d) simp_all

lemma alone_HandlePositionData [simp]:
  "alone (HandlePositionData_t datas) d = Inr ((), HandlePositionData datas d)"
  by (simp add: HandlePositionData_t_def HandlePositionData_def Let_def alone_for fold_posCalls split: sum.split)

lemma alone_enterSending [simp]: "alone (enterSending_t now r) d = Inr ((), enterSending now r d)"
  by (simp add: enterSending_t_def enterSending_def Let_def)

lemma alone_any_living [simp]:
  "alone (any_living_t rs) d =
     Inr (list_ex (\<lambda>r. getOrder (d_LivingOrders d) (GetID (ord d r)) \<noteq> None) rs, d)"
  by (induction rs) auto

lemma alone_sends [simp]:
  "alone (SendOrder_t ag now r) d = Inr (SendOrder ag now r d)"
  "alone (SendOrders_t ag now rs) d = Inr (SendOrders ag now rs d)"
  by (simp_all add: SendOrder_t_def SendOrder_def SendOrders_t_def SendOrders_def Let_def alone_for
      split: option.split)

lemma alone_amendOrder [simp]: "alone (amendOrder_t ag now r detail) d = amendOrder ag now r detail d"
  by (auto simp: amendOrder_t_def amendOrder_def amendOrder_locked_def Let_def bind_r_def
      split: option.split sum.split)

lemma alone_runDeferredAmend [simp]:
  "alone (runDeferredAmend_t ag now r detail) d = bind_r (runDeferredAmend ag now r detail d) (\<lambda>d'. Inr ((), d'))"
  by (auto simp: runDeferredAmend_t_def runDeferredAmend_def Let_def bind_r_def split: sum.split)

lemma GetID_callbacks [simp]:
  "GetID (SetCreateCallback c o1) = GetID o1" "GetID (SetAmendCallback c o1) = GetID o1"
  by (simp_all add: SetCreateCallback_def SetAmendCallback_def go_simps)

lemma alone_AmendOrder [simp]: "alone (AmendOrder_t ag now r detail) d = AmendOrder ag now r detail d"
  by (auto simp: AmendOrder_t_def AmendOrder_def deferAmend_t_def Let_def split: OrderStatus.split)

lemma alone_cancelOrder [simp]: "alone (cancelOrder_t ag now r) d = Inr (cancelOrder ag now r d)"
  by (simp add: cancelOrder_t_def cancelOrder_def Let_def split: option.split)

lemma alone_deferCancel [simp]:
  "alone (deferCancel_t (GetStatus (ord d r)) r) d = Inr ((), deferCancel r d)"
  by (simp add: deferCancel_t_def deferCancel_def Let_def split: OrderStatus.split)

lemma alone_runDeferredCancel [simp]:
  "alone (runDeferredCancel_t ag now r) d = Inr ((), runDeferredCancel ag now r d)"
  by (simp add: runDeferredCancel_t_def runDeferredCancel_def case_prod_beta)

lemma alone_CancelOrder [simp]: "alone (CancelOrder_t ag now r) d = Inr (CancelOrder ag now r d)"
  by (simp add: CancelOrder_t_def CancelOrder_def)

lemma alone_split [simp]: "alone (splitCancelTargets_t rs) d = Inr (splitCancelTargets rs d)"
  by (induction rs arbitrary: d) (simp_all add: case_prod_beta)

lemma alone_enterCanceling: "alone (enterCanceling_t now r) d = Inr ((), enterCanceling now r d)"
  by (simp add: enterCanceling_t_def enterCanceling_def)

lemma alone_CancelOrders [simp]: "alone (CancelOrders_t ag now ks lk rs) d = Inr (CancelOrders ag now ks rs d)"
  by (simp add: CancelOrders_t_def CancelOrders_def Let_def case_prod_beta alone_for [OF alone_enterCanceling]
      split: option.split)

lemma alone_callback [simp]:
  "alone (runCallback_t ag now t) d = bind_r (runCallback ag now t d) (\<lambda>d'. Inr ((), d'))"
  by (cases t) (simp add: runCallback_t_def runCallback_def split: OrderCallback.split)

text \<open>An operation that is not interrupted does what its atomic definition says.\<close>

lemma alone_prog_of: "alone (prog_of (lk, e)) d = bind_r (exec_dealer e d) (\<lambda>d'. Inr ((), d'))"
  by (cases e)
    (simp_all add: ExportDoneOrders_t_def ExportDoneOrders_def bind_r_def split: sum.split prod.split)

section \<open>The locks of every operation\<close>

lemma locks_WithOpLock [simp]:
  "locks m (WithOpLock r p) H Q \<longleftrightarrow>
     r \<notin> H \<and> (m \<or> H = {}) \<and> locks m p (insert r H) (\<lambda>v H'. r \<in> H' \<and> Q v (H' - {r}))"
  by (simp add: WithOpLock_def)

text \<open>Programs that take no lock.\<close>

lemma locks_unlocked [simp]:
  "locks m (setSent_t r) H Q = Q () H" "locks m (setOrderPartiallyFillInfo_t r data) H Q = Q () H"
  "locks m (acceptFilled_t r) H Q = Q () H" "locks m (acceptCancel_t r) H Q = Q () H"
  "locks m (rejectAmend_t r) H Q = Q () H" "locks m (rejectCreate_t r) H Q = Q () H"
  "locks m (rejectCancel_t r) H Q = Q () H" "locks m (noticeError_t e) H Q = Q () H"
  "locks m (enterSending_t now r) H Q = Q () H" "locks m (enterCanceling_t now r) H Q = Q () H"
  by (simp_all add: setSent_t_def setOrderPartiallyFillInfo_t_def acceptFilled_t_def acceptCancel_t_def
      rejectAmend_t_def rejectCreate_t_def rejectCancel_t_def noticeError_t_def enterSending_t_def
      enterCanceling_t_def)

lemma locks_unlocked2 [simp]:
  "Q () H \<Longrightarrow> locks m (setOrderFillInfo_t r data) H Q" "Q () H \<Longrightarrow> locks m (acceptPartiallyFilled_t r) H Q"
  "Q () H \<Longrightarrow> locks m (acceptAmend_t r detail a c) H Q" "Q () H \<Longrightarrow> locks m (acceptCreate_t r p a c) H Q"
  "Q () H \<Longrightarrow> locks m (abandonOrder_t r) H Q" "Q () H \<Longrightarrow> locks m (deferAmend_t reg r ad) H Q"
  "Q () H \<Longrightarrow> locks m (deferCancel_t s r) H Q"
  by (simp_all add: setOrderFillInfo_t_def acceptPartiallyFilled_t_def acceptAmend_t_def acceptCreate_t_def
      abandonOrder_t_def deferAmend_t_def deferCancel_t_def Let_def split: OrderStatus.split)

lemma locks_lookup [simp]: "(\<And>v. Q v H) \<Longrightarrow> locks m (lookup_t st i) H Q"
  by (simp add: lookup_t_def split: option.split)

lemma locks_keep_status [simp]: "(\<And>v. Q v H) \<Longrightarrow> locks m (keep_status_t st ros) H Q"
  by (induction ros arbitrary: Q) (auto split: option.split)

lemma locks_lookups [simp]: "(\<And>v. Q v H) \<Longrightarrow> locks m (lookups_t st is) H Q"
  by (simp add: lookups_t_def)

lemma locks_any_living [simp]: "(\<And>v. Q v H) \<Longrightarrow> locks m (any_living_t rs) H Q"
  by (induction rs) auto

lemma locks_cancelOrder [simp]: "(\<And>v. Q v H) \<Longrightarrow> locks m (cancelOrder_t ag now r) H Q"
  by (simp add: cancelOrder_t_def split: option.split)

lemma locks_split [simp]: "(\<And>v. Q v H) \<Longrightarrow> locks m (splitCancelTargets_t rs) H Q"
  by (induction rs arbitrary: Q) auto

lemma locks_rejects [simp]:
  "Q () {} \<Longrightarrow> locks m (rejectAmends_t rs) {} Q" "Q () {} \<Longrightarrow> locks m (rejectCreates_t rs) {} Q"
  "Q () {} \<Longrightarrow> locks m (rejectCancels_t rs) {} Q"
  by (auto simp: rejectAmends_t_def rejectCreates_t_def rejectCancels_t_def intro!: locks_for)

lemma locks_responses [simp]:
  "Q () {} \<Longrightarrow> locks m (handleSendOrderResp_t cr err) {} Q"
  "Q () {} \<Longrightarrow> locks m (handleAmendOrderResp_t ar err) {} Q"
  "Q () {} \<Longrightarrow> locks m (handleCancelOrderResp_t xr err) {} Q"
  by (simp_all add: handleSendOrderResp_t_def handleAmendOrderResp_t_def handleCancelOrderResp_t_def cancelAnswer_t_def
      split: option.split OrderType.split)

lemma locks_batch_responses [simp]:
  "Q () {} \<Longrightarrow> locks m (handleSendOrdersResp_t ids crs err) {} Q"
  "Q () {} \<Longrightarrow> locks m (handleAmendOrdersResp_t ids ars err) {} Q"
  "Q () {} \<Longrightarrow> locks m (handleCancelOrdersResp_t ids xrs err) {} Q"
  by (auto simp: handleSendOrdersResp_t_def handleAmendOrdersResp_t_def handleCancelOrdersResp_t_def
      intro!: locks_lookups locks_for split: option.split)

lemma locks_messages [simp]:
  "Q () {} \<Longrightarrow> locks m (handleOrderDatum_t data) {} Q" "Q () {} \<Longrightarrow> locks m (HandlePositionData_t datas) {} Q"
  by (auto simp: handleOrderDatum_t_def trackUnrelated_t_def HandlePositionData_t_def Let_def
      intro!: locks_for split: option.split sum.split)

lemma locks_calls [simp]:
  "(\<And>v. Q v {}) \<Longrightarrow> locks m (SendOrder_t ag now r) {} Q"
  "(\<And>v. Q v {}) \<Longrightarrow> locks m (SendOrders_t ag now rs) {} Q"
  "(\<And>v. Q v {}) \<Longrightarrow> locks m (amendOrder_t ag now r ad) {} Q"
  "(\<And>v. Q v {}) \<Longrightarrow> locks m (CancelOrder_t ag now r) {} Q"
  by (auto simp: SendOrder_t_def SendOrders_t_def amendOrder_t_def CancelOrder_t_def runDeferredCancel_t_def
      intro!: locks_any_living locks_for split: option.split)

lemma locks_AmendOrder [simp]: "(\<And>v. Q v {}) \<Longrightarrow> locks m (AmendOrder_t ag now r ad) {} Q"
  by (simp add: AmendOrder_t_def split: OrderStatus.split)

lemma unique_map_ids: "unique_map h rs i = Some r \<Longrightarrow> GetID (h r) = i"
proof (induction rs rule: rev_induct)
  case (snoc q rs)
  then show ?case by (auto simp: unique_map_def split: if_splits)
qed (simp add: unique_map_def)

lemma distinct_Unique: "distinct ks \<Longrightarrow> distinct (Unique ks h rs)"
proof (induction ks)
  case (Cons k ks)
  have "r \<notin> set (Unique ks h rs)" if "unique_map h rs k = Some r" for r
  proof
    assume "r \<in> set (Unique ks h rs)"
    then obtain k' where "k' \<in> set ks" "unique_map h rs k' = Some r" by (auto simp: Unique_def map_filter_def)
    with that Cons.prems show False by (auto dest!: unique_map_ids)
  qed
  with Cons show ?case by (auto simp: Unique_def map_filter_simps split: option.split)
qed (simp add: Unique_def map_filter_simps)

lemma locks_CancelOrders [simp]:
  assumes "distinct lk" and "\<And>v. Q v {}"
  shows "locks True (CancelOrders_t ag now ks lk rs) {} Q"
  using assms
  by (auto simp: CancelOrders_t_def WithOpeLocks_def locks_lock_all locks_unlock_all distinct_Unique
      intro!: locks_split locks_for split: option.split)

text \<open>The calls that may start: a batch takes its locks in some order of distinct identifiers.\<close>

fun is_batch :: "'d call \<Rightarrow> bool" where
  "is_batch (lk, EvCancelOrders ag now ks rs) = True"
| "is_batch c = False"

definition call_ok :: "'d call \<Rightarrow> bool" where
  "call_ok c \<longleftrightarrow> (is_batch c \<longrightarrow> distinct (fst c))"

lemma locks_prog_of: "call_ok c \<Longrightarrow> locks (is_batch c) (prog_of c) {} nothing_held"
proof (cases c)
  case (Pair lk e)
  assume "call_ok c"
  with Pair show ?thesis
    by (cases e) (auto simp: call_ok_def nothing_held_def unit_p_def HandleOrderData_t_def ExportDoneOrders_t_def
        runCallback_t_def runDeferredAmend_t_def runDeferredCancel_t_def intro!: locks_for
        split: OrderCallback.split prod.split)
qed

end
