(* ===== verification/Rely.thy ===== *)
theory Rely
  imports Goroutines
begin

text \<open>
  Programs that do not panic whatever runs beside them. \<open>G\<close> is an invariant of the shared state that
  holds at every moment, \<open>J l\<close> one that holds whenever the mutex \<open>l\<close> is free, and \<open>R H\<close> what the
  other goroutines may do to the state while one holds the mutexes \<open>H\<close>. A program is safe if none of
  its accesses panics under such interference and each of them keeps what the others rely on. In a
  pool of safe programs no goroutine ever panics. Reasoning about a program goes by assertions that
  interference does not invalidate.
\<close>

section \<open>Safe programs\<close>

definition grants ::
  "('l \<Rightarrow> 's \<Rightarrow> bool) \<Rightarrow> ('l set \<Rightarrow> 's \<Rightarrow> 's \<Rightarrow> bool) \<Rightarrow> 'l set \<Rightarrow> 's \<Rightarrow> 's \<Rightarrow> bool" where
  "grants J R H s t \<longleftrightarrow> (\<forall>K. K \<inter> H = {} \<longrightarrow> R K s t) \<and> (\<forall>l. l \<notin> H \<and> J l s \<longrightarrow> J l t)"

primrec safe ::
  "('s \<Rightarrow> bool) \<Rightarrow> ('l \<Rightarrow> 's \<Rightarrow> bool) \<Rightarrow> ('l set \<Rightarrow> 's \<Rightarrow> 's \<Rightarrow> bool) \<Rightarrow>
     ('s, 'l, 'v) prog \<Rightarrow> 'l set \<Rightarrow> ('v \<Rightarrow> 'l set \<Rightarrow> 's \<Rightarrow> bool) \<Rightarrow> 's \<Rightarrow> bool" where
  "safe G J R (Return v) H Q s = (\<forall>t. R H s t \<and> G t \<longrightarrow> Q v H t)"
| "safe G J R (Act f k) H Q s =
     (\<forall>t. R H s t \<and> G t \<longrightarrow>
        (\<exists>u. f t = Inr u \<and> G u \<and> grants J R H t u \<and> safe G J R (k t) H Q u))"
| "safe G J R (Lock l p) H Q s = (\<forall>t. R H s t \<and> G t \<and> J l t \<longrightarrow> safe G J R p (insert l H) Q t)"
| "safe G J R (Unlock l p) H Q s = (\<forall>t. R H s t \<and> G t \<longrightarrow> l \<in> H \<and> J l t \<and> safe G J R p (H - {l}) Q t)"

definition safe_pool ::
  "('s \<Rightarrow> bool) \<Rightarrow> ('l \<Rightarrow> 's \<Rightarrow> bool) \<Rightarrow> ('l set \<Rightarrow> 's \<Rightarrow> 's \<Rightarrow> bool) \<Rightarrow> ('s, 'l) pool \<Rightarrow> bool" where
  "safe_pool G J R P \<longleftrightarrow>
     G (p_state P) \<and> (\<forall>l. p_owner P l = None \<longrightarrow> J l (p_state P)) \<and>
     (\<forall>i < length (p_threads P). safe G J R (p_threads P ! i) (held P i) (\<lambda>_ _ _. True) (p_state P)) \<and>
     (\<forall>l i. p_owner P l = Some i \<longrightarrow> i < length (p_threads P))"

lemma safe_poolD:
  assumes "safe_pool G J R P"
  shows "G (p_state P)" and "p_owner P l = None \<Longrightarrow> J l (p_state P)"
    and "i < length (p_threads P) \<Longrightarrow> safe G J R (p_threads P ! i) (held P i) (\<lambda>_ _ _. True) (p_state P)"
    and "p_owner P l = Some i \<Longrightarrow> i < length (p_threads P)"
  using assms by (auto simp: safe_pool_def)

locale rely =
  fixes G :: "'s \<Rightarrow> bool" and J :: "'l \<Rightarrow> 's \<Rightarrow> bool" and R :: "'l set \<Rightarrow> 's \<Rightarrow> 's \<Rightarrow> bool"
  assumes R_refl: "R H s s" and R_trans: "R H s t \<Longrightarrow> R H t u \<Longrightarrow> R H s u"
    and R_less: "R H s t \<Longrightarrow> K \<subseteq> H \<Longrightarrow> R K s t"
    and J_kept: "l \<in> H \<Longrightarrow> J l s \<Longrightarrow> R H s t \<Longrightarrow> G t \<Longrightarrow> J l t"
begin

text \<open>Interference does not make a program unsafe.\<close>

lemma safe_stable: "safe G J R p H Q s \<Longrightarrow> R H s t \<Longrightarrow> safe G J R p H Q t"
  by (cases p) (auto intro: R_trans)

lemma safe_bind:
  "safe G J R p H (\<lambda>v K. safe G J R (g v) K Q) s \<Longrightarrow> safe G J R (bind_p p g) H Q s"
proof (induction p arbitrary: H s)
  case (Return v)
  show ?case
  proof (cases "g v")
    case (Act f k)
    with Return show ?thesis using R_refl by fastforce
  qed (use Return R_refl in fastforce)+
qed (simp_all, (blast | meson rangeI)+)

lemma safe_weaken:
  assumes "safe G J R p H Q s" and "\<And>v K t. Q v K t \<Longrightarrow> Q' v K t"
  shows "safe G J R p H Q' s"
  using assms(1)
proof (induction p arbitrary: H s)
  case (Act f k)
  show ?case
  proof (simp, intro allI impI, elim conjE)
    fix t assume "R H s t" "G t"
    with Act.prems obtain u where "f t = Inr u" "G u" "grants J R H t u" "safe G J R (k t) H Q u" by auto
    with Act.IH [of "k t"] show "\<exists>u. f t = Inr u \<and> G u \<and> grants J R H t u \<and> safe G J R (k t) H Q' u" by blast
  qed
qed (use assms(2) in simp_all)

subsection \<open>Soundness\<close>

lemma step_no_panic:
  assumes "safe_pool G J R P"
  shows "tstep i P \<noteq> Some (Inl e)"
proof (cases "i < length (p_threads P)")
  case True
  note s = safe_poolD(3) [OF assms True] and g = safe_poolD(1) [OF assms]
  show ?thesis
  proof (cases "p_threads P ! i")
    case (Act f k)
    with s g R_refl [of "held P i" "p_state P"] obtain u where "f (p_state P) = Inr u" by auto
    with True Act show ?thesis by (simp add: tstep_def)
  next
    case (Unlock l p)
    with s g R_refl [of "held P i" "p_state P"] have "p_owner P l = Some i" by (auto simp: held_def)
    with True Unlock show ?thesis by (simp add: tstep_def)
  qed (use True in \<open>auto simp: tstep_def\<close>)
qed (simp add: tstep_def)

text \<open>The goroutines that do not run see a step that keeps what they rely on.\<close>

lemma safe_update:
  assumes "safe_pool G J R P" and "\<And>k. k \<noteq> i \<Longrightarrow> held P' k = held P k"
    and "p_threads P' = (p_threads P)[i := p]" and "safe G J R p (held P' i) (\<lambda>_ _ _. True) (p_state P')"
    and "\<And>k. k \<noteq> i \<Longrightarrow> R (held P k) (p_state P) (p_state P')"
    and "G (p_state P')" and "\<And>l. p_owner P' l = None \<Longrightarrow> J l (p_state P')"
    and "\<And>l k. p_owner P' l = Some k \<Longrightarrow> k < length (p_threads P)"
  shows "safe_pool G J R P'"
proof -
  have "safe G J R (p_threads P' ! k) (held P' k) (\<lambda>_ _ _. True) (p_state P')" if "k < length (p_threads P)" for k
    using that assms(2-5) safe_poolD(3) [OF assms(1) that] by (cases "k = i") (auto intro: safe_stable)
  with assms(3,6-8) show ?thesis by (auto simp: safe_pool_def)
qed

lemma held_disjoint: "k \<noteq> i \<Longrightarrow> held P k \<inter> held P i = {}"
  by (auto simp: held_def)

lemma step_safe:
  assumes "safe_pool G J R P" and "tstep i P = Some (Inr P')"
  shows "safe_pool G J R P'"
proof -
  have i: "i < length (p_threads P)" using assms(2) by (auto simp: tstep_def split: if_splits)
  note s = safe_poolD(3) [OF assms(1) i] and g = safe_poolD(1) [OF assms(1)] and own = safe_poolD(4) [OF assms(1)]
  note r = R_refl [of "held P i" "p_state P"]
  show ?thesis
  proof (cases "p_threads P ! i")
    case (Act f k)
    with s g r obtain u where u: "f (p_state P) = Inr u" "G u" "grants J R (held P i) (p_state P) u"
      "safe G J R (k (p_state P)) (held P i) (\<lambda>_ _ _. True) u" by auto
    with assms(2) i Act have P': "P' = P\<lparr>p_state := u, p_threads := (p_threads P)[i := k (p_state P)]\<rparr>"
      by (simp add: tstep_def)
    have "J l u" if "p_owner P l = None" for l
      using that u(3) safe_poolD(2) [OF assms(1) that] by (auto simp: grants_def held_def)
    with u own P' held_disjoint [of _ i P] show ?thesis
      by (intro safe_update [OF assms(1), of i _ "k (p_state P)"]) (auto simp: grants_def)
  next
    case (Lock l p)
    with assms(2) i have P': "p_owner P l = None"
      "P' = P\<lparr>p_owner := (p_owner P)(l \<mapsto> i), p_threads := (p_threads P)[i := p]\<rparr>"
      by (auto simp: tstep_def split: if_splits)
    have "safe G J R p (insert l (held P i)) (\<lambda>_ _ _. True) (p_state P)"
      using s Lock g r safe_poolD(2) [OF assms(1) P'(1)] by simp
    with P' i g own show ?thesis
      by (intro safe_update [OF assms(1), of i _ p])
        (auto simp: held_lock R_refl split: if_splits intro: safe_poolD(2) [OF assms(1)])
  next
    case (Unlock l p)
    with s g r have l: "l \<in> held P i" "J l (p_state P)" "safe G J R p (held P i - {l}) (\<lambda>_ _ _. True) (p_state P)" by auto
    with assms(2) i Unlock have P': "P' = P\<lparr>p_owner := (p_owner P)(l := None), p_threads := (p_threads P)[i := p]\<rparr>"
      by (auto simp: tstep_def held_def)
    with l i g own show ?thesis
      by (intro safe_update [OF assms(1), of i _ p])
        (auto simp: held_unlock R_refl split: if_splits intro: safe_poolD(2) [OF assms(1)])
  qed (use assms(2) i in \<open>simp add: tstep_def\<close>)
qed

lemma go_safe:
  assumes "safe_pool G J R P" and "safe G J R p {} (\<lambda>_ _ _. True) (p_state P)"
  shows "safe_pool G J R (P\<lparr>p_threads := p_threads P @ [p]\<rparr>)"
proof -
  have "held P (length (p_threads P)) = {}" using safe_poolD(4) [OF assms(1)] by (fastforce simp: held_def)
  with assms show ?thesis by (auto simp: safe_pool_def nth_append less_Suc_eq)
qed

section \<open>Assertions\<close>

text \<open>An assertion that interference leaves true, and what a program makes of one.\<close>

definition stable :: "'l set \<Rightarrow> ('s \<Rightarrow> bool) \<Rightarrow> bool" where
  "stable H A \<longleftrightarrow> (\<forall>s t. A s \<and> R H s t \<and> G t \<longrightarrow> A t)"

definition hoare :: "'l set \<Rightarrow> ('s \<Rightarrow> bool) \<Rightarrow> ('s, 'l, 'v) prog \<Rightarrow> ('v \<Rightarrow> 's \<Rightarrow> bool) \<Rightarrow> bool" where
  "hoare H A p B \<longleftrightarrow> (\<forall>s. A s \<longrightarrow> safe G J R p H (\<lambda>v K t. K = H \<and> B v t) s)"

text \<open>An access the others do not notice, and one that concerns only what the goroutine has locked.\<close>

definition mild :: "('s \<Rightarrow> bool) \<Rightarrow> ('s \<Rightarrow> 's) \<Rightarrow> bool" where
  "mild A f \<longleftrightarrow> (\<forall>s. A s \<and> G s \<longrightarrow> G (f s) \<and> (\<forall>H. R H s (f s)) \<and> (\<forall>l. J l s \<longrightarrow> J l (f s)))"

lemma stable_less: "stable K A \<Longrightarrow> K \<subseteq> H \<Longrightarrow> stable H A"
  by (auto simp: stable_def intro: R_less)

lemma stable_conj: "stable H A \<Longrightarrow> stable H B \<Longrightarrow> stable H (\<lambda>s. A s \<and> B s)"
  by (auto simp: stable_def)

lemma stable_const [simp]: "stable H (\<lambda>_. c)"
  by (simp add: stable_def)

lemma stable_J: "l \<in> H \<Longrightarrow> stable H (J l)"
  by (auto simp: stable_def intro: J_kept)

lemma hoare_never: "hoare H (\<lambda>_. False) p B"
  by (simp add: hoare_def)

lemma hoare_weaken:
  "hoare H A p B \<Longrightarrow> (\<And>s. A' s \<Longrightarrow> A s) \<Longrightarrow> (\<And>v s. B v s \<Longrightarrow> B' v s) \<Longrightarrow> hoare H A' p B'"
  unfolding hoare_def by (blast intro: safe_weaken)

lemma hoare_return: "stable H A \<Longrightarrow> (\<And>s. A s \<Longrightarrow> B v s) \<Longrightarrow> hoare H A (Return v) B"
  by (auto simp: hoare_def stable_def)

lemma hoare_bind: "hoare H A p B \<Longrightarrow> (\<And>v. hoare H (B v) (g v) C) \<Longrightarrow> hoare H A (bind_p p g) C"
  unfolding hoare_def by (auto intro!: safe_bind elim!: safe_weaken)

lemma hoare_then: "hoare H A p (\<lambda>_. B) \<Longrightarrow> hoare H B q C \<Longrightarrow> hoare H A (then_p p q) C"
  unfolding then_p_def by (rule hoare_bind)

text \<open>An access and its continuation.\<close>

lemma hoare_act:
  assumes "stable H A"
    and "\<And>s. A s \<Longrightarrow> G s \<Longrightarrow> \<exists>u. f s = Inr u \<and> G u \<and> grants J R H s u \<and> B s u"
    and "\<And>s. hoare H (B s) (k s) C"
  shows "hoare H A (Act f k) C"
  unfolding hoare_def
proof (intro allI impI)
  fix s assume "A s"
  have "\<exists>u. f t = Inr u \<and> G u \<and> grants J R H t u \<and> safe G J R (k t) H (\<lambda>v K t. K = H \<and> C v t) u"
    if "R H s t" "G t" for t
  proof -
    have "A t" using assms(1) \<open>A s\<close> that by (auto simp: stable_def)
    with assms(2) [of t] that(2) assms(3) [of t] show ?thesis by (auto simp: hoare_def)
  qed
  then show "safe G J R (Act f k) H (\<lambda>v K t. K = H \<and> C v t) s" by simp
qed

lemma grants_self: "grants J R H s s"
  by (simp add: grants_def R_refl)

lemma hoare_read:
  assumes "stable H A" and "\<And>s. A s \<Longrightarrow> G s \<Longrightarrow> B (g s) s" and "\<And>v. stable H (B v)"
  shows "hoare H A (read_p g) B"
  unfolding read_p_def
  by (rule hoare_act [where B = "\<lambda>s. B (g s)"]) (use assms grants_self in \<open>auto intro: hoare_return\<close>)

lemma hoare_eval:
  assumes "stable H A" and "\<And>s. A s \<Longrightarrow> G s \<Longrightarrow> \<exists>v. g s = Inr v"
  shows "hoare H A (eval_p g) (\<lambda>_. A)"
  unfolding eval_p_def
  by (rule hoare_act [where B = "\<lambda>_. A"]) (use assms grants_self in \<open>fastforce intro: hoare_return\<close>)+

lemma hoare_upd:
  assumes "stable H A" and "\<And>s. A s \<Longrightarrow> G s \<Longrightarrow> G (f s) \<and> grants J R H s (f s) \<and> B (f s)" and "stable H B"
  shows "hoare H A (upd_p f) (\<lambda>_. B)"
  unfolding upd_p_def
  by (rule hoare_act [where B = "\<lambda>_. B"]) (use assms in \<open>auto intro: hoare_return\<close>)

lemma mild_grants: "mild A f \<Longrightarrow> A s \<Longrightarrow> G s \<Longrightarrow> grants J R H s (f s)"
  by (auto simp: mild_def grants_def)

lemma hoare_mild: "stable H A \<Longrightarrow> mild A f \<Longrightarrow> hoare H A (upd_p f) (\<lambda>_. A)"
  by (rule hoare_upd) (auto simp: stable_def mild_grants, auto simp: mild_def)

lemma hoare_act_mild:
  "stable H A \<Longrightarrow> mild A f \<Longrightarrow> (\<And>s. hoare H A (k s) C) \<Longrightarrow> hoare H A (Act (\<lambda>s. Inr (f s)) k) C"
  by (rule hoare_act [where B = "\<lambda>_. A"]) (auto simp: stable_def mild_grants, auto simp: mild_def)

lemma hoare_acts: "stable H A \<Longrightarrow> list_all (mild A) fs \<Longrightarrow> hoare H A (acts fs) (\<lambda>_. A)"
  by (induction fs) (auto intro: hoare_return hoare_then hoare_mild)

lemma hoare_for:
  "stable H A \<Longrightarrow> (\<And>x. x \<in> set xs \<Longrightarrow> hoare H A (body x) (\<lambda>_. A)) \<Longrightarrow> hoare H A (for_p body xs) (\<lambda>_. A)"
  by (induction xs) (auto intro: hoare_return hoare_then)

text \<open>A section under a mutex: the invariant of the mutex may be used and has to be restored.\<close>

lemma hoare_section:
  assumes "l \<notin> H" and "stable H A" and "\<And>v. stable H (B v)"
    and "hoare (insert l H) (\<lambda>s. A s \<and> J l s) p (\<lambda>v s. B v s \<and> J l s)"
  shows "hoare H A (Lock l (bind_p p (\<lambda>v. Unlock l (Return v)))) B"
  unfolding hoare_def
proof (intro allI impI)
  fix s assume "A s"
  have b: "stable (insert l H) (B v)" for v using assms(3) by (rule stable_less) auto
  have "safe G J R (bind_p p (\<lambda>v. Unlock l (Return v))) (insert l H) (\<lambda>v K t. K = H \<and> B v t) t"
    if "A t" "J l t" for t
  proof (rule safe_bind, rule safe_weaken)
    show "safe G J R p (insert l H) (\<lambda>v K t. K = insert l H \<and> B v t \<and> J l t) t"
      using assms(4) that by (simp add: hoare_def)
  next
    fix v K t assume "K = insert l H \<and> B v t \<and> J l t"
    then have k: "K = insert l H" "B v t" "J l t" by auto
    have "insert l H - {l} = H" using assms(1) by auto
    moreover have "J l u \<and> B v u" if "R (insert l H) t u" "G u" for u
      using that k(2,3) b [of v] stable_J [of l "insert l H"] unfolding stable_def by blast
    moreover have "B v w" if "B v u" "R H u w" "G w" for u w
      using that assms(3) [of v] unfolding stable_def by blast
    ultimately show "safe G J R (Unlock l (Return v)) K (\<lambda>v K t. K = H \<and> B v t) t"
      unfolding k(1) by (simp, blast)
  qed
  then show "safe G J R (Lock l (bind_p p (\<lambda>v. Unlock l (Return v)))) H (\<lambda>v K t. K = H \<and> B v t) s"
    using assms(2) \<open>A s\<close> by (auto simp: stable_def)
qed

text \<open>A section under several mutexes.\<close>

lemma safe_lock_all:
  "stable H A \<Longrightarrow> A s \<Longrightarrow> \<forall>l \<in> H'. J l s \<Longrightarrow> H' \<subseteq> H \<Longrightarrow>
     safe G J R (lock_all ls) H (\<lambda>_ K t. K = set ls \<union> H \<and> A t \<and> (\<forall>l \<in> set ls \<union> H'. J l t)) s"
proof (induction ls arbitrary: H H' s)
  case Nil
  then show ?case by (auto simp: stable_def intro: J_kept)
next
  case (Cons l ls)
  have "safe G J R (lock_all ls) (insert l H)
      (\<lambda>_ K t. K = set ls \<union> insert l H \<and> A t \<and> (\<forall>l \<in> set ls \<union> insert l H'. J l t)) t"
    if "R H s t" "G t" "J l t" for t
  proof (rule Cons.IH)
    show "stable (insert l H) A" using Cons.prems(1) by (rule stable_less) auto
    show "A t" using Cons.prems(1,2) that by (auto simp: stable_def)
    show "\<forall>l \<in> insert l H'. J l t" using Cons.prems(3,4) that by (auto intro: J_kept)
  qed (use Cons.prems(4) in auto)
  then show ?case by (auto elim!: safe_weaken)
qed

lemma safe_unlock_all:
  "distinct ls \<Longrightarrow> set ls \<inter> H = {} \<Longrightarrow> stable H B \<Longrightarrow> B s \<Longrightarrow> \<forall>l \<in> set ls. J l s \<Longrightarrow>
     safe G J R (unlock_all ls) (set ls \<union> H) (\<lambda>_ K t. K = H \<and> B t) s"
proof (induction ls arbitrary: s)
  case Nil
  then show ?case by (auto simp: stable_def)
next
  case (Cons l ls)
  have e: "set (l # ls) \<union> H - {l} = set ls \<union> H" using Cons.prems(1,2) by auto
  have st: "stable (set (l # ls) \<union> H) B" using Cons.prems(3) by (rule stable_less) auto
  have "J l t \<and> safe G J R (unlock_all ls) (set ls \<union> H) (\<lambda>_ K t. K = H \<and> B t) t"
    if "R (set (l # ls) \<union> H) s t" "G t" for t
  proof -
    have "\<forall>k \<in> set (l # ls). J k t" using Cons.prems(5) J_kept [OF _ _ that] by blast
    moreover have "B t" using st Cons.prems(4) that unfolding stable_def by blast
    ultimately show ?thesis using Cons.IH [of t] Cons.prems(1-3) by auto
  qed
  then show ?case unfolding e [symmetric] by (simp add: e [simplified])
qed

lemma hoare_batch:
  assumes "distinct ls" and "set ls \<inter> H = {}" and "stable H A" and "\<And>v. stable H (B v)"
    and "hoare (set ls \<union> H) (\<lambda>s. A s \<and> (\<forall>l \<in> set ls. J l s)) p (\<lambda>v s. B v s \<and> (\<forall>l \<in> set ls. J l s))"
  shows "hoare H A (then_p (lock_all ls) (bind_p p (\<lambda>v. then_p (unlock_all ls) (Return v)))) B"
  unfolding hoare_def then_p_def
proof (intro allI impI safe_bind)
  fix s assume "A s"
  show "safe G J R (lock_all ls) H (\<lambda>_ K. safe G J R (bind_p p (\<lambda>v. bind_p (unlock_all ls) (\<lambda>_. Return v))) K
      (\<lambda>v K t. K = H \<and> B v t)) s"
  proof (rule safe_weaken [OF safe_lock_all [OF assms(3) \<open>A s\<close>, of "{}"]])
    fix u K t assume "K = set ls \<union> H \<and> A t \<and> (\<forall>l \<in> set ls \<union> {}. J l t)"
    then have k: "K = set ls \<union> H" "A t" "\<forall>l \<in> set ls. J l t" by auto
    have "safe G J R p K (\<lambda>v K t. K = set ls \<union> H \<and> B v t \<and> (\<forall>l \<in> set ls. J l t)) t"
      using assms(5) k by (simp add: hoare_def)
    then have "safe G J R p K (\<lambda>v K. safe G J R (bind_p (unlock_all ls) (\<lambda>_. Return v)) K (\<lambda>v K t. K = H \<and> B v t)) t"
    proof (rule safe_weaken)
      fix v K t assume "K = set ls \<union> H \<and> B v t \<and> (\<forall>l \<in> set ls. J l t)"
      then have "safe G J R (unlock_all ls) K (\<lambda>_ K t. K = H \<and> B v t) t"
        using safe_unlock_all [OF assms(1,2) assms(4)] by blast
      then show "safe G J R (bind_p (unlock_all ls) (\<lambda>_. Return v)) K (\<lambda>v K t. K = H \<and> B v t) t"
        by (intro safe_bind) (erule safe_weaken, use assms(4) in \<open>auto simp: stable_def\<close>)
    qed
    then show "safe G J R (bind_p p (\<lambda>v. bind_p (unlock_all ls) (\<lambda>_. Return v))) K (\<lambda>v K t. K = H \<and> B v t) t"
      by (rule safe_bind)
  qed auto
qed

lemma hoare_safe: "hoare {} A p B \<Longrightarrow> A s \<Longrightarrow> safe G J R p {} (\<lambda>_ _ _. True) s"
  by (auto simp: hoare_def elim!: safe_weaken)

end

section \<open>Systems of safe calls\<close>

lemma reach_mono: "reach init step X \<Longrightarrow> (\<And>X. init X \<Longrightarrow> init' X) \<Longrightarrow> reach init' step X"
  by (induction rule: reach.induct) (auto intro: reach.intros)

text \<open>Calls that keep the locking discipline and are safe: all return, none panics.\<close>

locale safe_calls = locking_calls prog_of ok batch + rely G J R
  for prog_of :: "'e \<Rightarrow> ('s, 'l, unit) prog" and ok :: "'e \<Rightarrow> 's \<Rightarrow> bool" and batch :: "'e \<Rightarrow> bool"
    and G :: "'s \<Rightarrow> bool" and J :: "'l \<Rightarrow> 's \<Rightarrow> bool" and R :: "'l set \<Rightarrow> 's \<Rightarrow> 's \<Rightarrow> bool" +
  assumes call_safe: "ok e s \<Longrightarrow> G s \<Longrightarrow> safe G J R (prog_of e) {} (\<lambda>_ _ _. True) s"
begin

definition safe_init :: "('s, 'l) pool \<times> 'e list \<Rightarrow> bool" where
  "safe_init X \<longleftrightarrow> sys_init X \<and> safe_pool G J R (fst X)"

lemma reach_safe: "reach safe_init (sys_step prog_of ok batch) X \<Longrightarrow> safe_pool G J R (fst X)"
proof (induction rule: reach.induct)
  case (reach_step X Y)
  from reach_step(2) show ?case
  proof cases
    case (sys_go e P cs)
    with reach_step.IH call_safe [of e "p_state P"] safe_poolD(1) show ?thesis by (auto intro!: go_safe)
  next
    case (sys_run P P' cs)
    with reach_step.IH step_safe show ?thesis by (auto simp: pstep_def)
  qed
qed (simp add: safe_init_def)

lemma calls_return:
  assumes "reach safe_init (sys_step prog_of ok batch) (P, cs)"
  shows "tstep i P \<noteq> Some (Inl e)" and "\<exists>P'. pstep\<^sup>*\<^sup>* P P' \<and> all_returned P'"
proof -
  have s: "safe_pool G J R P" using reach_safe [OF assms] by simp
  then show "tstep i P \<noteq> Some (Inl e)" by (rule step_no_panic)
  have "safe_pool G J R P'" if "pstep\<^sup>*\<^sup>* P P'" for P'
    using that s by (induction rule: rtranclp_induct) (auto simp: pstep_def intro: step_safe)
  moreover have "reach sys_init (sys_step prog_of ok batch) (P, cs)"
    using assms by (rule reach_mono) (simp add: safe_init_def)
  ultimately show "\<exists>P'. pstep\<^sup>*\<^sup>* P P' \<and> all_returned P'" using all_return step_no_panic by blast
qed

end

end
