(* ===== verification/Dealer_Rely.thy ===== *)
theory Dealer_Rely
  imports Dealer_Threads Rely
begin

text \<open>
  What the goroutines of a dealer leave to each other. At every moment the maps and the started
  callbacks name constructed orders, and a living order is filed under its identifier. An order
  that is being amended has its detail while its operation lock is free. While a goroutine holds that
  lock the others leave the detail alone and do not make the order an amending one; the deferred
  cancellation, which takes no lock, may still change its status. From this every call is safe.
\<close>

section \<open>Invariants and interference\<close>

definition dealer_G :: "'d DealerImpl \<Rightarrow> bool" where
  "dealer_G d \<longleftrightarrow>
     (\<forall>i r. m_mm (d_LivingOrders d) i = Some r \<longrightarrow> r < d_next d \<and> o_id (d_heap d r) = i) \<and>
     (\<forall>i r. m_mm (d_UnrelatedOrders d) i = Some r \<longrightarrow> r < d_next d) \<and>
     (\<forall>r c. (r, c) \<in> set (d_spawned d) \<longrightarrow> r < d_next d)"

definition dealer_J :: "oref \<Rightarrow> 'd DealerImpl \<Rightarrow> bool" where
  "dealer_J r d \<longleftrightarrow>
     (r < d_next d \<and> o_status (d_heap d r) = OrderStatusAmending \<longrightarrow> o_amendingDetail (d_heap d r) \<noteq> None)"

text \<open>What others do to an order whose lock is held, and to the state as a whole.\<close>

definition kept :: "oref \<Rightarrow> 'd DealerImpl \<Rightarrow> 'd DealerImpl \<Rightarrow> bool" where
  "kept r d d' \<longleftrightarrow>
     (if r < d_next d
      then o_amendingDetail (d_heap d' r) = o_amendingDetail (d_heap d r) \<and>
        (o_status (d_heap d' r) = o_status (d_heap d r) \<or> o_status (d_heap d' r) \<noteq> OrderStatusAmending)
      else dealer_J r d')"

definition dealer_R :: "oref set \<Rightarrow> 'd DealerImpl \<Rightarrow> 'd DealerImpl \<Rightarrow> bool" where
  "dealer_R H d d' \<longleftrightarrow> d_next d \<le> d_next d' \<and>
     (\<forall>r < d_next d. o_id (d_heap d' r) = o_id (d_heap d r)) \<and> (\<forall>r \<in> H. kept r d d')"

lemma kept_trans: "kept r s t \<Longrightarrow> kept r t u \<Longrightarrow> d_next s \<le> d_next t \<Longrightarrow> d_next t \<le> d_next u \<Longrightarrow> kept r s u"
  by (auto simp: kept_def dealer_J_def split: if_splits)

interpretation dealer_rely: rely dealer_G dealer_J dealer_R
proof unfold_locales
  fix H :: "oref set" and s t u :: "'d DealerImpl" and K r
  show "dealer_R H s s" by (simp add: dealer_R_def kept_def dealer_J_def)
  show "dealer_R H s t \<Longrightarrow> dealer_R H t u \<Longrightarrow> dealer_R H s u"
    by (auto simp: dealer_R_def intro: kept_trans dest: order.strict_trans2)
  show "dealer_R H s t \<Longrightarrow> K \<subseteq> H \<Longrightarrow> dealer_R K s t" by (auto simp: dealer_R_def)
  show "r \<in> H \<Longrightarrow> dealer_J r s \<Longrightarrow> dealer_R H s t \<Longrightarrow> dealer_G t \<Longrightarrow> dealer_J r t"
    by (auto simp: dealer_R_def dealer_J_def kept_def split: if_splits)
qed

section \<open>Accesses the others do not notice\<close>

abbreviation mild where "mild \<equiv> dealer_rely.mild"
abbreviation stable where "stable \<equiv> dealer_rely.stable"
abbreviation hoare where "hoare \<equiv> dealer_rely.hoare"

text \<open>A change of one order that leaves its identifier and its detail and does not make it amending.\<close>

definition plain :: "('d Order \<Rightarrow> 'd Order) \<Rightarrow> bool" where
  "plain f \<longleftrightarrow> (\<forall>x. o_id (f x) = o_id x \<and> o_amendingDetail (f x) = o_amendingDetail x \<and>
     (o_status (f x) = o_status x \<or> o_status (f x) \<noteq> OrderStatusAmending))"

lemma mild_intro:
  assumes "\<And>d. A d \<Longrightarrow> dealer_G d \<Longrightarrow> dealer_G (f d) \<and> d_next d \<le> d_next (f d) \<and>
    (\<forall>r < d_next d. o_id (d_heap (f d) r) = o_id (d_heap d r)) \<and> (\<forall>r. kept r d (f d))"
  shows "mild A f"
proof -
  have "dealer_J l (f d)" if "dealer_J l d" "kept l d (f d)" for l d
    using that by (auto simp: dealer_J_def kept_def split: if_splits)
  with assms show ?thesis by (auto simp: dealer_rely.mild_def dealer_R_def)
qed

lemma mild_on [simp]: "plain f \<Longrightarrow> mild A (on r f)"
  by (rule mild_intro) (auto simp: plain_def on_def dealer_G_def kept_def dealer_J_def)

lemma plain_simps [simp]:
  "s \<noteq> OrderStatusAmending \<Longrightarrow> plain (setStatus s)" "plain (setOrderDoneReason x1)" "plain (setFilledAt x2)"
  "plain (setAvgPrice x3)" "plain (setExecQty x4)" "plain (setFee x5)" "plain (setSentTimestamp x6)"
  "plain (setConfirmTimestamps x7 x8)" "plain (setPublicID x9)" "plain (recordLastOperatedTimestamp y1)"
  "plain (SetCreateCallback y2)" "plain (SetAmendCallback y3)" "plain (ReplaceCreateCallbacks y4)"
  "plain (ReplaceAmendCallbacks y5)"
  by (simp_all add: plain_def go_simps setOrderDoneReason_def setFilledAt_def setAvgPrice_def setExecQty_def setFee_def
      setSentTimestamp_def setConfirmTimestamps_def recordLastOperatedTimestamp_def SetCreateCallback_def
      SetAmendCallback_def ReplaceCreateCallbacks_def ReplaceAmendCallbacks_def)

lemma plain_price [simp]: "plain (\<lambda>o1. o1\<lparr>o_price := p, o_qty := q\<rparr>)"
  by (simp add: plain_def)

lemma plain_register [simp]: "plain (register g)"
  by (cases g) (simp_all add: plain_def SetCreateCallback_def SetAmendCallback_def SetCreateRejectCallback_def
      SetCancelCallback_def SetCancelRejectCallback_def SetAmendRejectCallback_def
      SetAmendRejectOrderNotExistCallback_def SetFillCallback_def SetPartiallyFillCallback_def go_simps)

text \<open>Changes of the state outside the orders.\<close>

lemma mild_spawn: "(\<And>d. A d \<Longrightarrow> r < d_next d) \<Longrightarrow> mild A (\<lambda>d. spawn r (cbs d) d)"
  by (rule mild_intro) (auto simp: spawn_def dealer_G_def kept_def dealer_J_def)

lemma mild_callbacks [simp]:
  assumes "\<And>d. A d \<Longrightarrow> r < d_next d"
  shows "mild A (execCreateCallbacks r)" "mild A (execAmendCallbacks r)" "mild A (execFillCallbacks r)"
    "mild A (execPartiallyFillCallbacks r)" "mild A (execCancelCallbacks r)" "mild A (execCreateRejectCallbacks r)"
    "mild A (execAmendRejectCallbacks r)" "mild A (execAmendRejectOrderNotExistCallbacks r)"
    "mild A (execCancelRejectCallbacks r)"
  using mild_spawn [OF assms]
  by (simp_all add: execCreateCallbacks_def [abs_def] execAmendCallbacks_def [abs_def] execFillCallbacks_def [abs_def]
      execPartiallyFillCallbacks_def [abs_def] execCancelCallbacks_def [abs_def] execCreateRejectCallbacks_def [abs_def]
      execAmendRejectCallbacks_def [abs_def] execAmendRejectOrderNotExistCallbacks_def [abs_def]
      execCancelRejectCallbacks_def [abs_def])

lemma mild_fields [simp]:
  "mild A (Living_Delete r)" "mild A (done_Append r)" "mild A (request q)" "mild A (SetPosUpdatedHandler h)"
  "mild A (\<lambda>d. d\<lparr>d_onError := f1 d\<rparr>)" "mild A (\<lambda>d. d\<lparr>d_acceptOrder := f2 d\<rparr>)"
  "mild A (\<lambda>d. d\<lparr>d_UnrelatedOrders := Map_Delete (d_UnrelatedOrders d) i\<rparr>)"
  "mild A (\<lambda>d. d\<lparr>d_CurrentPosition := f3 d\<rparr>)" "mild A (\<lambda>d. d\<lparr>d_posCalls := f4 d\<rparr>)"
  "mild A (\<lambda>d. d\<lparr>d_amendingDetailMap := f5 d\<rparr>)" "mild A (\<lambda>d. d\<lparr>d_doneOrders := f6 d\<rparr>)"
  by (rule mild_intro; force simp: Living_Delete_def done_Append_def request_def SetPosUpdatedHandler_def
      Map_Delete_def dealer_G_def kept_def dealer_J_def)+

lemma mild_Living_Set [simp]:
  "(\<And>d. A d \<Longrightarrow> r < d_next d) \<Longrightarrow> mild A (\<lambda>d. d\<lparr>d_LivingOrders := Map_Set (d_LivingOrders d) (GetID (ord d r)) r\<rparr>)"
  by (rule mild_intro) (auto simp: Map_Set_def dealer_G_def kept_def dealer_J_def ord_def go_simps)

lemma mild_alloc:
  "o_status o1 \<noteq> OrderStatusAmending \<Longrightarrow> mild A (alloc o1)"
  by (rule mild_intro) (force simp: alloc_def dealer_G_def kept_def dealer_J_def)

section \<open>Assertions that survive\<close>

lemma stable_here [simp]: "stable H (\<lambda>d. r < d_next d)" "stable H (\<lambda>d. \<forall>r \<in> set rs. r < d_next d)"
  by (auto simp: dealer_rely.stable_def dealer_R_def)

text \<open>Constructed orders with identifiers in \<open>I\<close>.\<close>

definition filed :: "string set \<Rightarrow> oref set \<Rightarrow> 'd DealerImpl \<Rightarrow> bool" where
  "filed I X d \<longleftrightarrow> (\<forall>r \<in> X. r < d_next d \<and> o_id (d_heap d r) \<in> I)"

lemma filed_insert: "filed I (insert r X) d \<longleftrightarrow> filed I {r} d \<and> filed I X d"
  by (auto simp: filed_def)

lemma stable_filed [simp]: "stable H (filed I X)"
  by (auto simp: dealer_rely.stable_def dealer_R_def filed_def)

lemma stable_own:
  "r \<in> H \<Longrightarrow> stable H (\<lambda>d. r < d_next d \<and> o_status (d_heap d r) \<noteq> OrderStatusAmending)"
  "r \<in> H \<Longrightarrow> stable H (\<lambda>d. r < d_next d \<and> o_amendingDetail (d_heap d r) \<noteq> None)"
  by (force simp: dealer_rely.stable_def dealer_R_def kept_def split: if_splits)+

section \<open>Programs that leave every assertion alone\<close>

text \<open>\<open>quiet r p\<close>: with the order \<open>r\<close> constructed, the program keeps every stable assertion.\<close>

definition quiet :: "oref list \<Rightarrow> ('d, 'v) dprog \<Rightarrow> bool" where
  "quiet rs p \<longleftrightarrow> (\<forall>H A. stable H A \<and> (\<forall>d. A d \<longrightarrow> (\<forall>r \<in> set rs. r < d_next d)) \<longrightarrow> hoare H A p (\<lambda>_. A))"

lemma quietD:
  "quiet rs p \<Longrightarrow> stable H A \<Longrightarrow> (\<And>d r. A d \<Longrightarrow> r \<in> set rs \<Longrightarrow> r < d_next d) \<Longrightarrow> hoare H A p (\<lambda>_. A)"
  by (auto simp: quiet_def)

lemma quiet_bind [intro!]: "quiet rs p \<Longrightarrow> (\<And>v. quiet rs (g v)) \<Longrightarrow> quiet rs (bind_p p g)"
  unfolding quiet_def by (blast intro: dealer_rely.hoare_bind)

lemma quiet_then [intro!]: "quiet rs p \<Longrightarrow> quiet rs q \<Longrightarrow> quiet rs (then_p p q)"
  unfolding then_p_def by (rule quiet_bind)

lemma quiet_simps [simp, intro!]: "quiet rs (Return v)" "quiet rs (read_p g)"
  by (auto simp: quiet_def intro: dealer_rely.hoare_return dealer_rely.hoare_read)

lemma quiet_acts [simp]:
  "(\<And>A f. (\<And>d r. A d \<Longrightarrow> r \<in> set rs \<Longrightarrow> r < d_next d) \<Longrightarrow> f \<in> set fs \<Longrightarrow> mild A f) \<Longrightarrow> quiet rs (acts fs)"
  by (auto simp: quiet_def list_all_iff intro!: dealer_rely.hoare_acts)

lemma quiet_upd:
  "(\<And>A. (\<And>d r. A d \<Longrightarrow> r \<in> set rs \<Longrightarrow> r < d_next d) \<Longrightarrow> mild A f) \<Longrightarrow> quiet rs (upd_p f)"
  by (auto simp: quiet_def intro!: dealer_rely.hoare_mild)

lemma quiet_for: "(\<And>x. x \<in> set xs \<Longrightarrow> quiet rs (body x)) \<Longrightarrow> quiet rs (for_p body xs)"
  by (auto simp: quiet_def intro!: dealer_rely.hoare_for)

lemma quiet_more: "quiet rs p \<Longrightarrow> set rs \<subseteq> set qs \<Longrightarrow> quiet qs p"
  unfolding quiet_def by blast

lemma quiet_orders:
  "quiet [r] (setSent_t r)" "quiet [r] (acceptFilled_t r)" "quiet [r] (acceptPartiallyFilled_t r)"
  "quiet [r] (acceptCreate_t r p a c)" "quiet [r] (acceptCancel_t r)" "quiet [r] (rejectCreate_t r)"
  "quiet [r] (rejectCancel_t r)" "quiet [r] (setOrderFillInfo_t r data)" "quiet [r] (setOrderPartiallyFillInfo_t r data)"
  "quiet [r] (enterSending_t now r)" "quiet [r] (enterCanceling_t now r)" "quiet [r] (deferCancel_t s r)"
  by (auto simp: setSent_t_def acceptFilled_t_def acceptPartiallyFilled_t_def acceptCreate_t_def acceptCancel_t_def
      rejectCreate_t_def rejectCancel_t_def setOrderFillInfo_t_def setOrderPartiallyFillInfo_t_def enterSending_t_def
      enterCanceling_t_def deferCancel_t_def Let_def intro!: quiet_upd quiet_acts split: OrderStatus.split)

lemma quiet_abandon: "quiet [r] (abandonOrder_t r)"
  by (auto simp: abandonOrder_t_def intro!: quiet_acts quiet_upd quiet_orders)

lemma quiet_notice: "quiet rs (noticeError_t e)"
  by (auto simp: noticeError_t_def intro!: quiet_upd quiet_acts)

lemma quiet_cancelOrder: "quiet [r] (cancelOrder_t ag now r)" "quiet [r] (runDeferredCancel_t ag now r)"
  by (auto simp: cancelOrder_t_def runDeferredCancel_t_def intro!: quiet_acts quiet_upd quiet_orders split: option.split)

section \<open>Sections\<close>

text \<open>A quiet section, and one that may touch the detail of its order.\<close>

lemma stable_section:
  "stable {} A \<Longrightarrow> stable {r} (\<lambda>d. A d \<and> dealer_J r d)"
  by (intro dealer_rely.stable_conj dealer_rely.stable_J) (auto intro: dealer_rely.stable_less)

lemma quiet_section:
  assumes "stable {} A" and "\<And>d. A d \<Longrightarrow> r < d_next d" and "quiet [r] p"
  shows "hoare {} A (WithOpLock r p) (\<lambda>_. A)"
  unfolding WithOpLock_def
  by (rule dealer_rely.hoare_section) (use assms in \<open>auto intro: quietD [OF assms(3) stable_section]\<close>)

lemma hoare_own:
  assumes "stable {} A" and "stable H X" and "stable H Y"
    and "\<And>d. A d \<Longrightarrow> X d \<Longrightarrow> dealer_G d \<Longrightarrow>
      dealer_G (f d) \<and> grants dealer_J dealer_R H d (f d) \<and> Y (f d)"
  shows "hoare H (\<lambda>d. A d \<and> X d) (upd_p f) (\<lambda>_ d. A d \<and> Y d)"
proof (rule dealer_rely.hoare_upd)
  have s: "stable H A" using assms(1) by (rule dealer_rely.stable_less) simp
  then show "stable H (\<lambda>d. A d \<and> X d)" "stable H (\<lambda>d. A d \<and> Y d)"
    using assms(2,3) by (simp_all add: dealer_rely.stable_conj)
  fix d assume "A d \<and> X d" and g: "dealer_G d"
  then have "dealer_G (f d) \<and> grants dealer_J dealer_R H d (f d) \<and> Y (f d)" "A d" using assms(4) by auto
  then have "dealer_R {} d (f d)" "dealer_G (f d)" "grants dealer_J dealer_R H d (f d)" "Y (f d)" "A d"
    by (auto simp: grants_def)
  with assms(1) show "dealer_G (f d) \<and> grants dealer_J dealer_R H d (f d) \<and> A (f d) \<and> Y (f d)"
    by (auto simp: dealer_rely.stable_def)
qed

text \<open>The fields of an order whose lock is held may be changed at will, except its identifier.\<close>

lemma own_grants:
  assumes "r \<in> H" and "\<And>x. o_id (f x) = o_id x" and "dealer_G d"
  shows "dealer_G (on r f d)" "grants dealer_J dealer_R H d (on r f d)"
  using assms by (auto simp: grants_def dealer_R_def kept_def dealer_J_def dealer_G_def on_def)

lemma own_change:
  assumes "stable {} A" and "\<And>x. o_id (f x) = o_id x" and "stable {r} X" and "stable {r} Y"
    and "\<And>d. A d \<Longrightarrow> X d \<Longrightarrow> Y (on r f d)"
  shows "hoare {r} (\<lambda>d. A d \<and> X d) (upd_p (on r f)) (\<lambda>_ d. A d \<and> Y d)"
  using assms own_grants [of r "{r}" f] by (intro hoare_own) auto

section \<open>Programs that start without a lock\<close>

definition fine :: "oref list \<Rightarrow> ('d, 'v) dprog \<Rightarrow> bool" where
  "fine rs p \<longleftrightarrow> (\<forall>A. stable {} A \<and> (\<forall>d. A d \<longrightarrow> (\<forall>r \<in> set rs. r < d_next d)) \<longrightarrow> hoare {} A p (\<lambda>_. A))"

lemma fineD:
  "fine rs p \<Longrightarrow> stable {} A \<Longrightarrow> (\<And>d r. A d \<Longrightarrow> r \<in> set rs \<Longrightarrow> r < d_next d) \<Longrightarrow> hoare {} A p (\<lambda>_. A)"
  by (auto simp: fine_def)

lemma quiet_fine: "quiet rs p \<Longrightarrow> fine rs p"
  by (simp add: quiet_def fine_def)

lemma fine_more: "fine rs p \<Longrightarrow> set rs \<subseteq> set qs \<Longrightarrow> fine qs p"
  unfolding fine_def by blast

lemma fine_bind [intro!]: "fine rs p \<Longrightarrow> (\<And>v. fine rs (g v)) \<Longrightarrow> fine rs (bind_p p g)"
  unfolding fine_def by (blast intro: dealer_rely.hoare_bind)

lemma fine_then [intro!]: "fine rs p \<Longrightarrow> fine rs q \<Longrightarrow> fine rs (then_p p q)"
  unfolding then_p_def by (rule fine_bind)

lemma fine_simps [simp, intro!]: "fine rs (Return v)" "fine rs (read_p g)"
  by (simp_all add: quiet_fine)

lemma fine_for: "(\<And>x. x \<in> set xs \<Longrightarrow> fine rs (body x)) \<Longrightarrow> fine rs (for_p body xs)"
  by (auto simp: fine_def intro!: dealer_rely.hoare_for)

lemma fine_if: "fine rs p \<Longrightarrow> fine rs q \<Longrightarrow> fine rs (if c then p else q)"
  by simp

lemma fine_upd:
  "(\<And>A. (\<And>d r. A d \<Longrightarrow> r \<in> set rs \<Longrightarrow> r < d_next d) \<Longrightarrow> mild A f) \<Longrightarrow> fine rs (upd_p f)"
  by (intro quiet_fine quiet_upd) blast

lemma fine_section: "quiet [r] p \<Longrightarrow> r \<in> set rs \<Longrightarrow> fine rs (WithOpLock r p)"
  by (auto simp: fine_def intro: quiet_section)

text \<open>A section under the lock of \<open>r\<close>: it keeps what does not concern the order, and restores its invariant.\<close>

definition own :: "oref \<Rightarrow> ('d, 'v) dprog \<Rightarrow> bool" where
  "own r p \<longleftrightarrow> (\<forall>A. stable {} A \<and> (\<forall>d. A d \<longrightarrow> r < d_next d) \<longrightarrow>
     hoare {r} (\<lambda>d. A d \<and> dealer_J r d) p (\<lambda>_ d. A d \<and> dealer_J r d))"

lemma own_bind [intro!]: "own r p \<Longrightarrow> (\<And>v. own r (g v)) \<Longrightarrow> own r (bind_p p g)"
  unfolding own_def by (blast intro: dealer_rely.hoare_bind)

lemma own_then: "own r p \<Longrightarrow> own r q \<Longrightarrow> own r (then_p p q)"
  unfolding then_p_def by (rule own_bind)

lemma quiet_own: "quiet [r] p \<Longrightarrow> own r p"
  by (auto simp: own_def intro!: quietD [OF _ stable_section])

lemma own_simps [simp, intro!]: "own r (Return v)" "own r (read_p g)"
  by (simp_all add: quiet_own)

lemma fine_own: "own r p \<Longrightarrow> r \<in> set rs \<Longrightarrow> fine rs (WithOpLock r p)"
  unfolding fine_def WithOpLock_def own_def by (auto intro!: dealer_rely.hoare_section)

text \<open>What a look-up finds is a constructed order.\<close>

lemma fine_found:
  assumes "fine rs (g None)" and "\<And>r. fine (r # rs) (g (Some r))"
    and "\<And>d r. dealer_G d \<Longrightarrow> f d = Some r \<Longrightarrow> r < d_next d"
  shows "fine rs (bind_p (read_p f) g)"
  unfolding fine_def
proof (intro allI impI, elim conjE)
  fix A :: "'a DealerImpl \<Rightarrow> bool"
  assume A: "stable {} A" "\<forall>d. A d \<longrightarrow> (\<forall>r \<in> set rs. r < d_next d)"
  let ?B = "\<lambda>ro d. A d \<and> (case ro of Some r \<Rightarrow> r < d_next d | None \<Rightarrow> True)"
  have st: "stable {} (?B ro)" for ro using A(1) by (cases ro) (auto intro: dealer_rely.stable_conj)
  show "hoare {} A (bind_p (read_p f) g) (\<lambda>_. A)"
  proof (rule dealer_rely.hoare_bind [where B = ?B])
    show "hoare {} A (read_p f) ?B"
      using A(1) st assms(3) by (intro dealer_rely.hoare_read) (auto split: option.split)
    fix ro
    show "hoare {} (?B ro) (g ro) (\<lambda>_. A)"
    proof (cases ro)
      case None
      then show ?thesis using fineD [OF assms(1) A(1)] A(2) by simp
    next
      case (Some r)
      have "hoare {} (?B ro) (g ro) (\<lambda>_. ?B ro)"
        unfolding Some by (rule fineD [OF assms(2)]) (use st [of ro] A(2) Some in auto)
      then show ?thesis by (rule dealer_rely.hoare_weaken) auto
    qed
  qed
qed

lemma fine_lookup:
  assumes "fine rs (g None)" and "\<And>r. fine (r # rs) (g (Some r))"
  shows "fine rs (bind_p (lookup_t st i) g)"
proof -
  have e: "bind_p (lookup_t st i) g = bind_p (read_p (\<lambda>d. Map_Get (d_LivingOrders d) i)) (\<lambda>ro.
      case ro of None \<Rightarrow> g None
      | Some r \<Rightarrow> bind_p (read_p (\<lambda>d. GetStatus (ord d r))) (\<lambda>s. g (if s = st then Some r else None)))"
    by (simp add: lookup_t_def bind_p_assoc read_p_def fun_eq_iff split: option.split)
  have "fine (r # rs) (g None)" for r using assms(1) by (rule fine_more) auto
  with assms show ?thesis unfolding e by (intro fine_found) (auto simp: Map_Get_def dealer_G_def)
qed

section \<open>Amendments\<close>

lemma then_p_then: "then_p (then_p p q) t = then_p p (then_p q t)"
  by (simp add: then_p_def bind_p_assoc)

text \<open>An amendment is over: the order is pending before its detail goes.\<close>

lemma own_amend_over:
  assumes "quiet [r] q"
  shows "own r (then_p (upd_p (on r (setStatus OrderStatusPending))) (then_p (upd_p (on r (setAmendingDetail None))) q))"
  unfolding own_def
proof (intro allI impI, elim conjE)
  fix A :: "'a DealerImpl \<Rightarrow> bool" assume A: "stable {} A" "\<forall>d. A d \<longrightarrow> r < d_next d"
  let ?Y = "\<lambda>d. r < d_next d \<and> o_status (d_heap d r) \<noteq> OrderStatusAmending"
  have y: "stable {r} ?Y" "stable {r} (dealer_J r)" "stable {r} A"
    using stable_own(1) [of r "{r}"] dealer_rely.stable_J [of r "{r}"] dealer_rely.stable_less [OF A(1), of "{r}"] by auto
  have "hoare {r} (\<lambda>d. A d \<and> dealer_J r d) (upd_p (on r (setStatus OrderStatusPending))) (\<lambda>_ d. A d \<and> ?Y d)"
    by (rule own_change) (use A y in \<open>auto simp: on_def go_simps\<close>)
  moreover have "hoare {r} (\<lambda>d. A d \<and> ?Y d) (upd_p (on r (setAmendingDetail None))) (\<lambda>_ d. A d \<and> ?Y d)"
    by (rule own_change) (use A y in \<open>auto simp: on_def go_simps\<close>)
  moreover have "hoare {r} (\<lambda>d. A d \<and> ?Y d) q (\<lambda>_ d. A d \<and> dealer_J r d)"
    by (rule dealer_rely.hoare_weaken [OF quietD [OF assms dealer_rely.stable_conj [OF y(3,1)]]])
      (auto simp: dealer_J_def)
  ultimately show "hoare {r} (\<lambda>d. A d \<and> dealer_J r d)
      (then_p (upd_p (on r (setStatus OrderStatusPending))) (then_p (upd_p (on r (setAmendingDetail None))) q))
      (\<lambda>_ d. A d \<and> dealer_J r d)" by (blast intro: dealer_rely.hoare_then)
qed

lemma own_rejectAmend: "own r (rejectAmend_t r)"
  unfolding rejectAmend_t_def acts.simps(2) by (auto intro!: own_amend_over quiet_upd)

lemma amend_Some:
  "try_p (\<lambda>d. bind_r (amend (Some ad) (ord d r)) (\<lambda>o1. Inr (on r (\<lambda>_. o1) d))) =
     upd_p (on r (\<lambda>o1. o1\<lparr>o_price := ad_Price ad, o_qty := ad_Qty ad\<rparr>))"
  by (simp add: try_p_def upd_p_def amend_def on_def ord_def)

lemma own_acceptAmend: "own r (acceptAmend_t r (Some ad) a c)"
proof -
  have "quiet [r] (then_p (upd_p (on r (\<lambda>o1. o1\<lparr>o_price := ad_Price ad, o_qty := ad_Qty ad\<rparr>)))
      (then_p (setSent_t r) (acts [on r (setConfirmTimestamps a c), execAmendCallbacks r])))"
    by (auto intro!: quiet_upd quiet_acts quiet_orders)
  moreover have "acceptAmend_t r (Some ad) a c =
      then_p (upd_p (on r (setStatus OrderStatusPending))) (then_p (upd_p (on r (setAmendingDetail None)))
        (then_p (upd_p (on r (\<lambda>o1. o1\<lparr>o_price := ad_Price ad, o_qty := ad_Qty ad\<rparr>)))
          (then_p (setSent_t r) (acts [on r (setConfirmTimestamps a c), execAmendCallbacks r]))))"
    unfolding acceptAmend_t_def amend_Some by (simp add: then_p_def bind_p_assoc)
  ultimately show ?thesis by (auto intro!: own_amend_over)
qed

text \<open>An amendment begins: the detail follows the status at once, under the lock.\<close>

lemma own_amend_begins:
  assumes "quiet [r] q"
  shows "own r (then_p (upd_p (on r (setStatus OrderStatusAmending))) (then_p (upd_p (on r (setAmendingDetail (Some ad)))) q))"
  unfolding own_def
proof (intro allI impI, elim conjE)
  fix A :: "'a DealerImpl \<Rightarrow> bool" assume A: "stable {} A" "\<forall>d. A d \<longrightarrow> r < d_next d"
  let ?Y = "\<lambda>d. r < d_next d \<and> o_amendingDetail (d_heap d r) \<noteq> None"
  have y: "stable {r} ?Y" "stable {r} (dealer_J r)" "stable {r} A" "stable {r} (\<lambda>d. r < d_next d)"
    using stable_own(2) [of r "{r}"] dealer_rely.stable_J [of r "{r}"] dealer_rely.stable_less [OF A(1), of "{r}"] by auto
  have "hoare {r} (\<lambda>d. A d \<and> dealer_J r d) (upd_p (on r (setStatus OrderStatusAmending))) (\<lambda>_ d. A d \<and> r < d_next d)"
    by (rule own_change) (use A y in \<open>auto simp: on_def go_simps\<close>)
  moreover have "hoare {r} (\<lambda>d. A d \<and> r < d_next d) (upd_p (on r (setAmendingDetail (Some ad)))) (\<lambda>_ d. A d \<and> ?Y d)"
    by (rule own_change) (use A y in \<open>auto simp: on_def go_simps\<close>)
  moreover have "hoare {r} (\<lambda>d. A d \<and> ?Y d) q (\<lambda>_ d. A d \<and> dealer_J r d)"
    by (rule dealer_rely.hoare_weaken [OF quietD [OF assms dealer_rely.stable_conj [OF y(3,1)]]])
      (auto simp: dealer_J_def)
  ultimately show "hoare {r} (\<lambda>d. A d \<and> dealer_J r d)
      (then_p (upd_p (on r (setStatus OrderStatusAmending))) (then_p (upd_p (on r (setAmendingDetail (Some ad)))) q))
      (\<lambda>_ d. A d \<and> dealer_J r d)" by (blast intro: dealer_rely.hoare_then)
qed

lemma own_need: "own r (eval_p (\<lambda>d. isNeedToAmend detail (ord d r)))"
proof -
  have "\<exists>v. isNeedToAmend detail (ord d r) = Inr v" if "r < d_next d" "dealer_J r d" for d
    using that by (auto simp: dealer_J_def isNeedToAmend_def ord_def Let_def split: OrderStatus.split)
  then show ?thesis by (auto simp: own_def intro!: dealer_rely.hoare_eval stable_section)
qed

lemma fine_amendOrder: "r \<in> set rs \<Longrightarrow> fine rs (amendOrder_t ag now r detail)"
  unfolding amendOrder_t_def acts.simps(2) then_p_then
  by (auto intro!: fine_upd fine_own own_need own_amend_begins quiet_upd own_rejectAmend split: option.split)

lemma fine_AmendOrder: "r \<in> set rs \<Longrightarrow> fine rs (AmendOrder_t ag now r detail)"
  unfolding AmendOrder_t_def
  by (auto simp: deferAmend_t_def intro!: fine_section quiet_upd fine_amendOrder split: OrderStatus.split)

lemma fine_runDeferredAmend: "r \<in> set rs \<Longrightarrow> fine rs (runDeferredAmend_t ag now r detail)"
  unfolding runDeferredAmend_t_def by (auto intro!: fine_upd fine_amendOrder)

section \<open>The other operations\<close>

lemma fine_sends:
  "r \<in> set rs \<Longrightarrow> fine rs (SendOrder_t ag now r)"
  "set os \<subseteq> set rs \<Longrightarrow> fine rs (SendOrders_t ag now os)"
proof -
  have l: "fine rs (any_living_t os)" for os by (induction os) auto
  show "r \<in> set rs \<Longrightarrow> fine rs (SendOrder_t ag now r)"
    unfolding SendOrder_t_def by (auto intro!: fine_section quiet_orders quiet_upd split: option.split)
  show "set os \<subseteq> set rs \<Longrightarrow> fine rs (SendOrders_t ag now os)"
    unfolding SendOrders_t_def rejectCreates_t_def subset_iff
    by (auto intro!: l fine_for fine_section fine_upd quiet_orders split: option.split)
qed

lemma fine_CancelOrder: "r \<in> set rs \<Longrightarrow> fine rs (CancelOrder_t ag now r)"
  unfolding CancelOrder_t_def by (auto intro!: fine_section quiet_orders quiet_cancelOrder)

lemma fine_callback: "r \<in> set rs \<Longrightarrow> fine rs (runCallback_t ag now (r, c))"
  by (cases c) (auto simp: runCallback_t_def intro: fine_runDeferredAmend quiet_fine [OF quiet_more [OF quiet_cancelOrder(2)]])

subsection \<open>Responses\<close>

lemma fine_SendResp: "fine rs (handleSendOrderResp_t resp err)"
  unfolding handleSendOrderResp_t_def
  by (rule fine_lookup) (auto intro!: fine_section quiet_orders quiet_notice split: option.split OrderType.split)

lemma fine_CancelResp: "fine rs (handleCancelOrderResp_t resp err)"
  unfolding handleCancelOrderResp_t_def cancelAnswer_t_def
  by (rule fine_lookup) (auto intro!: fine_section quiet_orders quiet_notice quiet_abandon split: option.split)

lemma fine_AmendResp:
  assumes "err = None \<Longrightarrow> ar_Err resp = None \<Longrightarrow> ar_Detail resp \<noteq> None"
  shows "fine rs (handleAmendOrderResp_t resp err)"
  unfolding handleAmendOrderResp_t_def
proof (rule fine_lookup)
  fix r
  have "own r (then_p (rejectAmend_t r) (noticeError_t e))" for e
    by (intro own_then own_rejectAmend quiet_own quiet_notice)
  moreover have "own r (abandonOrder_t r)" by (intro quiet_own quiet_abandon)
  ultimately show "fine (r # rs) (case Some r of None \<Rightarrow> Return () | Some r \<Rightarrow> WithOpLock r
     (case err of
        Some e \<Rightarrow> if errors_Is e OrderIsNotExists then abandonOrder_t r else then_p (rejectAmend_t r) (noticeError_t e)
      | None \<Rightarrow> (case ar_Err resp of
          Some e \<Rightarrow> if errors_Is e OrderIsNotExists then abandonOrder_t r else then_p (rejectAmend_t r) (noticeError_t e)
        | None \<Rightarrow> acceptAmend_t r (ar_Detail resp) (ar_ArrivedAt resp) (ar_ConfirmedAt resp))))"
    using assms by (auto intro!: fine_own own_acceptAmend split: option.split)
qed simp

text \<open>The orders of a batch response are filed under identifiers of the batch.\<close>

lemma hoare_keep_status:
  "stable {} A \<Longrightarrow> hoare {} (\<lambda>d. A d \<and> filed I (Option.these (set ros)) d) (keep_status_t st ros)
     (\<lambda>rs d. A d \<and> filed I (set rs) d)"
proof (induction ros arbitrary: A)
  case Nil
  then show ?case by (auto intro!: dealer_rely.hoare_return dealer_rely.stable_conj simp: filed_def)
next
  case (Cons ro ros)
  show ?case
  proof (cases ro)
    case None
    then show ?thesis using Cons.IH [OF Cons.prems] by simp
  next
    case (Some r)
    let ?A = "\<lambda>d. A d \<and> filed I {r} d"
    have A: "stable {} ?A" "stable {} (\<lambda>d. ?A d \<and> filed I X d)" for X
      using Cons.prems by (intro dealer_rely.stable_conj; simp)+
    have "hoare {} (\<lambda>d. ?A d \<and> filed I (Option.these (set ros)) d)
        (bind_p (read_p (\<lambda>d. GetStatus (ord d r))) (\<lambda>s.
          bind_p (keep_status_t st ros) (\<lambda>rs. Return (if s = st then r # rs else rs))))
        (\<lambda>rs d. A d \<and> filed I (set rs) d)"
    proof (intro dealer_rely.hoare_bind)
      show "hoare {} (\<lambda>d. ?A d \<and> filed I (Option.these (set ros)) d) (read_p (\<lambda>d. GetStatus (ord d r)))
          (\<lambda>_ d. ?A d \<and> filed I (Option.these (set ros)) d)"
        using A(2) by (intro dealer_rely.hoare_read) auto
      show "hoare {} (\<lambda>d. ?A d \<and> filed I (Option.these (set ros)) d) (keep_status_t st ros)
          (\<lambda>rs d. ?A d \<and> filed I (set rs) d)" by (rule Cons.IH [OF A(1)])
      show "hoare {} (\<lambda>d. ?A d \<and> filed I (set rs) d) (Return (if s = st then r # rs else rs))
          (\<lambda>rs d. A d \<and> filed I (set rs) d)" for rs s
        using A(2) by (intro dealer_rely.hoare_return) (auto simp: filed_def)
    qed
    then show ?thesis by (simp add: Some filed_insert [of I r "Option.these (set ros)"] conj_assoc)
  qed
qed

lemma fine_batch:
  fixes body :: "string \<Rightarrow> ('d, unit) dprog" and err :: "error option"
  assumes "\<And>i. err = None \<Longrightarrow> i \<in> set ids \<Longrightarrow> fine rs (body i)"
    and "\<And>qs e. fine (qs @ rs) (alt e qs)"
  shows "fine rs (bind_p (lookups_t st ids) (\<lambda>qs. case err of
      Some e \<Rightarrow> alt e qs
    | None \<Rightarrow> for_p (\<lambda>r. bind_p (read_p (\<lambda>d. GetID (ord d r))) body) qs))"
  unfolding fine_def
proof (intro allI impI, elim conjE)
  fix A :: "'d DealerImpl \<Rightarrow> bool"
  assume A: "stable {} A" "\<forall>d. A d \<longrightarrow> (\<forall>r \<in> set rs. r < d_next d)"
  have st: "stable {} (\<lambda>d. A d \<and> filed I X d)" for I X
    using A(1) by (intro dealer_rely.stable_conj) simp_all
  have "hoare {} A (lookups_t st ids) (\<lambda>qs d. A d \<and> filed (set ids) (set qs) d)"
    unfolding lookups_t_def
  proof (rule dealer_rely.hoare_bind [OF _ hoare_keep_status [OF A(1)]])
    have "filed (set ids) (Option.these (set (Map_Gets (d_LivingOrders d) ids))) d" if "dealer_G d" for d :: "'d DealerImpl"
      using that by (auto simp: filed_def Map_Gets_def Option.these_def dealer_G_def)
    then show "hoare {} A (read_p (\<lambda>d. Map_Gets (d_LivingOrders d) ids)) (\<lambda>ros d. A d \<and> filed (set ids) (Option.these (set ros)) d)"
      using A(1) st by (intro dealer_rely.hoare_read) simp_all
  qed
  moreover have "hoare {} (\<lambda>d. A d \<and> filed (set ids) (set qs) d) (case err of
      Some e \<Rightarrow> alt e qs
    | None \<Rightarrow> for_p (\<lambda>r. bind_p (read_p (\<lambda>d. GetID (ord d r))) body) qs) (\<lambda>_. A)" for qs
  proof -
    let ?A = "\<lambda>d. A d \<and> filed (set ids) (set qs) d"
    have "hoare {} ?A (case err of Some e \<Rightarrow> alt e qs
        | None \<Rightarrow> for_p (\<lambda>r. bind_p (read_p (\<lambda>d. GetID (ord d r))) body) qs) (\<lambda>_. ?A)"
    proof (cases err)
      case None
      have "hoare {} ?A (bind_p (read_p (\<lambda>d. GetID (ord d r))) body) (\<lambda>_. ?A)" if "r \<in> set qs" for r
      proof (rule dealer_rely.hoare_bind [where B = "\<lambda>i d. i \<in> set ids \<and> ?A d"])
        have "GetID (ord d r) \<in> set ids" if "filed (set ids) (set qs) d" for d :: "'d DealerImpl"
          using that \<open>r \<in> set qs\<close> by (auto simp: filed_def ord_def go_simps)
        then show "hoare {} ?A (read_p (\<lambda>d. GetID (ord d r))) (\<lambda>i d. i \<in> set ids \<and> ?A d)"
          using st dealer_rely.stable_conj [OF dealer_rely.stable_const st] by (intro dealer_rely.hoare_read) simp_all
        show "hoare {} (\<lambda>d. i \<in> set ids \<and> ?A d) (body i) (\<lambda>_. ?A)" for i
        proof (cases "i \<in> set ids")
          case True
          then show ?thesis using fineD [OF assms(1) [OF None True] st] A(2) by simp
        qed (simp add: dealer_rely.hoare_never)
      qed
      then show ?thesis using st None by (auto intro!: dealer_rely.hoare_for)
    next
      case (Some e)
      show ?thesis unfolding Some option.case
        by (rule fineD [OF assms(2) st]) (use A(2) in \<open>auto simp: filed_def\<close>)
    qed
    then show ?thesis by (rule dealer_rely.hoare_weaken) auto
  qed
  ultimately show "hoare {} A (bind_p (lookups_t st ids) (\<lambda>qs. case err of
      Some e \<Rightarrow> alt e qs
    | None \<Rightarrow> for_p (\<lambda>r. bind_p (read_p (\<lambda>d. GetID (ord d r))) body) qs)) (\<lambda>_. A)"
    by (rule dealer_rely.hoare_bind)
qed

text \<open>A batch response without an error holds a response for every identifier it names.\<close>

lemma fine_rejects:
  "fine (qs @ rs) (then_p (rejectCreates_t qs) (noticeError_t e))"
  "fine (qs @ rs) (then_p (rejectAmends_t qs) (noticeError_t e))"
  "fine (qs @ rs) (then_p (rejectCancels_t qs) (noticeError_t e))"
  by (auto simp: rejectCreates_t_def rejectAmends_t_def rejectCancels_t_def
      intro!: fine_for fine_own own_rejectAmend quiet_own [OF quiet_orders(6)] quiet_own [OF quiet_orders(7)]
        quiet_fine [OF quiet_notice])

lemma fine_SendsResp:
  "(\<And>i. err = None \<Longrightarrow> i \<in> set ids \<Longrightarrow> \<exists>resp. resps i = Some (Some resp)) \<Longrightarrow>
     fine rs (handleSendOrdersResp_t ids resps err)"
  unfolding handleSendOrdersResp_t_def
  by (rule fine_batch [OF _ fine_rejects(1)]) (fastforce intro: fine_SendResp split: option.split)

lemma fine_CancelsResp:
  "(\<And>i. err = None \<Longrightarrow> i \<in> set ids \<Longrightarrow> \<exists>resp. resps i = Some (Some resp)) \<Longrightarrow>
     fine rs (handleCancelOrdersResp_t ids resps err)"
  unfolding handleCancelOrdersResp_t_def
  by (rule fine_batch [OF _ fine_rejects(3)]) (fastforce intro: fine_CancelResp split: option.split)

lemma fine_AmendsResp:
  "(\<And>i. err = None \<Longrightarrow> i \<in> set ids \<Longrightarrow> \<exists>resp. resps i = Some (Some resp) \<and>
       (ar_Err resp = None \<longrightarrow> ar_Detail resp \<noteq> None)) \<Longrightarrow>
     fine rs (handleAmendOrdersResp_t ids resps err)"
  unfolding handleAmendOrdersResp_t_def
  by (rule fine_batch [OF _ fine_rejects(2)]) (fastforce intro: fine_AmendResp split: option.split)

subsection \<open>Messages\<close>

lemma fine_OrderData: "fine rs (HandleOrderData_t datas)"
proof -
  have t: "fine rs (trackUnrelated_t data)" for data :: "'a OrderData"
  proof -
    have "fine rs (bind_p (read_p (\<lambda>d. getOrder (d_UnrelatedOrders d) (od_PublicID data))) (\<lambda>ro.
        case ro of Some r \<Rightarrow> WithOpLock r (acts [done_Append r,
            \<lambda>d. d\<lparr>d_UnrelatedOrders := Map_Delete (d_UnrelatedOrders d) (od_PublicID data)\<rparr>])
        | None \<Rightarrow> Return ()))"
      by (rule fine_found) (auto simp: getOrder_def Map_Get_def dealer_G_def intro!: fine_section quiet_upd)
    moreover have "fine rs (upd_p (\<lambda>d. let o1 = setConfirmTimestamps (od_ArrivedAt data) (od_ConfirmedAt data)
          (zeroOrder\<lparr>o_publicID := od_PublicID data\<rparr>); r = d_next d
        in d\<lparr>d_heap := (d_heap d)(r := o1), d_next := Suc r,
             d_UnrelatedOrders := Map_Set (d_UnrelatedOrders d) (od_PublicID data) r\<rparr>))"
      by (rule fine_upd, rule mild_intro)
        (force simp: Let_def dealer_G_def kept_def dealer_J_def Map_Set_def setConfirmTimestamps_def zeroOrder_def)
    ultimately show ?thesis unfolding trackUnrelated_t_def by - (intro fine_if fine_then fine_simps; assumption)
  qed
  have l: "fine qs (bind_p (read_p (\<lambda>d. getOrder (d_LivingOrders d) i)) g)"
    if "fine qs (g None)" "\<And>r. fine (r # qs) (g (Some r))" for qs i and g :: "oref option \<Rightarrow> ('a, unit) dprog"
    using that by (rule fine_found) (auto simp: getOrder_def Map_Get_def dealer_G_def)
  have p: "fine qs (bind_p (read_p (\<lambda>d. getOrder (d_LivingOrders d) (od_ID data))) (\<lambda>ro2.
      if od_Status data = OrderDataStatusPartiallyFilled \<and> ro2 \<noteq> None
      then WithOpLock (the ro2) (then_p (setOrderPartiallyFillInfo_t (the ro2) data) (acceptPartiallyFilled_t (the ro2)))
      else Return ()))" for qs and data :: "'a OrderData"
    by (rule l) (auto intro!: fine_section quiet_orders)
  have "fine rs (handleOrderDatum_t data)" for data :: "'a OrderData"
    unfolding handleOrderDatum_t_def
    by (rule fine_then [OF t l]) (use p in \<open>auto intro!: fine_section quiet_then quiet_orders simp del: fine_simps\<close>)
  then show ?thesis unfolding HandleOrderData_t_def by (intro fine_for)
qed

lemma fine_PositionData: "fine rs (HandlePositionData_t datas)"
  by (auto simp: HandlePositionData_t_def Let_def intro!: fine_for fine_upd split: sum.split)

subsection \<open>The batch cancellation\<close>

lemma fine_read:
  fixes f :: "'d DealerImpl \<Rightarrow> 'v"
  assumes "\<And>d. Q (f d)" and "\<And>v. Q v \<Longrightarrow> fine rs (g v)"
  shows "fine rs (bind_p (read_p f) g)"
  unfolding fine_def
proof (intro allI impI, elim conjE)
  fix A :: "'d DealerImpl \<Rightarrow> bool"
  assume A: "stable {} A" "\<forall>d. A d \<longrightarrow> (\<forall>r \<in> set rs. r < d_next d)"
  show "hoare {} A (bind_p (read_p f) g) (\<lambda>_. A)"
  proof (rule dealer_rely.hoare_bind [where B = "\<lambda>v d. Q v \<and> A d"])
    show "hoare {} A (read_p f) (\<lambda>v d. Q v \<and> A d)"
      using A(1) assms(1) by (intro dealer_rely.hoare_read dealer_rely.stable_conj) auto
    show "hoare {} (\<lambda>d. Q v \<and> A d) (g v) (\<lambda>_. A)" for v
      using fineD [OF assms(2) A(1)] A(2) by (cases "Q v") (auto simp: dealer_rely.hoare_never)
  qed
qed

lemma fine_locks:
  assumes "quiet [] p" and "distinct ks"
  shows "fine rs (WithOpeLocks ks os p)"
  unfolding WithOpeLocks_def
proof (rule fine_read [where Q = distinct])
  show "distinct (Unique ks (d_heap d) os)" for d :: "'a DealerImpl" using assms(2) by (rule distinct_Unique)
  fix ls :: "oref list" assume ls: "distinct ls"
  have "stable (set ls) (\<lambda>d. A d \<and> (\<forall>l \<in> set ls. dealer_J l d))" if "stable {} A" for A :: "'a DealerImpl \<Rightarrow> bool"
    using dealer_rely.stable_less [OF that, of "set ls"]
    by (intro dealer_rely.stable_conj) (auto simp: dealer_rely.stable_def intro: dealer_rely.J_kept [of _ "set ls"])
  then have "hoare {} A (then_p (lock_all ls) (bind_p p (\<lambda>v. then_p (unlock_all ls) (Return v)))) (\<lambda>_. A)"
    if "stable {} A" for A :: "'a DealerImpl \<Rightarrow> bool"
    using ls that by (intro dealer_rely.hoare_batch) (auto intro: quietD [OF assms(1)])
  then show "fine rs (then_p (lock_all ls) (bind_p p (\<lambda>v. then_p (unlock_all ls) (Return v))))"
    by (simp add: fine_def)
qed

lemma quiet_canceling: "quiet rs (enterCanceling_t now r)" "quiet rs (deferCancel_t s r)"
  by (auto simp: enterCanceling_t_def deferCancel_t_def Let_def intro!: quiet_upd split: OrderStatus.split)

lemma quiet_split: "quiet rs (splitCancelTargets_t os)"
  by (induction os) (auto intro!: quiet_canceling)

lemma set_Unique: "set (Unique ks h os) \<subseteq> set os"
proof -
  have "unique_map h os i = Some r \<Longrightarrow> r \<in> set os" for i r
    by (induction os rule: rev_induct) (auto simp: unique_map_def split: if_splits)
  then show ?thesis by (auto simp: Unique_def map_filter_def)
qed

lemma fine_CancelOrders:
  assumes "set os \<subseteq> set rs" and "distinct lk"
  shows "fine rs (CancelOrders_t ag now ks lk os)"
  unfolding CancelOrders_t_def
proof (rule fine_read [where Q = "\<lambda>qs. set qs \<subseteq> set os"])
  show "set (Unique ks (d_heap d) os) \<subseteq> set os" for d :: "'a DealerImpl" by (rule set_Unique)
  fix qs assume "set qs \<subseteq> set os"
  with assms(1) have q: "\<And>r. r \<in> set qs \<Longrightarrow> r \<in> set rs" by auto
  show "fine rs (bind_p (WithOpeLocks lk qs (bind_p (splitCancelTargets_t qs) (\<lambda>cancelTargets.
      if 0 < length cancelTargets then
        then_p (for_p (enterCanceling_t now) cancelTargets)
          (then_p (upd_p (request (ReqCancelOrders cancelTargets))) (Return ag))
      else Return None)))
    (\<lambda>err. then_p (case err of Some e \<Rightarrow> rejectCancels_t qs | None \<Rightarrow> Return ()) (Return None)))"
    using assms(2) q
    by (auto simp: rejectCancels_t_def intro!: fine_locks quiet_split quiet_for quiet_canceling quiet_upd
        fine_for fine_section quiet_orders split: option.split)
qed

section \<open>Every call is safe\<close>

text \<open>
  The calls that may start in a state: they name constructed orders, a new order is one of the package, a
  batch response without an error holds a response for every identifier it names, and a successful
  amend response carries its detail.
\<close>

fun call_fits :: "'d call \<Rightarrow> 'd DealerImpl \<Rightarrow> bool" where
  "call_fits (lk, EvNew o1) d = newborn o1"
| "call_fits (lk, EvRegister r g) d = (r < d_next d)"
| "call_fits (lk, EvSendOrder ag now r) d = (r < d_next d)"
| "call_fits (lk, EvSendOrders ag now rs) d = (\<forall>r \<in> set rs. r < d_next d)"
| "call_fits (lk, EvAmendOrder ag now r detail) d = (r < d_next d)"
| "call_fits (lk, EvCancelOrder ag now r) d = (r < d_next d)"
| "call_fits (lk, EvCancelOrders ag now ks rs) d = (distinct lk \<and> (\<forall>r \<in> set rs. r < d_next d))"
| "call_fits (lk, EvSendsResp ids resps err) d =
     (err = None \<longrightarrow> (\<forall>i \<in> set ids. \<exists>resp. resps i = Some (Some resp)))"
| "call_fits (lk, EvAmendResp resp err) d = (err = None \<and> ar_Err resp = None \<longrightarrow> ar_Detail resp \<noteq> None)"
| "call_fits (lk, EvAmendsResp ids resps err) d =
     (err = None \<longrightarrow> (\<forall>i \<in> set ids. \<exists>resp. resps i = Some (Some resp) \<and>
        (ar_Err resp = None \<longrightarrow> ar_Detail resp \<noteq> None)))"
| "call_fits (lk, EvCancelsResp ids resps err) d =
     (err = None \<longrightarrow> (\<forall>i \<in> set ids. \<exists>resp. resps i = Some (Some resp)))"
| "call_fits _ d = True"

text \<open>The orders a call names.\<close>

fun named :: "'d event \<Rightarrow> oref list" where
  "named (EvRegister r g) = [r]"
| "named (EvSendOrder ag now r) = [r]"
| "named (EvSendOrders ag now rs) = rs"
| "named (EvAmendOrder ag now r detail) = [r]"
| "named (EvCancelOrder ag now r) = [r]"
| "named (EvCancelOrders ag now ks rs) = rs"
| "named _ = []"

lemma fine_started: "fine rs (prog_of (lk, EvCallback ag now i))"
  unfolding fine_def prog_of.simps
proof (intro allI impI, elim conjE)
  fix A :: "'a DealerImpl \<Rightarrow> bool" assume A: "stable {} A"
  let ?f = "\<lambda>d. if i < length (d_spawned d) then d\<lparr>d_spawned := drop_at (d_spawned d) i\<rparr> else d"
  let ?k = "\<lambda>d :: 'a DealerImpl. if i < length (d_spawned d) then runCallback_t ag now (d_spawned d ! i) else Return ()"
  let ?B = "\<lambda>d u. A u \<and> (i < length (d_spawned d) \<longrightarrow> fst (d_spawned d ! i) < d_next u)"
  have sub: "x \<in> set (drop_at xs i) \<Longrightarrow> x \<in> set xs" for x and xs :: "(oref \<times> 'a OrderCallback) list"
    by (auto simp: drop_at_def dest: in_set_takeD in_set_dropD)
  have m: "mild A ?f"
    by (intro mild_intro) (auto simp: dealer_G_def kept_def dealer_J_def dest!: sub)
  have st: "stable {} (?B d)" for d using A by (cases "i < length (d_spawned d)") (auto intro: dealer_rely.stable_conj)
  show "hoare {} A (Act (\<lambda>d. Inr (?f d)) ?k) (\<lambda>_. A)"
  proof (rule dealer_rely.hoare_act [where B = ?B])
    fix d assume d: "A d" "dealer_G d"
    then have "dealer_G (?f d)" "\<forall>H. dealer_R H d (?f d)" using m by (auto simp: dealer_rely.mild_def)
    moreover from this have "A (?f d)" using A d(1) unfolding dealer_rely.stable_def by blast
    moreover have "i < length (d_spawned d) \<longrightarrow> fst (d_spawned d ! i) < d_next (?f d)"
      using d(2) nth_mem [of i "d_spawned d"] unfolding dealer_G_def by (cases "d_spawned d ! i") (simp, blast)
    ultimately show "\<exists>u. Inr (?f d) = Inr u \<and> dealer_G u \<and> grants dealer_J dealer_R {} d u \<and> ?B d u"
      using dealer_rely.mild_grants [OF m d] by blast
  next
    fix d
    have "fine [fst (d_spawned d ! i)] (?k d)" using fine_callback [of "fst (d_spawned d ! i)" "[fst (d_spawned d ! i)]"] by (cases "d_spawned d ! i") auto
    then have "hoare {} (?B d) (?k d) (\<lambda>_. ?B d)" if "i < length (d_spawned d)"
      using that st [of d] by (intro fineD) (simp_all, force)
    moreover have "hoare {} (?B d) (?k d) (\<lambda>_. ?B d)" if "\<not> i < length (d_spawned d)"
      using that A by (auto intro: dealer_rely.hoare_return)
    ultimately show "hoare {} (?B d) (?k d) (\<lambda>_. A)" by (blast intro: dealer_rely.hoare_weaken)
  qed (rule A)
qed

lemma fine_export: "fine rs ExportDoneOrders_t"
  unfolding fine_def ExportDoneOrders_t_def
  by (auto intro!: dealer_rely.hoare_act_mild dealer_rely.hoare_return)

lemma fine_prog_of: "call_fits (lk, e) d \<Longrightarrow> fine (named e) (prog_of (lk, e))"
  by (cases e) (auto simp: unit_p_def newborn_def simp del: prog_of.simps(18)
      intro!: fine_export fine_started fine_upd mild_alloc fine_own quiet_own quiet_upd fine_sends fine_AmendOrder fine_CancelOrder
      fine_CancelOrders fine_SendResp fine_SendsResp fine_AmendResp fine_AmendsResp fine_CancelResp fine_CancelsResp
      fine_OrderData fine_PositionData)

lemma safe_prog_of:
  assumes "call_fits c d"
  shows "safe dealer_G dealer_J dealer_R (prog_of c) {} (\<lambda>_ _ _. True) d"
proof -
  obtain lk e where c: "c = (lk, e)" by (cases c)
  have "\<forall>r \<in> set (named e). r < d_next d" using assms unfolding c by (cases e) auto
  moreover have "hoare {} (\<lambda>d. \<forall>r \<in> set (named e). r < d_next d) (prog_of c) (\<lambda>_ d. \<forall>r \<in> set (named e). r < d_next d)"
    unfolding c by (rule fineD [OF fine_prog_of [OF assms [unfolded c]]]) auto
  ultimately show ?thesis by (rule dealer_rely.hoare_safe [rotated])
qed

lemma fits_ok: "call_fits c d \<Longrightarrow> call_ok c"
  by (cases c; cases "snd c") (auto simp: call_ok_def)

interpretation dealer_calls: safe_calls prog_of call_fits is_batch dealer_G dealer_J dealer_R
  by unfold_locales (auto intro: safe_prog_of locks_prog_of fits_ok)

text \<open>A dealer before any order is constructed, with nothing under way.\<close>

definition dealer_start :: "('d :: linordered_idom DealerImpl, oref) pool \<times> 'd call list \<Rightarrow> bool" where
  "dealer_start X \<longleftrightarrow> (\<exists>now. X =
     (\<lparr>p_state = freshDealer now (\<lambda>_. zeroOrder) 0, p_owner = (\<lambda>_. None), p_threads = []\<rparr>, []))"

lemma start_safe: "dealer_start X \<Longrightarrow> dealer_calls.safe_init X"
  by (auto simp: dealer_start_def dealer_calls.safe_init_def sys_init_def safe_pool_def dealer_G_def dealer_J_def
      freshDealer_def NewOrdersMap_def NewMap_def)

end
