(* ===== verification/Dealer_Races.thy ===== *)
theory Dealer_Races
  imports Dealer_Correct Dealer_Rely
begin

text \<open>
  What the locks of the dealer achieve and what they do not. An operation that runs alone has its
  atomic effect; the goroutines of a dealer never block each other for good as long as one batch
  cancellation is under way at a time; two batch cancellations can. The handlers look an order up
  before they take its lock and most branches do not look again, so an answer to a cancellation that
  was looked up before a fill is applied after it.
\<close>

section \<open>One operation at a time\<close>

definition pool_of :: "'d :: linordered_idom DealerImpl \<Rightarrow> 'd call list \<Rightarrow> ('d DealerImpl, oref) pool" where
  "pool_of d cs = \<lparr>p_state = d, p_owner = (\<lambda>_. None), p_threads = map prog_of cs\<rparr>"

lemma pool_of_simps [simp]:
  "p_state (pool_of d cs) = d" "p_owner (pool_of d cs) = (\<lambda>_. None)"
  "p_threads (pool_of d cs) = map prog_of cs" "held (pool_of d cs) i = {}"
  by (simp_all add: pool_of_def held_def)

text \<open>A goroutine that runs while no other one holds a lock has the effect of its program alone.\<close>

lemma run_rest:
  assumes "i < length ts" and "alone (ts ! i) d = Inr ((), d')" and "locks True (ts ! i) {} nothing_held"
  shows "pstep\<^sup>*\<^sup>* \<lparr>p_state = d, p_owner = (\<lambda>_. None), p_threads = ts\<rparr>
    \<lparr>p_state = d', p_owner = (\<lambda>_. None), p_threads = ts[i := Return ()]\<rparr>"
  using solo_run [of i "\<lparr>p_state = d, p_owner = (\<lambda>_. None), p_threads = ts\<rparr>"] assms
  by (simp add: held_def)

text \<open>
  C7. A call of the dealer that is started while every lock is free and runs without interruption
  leaves the state of its atomic definition, and it returns.
\<close>

theorem uninterrupted_call_is_atomic:
  assumes "call_ok (lk, e)" and "exec_dealer e d = Inr d'"
  shows "pstep\<^sup>*\<^sup>* (pool_of d [(lk, e)])
    \<lparr>p_state = d', p_owner = (\<lambda>_. None), p_threads = [Return ()]\<rparr>"
  using run_rest [of 0 "[prog_of (lk, e)]" d d'] assms alone_prog_of [of lk e d]
    locks_mono [OF locks_prog_of [OF assms(1)], of True nothing_held]
  by (simp add: pool_of_def)

theorem uninterrupted_call_is_atomic_witness:
  "pstep\<^sup>*\<^sup>* (pool_of (k_dealer (after 3)) [([''a''], EvCancelOrders None 9 [''a''] [0])])
     \<lparr>p_state = snd (CancelOrders None 9 [''a''] [0] (k_dealer (after 3))), p_owner = (\<lambda>_. None),
      p_threads = [Return ()]\<rparr> \<and>
   GetStatus (ord (snd (CancelOrders None 9 [''a''] [0] (k_dealer (after 3)))) 0) = OrderStatusCanceling"
proof
  show "GetStatus (ord (snd (CancelOrders None 9 [''a''] [0] (k_dealer (after 3)))) 0) = OrderStatusCanceling"
    by code_simp
qed (rule uninterrupted_call_is_atomic, simp_all add: call_ok_def)

section \<open>Goroutines and their locks\<close>

text \<open>
  C6. Any number of calls of the dealer, responses, messages and callbacks run at the same time, each
  access interleaved with those of the others; at most one batch cancellation is under way at a time.
  No goroutine panics, whatever the interleaving; at every moment all of them have returned or one of them
  can run; they cannot run for ever; and they go on to a state in which all have returned.
\<close>

theorem dealer_goroutines_return:
  assumes "reach dealer_start (sys_step prog_of call_fits is_batch) (P, cs)"
  shows "(\<forall>i e. tstep i P \<noteq> Some (Inl e)) \<and> (all_returned P \<or> (\<exists>i. tstep i P \<noteq> None)) \<and>
    (\<nexists>f. f 0 = P \<and> (\<forall>n. pstep (f n) (f (Suc n)))) \<and> (\<exists>P'. pstep\<^sup>*\<^sup>* P P' \<and> all_returned P')"
proof -
  have s: "reach dealer_calls.safe_init (sys_step prog_of call_fits is_batch) (P, cs)"
    using assms by (rule reach_mono) (rule start_safe)
  then have "reach sys_init (sys_step prog_of call_fits is_batch) (P, cs)"
    by (rule reach_mono) (simp add: dealer_calls.safe_init_def)
  moreover have "\<nexists>f. f 0 = P \<and> (\<forall>n. pstep (f n) (f (Suc n)))"
    using wf_pstep unfolding wf_iff_no_infinite_down_chain by blast
  ultimately show ?thesis using dealer_calls.calls_return [OF s] dealer_calls.never_stuck by blast
qed

text \<open>An order is constructed; then it is sent and cancelled twice, all at the same time.\<close>

lemma start_calls:
  "reach dealer_start (sys_step prog_of call_fits is_batch) (P, cs) \<Longrightarrow>
   list_all (\<lambda>c. call_fits c (p_state P) \<and> \<not> is_batch c) ds \<Longrightarrow>
     reach dealer_start (sys_step prog_of call_fits is_batch) (P\<lparr>p_threads := p_threads P @ map prog_of ds\<rparr>, cs @ ds)"
proof (induction ds arbitrary: P cs)
  case (Cons c ds)
  have "reach dealer_start (sys_step prog_of call_fits is_batch) (P\<lparr>p_threads := p_threads P @ [prog_of c]\<rparr>, cs @ [c])"
    using Cons.prems by (intro reach_step [OF Cons.prems(1)] sys_go) auto
  from Cons.IH [OF this] Cons.prems(2) show ?case by simp
qed simp

theorem dealer_goroutines_return_witness:
  "\<exists>P cs. length cs = 4 \<and> \<not> all_returned P \<and> (\<forall>i e. tstep i P \<noteq> Some (Inl e)) \<and>
     (\<exists>P'. pstep\<^sup>*\<^sup>* P P' \<and> all_returned (P' :: (int DealerImpl, oref) pool)) \<and>
     reach dealer_start (sys_step prog_of call_fits is_batch) (P, cs)"
proof -
  let ?o = "NewLimitOrder ''a'' (1 :: int) 1 SideBuy False []"
  let ?P0 = "\<lparr>p_state = freshDealer 0 (\<lambda>_. zeroOrder) 0, p_owner = (\<lambda>_. None), p_threads = []\<rparr> :: (int DealerImpl, oref) pool"
  let ?P1 = "?P0\<lparr>p_threads := [upd_p (alloc ?o)]\<rparr>"
  let ?P2 = "?P1\<lparr>p_state := alloc ?o (p_state ?P0), p_threads := [Return ()]\<rparr>"
  let ?r = "reach dealer_start (sys_step prog_of call_fits is_batch)"
  let ?cs = "[([], EvSendOrder None 1 0), ([], EvCancelOrder None 2 0), ([], EvCancelOrder None 3 0)]"
  have "?r (?P0, [])" by (rule reach_init) (auto simp: dealer_start_def)
  from start_calls [OF this, of "[([], EvNew ?o)]"] have "?r (?P1, [([], EvNew ?o)])"
    by (simp add: newborn_def NewLimitOrder_def zeroOrder_def)
  moreover have "pstep ?P1 ?P2" by (auto simp: pstep_def tstep_def upd_p_def intro!: exI [of _ 0])
  ultimately have "?r (?P2, [([], EvNew ?o)])" by (blast intro: reach_step sys_run)
  from start_calls [OF this, of ?cs]
  have r: "?r (?P2\<lparr>p_threads := Return () # map prog_of ?cs\<rparr>, ([], EvNew ?o) # ?cs)"
    by (simp add: alloc_def freshDealer_def)
  then show ?thesis
    using dealer_goroutines_return [OF r]
    by (intro exI [of _ "?P2\<lparr>p_threads := Return () # map prog_of ?cs\<rparr>"] exI [of _ "([], EvNew ?o) # ?cs"])
      (auto simp: all_returned_def returned_def unit_p_def SendOrder_t_def read_p_def)
qed

text \<open>The two batches that lock each other out: each holds the lock the other one needs.\<close>

definition locked_out :: "'d :: linordered_idom DealerImpl \<Rightarrow> 'd call \<Rightarrow> 'd call \<Rightarrow> bool" where
  "locked_out d c1 c2 \<longleftrightarrow>
     (\<exists>P. pstep\<^sup>*\<^sup>* (pool_of d [c1, c2]) P \<and> \<not> all_returned P \<and> (\<forall>i. tstep i P = None))"

lemma Unique_pair:
  assumes "GetID (h r) \<noteq> GetID (h q)"
  shows "Unique [GetID (h r), GetID (h q)] h [r, q] = [r, q]" "Unique [GetID (h q), GetID (h r)] h [r, q] = [q, r]"
    "Unique [GetID (h q), GetID (h r)] h [q, r] = [q, r]"
  using assms by (auto simp: Unique_def unique_map_def map_filter_simps)

text \<open>
  C8. Two batch cancellations of the same two orders can block each other for ever: \<open>WithOpeLocks\<close> takes
  the locks in the order in which \<open>Unique\<close> ranges over a Go map, which is random, so one may have taken
  the first order and the other one the second.
\<close>

theorem overlapping_batches_deadlock:
  assumes "GetID (ord d r) \<noteq> GetID (ord d q)"
  shows "locked_out d
    ([GetID (ord d r), GetID (ord d q)],
       EvCancelOrders ag1 now1 [GetID (ord d r), GetID (ord d q)] [r, q])
    ([GetID (ord d q), GetID (ord d r)],
       EvCancelOrders ag2 now2 [GetID (ord d q), GetID (ord d r)] [r, q])"
proof -
  have ne: "r \<noteq> q" using assms by auto
  note U = Unique_pair [of "d_heap d" r q, folded ord_def, OF assms]
  let ?P = "pool_of d [([GetID (ord d r), GetID (ord d q)],
       EvCancelOrders ag1 now1 [GetID (ord d r), GetID (ord d q)] [r, q]),
    ([GetID (ord d q), GetID (ord d r)],
       EvCancelOrders ag2 now2 [GetID (ord d q), GetID (ord d r)] [r, q])]"
  obtain P where P: "run_schedule [0, 0, 0, 1, 1, 1] ?P = Inr P"
    and stuck: "\<not> all_returned P \<and> (\<forall>i. tstep i P = None)"
    using ne U
    by (fastforce simp: tstep_def unit_p_def CancelOrders_t_def WithOpeLocks_def read_p_def then_p_def
        all_returned_def returned_def less_Suc_eq nth_Cons split: nat.split)
  from run_schedule_psteps [OF P] stuck show ?thesis unfolding locked_out_def by blast
qed

theorem overlapping_batches_deadlock_witness:
  "locked_out (freshDealer 0 (\<lambda>r. NewLimitOrder (if r = 0 then ''a'' else ''b'') (1 :: int) 1 SideBuy False []) 2)
     ([''a'', ''b''], EvCancelOrders None 3 [''a'', ''b''] [0, 1])
     ([''b'', ''a''], EvCancelOrders None 3 [''b'', ''a''] [0, 1])"
  using overlapping_batches_deadlock
    [of "freshDealer 0 (\<lambda>r. NewLimitOrder (if r = 0 then ''a'' else ''b'') (1 :: int) 1 SideBuy False []) 2" 0 1]
  by (simp add: freshDealer_def ord_def GetID_def NewLimitOrder_def)

section \<open>An answer that comes with a fill\<close>

lemma lookup_then_fill:
  assumes living: "getCancelingOrder (d_heap d) (d_LivingOrders d) (xr_OrderID resp) = Some r"
    and answer: "alone (cancelAnswer_t r resp err) (HandleOrderData datas d) = Inr ((), d')"
  shows "pstep\<^sup>*\<^sup>* (pool_of d [([], EvCancelResp resp err), ([], EvOrderData datas)])
    \<lparr>p_state = d', p_owner = (\<lambda>_. None), p_threads = [Return (), Return ()]\<rparr>"
proof -
  let ?body = "WithOpLock r (cancelAnswer_t r resp err)"
  let ?pool = "\<lambda>d ts. \<lparr>p_state = d, p_owner = (\<lambda>_. None), p_threads = ts\<rparr>"
  have l: "Map_Get (d_LivingOrders d) (xr_OrderID resp) = Some r" "GetStatus (ord d r) = OrderStatusCanceling"
    using living by (auto simp: getCancelingOrder_def ord_def split: option.splits if_splits)
  have "run_schedule [0, 0] (pool_of d [([], EvCancelResp resp err), ([], EvOrderData datas)]) =
      Inr (?pool d [?body, HandleOrderData_t datas])"
    using l by (simp add: tstep_def pool_of_def handleCancelOrderResp_t_def lookup_t_def read_p_def)
  note a = run_schedule_psteps [OF this]
  have b: "pstep\<^sup>*\<^sup>* (?pool d [?body, HandleOrderData_t datas])
      (?pool (HandleOrderData datas d) [?body, Return ()])"
    using run_rest [of 1 "[?body, HandleOrderData_t datas]" d "HandleOrderData datas d"]
      locks_mono [OF locks_prog_of, of "([], EvOrderData datas)" True nothing_held]
    by (simp add: call_ok_def)
  have "locks True ?body {} nothing_held"
    by (simp add: cancelAnswer_t_def nothing_held_def split: option.split)
  with answer have c: "pstep\<^sup>*\<^sup>* (?pool (HandleOrderData datas d) [?body, Return ()])
      (?pool d' [Return (), Return ()])"
    using run_rest [of 0 "[?body, Return ()]" "HandleOrderData datas d" d'] by simp
  from a b c show ?thesis by (meson rtranclp_trans)
qed

text \<open>The error an answer carries.\<close>

definition answered :: "CancelOrderResp \<Rightarrow> error option \<Rightarrow> error option" where
  "answered resp err = (case err of Some e \<Rightarrow> Some e | None \<Rightarrow> xr_Err resp)"

lemma cancelAnswer_alone:
  "alone (cancelAnswer_t r resp err) d = Inr ((),
     case answered resp err of
       None \<Rightarrow> acceptCancel r d
     | Some e \<Rightarrow> if errors_Is e OrderIsNotExists then abandonOrder r d else noticeError e (rejectCancel r d))"
  by (simp add: cancelAnswer_t_def answered_def split: option.split)

text \<open>The state after a fill of a living order.\<close>

lemma HandleOrderData_filled:
  assumes "getOrder (d_LivingOrders d) (od_ID data) = Some r" and "od_Status data = OrderDataStatusFilled"
    and "od_ID data \<noteq> []"
  shows "HandleOrderData [data] d = acceptFilled r (setOrderFillInfo r data d)"
  using assms by (simp add: HandleOrderData_def handleOrderDatum_def trackUnrelated_def OrderData_isUnrelated_def)

text \<open>
  C9. An answer to a cancellation whose goroutine has looked its order up before a fill is handled is
  applied to the order that is done already. When the exchange confirms the cancellation or answers
  that the order does not exist, the order is listed as finished twice; with any other error the
  finished order becomes pending again, and no operation finds it.
\<close>

theorem cancel_answer_overwrites_fill:
  assumes "reach dinit dstep k" and "d = k_dealer k" and "GetStatus (ord d r) = OrderStatusCanceling"
    and "xr_OrderID resp = GetID (ord d r)" and "od_ID data = GetID (ord d r)" and "od_ID data \<noteq> []"
    and "od_Status data = OrderDataStatusFilled"
  shows "\<exists>d'. pstep\<^sup>*\<^sup>* (pool_of d [([], EvCancelResp resp err), ([], EvOrderData [data])])
      \<lparr>p_state = d', p_owner = (\<lambda>_. None), p_threads = [Return (), Return ()]\<rparr> \<and>
    (case answered resp err of
       Some e \<Rightarrow>
         (if errors_Is e OrderIsNotExists then s_a (d_doneOrders d') = s_a (d_doneOrders d) @ [r, r]
          else s_a (d_doneOrders d') = s_a (d_doneOrders d) @ [r] \<and>
            GetStatus (ord d' r) = OrderStatusPending \<and> getOrder (d_LivingOrders d') (GetID (ord d r)) = None)
     | None \<Rightarrow> s_a (d_doneOrders d') = s_a (d_doneOrders d) @ [r, r])"
proof -
  note inv = dealer.reachable_inv [OF assms(1)]
  have l: "getOrder (d_LivingOrders d) (GetID (ord d r)) = Some r"
    using living_iff [OF inv, of "GetID (ord d r)" r] assms(2,3)
    by (simp add: kview_def getOrder_def ord_def go_simps active_def)
  have m: "s_maxLen (d_doneOrders d) = 0" using ainvD(3) [OF inv] assms(2) by (simp add: kview_def)
  have f: "HandleOrderData [data] d = acceptFilled r (setOrderFillInfo r data d)"
    using HandleOrderData_filled [of d data r] l assms(5-7) by simp
  let ?d' = "case answered resp err of
       None \<Rightarrow> acceptCancel r (HandleOrderData [data] d)
     | Some e \<Rightarrow> if errors_Is e OrderIsNotExists then abandonOrder r (HandleOrderData [data] d)
         else noticeError e (rejectCancel r (HandleOrderData [data] d))"
  have "getCancelingOrder (d_heap d) (d_LivingOrders d) (xr_OrderID resp) = Some r"
    using l assms(3,4) by (simp add: getCancelingOrder_def getOrder_def ord_def)
  then have "pstep\<^sup>*\<^sup>* (pool_of d [([], EvCancelResp resp err), ([], EvOrderData [data])])
      \<lparr>p_state = ?d', p_owner = (\<lambda>_. None), p_threads = [Return (), Return ()]\<rparr>"
    by (rule lookup_then_fill) (rule cancelAnswer_alone)
  moreover have "case answered resp err of
       Some e \<Rightarrow>
         (if errors_Is e OrderIsNotExists then s_a (d_doneOrders ?d') = s_a (d_doneOrders d) @ [r, r]
          else s_a (d_doneOrders ?d') = s_a (d_doneOrders d) @ [r] \<and>
            GetStatus (ord ?d' r) = OrderStatusPending \<and> getOrder (d_LivingOrders ?d') (GetID (ord d r)) = None)
     | None \<Rightarrow> s_a (d_doneOrders ?d') = s_a (d_doneOrders d) @ [r, r]"
    unfolding f using m
    by (simp add: handler_defs setOrderFillInfo_def noticeError_def dealer_defs go_simps Let_def
        getOrder_def Slice_Append_def split: option.split)
  ultimately show ?thesis by blast
qed

text \<open>The order of the demonstration run, accepted and being cancelled.\<close>

definition canceling :: "int market" where
  "canceling = \<lparr>k_dealer = snd (CancelOrder None 9 0 (k_dealer (after 3))), k_exported = k_exported (after 3)\<rparr>"

lemma canceling_reach: "reach dinit dstep canceling"
proof (rule reach_step [OF demo_reach [of 3]])
  show "dstep (after 3) canceling"
    by (rule dstep [of "EvCancelOrder None 9 0"]) (simp_all add: exec_def canceling_def)
qed

definition demo_fill :: "int OrderData" where
  "demo_fill = \<lparr>od_ID = ''a'', od_PublicID = ''p'', od_Side = SideBuy, od_Price = 100, od_Qty = 1,
     od_AvgExecPrice = 100, od_CumFee = 0, od_CumExecQty = 1, od_Status = OrderDataStatusFilled,
     od_ArrivedAt = None, od_ConfirmedAt = None\<rparr>"

theorem cancel_answer_overwrites_fill_witness:
  "\<exists>d'. pstep\<^sup>*\<^sup>* (pool_of (k_dealer canceling)
        [([], EvCancelResp \<lparr>xr_OrderID = ''a'', xr_Err = None\<rparr> None), ([], EvOrderData [demo_fill])])
      \<lparr>p_state = d', p_owner = (\<lambda>_. None), p_threads = [Return (), Return ()]\<rparr> \<and>
    s_a (d_doneOrders d') = [0, 0]"
proof -
  have "GetStatus (ord (k_dealer canceling) 0) = OrderStatusCanceling" "GetID (ord (k_dealer canceling) 0) = ''a''"
    "s_a (d_doneOrders (k_dealer canceling)) = []" by code_simp+
  then show ?thesis
    using cancel_answer_overwrites_fill [OF canceling_reach refl, of 0 "\<lparr>xr_OrderID = ''a'', xr_Err = None\<rparr>"
        demo_fill None]
    by (simp add: demo_fill_def answered_def)
qed

end
