(* ===== verification/Json.thy ===== *)
theory Json
  imports Strconv Orders
begin

text \<open>
  What the gateways use of \<open>encoding/json\<close>: the decoding of a document into a struct. A raw
  message is its syntax tree, \<open>None\<close> when it is not a JSON document; keys and strings are
  unquoted, numbers are kept as their literals.

  A decoder updates a value in place, as \<open>Unmarshal\<close> does: a field that does not occur keeps
  its value, null changes nothing (a slice or a pointer becomes nil), a key matches a field
  exactly or else without regard to case, and of repeated keys the last one counts. \<open>None\<close> is
  a value that does not fit its field. Only ASCII letters are folded.
\<close>

section \<open>Documents\<close>

datatype json =
    JNull
  | JBool bool
  | JNum string
  | JStr string
  | JArr "json list"
  | JObj "(string \<times> json) list"

type_synonym raw = "json option"
type_synonym 'a decoder = "json \<Rightarrow> 'a \<Rightarrow> 'a option"

section \<open>Decoders\<close>

definition dec_int :: "int decoder" where
  "dec_int j x = (case j of JNull \<Rightarrow> Some x | JNum s \<Rightarrow> ParseInt s | _ \<Rightarrow> None)"

definition dec_string :: "string decoder" where
  "dec_string j x = (case j of JNull \<Rightarrow> Some x | JStr s \<Rightarrow> Some s | _ \<Rightarrow> None)"

definition dec_bool :: "bool decoder" where
  "dec_bool j x = (case j of JNull \<Rightarrow> Some x | JBool b \<Rightarrow> Some b | _ \<Rightarrow> None)"

definition dec_list :: "'a \<Rightarrow> 'a decoder \<Rightarrow> 'a list decoder" where
  "dec_list zero d j xs = (case j of JNull \<Rightarrow> Some [] | JArr js \<Rightarrow> those (map (\<lambda>j. d j zero) js) | _ \<Rightarrow> None)"

definition dec_ptr :: "'a \<Rightarrow> 'a decoder \<Rightarrow> 'a option decoder" where
  "dec_ptr zero d j x =
     (case j of JNull \<Rightarrow> Some None | _ \<Rightarrow> map_option Some (d j (case x of Some y \<Rightarrow> y | None \<Rightarrow> zero)))"

text \<open>A field of a record, by its selector and its update.\<close>

definition on_field :: "('r \<Rightarrow> 'a) \<Rightarrow> (('a \<Rightarrow> 'a) \<Rightarrow> 'r \<Rightarrow> 'r) \<Rightarrow> 'a decoder \<Rightarrow> 'r decoder" where
  "on_field sel upd d j r = map_option (\<lambda>x. upd (\<lambda>_. x) r) (d j (sel r))"

definition lower_char :: "char \<Rightarrow> char" where
  "lower_char c = (if 65 \<le> (of_char c :: nat) \<and> (of_char c :: nat) \<le> 90 then char_of ((of_char c :: nat) + 32) else c)"

definition fold_name :: "string \<Rightarrow> string" where
  "fold_name s = map lower_char s"

definition find_field :: "(string \<times> 'r decoder) list \<Rightarrow> string \<Rightarrow> 'r decoder option" where
  "find_field fs k =
     (case map_of fs k of
        Some d \<Rightarrow> Some d
      | None \<Rightarrow> map_option snd (find (\<lambda>f. fold_name (fst f) = fold_name k) fs))"

fun dec_members :: "(string \<times> 'r decoder) list \<Rightarrow> (string \<times> json) list \<Rightarrow> 'r \<Rightarrow> 'r option" where
  "dec_members fs [] r = Some r"
| "dec_members fs ((k, v) # ms) r =
     (case find_field fs k of
        None \<Rightarrow> dec_members fs ms r
      | Some d \<Rightarrow> (case d v r of None \<Rightarrow> None | Some r' \<Rightarrow> dec_members fs ms r'))"

definition dec_struct :: "(string \<times> 'r decoder) list \<Rightarrow> 'r decoder" where
  "dec_struct fs j r = (case j of JNull \<Rightarrow> Some r | JObj ms \<Rightarrow> dec_members fs ms r | _ \<Rightarrow> None)"

definition Unmarshal :: "'a decoder \<Rightarrow> 'a \<Rightarrow> raw \<Rightarrow> error + 'a" where
  "Unmarshal d zero msg =
     (case msg of
        None \<Rightarrow> Inl (Message ''invalid JSON document'')
      | Some j \<Rightarrow> (case d j zero of None \<Rightarrow> Inl (Message ''json: cannot unmarshal'') | Some x \<Rightarrow> Inr x))"

section \<open>Lemmas\<close>

text \<open>In a struct whose field names differ beyond case, a key has the field it folds to.\<close>

lemma find_field_distinct:
  assumes "distinct (map (fold_name \<circ> fst) fs)"
  shows "find_field fs k = map_option snd (find (\<lambda>f. fold_name (fst f) = fold_name k) fs)"
proof (cases "map_of fs k")
  case None
  then show ?thesis by (simp add: find_field_def)
next
  case (Some d)
  have "find (\<lambda>f. fold_name (fst f) = fold_name k) fs = Some (k, d)"
    using assms Some by (induction fs) (auto split: if_splits dest!: map_of_SomeD simp: image_iff)
  with Some show ?thesis by (simp add: find_field_def)
qed

text \<open>
  Two structs decoded from the same object agree on what they share when every member does:
  \<open>g\<close> is the part of the first that the second has.
\<close>

definition dec_member :: "(string \<times> 'r decoder) list \<Rightarrow> string \<Rightarrow> 'r decoder" where
  "dec_member fs k v r = (case find_field fs k of None \<Rightarrow> Some r | Some d \<Rightarrow> d v r)"

lemma dec_members_step: "dec_members fs ((k, v) # ms) r = Option.bind (dec_member fs k v r) (dec_members fs ms)"
  by (simp add: dec_member_def split: option.split)

lemma dec_members_sim:
  assumes "dec_members fs ms r = Some r'"
    and "\<And>k v x y. dec_member fs k v x = Some y \<Longrightarrow> dec_member fs' k v (g x) = Some (g y)"
  shows "dec_members fs' ms (g r) = Some (g r')"
  using assms(1)
proof (induction ms arbitrary: r)
  case (Cons kv ms)
  obtain k v where kv: "kv = (k, v)" by fastforce
  from Cons.prems kv obtain r1 where "dec_member fs k v r = Some r1" "dec_members fs ms r1 = Some r'"
    by (auto simp: dec_member_def split: option.splits)
  with Cons.IH assms(2) kv show ?case by (simp add: dec_members_step del: dec_members.simps)
qed simp

end
