(* ===== verification/Price_Level.thy ===== *)
theory Price_Level
  imports Domains
begin

text \<open>
  \<open>insights/price_level.go\<close>: one side of an order book.

  The tree is \<open>google/btree\<close>, which is not part of the repository: its operations are a
  record argument \<open>B\<close> of the definitions (\<open>bt_items\<close> is the sequence that \<open>Ascend\<close>
  visits), and the locale \<open>btree\<close> states what its documentation promises of them. The
  locale \<open>level_store\<close> is the interface the order book relies on; it follows from
  \<open>btree\<close> for the definitions of this file.
\<close>

section \<open>The tree\<close>

record ('a, 't) BTreeOps =
  bt_NewG :: "nat \<Rightarrow> ('a \<Rightarrow> 'a \<Rightarrow> bool) \<Rightarrow> 't"
  bt_ReplaceOrInsert :: "'t \<Rightarrow> 'a \<Rightarrow> 't"
  bt_Delete :: "'t \<Rightarrow> 'a \<Rightarrow> 't"
  bt_Get :: "'t \<Rightarrow> 'a \<Rightarrow> 'a option"
  bt_Min :: "'t \<Rightarrow> 'a option"
  bt_Len :: "'t \<Rightarrow> nat"
  bt_items :: "'t \<Rightarrow> 'a list"

section \<open>PriceLevel and PriceLevelMap\<close>

record 'd PriceLevel =
  pl_SeqID :: int
  pl_Price :: 'd
  pl_Volume :: 'd

definition zeroLevel :: "'d :: linordered_idom PriceLevel" where
  "zeroLevel = \<lparr>pl_SeqID = 0, pl_Price = 0, pl_Volume = 0\<rparr>"

definition isOld :: "'d PriceLevel \<Rightarrow> int \<Rightarrow> bool" where
  "isOld r nowID \<longleftrightarrow> pl_SeqID r < nowID"

definition PriceLevel_Copy :: "'d PriceLevel \<Rightarrow> 'd PriceLevel" where
  "PriceLevel_Copy r = \<lparr>pl_SeqID = pl_SeqID r, pl_Price = pl_Price r, pl_Volume = pl_Volume r\<rparr>"

record ('d, 't) PriceLevelMap =
  pm_ts :: 'd
  pm_q :: BookSide
  pm_tree :: 't

definition level_less :: "BookSide \<Rightarrow> 'd :: linordered_idom PriceLevel \<Rightarrow> 'd PriceLevel \<Rightarrow> bool" where
  "level_less bookSide a b =
     (if bookSide = BookSideBid then pl_Price b < pl_Price a else pl_Price a < pl_Price b)"

definition newPriceLevelMap ::
  "('d PriceLevel, 't) BTreeOps \<Rightarrow> BookSide \<Rightarrow> 'd :: linordered_idom \<Rightarrow> ('d, 't) PriceLevelMap" where
  "newPriceLevelMap B bookSide tickSize =
     \<lparr>pm_ts = tickSize, pm_q = bookSide, pm_tree = bt_NewG B 16 (level_less bookSide)\<rparr>"

definition pm_set ::
  "('d PriceLevel, 't) BTreeOps \<Rightarrow> ('d, 't) PriceLevelMap \<Rightarrow> 'd :: linordered_idom PriceLevel \<Rightarrow> ('d, 't) PriceLevelMap" where
  "pm_set B p r =
     (if pl_Volume r = 0 then p\<lparr>pm_tree := bt_Delete B (pm_tree p) (zeroLevel\<lparr>pl_Price := pl_Price r\<rparr>)\<rparr>
      else p\<lparr>pm_tree := bt_ReplaceOrInsert B (pm_tree p) r\<rparr>)"

definition pm_Get ::
  "('d PriceLevel, 't) BTreeOps \<Rightarrow> ('d, 't) PriceLevelMap \<Rightarrow> 'd :: linordered_idom \<Rightarrow> 'd PriceLevel option" where
  "pm_Get B p price = bt_Get B (pm_tree p) (zeroLevel\<lparr>pl_Price := price\<rparr>)"

definition pm_drop ::
  "('d PriceLevel, 't) BTreeOps \<Rightarrow> ('d, 't) PriceLevelMap \<Rightarrow> 'd :: linordered_idom \<Rightarrow> ('d, 't) PriceLevelMap" where
  "pm_drop B p price = p\<lparr>pm_tree := bt_Delete B (pm_tree p) (zeroLevel\<lparr>pl_Price := price\<rparr>)\<rparr>"

definition pm_Len :: "('d PriceLevel, 't) BTreeOps \<Rightarrow> ('d, 't) PriceLevelMap \<Rightarrow> nat" where
  "pm_Len B p = bt_Len B (pm_tree p)"

definition pm_replace :: "('d, 't) PriceLevelMap \<Rightarrow> ('d, 't) PriceLevelMap \<Rightarrow> ('d, 't) PriceLevelMap" where
  "pm_replace p r = p\<lparr>pm_tree := pm_tree r\<rparr>"

text \<open>\<open>Range\<close> and \<open>SortedRange\<close> have the same body; the callback threads the variables it captures.\<close>

definition pm_SortedRange ::
  "('d PriceLevel, 't) BTreeOps \<Rightarrow> ('d \<Rightarrow> 'd PriceLevel \<Rightarrow> 's \<Rightarrow> 's \<times> bool) \<Rightarrow> ('d, 't) PriceLevelMap \<Rightarrow> 's \<Rightarrow> 's" where
  "pm_SortedRange B f p s = range_loop (\<lambda>item. f (pl_Price item) item) (bt_items B (pm_tree p)) s"

definition pm_Range ::
  "('d PriceLevel, 't) BTreeOps \<Rightarrow> ('d \<Rightarrow> 'd PriceLevel \<Rightarrow> 's \<Rightarrow> 's \<times> bool) \<Rightarrow> ('d, 't) PriceLevelMap \<Rightarrow> 's \<Rightarrow> 's" where
  "pm_Range B f p s = range_loop (\<lambda>item. f (pl_Price item) item) (bt_items B (pm_tree p)) s"

definition BestLevel ::
  "('d PriceLevel, 't) BTreeOps \<Rightarrow> ('d, 't) PriceLevelMap \<Rightarrow> 'd :: linordered_idom PriceLevel" where
  "BestLevel B p = (case bt_Min B (pm_tree p) of None \<Rightarrow> zeroLevel | Some best \<Rightarrow> PriceLevel_Copy best)"

definition pm_SumVolume ::
  "('d PriceLevel, 't) BTreeOps \<Rightarrow> ('d, 't) PriceLevelMap \<Rightarrow> 'd :: linordered_idom \<Rightarrow> 'd" where
  "pm_SumVolume B p price =
     pm_SortedRange B (\<lambda>itaPrice itaRecord sumVol.
       if pm_q p = BookSideAsk \<and> price < itaPrice then (sumVol, False)
       else if pm_q p = BookSideBid \<and> itaPrice < price then (sumVol, False)
       else (sumVol + pl_Volume itaRecord, True)) p 0"

text \<open>The loop of \<open>AvgExecPrice\<close> over (\<open>remainingQty\<close>, \<open>weightedSum\<close>).\<close>

definition exec_step ::
  "'d :: linordered_idom \<Rightarrow> 'd PriceLevel \<Rightarrow> 'd \<times> 'd \<Rightarrow> ('d \<times> 'd) \<times> bool" where
  "exec_step price r s =
     (case s of (remainingQty, weightedSum) \<Rightarrow>
        let nextRemainingQty = remainingQty - pl_Volume r in
        if nextRemainingQty \<le> 0 then ((remainingQty, weightedSum + price * remainingQty), False)
        else ((nextRemainingQty, weightedSum + price * pl_Volume r), True))"

text \<open>\<open>dv\<close> stands for \<open>Decimal.Div\<close>, which panics when the divisor is zero.\<close>

definition dec_Div :: "('d \<Rightarrow> 'd \<Rightarrow> 'd) \<Rightarrow> 'd :: linordered_idom \<Rightarrow> 'd \<Rightarrow> 'd result" where
  "dec_Div dv a b = (if b = 0 then Inl DivisionByZero else Inr (dv a b))"

definition pm_AvgExecPrice ::
  "('d PriceLevel, 't) BTreeOps \<Rightarrow> ('d \<Rightarrow> 'd \<Rightarrow> 'd) \<Rightarrow> ('d, 't) PriceLevelMap \<Rightarrow> 'd :: linordered_idom \<Rightarrow> 'd result" where
  "pm_AvgExecPrice B dv p qty = dec_Div dv (snd (pm_SortedRange B exec_step p (qty, 0))) qty"

section \<open>What the tree promises\<close>

text \<open>
  \<open>ok ls t\<close> says that \<open>t\<close> was built with the ordering \<open>ls\<close>. Two items are the same
  key when neither is less than the other.
\<close>

definition same_key :: "('a \<Rightarrow> 'a \<Rightarrow> bool) \<Rightarrow> 'a \<Rightarrow> 'a \<Rightarrow> bool" where
  "same_key ls a b \<longleftrightarrow> \<not> ls a b \<and> \<not> ls b a"

definition strict_weak :: "('a \<Rightarrow> 'a \<Rightarrow> bool) \<Rightarrow> bool" where
  "strict_weak ls \<longleftrightarrow> asymp ls \<and> transp ls \<and> transp (same_key ls)"

lemma same_key_sym: "same_key ls a b = same_key ls b a"
  by (auto simp: same_key_def)

lemma same_key_unique:
  "sorted_wrt ls xs \<Longrightarrow> y \<in> set xs \<Longrightarrow> z \<in> set xs \<Longrightarrow> same_key ls y z \<Longrightarrow> y = z"
  by (induction xs) (auto simp: same_key_def)

lemma option_eqI: "(\<And>l. a = Some l \<longleftrightarrow> b = Some l) \<Longrightarrow> a = b"
  by (metis not_Some_eq)

locale btree =
  fixes B :: "('a, 't) BTreeOps" and ok :: "('a \<Rightarrow> 'a \<Rightarrow> bool) \<Rightarrow> 't \<Rightarrow> bool"
  assumes ok_new: "strict_weak ls \<Longrightarrow> ok ls (bt_NewG B n ls) \<and> bt_items B (bt_NewG B n ls) = []"
    and ok_sorted: "ok ls t \<Longrightarrow> sorted_wrt ls (bt_items B t)"
    and ok_insert: "ok ls t \<Longrightarrow> ok ls (bt_ReplaceOrInsert B t x) \<and>
      set (bt_items B (bt_ReplaceOrInsert B t x)) = insert x {y \<in> set (bt_items B t). \<not> same_key ls x y}"
    and ok_delete: "ok ls t \<Longrightarrow> ok ls (bt_Delete B t x) \<and>
      set (bt_items B (bt_Delete B t x)) = {y \<in> set (bt_items B t). \<not> same_key ls x y}"
    and get_items: "ok ls t \<Longrightarrow> bt_Get B t x = find (same_key ls x) (bt_items B t)"
    and min_items: "ok ls t \<Longrightarrow> bt_Min B t = (case bt_items B t of [] \<Rightarrow> None | y # _ \<Rightarrow> Some y)"
    and len_items: "ok ls t \<Longrightarrow> bt_Len B t = length (bt_items B t)"
begin

lemma get_Some_iff:
  assumes "ok ls t" and "strict_weak ls"
  shows "bt_Get B t x = Some y \<longleftrightarrow> y \<in> set (bt_items B t) \<and> same_key ls x y"
proof
  assume "bt_Get B t x = Some y"
  then show "y \<in> set (bt_items B t) \<and> same_key ls x y"
    unfolding get_items [OF assms(1)] by (auto simp: find_Some_iff)
next
  assume y: "y \<in> set (bt_items B t) \<and> same_key ls x y"
  then obtain z where z: "bt_Get B t x = Some z"
    unfolding get_items [OF assms(1)] by (metis find_None_iff not_Some_eq)
  then have "z \<in> set (bt_items B t)" "same_key ls x z"
    unfolding get_items [OF assms(1)] by (auto simp: find_Some_iff)
  moreover have "same_key ls z y"
    using transpD [of "same_key ls" z x y] assms(2) y calculation(2)
    by (simp add: strict_weak_def same_key_sym)
  ultimately have "z = y" using y same_key_unique [OF ok_sorted [OF assms(1)]] by blast
  with z show "bt_Get B t x = Some y" by simp
qed

end

section \<open>What a side of the book promises\<close>

text \<open>
  The interface the order book uses: \<open>good s m\<close> is the invariant of a map of side \<open>s\<close>,
  \<open>levels m\<close> its levels from best to worst.
\<close>

locale level_store =
  fixes good :: "BookSide \<Rightarrow> 'm \<Rightarrow> bool" and levels :: "'m \<Rightarrow> 'd :: linordered_idom PriceLevel list"
    and newl :: "BookSide \<Rightarrow> 'd \<Rightarrow> 'm" and getl :: "'m \<Rightarrow> 'd \<Rightarrow> 'd PriceLevel option"
    and setl :: "'m \<Rightarrow> 'd PriceLevel \<Rightarrow> 'm" and dropl :: "'m \<Rightarrow> 'd \<Rightarrow> 'm" and replacel :: "'m \<Rightarrow> 'm \<Rightarrow> 'm"
  assumes good_new: "good s (newl s ts) \<and> levels (newl s ts) = []"
    and levels_sorted: "good s m \<Longrightarrow> sorted_wrt (level_less s) (levels m)"
    and getl_levels: "good s m \<Longrightarrow> getl m p = Some l \<longleftrightarrow> l \<in> set (levels m) \<and> pl_Price l = p"
    and levels_nonzero: "good s m \<Longrightarrow> l \<in> set (levels m) \<Longrightarrow> pl_Volume l \<noteq> 0"
    and setl_law: "good s m \<Longrightarrow> good s (setl m l) \<and>
      getl (setl m l) p = (if p = pl_Price l then if pl_Volume l = 0 then None else Some l else getl m p)"
    and dropl_law: "good s m \<Longrightarrow> good s (dropl m q) \<and> getl (dropl m q) p = (if p = q then None else getl m p)"
    and replacel_law: "good s m \<Longrightarrow> good s m' \<Longrightarrow> good s (replacel m m') \<and> levels (replacel m m') = levels m'"
begin

lemma getl_new [simp]: "getl (newl s ts) p = None"
  using getl_levels [of s "newl s ts" p] good_new [of s ts] by (metis empty_iff list.set(1) not_Some_eq)

lemma getl_replace: "good s m \<Longrightarrow> good s m' \<Longrightarrow> getl (replacel m m') p = getl m' p"
  using getl_levels [of s "replacel m m'" p] getl_levels [of s m' p] replacel_law [of s m m']
  by (metis not_Some_eq)

lemma getl_price: "good s m \<Longrightarrow> getl m p = Some l \<Longrightarrow> pl_Price l = p \<and> pl_Volume l \<noteq> 0"
  using getl_levels levels_nonzero by blast

text \<open>The levels are determined by what the lookups answer.\<close>

lemma level_at: "good s m \<Longrightarrow> l \<in> set (levels m) \<longleftrightarrow> getl m (pl_Price l) = Some l"
  using getl_levels by blast

text \<open>The head of the levels is the best one.\<close>

lemma best_is_extreme:
  assumes "good s m" and "levels m = b # ls" and "l \<in> set (levels m)"
  shows "if s = BookSideBid then pl_Price l \<le> pl_Price b else pl_Price b \<le> pl_Price l"
  using levels_sorted [OF assms(1)] assms(2,3) by (auto simp: level_less_def split: if_splits)

end

lemma level_less_key [simp]: "same_key (level_less s) a b \<longleftrightarrow> pl_Price a = pl_Price b"
  by (auto simp: same_key_def level_less_def)

lemma level_less_weak [simp]: "strict_weak (level_less s)"
  by (auto simp: strict_weak_def level_less_def intro!: transpI split: if_splits)

lemma level_price_zero [simp]: "pl_Price (zeroLevel\<lparr>pl_Price := p\<rparr>) = p"
  by simp

definition side_good ::
  "('d PriceLevel, 't) BTreeOps \<Rightarrow> (('d PriceLevel \<Rightarrow> 'd PriceLevel \<Rightarrow> bool) \<Rightarrow> 't \<Rightarrow> bool) \<Rightarrow> BookSide \<Rightarrow>
     ('d :: linordered_idom, 't) PriceLevelMap \<Rightarrow> bool" where
  "side_good B ok s m \<longleftrightarrow> pm_q m = s \<and> ok (level_less s) (pm_tree m) \<and>
     (\<forall>l \<in> set (bt_items B (pm_tree m)). pl_Volume l \<noteq> 0)"

definition side_levels :: "('d PriceLevel, 't) BTreeOps \<Rightarrow> ('d, 't) PriceLevelMap \<Rightarrow> 'd PriceLevel list" where
  "side_levels B m = bt_items B (pm_tree m)"

locale level_tree = btree B ok
  for B :: "('d :: linordered_idom PriceLevel, 't) BTreeOps" and ok
begin

lemma pm_Get_iff:
  "side_good B ok s m \<Longrightarrow> pm_Get B m p = Some l \<longleftrightarrow> l \<in> set (side_levels B m) \<and> pl_Price l = p"
  using get_Some_iff [of "level_less s" "pm_tree m" "zeroLevel\<lparr>pl_Price := p\<rparr>" l]
  by (auto simp: pm_Get_def side_good_def side_levels_def)

lemma pm_set_good:
  "side_good B ok s m \<Longrightarrow> side_good B ok s (pm_set B m l) \<and>
     set (side_levels B (pm_set B m l)) =
       {x \<in> set (side_levels B m). pl_Price x \<noteq> pl_Price l} \<union> (if pl_Volume l = 0 then {} else {l})"
  using ok_insert [of "level_less s" "pm_tree m" l]
    ok_delete [of "level_less s" "pm_tree m" "zeroLevel\<lparr>pl_Price := pl_Price l\<rparr>"]
  by (auto simp: side_good_def side_levels_def pm_set_def)

lemma pm_drop_good:
  "side_good B ok s m \<Longrightarrow> side_good B ok s (pm_drop B m p) \<and>
     set (side_levels B (pm_drop B m p)) = {x \<in> set (side_levels B m). pl_Price x \<noteq> p}"
  using ok_delete [of "level_less s" "pm_tree m" "zeroLevel\<lparr>pl_Price := p\<rparr>"]
  by (auto simp: side_good_def side_levels_def pm_drop_def)

lemma pm_Get_set:
  "side_good B ok s m \<Longrightarrow> pm_Get B (pm_set B m l) p =
     (if p = pl_Price l then if pl_Volume l = 0 then None else Some l else pm_Get B m p)"
  using pm_set_good [of s m l] pm_Get_iff [of s m p] pm_Get_iff [of s "pm_set B m l" p]
  by (intro option_eqI) auto

lemma pm_Get_drop:
  "side_good B ok s m \<Longrightarrow> pm_Get B (pm_drop B m q) p = (if p = q then None else pm_Get B m p)"
  using pm_drop_good [of s m q] pm_Get_iff [of s m p] pm_Get_iff [of s "pm_drop B m q" p]
  by (intro option_eqI) auto

end

sublocale level_tree < side: level_store "side_good B ok" "side_levels B" "newPriceLevelMap B" "pm_Get B"
  "pm_set B" "pm_drop B" pm_replace
proof
  fix s m l p q ts m'
  show "side_good B ok s (newPriceLevelMap B s ts) \<and> side_levels B (newPriceLevelMap B s ts) = []"
    using ok_new [of "level_less s" 16] by (simp add: newPriceLevelMap_def side_good_def side_levels_def)
  assume m: "side_good B ok s m"
  show "sorted_wrt (level_less s) (side_levels B m)"
    using m ok_sorted by (simp add: side_good_def side_levels_def)
  show "(pm_Get B m p = Some l) = (l \<in> set (side_levels B m) \<and> pl_Price l = p)" by (rule pm_Get_iff [OF m])
  show "l \<in> set (side_levels B m) \<Longrightarrow> pl_Volume l \<noteq> 0" using m by (auto simp: side_good_def side_levels_def)
  show "side_good B ok s (pm_set B m l) \<and>
      pm_Get B (pm_set B m l) p = (if p = pl_Price l then if pl_Volume l = 0 then None else Some l else pm_Get B m p)"
    using pm_set_good [OF m, of l] pm_Get_set [OF m] by blast
  show "side_good B ok s (pm_drop B m q) \<and> pm_Get B (pm_drop B m q) p = (if p = q then None else pm_Get B m p)"
    using pm_drop_good [OF m, of q] pm_Get_drop [OF m] by blast
  assume m': "side_good B ok s m'"
  show "side_good B ok s (pm_replace m m') \<and> side_levels B (pm_replace m m') = side_levels B m'"
    using m m' by (simp add: side_good_def side_levels_def pm_replace_def)
qed

end
