(* ===== verification/Book_Volume.thy ===== *)
theory Book_Volume
  imports Price_Level
begin

text \<open>
  A concrete tree (a sorted list) that meets the interface \<open>btree\<close>, and the volume and
  price computations of \<open>price_level.go\<close> against reference definitions: \<open>SumVolume\<close> is a
  sum over the marketable levels, \<open>AvgExecPrice\<close> the value of a greedy fill.
\<close>

section \<open>Sorted lists as trees\<close>

fun list_insert :: "('a \<Rightarrow> 'a \<Rightarrow> bool) \<Rightarrow> 'a \<Rightarrow> 'a list \<Rightarrow> 'a list" where
  "list_insert ls x [] = [x]"
| "list_insert ls x (y # ys) =
     (if ls x y then x # y # ys else if ls y x then y # list_insert ls x ys else x # ys)"

definition list_btree :: "('a, ('a \<Rightarrow> 'a \<Rightarrow> bool) \<times> 'a list) BTreeOps" where
  "list_btree =
     \<lparr>bt_NewG = (\<lambda>n ls. (ls, [])), bt_ReplaceOrInsert = (\<lambda>t x. (fst t, list_insert (fst t) x (snd t))),
      bt_Delete = (\<lambda>t x. (fst t, filter (\<lambda>y. \<not> same_key (fst t) x y) (snd t))),
      bt_Get = (\<lambda>t x. find (same_key (fst t) x) (snd t)),
      bt_Min = (\<lambda>t. case snd t of [] \<Rightarrow> None | y # _ \<Rightarrow> Some y),
      bt_Len = (\<lambda>t. length (snd t)), bt_items = snd\<rparr>"

definition list_ok :: "('a \<Rightarrow> 'a \<Rightarrow> bool) \<Rightarrow> ('a \<Rightarrow> 'a \<Rightarrow> bool) \<times> 'a list \<Rightarrow> bool" where
  "list_ok ls t \<longleftrightarrow> fst t = ls \<and> strict_weak ls \<and> sorted_wrt ls (snd t)"

text \<open>Items above an item of the same key are above the other one too.\<close>

lemma weak_less_trans:
  assumes "strict_weak ls" and "same_key ls x y" and "ls y z"
  shows "ls x z"
proof (rule ccontr)
  assume "\<not> ls x z"
  moreover have "\<not> ls z x"
    using assms transpD [of ls y z x] by (auto simp: strict_weak_def same_key_def)
  ultimately have "same_key ls x z" by (simp add: same_key_def)
  then have "same_key ls y z"
    using assms(1,2) transpD [of "same_key ls" y x z] by (simp add: strict_weak_def same_key_sym)
  with assms(3) show False by (simp add: same_key_def)
qed

lemma list_insert_spec:
  assumes "strict_weak ls" and "sorted_wrt ls xs"
  shows "set (list_insert ls x xs) = insert x {y \<in> set xs. \<not> same_key ls x y} \<and> sorted_wrt ls (list_insert ls x xs)"
  using assms(2)
proof (induction xs)
  case (Cons y ys)
  have tr: "ls a b \<Longrightarrow> ls b c \<Longrightarrow> ls a c" for a b c
    using assms(1) by (meson strict_weak_def transpD)
  have up: "ls y z" if "z \<in> set ys" for z using Cons.prems that by simp
  consider "ls x y" | "\<not> ls x y" "ls y x" | "same_key ls x y" by (auto simp: same_key_def)
  then show ?case
  proof cases
    case 1
    then have "ls x z" if "z \<in> set ys" for z using tr up that by blast
    with 1 Cons.prems show ?thesis by (auto simp: same_key_def)
  next
    case 2
    with Cons show ?thesis by (auto simp: same_key_def)
  next
    case 3
    then have "ls x z" if "z \<in> set ys" for z using weak_less_trans [OF assms(1)] up that by blast
    with 3 Cons.prems show ?thesis by (auto simp: same_key_def)
  qed
qed simp

interpretation list_tree: level_tree list_btree list_ok
  by unfold_locales
    (auto simp: list_btree_def list_ok_def list_insert_spec sorted_wrt_filter)

section \<open>SumVolume\<close>

text \<open>The levels a limit order at \<open>price\<close> on the other side would meet.\<close>

definition reaches :: "BookSide \<Rightarrow> 'd :: linordered_idom \<Rightarrow> 'd PriceLevel \<Rightarrow> bool" where
  "reaches s price l \<longleftrightarrow> (if s = BookSideBid then price \<le> pl_Price l else pl_Price l \<le> price)"

lemma sum_loop:
  assumes "sorted_wrt (level_less s) xs" and "s = BookSideAsk \<or> s = BookSideBid"
  shows "range_loop (\<lambda>item sumVol.
       if s = BookSideAsk \<and> price < pl_Price item then (sumVol, False)
       else if s = BookSideBid \<and> pl_Price item < price then (sumVol, False)
       else (sumVol + pl_Volume item, True)) xs acc =
     acc + sum_list (map pl_Volume (filter (reaches s price) xs))"
  using assms(1)
proof (induction xs arbitrary: acc)
  case (Cons x xs)
  show ?case
  proof (cases "reaches s price x")
    case True
    with Cons assms(2) show ?thesis by (auto simp: reaches_def algebra_simps)
  next
    case False
    with Cons.prems have "\<not> reaches s price y" if "y \<in> set xs" for y
      using that by (auto simp: reaches_def level_less_def split: if_splits)
    with False assms(2) show ?thesis by (auto simp: reaches_def filter_empty_conv)
  qed
qed simp

lemma sorted_levels_distinct: "sorted_wrt (level_less s) xs \<Longrightarrow> distinct (map pl_Price xs)"
  by (induction xs) (auto simp: level_less_def split: if_splits)

context level_tree
begin

lemma sum_volume:
  assumes "side_good B ok s m" and "s = BookSideAsk \<or> s = BookSideBid"
  shows "pm_SumVolume B m price = (\<Sum>l \<in> {l \<in> set (side_levels B m). reaches s price l}. pl_Volume l)"
proof -
  have q: "pm_q m = s" using assms(1) by (simp add: side_good_def)
  have srt: "sorted_wrt (level_less s) (side_levels B m)" by (rule side.levels_sorted [OF assms(1)])
  have dist: "distinct (filter (reaches s price) (side_levels B m))"
    using sorted_levels_distinct [OF srt] distinct_map distinct_filter by blast
  have "pm_SumVolume B m price = sum_list (map pl_Volume (filter (reaches s price) (side_levels B m)))"
    using sum_loop [OF srt assms(2), of price 0]
    unfolding pm_SumVolume_def pm_SortedRange_def q side_levels_def by simp
  then show ?thesis by (simp add: sum_list_distinct_conv_sum_set [OF dist])
qed

end

section \<open>AvgExecPrice\<close>

text \<open>How much a market order of size \<open>q\<close> takes from each level, best level first.\<close>

fun fills :: "'d :: linordered_idom \<Rightarrow> 'd list \<Rightarrow> 'd list" where
  "fills q [] = []"
| "fills q (v # vs) = min v q # fills (q - min v q) vs"

definition fill_value :: "'d :: linordered_idom \<Rightarrow> 'd PriceLevel list \<Rightarrow> 'd" where
  "fill_value q ls = sum_list (map2 (\<lambda>l f. pl_Price l * f) ls (fills q (map pl_Volume ls)))"


lemma fill_value_zero: "\<forall>l \<in> set ls. 0 < pl_Volume l \<Longrightarrow> fill_value 0 ls = 0"
  unfolding fill_value_def by (induction ls) auto

lemma exec_loop:
  assumes "\<forall>l \<in> set ls. 0 < pl_Volume l" and "0 < q"
  shows "snd (range_loop (\<lambda>item. exec_step (pl_Price item) item) ls (q, w)) = w + fill_value q ls"
  using assms
proof (induction ls arbitrary: q w)
  case Nil
  then show ?case by (simp add: fill_value_def)
next
  case (Cons l ls)
  show ?case
  proof (cases "q - pl_Volume l \<le> 0")
    case True
    then have "min (pl_Volume l) q = q" by simp
    with True Cons.prems fill_value_zero [of ls] show ?thesis
      by (simp add: exec_step_def fill_value_def Let_def)
  next
    case False
    then have "min (pl_Volume l) q = pl_Volume l" by simp
    with False Cons show ?thesis
      by (simp add: exec_step_def fill_value_def Let_def algebra_simps)
  qed
qed

lemma fills_sum:
  "\<forall>v \<in> set vs. 0 < v \<Longrightarrow> 0 \<le> q \<Longrightarrow> sum_list (fills q vs) = min q (sum_list vs) \<and> (\<forall>f \<in> set (fills q vs). 0 \<le> f)"
proof (induction vs arbitrary: q)
  case (Cons v vs)
  have "0 \<le> sum_list vs" using Cons.prems by (intro sum_list_nonneg) auto
  with Cons.IH [of "q - min v q"] Cons.prems show ?case by (auto simp: min_def)
qed simp

lemma length_fills [simp]: "length (fills q vs) = length vs"
  by (induction vs arbitrary: q) auto

lemma fill_value_bounds:
  assumes "\<forall>l \<in> set ls. 0 < pl_Volume l \<and> lo \<le> pl_Price l \<and> pl_Price l \<le> hi" and "0 \<le> q"
  shows "lo * sum_list (fills q (map pl_Volume ls)) \<le> fill_value q ls \<and>
         fill_value q ls \<le> hi * sum_list (fills q (map pl_Volume ls))"
  using assms
proof (induction ls arbitrary: q)
  case (Cons l ls)
  let ?f = "min (pl_Volume l) q"
  have "0 \<le> ?f" using Cons.prems by auto
  then have "lo * ?f \<le> pl_Price l * ?f" "pl_Price l * ?f \<le> hi * ?f"
    using Cons.prems by (auto intro!: mult_right_mono)
  moreover have "lo * sum_list (fills (q - ?f) (map pl_Volume ls)) \<le> fill_value (q - ?f) ls \<and>
      fill_value (q - ?f) ls \<le> hi * sum_list (fills (q - ?f) (map pl_Volume ls))"
    using Cons by simp
  ultimately show ?case by (simp add: fill_value_def algebra_simps)
qed (simp add: fill_value_def)

context level_tree
begin

lemma avg_exec_price:
  assumes "\<forall>l \<in> set (side_levels B m). 0 < pl_Volume l" and "0 < q"
  shows "pm_AvgExecPrice B dv m q = Inr (dv (fill_value q (side_levels B m)) q)"
  using exec_loop [OF assms, of 0] assms(2)
  by (simp add: pm_AvgExecPrice_def pm_SortedRange_def dec_Div_def side_levels_def)

end

section \<open>Properties\<close>

text \<open>
  \<open>SumVolume\<close>, a walk over the tree that stops at the first level beyond the price, is the
  sum of the volumes of all levels at the price or better: prices up to it for asks, prices
  from it for bids.
\<close>

theorem SumVolume_is_sum_of_reached_levels:
  assumes "level_tree B ok" and "side_good B ok s m" and "s = BookSideAsk \<or> s = BookSideBid"
  shows "pm_SumVolume B m price =
    (\<Sum>l \<in> {l \<in> set (side_levels B m). if s = BookSideBid then price \<le> pl_Price l else pl_Price l \<le> price}. pl_Volume l)"
  using level_tree.sum_volume [OF assms] by (simp add: reaches_def)

definition demo_asks :: "(int, (int PriceLevel \<Rightarrow> int PriceLevel \<Rightarrow> bool) \<times> int PriceLevel list) PriceLevelMap" where
  "demo_asks = fold (\<lambda>l m. pm_set list_btree m l)
     [\<lparr>pl_SeqID = 1, pl_Price = 102, pl_Volume = 5\<rparr>, \<lparr>pl_SeqID = 1, pl_Price = 101, pl_Volume = 2\<rparr>]
     (newPriceLevelMap list_btree BookSideAsk 1)"

lemma demo_asks_good: "side_good list_btree list_ok BookSideAsk demo_asks"
proof -
  have "side_good list_btree list_ok BookSideAsk (fold (\<lambda>l m. pm_set list_btree m l) ls m)"
    if "side_good list_btree list_ok BookSideAsk m" for ls and m :: "(int, _) PriceLevelMap"
    using that by (rule fold_inv) (simp add: list_tree.side.setl_law)
  then show ?thesis unfolding demo_asks_def using list_tree.side.good_new by blast
qed

lemma demo_asks_levels:
  "side_levels list_btree demo_asks =
     [\<lparr>pl_SeqID = 1, pl_Price = 101, pl_Volume = 2\<rparr>, \<lparr>pl_SeqID = 1, pl_Price = 102, pl_Volume = 5\<rparr>]"
  by code_simp

theorem SumVolume_is_sum_of_reached_levels_witness: "pm_SumVolume list_btree demo_asks 101 = 2"
proof -
  have "{l \<in> set (side_levels list_btree demo_asks). pl_Price l \<le> 101} = {\<lparr>pl_SeqID = 1, pl_Price = 101, pl_Volume = 2\<rparr>}"
    by (auto simp: demo_asks_levels)
  then show ?thesis
    using SumVolume_is_sum_of_reached_levels [OF list_tree.level_tree_axioms demo_asks_good, of 101] by simp
qed

text \<open>
  C37. \<open>AvgExecPrice\<close> on a side whose volumes are positive: a quantity of zero panics; a positive
  quantity is filled greedily from the best level, the fills sum up to the quantity or, when the
  book is not deep enough, to all there is, and the value of the fills is divided by the whole
  quantity. The value lies between the extreme prices of the levels times what is filled, so on
  a book that is too thin the average is below the best price.
\<close>

theorem AvgExecPrice_is_greedy_fill:
  fixes B :: "('d :: linordered_idom PriceLevel, 't) BTreeOps"
  assumes "level_tree B ok" and "\<forall>l \<in> set (side_levels B m). 0 < pl_Volume l \<and> lo \<le> pl_Price l \<and> pl_Price l \<le> hi"
    and "0 \<le> q"
  shows "pm_AvgExecPrice B dv m q =
      (if q = 0 then Inl DivisionByZero else Inr (dv (fill_value q (side_levels B m)) q)) \<and>
    (let filled = sum_list (fills q (map pl_Volume (side_levels B m))) in
       filled = min q (sum_list (map pl_Volume (side_levels B m))) \<and>
       lo * filled \<le> fill_value q (side_levels B m) \<and> fill_value q (side_levels B m) \<le> hi * filled)"
proof -
  have "pm_AvgExecPrice B dv m 0 = Inl DivisionByZero" by (simp add: pm_AvgExecPrice_def dec_Div_def)
  moreover have "pm_AvgExecPrice B dv m q = Inr (dv (fill_value q (side_levels B m)) q)" if "q \<noteq> 0"
    by (rule level_tree.avg_exec_price [OF assms(1)]) (use assms that in auto)
  moreover have "sum_list (fills q (map pl_Volume (side_levels B m))) = min q (sum_list (map pl_Volume (side_levels B m)))"
    using fills_sum [of "map pl_Volume (side_levels B m)" q] assms by auto
  ultimately show ?thesis using fill_value_bounds [OF assms(2,3)] by (simp add: Let_def)
qed

theorem AvgExecPrice_is_greedy_fill_witness:
  "pm_AvgExecPrice list_btree (div) demo_asks 4 = Inr (406 div 4) \<and>
   pm_AvgExecPrice list_btree (div) demo_asks 14 = Inr (712 div 14)"
proof -
  have "\<forall>l \<in> set (side_levels list_btree demo_asks). 0 < pl_Volume l \<and> 101 \<le> pl_Price l \<and> pl_Price l \<le> 102"
    by (simp add: demo_asks_levels)
  from AvgExecPrice_is_greedy_fill [OF list_tree.level_tree_axioms this, of 4 "(div)"]
    AvgExecPrice_is_greedy_fill [OF list_tree.level_tree_axioms this, of 14 "(div)"]
  show ?thesis by (simp add: demo_asks_levels fill_value_def)
qed

end
