(* ===== verification/Order_Book.thy ===== *)
theory Order_Book
  imports Book_Volume "HOL-Library.Multiset"
begin

text \<open>
  \<open>insights/orderbook.go\<close> and \<open>insights/orderbook_handlers.go\<close>: the order book with its
  cached best prices and the handlers of snapshots and deltas. A callback of the user is
  known by a number; the calls made are recorded in \<open>ob_calls\<close>. Every public update runs
  under \<open>muLockToUpdateHandler\<close>, so it is one step.
\<close>

section \<open>State\<close>

datatype DataType = DataTypeUnknown | DataTypeSnapshot | DataTypeDelta

record 'd OrderBookData =
  bd_Type :: DataType
  bd_ExecAt :: time
  bd_ArrivedAt :: time
  bd_Bids :: "'d PriceLevel list"
  bd_Asks :: "'d PriceLevel list"
  bd_SeqID :: int

text \<open>\<open>DropDeferUpdateCallBack\<close> installs a function that does nothing.\<close>

datatype book_callback = BookCallback nat | NopCallback

record ('d, 't) OrderBookImpl =
  ob_symbol :: "'d Symbol"
  ob_lastExecAt :: "time option"
  ob_lastArrivedAt :: "time option"
  ob_BidsMap :: "('d, 't) PriceLevelMap"
  ob_AsksMap :: "('d, 't) PriceLevelMap"
  ob_currentBestAsk :: "'d PriceLevel option"
  ob_currentBestBid :: "'d PriceLevel option"
  ob_beforeBestAsk :: "'d PriceLevel option"
  ob_beforeBestBid :: "'d PriceLevel option"
  ob_updateCallback :: "book_callback list"
  ob_deferCallback :: "book_callback option"
  ob_calls :: "book_callback list"

definition NewOrderBook ::
  "('d PriceLevel, 't) BTreeOps \<Rightarrow> 'd :: linordered_idom Symbol \<Rightarrow> ('d, 't) OrderBookImpl" where
  "NewOrderBook B symbol =
     \<lparr>ob_symbol = symbol, ob_lastExecAt = None, ob_lastArrivedAt = None,
      ob_BidsMap = newPriceLevelMap B BookSideBid (sym_tickSize symbol),
      ob_AsksMap = newPriceLevelMap B BookSideAsk (sym_tickSize symbol),
      ob_currentBestAsk = None, ob_currentBestBid = None, ob_beforeBestAsk = None, ob_beforeBestBid = None,
      ob_updateCallback = [], ob_deferCallback = None, ob_calls = []\<rparr>"

section \<open>orderbook.go\<close>

text \<open>\<open>dv\<close> and \<open>tr\<close> stand for \<open>Decimal.Div\<close> and \<open>Decimal.Truncate(0)\<close>.\<close>

definition RoundToTick ::
  "('d \<Rightarrow> 'd \<Rightarrow> 'd) \<Rightarrow> ('d \<Rightarrow> 'd) \<Rightarrow> 'd Symbol \<Rightarrow> 'd :: linordered_idom \<Rightarrow> 'd result" where
  "RoundToTick dv tr symbol price =
     bind_r (dec_Div dv price (sym_tickSize symbol)) (\<lambda>quo. Inr (tr quo * sym_tickSize symbol))"

definition ob_RoundToTickSize ::
  "('d \<Rightarrow> 'd \<Rightarrow> 'd) \<Rightarrow> ('d \<Rightarrow> 'd) \<Rightarrow> ('d, 't) OrderBookImpl \<Rightarrow> 'd :: linordered_idom \<Rightarrow> 'd result" where
  "ob_RoundToTickSize dv tr p price = RoundToTick dv tr (ob_symbol p) price"

definition ob_CalcBestPrice ::
  "('d \<Rightarrow> 'd \<Rightarrow> 'd) \<Rightarrow> ('d \<Rightarrow> 'd) \<Rightarrow> ('d, 't) OrderBookImpl \<Rightarrow> 'd :: linordered_idom \<Rightarrow> ('d \<times> 'd) result" where
  "ob_CalcBestPrice dv tr p midPrice =
     bind_r (ob_RoundToTickSize dv tr p midPrice) (\<lambda>a.
     bind_r (ob_RoundToTickSize dv tr p midPrice) (\<lambda>bestBid.
       Inr (a + sym_tickSize (ob_symbol p), bestBid)))"

definition ob_GetBestAsk :: "('d, 't) OrderBookImpl \<Rightarrow> 'd PriceLevel option" where
  "ob_GetBestAsk p = ob_currentBestAsk p"
definition ob_GetBestBid :: "('d, 't) OrderBookImpl \<Rightarrow> 'd PriceLevel option" where
  "ob_GetBestBid p = ob_currentBestBid p"

text \<open>The difference of two levels; both are read through pointers.\<close>

definition diff_levels ::
  "'d :: linordered_idom PriceLevel option \<Rightarrow> 'd PriceLevel option \<Rightarrow> 'd PriceLevel result" where
  "diff_levels cur before =
     (case (cur, before) of
        (Some c, Some b) \<Rightarrow> Inr \<lparr>pl_SeqID = wrap64 (pl_SeqID c - pl_SeqID b),
          pl_Price = pl_Price c - pl_Price b, pl_Volume = pl_Volume c - pl_Volume b\<rparr>
      | _ \<Rightarrow> Inl NilDeref)"

definition ob_GetDiffBestAsk :: "('d :: linordered_idom, 't) OrderBookImpl \<Rightarrow> 'd PriceLevel result" where
  "ob_GetDiffBestAsk p = diff_levels (ob_currentBestAsk p) (ob_beforeBestAsk p)"
definition ob_GetDiffBestBid :: "('d :: linordered_idom, 't) OrderBookImpl \<Rightarrow> 'd PriceLevel result" where
  "ob_GetDiffBestBid p = diff_levels (ob_currentBestBid p) (ob_beforeBestBid p)"

definition ob_IsReady :: "('d, 't) OrderBookImpl \<Rightarrow> bool" where
  "ob_IsReady p \<longleftrightarrow> ob_currentBestBid p \<noteq> None \<and> ob_currentBestAsk p \<noteq> None \<and>
     ob_beforeBestBid p \<noteq> None \<and> ob_beforeBestAsk p \<noteq> None \<and> ob_lastExecAt p \<noteq> None"

definition ob_GetTickSize :: "('d, 't) OrderBookImpl \<Rightarrow> 'd" where
  "ob_GetTickSize p = sym_tickSize (ob_symbol p)"
definition ob_GetMinOrderQty :: "('d, 't) OrderBookImpl \<Rightarrow> 'd" where
  "ob_GetMinOrderQty p = sym_minOrderQty (ob_symbol p)"

definition ob_SumVolume ::
  "('d PriceLevel, 't) BTreeOps \<Rightarrow> ('d, 't) OrderBookImpl \<Rightarrow> BookSide \<Rightarrow> 'd :: linordered_idom \<Rightarrow> 'd" where
  "ob_SumVolume B p bookSide price =
     (case bookSide of
        BookSideAsk \<Rightarrow> pm_SumVolume B (ob_AsksMap p) price
      | BookSideBid \<Rightarrow> pm_SumVolume B (ob_BidsMap p) price
      | BookSideNone \<Rightarrow> 0)"

definition ob_AvgExecPrice ::
  "('d PriceLevel, 't) BTreeOps \<Rightarrow> ('d \<Rightarrow> 'd \<Rightarrow> 'd) \<Rightarrow> ('d \<Rightarrow> 'd) \<Rightarrow> ('d, 't) OrderBookImpl \<Rightarrow> BookSide \<Rightarrow>
     'd :: linordered_idom \<Rightarrow> 'd result" where
  "ob_AvgExecPrice B dv tr p bookSide qty =
     (case bookSide of
        BookSideAsk \<Rightarrow> bind_r (pm_AvgExecPrice B dv (ob_AsksMap p) qty) (ob_RoundToTickSize dv tr p)
      | BookSideBid \<Rightarrow> bind_r (pm_AvgExecPrice B dv (ob_BidsMap p) qty) (ob_RoundToTickSize dv tr p)
      | BookSideNone \<Rightarrow> Inr 0)"

definition ob_AvgExecPriceBySide ::
  "('d PriceLevel, 't) BTreeOps \<Rightarrow> ('d \<Rightarrow> 'd \<Rightarrow> 'd) \<Rightarrow> ('d \<Rightarrow> 'd) \<Rightarrow> ('d, 't) OrderBookImpl \<Rightarrow> Side \<Rightarrow>
     'd :: linordered_idom \<Rightarrow> 'd result" where
  "ob_AvgExecPriceBySide B dv tr p side1 qty =
     (case side1 of
        SideBuy \<Rightarrow> bind_r (pm_AvgExecPrice B dv (ob_AsksMap p) qty) (ob_RoundToTickSize dv tr p)
      | SideSell \<Rightarrow> bind_r (pm_AvgExecPrice B dv (ob_BidsMap p) qty) (ob_RoundToTickSize dv tr p)
      | SideNone \<Rightarrow> Inr 0)"

text \<open>The running sum of \<open>CalculateBidsVolSumMap\<close> and \<open>CalculateAsksVolSumMap\<close>.\<close>

definition volSumMap ::
  "('d PriceLevel, 't) BTreeOps \<Rightarrow> BookSide \<Rightarrow> 'd :: linordered_idom \<Rightarrow> ('d, 't) PriceLevelMap \<Rightarrow> ('d, 't) PriceLevelMap" where
  "volSumMap B s ts m =
     snd (pm_SortedRange B (\<lambda>price r (sumVol, vm).
            let sumVol' = sumVol + pl_Volume r
            in ((sumVol', pm_set B vm \<lparr>pl_SeqID = 0, pl_Price = price, pl_Volume = sumVol'\<rparr>), True))
          m (0, newPriceLevelMap B s ts))"

definition CalculateBidsVolSumMap ::
  "('d PriceLevel, 't) BTreeOps \<Rightarrow> ('d :: linordered_idom, 't) OrderBookImpl \<Rightarrow> ('d, 't) PriceLevelMap" where
  "CalculateBidsVolSumMap B p = volSumMap B BookSideBid (sym_tickSize (ob_symbol p)) (ob_BidsMap p)"
definition CalculateAsksVolSumMap ::
  "('d PriceLevel, 't) BTreeOps \<Rightarrow> ('d :: linordered_idom, 't) OrderBookImpl \<Rightarrow> ('d, 't) PriceLevelMap" where
  "CalculateAsksVolSumMap B p = volSumMap B BookSideAsk (sym_tickSize (ob_symbol p)) (ob_AsksMap p)"

definition top_levels ::
  "('d PriceLevel, 't) BTreeOps \<Rightarrow> ('d, 't) PriceLevelMap \<Rightarrow> int \<Rightarrow> 'd PriceLevel list" where
  "top_levels B m depth =
     pm_SortedRange B (\<lambda>price r ls. (ls @ [r], int (length (ls @ [r])) < depth)) m []"

definition GetAsks :: "('d PriceLevel, 't) BTreeOps \<Rightarrow> ('d, 't) OrderBookImpl \<Rightarrow> int \<Rightarrow> 'd PriceLevel list" where
  "GetAsks B p depth = top_levels B (ob_AsksMap p) depth"
definition GetBids :: "('d PriceLevel, 't) BTreeOps \<Rightarrow> ('d, 't) OrderBookImpl \<Rightarrow> int \<Rightarrow> 'd PriceLevel list" where
  "GetBids B p depth = top_levels B (ob_BidsMap p) depth"

definition ob_SetUpdateCallback :: "nat \<Rightarrow> ('d, 't) OrderBookImpl \<Rightarrow> ('d, 't) OrderBookImpl" where
  "ob_SetUpdateCallback cb p = p\<lparr>ob_updateCallback := ob_updateCallback p @ [BookCallback cb]\<rparr>"
definition SetDeferUpdateCallBack :: "nat \<Rightarrow> ('d, 't) OrderBookImpl \<Rightarrow> ('d, 't) OrderBookImpl" where
  "SetDeferUpdateCallBack cb p = p\<lparr>ob_deferCallback := Some (BookCallback cb)\<rparr>"
definition DropDeferUpdateCallBack :: "('d, 't) OrderBookImpl \<Rightarrow> ('d, 't) OrderBookImpl" where
  "DropDeferUpdateCallBack p = p\<lparr>ob_deferCallback := Some NopCallback\<rparr>"

section \<open>orderbook\_handlers.go\<close>

text \<open>The body of the loops of \<open>updateByDelta\<close>, over the operations of one side.\<close>

definition delta_row ::
  "('m \<Rightarrow> 'd \<Rightarrow> 'd PriceLevel option) \<Rightarrow> ('m \<Rightarrow> 'd PriceLevel \<Rightarrow> 'm) \<Rightarrow> ('m \<Rightarrow> 'd \<Rightarrow> 'm) \<Rightarrow>
     'd :: linordered_idom PriceLevel \<Rightarrow> 'm \<Rightarrow> 'm" where
  "delta_row getl setl dropl a m =
     (if (case getl m (pl_Price a) of Some r \<Rightarrow> \<not> isOld r (pl_SeqID a) | None \<Rightarrow> False) then m
      else if pl_Volume a = 0 then dropl m (pl_Price a)
      else setl m a)"

definition delta_rows ::
  "('d PriceLevel, 't) BTreeOps \<Rightarrow> 'd :: linordered_idom PriceLevel list \<Rightarrow> ('d, 't) PriceLevelMap \<Rightarrow> ('d, 't) PriceLevelMap" where
  "delta_rows B rows m =
     (if 0 < length rows then fold (delta_row (pm_Get B) (pm_set B) (pm_drop B)) rows m else m)"

definition updateByDelta ::
  "('d PriceLevel, 't) BTreeOps \<Rightarrow> 'd :: linordered_idom OrderBookData \<Rightarrow> ('d, 't) OrderBookImpl \<Rightarrow> ('d, 't) OrderBookImpl" where
  "updateByDelta B delta p =
     (let p1 = p\<lparr>ob_AsksMap := delta_rows B (bd_Asks delta) (ob_AsksMap p)\<rparr>
      in p1\<lparr>ob_BidsMap := delta_rows B (bd_Bids delta) (ob_BidsMap p1)\<rparr>)"

text \<open>The body of \<open>resetBySnapshot\<close> for one side.\<close>

definition snapshot_rows ::
  "('d PriceLevel, 't) BTreeOps \<Rightarrow> BookSide \<Rightarrow> 'd :: linordered_idom \<Rightarrow> 'd PriceLevel list \<Rightarrow> ('d, 't) PriceLevelMap \<Rightarrow>
     ('d, 't) PriceLevelMap" where
  "snapshot_rows B s ts rows m =
     (if 0 < length rows then
        (let newMap = fold (\<lambda>a nm. pm_set B nm a) rows (newPriceLevelMap B s ts);
             merged = pm_Range B (\<lambda>price r nm.
               (case pm_Get B nm price of
                  Some sr \<Rightarrow> if isOld sr (pl_SeqID r) then pm_set B nm r else nm
                | None \<Rightarrow> nm, True)) m newMap
         in pm_replace m merged)
      else m)"

definition resetBySnapshot ::
  "('d PriceLevel, 't) BTreeOps \<Rightarrow> 'd :: linordered_idom OrderBookData \<Rightarrow> ('d, 't) OrderBookImpl \<Rightarrow> ('d, 't) OrderBookImpl" where
  "resetBySnapshot B snapshot p =
     (let ts = sym_tickSize (ob_symbol p);
          p1 = p\<lparr>ob_AsksMap := snapshot_rows B BookSideAsk ts (bd_Asks snapshot) (ob_AsksMap p)\<rparr>
      in p1\<lparr>ob_BidsMap := snapshot_rows B BookSideBid ts (bd_Bids snapshot) (ob_BidsMap p1)\<rparr>)"

definition UpdateByOBData ::
  "('d PriceLevel, 't) BTreeOps \<Rightarrow> 'd :: linordered_idom OrderBookData \<Rightarrow> ('d, 't) OrderBookImpl \<Rightarrow> ('d, 't) OrderBookImpl" where
  "UpdateByOBData B data p =
     (let p1 = (case (ob_GetBestAsk p, ob_GetBestBid p) of
                  (Some bestAsk, Some bestBid) \<Rightarrow>
                    p\<lparr>ob_beforeBestAsk := Some (PriceLevel_Copy bestAsk),
                      ob_beforeBestBid := Some (PriceLevel_Copy bestBid)\<rparr>
                | _ \<Rightarrow> p);
          p2 = p1\<lparr>ob_lastExecAt := Some (bd_ExecAt data), ob_lastArrivedAt := Some (bd_ArrivedAt data)\<rparr>;
          p3 = (case bd_Type data of
                  DataTypeSnapshot \<Rightarrow> resetBySnapshot B data p2
                | DataTypeDelta \<Rightarrow> updateByDelta B data p2
                | DataTypeUnknown \<Rightarrow> p2);
          p4 = p3\<lparr>ob_currentBestAsk := Some (PriceLevel_Copy (BestLevel B (ob_AsksMap p3))),
                  ob_currentBestBid := Some (PriceLevel_Copy (BestLevel B (ob_BidsMap p3)))\<rparr>
      in p4\<lparr>ob_calls := ob_calls p4 @ ob_updateCallback p4 @
               (case ob_deferCallback p4 of Some cb \<Rightarrow> [cb] | None \<Rightarrow> [])\<rparr>)"

end
