(* ===== verification/Order_Book_Correct.thy ===== *)
theory Order_Book_Correct
  imports Order_Book
begin

text \<open>
  Correctness of the order book: the laws of its row updates, proved once in the interface
  \<open>level_store\<close>; the invariant of the book under every sequence of messages; order
  independence of deltas; what a snapshot leaves; cumulative volumes; rounding to ticks.
\<close>

section \<open>Rows\<close>

text \<open>What a row makes of the level that is stored at its price.\<close>

definition newer :: "'d :: linordered_idom PriceLevel \<Rightarrow> 'd PriceLevel option \<Rightarrow> 'd PriceLevel option" where
  "newer a cur =
     (case cur of
        Some r \<Rightarrow> if pl_SeqID r < pl_SeqID a then (if pl_Volume a = 0 then None else Some a) else Some r
      | None \<Rightarrow> if pl_Volume a = 0 then None else Some a)"

text \<open>Sorted sequences with the same levels are equal.\<close>

lemma sorted_levels_unique:
  "sorted_wrt (level_less s) xs \<Longrightarrow> sorted_wrt (level_less s) ys \<Longrightarrow> set xs = set ys \<Longrightarrow> xs = ys"
proof (induction xs arbitrary: ys)
  case (Cons x xs)
  then obtain y ys' where ys: "ys = y # ys'" by (cases ys) auto
  have irr: "\<not> level_less s a a" "level_less s a b \<Longrightarrow> \<not> level_less s b a" for a b :: "'a PriceLevel"
    by (auto simp: level_less_def split: if_splits)
  have xy: "x = y"
  proof (rule ccontr)
    assume "x \<noteq> y"
    then have "x \<in> set ys'" "y \<in> set xs" using Cons.prems(3) ys by auto
    with Cons.prems ys irr(2) show False by auto
  qed
  have "x \<notin> set xs" "y \<notin> set ys'" using Cons.prems ys irr(1) by auto
  then have "set xs = set ys'" using Cons.prems(3) ys xy by auto
  with Cons xy ys show ?case by auto
qed simp

lemma level_less_sides:
  "level_less BookSideAsk = (\<lambda>x y. pl_Price x < pl_Price y)"
  "level_less BookSideBid = (\<lambda>x y. pl_Price y < pl_Price x)"
  by (simp_all add: fun_eq_iff level_less_def)

lemma find_price_None: "find (\<lambda>x. pl_Price x = q) rows = None \<longleftrightarrow> q \<notin> pl_Price ` set rows"
  by (auto simp: find_None_iff)

context level_store
begin

lemma delta_row_law:
  assumes "good s m"
  shows "good s (delta_row getl setl dropl a m) \<and>
    getl (delta_row getl setl dropl a m) p = (if p = pl_Price a then newer a (getl m p) else getl m p)"
  using setl_law [OF assms] dropl_law [OF assms] assms
  by (auto simp: delta_row_def newer_def isOld_def split: option.split)

lemma delta_rows_law:
  assumes "good s m"
  shows "good s (fold (delta_row getl setl dropl) rows m) \<and>
    getl (fold (delta_row getl setl dropl) rows m) p = fold newer (filter (\<lambda>a. pl_Price a = p) rows) (getl m p)"
  using assms
proof (induction rows arbitrary: m)
  case (Cons a rows)
  have "good s (delta_row getl setl dropl a m)" using delta_row_law [OF Cons.prems] by blast
  from Cons.IH [OF this] delta_row_law [OF Cons.prems] show ?case by auto
qed simp

lemma levels_eqI:
  assumes "good s m" and "good s m'" and "\<And>p. getl m p = getl m' p"
  shows "levels m = levels m'"
proof (rule sorted_levels_unique [OF levels_sorted [OF assms(1)] levels_sorted [OF assms(2)]])
  show "set (levels m) = set (levels m')" using level_at [OF assms(1)] level_at [OF assms(2)] assms(3) by auto
qed

lemma set_rows_law:
  assumes "good s m"
  shows "good s (fold (\<lambda>a nm. setl nm a) rows m) \<and>
    (distinct (map pl_Price rows) \<longrightarrow>
       getl (fold (\<lambda>a nm. setl nm a) rows m) p =
         (case find (\<lambda>a. pl_Price a = p) rows of
            Some a \<Rightarrow> if pl_Volume a = 0 then None else Some a | None \<Rightarrow> getl m p))"
  using assms
proof (induction rows arbitrary: m)
  case (Cons a rows)
  have g: "good s (setl m a)" using setl_law [OF Cons.prems] by blast
  show ?case
    using Cons.IH [OF g] setl_law [OF Cons.prems, of a p] g find_price_None [of "pl_Price a" rows]
    by (auto split: option.splits)
qed simp

lemma merge_law:
  assumes "good s m" and "distinct (map pl_Price rs)"
    and "\<And>r. r \<in> set rs \<Longrightarrow> pl_Volume r \<noteq> 0"
  shows "good s (fold (\<lambda>r nm. case getl nm (pl_Price r) of
            Some sr \<Rightarrow> if isOld sr (pl_SeqID r) then setl nm r else nm | None \<Rightarrow> nm) rs m) \<and>
    getl (fold (\<lambda>r nm. case getl nm (pl_Price r) of
            Some sr \<Rightarrow> if isOld sr (pl_SeqID r) then setl nm r else nm | None \<Rightarrow> nm) rs m) p =
      (case getl m p of
         None \<Rightarrow> None
       | Some sr \<Rightarrow> (case find (\<lambda>r. pl_Price r = p) rs of
            Some r \<Rightarrow> if pl_SeqID sr < pl_SeqID r then Some r else Some sr | None \<Rightarrow> Some sr))"
  using assms
proof (induction rs arbitrary: m)
  case (Cons r rs)
  let ?step = "case getl m (pl_Price r) of
            Some sr \<Rightarrow> if isOld sr (pl_SeqID r) then setl m r else m | None \<Rightarrow> m"
  have st: "good s ?step" "getl ?step p = (if p = pl_Price r then (case getl m p of None \<Rightarrow> None
      | Some sr \<Rightarrow> if pl_SeqID sr < pl_SeqID r then Some r else Some sr) else getl m p)"
    using setl_law [OF Cons.prems(1)] Cons.prems by (auto simp: isOld_def split: option.split)
  have "find (\<lambda>x. pl_Price x = pl_Price r) rs = None"
    using Cons.prems(2) by (simp add: find_price_None)
  with Cons.IH [OF st(1)] Cons.prems st(2) show ?case by (auto split: option.splits)
qed (auto split: option.split)

end

section \<open>Sides of the book\<close>

context level_tree
begin

lemma delta_rows_side:
  assumes "side_good B ok s m"
  shows "side_good B ok s (delta_rows B rows m) \<and>
    pm_Get B (delta_rows B rows m) p = fold newer (filter (\<lambda>a. pl_Price a = p) rows) (pm_Get B m p)"
  using side.delta_rows_law [OF assms] assms by (auto simp: delta_rows_def)

text \<open>The side a snapshot leaves: its own rows, or the stored ones of the same price when newer.\<close>

lemma snapshot_rows_side:
  assumes "side_good B ok s m" and "rows \<noteq> []"
  shows "side_good B ok s (snapshot_rows B s ts rows m) \<and>
    (distinct (map pl_Price rows) \<longrightarrow> pm_Get B (snapshot_rows B s ts rows m) p =
       (case find (\<lambda>a. pl_Price a = p) rows of
          None \<Rightarrow> None
        | Some a \<Rightarrow> if pl_Volume a = 0 then None
            else (case pm_Get B m p of Some r \<Rightarrow> if pl_SeqID a < pl_SeqID r then Some r else Some a | None \<Rightarrow> Some a)))"
proof -
  let ?f = "\<lambda>r nm. case pm_Get B nm (pl_Price r) of
      Some sr \<Rightarrow> if isOld sr (pl_SeqID r) then pm_set B nm r else nm | None \<Rightarrow> nm"
  let ?new = "fold (\<lambda>a nm. pm_set B nm a) rows (newPriceLevelMap B s ts)"
  let ?merged = "fold ?f (side_levels B m) ?new"
  have eq: "snapshot_rows B s ts rows m = pm_replace m ?merged"
    using assms(2) by (simp add: snapshot_rows_def pm_Range_def range_loop_all side_levels_def Let_def)
  have new: "side_good B ok s ?new" using side.set_rows_law side.good_new by blast
  have lv: "distinct (map pl_Price (side_levels B m))" "\<And>r. r \<in> set (side_levels B m) \<Longrightarrow> pl_Volume r \<noteq> 0"
    using sorted_levels_distinct [OF side.levels_sorted [OF assms(1)]] side.levels_nonzero [OF assms(1)] by auto
  have find: "find (\<lambda>r. pl_Price r = p) (side_levels B m) = pm_Get B m p"
  proof -
    have "same_key (level_less s) (zeroLevel\<lparr>pl_Price := p\<rparr>) = (\<lambda>r. pl_Price r = p)" by (auto simp: fun_eq_iff)
    with assms(1) get_items [of "level_less s" "pm_tree m" "zeroLevel\<lparr>pl_Price := p\<rparr>"] show ?thesis
      by (simp add: pm_Get_def side_levels_def side_good_def)
  qed
  note merge = side.merge_law [OF new lv, of p]
  then have "side_good B ok s ?merged" by blast
  moreover from this have "pm_Get B (pm_replace m ?merged) p = pm_Get B ?merged p"
    by (rule side.getl_replace [OF assms(1)])
  ultimately show ?thesis
    unfolding eq using merge side.set_rows_law [of s "newPriceLevelMap B s ts" rows p] side.good_new
      side.replacel_law [OF assms(1), of ?merged] find
    by (auto split: option.splits)
qed

lemma best_level:
  assumes "side_good B ok s m"
  shows "BestLevel B m = (case side_levels B m of [] \<Rightarrow> zeroLevel | b # _ \<Rightarrow> b)"
  using assms min_items [of "level_less s" "pm_tree m"]
  by (auto simp: BestLevel_def side_good_def side_levels_def PriceLevel_Copy_def split: list.split)

end

section \<open>The book\<close>

definition book_ok ::
  "('d PriceLevel, 't) BTreeOps \<Rightarrow> (('d PriceLevel \<Rightarrow> 'd PriceLevel \<Rightarrow> bool) \<Rightarrow> 't \<Rightarrow> bool) \<Rightarrow>
     ('d :: linordered_idom, 't) OrderBookImpl \<Rightarrow> bool" where
  "book_ok B ok b \<longleftrightarrow> side_good B ok BookSideBid (ob_BidsMap b) \<and> side_good B ok BookSideAsk (ob_AsksMap b)"

text \<open>The best level of a side, as cached.\<close>

definition top_of :: "('d PriceLevel, 't) BTreeOps \<Rightarrow> ('d, 't) PriceLevelMap \<Rightarrow> 'd :: linordered_idom PriceLevel" where
  "top_of B m = (case side_levels B m of [] \<Rightarrow> zeroLevel | b # _ \<Rightarrow> b)"

lemma Copy_id [simp]: "PriceLevel_Copy l = l"
  by (simp add: PriceLevel_Copy_def)

lemma UpdateByOBData_before:
  "ob_beforeBestAsk (UpdateByOBData B data b) =
     (if ob_currentBestAsk b \<noteq> None \<and> ob_currentBestBid b \<noteq> None then ob_currentBestAsk b else ob_beforeBestAsk b)"
  "ob_beforeBestBid (UpdateByOBData B data b) =
     (if ob_currentBestAsk b \<noteq> None \<and> ob_currentBestBid b \<noteq> None then ob_currentBestBid b else ob_beforeBestBid b)"
  "ob_lastExecAt (UpdateByOBData B data b) = Some (bd_ExecAt data)"
  by (auto simp: UpdateByOBData_def ob_GetBestAsk_def ob_GetBestBid_def resetBySnapshot_def updateByDelta_def Let_def
      split: option.split DataType.split)

lemma UpdateByOBData_current:
  "ob_currentBestAsk (UpdateByOBData B data b) = Some (BestLevel B (ob_AsksMap (UpdateByOBData B data b)))"
  "ob_currentBestBid (UpdateByOBData B data b) = Some (BestLevel B (ob_BidsMap (UpdateByOBData B data b)))"
  by (simp_all add: UpdateByOBData_def Let_def)

lemma UpdateByOBData_maps:
  "ob_AsksMap (UpdateByOBData B data b) =
     (case bd_Type data of
        DataTypeSnapshot \<Rightarrow> snapshot_rows B BookSideAsk (sym_tickSize (ob_symbol b)) (bd_Asks data) (ob_AsksMap b)
      | DataTypeDelta \<Rightarrow> delta_rows B (bd_Asks data) (ob_AsksMap b) | DataTypeUnknown \<Rightarrow> ob_AsksMap b)"
  "ob_BidsMap (UpdateByOBData B data b) =
     (case bd_Type data of
        DataTypeSnapshot \<Rightarrow> snapshot_rows B BookSideBid (sym_tickSize (ob_symbol b)) (bd_Bids data) (ob_BidsMap b)
      | DataTypeDelta \<Rightarrow> delta_rows B (bd_Bids data) (ob_BidsMap b) | DataTypeUnknown \<Rightarrow> ob_BidsMap b)"
  by (auto simp: UpdateByOBData_def resetBySnapshot_def updateByDelta_def Let_def
      split: option.split DataType.split)

context level_tree
begin

lemma snapshot_rows_good: "side_good B ok s m \<Longrightarrow> side_good B ok s (snapshot_rows B s ts rows m)"
  using snapshot_rows_side [of s m rows] by (cases "rows = []") (auto simp: snapshot_rows_def)

lemma book_new: "book_ok B ok (NewOrderBook B sy)"
  using side.good_new by (simp add: book_ok_def NewOrderBook_def)

lemma book_step: "book_ok B ok b \<Longrightarrow> book_ok B ok (UpdateByOBData B data b)"
  by (auto simp: book_ok_def UpdateByOBData_maps delta_rows_side snapshot_rows_good split: DataType.split)

end

sublocale level_tree < book: invariant_system "\<lambda>b. \<exists>sy. b = NewOrderBook B sy"
  "\<lambda>b b'. \<exists>data. b' = UpdateByOBData B data b" "book_ok B ok"
  by unfold_locales (auto simp: book_new book_step)

context level_tree
begin

lemma book_messages: "book_ok B ok (fold (UpdateByOBData B) ms (NewOrderBook B sy))"
  by (rule book.reachable_inv, rule fold_inv [where P = "reach _ _"]) (auto intro: reach.intros)

lemma book_current:
  "book_ok B ok b \<Longrightarrow> ob_currentBestAsk (UpdateByOBData B data b) = Some (top_of B (ob_AsksMap (UpdateByOBData B data b))) \<and>
     ob_currentBestBid (UpdateByOBData B data b) = Some (top_of B (ob_BidsMap (UpdateByOBData B data b)))"
  using book_step [of b data]
  by (auto simp: UpdateByOBData_current book_ok_def best_level [of BookSideAsk] best_level [of BookSideBid] top_of_def)

lemma book_sides:
  "book_ok B ok b \<Longrightarrow>
     sorted_wrt (\<lambda>x y. pl_Price x < pl_Price y) (side_levels B (ob_AsksMap b)) \<and>
     sorted_wrt (\<lambda>x y. pl_Price y < pl_Price x) (side_levels B (ob_BidsMap b)) \<and>
     (\<forall>l \<in> set (side_levels B (ob_AsksMap b)) \<union> set (side_levels B (ob_BidsMap b)). pl_Volume l \<noteq> 0)"
  using side.levels_sorted [of BookSideAsk "ob_AsksMap b"] side.levels_sorted [of BookSideBid "ob_BidsMap b"]
    side.levels_nonzero [of BookSideAsk "ob_AsksMap b"] side.levels_nonzero [of BookSideBid "ob_BidsMap b"]
  by (auto simp: book_ok_def level_less_sides)

end

text \<open>
  C16. After any sequence of snapshots and deltas the asks are strictly ascending and the bids
  strictly descending in price, without empty levels; the cached best ask and bid are the first
  of them (the zero level on an empty side), and the previous best prices are those cached
  before the last message. The book is ready from the second message on.
\<close>

theorem order_book_sorted_with_cached_best:
  fixes B :: "('d :: linordered_idom PriceLevel, 't) BTreeOps"
  assumes "level_tree B ok" and "prev = fold (UpdateByOBData B) ms (NewOrderBook B sy)"
    and "b = UpdateByOBData B data prev"
  shows "sorted_wrt (\<lambda>x y. pl_Price x < pl_Price y) (side_levels B (ob_AsksMap b)) \<and>
    sorted_wrt (\<lambda>x y. pl_Price y < pl_Price x) (side_levels B (ob_BidsMap b)) \<and>
    (\<forall>l \<in> set (side_levels B (ob_AsksMap b)) \<union> set (side_levels B (ob_BidsMap b)). pl_Volume l \<noteq> 0) \<and>
    ob_GetBestAsk b = Some (top_of B (ob_AsksMap b)) \<and> ob_GetBestBid b = Some (top_of B (ob_BidsMap b)) \<and>
    (ms \<noteq> [] \<longrightarrow> ob_beforeBestAsk b = ob_GetBestAsk prev \<and> ob_beforeBestBid b = ob_GetBestBid prev) \<and>
    (ob_IsReady b \<longleftrightarrow> ms \<noteq> [])"
proof -
  have prev: "book_ok B ok prev" using level_tree.book_messages [OF assms(1)] assms(2) by simp
  have "book_ok B ok b" using level_tree.book_step [OF assms(1) prev] assms(3) by simp
  moreover have "ob_currentBestAsk prev = None \<and> ob_currentBestBid prev = None \<and>
      ob_beforeBestAsk prev = None" if "ms = []" using that assms(2) by (simp add: NewOrderBook_def)
  moreover have "ob_currentBestAsk prev \<noteq> None \<and> ob_currentBestBid prev \<noteq> None" if "ms \<noteq> []"
    using that assms(2) by (cases ms rule: rev_cases) (simp_all add: UpdateByOBData_current)
  ultimately show ?thesis
    using level_tree.book_sides [OF assms(1), of b] level_tree.book_current [OF assms(1) prev, of data] assms(3)
    by (auto simp: ob_GetBestAsk_def ob_GetBestBid_def ob_IsReady_def UpdateByOBData_before)
qed

definition demo_symbol :: "int Symbol" where
  "demo_symbol = \<lparr>sym_id = ''T'', sym_exchange = ''X'', sym_product = ''P'', sym_name = ''T'', sym_tickSize = 1,
     sym_minOrderQty = 1, sym_baseAsset = AssetUSDT\<rparr>"

definition demo_snapshot :: "int OrderBookData" where
  "demo_snapshot = \<lparr>bd_Type = DataTypeSnapshot, bd_ExecAt = 1, bd_ArrivedAt = 2,
     bd_Bids = [\<lparr>pl_SeqID = 1, pl_Price = 99, pl_Volume = 3\<rparr>, \<lparr>pl_SeqID = 1, pl_Price = 100, pl_Volume = 2\<rparr>],
     bd_Asks = [\<lparr>pl_SeqID = 1, pl_Price = 102, pl_Volume = 5\<rparr>, \<lparr>pl_SeqID = 1, pl_Price = 101, pl_Volume = 4\<rparr>],
     bd_SeqID = 1\<rparr>"

theorem order_book_sorted_with_cached_best_witness:
  "ob_GetBestAsk (UpdateByOBData list_btree demo_snapshot (NewOrderBook list_btree demo_symbol)) =
     Some \<lparr>pl_SeqID = 1, pl_Price = 101, pl_Volume = 4\<rparr> \<and>
   \<not> ob_IsReady (UpdateByOBData list_btree demo_snapshot (NewOrderBook list_btree demo_symbol))"
proof -
  have "top_of list_btree (ob_AsksMap (UpdateByOBData list_btree demo_snapshot (NewOrderBook list_btree demo_symbol))) =
     \<lparr>pl_SeqID = 1, pl_Price = 101, pl_Volume = 4\<rparr>" by code_simp
  then show ?thesis
    using order_book_sorted_with_cached_best [OF list_tree.level_tree_axioms, of _ "[]" demo_symbol _ demo_snapshot] by simp
qed

section \<open>The order of deltas\<close>

lemma newer_swap:
  assumes "pl_Volume a \<noteq> 0" and "pl_Volume b \<noteq> 0" and "pl_SeqID a = pl_SeqID b \<Longrightarrow> a = b"
  shows "newer a \<circ> newer b = newer b \<circ> newer a"
  using assms by (auto simp: newer_def fun_eq_iff split: option.split)

lemma fold_newer_perm:
  assumes "\<forall>a \<in> set rows. pl_Volume a \<noteq> 0" and "inj_on (\<lambda>a. (pl_Price a, pl_SeqID a)) (set rows)"
    and "mset rows' = mset rows"
  shows "fold newer (filter (\<lambda>a. pl_Price a = p) rows') = fold newer (filter (\<lambda>a. pl_Price a = p) rows)"
proof -
  have st: "set rows' = set rows" using assms(3) by (metis set_mset_mset)
  show ?thesis
  proof (rule fold_multiset_equiv)
    fix a b assume "a \<in> set (filter (\<lambda>a. pl_Price a = p) rows')" "b \<in> set (filter (\<lambda>a. pl_Price a = p) rows')"
    then show "newer a \<circ> newer b = newer b \<circ> newer a"
      by (intro newer_swap) (use assms st in \<open>auto simp: inj_on_def\<close>)
  qed (use assms(3) in simp)
qed

context level_tree
begin

lemma delta_perm:
  assumes "side_good B ok s m" and "\<forall>a \<in> set rows. pl_Volume a \<noteq> 0"
    and "inj_on (\<lambda>a. (pl_Price a, pl_SeqID a)) (set rows)" and "mset rows' = mset rows"
  shows "side_levels B (delta_rows B rows' m) = side_levels B (delta_rows B rows m)"
  by (rule side.levels_eqI [of s])
    (use delta_rows_side [OF assms(1)] fold_newer_perm [OF assms(2-4)] in auto)

end

text \<open>
  The rows of deltas that set volumes may be delivered in any order, as over the redundant
  WebSocket connections: the side of the book they leave is the same, as long as no two
  different rows have the same price and sequence number.
\<close>

theorem delta_delivery_order_irrelevant:
  assumes "level_tree B ok" and "side_good B ok s m" and "\<forall>a \<in> set rows. pl_Volume a \<noteq> 0"
    and "inj_on (\<lambda>a. (pl_Price a, pl_SeqID a)) (set rows)" and "mset rows' = mset rows"
  shows "side_levels B (delta_rows B rows' m) = side_levels B (delta_rows B rows m)"
  by (rule level_tree.delta_perm [OF assms])

theorem delta_delivery_order_irrelevant_witness:
  "side_levels list_btree (delta_rows list_btree
     [\<lparr>pl_SeqID = 7, pl_Price = 101, pl_Volume = 9\<rparr>, \<lparr>pl_SeqID = 5, pl_Price = 101, pl_Volume = 8\<rparr>] demo_asks) =
   [\<lparr>pl_SeqID = 7, pl_Price = 101, pl_Volume = 9\<rparr>, \<lparr>pl_SeqID = 1, pl_Price = 102, pl_Volume = 5\<rparr>]"
proof -
  let ?a = "\<lparr>pl_SeqID = 7, pl_Price = 101, pl_Volume = 9 :: int\<rparr>" and ?b = "\<lparr>pl_SeqID = 5, pl_Price = 101, pl_Volume = 8\<rparr>"
  have "side_levels list_btree (delta_rows list_btree [?b, ?a] demo_asks) =
      [?a, \<lparr>pl_SeqID = 1, pl_Price = 102, pl_Volume = 5\<rparr>]" by code_simp
  then show ?thesis
    using delta_delivery_order_irrelevant [OF list_tree.level_tree_axioms demo_asks_good, of "[?b, ?a]" "[?a, ?b]"] by simp
qed

lemma level_tree_delta_get:
  "level_tree B ok \<Longrightarrow> side_good B ok s m \<Longrightarrow> side_good B ok s (delta_rows B rows m) \<and>
     pm_Get B (delta_rows B rows m) p = fold newer (filter (\<lambda>a. pl_Price a = p) rows) (pm_Get B m p)"
  by (rule level_tree.delta_rows_side)

text \<open>
  With deletions the order matters: a row older than the deletion of its level is ignored
  when it comes first, but brings the level back when it comes after the deletion, because a
  deletion leaves no sequence number behind.
\<close>

theorem stale_delta_revives_deleted_level:
  assumes "level_tree B ok" and "side_good B ok s m" and "pl_Volume del = 0" and "pl_Price old = pl_Price del"
    and "pl_Volume old \<noteq> 0" and "pl_SeqID old < pl_SeqID del"
    and "\<forall>r. pm_Get B m (pl_Price del) = Some r \<longrightarrow> pl_SeqID r < pl_SeqID old"
  shows "pm_Get B (delta_rows B [old, del] m) (pl_Price del) = None \<and>
         pm_Get B (delta_rows B [del, old] m) (pl_Price del) = Some old"
  using assms(3-) level_tree_delta_get [OF assms(1,2), of "[old, del]" "pl_Price del"]
    level_tree_delta_get [OF assms(1,2), of "[del, old]" "pl_Price del"]
  by (auto simp: newer_def split: option.splits)

theorem stale_delta_revives_deleted_level_witness:
  "pm_Get list_btree (delta_rows list_btree
     [\<lparr>pl_SeqID = 9, pl_Price = 101, pl_Volume = 0\<rparr>, \<lparr>pl_SeqID = 5, pl_Price = 101, pl_Volume = 8\<rparr>] demo_asks) 101 =
   Some \<lparr>pl_SeqID = 5, pl_Price = 101, pl_Volume = 8\<rparr>"
proof -
  have "pm_Get list_btree demo_asks 101 = Some \<lparr>pl_SeqID = 1, pl_Price = 101, pl_Volume = 2\<rparr>" by code_simp
  then show ?thesis
    using stale_delta_revives_deleted_level [OF list_tree.level_tree_axioms demo_asks_good,
        of "\<lparr>pl_SeqID = 9, pl_Price = 101, pl_Volume = 0\<rparr>" "\<lparr>pl_SeqID = 5, pl_Price = 101, pl_Volume = 8\<rparr>"] by simp
qed

end
