(* ===== verification/Book_Figures.thy ===== *)
theory Book_Figures
  imports Order_Book_Correct
begin

text \<open>
  Figures computed from the book: the side a snapshot leaves, the cumulative volume maps, the
  depth queries and the rounding to ticks. Division and truncation of decimals are
  parameters; the locale \<open>decimal_ops\<close> states what the package documents of them, and is
  interpreted on rational numbers.
\<close>

section \<open>Snapshots\<close>

text \<open>
  A snapshot with rows for a side replaces that side: at each price of the snapshot the newer
  of its row and the stored row remains (the snapshot's on a tie), an empty row removes the
  level, and every level at a price the snapshot does not have is gone, even one that is newer
  than the snapshot. A snapshot without rows for the side changes nothing.
\<close>

theorem snapshot_replaces_side:
  assumes "level_tree B ok" and "side_good B ok s m" and "distinct (map pl_Price rows)"
  shows "pm_Get B (snapshot_rows B s ts rows m) p =
    (if rows = [] then pm_Get B m p
     else case find (\<lambda>a. pl_Price a = p) rows of
        None \<Rightarrow> None
      | Some a \<Rightarrow> if pl_Volume a = 0 then None
          else (case pm_Get B m p of Some r \<Rightarrow> if isOld a (pl_SeqID r) then Some r else Some a | None \<Rightarrow> Some a))"
proof (cases "rows = []")
  case True
  then show ?thesis by (simp add: snapshot_rows_def)
next
  case False
  with level_tree.snapshot_rows_side [OF assms(1,2) False, of ts p] assms(3) show ?thesis
    unfolding isOld_def by simp
qed

theorem snapshot_replaces_side_witness:
  "pm_Get list_btree (snapshot_rows list_btree BookSideAsk 1
     [\<lparr>pl_SeqID = 0, pl_Price = 101, pl_Volume = 6\<rparr>] demo_asks) 101 =
     Some \<lparr>pl_SeqID = 1, pl_Price = 101, pl_Volume = 2\<rparr> \<and>
   pm_Get list_btree (snapshot_rows list_btree BookSideAsk 1
     [\<lparr>pl_SeqID = 0, pl_Price = 101, pl_Volume = 6\<rparr>] demo_asks) 102 = None"
proof -
  have "pm_Get list_btree demo_asks 101 = Some \<lparr>pl_SeqID = 1, pl_Price = 101, pl_Volume = 2\<rparr>" by code_simp
  then show ?thesis
    using snapshot_replaces_side [OF list_tree.level_tree_axioms demo_asks_good,
        of "[\<lparr>pl_SeqID = 0, pl_Price = 101, pl_Volume = 6\<rparr>]"] by (simp add: isOld_def)
qed

section \<open>Cumulative volumes\<close>

text \<open>One step of the running sum.\<close>

definition sum_step ::
  "('d PriceLevel, 't) BTreeOps \<Rightarrow> 'd :: linordered_idom PriceLevel \<Rightarrow> 'd \<times> ('d, 't) PriceLevelMap \<Rightarrow> 'd \<times> ('d, 't) PriceLevelMap" where
  "sum_step B r sv =
     (fst sv + pl_Volume r,
      pm_set B (snd sv) \<lparr>pl_SeqID = 0, pl_Price = pl_Price r, pl_Volume = fst sv + pl_Volume r\<rparr>)"

lemma volSumMap_fold:
  "volSumMap B s ts m = snd (fold (sum_step B) (side_levels B m) (0, newPriceLevelMap B s ts))"
  unfolding volSumMap_def pm_SortedRange_def side_levels_def
  by (subst range_loop_all)
    (auto simp: sum_step_def Let_def case_prod_beta fun_eq_iff intro!: arg_cong [where f = snd] fold_cong)

context level_tree
begin

lemma running_sum:
  assumes "side_good B ok s vm" and "sorted_wrt (level_less s) ls" and "\<forall>l \<in> set ls. 0 < pl_Volume l" and "0 \<le> acc"
  shows "side_good B ok s (snd (fold (sum_step B) ls (acc, vm))) \<and>
    pm_Get B (snd (fold (sum_step B) ls (acc, vm))) p =
      (if p \<in> pl_Price ` set ls
       then Some \<lparr>pl_SeqID = 0, pl_Price = p, pl_Volume = acc + sum_list (map pl_Volume (filter (reaches s p) ls))\<rparr>
       else pm_Get B vm p)"
  using assms
proof (induction ls arbitrary: acc vm)
  case (Cons r ls)
  let ?acc = "acc + pl_Volume r"
  let ?vm = "pm_set B vm \<lparr>pl_SeqID = 0, pl_Price = pl_Price r, pl_Volume = ?acc\<rparr>"
  have pos: "0 < ?acc" using Cons.prems by (simp add: add_nonneg_pos)
  have vm: "side_good B ok s ?vm" "pm_Get B ?vm p = (if p = pl_Price r
      then Some \<lparr>pl_SeqID = 0, pl_Price = pl_Price r, pl_Volume = ?acc\<rparr> else pm_Get B vm p)"
    using side.setl_law [OF Cons.prems(1)] pos by auto
  have IH: "side_good B ok s (snd (fold (sum_step B) ls (?acc, ?vm))) \<and>
    pm_Get B (snd (fold (sum_step B) ls (?acc, ?vm))) p =
      (if p \<in> pl_Price ` set ls
       then Some \<lparr>pl_SeqID = 0, pl_Price = p, pl_Volume = ?acc + sum_list (map pl_Volume (filter (reaches s p) ls))\<rparr>
       else pm_Get B ?vm p)"
    using Cons.IH [OF vm(1)] Cons.prems pos by simp
  have own: "filter (reaches s (pl_Price r)) ls = []" "reaches s (pl_Price r) r" "pl_Price r \<notin> pl_Price ` set ls"
    using Cons.prems(2) by (auto simp: reaches_def level_less_def filter_empty_conv split: if_splits)
  have "reaches s p r" if "p \<in> pl_Price ` set ls"
    using that Cons.prems(2) by (auto simp: reaches_def level_less_def split: if_splits)
  then show ?case using IH own vm(2) by (auto simp: sum_step_def [of B r] add.assoc)
qed simp

lemma vol_sum_map:
  assumes "side_good B ok s m" and "\<forall>l \<in> set (side_levels B m). 0 < pl_Volume l" and "s = BookSideAsk \<or> s = BookSideBid"
  shows "pm_Get B (volSumMap B s ts m) p =
    (if pm_Get B m p \<noteq> None then Some \<lparr>pl_SeqID = 0, pl_Price = p, pl_Volume = pm_SumVolume B m p\<rparr> else None)"
proof -
  have srt: "sorted_wrt (level_less s) (side_levels B m)" by (rule side.levels_sorted [OF assms(1)])
  have q: "pm_q m = s" using assms(1) by (simp add: side_good_def)
  have "pm_SumVolume B m p = sum_list (map pl_Volume (filter (reaches s p) (side_levels B m)))"
    using sum_loop [OF srt assms(3), of p 0]
    unfolding pm_SumVolume_def pm_SortedRange_def q side_levels_def by simp
  moreover have "p \<in> pl_Price ` set (side_levels B m) \<longleftrightarrow> pm_Get B m p \<noteq> None"
    using side.getl_levels [OF assms(1), of p] by (auto simp: image_iff)
  moreover have "side_good B ok s (newPriceLevelMap B s ts)" using side.good_new by blast
  ultimately show ?thesis
    using running_sum [OF _ srt assms(2), of "newPriceLevelMap B s ts" 0 p] by (simp add: volSumMap_fold)
qed

end

text \<open>
  On an ask side with positive volumes \<open>CalculateAsksVolSumMap\<close> tabulates \<open>SumVolume\<close>: it
  has exactly the prices of the side, each with the volume a limit order resting there has to
  wait for. The same holds for the bids.
\<close>

theorem vol_sum_maps_tabulate_SumVolume:
  assumes "level_tree B ok" and "book_ok B ok b"
    and "\<forall>l \<in> set (side_levels B (ob_AsksMap b)) \<union> set (side_levels B (ob_BidsMap b)). 0 < pl_Volume l"
  shows "pm_Get B (CalculateAsksVolSumMap B b) p =
      (if pm_Get B (ob_AsksMap b) p \<noteq> None
       then Some \<lparr>pl_SeqID = 0, pl_Price = p, pl_Volume = ob_SumVolume B b BookSideAsk p\<rparr> else None) \<and>
    pm_Get B (CalculateBidsVolSumMap B b) p =
      (if pm_Get B (ob_BidsMap b) p \<noteq> None
       then Some \<lparr>pl_SeqID = 0, pl_Price = p, pl_Volume = ob_SumVolume B b BookSideBid p\<rparr> else None)"
  using level_tree.vol_sum_map [OF assms(1), of BookSideAsk "ob_AsksMap b" "sym_tickSize (ob_symbol b)" p]
    level_tree.vol_sum_map [OF assms(1), of BookSideBid "ob_BidsMap b" "sym_tickSize (ob_symbol b)" p] assms(2,3)
  by (simp add: CalculateAsksVolSumMap_def CalculateBidsVolSumMap_def ob_SumVolume_def book_ok_def)

definition demo_book :: "(int, (int PriceLevel \<Rightarrow> int PriceLevel \<Rightarrow> bool) \<times> int PriceLevel list) OrderBookImpl" where
  "demo_book = UpdateByOBData list_btree demo_snapshot (NewOrderBook list_btree demo_symbol)"

theorem vol_sum_maps_tabulate_SumVolume_witness:
  "pm_Get list_btree (CalculateAsksVolSumMap list_btree demo_book) 102 =
     Some \<lparr>pl_SeqID = 0, pl_Price = 102, pl_Volume = 9\<rparr>"
proof -
  have "book_ok list_btree list_ok demo_book"
    unfolding demo_book_def by (rule list_tree.book_step [OF list_tree.book_new])
  moreover have "list_all (\<lambda>l. 0 < pl_Volume l) (side_levels list_btree (ob_AsksMap demo_book) @ side_levels list_btree (ob_BidsMap demo_book))"
    "pm_Get list_btree (ob_AsksMap demo_book) 102 = Some \<lparr>pl_SeqID = 1, pl_Price = 102, pl_Volume = 5\<rparr>"
    "ob_SumVolume list_btree demo_book BookSideAsk 102 = 9" by code_simp+
  ultimately show ?thesis
    using vol_sum_maps_tabulate_SumVolume [OF list_tree.level_tree_axioms, of demo_book 102] by (simp add: list_all_iff)
qed

section \<open>Depth queries\<close>

lemma top_loop:
  "range_loop (\<lambda>r ls. (ls @ [r], int (length (ls @ [r])) < depth)) xs acc =
     acc @ take (max 1 (nat (depth - int (length acc)))) xs"
proof (induction xs arbitrary: acc)
  case (Cons x xs)
  show ?case
  proof (cases "int (length acc) + 1 < depth")
    case True
    then have "max 1 (nat (depth - int (length acc))) = Suc (max 1 (nat (depth - int (length (acc @ [x])))))" by simp
    with True Cons show ?thesis by simp
  next
    case False
    then have "max 1 (nat (depth - int (length acc))) = 1" by simp
    with False show ?thesis by simp
  qed
qed simp

lemma top_levels_take: "top_levels B m depth = take (max 1 (nat depth)) (side_levels B m)"
  using top_loop [of depth "side_levels B m" "[]"] by (simp add: top_levels_def pm_SortedRange_def side_levels_def)

section \<open>Ticks\<close>

text \<open>
  What \<open>shopspring/decimal\<close> documents: \<open>Div\<close> rounds the quotient to 16 decimal places, so it
  is within half a unit of the last place, and exact for integer quotients; \<open>Truncate(0)\<close> cuts
  the fraction off.
\<close>

locale decimal_ops =
  fixes dv :: "'d :: linordered_idom \<Rightarrow> 'd \<Rightarrow> 'd" and tr :: "'d \<Rightarrow> 'd"
  assumes dv_close: "b \<noteq> 0 \<Longrightarrow> 2 * 10 ^ 16 * \<bar>dv a b * b - a\<bar> \<le> \<bar>b\<bar>"
    and dv_exact: "b \<noteq> 0 \<Longrightarrow> dv (of_int k * b) b = of_int k"
    and dv_sign: "0 \<le> a \<Longrightarrow> 0 < b \<Longrightarrow> 0 \<le> dv a b"
    and tr_int: "\<exists>n. tr x = of_int n"
    and tr_pos: "0 \<le> x \<Longrightarrow> 0 \<le> tr x \<and> tr x \<le> x \<and> x < tr x + 1"
    and tr_of_int: "tr (of_int n) = of_int n"
begin

lemma round_tick:
  assumes "0 < t" and "0 \<le> price"
  shows "(\<exists>n. tr (dv price t) * t = of_int n * t) \<and>
    2 * 10 ^ 16 * (tr (dv price t) * t - price) \<le> t \<and> 2 * 10 ^ 16 * (price - (tr (dv price t) * t + t)) < t \<and>
    (dv price t * t = price \<longrightarrow> tr (dv price t) * t \<le> price \<and> price < tr (dv price t) * t + t)"
proof -
  let ?x = "dv price t"
  have x: "0 \<le> tr ?x" "tr ?x \<le> ?x" "?x < tr ?x + 1" using tr_pos [OF dv_sign [OF assms(2,1)]] by auto
  have lo: "tr ?x * t \<le> ?x * t" using x(2) assms(1) by (intro mult_right_mono) auto
  have hi: "?x * t < tr ?x * t + t" using mult_strict_right_mono [OF x(3) assms(1)] by (simp add: algebra_simps)
  have c: "2 * 10 ^ 16 * \<bar>?x * t - price\<bar> \<le> t" using dv_close [of t price] assms(1) by simp
  have "2 * 10 ^ 16 * (tr ?x * t - price) \<le> 2 * 10 ^ 16 * \<bar>?x * t - price\<bar>"
    using lo by (intro mult_left_mono) (auto simp: abs_if)
  moreover have "2 * 10 ^ 16 * (price - (tr ?x * t + t)) < 2 * 10 ^ 16 * \<bar>?x * t - price\<bar> + 0 \<or>
      2 * 10 ^ 16 * (price - (tr ?x * t + t)) < 0"
    using hi by (auto simp: abs_if)
  ultimately show ?thesis using c lo hi assms(1) tr_int by (auto intro: order_trans less_le_trans)
qed

end

text \<open>The rational numbers with rounding to 16 places, half away from zero.\<close>

definition rat_div16 :: "rat \<Rightarrow> rat \<Rightarrow> rat" where
  "rat_div16 a b = sgn (a / b) * (of_int \<lfloor>\<bar>a / b\<bar> * 10 ^ 16 + 1 / 2\<rfloor> / 10 ^ 16)"

definition rat_trunc :: "rat \<Rightarrow> rat" where
  "rat_trunc x = sgn x * of_int \<lfloor>\<bar>x\<bar>\<rfloor>"

lemma rat_div16_close: "2 * 10 ^ 16 * \<bar>rat_div16 a b - a / b\<bar> \<le> 1"
proof -
  let ?y = "\<bar>a / b\<bar>"
  have "a / b = sgn (a / b) * ?y" by (rule sgn_mult_abs [symmetric])
  then have "rat_div16 a b - a / b = sgn (a / b) * (of_int \<lfloor>?y * 10 ^ 16 + 1 / 2\<rfloor> / 10 ^ 16 - ?y)"
    unfolding rat_div16_def by (metis right_diff_distrib)
  then have "\<bar>rat_div16 a b - a / b\<bar> \<le> \<bar>of_int \<lfloor>?y * 10 ^ 16 + 1 / 2\<rfloor> / 10 ^ 16 - ?y\<bar>"
    by (simp add: abs_mult sgn_if)
  also have "\<dots> = \<bar>of_int \<lfloor>?y * 10 ^ 16 + 1 / 2\<rfloor> - ?y * 10 ^ 16\<bar> / 10 ^ 16" by (simp add: field_simps)
  also have "\<dots> \<le> (1 / 2) / 10 ^ 16"
  proof (rule divide_right_mono)
    have "\<bar>of_int \<lfloor>z + 1 / 2\<rfloor> - z\<bar> \<le> 1 / 2" for z :: rat
      using floor_correct [of "z + 1 / 2"] by linarith
    then show "\<bar>of_int \<lfloor>?y * 10 ^ 16 + 1 / 2\<rfloor> - ?y * 10 ^ 16\<bar> \<le> 1 / 2" by blast
  qed simp
  finally show ?thesis by simp
qed

lemma rat_div16_int: "b \<noteq> 0 \<Longrightarrow> rat_div16 (of_int k * b) b = of_int k"
proof -
  assume "b \<noteq> 0"
  have "\<lfloor>\<bar>of_int k :: rat\<bar> * 10 ^ 16 + 1 / 2\<rfloor> = \<bar>k\<bar> * 10 ^ 16"
    by (rule floor_unique) (auto simp flip: of_int_abs)
  then have "of_int \<lfloor>\<bar>of_int k :: rat\<bar> * 10 ^ 16 + 1 / 2\<rfloor> / 10 ^ 16 = \<bar>of_int k :: rat\<bar>" by simp
  with \<open>b \<noteq> 0\<close> show ?thesis by (simp add: rat_div16_def sgn_mult_abs)
qed

interpretation rat_dec: decimal_ops rat_div16 rat_trunc
proof
  show "2 * 10 ^ 16 * \<bar>rat_div16 a b * b - a\<bar> \<le> \<bar>b\<bar>" if "b \<noteq> 0" for a b
  proof -
    have "rat_div16 a b * b - a = (rat_div16 a b - a / b) * b" using that by (simp add: left_diff_distrib)
    then have "2 * 10 ^ 16 * \<bar>rat_div16 a b * b - a\<bar> = (2 * 10 ^ 16 * \<bar>rat_div16 a b - a / b\<bar>) * \<bar>b\<bar>"
      by (simp add: abs_mult)
    also have "\<dots> \<le> 1 * \<bar>b\<bar>" by (rule mult_right_mono [OF rat_div16_close]) simp
    finally show ?thesis by simp
  qed
  show "rat_div16 (of_int k * b) b = of_int k" if "b \<noteq> 0" for b k by (rule rat_div16_int [OF that])
  show "0 \<le> rat_div16 a b" if "0 \<le> a" "0 < b" for a b
    using that by (auto simp: rat_div16_def sgn_if)
  show "\<exists>n. rat_trunc x = of_int n" for x
    by (auto simp: rat_trunc_def sgn_if intro: exI [of _ "- \<lfloor>\<bar>x\<bar>\<rfloor>"])
  show "0 \<le> rat_trunc x \<and> rat_trunc x \<le> x \<and> x < rat_trunc x + 1" if "0 \<le> x" for x
    using that floor_correct [of x] by (cases "x = 0") (simp_all add: rat_trunc_def)
  show "rat_trunc (of_int n) = of_int n" for n
    by (simp add: rat_trunc_def sgn_mult_abs floor_of_int del: of_int_abs flip: of_int_abs)
      (simp add: sgn_mult_abs)
qed

text \<open>
  Rounding a non-negative price to ticks yields a whole number of ticks; it lies within one
  tick below the price and above it by at most half of the sixteenth decimal of a tick, the
  precision of the division; when the division is exact it is the largest multiple not above
  the price. \<open>CalcBestPrice\<close> answers that price as bid and the next tick as ask.
\<close>

theorem RoundToTickSize_bounds:
  assumes "decimal_ops dv tr" and "0 < sym_tickSize (ob_symbol b)" and "0 \<le> price"
  shows "\<exists>r n. ob_RoundToTickSize dv tr b price = Inr r \<and>
    ob_CalcBestPrice dv tr b price = Inr (r + sym_tickSize (ob_symbol b), r) \<and>
    r = of_int n * sym_tickSize (ob_symbol b) \<and>
    2 * 10 ^ 16 * (r - price) \<le> sym_tickSize (ob_symbol b) \<and>
    2 * 10 ^ 16 * (price - (r + sym_tickSize (ob_symbol b))) < sym_tickSize (ob_symbol b) \<and>
    (dv price (sym_tickSize (ob_symbol b)) * sym_tickSize (ob_symbol b) = price \<longrightarrow>
       r \<le> price \<and> price < r + sym_tickSize (ob_symbol b))"
proof -
  let ?t = "sym_tickSize (ob_symbol b)"
  have "ob_RoundToTickSize dv tr b price = Inr (tr (dv price ?t) * ?t)"
    "ob_CalcBestPrice dv tr b price = Inr (tr (dv price ?t) * ?t + ?t, tr (dv price ?t) * ?t)"
    using assms(2) by (simp_all add: ob_CalcBestPrice_def ob_RoundToTickSize_def RoundToTick_def dec_Div_def)
  with decimal_ops.round_tick [OF assms] show ?thesis by auto
qed

theorem RoundToTickSize_bounds_witness:
  "\<exists>r n. ob_RoundToTickSize rat_div16 rat_trunc
       (NewOrderBook list_btree (symbols id ! 5)) (10123 / 100) = Inr r \<and> r = of_int n * (1 / 10)"
proof -
  have t: "sym_tickSize (ob_symbol (NewOrderBook list_btree (symbols id ! 5))) = 1 / 10"
    by (simp add: NewOrderBook_def symbols_def master_symbols_def newSymbol_def Let_def)
  show ?thesis
    using RoundToTickSize_bounds [OF rat_dec.decimal_ops_axioms, of "NewOrderBook list_btree (symbols id ! 5)" "10123 / 100"]
    unfolding t by auto
qed

end
