(* ===== verification/Quote_Trade.thy ===== *)
theory Quote_Trade
  imports Book_Figures Orders
begin

text \<open>
  \<open>insights/quote.go\<close> and \<open>insights/trade.go\<close>: the best bid and ask of a symbol as
  published by the exchange, and its trades. Callbacks are known by numbers; the calls made
  are recorded. An update of the quote runs under \<open>muLockToUpdateHandler\<close>.
\<close>

section \<open>quote.go\<close>

record 'd QuoteData =
  qd_SeqID :: int
  qd_ExecAt :: time
  qd_EventAt :: time
  qd_ArrivedAt :: time
  qd_BestAsk :: "'d PriceLevel option"
  qd_BestBid :: "'d PriceLevel option"

record 'd QuoteImpl =
  qt_seqID :: int
  qt_symbol :: "'d Symbol"
  qt_lastExecAt :: "time option"
  qt_lastEventAt :: "time option"
  qt_lastArrivedAt :: "time option"
  qt_bestAsk :: "'d PriceLevel option"
  qt_bestBid :: "'d PriceLevel option"
  qt_beforeBestAsk :: "'d PriceLevel option"
  qt_beforeBestBid :: "'d PriceLevel option"
  qt_updateCallback :: "nat list"
  qt_calls :: "nat list"

definition NewQuote :: "'d Symbol \<Rightarrow> 'd QuoteImpl" where
  "NewQuote symbol = \<lparr>qt_seqID = 0, qt_symbol = symbol, qt_lastExecAt = None, qt_lastEventAt = None,
     qt_lastArrivedAt = None, qt_bestAsk = None, qt_bestBid = None, qt_beforeBestAsk = None,
     qt_beforeBestBid = None, qt_updateCallback = [], qt_calls = []\<rparr>"

definition qt_IsReady :: "'d QuoteImpl \<Rightarrow> bool" where
  "qt_IsReady q \<longleftrightarrow> qt_bestBid q \<noteq> None \<and> qt_bestAsk q \<noteq> None \<and> qt_beforeBestBid q \<noteq> None \<and>
     qt_beforeBestAsk q \<noteq> None \<and> qt_lastArrivedAt q \<noteq> None"

definition qt_GetTickSize :: "'d QuoteImpl \<Rightarrow> 'd" where "qt_GetTickSize q = sym_tickSize (qt_symbol q)"
definition qt_GetMinOrderQty :: "'d QuoteImpl \<Rightarrow> 'd" where "qt_GetMinOrderQty q = sym_minOrderQty (qt_symbol q)"
definition qt_GetBestAsk :: "'d QuoteImpl \<Rightarrow> 'd PriceLevel option" where "qt_GetBestAsk q = qt_bestAsk q"
definition qt_GetBestBid :: "'d QuoteImpl \<Rightarrow> 'd PriceLevel option" where "qt_GetBestBid q = qt_bestBid q"
definition qt_GetLastExecAt :: "'d QuoteImpl \<Rightarrow> time option" where "qt_GetLastExecAt q = qt_lastExecAt q"
definition qt_GetSeqID :: "'d QuoteImpl \<Rightarrow> int" where "qt_GetSeqID q = qt_seqID q"

definition qt_RoundToTickSize ::
  "('d \<Rightarrow> 'd \<Rightarrow> 'd) \<Rightarrow> ('d \<Rightarrow> 'd) \<Rightarrow> 'd QuoteImpl \<Rightarrow> 'd :: linordered_idom \<Rightarrow> 'd result" where
  "qt_RoundToTickSize dv tr q price =
     bind_r (dec_Div dv price (sym_tickSize (qt_symbol q))) (\<lambda>quo. Inr (tr quo * sym_tickSize (qt_symbol q)))"

definition qt_CalcBestPrice ::
  "('d \<Rightarrow> 'd \<Rightarrow> 'd) \<Rightarrow> ('d \<Rightarrow> 'd) \<Rightarrow> 'd QuoteImpl \<Rightarrow> 'd :: linordered_idom \<Rightarrow> ('d \<times> 'd) result" where
  "qt_CalcBestPrice dv tr q midPrice =
     bind_r (qt_RoundToTickSize dv tr q midPrice) (\<lambda>a.
     bind_r (qt_RoundToTickSize dv tr q midPrice) (\<lambda>bestBid.
       Inr (a + sym_tickSize (qt_symbol q), bestBid)))"

definition qt_GetDiffBestAsk :: "'d :: linordered_idom QuoteImpl \<Rightarrow> 'd PriceLevel result" where
  "qt_GetDiffBestAsk q = diff_levels (qt_bestAsk q) (qt_beforeBestAsk q)"
definition qt_GetDiffBestBid :: "'d :: linordered_idom QuoteImpl \<Rightarrow> 'd PriceLevel result" where
  "qt_GetDiffBestBid q = diff_levels (qt_bestBid q) (qt_beforeBestBid q)"

definition qt_SetUpdateCallback :: "nat \<Rightarrow> 'd QuoteImpl \<Rightarrow> 'd QuoteImpl" where
  "qt_SetUpdateCallback cb q = q\<lparr>qt_updateCallback := qt_updateCallback q @ [cb]\<rparr>"

definition Quote_Update :: "'d QuoteData \<Rightarrow> 'd QuoteImpl \<Rightarrow> 'd QuoteImpl" where
  "Quote_Update msg q0 =
     (let q = (case (qt_GetBestAsk q0, qt_GetBestBid q0) of
                 (Some bestAsk, Some bestBid) \<Rightarrow>
                   q0\<lparr>qt_beforeBestAsk := Some (PriceLevel_Copy bestAsk),
                      qt_beforeBestBid := Some (PriceLevel_Copy bestBid)\<rparr>
               | _ \<Rightarrow> q0)
      in if (case qt_GetLastExecAt q of Some t \<Rightarrow> qd_ExecAt msg < t | None \<Rightarrow> False) then q
         else if qd_SeqID msg < qt_GetSeqID q then q
         else
           (let q1 = q\<lparr>qt_seqID := qd_SeqID msg, qt_lastExecAt := Some (qd_ExecAt msg),
                       qt_lastEventAt := Some (qd_EventAt msg), qt_lastArrivedAt := Some (qd_ArrivedAt msg),
                       qt_bestAsk := qd_BestAsk msg, qt_bestBid := qd_BestBid msg\<rparr>
            in q1\<lparr>qt_calls := qt_calls q1 @ qt_updateCallback q1\<rparr>))"

section \<open>trade.go\<close>

record 'd TradeData =
  td_ExecAt :: time
  td_ArrivedAt :: time
  td_Side :: Side
  td_Volume :: 'd
  td_Price :: 'd

definition td_GetSize :: "'d :: linordered_idom TradeData \<Rightarrow> 'd" where
  "td_GetSize d = ToSize (td_Side d) (td_Volume d)"

definition GetSumSize :: "'d :: linordered_idom TradeData list \<Rightarrow> 'd" where
  "GetSumSize l = fold (\<lambda>m sm. sm + td_GetSize m) l 0"
definition GetSumSellVolume :: "'d :: linordered_idom TradeData list \<Rightarrow> 'd" where
  "GetSumSellVolume l = fold (\<lambda>m sm. if td_Side m = SideSell then sm + td_Volume m else sm) l 0"
definition GetSumBuyVolume :: "'d :: linordered_idom TradeData list \<Rightarrow> 'd" where
  "GetSumBuyVolume l = fold (\<lambda>m sm. if td_Side m = SideBuy then sm + td_Volume m else sm) l 0"

definition TradeDataList_GetExecAt :: "'d TradeData list \<Rightarrow> time result" where
  "TradeDataList_GetExecAt l = (case l of [] \<Rightarrow> Inl IndexOutOfRange | m # _ \<Rightarrow> Inr (td_ExecAt m))"
definition TradeDataList_GetArrivedAt :: "'d TradeData list \<Rightarrow> time result" where
  "TradeDataList_GetArrivedAt l = (case l of [] \<Rightarrow> Inl IndexOutOfRange | m # _ \<Rightarrow> Inr (td_ArrivedAt m))"

record 'd TradeImpl =
  tr_handlers :: "nat list"
  tr_lastUpdateAt :: "time option"
  tr_calls :: "(nat \<times> 'd TradeData list) list"

definition NewTrade :: "'d TradeImpl" where
  "NewTrade = \<lparr>tr_handlers = [], tr_lastUpdateAt = None, tr_calls = []\<rparr>"
definition Trade_SetUpdateCallback :: "nat \<Rightarrow> 'd TradeImpl \<Rightarrow> 'd TradeImpl" where
  "Trade_SetUpdateCallback cb t = t\<lparr>tr_handlers := tr_handlers t @ [cb]\<rparr>"
definition Trade_Update :: "time \<Rightarrow> 'd TradeData list \<Rightarrow> 'd TradeImpl \<Rightarrow> 'd TradeImpl" where
  "Trade_Update now msg t =
     t\<lparr>tr_calls := tr_calls t @ map (\<lambda>h. (h, msg)) (tr_handlers t), tr_lastUpdateAt := Some now\<rparr>"
definition Trade_IsReady :: "'d TradeImpl \<Rightarrow> bool" where
  "Trade_IsReady t \<longleftrightarrow> tr_lastUpdateAt t \<noteq> None"

section \<open>The newest quote wins\<close>

text \<open>The messages a quote does not take.\<close>

definition stale :: "'d QuoteImpl \<Rightarrow> 'd QuoteData \<Rightarrow> bool" where
  "stale q msg \<longleftrightarrow> (\<exists>t. qt_lastExecAt q = Some t \<and> qd_ExecAt msg < t) \<or> qd_SeqID msg < qt_seqID q"

lemma Quote_Update_sel:
  "qt_bestAsk (Quote_Update msg q) = (if stale q msg then qt_bestAsk q else qd_BestAsk msg)"
  "qt_bestBid (Quote_Update msg q) = (if stale q msg then qt_bestBid q else qd_BestBid msg)"
  "qt_seqID (Quote_Update msg q) = (if stale q msg then qt_seqID q else qd_SeqID msg)"
  "qt_lastExecAt (Quote_Update msg q) = (if stale q msg then qt_lastExecAt q else Some (qd_ExecAt msg))"
  "qt_calls (Quote_Update msg q) = (if stale q msg then qt_calls q else qt_calls q @ qt_updateCallback q)"
  "qt_beforeBestAsk (Quote_Update msg q) =
     (if qt_bestAsk q \<noteq> None \<and> qt_bestBid q \<noteq> None then qt_bestAsk q else qt_beforeBestAsk q)"
  by (auto simp: Quote_Update_def stale_def qt_GetBestAsk_def qt_GetBestBid_def qt_GetLastExecAt_def
      qt_GetSeqID_def Let_def split: option.split)

definition shows_msg :: "'d QuoteImpl \<Rightarrow> 'd QuoteData \<Rightarrow> bool" where
  "shows_msg q msg \<longleftrightarrow> qt_bestAsk q = qd_BestAsk msg \<and> qt_bestBid q = qd_BestBid msg \<and>
     qt_seqID q = qd_SeqID msg \<and> qt_lastExecAt q = Some (qd_ExecAt msg)"

lemma shows_step:
  "shows_msg q msg \<Longrightarrow> x \<noteq> msg \<Longrightarrow> qd_SeqID x < qd_SeqID msg \<Longrightarrow> shows_msg (Quote_Update x q) msg"
  "shows_msg q msg \<Longrightarrow> shows_msg (Quote_Update msg q) msg"
  by (auto simp: shows_msg_def Quote_Update_sel stale_def)

text \<open>
  Quote messages may arrive in any order: if the message with the largest sequence number
  was also executed last, then after all of them the quote shows that message, its sequence
  number and its execution time, whatever arrives after it.
\<close>

theorem newest_quote_wins:
  assumes "data \<in> set msgs"
    and "\<forall>x \<in> set msgs. x \<noteq> data \<longrightarrow> qd_SeqID x < qd_SeqID data \<and> qd_ExecAt x \<le> qd_ExecAt data"
    and "qt_GetSeqID q \<le> qd_SeqID data" and "\<forall>t. qt_GetLastExecAt q = Some t \<longrightarrow> t \<le> qd_ExecAt data"
  shows "qt_GetBestAsk (fold Quote_Update msgs q) = qd_BestAsk data \<and>
    qt_GetBestBid (fold Quote_Update msgs q) = qd_BestBid data \<and>
    qt_GetSeqID (fold Quote_Update msgs q) = qd_SeqID data \<and>
    qt_GetLastExecAt (fold Quote_Update msgs q) = Some (qd_ExecAt data)"
proof -
  have stay: "shows_msg (fold Quote_Update ms q) data" if "shows_msg q data" "set ms \<subseteq> set msgs" for ms q
    using that
  proof (induction ms arbitrary: q)
    case (Cons x ms)
    have "shows_msg (Quote_Update x q) data"
      using shows_step(1) [of q data x] shows_step(2) [of q data] Cons.prems assms(2) by (cases "x = data") auto
    with Cons show ?case by simp
  qed simp
  have "shows_msg (fold Quote_Update ms q) data"
    if "data \<in> set ms" "set ms \<subseteq> set msgs" "qt_seqID q \<le> qd_SeqID data"
      "\<forall>t. qt_lastExecAt q = Some t \<longrightarrow> t \<le> qd_ExecAt data" for ms q
    using that
  proof (induction ms arbitrary: q)
    case (Cons x ms)
    show ?case
    proof (cases "x = data")
      case True
      have "\<not> stale q data" using Cons.prems by (auto simp: stale_def)
      then have "shows_msg (Quote_Update x q) data" by (simp add: True shows_msg_def Quote_Update_sel)
      then show ?thesis using stay Cons.prems(2) by simp
    next
      case False
      then have "qd_SeqID x < qd_SeqID data \<and> qd_ExecAt x \<le> qd_ExecAt data" using Cons.prems assms(2) by auto
      then have "qt_seqID (Quote_Update x q) \<le> qd_SeqID data"
        "\<forall>t. qt_lastExecAt (Quote_Update x q) = Some t \<longrightarrow> t \<le> qd_ExecAt data"
        using Cons.prems by (auto simp: Quote_Update_sel)
      with Cons False show ?thesis by simp
    qed
  qed simp
  from this [OF assms(1) subset_refl] assms(3,4) show ?thesis
    by (simp add: shows_msg_def qt_GetBestAsk_def qt_GetBestBid_def qt_GetSeqID_def qt_GetLastExecAt_def)
qed

definition demo_quote :: "int \<Rightarrow> int QuoteData" where
  "demo_quote n = \<lparr>qd_SeqID = n, qd_ExecAt = n, qd_EventAt = n, qd_ArrivedAt = n,
     qd_BestAsk = Some \<lparr>pl_SeqID = n, pl_Price = 100 + n, pl_Volume = 1\<rparr>,
     qd_BestBid = Some \<lparr>pl_SeqID = n, pl_Price = 99 + n, pl_Volume = 1\<rparr>\<rparr>"

text \<open>
  A stale message changes neither the best prices nor calls back, yet it makes the current
  best prices the previous ones as well: the difference to the previous quote, which was there
  before the message, reads as zero after it.
\<close>

lemma stale_quote_erases_difference:
  assumes "qt_lastExecAt q = Some t" and "qd_ExecAt msg < t" and "qt_bestAsk q = Some a" and "qt_bestBid q = Some b"
  shows "qt_GetBestAsk (Quote_Update msg q) = Some a \<and> qt_calls (Quote_Update msg q) = qt_calls q \<and>
    qt_GetDiffBestAsk (Quote_Update msg q) = Inr \<lparr>pl_SeqID = 0, pl_Price = 0, pl_Volume = 0\<rparr>"
  using assms
  by (auto simp: qt_GetDiffBestAsk_def diff_levels_def Quote_Update_sel stale_def qt_GetBestAsk_def wrap64_def)

section \<open>Trades\<close>

lemma fold_add: "fold (\<lambda>m sm. sm + g m) l acc = acc + sum_list (map g l)"
  for acc :: "'d :: linordered_idom"
  by (induction l arbitrary: acc) (simp_all add: algebra_simps)

lemma sum_by_side:
  "fold (\<lambda>m sm. if td_Side m = s then sm + td_Volume m else sm) l acc =
     acc + sum_list (map (\<lambda>m. if td_Side m = s then td_Volume m else 0) l)"
  for acc :: "'d :: linordered_idom"
  by (induction l arbitrary: acc) (simp_all add: algebra_simps)

text \<open>The net size of a list of trades is what was bought less what was sold.\<close>

lemma GetSumSize_net: "GetSumSize l = GetSumBuyVolume l - GetSumSellVolume l"
  unfolding GetSumSize_def GetSumBuyVolume_def GetSumSellVolume_def fold_add sum_by_side
  by (induction l) (auto simp: td_GetSize_def ToSize_def split: Side.split)

end
