(* ===== verification/Bybit_Translators.thy ===== *)
theory Bybit_Translators
  imports Strconv Position Quote_Trade
begin

text \<open>
  \<open>internal/gateways/exchanges/bybit/translators\<close> and the message types of \<open>dtos\<close> it works on.
  \<open>dec\<close> is \<open>decimal.NewFromString\<close>, \<open>str\<close> the \<open>String\<close> method of a decimal. A translation answers
  an error or the translated value; a row that is too short is an index out of range.
\<close>

section \<open>common.go\<close>

datatype messageType = MessageTypeUnknown | MessageTypeSnapshot | MessageTypeDelta

definition toMessageType :: "string \<Rightarrow> messageType" where
  "toMessageType s =
     (if s = ''snapshot'' then MessageTypeSnapshot else if s = ''delta'' then MessageTypeDelta else MessageTypeUnknown)"

definition messageType_translate :: "messageType \<Rightarrow> DataType" where
  "messageType_translate t =
     (case t of MessageTypeSnapshot \<Rightarrow> DataTypeSnapshot | MessageTypeDelta \<Rightarrow> DataTypeDelta | MessageTypeUnknown \<Rightarrow> DataTypeUnknown)"

definition bb_Side_Translate :: "string \<Rightarrow> Side" where
  "bb_Side_Translate msg = (if msg = ''Buy'' then SideBuy else if msg = ''Sell'' then SideSell else SideNone)"

definition bb_TranslateSideToDto :: "Side \<Rightarrow> string" where
  "bb_TranslateSideToDto s = (case s of SideBuy \<Rightarrow> ''Buy'' | SideSell \<Rightarrow> ''Sell'' | SideNone \<Rightarrow> ''None'')"

section \<open>operation\_error.go\<close>

record bb_BaseRespBody =
  bb_RetCode :: int
  bb_RetMsg :: string
  bb_TimestampMs :: int

definition bb_IsRetCodeOK :: "bb_BaseRespBody \<Rightarrow> bool" where
  "bb_IsRetCodeOK b \<longleftrightarrow> bb_RetCode b = 0"

definition bb_errMsg :: "int \<Rightarrow> string \<Rightarrow> string" where
  "bb_errMsg code msg = ''bybit error ('' @ FormatInt code @ ''): '' @ msg"

definition bb_OperationError :: "bb_BaseRespBody \<Rightarrow> error" where
  "bb_OperationError respErr =
     (let errMsg = bb_errMsg (bb_RetCode respErr) (bb_RetMsg respErr); code = bb_RetCode respErr in
      if code = 10000 then mk_Error (Sentinel ServerTimeoutError) errMsg
      else if code = 10001 then mk_Error (Sentinel ParameterError) errMsg
      else if code \<in> {10003, 10004, 10005, 10007} then mk_Error (Sentinel AuthError) errMsg
      else if code = 10006 then mk_Error (Sentinel ExecLateLimitError) errMsg
      else if code = 110001 then mk_Error (Sentinel OrderIsNotExists) errMsg
      else mk_Error (Sentinel OtherError) errMsg)"

section \<open>order.go\<close>

record bb_OrderDto =
  bo_Category :: string
  bo_OrderLinkID :: string
  bo_Symbol :: string
  bo_OrderType :: string
  bo_Price :: "string option"
  bo_Qty :: string
  bo_Side :: string

record bb_CancelDto =
  bc_Category :: string
  bc_OrderLinkID :: string
  bc_Symbol :: string

record bb_AmendDetailDto =
  ba_OrderLinkID :: string
  ba_Category :: string
  ba_Symbol :: string
  ba_Price :: string
  ba_Qty :: string

definition bb_TranslateToDto :: "('d \<Rightarrow> string) \<Rightarrow> 'd Symbol \<Rightarrow> 'd :: linordered_idom Order \<Rightarrow> bb_OrderDto" where
  "bb_TranslateToDto str sy o1 =
     (let rawDto = \<lparr>bo_Category = sym_product sy, bo_OrderLinkID = GetID o1, bo_Symbol = sym_name sy, bo_OrderType = ''Market'',
            bo_Price = None, bo_Qty = str (GetQty o1), bo_Side = bb_TranslateSideToDto (GetSide o1)\<rparr>
      in if 0 < GetPrice o1 then rawDto\<lparr>bo_OrderType := ''Limit'', bo_Price := Some (str (GetPrice o1))\<rparr> else rawDto)"

definition bb_TranslateToCancelDto :: "'d Symbol \<Rightarrow> string \<Rightarrow> bb_CancelDto" where
  "bb_TranslateToCancelDto sy orderID = \<lparr>bc_Category = sym_product sy, bc_OrderLinkID = orderID, bc_Symbol = sym_name sy\<rparr>"

definition bb_TranslateToAmendDetailDto :: "('d \<Rightarrow> string) \<Rightarrow> 'd Symbol \<Rightarrow> string \<Rightarrow> 'd AmendDetail \<Rightarrow> bb_AmendDetailDto" where
  "bb_TranslateToAmendDetailDto str sy orderID detail =
     \<lparr>ba_OrderLinkID = orderID, ba_Category = sym_product sy, ba_Symbol = sym_name sy,
      ba_Price = str (ad_Price detail), ba_Qty = str (ad_Qty detail)\<rparr>"

section \<open>order\_msg.go\<close>

record bb_OrderDataDto =
  bx_OrderLinkID :: string
  bx_OrderID :: string
  bx_Side :: string
  bx_Price :: string
  bx_Qty :: string
  bx_Fee :: string
  bx_AvgPrice :: string
  bx_CumExecQty :: string
  bx_Category :: string
  bx_Symbol :: string
  bx_UpdatedTimeMs :: string
  bx_OrderStatus :: string

definition bb_OrderStatus_Translate :: "string \<Rightarrow> OrderDataStatus" where
  "bb_OrderStatus_Translate s =
     (if s = ''New'' then OrderDataStatusOpened
      else if s = ''Rejected'' then OrderDataStatusRejected
      else if s = ''PartiallyFilled'' then OrderDataStatusPartiallyFilled
      else if s = ''Filled'' then OrderDataStatusFilled
      else if s = ''Cancelled'' then OrderDataStatusCanceled
      else OrderDataStatusUnknown)"

definition parse_int :: "string \<Rightarrow> error + int" where
  "parse_int s = (case ParseInt s of Some n \<Rightarrow> Inr n | None \<Rightarrow> Inl (Message (''strconv.ParseInt: parsing '' @ s)))"

definition bb_TranslateOrderData ::
  "(string \<Rightarrow> error + 'd :: linordered_idom) \<Rightarrow> time option \<Rightarrow> bb_OrderDataDto \<Rightarrow> error + 'd OrderData" where
  "bb_TranslateOrderData dec confirmedAt data =
     bind_e (parse_int (bx_UpdatedTimeMs data)) (\<lambda>arrivedAtMs.
     bind_e (dec (bx_Price data)) (\<lambda>price.
     bind_e (dec (bx_Qty data)) (\<lambda>qty.
     bind_e (dec (bx_Fee data)) (\<lambda>fee.
     bind_e (if bx_AvgPrice data \<noteq> [] then dec (bx_AvgPrice data) else Inr 0) (\<lambda>avgPrice.
     bind_e (dec (bx_CumExecQty data)) (\<lambda>cumExecQty.
     Inr \<lparr>od_ID = bx_OrderLinkID data, od_PublicID = bx_OrderID data, od_Side = bb_Side_Translate (bx_Side data),
          od_Price = price, od_Qty = qty, od_AvgExecPrice = avgPrice, od_CumFee = fee, od_CumExecQty = cumExecQty,
          od_Status = bb_OrderStatus_Translate (bx_OrderStatus data),
          od_ArrivedAt = Some (UnixMilli arrivedAtMs), od_ConfirmedAt = confirmedAt\<rparr>))))))"

section \<open>orderbook\_msg.go, bookticker\_adapter.go\<close>

record bb_OrderBookMsgDto =
  bm_Topic :: string
  bm_Type :: string
  bm_Ts :: int
  bm_Bids :: "string list list"
  bm_Asks :: "string list list"
  bm_UpdateID :: int

text \<open>The loop over the rows; both exchanges have the same one.\<close>

fun translateRecords ::
  "(string \<Rightarrow> error + 'd) \<Rightarrow> int \<Rightarrow> string list list \<Rightarrow> (error + 'd PriceLevel list) result" where
  "translateRecords dec seqID [] = Inr (Inr [])"
| "translateRecords dec seqID (r # rs) =
     (case r of
        [] \<Rightarrow> Inl IndexOutOfRange
      | r0 # t \<Rightarrow>
          (case dec r0 of
             Inl err \<Rightarrow> Inr (Inl err)
           | Inr p \<Rightarrow>
               (case t of
                  [] \<Rightarrow> Inl IndexOutOfRange
                | r1 # _ \<Rightarrow>
                    (case dec r1 of
                       Inl err \<Rightarrow> Inr (Inl err)
                     | Inr v \<Rightarrow> bind_r (translateRecords dec seqID rs)
                         (\<lambda>res. Inr (bind_e res (\<lambda>ls. Inr (\<lparr>pl_SeqID = seqID, pl_Price = p, pl_Volume = v\<rparr> # ls))))))))"

definition bb_TranslateOrderBook ::
  "(string \<Rightarrow> error + 'd) \<Rightarrow> time \<Rightarrow> bb_OrderBookMsgDto \<Rightarrow> (error + 'd OrderBookData) result" where
  "bb_TranslateOrderBook dec arrivedAt msg =
     (let seqID = bm_UpdateID msg in
      bind_r (translateRecords dec seqID (bm_Asks msg)) (\<lambda>ra.
        case ra of Inl err \<Rightarrow> Inr (Inl err)
        | Inr asks \<Rightarrow>
            bind_r (translateRecords dec seqID (bm_Bids msg)) (\<lambda>rb.
              case rb of Inl err \<Rightarrow> Inr (Inl err)
              | Inr bids \<Rightarrow>
                  Inr (Inr \<lparr>bd_Type = messageType_translate (toMessageType (bm_Type msg)), bd_ExecAt = UnixMilli (bm_Ts msg),
                    bd_ArrivedAt = arrivedAt, bd_Bids = bids, bd_Asks = asks, bd_SeqID = seqID\<rparr>))))"

definition bb_Convert :: "'d OrderBookData \<Rightarrow> error + 'd QuoteData" where
  "bb_Convert ob =
     (case (bd_Asks ob, bd_Bids ob) of
        (bestAsk # _, bestBid # _) \<Rightarrow>
          Inr \<lparr>qd_SeqID = bd_SeqID ob, qd_ExecAt = bd_ExecAt ob, qd_EventAt = bd_ExecAt ob, qd_ArrivedAt = bd_ArrivedAt ob,
               qd_BestAsk = Some bestAsk, qd_BestBid = Some bestBid\<rparr>
      | _ \<Rightarrow> Inl (Message ''orderbook depth=1 has no asks or bids''))"

section \<open>position\_msg.go\<close>

record bb_PositionDataDto =
  bp_PositionIdx :: int
  bp_PositionValue :: string
  bp_Side :: string
  bp_Qty :: string
  bp_Category :: string
  bp_Symbol :: string
  bp_UpdatedTimeMs :: string

definition bb_PositionMode :: "int \<Rightarrow> PositionMode" where
  "bb_PositionMode mode =
     (if mode = 0 then PositionModeOneWay else if mode = 1 then PositionModeHedgeOfBuySide
      else if mode = 2 then PositionModeHedgeOfSellSide else PositionModeUnknown)"

definition bb_TranslatePosition :: "(string \<Rightarrow> error + 'd) \<Rightarrow> bb_PositionDataDto \<Rightarrow> error + 'd PositionData" where
  "bb_TranslatePosition dec msg =
     bind_e (dec (bp_Qty msg)) (\<lambda>qty.
     bind_e (parse_int (bp_UpdatedTimeMs msg)) (\<lambda>unixUpdatedAt.
     Inr \<lparr>pd_Timestamp = UnixMilli unixUpdatedAt, pd_PositionMode = bb_PositionMode (bp_PositionIdx msg),
          pd_Side = bb_Side_Translate (bp_Side msg), pd_Qty = qty\<rparr>))"

section \<open>trade\_msg.go\<close>

record bb_TradeDataDto =
  bt_Timestamp :: int
  bt_TradeID :: string
  bt_Symbol :: string
  bt_Side :: string
  bt_Volume :: string
  bt_Price :: string

definition bb_translateTrade :: "(string \<Rightarrow> error + 'd) \<Rightarrow> time \<Rightarrow> bb_TradeDataDto \<Rightarrow> error + 'd TradeData" where
  "bb_translateTrade dec timestamp msg =
     bind_e (dec (bt_Volume msg)) (\<lambda>volume.
     bind_e (dec (bt_Price msg)) (\<lambda>price.
     Inr \<lparr>td_ExecAt = UnixMilli (bt_Timestamp msg), td_ArrivedAt = timestamp, td_Side = bb_Side_Translate (bt_Side msg),
          td_Volume = volume, td_Price = price\<rparr>))"

definition bb_TranslateDatas :: "(string \<Rightarrow> error + 'd) \<Rightarrow> time \<Rightarrow> bb_TradeDataDto list \<Rightarrow> error + 'd TradeData list" where
  "bb_TranslateDatas dec timestamp dtos = mapE (bb_translateTrade dec timestamp) dtos"

end
