(* ===== verification/Coinex_Translators.thy ===== *)
theory Coinex_Translators
  imports Bybit_Translators
begin

text \<open>
  \<open>internal/gateways/exchanges/coinex/translators\<close> and the message types of \<open>dtos\<close> it works on,
  with \<open>dec\<close> and \<open>str\<close> as for Bybit.
\<close>

section \<open>common.go\<close>

definition cx_Side_Translate :: "string \<Rightarrow> Side" where
  "cx_Side_Translate msg = (if msg = ''buy'' then SideBuy else if msg = ''sell'' then SideSell else SideNone)"

definition cx_TranslateFromLongShort :: "string \<Rightarrow> Side" where
  "cx_TranslateFromLongShort msg = (if msg = ''long'' then SideBuy else if msg = ''short'' then SideSell else SideNone)"

definition cx_TranslateSideToDto :: "Side \<Rightarrow> string" where
  "cx_TranslateSideToDto s = (case s of SideBuy \<Rightarrow> ''buy'' | SideSell \<Rightarrow> ''sell'' | SideNone \<Rightarrow> ''none'')"

definition cx_translateOrderTypeToDto :: "OrderType \<Rightarrow> string" where
  "cx_translateOrderTypeToDto t =
     (case t of
        OrderTypeMarket \<Rightarrow> ''market''
      | OrderTypeLimit \<Rightarrow> ''limit''
      | OrderTypeLimitIOC \<Rightarrow> ''ioc''
      | OrderTypeLimitFOK \<Rightarrow> ''fok''
      | OrderTypeLimitMaker \<Rightarrow> ''maker_only''
      | OrderTypeUnknown \<Rightarrow> [])"

section \<open>operation\_error.go\<close>

record cx_BaseRespBody =
  cx_Code :: int
  cx_Msg :: string

definition cx_IsRetCodeOK :: "cx_BaseRespBody \<Rightarrow> bool" where
  "cx_IsRetCodeOK b \<longleftrightarrow> cx_Code b = 0"

definition cx_OperationError :: "cx_BaseRespBody \<Rightarrow> error" where
  "cx_OperationError respErr =
     (let code = cx_Code respErr; errMsg = ''coinex error ('' @ FormatInt code @ ''): '' @ cx_Msg respErr in
      if code \<in> {4008, 4010, 4017, 4512} then mk_Error (Sentinel AuthError) errMsg
      else if code = 3109 then mk_Error (Sentinel InsufficientBalanceError) errMsg
      else if code = 3103 then mk_Error (Sentinel OrderIsNotExists) errMsg
      else if code = 3132 then mk_Error (Sentinel WarnError) errMsg
      else if code \<in> {3129, 3008, 3007, 227} then mk_Error (Sentinel InfoError) errMsg
      else if code \<in> {4123, 4213} then mk_Error (Sentinel ExecLateLimitError) errMsg
      else mk_Error (Sentinel OtherError) errMsg)"

section \<open>order.go\<close>

record cx_OrderDto =
  co_Symbol :: string
  co_MarketType :: string
  co_Side :: string
  co_Type :: string
  co_Amount :: string
  co_Price :: "string option"
  co_ClientID :: string
  co_IsHide :: bool

record cx_AmendDetailDto =
  ca_PublicOrderID :: int
  ca_Symbol :: string
  ca_MarketType :: string
  ca_Amount :: string
  ca_Price :: string

definition cx_TranslateToDto :: "('d \<Rightarrow> string) \<Rightarrow> 'd Symbol \<Rightarrow> 'd :: linordered_idom Order \<Rightarrow> cx_OrderDto" where
  "cx_TranslateToDto str sy o1 =
     \<lparr>co_Symbol = sym_name sy, co_MarketType = ''FUTURES'', co_Side = cx_TranslateSideToDto (GetSide o1),
      co_Type = cx_translateOrderTypeToDto (GetOrderType o1), co_Amount = str (GetQty o1),
      co_Price = (if IsPricable (GetOrderType o1) then Some (str (GetPrice o1)) else None),
      co_ClientID = GetID o1, co_IsHide = IsHide o1\<rparr>"

definition cx_TranslateToListDto :: "('d \<Rightarrow> string) \<Rightarrow> 'd Symbol \<Rightarrow> 'd :: linordered_idom Order list \<Rightarrow> cx_OrderDto list" where
  "cx_TranslateToListDto str sy orders = map (cx_TranslateToDto str sy) orders"

definition cx_TranslateToAmendDetailDto ::
  "('d \<Rightarrow> string) \<Rightarrow> 'd Symbol \<Rightarrow> string \<Rightarrow> 'd AmendDetail \<Rightarrow> error + cx_AmendDetailDto" where
  "cx_TranslateToAmendDetailDto str sy publicOrderID detail =
     bind_e (parse_int publicOrderID) (\<lambda>pOrderID.
     Inr \<lparr>ca_PublicOrderID = pOrderID, ca_Symbol = sym_name sy, ca_MarketType = ''FUTURES'',
          ca_Amount = str (ad_Qty detail), ca_Price = str (ad_Price detail)\<rparr>)"

section \<open>order\_msg.go\<close>

record cx_OrderDataDto =
  cd_Event :: string
  cd_OrderID :: int
  cd_Market :: string
  cd_Side :: string
  cd_Type :: string
  cd_Amount :: string
  cd_Price :: string
  cd_UnfilledAmount :: string
  cd_FilledAmount :: string
  cd_FilledValue :: string
  cd_Fee :: string
  cd_FeeCcy :: string
  cd_TakerFeeRate :: string
  cd_MakerFeeRate :: string
  cd_ClientID :: string
  cd_LastFilledAmount :: string
  cd_LastFilledPrice :: string
  cd_CreatedAt :: int
  cd_UpdatedAt :: int

definition cx_OrderStatus_Translate :: "string \<Rightarrow> 'd :: linordered_idom \<Rightarrow> 'd \<Rightarrow> OrderDataStatus" where
  "cx_OrderStatus_Translate event filledQty unFilledQty =
     (if event = ''put'' then (if filledQty = 0 then OrderDataStatusOpened else OrderDataStatusPartiallyFilled)
      else if event = ''update'' then OrderDataStatusPartiallyFilled
      else if event = ''modify'' then OrderDataStatusOpened
      else if event = ''finish'' then (if unFilledQty = 0 then OrderDataStatusFilled else OrderDataStatusCanceled)
      else OrderDataStatusUnknown)"

definition cx_TranslateOrderData ::
  "(string \<Rightarrow> error + 'd :: linordered_idom) \<Rightarrow> time option \<Rightarrow> cx_OrderDataDto \<Rightarrow> error + 'd OrderData" where
  "cx_TranslateOrderData dec confirmedAt data =
     bind_e (dec (cd_Price data)) (\<lambda>price.
     bind_e (dec (cd_Amount data)) (\<lambda>qty.
     bind_e (dec (cd_Fee data)) (\<lambda>fee.
     bind_e (dec (cd_LastFilledAmount data)) (\<lambda>cumExecQty.
     bind_e (dec (cd_LastFilledPrice data)) (\<lambda>avgPrice.
     bind_e (dec (cd_FilledAmount data)) (\<lambda>filledQty.
     bind_e (dec (cd_UnfilledAmount data)) (\<lambda>unFilledQty.
     Inr \<lparr>od_ID = cd_ClientID data, od_PublicID = FormatInt (cd_OrderID data), od_Side = cx_Side_Translate (cd_Side data),
          od_Price = price, od_Qty = qty, od_AvgExecPrice = avgPrice, od_CumFee = fee, od_CumExecQty = cumExecQty,
          od_Status = cx_OrderStatus_Translate (cd_Event data) filledQty unFilledQty,
          od_ArrivedAt = Some (UnixMilli (cd_UpdatedAt data)), od_ConfirmedAt = confirmedAt\<rparr>)))))))"

section \<open>orderbook\_msg.go, bookticker\_msg.go\<close>

record cx_OrderBookMsgDto =
  cm_Symbol :: string
  cm_IsSnapshot :: bool
  cm_UpdatedAt :: int
  cm_Bids :: "string list list"
  cm_Asks :: "string list list"

definition cx_TranslateOrderBook ::
  "(string \<Rightarrow> error + 'd) \<Rightarrow> time \<Rightarrow> cx_OrderBookMsgDto \<Rightarrow> (error + 'd OrderBookData) result" where
  "cx_TranslateOrderBook dec arrivedAt msg =
     (let seqID = cm_UpdatedAt msg; dataType = (if cm_IsSnapshot msg then DataTypeSnapshot else DataTypeDelta) in
      bind_r (translateRecords dec seqID (cm_Asks msg)) (\<lambda>ra.
        case ra of Inl err \<Rightarrow> Inr (Inl err)
        | Inr asks \<Rightarrow>
            bind_r (translateRecords dec seqID (cm_Bids msg)) (\<lambda>rb.
              case rb of Inl err \<Rightarrow> Inr (Inl err)
              | Inr bids \<Rightarrow>
                  Inr (Inr \<lparr>bd_Type = dataType, bd_ExecAt = UnixMilli (cm_UpdatedAt msg), bd_ArrivedAt = arrivedAt,
                    bd_Bids = bids, bd_Asks = asks, bd_SeqID = seqID\<rparr>))))"

record cx_BookTickerMsgDto =
  ck_Symbol :: string
  ck_Ts :: int
  ck_BidPrice :: string
  ck_BidSize :: string
  ck_AskPrice :: string
  ck_AskSize :: string

definition cx_translateRecord :: "(string \<Rightarrow> error + 'd) \<Rightarrow> int \<Rightarrow> string \<Rightarrow> string \<Rightarrow> error + 'd PriceLevel" where
  "cx_translateRecord dec seqID price sz =
     bind_e (dec price) (\<lambda>p. bind_e (dec sz) (\<lambda>s. Inr \<lparr>pl_SeqID = seqID, pl_Price = p, pl_Volume = s\<rparr>))"

definition cx_TranslateBookTicker :: "(string \<Rightarrow> error + 'd) \<Rightarrow> time \<Rightarrow> cx_BookTickerMsgDto \<Rightarrow> error + 'd QuoteData" where
  "cx_TranslateBookTicker dec arrivedAt msg =
     (let seqID = ck_Ts msg; ts = UnixMilli (ck_Ts msg) in
      bind_e (cx_translateRecord dec seqID (ck_AskPrice msg) (ck_AskSize msg)) (\<lambda>asks.
      bind_e (cx_translateRecord dec seqID (ck_BidPrice msg) (ck_BidSize msg)) (\<lambda>bids.
      Inr \<lparr>qd_SeqID = seqID, qd_ExecAt = ts, qd_EventAt = ts, qd_ArrivedAt = arrivedAt, qd_BestAsk = Some asks, qd_BestBid = Some bids\<rparr>)))"

section \<open>position\_msg.go, trade\_msg.go\<close>

record cx_PositionDataDto =
  cp_Event :: string
  cp_Market :: string
  cp_Side :: string
  cp_OpenInterest :: string
  cp_CreatedAt :: int
  cp_UpdatedAt :: int

definition cx_TranslatePosition :: "(string \<Rightarrow> error + 'd) \<Rightarrow> cx_PositionDataDto \<Rightarrow> error + 'd PositionData" where
  "cx_TranslatePosition dec msg =
     bind_e (dec (cp_OpenInterest msg)) (\<lambda>qty.
     Inr \<lparr>pd_Timestamp = UnixMilli (cp_UpdatedAt msg), pd_PositionMode = PositionModeOneWay,
          pd_Side = cx_TranslateFromLongShort (cp_Side msg), pd_Qty = qty\<rparr>)"

record cx_TradeDataDto =
  ct_DealID :: int
  ct_TransactionTime :: int
  ct_Side :: string
  ct_Price :: string
  ct_Volume :: string

definition cx_translateTrade :: "(string \<Rightarrow> error + 'd) \<Rightarrow> time \<Rightarrow> cx_TradeDataDto \<Rightarrow> error + 'd TradeData" where
  "cx_translateTrade dec timestamp msg =
     bind_e (dec (ct_Volume msg)) (\<lambda>volume.
     bind_e (dec (ct_Price msg)) (\<lambda>price.
     Inr \<lparr>td_ExecAt = UnixMilli (ct_TransactionTime msg), td_ArrivedAt = timestamp, td_Side = cx_Side_Translate (ct_Side msg),
          td_Volume = volume, td_Price = price\<rparr>))"

definition cx_TranslateToDatas :: "(string \<Rightarrow> error + 'd) \<Rightarrow> time \<Rightarrow> cx_TradeDataDto list \<Rightarrow> error + 'd TradeData list" where
  "cx_TranslateToDatas dec timestamp dtos = mapE (cx_translateTrade dec timestamp) dtos"

end
