(* ===== verification/Ttl_Cache.thy ===== *)
theory Ttl_Cache
  imports Mutex
begin

text \<open>
  \<open>internal/gateways/ttl_cache.go\<close>: the cache that tells messages already seen on another of
  the redundant connections. \<open>now\<close> is what \<open>time.Now()\<close> answers.
\<close>

section \<open>ttl\_cache.go\<close>

definition second :: duration where "second = 1000000000"
definition cleanupThreshold :: nat where "cleanupThreshold = 1000"
definition cleanupIntervalSc :: int where "cleanupIntervalSc = 1"

record TTLCache =
  tc_entries :: "(string, time) Map"
  tc_ttl :: duration
  tc_cleanupInterval :: duration

definition NewTTLCache :: "duration \<Rightarrow> TTLCache" where
  "NewTTLCache ttl = \<lparr>tc_entries = NewMap None, tc_ttl = ttl, tc_cleanupInterval = cleanupIntervalSc * second\<rparr>"

definition SetCleanupInterval :: "duration \<Rightarrow> TTLCache \<Rightarrow> TTLCache" where
  "SetCleanupInterval d c = c\<lparr>tc_cleanupInterval := d\<rparr>"

text \<open>
  \<open>AddIfAbsent\<close> takes the lock of \<open>entries\<close> once or twice: \<open>add_probe\<close> is the part up to
  the second lock (\<open>None\<close>: the entry has expired and is still to be overwritten),
  \<open>add_overwrite\<close> the overwriting.
\<close>

definition add_probe :: "time \<Rightarrow> string \<Rightarrow> TTLCache \<Rightarrow> bool option \<times> TTLCache" where
  "add_probe now key c =
     (case Map_SetIfAbsent (tc_entries c) key now of
        (None, m) \<Rightarrow> (Some True, c\<lparr>tc_entries := m\<rparr>)
      | (Some existing, m) \<Rightarrow>
          (if tc_ttl c < Time_Sub now existing then None else Some False, c\<lparr>tc_entries := m\<rparr>))"

definition add_overwrite :: "time \<Rightarrow> string \<Rightarrow> TTLCache \<Rightarrow> bool \<times> TTLCache" where
  "add_overwrite now key c = (True, c\<lparr>tc_entries := Map_Set (tc_entries c) key now\<rparr>)"

definition AddIfAbsent :: "time \<Rightarrow> string \<Rightarrow> TTLCache \<Rightarrow> bool \<times> TTLCache" where
  "AddIfAbsent now key c =
     (case add_probe now key c of
        (Some res, c') \<Rightarrow> (res, c')
      | (None, c') \<Rightarrow> add_overwrite now key c')"

text \<open>One tick of \<open>StartCleanup\<close>; \<open>ks\<close> is the order in which \<open>GetKeys\<close> visits the map.\<close>

definition cleanup_tick :: "string list \<Rightarrow> time \<Rightarrow> TTLCache \<Rightarrow> TTLCache" where
  "cleanup_tick ks now c =
     (if Map_Len (tc_entries c) \<le> cleanupThreshold then c
      else
        (let keys = Map_GetKeys ks (tc_entries c);
             expiredKeys = filter (\<lambda>key. case Map_Get (tc_entries c) key of
                 Some t \<Rightarrow> tc_ttl c < Time_Sub now t | None \<Rightarrow> False) keys
         in if 0 < length expiredKeys
            then c\<lparr>tc_entries := Map_BulkDelete (tc_entries c) expiredKeys\<rparr> else c))"

section \<open>Lemmas\<close>

lemma Time_Sub_mono: "t \<le> t' \<Longrightarrow> Time_Sub t u \<le> Time_Sub t' u"
  by (simp add: Time_Sub_def)

lemma AddIfAbsent_eq:
  "AddIfAbsent now key c =
     (case Map_Get (tc_entries c) key of
        None \<Rightarrow> (True, c\<lparr>tc_entries := Map_Set (tc_entries c) key now\<rparr>)
      | Some t \<Rightarrow>
          if tc_ttl c < Time_Sub now t then (True, c\<lparr>tc_entries := Map_Set (tc_entries c) key now\<rparr>) else (False, c))"
  by (auto simp: AddIfAbsent_def add_probe_def add_overwrite_def mmap.put_if_absent split: option.split)

lemma cleanup_get:
  "Map_Get (tc_entries (cleanup_tick ks now c)) k = Some t \<Longrightarrow> Map_Get (tc_entries c) k = Some t"
  by (auto simp: cleanup_tick_def Let_def split: if_splits)

lemma cleanup_dropped:
  "Map_Get (tc_entries c) k = Some t \<Longrightarrow> Map_Get (tc_entries (cleanup_tick ks now c)) k = None \<Longrightarrow>
     tc_ttl c < Time_Sub now t"
  by (auto simp: cleanup_tick_def Map_GetKeys_def Let_def split: if_splits option.splits)

lemma cleanup_ttl [simp]: "tc_ttl (cleanup_tick ks now c) = tc_ttl c"
  by (simp add: cleanup_tick_def Let_def)

text \<open>Calls of the cache, in the order they take place; a run returns the keys it accepts.\<close>

datatype cache_call = CallAdd string time | CallCleanup "string list" time

fun call_time :: "cache_call \<Rightarrow> time" where
  "call_time (CallAdd k t) = t"
| "call_time (CallCleanup ks t) = t"

fun cache_run :: "cache_call list \<Rightarrow> TTLCache \<Rightarrow> (string \<times> time) list \<times> TTLCache" where
  "cache_run [] c = ([], c)"
| "cache_run (CallAdd k t # cs) c =
     (case AddIfAbsent t k c of (acc, c1) \<Rightarrow>
        case cache_run cs c1 of (as, c2) \<Rightarrow> ((if acc then [(k, t)] else []) @ as, c2))"
| "cache_run (CallCleanup ks t # cs) c = cache_run cs (cleanup_tick ks t c)"

text \<open>Accepted times of a key that is remembered since \<open>t0\<close>, or was forgotten after \<open>t0\<close> expired.\<close>

definition known :: "TTLCache \<Rightarrow> time \<Rightarrow> string \<Rightarrow> time \<Rightarrow> bool" where
  "known c now k t0 \<longleftrightarrow>
     (case Map_Get (tc_entries c) k of Some t \<Rightarrow> t0 \<le> t | None \<Rightarrow> tc_ttl c < Time_Sub now t0)"

lemma Time_Sub_anti: "u \<le> u' \<Longrightarrow> Time_Sub t u' \<le> Time_Sub t u"
  by (simp add: Time_Sub_def)

lemma AddIfAbsent_ttl [simp]: "tc_ttl (snd (AddIfAbsent t k c)) = tc_ttl c"
  by (simp add: AddIfAbsent_eq split: option.split)

lemma accepted_again:
  assumes "known c now k t0" and "now \<le> t" and "fst (AddIfAbsent t k c)"
  shows "tc_ttl c < Time_Sub t t0"
  using assms Time_Sub_mono [OF assms(2), of t0] Time_Sub_anti [of t0 _ t]
  by (fastforce simp: known_def AddIfAbsent_eq split: option.splits if_splits)

lemma known_add:
  assumes "known c now k t0" and "now \<le> t" and "t0 \<le> t"
  shows "known (snd (AddIfAbsent t j c)) t k t0"
  using assms Time_Sub_mono [OF assms(2), of t0]
  by (auto simp: known_def AddIfAbsent_eq split: option.splits if_splits)

lemma known_fresh: "fst (AddIfAbsent t k c) \<Longrightarrow> known (snd (AddIfAbsent t k c)) t k t"
  by (auto simp: known_def AddIfAbsent_eq split: option.splits if_splits)

lemma stored_after_add:
  "Map_Get (tc_entries (snd (AddIfAbsent u j c))) k = Some t \<Longrightarrow>
     Map_Get (tc_entries c) k = Some t \<or> k = j \<and> t = u \<and> fst (AddIfAbsent u j c)"
  by (auto simp: AddIfAbsent_eq split: option.splits if_splits)

lemma known_cleanup:
  assumes "known c now k t0" and "now \<le> t"
  shows "known (cleanup_tick ks t c) t k t0"
proof (cases "Map_Get (tc_entries (cleanup_tick ks t c)) k")
  case None
  show ?thesis
  proof (cases "Map_Get (tc_entries c) k")
    case (Some u)
    with cleanup_dropped [OF Some None] assms(1) Time_Sub_anti [of t0 u t] None show ?thesis by (simp add: known_def)
  qed (use assms None Time_Sub_mono [OF assms(2), of t0] in \<open>simp add: known_def\<close>)
next
  case (Some u)
  with cleanup_get [OF Some] assms show ?thesis by (simp add: known_def)
qed

lemma known_later: "known c now k t0 \<Longrightarrow> now \<le> t \<Longrightarrow> known c t k t0"
  using Time_Sub_mono [of now t t0] by (auto simp: known_def split: option.splits)

lemma cache_run_snoc:
  "cache_run (cs @ [x]) c =
     (case cache_run cs c of (as, c1) \<Rightarrow> case cache_run [x] c1 of (bs, c2) \<Rightarrow> (as @ bs, c2))"
  by (induction cs c rule: cache_run.induct) (auto split: prod.splits)

text \<open>After a run up to time \<open>now\<close>: what was accepted is known, and what is stored was accepted.\<close>

lemma run_known:
  assumes "cache_run cs (NewTTLCache ttl) = (as, c)" and "sorted (map call_time cs)"
    and "\<forall>x \<in> set cs. call_time x \<le> now"
  shows "tc_ttl c = ttl \<and> (\<forall>(k, t) \<in> set as. t \<le> now \<and> known c now k t) \<and>
    (\<forall>k t. Map_Get (tc_entries c) k = Some t \<longrightarrow> (k, t) \<in> set as)"
  using assms
proof (induction cs arbitrary: as c now rule: rev_induct)
  case Nil
  then show ?case by (auto simp: NewTTLCache_def)
next
  case (snoc x cs)
  obtain as1 c1 where r: "cache_run cs (NewTTLCache ttl) = (as1, c1)" by fastforce
  have x: "call_time x \<le> now" "\<forall>y \<in> set cs. call_time y \<le> call_time x"
    using snoc.prems(2,3) by (auto simp: sorted_append)
  note IH = snoc.IH [OF r _ x(2)]
  have IH: "tc_ttl c1 = ttl" "\<And>k t. (k, t) \<in> set as1 \<Longrightarrow> t \<le> call_time x \<and> known c1 (call_time x) k t"
    "\<And>k t. Map_Get (tc_entries c1) k = Some t \<Longrightarrow> (k, t) \<in> set as1"
    using IH snoc.prems(2) by (auto simp: sorted_append)
  show ?case
  proof (cases x)
    case (CallAdd j u)
    have c: "c = snd (AddIfAbsent u j c1)" "as = as1 @ (if fst (AddIfAbsent u j c1) then [(j, u)] else [])"
      using snoc.prems(1) CallAdd r by (auto simp: cache_run_snoc split: prod.splits)
    have "known c now k t \<and> t \<le> now" if "(k, t) \<in> set as" for k t
    proof (cases "(k, t) \<in> set as1")
      case True
      with IH(2) CallAdd have "known c1 u k t" "t \<le> u" by auto
      then have "known c u k t" unfolding c(1) using known_add [of c1 u k t u j] by blast
      with \<open>t \<le> u\<close> x(1) CallAdd known_later show ?thesis by fastforce
    next
      case False
      with that c(2) have "k = j" "t = u" "fst (AddIfAbsent u j c1)" by (auto split: if_splits)
      with known_fresh x(1) CallAdd known_later show ?thesis unfolding c(1) by fastforce
    qed
    moreover have "(k, t) \<in> set as" if "Map_Get (tc_entries c) k = Some t" for k t
      using stored_after_add [of u j c1 k t] that IH(3) [of k t] unfolding c by auto
    ultimately show ?thesis using IH(1) c(1) by auto
  next
    case (CallCleanup ks u)
    have c: "c = cleanup_tick ks u c1" "as = as1"
      using snoc.prems(1) CallCleanup r by (auto simp: cache_run_snoc)
    have kn: "known c now k t \<and> t \<le> now" if "(k, t) \<in> set as" for k t
    proof -
      have "t \<le> u" "known c1 u k t" using IH(2) [of k t] that CallCleanup c(2) by simp_all
      moreover from this(2) have "known c u k t" unfolding c(1) by (rule known_cleanup) simp
      ultimately show ?thesis using x(1) CallCleanup known_later [of c u k t now] by simp
    qed
    have "(k, t) \<in> set as" if "Map_Get (tc_entries c) k = Some t" for k t
      using that IH(3) cleanup_get unfolding c by blast
    then show ?thesis using kn IH(1) c(1) by auto
  qed
qed

section \<open>Properties\<close>



text \<open>
  The expired case of \<open>AddIfAbsent\<close> is not atomic: two connections that deliver the same
  message when its entry has expired may both pass the check before either overwrites the
  entry, and then both are told that the message is new.
\<close>

lemma expired_entry_accepted_twice:
  assumes "Map_Get (tc_entries c) key = Some t" and "tc_ttl c < Time_Sub now1 t" and "tc_ttl c < Time_Sub now2 t"
  shows "let (r1, c1) = add_probe now1 key c; (r2, c2) = add_probe now2 key c1;
             (a1, c3) = add_overwrite now1 key c2; (a2, c4) = add_overwrite now2 key c3
         in r1 = None \<and> r2 = None \<and> a1 \<and> a2"
  using assms by (simp add: add_probe_def add_overwrite_def mmap.put_if_absent)

end
