(* ===== verification/Rate_Limiter.thy ===== *)
theory Rate_Limiter
  imports Ttl_Cache
begin

text \<open>
  The rate limiters of the two exchange agents (\<open>coinex/agent/rate_limiter.go\<close> and
  \<open>bybit/agent/rate_limiter.go\<close>). The goroutine a successful \<open>consume\<close> starts sleeps for a
  second and then returns the quota: it is an entry of \<open>pending\<close> with the time from which it
  may run. What both limiters promise is the locale \<open>quota_limiter\<close>, where the theorems are
  proved once; each limiter interprets it.
\<close>

section \<open>CoinEx\<close>

datatype CxGroup = GroupOrder | GroupCancel

definition cx_limit :: "CxGroup \<Rightarrow> int" where
  "cx_limit g = (case g of GroupOrder \<Rightarrow> 20 | GroupCancel \<Rightarrow> 40)"

record 'g rateLimiter =
  rl_quotas :: "'g \<Rightarrow> int"
  rl_capacity :: "'g \<Rightarrow> int"
  rl_pending :: "('g \<times> int \<times> time) list"

definition cx_newRateLimiter :: "CxGroup rateLimiter" where
  "cx_newRateLimiter = \<lparr>rl_quotas = cx_limit, rl_capacity = cx_limit, rl_pending = []\<rparr>"

text \<open>The answer is whether the quota was granted (a nil error).\<close>

definition cx_consume :: "CxGroup \<Rightarrow> int \<Rightarrow> time \<Rightarrow> CxGroup rateLimiter \<Rightarrow> bool \<times> CxGroup rateLimiter" where
  "cx_consume grp n now l =
     (if rl_quotas l grp - n < 0 then (False, l)
      else (True, l\<lparr>rl_quotas := (rl_quotas l)(grp := rl_quotas l grp - n),
                    rl_pending := rl_pending l @ [(grp, n, now + second)]\<rparr>))"

text \<open>The body of the goroutine after its sleep, for the \<open>i\<close>-th one.\<close>

definition cx_refund :: "nat \<Rightarrow> CxGroup rateLimiter \<Rightarrow> CxGroup rateLimiter" where
  "cx_refund i l =
     (case rl_pending l ! i of (grp, n, due) \<Rightarrow>
        let q = rl_quotas l grp + n;
            q' = (if rl_capacity l grp < q then rl_capacity l grp else q)
        in l\<lparr>rl_quotas := (rl_quotas l)(grp := q'), rl_pending := drop_at (rl_pending l) i\<rparr>)"

section \<open>Bybit\<close>

datatype BbGroup = GroupCreateOrder | GroupCancelOrder | GroupAmendOrder

definition bb_limit :: "BbGroup \<Rightarrow> int" where
  "bb_limit g = (case g of GroupCreateOrder \<Rightarrow> 20 | GroupCancelOrder \<Rightarrow> 20 | GroupAmendOrder \<Rightarrow> 10)"

definition bb_newRateLimiter :: "BbGroup rateLimiter" where
  "bb_newRateLimiter = \<lparr>rl_quotas = bb_limit, rl_capacity = bb_limit, rl_pending = []\<rparr>"

definition bb_consume :: "BbGroup \<Rightarrow> int \<Rightarrow> time \<Rightarrow> BbGroup rateLimiter \<Rightarrow> bool \<times> BbGroup rateLimiter" where
  "bb_consume grp n now l =
     (if rl_quotas l grp - n < 0 then (False, l)
      else (True, l\<lparr>rl_quotas := (rl_quotas l)(grp := rl_quotas l grp - n),
                    rl_pending := rl_pending l @ [(grp, n, now + second)]\<rparr>))"

definition bb_refund :: "nat \<Rightarrow> BbGroup rateLimiter \<Rightarrow> BbGroup rateLimiter" where
  "bb_refund i l =
     (case rl_pending l ! i of (grp, n, due) \<Rightarrow>
        let q = rl_quotas l grp + n;
            q' = (if rl_capacity l grp < q then rl_capacity l grp else q)
        in l\<lparr>rl_quotas := (rl_quotas l)(grp := q'), rl_pending := drop_at (rl_pending l) i\<rparr>)"

section \<open>The contract\<close>

text \<open>
  A limiter at work: the limiter, the clock, and the grants made so far (group, units, time).
  Time passes, quota is asked for (never a negative amount), and a goroutine whose second is
  over may run, in any order.
\<close>

inductive limiter_step ::
  "('g \<Rightarrow> int \<Rightarrow> time \<Rightarrow> 'g rateLimiter \<Rightarrow> bool \<times> 'g rateLimiter) \<Rightarrow> (nat \<Rightarrow> 'g rateLimiter \<Rightarrow> 'g rateLimiter) \<Rightarrow>
   'g rateLimiter \<times> time \<times> ('g \<times> int \<times> time) list \<Rightarrow> 'g rateLimiter \<times> time \<times> ('g \<times> int \<times> time) list \<Rightarrow> bool"
  for consume refund where
  tick: "now \<le> now' \<Longrightarrow> limiter_step consume refund (l, now, grants) (l, now', grants)"
| ask: "0 \<le> n \<Longrightarrow> consume g n now l = (granted, l') \<Longrightarrow>
    limiter_step consume refund (l, now, grants) (l', now, if granted then grants @ [(g, n, now)] else grants)"
| wake: "i < length (rl_pending l) \<Longrightarrow> snd (snd (rl_pending l ! i)) \<le> now \<Longrightarrow>
    limiter_step consume refund (l, now, grants) (refund i l, now, grants)"

definition units :: "'g \<Rightarrow> ('g \<times> int \<times> time) list \<Rightarrow> int" where
  "units g xs = sum_list (map (\<lambda>(h, n, _). if h = g then n else 0) xs)"

text \<open>The grants of the last second.\<close>

definition recent :: "time \<Rightarrow> ('g \<times> int \<times> time) list \<Rightarrow> ('g \<times> int \<times> time) list" where
  "recent now grants = filter (\<lambda>(_, _, t). now < t + second) grants"

lemma units_simps [simp]:
  "units g [] = 0" "units g (xs @ ys) = units g xs + units g ys"
  "units g ((h, n, t) # xs) = (if h = g then n else 0) + units g xs"
  by (simp_all add: units_def)

lemma units_drop_at: "i < length xs \<Longrightarrow> units g (drop_at xs i) = units g xs - units g [xs ! i]"
  using arg_cong [OF id_take_nth_drop, of i xs "units g"] by (cases "xs ! i") (simp add: drop_at_def)

lemma units_nonneg: "\<forall>(_, n, _) \<in> set xs. 0 \<le> n \<Longrightarrow> 0 \<le> units g xs"
  by (induction xs) auto

text \<open>What is left and what is lent out is the capacity; the grants of the last second are lent out.\<close>

definition linv :: "('g \<Rightarrow> int) \<Rightarrow> 'g rateLimiter \<times> time \<times> ('g \<times> int \<times> time) list \<Rightarrow> bool" where
  "linv cap s = (case s of (l, now, grants) \<Rightarrow>
     rl_capacity l = cap \<and> (\<forall>(_, n, _) \<in> set (rl_pending l). 0 \<le> n) \<and>
     (\<forall>g. 0 \<le> rl_quotas l g \<and> rl_quotas l g + units g (rl_pending l) = cap g) \<and>
     (\<forall>g now'. now \<le> now' \<longrightarrow>
        units g (recent now' grants) \<le> units g (filter (\<lambda>(_, _, due). now' < due) (rl_pending l))))"

lemma units_filter: "\<forall>(_, n, _) \<in> set xs. 0 \<le> n \<Longrightarrow> units g (filter P xs) \<le> units g xs"
  by (induction xs) auto

lemma filter_drop_at: "i < length xs \<Longrightarrow> \<not> P (xs ! i) \<Longrightarrow> filter P (drop_at xs i) = filter P xs"
  using arg_cong [OF id_take_nth_drop, of i xs "filter P"] by (simp add: drop_at_def)

lemma set_drop_at: "set (drop_at xs i) \<subseteq> set xs"
  by (auto simp: drop_at_def dest: in_set_takeD in_set_dropD)

lemma recent_snoc: "recent now (xs @ [(g, n, t)]) = recent now xs @ (if now < t + second then [(g, n, t)] else [])"
  by (simp add: recent_def)

locale quota_limiter =
  fixes new :: "'g rateLimiter" and consume :: "'g \<Rightarrow> int \<Rightarrow> time \<Rightarrow> 'g rateLimiter \<Rightarrow> bool \<times> 'g rateLimiter"
    and refund :: "nat \<Rightarrow> 'g rateLimiter \<Rightarrow> 'g rateLimiter" and cap :: "'g \<Rightarrow> int"
  assumes new_full: "rl_quotas new = cap \<and> rl_capacity new = cap \<and> rl_pending new = []"
    and cap_nonneg: "0 \<le> cap g"
    and consume_law: "consume g n now l = (if rl_quotas l g < n then (False, l)
      else (True, l\<lparr>rl_quotas := (rl_quotas l)(g := rl_quotas l g - n), rl_pending := rl_pending l @ [(g, n, now + second)]\<rparr>))"
    and refund_law: "i < length (rl_pending l) \<Longrightarrow> rl_pending l ! i = (g, n, due) \<Longrightarrow>
      refund i l = l\<lparr>rl_quotas := (rl_quotas l)(g := min (rl_capacity l g) (rl_quotas l g + n)),
        rl_pending := drop_at (rl_pending l) i\<rparr>"
begin

lemma linv_new: "linv cap (new, now, [])"
  using new_full cap_nonneg by (simp add: linv_def recent_def)

lemma linv_step:
  assumes "linv cap s" and "limiter_step consume refund s s'"
  shows "linv cap s'"
  using assms(2)
proof cases
  case (tick now now' l grants)
  with assms(1) show ?thesis by (auto simp: linv_def)
next
  case (ask n g now l granted l' grants)
  with assms(1) show ?thesis
    by (auto simp: linv_def consume_law recent_snoc split: if_splits)
next
  case (wake i l now grants)
  obtain g n due where e: "rl_pending l ! i = (g, n, due)" using prod_cases3 by blast
  have inv: "rl_capacity l = cap" "\<forall>(_, n, _) \<in> set (rl_pending l). 0 \<le> n"
    "\<And>g. 0 \<le> rl_quotas l g \<and> rl_quotas l g + units g (rl_pending l) = cap g"
    "\<And>g now'. now \<le> now' \<Longrightarrow>
        units g (recent now' grants) \<le> units g (filter (\<lambda>(_, _, due). now' < due) (rl_pending l))"
    using assms(1) wake(1) by (auto simp: linv_def)
  have n: "0 \<le> n" using inv(2) e wake(3) nth_mem by fastforce
  have u: "units h (drop_at (rl_pending l) i) = units h (rl_pending l) - (if g = h then n else 0)" for h
    using units_drop_at [OF wake(3)] e by simp
  have "\<forall>(_, n, _) \<in> set (drop_at (rl_pending l) i). 0 \<le> n" using inv(2) set_drop_at by fastforce
  moreover from this have "0 \<le> units g (drop_at (rl_pending l) i)" by (rule units_nonneg)
  moreover have "filter (\<lambda>(_, _, due). now' < due) (drop_at (rl_pending l) i) =
      filter (\<lambda>(_, _, due). now' < due) (rl_pending l)" if "now \<le> now'" for now'
    by (rule filter_drop_at [OF wake(3)]) (use e wake(4) that in auto)
  moreover have "min (rl_capacity l g) (rl_quotas l g + n) = rl_quotas l g + n"
    using calculation(2) u [of g] inv(1) inv(3) [of g] by simp
  ultimately show ?thesis
    using wake(2) refund_law [OF wake(3) e] inv n by (auto simp: linv_def u)
qed

lemma window:
  assumes "linv cap (l, now, grants)"
  shows "units g (recent now grants) \<le> cap g \<and> 0 \<le> rl_quotas l g \<and> rl_quotas l g \<le> cap g"
proof -
  have inv: "\<forall>(_, n, _) \<in> set (rl_pending l). 0 \<le> n" "0 \<le> rl_quotas l g"
    "rl_quotas l g + units g (rl_pending l) = cap g"
    "units g (recent now grants) \<le> units g (filter (\<lambda>(_, _, due). now < due) (rl_pending l))"
    using assms by (auto simp: linv_def)
  with units_filter [OF inv(1), of g "\<lambda>(_, _, due). now < due"] units_nonneg [OF inv(1), of g] show ?thesis by linarith
qed

end

sublocale quota_limiter < limiter: invariant_system "\<lambda>s. \<exists>now. s = (new, now, [])" "limiter_step consume refund" "linv cap"
  by unfold_locales (auto simp: linv_new intro: linv_step)

context quota_limiter
begin

lemma window_of_run:
  assumes "(limiter_step consume refund)\<^sup>*\<^sup>* (new, now0, []) (l, now, grants)"
  shows "units g (recent now grants) \<le> cap g \<and> 0 \<le> rl_quotas l g \<and> rl_quotas l g \<le> cap g"
  by (rule window [OF limiter.run_inv [OF assms linv_new]])

end

interpretation cx: quota_limiter cx_newRateLimiter cx_consume cx_refund cx_limit
  by unfold_locales
    (auto simp: cx_newRateLimiter_def cx_limit_def cx_consume_def cx_refund_def Let_def min_def split: CxGroup.split)

interpretation bb: quota_limiter bb_newRateLimiter bb_consume bb_refund bb_limit
  by unfold_locales
    (auto simp: bb_newRateLimiter_def bb_limit_def bb_consume_def bb_refund_def Let_def min_def split: BbGroup.split)

section \<open>Properties\<close>

text \<open>
  C24. The rate limits hold over a sliding window: in every state of every run of the CoinEx
  limiter the units granted for a group during the last second do not exceed its limit (20 for
  orders, 40 for cancellations) and the quota stays between zero and the limit; the same for
  the Bybit limiter (20 for creation and for cancellation, 10 for amendment).
\<close>

theorem rate_limits_respected:
  "((limiter_step cx_consume cx_refund)\<^sup>*\<^sup>* (cx_newRateLimiter, now0, []) (l, now, grants) \<longrightarrow>
    units g (recent now grants) \<le> cx_limit g \<and> 0 \<le> rl_quotas l g \<and> rl_quotas l g \<le> cx_limit g) \<and>
   ((limiter_step bb_consume bb_refund)\<^sup>*\<^sup>* (bb_newRateLimiter, now1, []) (l', now', grants') \<longrightarrow>
    units g' (recent now' grants') \<le> bb_limit g' \<and> 0 \<le> rl_quotas l' g' \<and> rl_quotas l' g' \<le> bb_limit g')"
  using cx.window_of_run [of now0 l now grants g] bb.window_of_run [of now1 l' now' grants' g'] by blast

lemma one_grant:
  assumes "0 \<le> n" and "fst (consume g n now l)"
  shows "(limiter_step consume refund)\<^sup>*\<^sup>* (l, now, []) (snd (consume g n now l), now, [(g, n, now)])"
  using limiter_step.ask [of n consume g now l True "snd (consume g n now l)" refund "[]"] assms
  by (auto simp: prod_eq_iff)

theorem rate_limits_respected_witness:
  "(let l = snd (cx_consume GroupOrder 15 7 cx_newRateLimiter) in
    units GroupOrder (recent 7 [(GroupOrder, 15, 7)]) \<le> 20 \<and> rl_quotas l GroupOrder \<le> 20 \<and> \<not> fst (cx_consume GroupOrder 6 8 l)) \<and>
   (let l = snd (bb_consume GroupAmendOrder 10 7 bb_newRateLimiter) in
    units GroupAmendOrder (recent 7 [(GroupAmendOrder, 10, 7)]) \<le> 10 \<and> \<not> fst (bb_consume GroupAmendOrder 1 8 l))"
proof -
  have "fst (cx_consume GroupOrder 15 7 cx_newRateLimiter)" "fst (bb_consume GroupAmendOrder 10 7 bb_newRateLimiter)"
    by (simp_all add: cx_consume_def cx_newRateLimiter_def cx_limit_def bb_consume_def bb_newRateLimiter_def bb_limit_def)
  with rate_limits_respected [of 7 "snd (cx_consume GroupOrder 15 7 cx_newRateLimiter)" 7 "[(GroupOrder, 15, 7)]" GroupOrder
      7 "snd (bb_consume GroupAmendOrder 10 7 bb_newRateLimiter)" 7 "[(GroupAmendOrder, 10, 7)]" GroupAmendOrder]
    one_grant [of 15 cx_consume GroupOrder 7 cx_newRateLimiter cx_refund] one_grant [of 10 bb_consume GroupAmendOrder 7 bb_newRateLimiter bb_refund]
  show ?thesis
    by (simp add: cx_consume_def cx_newRateLimiter_def cx_limit_def bb_consume_def bb_newRateLimiter_def bb_limit_def Let_def)
qed

end
