(* ===== verification/Latency.thy ===== *)
theory Latency
  imports Prelude "HOL-Library.Signed_Division"
begin

text \<open>
  \<open>internal/gateways/latency_measurer.go\<close>: the running aggregate of a topic's latencies and
  the measurer that closes an interval at every tick and hands the closed intervals out.
  Durations and the counter are signed 64-bit integers: sums are wrapped, and the division of
  \<open>Avg\<close> truncates towards zero.
\<close>

section \<open>AggLatency\<close>

record AggLatency =
  al_counter :: int
  al_sumVal :: duration
  al_maxVal :: duration
  al_minVal :: duration

definition NewAggLatency :: AggLatency where
  "NewAggLatency = \<lparr>al_counter = 0, al_sumVal = 0, al_maxVal = 0, al_minVal = 0\<rparr>"

definition al_Add :: "duration \<Rightarrow> AggLatency \<Rightarrow> AggLatency" where
  "al_Add latency l =
     (let l1 = l\<lparr>al_sumVal := wrap64 (al_sumVal l + latency)\<rparr>;
          l2 = (if al_maxVal l1 < latency \<or> al_counter l1 = 0 then l1\<lparr>al_maxVal := latency\<rparr> else l1);
          l3 = (if latency < al_minVal l2 \<or> al_counter l2 = 0 then l2\<lparr>al_minVal := latency\<rparr> else l2)
      in l3\<lparr>al_counter := wrap64 (al_counter l3 + 1)\<rparr>)"

text \<open>\<open>None\<close> is the nil pointer.\<close>

definition al_Avg :: "AggLatency \<Rightarrow> duration option" where
  "al_Avg l = (if al_counter l = 0 then None else Some (wrap64 (signed_divide (al_sumVal l) (al_counter l))))"

definition al_Max :: "AggLatency \<Rightarrow> duration option" where
  "al_Max l = (if al_counter l = 0 then None else Some (al_maxVal l))"

definition al_Min :: "AggLatency \<Rightarrow> duration option" where
  "al_Min l = (if al_counter l = 0 then None else Some (al_minVal l))"

section \<open>LatencyMeasurer\<close>

type_synonym AggLatencyMap = "string \<rightharpoonup> AggLatency"

record LatencyMeasurer =
  lm_aggregateInterval :: duration
  lm_current :: AggLatencyMap
  lm_history :: "(time \<times> AggLatencyMap) list"

definition NewLatencyMeasurer :: "duration \<Rightarrow> LatencyMeasurer" where
  "NewLatencyMeasurer aggInterval =
     \<lparr>lm_aggregateInterval = aggInterval, lm_current = Map.empty, lm_history = []\<rparr>"

text \<open>\<open>now\<close> is what \<open>time.Now()\<close> answers.\<close>

definition lm_aggregate :: "time \<Rightarrow> LatencyMeasurer \<Rightarrow> LatencyMeasurer" where
  "lm_aggregate now m =
     m\<lparr>lm_history := lm_history m @ [(now, lm_current m)], lm_current := Map.empty\<rparr>"

definition lm_Export :: "LatencyMeasurer \<Rightarrow> (time \<times> AggLatencyMap) list \<times> LatencyMeasurer" where
  "lm_Export m = (lm_history m, m\<lparr>lm_history := []\<rparr>)"

definition RecordLatency :: "string \<Rightarrow> duration \<Rightarrow> LatencyMeasurer \<Rightarrow> LatencyMeasurer" where
  "RecordLatency topicName latency m =
     (case lm_current m topicName of
        Some l \<Rightarrow> m\<lparr>lm_current := (lm_current m)(topicName \<mapsto> al_Add latency l)\<rparr>
      | None \<Rightarrow> m\<lparr>lm_current := (lm_current m)(topicName \<mapsto> al_Add latency NewAggLatency)\<rparr>)"

text \<open>
  The measurer in use: messages are recorded, the ticker of \<open>Start\<close> fires, the metrics
  exporter collects. The second component is everything exported so far.
\<close>

datatype lm_event = Measured string duration | Ticked time | Collected

fun lm_exec :: "lm_event \<Rightarrow> LatencyMeasurer \<times> (time \<times> AggLatencyMap) list \<Rightarrow> LatencyMeasurer \<times> (time \<times> AggLatencyMap) list" where
  "lm_exec (Measured topic d) (m, out) = (RecordLatency topic d m, out)"
| "lm_exec (Ticked now) (m, out) = (lm_aggregate now m, out)"
| "lm_exec Collected (m, out) = (case lm_Export m of (h, m') \<Rightarrow> (m', out @ h))"

section \<open>The aggregate of a list of latencies\<close>

definition agg_of :: "duration list \<Rightarrow> AggLatency" where
  "agg_of ds = fold al_Add ds NewAggLatency"

lemma agg_of_snoc: "agg_of (ds @ [d]) = al_Add d (agg_of ds)"
  by (simp add: agg_of_def)

lemma wrap64_add: "wrap64 (wrap64 a + b) = wrap64 (a + b)"
proof -
  have "(wrap64 a + b + 2 ^ 63) mod 2 ^ 64 = ((a + 2 ^ 63) mod 2 ^ 64 + b) mod 2 ^ 64"
    by (simp add: wrap64_def algebra_simps)
  then show ?thesis by (simp add: wrap64_def mod_simps algebra_simps)
qed

lemma wrap64_0 [simp]: "wrap64 0 = 0" by (simp add: wrap64_exact)

lemma agg_of_sum: "al_sumVal (agg_of ds) = wrap64 (sum_list ds)"
proof (induction ds rule: rev_induct)
  case Nil
  show ?case by (simp add: agg_of_def NewAggLatency_def)
next
  case (snoc d ds)
  then show ?case by (simp add: agg_of_snoc al_Add_def Let_def wrap64_add)
qed

lemma agg_of_counter: "al_counter (agg_of ds) = wrap64 (int (length ds))"
proof (induction ds rule: rev_induct)
  case Nil
  show ?case by (simp add: agg_of_def NewAggLatency_def)
next
  case (snoc d ds)
  have "al_counter (al_Add d l) = wrap64 (al_counter l + 1)" for l by (simp add: al_Add_def Let_def)
  with snoc show ?case by (simp only: agg_of_snoc wrap64_add) (simp add: add.commute)
qed

lemma counter_nonzero: "ds \<noteq> [] \<Longrightarrow> length ds < 2 ^ 63 \<Longrightarrow> al_counter (agg_of ds) = int (length ds)"
  by (simp add: agg_of_counter wrap64_exact)

lemma agg_of_extrema:
  "ds \<noteq> [] \<Longrightarrow> length ds < 2 ^ 63 \<Longrightarrow>
   al_maxVal (agg_of ds) = Max (set ds) \<and> al_minVal (agg_of ds) = Min (set ds)"
proof (induction ds rule: rev_induct)
  case (snoc d ds)
  show ?case
  proof (cases "ds = []")
    case True
    then show ?thesis by (simp add: agg_of_def al_Add_def NewAggLatency_def)
  next
    case False
    with snoc.prems have "al_counter (agg_of ds) \<noteq> 0" by (simp add: counter_nonzero)
    then have "al_maxVal (al_Add d (agg_of ds)) = max d (al_maxVal (agg_of ds)) \<and>
        al_minVal (al_Add d (agg_of ds)) = min d (al_minVal (agg_of ds))"
      by (simp add: al_Add_def Let_def)
    moreover have "set (ds @ [d]) = insert d (set ds)" by simp
    ultimately show ?thesis using False snoc by (simp add: agg_of_snoc)
  qed
qed simp

text \<open>Truncation towards zero stays between integer bounds of the exact quotient.\<close>

lemma signed_divide_bounds:
  fixes s n lo hi :: int
  assumes "0 < n" and "lo * n \<le> s" and "s \<le> hi * n"
  shows "lo \<le> signed_divide s n \<and> signed_divide s n \<le> hi"
proof (cases "0 \<le> s")
  case True
  with assms(1) have "signed_divide s n = s div n" by (cases "s = 0") (simp_all add: signed_divide_int_def)
  with assms show ?thesis using zdiv_mono1 [of "lo * n" s n] zdiv_mono1 [of s "hi * n" n] by simp
next
  case False
  with assms(1) have "signed_divide s n = - ((- s) div n)" by (simp add: signed_divide_int_def)
  moreover have "(- s) div n \<le> ((- lo) * n) div n" "((- hi) * n) div n \<le> (- s) div n"
    by (rule zdiv_mono1; use assms in simp)+
  moreover have "((- lo) * n) div n = - lo" "((- hi) * n) div n = - hi"
    by (rule nonzero_mult_div_cancel_right; use assms(1) in simp)+
  ultimately show ?thesis by simp
qed

lemma sum_between: "ds \<noteq> [] \<Longrightarrow> Min (set ds) * int (length ds) \<le> sum_list ds \<and> sum_list ds \<le> Max (set ds) * int (length ds)"
proof -
  have "(\<forall>d \<in> set ds. lo \<le> d) \<Longrightarrow> lo * int (length ds) \<le> sum_list ds" for lo
    by (induction ds) (auto simp: algebra_simps)
  moreover have "(\<forall>d \<in> set ds. d \<le> hi) \<Longrightarrow> sum_list ds \<le> hi * int (length ds)" for hi
    by (induction ds) (auto simp: algebra_simps)
  ultimately show "ds \<noteq> [] \<Longrightarrow> ?thesis" by simp
qed

text \<open>What the measurer should hold: per topic, the aggregate of the latencies recorded under it.\<close>

definition summary_of :: "(string \<times> duration) list \<Rightarrow> AggLatencyMap" where
  "summary_of rs topic = (let ds = map snd (filter (\<lambda>(t, _). t = topic) rs) in if ds = [] then None else Some (agg_of ds))"

text \<open>The intervals of a sequence of events: the closed ones with their closing times, and the open one.\<close>

fun intervals :: "lm_event list \<Rightarrow> (string \<times> duration) list \<Rightarrow> (time \<times> (string \<times> duration) list) list \<times> (string \<times> duration) list" where
  "intervals [] cur = ([], cur)"
| "intervals (Measured t d # es) cur = intervals es (cur @ [(t, d)])"
| "intervals (Ticked now # es) cur = (case intervals es [] of (closed, opn) \<Rightarrow> ((now, cur) # closed, opn))"
| "intervals (Collected # es) cur = intervals es cur"

lemma RecordLatency_summary:
  "lm_current m = summary_of cur \<Longrightarrow> RecordLatency t d m = m\<lparr>lm_current := summary_of (cur @ [(t, d)])\<rparr>"
proof -
  have "(summary_of cur)(t \<mapsto> al_Add d (case summary_of cur t of Some l \<Rightarrow> l | None \<Rightarrow> NewAggLatency)) = summary_of (cur @ [(t, d)])"
    by (rule ext) (auto simp: summary_of_def Let_def agg_of_snoc agg_of_def filter_empty_conv)
  then show "lm_current m = summary_of cur \<Longrightarrow> ?thesis"
    by (simp add: RecordLatency_def split: option.splits)
qed

lemma run_intervals:
  assumes "fold lm_exec es (m, out) = (m', out')" and "intervals es cur = (closed, opn)" and "lm_current m = summary_of cur"
  shows "out' @ lm_history m' = out @ lm_history m @ map (\<lambda>(now, rs). (now, summary_of rs)) closed \<and> lm_current m' = summary_of opn"
  using assms
proof (induction es arbitrary: m out cur closed)
  case (Cons e es)
  have empty: "summary_of [] = Map.empty" by (rule ext) (simp add: summary_of_def)
  show ?case
  proof (cases e)
    case (Measured t d)
    with Cons.prems have "fold lm_exec es (RecordLatency t d m, out) = (m', out')" by simp
    from Cons.IH [OF this, of "cur @ [(t, d)]" closed] Cons.prems Measured show ?thesis
      by (simp add: RecordLatency_summary)
  next
    case (Ticked now)
    with Cons.prems obtain c where "closed = (now, cur) # c" "intervals es [] = (c, opn)" by (auto split: prod.splits)
    with Cons.IH [of "lm_aggregate now m" out "[]" c] Cons.prems Ticked show ?thesis
      by (simp add: lm_aggregate_def empty)
  next
    case Collected
    with Cons.IH [of "m\<lparr>lm_history := []\<rparr>" "out @ lm_history m" cur closed] Cons.prems show ?thesis
      by (simp add: lm_Export_def)
  qed
qed simp

section \<open>Properties\<close>

lemma average_exact:
  assumes "ds \<noteq> []" and "minDuration \<le> sum_list ds" and "sum_list ds \<le> maxDuration"
  shows "wrap64 (signed_divide (sum_list ds) (int (length ds))) = signed_divide (sum_list ds) (int (length ds))"
proof -
  have n: "1 \<le> int (length ds)" using assms(1) by (cases ds) auto
  have "minDuration * int (length ds) \<le> minDuration * 1" "maxDuration * 1 \<le> maxDuration * int (length ds)"
    by (rule mult_left_mono_neg [OF n], simp add: minDuration_def) (rule mult_left_mono [OF n], simp add: maxDuration_def)
  then have "minDuration \<le> signed_divide (sum_list ds) (int (length ds)) \<and> signed_divide (sum_list ds) (int (length ds)) \<le> maxDuration"
    using assms n by (intro signed_divide_bounds) auto
  then show ?thesis by (intro wrap64_exact) (auto simp: minDuration_def maxDuration_def)
qed

text \<open>
  As long as their sum and their number fit 64 bits, the running aggregate of a non-empty
  list of latencies reports the exact maximum and minimum, an average that is the sum divided by
  the length (truncated) and lies between them; an aggregate of no latency reports nothing.
\<close>

theorem aggregate_reports_statistics:
  assumes "ds \<noteq> []" and "length ds < 2 ^ 63" and "minDuration \<le> sum_list ds" and "sum_list ds \<le> maxDuration"
  shows "al_Max (agg_of ds) = Some (Max (set ds)) \<and> al_Min (agg_of ds) = Some (Min (set ds)) \<and>
     (\<exists>a. al_Avg (agg_of ds) = Some a \<and> a = signed_divide (sum_list ds) (int (length ds)) \<and>
        Min (set ds) \<le> a \<and> a \<le> Max (set ds)) \<and>
     al_Avg (agg_of []) = None \<and> al_Max (agg_of []) = None \<and> al_Min (agg_of []) = None"
proof -
  have "al_sumVal (agg_of ds) = sum_list ds"
    using assms(3,4) by (simp add: agg_of_sum wrap64_exact minDuration_def maxDuration_def)
  moreover have "0 < int (length ds)" using assms(1) by simp
  ultimately show ?thesis
    using assms(1) counter_nonzero [OF assms(1,2)] agg_of_extrema [OF assms(1,2)] average_exact [OF assms(1,3,4)]
      signed_divide_bounds [of "int (length ds)" "Min (set ds)" "sum_list ds" "Max (set ds)"] sum_between [OF assms(1)]
    by (simp add: al_Max_def al_Min_def al_Avg_def agg_of_counter)
qed

theorem aggregate_reports_statistics_witness:
  "al_Max (agg_of [5, - 9, 3]) = Some 5 \<and> al_Min (agg_of [5, - 9, 3]) = Some (- 9) \<and> al_Avg (agg_of [5, - 9, 3]) = Some 0"
  using aggregate_reports_statistics [of "[5, - 9, 3]"]
  by (simp add: minDuration_def maxDuration_def signed_divide_int_def)

text \<open>
  C38. No latency is lost or counted twice, whatever the interleaving of recording, ticking and
  exporting: what has been exported, followed by what waits to be exported, is exactly the
  sequence of closed intervals, each with its closing time and, per topic, the aggregate of the
  latencies recorded in it, and the current map is the aggregate of the open interval.
\<close>

theorem measurer_accounts_for_every_latency:
  assumes "fold lm_exec es (NewLatencyMeasurer d, []) = (m, out)" and "intervals es [] = (closed, opn)"
  shows "out @ lm_history m = map (\<lambda>(now, rs). (now, summary_of rs)) closed \<and> lm_current m = summary_of opn"
proof -
  have "lm_current (NewLatencyMeasurer d) = summary_of []"
    by (rule ext) (simp add: summary_of_def NewLatencyMeasurer_def)
  from run_intervals [OF assms this] show ?thesis by (simp add: NewLatencyMeasurer_def)
qed

theorem measurer_accounts_for_every_latency_witness:
  "(case fold lm_exec [Measured ''a'' 3, Ticked 10, Collected, Measured ''a'' 4, Measured ''b'' 5, Measured ''a'' 6]
      (NewLatencyMeasurer 60, []) of (m, out) \<Rightarrow>
     out = [(10, summary_of [(''a'', 3)])] \<and> lm_current m = summary_of [(''a'', 4), (''b'', 5), (''a'', 6)])"
proof -
  let ?es = "[Measured ''a'' 3, Ticked 10, Collected, Measured ''a'' 4, Measured ''b'' 5, Measured ''a'' 6]"
  obtain m out where r: "fold lm_exec ?es (NewLatencyMeasurer 60, []) = (m, out)" by fastforce
  moreover have "lm_history m = []"
    using r by (simp add: lm_aggregate_def lm_Export_def RecordLatency_def NewLatencyMeasurer_def)
      (auto split: option.splits)
  ultimately show ?thesis
    using measurer_accounts_for_every_latency [OF r, of "[(10, [(''a'', 3)])]" "[(''a'', 4), (''b'', 5), (''a'', 6)]"] by simp
qed

end
