(* ===== verification/Dealer_Stop.thy ===== *)
theory Dealer_Stop
  imports Dealer_Correct
begin

text \<open>
  The dealer's stop switch and its position: a critical error stops the dealer for good,
  \<open>acceptOrder\<close> gates new orders and amendments but not cancellations, and the current
  position is the one of the latest accepted position message.
\<close>

section \<open>No operation starts a stopped dealer\<close>

definition stopped :: "'d DealerImpl \<Rightarrow> bool" where
  "stopped d \<longleftrightarrow> \<not> Flag_Get (d_acceptOrder d)"

lemma stopped_base [simp]:
  "stopped (on r f d) = stopped d" "stopped (spawn r cbs d) = stopped d" "stopped (request q d) = stopped d"
  "stopped (Living_Delete r d) = stopped d" "stopped (done_Append r d) = stopped d"
  "stopped (d\<lparr>d_LivingOrders := m\<rparr>) = stopped d" "stopped (d\<lparr>d_UnrelatedOrders := m\<rparr>) = stopped d"
  "stopped (d\<lparr>d_amendingDetailMap := am\<rparr>) = stopped d" "stopped (d\<lparr>d_spawned := sp\<rparr>) = stopped d"
  "stopped (d\<lparr>d_heap := h\<rparr>) = stopped d" "stopped (d\<lparr>d_next := n\<rparr>) = stopped d"
  "stopped (d\<lparr>d_doneOrders := s\<rparr>) = stopped d" "stopped (d\<lparr>d_CurrentPosition := p\<rparr>) = stopped d"
  "stopped (d\<lparr>d_posCalls := c\<rparr>) = stopped d" "stopped (d\<lparr>d_posUpdatedHandlers := hs\<rparr>) = stopped d"
  by (simp_all add: stopped_def on_def spawn_def request_def Living_Delete_def done_Append_def)

lemma stopped_handlers [simp]:
  "stopped (acceptFilled r d) = stopped d" "stopped (acceptPartiallyFilled r d) = stopped d"
  "stopped (acceptCreate r pid t1 t2 d) = stopped d" "stopped (acceptCancel r d) = stopped d"
  "stopped (rejectAmend r d) = stopped d" "stopped (rejectCreate r d) = stopped d"
  "stopped (rejectCancel r d) = stopped d" "stopped (abandonOrder r d) = stopped d"
  "stopped (setOrderFillInfo r data d) = stopped d" "stopped (setOrderPartiallyFillInfo r data d) = stopped d"
  "stopped (enterSending now r d) = stopped d" "stopped (enterCanceling now r d) = stopped d"
  "stopped (execAmendRejectOrderNotExistCallbacks r d) = stopped d" "stopped (deferCancel r d) = stopped d"
  by (simp_all add: handler_defs setOrderFillInfo_def setOrderPartiallyFillInfo_def enterSending_def
      enterCanceling_def execCreateCallbacks_def execAmendCallbacks_def execFillCallbacks_def
      execPartiallyFillCallbacks_def execCancelCallbacks_def execCreateRejectCallbacks_def
      execAmendRejectCallbacks_def execAmendRejectOrderNotExistCallbacks_def execCancelRejectCallbacks_def
      deferCancel_def Let_def split: OrderStatus.split)

lemma stopped_acceptAmend: "acceptAmend r ad t1 t2 d = Inr d' \<Longrightarrow> stopped d' = stopped d"
  by (auto simp: acceptAmend_def execAmendCallbacks_def Let_def bind_r_eq_Inr)

lemma stopped_fold: "(\<And>x d. stopped (f x d) = stopped d) \<Longrightarrow> stopped (fold f xs d) = stopped d"
  by (induction xs arbitrary: d) auto

lemma stopped_noticeError: "stopped d \<Longrightarrow> stopped (noticeError e d)"
  by (simp add: stopped_def noticeError_def)

lemma stopped_resps:
  "stopped d \<Longrightarrow> stopped (handleSendOrderResp cresp err d)"
  "stopped d \<Longrightarrow> stopped (handleCancelOrderResp xresp err d)"
  "stopped d \<Longrightarrow> handleAmendOrderResp aresp err d = Inr d' \<Longrightarrow> stopped d'"
  by (auto simp: handleSendOrderResp_def handleCancelOrderResp_def handleAmendOrderResp_def stopped_noticeError
      stopped_acceptAmend split: option.splits OrderType.split if_splits)

lemma stopped_batches:
  "stopped d \<Longrightarrow> handleSendOrdersResp ids cresps err d = Inr d' \<Longrightarrow> stopped d'"
  "stopped d \<Longrightarrow> handleAmendOrdersResp ids aresps err d = Inr d' \<Longrightarrow> stopped d'"
  "stopped d \<Longrightarrow> handleCancelOrdersResp ids xresps err d = Inr d' \<Longrightarrow> stopped d'"
  unfolding handleSendOrdersResp_def handleAmendOrdersResp_def handleCancelOrdersResp_def Let_def
    rejectCreates_def rejectAmends_def rejectCancels_def
  by (auto split: option.splits intro!: stopped_noticeError simp: stopped_fold
      elim!: foldM_Inr_inv [where P = stopped] intro: stopped_resps)

lemma stopped_cancel [simp]: "stopped (snd (cancelOrder ag now r d)) = stopped d"
  by (simp add: cancelOrder_def Let_def split: option.split)

lemma stopped_splitCancelTargets: "splitCancelTargets rs d = (ts, d') \<Longrightarrow> stopped d' = stopped d"
  by (induction rs d arbitrary: ts rule: splitCancelTargets.induct) (auto split: if_splits prod.splits)

lemma stopped_ops:
  "stopped (snd (SendOrder ag now r d)) = stopped d"
  "stopped (snd (SendOrders ag now rs d)) = stopped d"
  "stopped (snd (CancelOrder ag now r d)) = stopped d"
  "stopped (snd (CancelOrders ag now ks rs d)) = stopped d"
  by (auto simp: SendOrder_def SendOrders_def CancelOrder_def CancelOrders_def runDeferredCancel_def
      rejectCreates_def rejectCancels_def stopped_fold stopped_splitCancelTargets Let_def
      split: option.split prod.split)

lemma stopped_amendOrder: "amendOrder ag now r ad d = Inr (err, d') \<Longrightarrow> stopped d' = stopped d"
  by (auto simp: amendOrder_def amendOrder_locked_def bind_r_eq_Inr Let_def split: if_splits option.splits)

lemma stopped_AmendOrder: "AmendOrder ag now r ad d = Inr (err, d') \<Longrightarrow> stopped d' = stopped d"
  by (auto simp: AmendOrder_def Let_def dest: stopped_amendOrder split: if_splits OrderStatus.splits)

lemma stopped_runCallback: "runCallback ag now t d = Inr d' \<Longrightarrow> stopped d' = stopped d"
  by (auto simp: runCallback_def runDeferredAmend_def runDeferredCancel_def Let_def bind_r_eq_Inr
      dest: stopped_amendOrder split: prod.splits OrderCallback.splits)

lemma stopped_handleOrderDatum: "stopped (handleOrderDatum data d) = stopped d"
  by (simp add: handleOrderDatum_def trackUnrelated_def Let_def split: option.split)

lemma stopped_messages [simp]:
  "stopped (HandleOrderData datas d) = stopped d" "stopped (HandlePositionData pdatas d) = stopped d"
  "stopped (SetPosUpdatedHandler h d) = stopped d" "stopped (snd (ExportDoneOrders d)) = stopped d"
  "stopped (alloc o1 d) = stopped d"
  by (simp_all add: HandleOrderData_def stopped_fold stopped_handleOrderDatum HandlePositionData_def
      SetPosUpdatedHandler_def ExportDoneOrders_def alloc_def Let_def split: sum.split)

lemma stopped_exec_dealer:
  assumes "exec_dealer e d = Inr d'" and "stopped d"
  shows "stopped d'"
proof (cases e)
  case (EvAmendOrder ag now r detail)
  with assms obtain err where "AmendOrder ag now r detail d = Inr (err, d')" by (auto simp: bind_r_eq_Inr)
  with assms(2) stopped_AmendOrder show ?thesis by blast
next
  case (EvCallback ag now i)
  with assms stopped_runCallback show ?thesis by (fastforce split: if_splits)
qed (use assms stopped_resps(3) stopped_batches in \<open>auto simp: stopped_ops stopped_resps(1,2)\<close>)

lemma stopped_dstep: "dstep k k' \<Longrightarrow> stopped (k_dealer k) \<Longrightarrow> stopped (k_dealer k')"
  by (auto simp: dstep_iff exec_def bind_r_eq_Inr dest: stopped_exec_dealer)

lemma stopped_run: "dstep\<^sup>*\<^sup>* k k' \<Longrightarrow> stopped (k_dealer k) \<Longrightarrow> stopped (k_dealer k')"
  by (induction rule: rtranclp_induct) (auto dest: stopped_dstep)

lemma stopped_refuses:
  "stopped d \<Longrightarrow> SendOrder ag now r d = (Some notAccepting, d)"
  "stopped d \<Longrightarrow> SendOrders ag now rs d = (Some notAccepting, d)"
  "stopped d \<Longrightarrow> AmendOrder ag now r ad d = Inr (Some notAccepting, d)"
  by (simp_all add: stopped_def SendOrder_def SendOrders_def AmendOrder_def)

lemma critical_noticeError:
  "\<not> errors_Is e InfoError \<Longrightarrow> \<not> errors_Is e WarnError \<Longrightarrow> \<not> errors_Is e HttpRequestError \<Longrightarrow>
     stopped (noticeError e d) \<and> d_onError (noticeError e d) = d_onError d @ [e]"
  by (simp add: noticeError_def stopped_def)



section \<open>The latest position wins\<close>

lemma extractPositionData_Inr:
  "extractPositionData datas = Inr data \<longleftrightarrow> datas = [data] \<and> pd_PositionMode data = PositionModeOneWay"
proof
  assume e: "extractPositionData datas = Inr data"
  then have "filter (\<lambda>data. pd_PositionMode data \<noteq> PositionModeOneWay) datas = []"
    by (auto simp: extractPositionData_def Let_def split: if_splits)
  then have "\<forall>x\<in>set datas. pd_PositionMode x = PositionModeOneWay" by (simp add: filter_empty_conv)
  with e show "datas = [data] \<and> pd_PositionMode data = PositionModeOneWay"
    by (cases datas) (auto simp: extractPositionData_def Let_def not_less_eq_eq split: if_splits)
qed (simp add: extractPositionData_def)

text \<open>The position a one-way message denotes.\<close>

definition position_of :: "'d :: linordered_idom PositionData \<Rightarrow> 'd Position" where
  "position_of data = \<lparr>p_value = ToSize (pd_Side data) (pd_Qty data), p_lastUpdateAt = pd_Timestamp data\<rparr>"

lemma HandlePositionData_position:
  "d_CurrentPosition (HandlePositionData datas d) =
     (case extractPositionData datas of
        Inl _ \<Rightarrow> d_CurrentPosition d
      | Inr data \<Rightarrow> if p_lastUpdateAt (d_CurrentPosition d) \<le> pd_Timestamp data then position_of data
                    else d_CurrentPosition d)"
  by (auto simp: HandlePositionData_def position_of_def ToSize_def go_simps Let_def
      split: sum.split Side.split)

lemma HandlePositionData_older:
  assumes "\<And>data. extractPositionData datas = Inr data \<Longrightarrow> pd_Timestamp data < p_lastUpdateAt (d_CurrentPosition d) \<or>
      position_of data = d_CurrentPosition d"
  shows "d_CurrentPosition (HandlePositionData datas d) = d_CurrentPosition d"
  using assms by (auto simp: HandlePositionData_position split: sum.split)

text \<open>
  C34. Position messages may arrive in any order: after any sequence of them, the current position
  is that of the one-way message with the largest timestamp, provided it is not older than the
  position before; invalid batches and late messages change nothing.
\<close>

theorem latest_position_wins:
  assumes "[data] \<in> set batches" and "pd_PositionMode data = PositionModeOneWay"
    and "getLastUpdateAt (d_CurrentPosition d) \<le> pd_Timestamp data"
    and "\<And>x. [x] \<in> set batches \<Longrightarrow> pd_PositionMode x = PositionModeOneWay \<Longrightarrow> x \<noteq> data \<Longrightarrow>
       pd_Timestamp x < pd_Timestamp data"
  shows "d_CurrentPosition (fold HandlePositionData batches d) =
    \<lparr>p_value = ToSize (pd_Side data) (pd_Qty data), p_lastUpdateAt = pd_Timestamp data\<rparr>"
proof -
  have stay: "d_CurrentPosition (fold HandlePositionData bs d) = position_of data"
    if "d_CurrentPosition d = position_of data" "set bs \<subseteq> set batches" for bs d
    using that
  proof (induction bs arbitrary: d)
    case (Cons b bs)
    have "d_CurrentPosition (HandlePositionData b d) = position_of data"
      using HandlePositionData_older [of b d] Cons.prems assms(4)
      by (force simp: extractPositionData_Inr position_of_def)
    with Cons show ?case by simp
  qed simp
  have "d_CurrentPosition (fold HandlePositionData bs d) = position_of data"
    if "[data] \<in> set bs" "set bs \<subseteq> set batches" "p_lastUpdateAt (d_CurrentPosition d) \<le> pd_Timestamp data" for bs d
    using that
  proof (induction bs arbitrary: d)
    case (Cons b bs)
    show ?case
    proof (cases "b = [data]")
      case True
      with Cons.prems assms(2) show ?thesis
        by (simp add: stay HandlePositionData_position extractPositionData_def)
    next
      case False
      have "p_lastUpdateAt (d_CurrentPosition (HandlePositionData b d)) \<le> pd_Timestamp data"
        using Cons.prems False assms(4)
        by (force simp: HandlePositionData_position extractPositionData_Inr position_of_def split: sum.split)
      with Cons False show ?thesis by simp
    qed
  qed simp
  from this [OF assms(1) subset_refl] assms(3) show ?thesis by (simp add: position_of_def go_simps)
qed

theorem latest_position_wins_witness:
  "Position_Get (d_CurrentPosition (fold HandlePositionData
     [[\<lparr>pd_Timestamp = 9, pd_PositionMode = PositionModeOneWay, pd_Side = SideSell, pd_Qty = 4\<rparr>], [],
      [\<lparr>pd_Timestamp = 7, pd_PositionMode = PositionModeOneWay, pd_Side = SideBuy, pd_Qty = 1\<rparr>]]
     (freshDealer 5 (\<lambda>_. zeroOrder) 0))) = (-4 :: int)"
  using latest_position_wins [of "\<lparr>pd_Timestamp = 9, pd_PositionMode = PositionModeOneWay, pd_Side = SideSell, pd_Qty = 4 :: int\<rparr>"
    "[[\<lparr>pd_Timestamp = 9, pd_PositionMode = PositionModeOneWay, pd_Side = SideSell, pd_Qty = 4\<rparr>], [],
      [\<lparr>pd_Timestamp = 7, pd_PositionMode = PositionModeOneWay, pd_Side = SideBuy, pd_Qty = 1\<rparr>]]"
    "freshDealer 5 (\<lambda>_. zeroOrder) 0"]
  by (simp add: freshDealer_def NewPosition_def go_simps ToSize_def)

end
