(* ===== verification/Agents.thy ===== *)
theory Agents
  imports Coinex_Translators Rate_Limiter Latency Dealer_Stop
begin

text \<open>
  The agents of both exchanges (\<open>coinex/agent/agent.go\<close>, \<open>bybit/agent/agent.go\<close>). Each method is
  two definitions: what it does before it returns (the checks, the quota, the request it sends) and
  what its goroutine hands to the dealer's handler for an outcome of the HTTP request. Encoding a
  request as JSON and building it cannot fail for these types; signing and transport are not
  modelled. A response whose fields are missing is dereferenced as the code does.
\<close>

section \<open>HTTP outcomes\<close>

text \<open>\<open>Do\<close> fails, the status is not 200, the body cannot be read or decoded (with the raw body), a decoded body.\<close>

datatype 'b http_result = DoFailed string | HttpStatus int | BadBody string string | Body 'b

section \<open>CoinEx: requests\<close>

datatype cx_request =
    CxCreate cx_OrderDto | CxCreates "cx_OrderDto list" | CxCancel string int | CxCancels string "int list" | CxAmend cx_AmendDetailDto

record cx_PrivateAPIAgent =
  ax_rateLimiter :: "CxGroup rateLimiter"
  ax_sent :: "cx_request list"

definition cx_NewPrivateAPIAgent :: cx_PrivateAPIAgent where
  "cx_NewPrivateAPIAgent = \<lparr>ax_rateLimiter = cx_newRateLimiter, ax_sent = []\<rparr>"

definition cx_group_no :: "CxGroup \<Rightarrow> int" where
  "cx_group_no g = (case g of GroupOrder \<Rightarrow> 0 | GroupCancel \<Rightarrow> 1)"

definition cx_limit_error :: "CxGroup \<Rightarrow> int \<Rightarrow> CxGroup rateLimiter \<Rightarrow> error" where
  "cx_limit_error g n l = Message (''rate limit reached (group='' @ FormatInt (cx_group_no g) @ '', remaining='' @
     FormatInt (rl_quotas l g) @ '', requested='' @ FormatInt n @ '')'')"

text \<open>The head of every method: the handler must be given, then the quota.\<close>

definition cx_admit :: "bool \<Rightarrow> CxGroup \<Rightarrow> int \<Rightarrow> time \<Rightarrow> cx_PrivateAPIAgent \<Rightarrow> error option \<times> cx_PrivateAPIAgent" where
  "cx_admit handler g n now a =
     (if \<not> handler then (Some (Message ''handler is required''), a)
      else (case cx_consume g n now (ax_rateLimiter a) of
              (False, l) \<Rightarrow> (Some (cx_limit_error g n l), a\<lparr>ax_rateLimiter := l\<rparr>)
            | (True, l) \<Rightarrow> (None, a\<lparr>ax_rateLimiter := l\<rparr>)))"

definition cx_send :: "cx_request \<Rightarrow> cx_PrivateAPIAgent \<Rightarrow> error option \<times> cx_PrivateAPIAgent" where
  "cx_send r a = (None, a\<lparr>ax_sent := ax_sent a @ [r]\<rparr>)"

definition cx_SendOrder ::
  "('d \<Rightarrow> string) \<Rightarrow> bool \<Rightarrow> time \<Rightarrow> 'd Symbol \<Rightarrow> 'd :: linordered_idom Order \<Rightarrow> cx_PrivateAPIAgent \<Rightarrow> error option \<times> cx_PrivateAPIAgent" where
  "cx_SendOrder str handler now sy o1 a =
     (case cx_admit handler GroupOrder 1 now a of
        (Some e, a1) \<Rightarrow> (Some e, a1)
      | (None, a1) \<Rightarrow> cx_send (CxCreate (cx_TranslateToDto str sy o1)) a1)"

definition cx_SendOrders ::
  "('d \<Rightarrow> string) \<Rightarrow> bool \<Rightarrow> time \<Rightarrow> 'd Symbol \<Rightarrow> 'd :: linordered_idom Order list \<Rightarrow> cx_PrivateAPIAgent \<Rightarrow> error option \<times> cx_PrivateAPIAgent" where
  "cx_SendOrders str handler now sy orders a =
     (case cx_admit handler GroupOrder (int (length orders)) now a of
        (Some e, a1) \<Rightarrow> (Some e, a1)
      | (None, a1) \<Rightarrow> cx_send (CxCreates (cx_TranslateToListDto str sy orders)) a1)"

definition convert_public_id :: "string \<Rightarrow> error + int" where
  "convert_public_id s =
     (case Atoi s of Some n \<Rightarrow> Inr n | None \<Rightarrow> Inl (Message (''failed to convert public_id: strconv.Atoi: parsing '' @ s)))"

definition cx_CancelOrder :: "bool \<Rightarrow> time \<Rightarrow> 'd Symbol \<Rightarrow> 'd Order \<Rightarrow> cx_PrivateAPIAgent \<Rightarrow> error option \<times> cx_PrivateAPIAgent" where
  "cx_CancelOrder handler now sy o1 a =
     (case cx_admit handler GroupCancel 1 now a of
        (Some e, a1) \<Rightarrow> (Some e, a1)
      | (None, a1) \<Rightarrow>
          (case convert_public_id (GetPublicID o1) of
             Inl e \<Rightarrow> (Some e, a1)
           | Inr pID \<Rightarrow> cx_send (CxCancel (sym_name sy) pID) a1))"

definition cx_CancelOrders :: "bool \<Rightarrow> time \<Rightarrow> 'd Symbol \<Rightarrow> 'd Order list \<Rightarrow> cx_PrivateAPIAgent \<Rightarrow> error option \<times> cx_PrivateAPIAgent" where
  "cx_CancelOrders handler now sy orders a =
     (case cx_admit handler GroupCancel (int (length orders)) now a of
        (Some e, a1) \<Rightarrow> (Some e, a1)
      | (None, a1) \<Rightarrow>
          (case mapE (\<lambda>o1. convert_public_id (GetPublicID o1)) orders of
             Inl e \<Rightarrow> (Some e, a1)
           | Inr pIDs \<Rightarrow> cx_send (CxCancels (sym_name sy) pIDs) a1))"

definition cx_AmendOrder ::
  "('d \<Rightarrow> string) \<Rightarrow> bool \<Rightarrow> time \<Rightarrow> 'd Symbol \<Rightarrow> 'd Order \<Rightarrow> 'd AmendDetail \<Rightarrow> cx_PrivateAPIAgent \<Rightarrow> error option \<times> cx_PrivateAPIAgent" where
  "cx_AmendOrder str handler now sy o1 detail a =
     (case cx_admit handler GroupOrder 1 now a of
        (Some e, a1) \<Rightarrow> (Some e, a1)
      | (None, a1) \<Rightarrow>
          (case cx_TranslateToAmendDetailDto str sy (GetPublicID o1) detail of
             Inl e \<Rightarrow> (Some e, a1)
           | Inr dto \<Rightarrow> cx_send (CxAmend dto) a1))"

definition cx_AmendOrders :: "cx_PrivateAPIAgent \<Rightarrow> error option \<times> cx_PrivateAPIAgent" where
  "cx_AmendOrders a = (Some (Message ''not implemented''), a)"

section \<open>CoinEx: answers\<close>

record cx_OrderRespData =
  rd_PublicOrderID :: int
  rd_ClientID :: string
  rd_UpdatedAt :: int

record cx_OrderRespBody =
  rb_Base :: cx_BaseRespBody
  rb_Data :: "cx_OrderRespData option"

record cx_OrdersRespBody =
  rs_Base :: cx_BaseRespBody
  rs_Data :: "cx_OrderRespBody list"

definition http_error :: "string \<Rightarrow> 'b http_result \<Rightarrow> error option" where
  "http_error what res =
     (case res of
        DoFailed e \<Rightarrow> Some (mk_Error (Sentinel HttpRequestError) (''failed to do http request: '' @ e))
      | HttpStatus n \<Rightarrow> Some (mk_Error (Sentinel HttpRequestError) (''failed to send '' @ what @ '' (http status '' @ FormatInt n @ '')''))
      | _ \<Rightarrow> None)"

definition create_resp :: "string \<Rightarrow> CreateOrderResp" where
  "create_resp orderID = \<lparr>cr_OrderID = orderID, cr_PublicID = [], cr_ArrivedAt = None, cr_ConfirmedAt = None, cr_Err = None\<rparr>"

definition cx_accepted :: "cx_OrderRespData \<Rightarrow> time \<Rightarrow> CreateOrderResp \<Rightarrow> CreateOrderResp" where
  "cx_accepted data confirmedAt r =
     r\<lparr>cr_PublicID := FormatInt (rd_PublicOrderID data), cr_ArrivedAt := Some (UnixMilli (rd_UpdatedAt data)), cr_ConfirmedAt := Some confirmedAt\<rparr>"

definition cx_SendOrder_answer :: "string \<Rightarrow> time \<Rightarrow> cx_OrderRespBody http_result \<Rightarrow> (CreateOrderResp \<times> error option) result" where
  "cx_SendOrder_answer orderID confirmedAt res =
     (let oResp = create_resp orderID in
      case res of
        BadBody raw e \<Rightarrow> Inr (oResp, Some (Message (''failed to read body ('' @ raw @ ''): '' @ e)))
      | Body b \<Rightarrow>
          if \<not> cx_IsRetCodeOK (rb_Base b) then Inr (oResp\<lparr>cr_Err := Some (cx_OperationError (rb_Base b))\<rparr>, None)
          else (case rb_Data b of
                  None \<Rightarrow> Inl NilDeref
                | Some data \<Rightarrow> Inr (cx_accepted data confirmedAt oResp, None))
      | _ \<Rightarrow> Inr (oResp, http_error ''create order'' res))"

text \<open>One turn of the loop over the orders of a batch: \<open>baseBody.Data[i]\<close> may not exist.\<close>

definition cx_create_turn ::
  "time \<Rightarrow> cx_OrderRespBody list \<Rightarrow> nat \<times> string \<Rightarrow> CreateOrdersRespMap \<Rightarrow> CreateOrdersRespMap result" where
  "cx_create_turn confirmedAt datas ie m =
     (case ie of (i, orderID) \<Rightarrow>
        if length datas \<le> i then Inl IndexOutOfRange
        else (let r = datas ! i; oResp = create_resp orderID in
              if \<not> cx_IsRetCodeOK (rb_Base r) then Inr (m(orderID \<mapsto> Some (oResp\<lparr>cr_Err := Some (cx_OperationError (rb_Base r))\<rparr>)))
              else (case rb_Data r of
                      None \<Rightarrow> Inl NilDeref
                    | Some data \<Rightarrow> Inr (m(orderID \<mapsto> Some (cx_accepted data confirmedAt oResp))))))"

definition cx_SendOrders_answer ::
  "string list \<Rightarrow> time \<Rightarrow> cx_OrdersRespBody http_result \<Rightarrow> (CreateOrdersRespMap \<times> error option) result" where
  "cx_SendOrders_answer orderIDs confirmedAt res =
     (let respMap = fold (\<lambda>i m. m(i \<mapsto> None)) orderIDs Map.empty in
      case res of
        BadBody raw e \<Rightarrow> Inr (respMap, Some (Message (''failed to read body ('' @ raw @ ''): '' @ e)))
      | Body b \<Rightarrow>
          if \<not> cx_IsRetCodeOK (rs_Base b) then Inr (respMap, Some (cx_OperationError (rs_Base b)))
          else bind_r (foldM (cx_create_turn confirmedAt (rs_Data b)) (enumerate 0 orderIDs) respMap) (\<lambda>m. Inr (m, None))
      | _ \<Rightarrow> Inr (respMap, http_error ''create orders'' res))"

definition cx_CancelOrder_answer :: "string \<Rightarrow> cx_OrderRespBody http_result \<Rightarrow> CancelOrderResp \<times> error option" where
  "cx_CancelOrder_answer orderID res =
     (let oResp = \<lparr>xr_OrderID = orderID, xr_Err = None\<rparr> in
      case res of
        BadBody raw e \<Rightarrow> (oResp, Some (Message (''failed to read body: '' @ e)))
      | Body b \<Rightarrow>
          if \<not> cx_IsRetCodeOK (rb_Base b) then (oResp\<lparr>xr_Err := Some (cx_OperationError (rb_Base b))\<rparr>, None) else (oResp, None)
      | _ \<Rightarrow> (oResp, http_error ''cancel order'' res))"

definition cx_cancel_turn ::
  "cx_OrderRespBody list \<Rightarrow> nat \<times> string \<Rightarrow> CancelOrdersRespMap \<Rightarrow> CancelOrdersRespMap result" where
  "cx_cancel_turn datas ie m =
     (case ie of (i, orderID) \<Rightarrow>
        if length datas \<le> i then Inl IndexOutOfRange
        else (let r = datas ! i in
              Inr (m(orderID \<mapsto> Some \<lparr>xr_OrderID = orderID,
                     xr_Err = (if \<not> cx_IsRetCodeOK (rb_Base r) then Some (cx_OperationError (rb_Base r)) else None)\<rparr>))))"

definition cx_CancelOrders_answer ::
  "string list \<Rightarrow> cx_OrdersRespBody http_result \<Rightarrow> (CancelOrdersRespMap \<times> error option) result" where
  "cx_CancelOrders_answer orderIDs res =
     (let respMap = fold (\<lambda>i m. m(i \<mapsto> None)) orderIDs Map.empty in
      case res of
        BadBody raw e \<Rightarrow> Inr (respMap, Some (Message (''failed to read body: '' @ e)))
      | Body b \<Rightarrow>
          if \<not> cx_IsRetCodeOK (rs_Base b) then Inr (respMap, Some (cx_OperationError (rs_Base b)))
          else bind_r (foldM (cx_cancel_turn (rs_Data b)) (enumerate 0 orderIDs) respMap) (\<lambda>m. Inr (m, None))
      | _ \<Rightarrow> Inr (respMap, http_error ''cancel orders'' res))"

definition amend_resp :: "string \<Rightarrow> 'd AmendOrderResp" where
  "amend_resp orderID = \<lparr>ar_OrderID = orderID, ar_Detail = None, ar_ArrivedAt = None, ar_ConfirmedAt = None, ar_Err = None\<rparr>"

definition cx_AmendOrder_answer ::
  "string \<Rightarrow> 'd AmendDetail \<Rightarrow> time \<Rightarrow> cx_OrderRespBody http_result \<Rightarrow> ('d AmendOrderResp \<times> error option) result" where
  "cx_AmendOrder_answer orderID detail confirmedAt res =
     (let oResp = amend_resp orderID in
      case res of
        BadBody raw e \<Rightarrow> Inr (oResp, Some (Message (''failed to read body: '' @ e)))
      | Body b \<Rightarrow>
          if \<not> cx_IsRetCodeOK (rb_Base b) then Inr (oResp\<lparr>ar_Err := Some (cx_OperationError (rb_Base b))\<rparr>, None)
          else (case rb_Data b of
                  None \<Rightarrow> Inl NilDeref
                | Some data \<Rightarrow> Inr (oResp\<lparr>ar_Detail := Some detail, ar_ArrivedAt := Some (UnixMilli (rd_UpdatedAt data)),
                                          ar_ConfirmedAt := Some confirmedAt\<rparr>, None))
      | _ \<Rightarrow> Inr (oResp, http_error ''amend order'' res))"

section \<open>Bybit: requests\<close>

datatype bb_request = BbCreate bb_OrderDto | BbCancel bb_CancelDto | BbAmend bb_AmendDetailDto

record bb_PrivateAPIAgent =
  ab_rateLimiter :: "BbGroup rateLimiter"
  ab_latencyMeasurer :: "LatencyMeasurer option"
  ab_sent :: "bb_request list"

definition bb_NewPrivateAPIAgent :: "LatencyMeasurer option \<Rightarrow> bb_PrivateAPIAgent" where
  "bb_NewPrivateAPIAgent measurer = \<lparr>ab_rateLimiter = bb_newRateLimiter, ab_latencyMeasurer = measurer, ab_sent = []\<rparr>"

definition bb_admit :: "bool \<Rightarrow> BbGroup \<Rightarrow> time \<Rightarrow> bb_request \<Rightarrow> bb_PrivateAPIAgent \<Rightarrow> error option \<times> bb_PrivateAPIAgent" where
  "bb_admit handler g now req a =
     (if \<not> handler then (Some (Message ''handler is required''), a)
      else (case bb_consume g 1 now (ab_rateLimiter a) of
              (False, l) \<Rightarrow> (Some (Sentinel LateLimitError), a\<lparr>ab_rateLimiter := l\<rparr>)
            | (True, l) \<Rightarrow> (None, a\<lparr>ab_rateLimiter := l, ab_sent := ab_sent a @ [req]\<rparr>)))"

definition bb_SendOrder ::
  "('d \<Rightarrow> string) \<Rightarrow> bool \<Rightarrow> time \<Rightarrow> 'd Symbol \<Rightarrow> 'd :: linordered_idom Order \<Rightarrow> bb_PrivateAPIAgent \<Rightarrow> error option \<times> bb_PrivateAPIAgent" where
  "bb_SendOrder str handler now sy o1 a = bb_admit handler GroupCreateOrder now (BbCreate (bb_TranslateToDto str sy o1)) a"

definition bb_CancelOrder :: "bool \<Rightarrow> time \<Rightarrow> 'd Symbol \<Rightarrow> 'd Order \<Rightarrow> bb_PrivateAPIAgent \<Rightarrow> error option \<times> bb_PrivateAPIAgent" where
  "bb_CancelOrder handler now sy o1 a = bb_admit handler GroupCancelOrder now (BbCancel (bb_TranslateToCancelDto sy (GetID o1))) a"

definition bb_AmendOrder ::
  "('d \<Rightarrow> string) \<Rightarrow> bool \<Rightarrow> time \<Rightarrow> 'd Symbol \<Rightarrow> 'd Order \<Rightarrow> 'd AmendDetail \<Rightarrow> bb_PrivateAPIAgent \<Rightarrow> error option \<times> bb_PrivateAPIAgent" where
  "bb_AmendOrder str handler now sy o1 detail a =
     bb_admit handler GroupAmendOrder now (BbAmend (bb_TranslateToAmendDetailDto str sy (GetID o1) detail)) a"

text \<open>\<open>SendOrders\<close>, \<open>CancelOrders\<close> and \<open>AmendOrders\<close>.\<close>

definition bb_batch :: "bb_PrivateAPIAgent \<Rightarrow> error option \<times> bb_PrivateAPIAgent" where
  "bb_batch a = (Some (Message ''not implemented''), a)"

section \<open>Bybit: answers\<close>

text \<open>The decoded body is a pointer, nil for the JSON value null.\<close>

definition bb_http_error :: "string \<Rightarrow> 'b http_result \<Rightarrow> error option" where
  "bb_http_error what res =
     (case res of
        DoFailed e \<Rightarrow> Some (Message (''failed to do http request: '' @ e))
      | HttpStatus n \<Rightarrow> Some (Message (''failed to send '' @ what @ '' (http status '' @ FormatInt n @ '')''))
      | BadBody raw e \<Rightarrow> Some (Message (''failed to read body: '' @ e))
      | Body b \<Rightarrow> None)"

definition bb_record ::
  "string \<Rightarrow> time \<Rightarrow> time \<Rightarrow> time \<Rightarrow> LatencyMeasurer option \<Rightarrow> LatencyMeasurer option" where
  "bb_record op sendAt arrivedAt receivedAt lm =
     (case lm of
        None \<Rightarrow> None
      | Some m \<Rightarrow>
          (let m1 = RecordLatency (''bybit_'' @ op @ ''_outbound_ms'') (Time_Sub arrivedAt sendAt) m;
               m2 = RecordLatency (''bybit_'' @ op @ ''_return_ms'') (Time_Sub receivedAt arrivedAt) m1
           in Some (RecordLatency (''bybit_'' @ op @ ''_round_trip_ms'') (Time_Sub receivedAt sendAt) m2)))"

definition bb_SendOrder_answer ::
  "string \<Rightarrow> time \<Rightarrow> time \<Rightarrow> bb_BaseRespBody option http_result \<Rightarrow> LatencyMeasurer option \<Rightarrow>
     ((CreateOrderResp \<times> error option) \<times> LatencyMeasurer option) result" where
  "bb_SendOrder_answer orderID sendAt receivedAt res lm =
     (let oResp = create_resp orderID in
      case res of
        Body None \<Rightarrow> Inl NilDeref
      | Body (Some b) \<Rightarrow>
          if \<not> bb_IsRetCodeOK b then Inr ((oResp\<lparr>cr_Err := Some (bb_OperationError b)\<rparr>, None), lm)
          else (let arrivedAt = UnixMilli (bb_TimestampMs b) in
                Inr ((oResp\<lparr>cr_ArrivedAt := Some arrivedAt, cr_ConfirmedAt := Some receivedAt\<rparr>, None),
                     bb_record ''create_order'' sendAt arrivedAt receivedAt lm))
      | _ \<Rightarrow> Inr ((oResp, bb_http_error ''create order'' res), lm))"

definition bb_CancelOrder_answer ::
  "string \<Rightarrow> time \<Rightarrow> time \<Rightarrow> bb_BaseRespBody option http_result \<Rightarrow> LatencyMeasurer option \<Rightarrow>
     ((CancelOrderResp \<times> error option) \<times> LatencyMeasurer option) result" where
  "bb_CancelOrder_answer orderID sendAt receivedAt res lm =
     (let oResp = \<lparr>xr_OrderID = orderID, xr_Err = None\<rparr> in
      case res of
        Body None \<Rightarrow> Inl NilDeref
      | Body (Some b) \<Rightarrow>
          if \<not> bb_IsRetCodeOK b then Inr ((oResp\<lparr>xr_Err := Some (bb_OperationError b)\<rparr>, None), lm)
          else Inr ((oResp, None), bb_record ''cancel_order'' sendAt (UnixMilli (bb_TimestampMs b)) receivedAt lm)
      | _ \<Rightarrow> Inr ((oResp, bb_http_error ''cancel order'' res), lm))"

definition bb_AmendOrder_answer ::
  "string \<Rightarrow> 'd AmendDetail \<Rightarrow> time \<Rightarrow> time \<Rightarrow> bb_BaseRespBody option http_result \<Rightarrow> LatencyMeasurer option \<Rightarrow>
     (('d AmendOrderResp \<times> error option) \<times> LatencyMeasurer option) result" where
  "bb_AmendOrder_answer orderID detail sendAt receivedAt res lm =
     (let oResp = amend_resp orderID in
      case res of
        Body None \<Rightarrow> Inl NilDeref
      | Body (Some b) \<Rightarrow>
          if \<not> bb_IsRetCodeOK b then Inr ((oResp\<lparr>ar_Err := Some (bb_OperationError b)\<rparr>, None), lm)
          else (let arrivedAt = UnixMilli (bb_TimestampMs b) in
                Inr ((oResp\<lparr>ar_Detail := Some detail, ar_ArrivedAt := Some arrivedAt, ar_ConfirmedAt := Some receivedAt\<rparr>, None),
                     bb_record ''amend_order'' sendAt arrivedAt receivedAt lm))
      | _ \<Rightarrow> Inr ((oResp, bb_http_error ''amend order'' res), lm))"

end
