(* ===== verification/Http.thy ===== *)
theory Http
  imports Json Agents
begin

text \<open>
  The HTTP side of both agents: \<open>coinex/agent/http_client.go\<close>, the two \<open>signer.go\<close> and
  \<open>endpoints.go\<close>, the readers of response bodies in \<open>agent.go\<close> and the decoder of CoinEx batch
  responses in \<open>dtos/base_resp_body.go\<close>. The transport of the standard library is what a request
  yields; \<open>parse\<close> turns the text of a body into a JSON document, \<open>marshal\<close> encodes a request, \<open>sign\<close>
  is the hexadecimal HMAC-SHA256 of a text under a secret.
\<close>

section \<open>http\_client.go\<close>

text \<open>
  An error of a request: its text and, if its chain has a \<open>net.OpError\<close>, the operation and the text of
  the error inside. A response: its status and its body, whose reading may fail.
\<close>

record http_err =
  he_Error :: string
  he_OpError :: "(string \<times> string) option"

record http_response =
  rp_StatusCode :: int
  rp_Body :: "string + string"

type_synonym do_result = "http_err + http_response"

text \<open>Transports are numbered in the order of their creation; \<open>hc_open\<close> counts bodies not closed yet.\<close>

record HttpClient =
  hc_client :: nat
  hc_transport :: nat
  hc_created :: nat
  hc_idleClosed :: "nat list"
  hc_open :: nat
  hc_pings :: nat

definition NewHttpClient :: HttpClient where
  "NewHttpClient = \<lparr>hc_client = 0, hc_transport = 0, hc_created = 1, hc_idleClosed = [], hc_open = 0, hc_pings = 0\<rparr>"

fun str_contains :: "string \<Rightarrow> string \<Rightarrow> bool" where
  "str_contains [] sub = (sub = [])"
| "str_contains (c # cs) sub = (take (length sub) (c # cs) = sub \<or> str_contains cs sub)"

definition reset_text :: string where
  "reset_text = ''connection reset by peer''"

definition isConnectionReset :: "http_err \<Rightarrow> bool" where
  "isConnectionReset err =
     (case he_OpError err of
        Some (op, inner) \<Rightarrow>
          if op = ''read'' \<and> str_contains inner reset_text then True
          else str_contains (he_Error err) reset_text
      | None \<Rightarrow> str_contains (he_Error err) reset_text)"

definition recreateTransport :: "HttpClient \<Rightarrow> HttpClient" where
  "recreateTransport c =
     (let old = hc_transport c;
          c1 = c\<lparr>hc_transport := hc_created c, hc_created := Suc (hc_created c)\<rparr>;
          c2 = c1\<lparr>hc_client := hc_transport c1\<rparr>
      in c2\<lparr>hc_idleClosed := hc_idleClosed c2 @ [old]\<rparr>)"

definition HttpClient_Do :: "do_result \<Rightarrow> HttpClient \<Rightarrow> do_result \<times> HttpClient" where
  "HttpClient_Do res c =
     (res, case res of
             Inl err \<Rightarrow> if isConnectionReset err then recreateTransport c else c
           | Inr resp \<Rightarrow> c\<lparr>hc_open := Suc (hc_open c)\<rparr>)"

text \<open>A ping uses the client directly and always closes the body it gets.\<close>

definition doPingRequest :: "do_result \<Rightarrow> HttpClient \<Rightarrow> HttpClient" where
  "doPingRequest res c = c\<lparr>hc_pings := Suc (hc_pings c)\<rparr>"

datatype client_event = CtxDone | Tick do_result

text \<open>The loop of \<open>Start\<close> after the warm-up: the client and whether the goroutine has ended.\<close>

fun client_loop :: "client_event list \<Rightarrow> HttpClient \<Rightarrow> HttpClient \<times> bool" where
  "client_loop [] c = (c, False)"
| "client_loop (CtxDone # es) c = (c, True)"
| "client_loop (Tick res # es) c = client_loop es (doPingRequest res c)"

definition HttpClient_Start :: "(nat \<Rightarrow> do_result) \<Rightarrow> client_event list \<Rightarrow> HttpClient \<Rightarrow> HttpClient \<times> bool" where
  "HttpClient_Start warm es c = client_loop es (fold (\<lambda>i. doPingRequest (warm i)) [0..<20] c)"

section \<open>signer.go\<close>

record http_request =
  hq_Method :: string
  hq_Host :: string
  hq_Path :: string
  hq_RawQuery :: string
  hq_Header :: "string \<Rightarrow> string option"
  hq_Body :: string

type_synonym credential = "string \<times> string"

definition http_NewRequest :: "string \<Rightarrow> string \<Rightarrow> string \<Rightarrow> string \<Rightarrow> http_request" where
  "http_NewRequest method host path body =
     \<lparr>hq_Method = method, hq_Host = host, hq_Path = path, hq_RawQuery = [], hq_Header = Map.empty, hq_Body = body\<rparr>"

definition Header_Set :: "string \<Rightarrow> string \<Rightarrow> http_request \<Rightarrow> http_request" where
  "Header_Set k v q = q\<lparr>hq_Header := (hq_Header q)(k \<mapsto> v)\<rparr>"

definition cx_signHttp ::
  "(string \<Rightarrow> string \<Rightarrow> string) \<Rightarrow> credential \<Rightarrow> int \<Rightarrow> string \<Rightarrow> http_request \<Rightarrow> http_request" where
  "cx_signHttp sign cred timestamp data req =
     (let (apiKey, secret) = cred;
          timestampStr = FormatInt timestamp;
          h = sign secret (hq_Method req @ hq_Path req @ data @ timestampStr);
          r1 = Header_Set ''Content-Type'' ''application/json; charset=utf-8'' req;
          r2 = Header_Set ''Accept'' ''application/json'' r1;
          r3 = Header_Set ''X-COINEX-KEY'' apiKey r2;
          r4 = Header_Set ''X-COINEX-TIMESTAMP'' timestampStr r3
      in Header_Set ''X-COINEX-SIGN'' h r4)"

definition cx_signHttpGet where
  "cx_signHttpGet sign cred nowMs req = cx_signHttp sign cred nowMs [] req"

definition cx_signHttpPost where
  "cx_signHttpPost sign cred nowMs body req = cx_signHttp sign cred nowMs body req"

definition bb_signHttp ::
  "(string \<Rightarrow> string \<Rightarrow> string) \<Rightarrow> credential \<Rightarrow> int \<Rightarrow> string \<Rightarrow> http_request \<Rightarrow> http_request" where
  "bb_signHttp sign cred timestamp data req =
     (let (apiKey, secret) = cred;
          timestampStr = FormatInt timestamp;
          h = sign secret (timestampStr @ apiKey @ data);
          r1 = Header_Set ''Content-Type'' ''application/json'' req;
          r2 = Header_Set ''X-BAPI-API-KEY'' apiKey r1;
          r3 = Header_Set ''X-BAPI-TIMESTAMP'' timestampStr r2;
          r4 = Header_Set ''X-BAPI-SIGN'' h r3
      in Header_Set ''X-BAPI-SIGN-TYPE'' ''2'' r4)"

definition bb_signHttpGet where
  "bb_signHttpGet sign cred nowMs req = bb_signHttp sign cred nowMs (hq_RawQuery req) req"

definition bb_signHttpPost where
  "bb_signHttpPost sign cred nowMs body req = bb_signHttp sign cred nowMs body req"

section \<open>endpoints.go and the requests of the agents\<close>

definition cx_hostName :: string where "cx_hostName = ''api.coinex.com''"
definition bb_hostName :: string where "bb_hostName = ''api.bybit.com''"

fun cx_endpoint :: "cx_request \<Rightarrow> string" where
  "cx_endpoint (CxCreate dto) = ''/v2/futures/order''"
| "cx_endpoint (CxCreates dtos) = ''/v2/futures/batch-order''"
| "cx_endpoint (CxCancel market i) = ''/v2/futures/cancel-order''"
| "cx_endpoint (CxCancels market is) = ''/v2/futures/cancel-batch-order''"
| "cx_endpoint (CxAmend dto) = ''/v2/futures/modify-order''"

fun bb_endpoint :: "bb_request \<Rightarrow> string" where
  "bb_endpoint (BbCreate dto) = ''/v5/order/create''"
| "bb_endpoint (BbCancel dto) = ''/v5/order/cancel''"
| "bb_endpoint (BbAmend dto) = ''/v5/order/amend''"

text \<open>What the methods of the agents do with an encoded request: build it, then sign its body.\<close>

definition cx_wire ::
  "(cx_request \<Rightarrow> string) \<Rightarrow> (string \<Rightarrow> string \<Rightarrow> string) \<Rightarrow> credential \<Rightarrow> int \<Rightarrow> cx_request \<Rightarrow> http_request" where
  "cx_wire marshal sign cred nowMs r =
     (let body = marshal r in
      cx_signHttpPost sign cred nowMs body (http_NewRequest ''POST'' cx_hostName (cx_endpoint r) body))"

definition bb_wire ::
  "(bb_request \<Rightarrow> string) \<Rightarrow> (string \<Rightarrow> string \<Rightarrow> string) \<Rightarrow> credential \<Rightarrow> int \<Rightarrow> bb_request \<Rightarrow> http_request" where
  "bb_wire marshal sign cred nowMs r =
     (let body = marshal r in
      bb_signHttpPost sign cred nowMs body (http_NewRequest ''POST'' bb_hostName (bb_endpoint r) body))"

section \<open>Response bodies\<close>

definition cx_BaseRespBody_zero :: cx_BaseRespBody where
  "cx_BaseRespBody_zero = \<lparr>cx_Code = 0, cx_Msg = []\<rparr>"

definition cx_OrderRespData_dec :: "cx_OrderRespData decoder" where
  "cx_OrderRespData_dec = dec_struct
     [(''order_id'', on_field rd_PublicOrderID rd_PublicOrderID_update dec_int),
      (''client_id'', on_field rd_ClientID rd_ClientID_update dec_string),
      (''updated_at'', on_field rd_UpdatedAt rd_UpdatedAt_update dec_int)]"

definition cx_OrderRespBody_dec :: "cx_OrderRespBody decoder" where
  "cx_OrderRespBody_dec = dec_struct
     [(''code'', on_field rb_Base rb_Base_update (on_field cx_Code cx_Code_update dec_int)),
      (''message'', on_field rb_Base rb_Base_update (on_field cx_Msg cx_Msg_update dec_string)),
      (''data'', on_field rb_Data rb_Data_update
         (dec_ptr \<lparr>rd_PublicOrderID = 0, rd_ClientID = [], rd_UpdatedAt = 0\<rparr> cx_OrderRespData_dec))]"

definition cx_OrderRespBody_zero :: cx_OrderRespBody where
  "cx_OrderRespBody_zero = \<lparr>rb_Base = cx_BaseRespBody_zero, rb_Data = None\<rparr>"

text \<open>
  \<open>OrdersRespBody.UnmarshalJSON\<close>. The auxiliary struct holds \<open>data\<close> as a raw message (empty if the
  document has none) beside the fields of the body. It is decoded through a pointer, which null sets
  to nil; the next line reads through it.
\<close>

record cx_OrdersAux =
  au_Data :: "json option"
  au_Body :: cx_OrdersRespBody

definition dec_raw :: "json option decoder" where
  "dec_raw j x = Some (Some j)"

definition cx_OrdersAux_dec :: "cx_OrdersAux decoder" where
  "cx_OrdersAux_dec = dec_struct
     [(''data'', on_field au_Data au_Data_update dec_raw),
      (''code'', on_field au_Body au_Body_update
         (on_field rs_Base rs_Base_update (on_field cx_Code cx_Code_update dec_int))),
      (''message'', on_field au_Body au_Body_update
         (on_field rs_Base rs_Base_update (on_field cx_Msg cx_Msg_update dec_string)))]"

definition cx_OrdersRespBody_UnmarshalJSON ::
  "json \<Rightarrow> cx_OrdersRespBody \<Rightarrow> (error + cx_OrdersRespBody) result" where
  "cx_OrdersRespBody_UnmarshalJSON j b =
     (if j = JNull then Inl NilDeref
      else case cx_OrdersAux_dec j \<lparr>au_Data = None, au_Body = b\<rparr> of
             None \<Rightarrow> Inr (Inl (Message ''json: cannot unmarshal''))
           | Some aux \<Rightarrow>
               Inr (let b' = au_Body aux in
                    case au_Data aux of
                      Some (JArr js) \<Rightarrow>
                        (case dec_list cx_OrderRespBody_zero cx_OrderRespBody_dec (JArr js) (rs_Data b') of
                           None \<Rightarrow> Inl (Message ''json: cannot unmarshal'')
                         | Some datas \<Rightarrow> Inr (b'\<lparr>rs_Data := datas\<rparr>))
                    | _ \<Rightarrow> Inr (b'\<lparr>rs_Data := []\<rparr>)))"

definition cx_OrdersRespBody_zero :: cx_OrdersRespBody where
  "cx_OrdersRespBody_zero = \<lparr>rs_Base = cx_BaseRespBody_zero, rs_Data = []\<rparr>"

definition bb_BaseRespBody_dec :: "bb_BaseRespBody decoder" where
  "bb_BaseRespBody_dec = dec_struct
     [(''retCode'', on_field bb_RetCode bb_RetCode_update dec_int),
      (''retMsg'', on_field bb_RetMsg bb_RetMsg_update dec_string),
      (''time'', on_field bb_TimestampMs bb_TimestampMs_update dec_int)]"

text \<open>The readers: the raw body and the decoded one, or an error. All close the body of the response.\<close>

type_synonym 'b read_result = "string \<times> (error + 'b)"

definition cx_readOrdersRespBody ::
  "(string \<Rightarrow> raw) \<Rightarrow> string + string \<Rightarrow> cx_OrdersRespBody read_result result" where
  "cx_readOrdersRespBody parse body =
     (case body of
        Inl e \<Rightarrow> Inr ([], Inl (Message e))
      | Inr text \<Rightarrow>
          (case parse text of
             None \<Rightarrow> Inr (text, Inl (Message ''invalid JSON document''))
           | Some j \<Rightarrow> bind_r (cx_OrdersRespBody_UnmarshalJSON j cx_OrdersRespBody_zero) (\<lambda>r. Inr (text, r))))"

definition cx_readOrderRespBody ::
  "(string \<Rightarrow> raw) \<Rightarrow> string + string \<Rightarrow> cx_OrderRespBody read_result result" where
  "cx_readOrderRespBody parse body =
     (case body of
        Inl e \<Rightarrow> Inr ([], Inl (Message e))
      | Inr text \<Rightarrow> Inr (text, Unmarshal cx_OrderRespBody_dec cx_OrderRespBody_zero (parse text)))"

definition bb_readRespBody ::
  "(string \<Rightarrow> raw) \<Rightarrow> string + string \<Rightarrow> bb_BaseRespBody option read_result result" where
  "bb_readRespBody parse body =
     (case body of
        Inl e \<Rightarrow> Inr ([], Inl (Message e))
      | Inr text \<Rightarrow>
          Inr (text, Unmarshal (dec_ptr \<lparr>bb_RetCode = 0, bb_RetMsg = [], bb_TimestampMs = 0\<rparr> bb_BaseRespBody_dec)
                       None (parse text)))"

section \<open>The goroutines of the agents\<close>

fun error_text :: "error \<Rightarrow> string" where
  "error_text (Message m) = m"
| "error_text (Wrapped e m) = error_text e @ '': '' @ m"
| "error_text (Sentinel s) = []"

text \<open>What a goroutine makes of the result of \<open>Do\<close>; \<open>read\<close> is the reader it uses.\<close>

definition http_outcome :: "(string + string \<Rightarrow> 'b read_result result) \<Rightarrow> do_result \<Rightarrow> 'b http_result result" where
  "http_outcome read res =
     (case res of
        Inl err \<Rightarrow> Inr (DoFailed (he_Error err))
      | Inr resp \<Rightarrow>
          if rp_StatusCode resp \<noteq> 200 then Inr (HttpStatus (rp_StatusCode resp))
          else bind_r (read (rp_Body resp)) (\<lambda>(raw, r).
                 Inr (case r of Inl e \<Rightarrow> BadBody raw (error_text e) | Inr b \<Rightarrow> Body b)))"

text \<open>The client after a goroutine: only the readers close the body of a response.\<close>

definition client_after :: "do_result \<Rightarrow> HttpClient \<Rightarrow> HttpClient" where
  "client_after res c =
     (case HttpClient_Do res c of
        (Inl err, c1) \<Rightarrow> c1
      | (Inr resp, c1) \<Rightarrow> if rp_StatusCode resp \<noteq> 200 then c1 else c1\<lparr>hc_open := hc_open c1 - 1\<rparr>)"

definition cx_SendOrder_run where
  "cx_SendOrder_run parse orderID confirmedAt res =
     bind_r (http_outcome (cx_readOrderRespBody parse) res) (cx_SendOrder_answer orderID confirmedAt)"

definition cx_SendOrders_run where
  "cx_SendOrders_run parse orderIDs confirmedAt res =
     bind_r (http_outcome (cx_readOrdersRespBody parse) res) (cx_SendOrders_answer orderIDs confirmedAt)"

definition cx_CancelOrder_run where
  "cx_CancelOrder_run parse orderID res =
     bind_r (http_outcome (cx_readOrderRespBody parse) res) (\<lambda>o1. Inr (cx_CancelOrder_answer orderID o1))"

definition cx_CancelOrders_run where
  "cx_CancelOrders_run parse orderIDs res =
     bind_r (http_outcome (cx_readOrdersRespBody parse) res) (cx_CancelOrders_answer orderIDs)"

definition cx_AmendOrder_run where
  "cx_AmendOrder_run parse orderID detail confirmedAt res =
     bind_r (http_outcome (cx_readOrderRespBody parse) res) (cx_AmendOrder_answer orderID detail confirmedAt)"

definition bb_SendOrder_run where
  "bb_SendOrder_run parse orderID sendAt receivedAt res lm =
     bind_r (http_outcome (bb_readRespBody parse) res) (\<lambda>o1. bb_SendOrder_answer orderID sendAt receivedAt o1 lm)"

definition bb_CancelOrder_run where
  "bb_CancelOrder_run parse orderID sendAt receivedAt res lm =
     bind_r (http_outcome (bb_readRespBody parse) res) (\<lambda>o1. bb_CancelOrder_answer orderID sendAt receivedAt o1 lm)"

definition bb_AmendOrder_run where
  "bb_AmendOrder_run parse orderID detail sendAt receivedAt res lm =
     bind_r (http_outcome (bb_readRespBody parse) res) (\<lambda>o1. bb_AmendOrder_answer orderID detail sendAt receivedAt o1 lm)"

end
