(* ===== verification/Agents_Correct.thy ===== *)
theory Agents_Correct
  imports Agents
begin

text \<open>
  What the translators and agents guarantee to the dealer and to the exchange: the answers handed
  to the dealer's handlers are those its correctness relies on, when the agents panic, what becomes
  of order types and public identifiers, and how a failed HTTP request affects the dealer.
\<close>

section \<open>Rows of the book\<close>

lemma translateRecords_rows:
  "translateRecords dec seqID rs = Inr (Inr ls) \<longleftrightarrow>
   list_all2 (\<lambda>r l. \<exists>p v rest. r = p # v # rest \<and> dec p = Inr (pl_Price l) \<and> dec v = Inr (pl_Volume l) \<and> pl_SeqID l = seqID) rs ls"
proof (induction rs arbitrary: ls)
  case (Cons r rs)
  show ?case
  proof (cases ls)
    case Nil
    then show ?thesis by (auto simp: bind_r_eq_Inr bind_e_eq_Inr split: list.splits sum.splits)
  next
    case ls: (Cons l ls')
    have "translateRecords dec seqID (r # rs) = Inr (Inr (l # ls')) \<longleftrightarrow>
        (\<exists>p v rest. r = p # v # rest \<and> dec p = Inr (pl_Price l) \<and> dec v = Inr (pl_Volume l) \<and> pl_SeqID l = seqID) \<and>
        translateRecords dec seqID rs = Inr (Inr ls')"
      by (cases l) (auto simp: bind_r_eq_Inr bind_e_eq_Inr split: list.splits sum.splits)
    with Cons.IH [of ls'] ls show ?thesis by simp
  qed
qed auto

section \<open>Batches\<close>

lemma dom_nil_map: "fold (\<lambda>i m. m(i \<mapsto> None)) ids m0 = (\<lambda>k. if k \<in> set ids then Some None else m0 k)"
  by (induction ids arbitrary: m0) (auto simp: fun_eq_iff)

lemma foldM_fill:
  assumes "foldM f xs m = Inr m'"
    and "\<And>x m m'. f x m = Inr m' \<Longrightarrow> \<exists>r. m' = m(snd x \<mapsto> Some r) \<and> K r = snd x"
  shows "(\<forall>k. k \<notin> snd ` set xs \<longrightarrow> m' k = m k) \<and> (\<forall>k \<in> snd ` set xs. \<exists>r. m' k = Some (Some r) \<and> K r = k)"
  using assms(1)
proof (induction xs arbitrary: m)
  case (Cons x xs)
  then obtain m1 where x: "f x m = Inr m1" and xs: "foldM f xs m1 = Inr m'" by (auto simp: bind_r_eq_Inr)
  from assms(2) [OF x] obtain r where r: "m1 = m(snd x \<mapsto> Some r)" "K r = snd x" by blast
  note IH = Cons.IH [OF xs]
  have "\<exists>r. m' (snd x) = Some (Some r) \<and> K r = snd x"
    using IH r by (cases "snd x \<in> snd ` set xs") auto
  with IH r show ?case by auto
qed simp

lemma snd_enumerate: "snd ` set (enumerate n xs) = set xs"
  by (metis map_snd_enumerate set_map)

lemma foldM_Inl_iff:
  assumes "\<And>x s. (\<exists>p. f x s = Inl p) \<longleftrightarrow> bad x"
  shows "(\<exists>p. foldM f xs s = Inl p) \<longleftrightarrow> (\<exists>x \<in> set xs. bad x)"
proof (induction xs arbitrary: s)
  case (Cons x xs)
  show ?case
  proof (cases "f x s")
    case (Inl p)
    then show ?thesis using assms [of x s] by auto
  next
    case (Inr s')
    then show ?thesis using assms [of x s] Cons.IH [of s'] by auto
  qed
qed simp

lemma create_turn_fills: "cx_create_turn t datas x m = Inr m' \<Longrightarrow> \<exists>r. m' = m(snd x \<mapsto> Some r) \<and> cr_OrderID r = snd x"
  by (auto simp: cx_create_turn_def create_resp_def cx_accepted_def Let_def split: prod.splits if_splits option.splits)

lemma cancel_turn_fills: "cx_cancel_turn datas x m = Inr m' \<Longrightarrow> \<exists>r. m' = m(snd x \<mapsto> Some r) \<and> xr_OrderID r = snd x"
  by (auto simp: cx_cancel_turn_def Let_def split: prod.splits if_splits)

lemma SendOrders_answer_cases:
  assumes "cx_SendOrders_answer ids t res = Inr (resps, err)"
  shows "dom resps = set ids \<and> (err = None \<longrightarrow> (\<forall>i \<in> set ids. \<exists>r. resps i = Some (Some r) \<and> cr_OrderID r = i))"
proof (cases err)
  case (Some e)
  with assms show ?thesis
    by (auto simp: cx_SendOrders_answer_def dom_nil_map Let_def bind_r_eq_Inr dom_def split: http_result.splits if_splits)
next
  case None
  then obtain b :: cx_OrdersRespBody where "foldM (cx_create_turn t (rs_Data b)) (enumerate 0 ids) (fold (\<lambda>i m. m(i \<mapsto> None)) ids Map.empty) = Inr resps"
    using assms by (auto simp: cx_SendOrders_answer_def http_error_def Let_def bind_r_eq_Inr split: http_result.splits if_splits)
  from foldM_fill [OF this create_turn_fills [of t "rs_Data b"]] show ?thesis
    by (auto simp: snd_enumerate dom_nil_map dom_def split: if_splits)
qed

lemma CancelOrders_answer_cases:
  assumes "cx_CancelOrders_answer ids res = Inr (resps, err)"
  shows "dom resps = set ids \<and> (err = None \<longrightarrow> (\<forall>i \<in> set ids. \<exists>r. resps i = Some (Some r) \<and> xr_OrderID r = i))"
proof (cases err)
  case (Some e)
  with assms show ?thesis
    by (auto simp: cx_CancelOrders_answer_def dom_nil_map Let_def bind_r_eq_Inr dom_def split: http_result.splits if_splits)
next
  case None
  then obtain b :: cx_OrdersRespBody where "foldM (cx_cancel_turn (rs_Data b)) (enumerate 0 ids) (fold (\<lambda>i m. m(i \<mapsto> None)) ids Map.empty) = Inr resps"
    using assms by (auto simp: cx_CancelOrders_answer_def http_error_def Let_def bind_r_eq_Inr split: http_result.splits if_splits)
  from foldM_fill [OF this cancel_turn_fills [of "rs_Data b"]] show ?thesis
    by (auto simp: snd_enumerate dom_nil_map dom_def split: if_splits)
qed

lemma amend_answers:
  "cx_AmendOrder_answer i detail t cres = Inr (resp, err) \<Longrightarrow> ar_OrderID resp = i \<and> (err = None \<and> ar_Err resp = None \<longrightarrow> ar_Detail resp = Some detail)"
  "bb_AmendOrder_answer i detail t1 t2 bres lm = Inr ((resp, err), lm') \<Longrightarrow> ar_OrderID resp = i \<and> (err = None \<and> ar_Err resp = None \<longrightarrow> ar_Detail resp = Some detail)"
  by (auto simp: cx_AmendOrder_answer_def bb_AmendOrder_answer_def amend_resp_def http_error_def bb_http_error_def Let_def
      split: http_result.splits if_splits option.splits)

section \<open>Properties\<close>

text \<open>
  The agents keep the dealer's side of the contract: whatever the HTTP request yields, when the
  goroutine of a CoinEx batch creation, batch cancellation or amendment, or of a Bybit amendment,
  reaches the dealer's handler, the event is admissible for the dealer in every state, so that the
  dealer's theorems apply to it; the batch response maps have exactly the requested orders.
\<close>

theorem agents_answer_admissibly:
  fixes d :: "'d :: linordered_idom DealerImpl" and detail :: "'d AmendDetail"
  shows "(cx_SendOrders_answer ids t sres = Inr (cresps, err) \<and> enumerates ks cresps \<longrightarrow>
       set ks = set ids \<and> admissible (EvSendsResp ks cresps err) d) \<and>
    (cx_CancelOrders_answer ids xres = Inr (xresps, err) \<and> enumerates ks xresps \<longrightarrow>
       set ks = set ids \<and> admissible (EvCancelsResp ks xresps err) d) \<and>
    (cx_AmendOrder_answer i detail t ares = Inr (resp, err) \<longrightarrow> ar_OrderID resp = i \<and> admissible (EvAmendResp resp err) d) \<and>
    (bb_AmendOrder_answer i detail t t' bres lm = Inr ((resp, err), lm') \<longrightarrow> ar_OrderID resp = i \<and> admissible (EvAmendResp resp err) d)"
proof (intro conjI impI)
  assume "cx_SendOrders_answer ids t sres = Inr (cresps, err) \<and> enumerates ks cresps"
  with SendOrders_answer_cases [of ids t sres cresps err]
  show "set ks = set ids" "admissible (EvSendsResp ks cresps err) d" by (auto simp: enumerates_def)
next
  assume "cx_CancelOrders_answer ids xres = Inr (xresps, err) \<and> enumerates ks xresps"
  with CancelOrders_answer_cases [of ids xres xresps err]
  show "set ks = set ids" "admissible (EvCancelsResp ks xresps err) d" by (auto simp: enumerates_def)
next
  assume "cx_AmendOrder_answer i detail t ares = Inr (resp, err)"
  from amend_answers(1) [OF this] show "ar_OrderID resp = i" "admissible (EvAmendResp resp err) d" by auto
next
  assume "bb_AmendOrder_answer i detail t t' bres lm = Inr ((resp, err), lm')"
  from amend_answers(2) [OF this] show "ar_OrderID resp = i" "admissible (EvAmendResp resp err) d" by auto
qed

theorem agents_answer_admissibly_witness:
  "(\<exists>resps. cx_SendOrders_answer [''a'', ''b''] 7 (HttpStatus 503) =
      Inr (resps, Some (mk_Error (Sentinel HttpRequestError) ''failed to send create orders (http status 503)'')) \<and>
    admissible (EvSendsResp [''a'', ''b''] resps (Some (mk_Error (Sentinel HttpRequestError) ''failed to send create orders (http status 503)'')))
      (freshDealer 0 (\<lambda>_. zeroOrder) 0 :: int DealerImpl)) \<and>
   (\<exists>resp :: int AmendOrderResp. bb_AmendOrder_answer ''a'' \<lparr>ad_Price = 5, ad_Qty = 1\<rparr> 1 2 (Body (Some \<lparr>bb_RetCode = 0, bb_RetMsg = [], bb_TimestampMs = 1\<rparr>)) None =
      Inr ((resp, None), None) \<and> admissible (EvAmendResp resp None) (freshDealer 0 (\<lambda>_. zeroOrder) 0))"
proof -
  let ?d = "freshDealer 0 (\<lambda>_. zeroOrder) 0 :: int DealerImpl"
  let ?e = "mk_Error (Sentinel HttpRequestError) ''failed to send create orders (http status 503)''"
  let ?m = "[''a'' \<mapsto> None, ''b'' \<mapsto> None] :: CreateOrdersRespMap"
  let ?r = "(amend_resp ''a'')\<lparr>ar_Detail := Some \<lparr>ad_Price = 5, ad_Qty = 1\<rparr>, ar_ArrivedAt := Some 1000000, ar_ConfirmedAt := Some 2\<rparr> :: int AmendOrderResp"
  have f: "FormatInt 503 = ''503''" by code_simp
  have s: "cx_SendOrders_answer [''a'', ''b''] 7 (HttpStatus 503) = Inr (?m, Some ?e)"
    using f by (simp add: cx_SendOrders_answer_def http_error_def Let_def)
  have b: "bb_AmendOrder_answer ''a'' \<lparr>ad_Price = 5, ad_Qty = 1\<rparr> 1 2 (Body (Some \<lparr>bb_RetCode = 0, bb_RetMsg = [], bb_TimestampMs = 1\<rparr>)) None = Inr ((?r, None), None)"
    by (simp add: bb_AmendOrder_answer_def bb_IsRetCodeOK_def bb_record_def UnixMilli_def Let_def)
  have "enumerates [''a'', ''b''] ?m" by (auto simp: enumerates_def)
  then have "admissible (EvSendsResp [''a'', ''b''] ?m (Some ?e)) ?d"
    using agents_answer_admissibly [where ids = "[''a'', ''b'']" and t = 7 and sres = "HttpStatus 503" and d = ?d] s by blast
  moreover have "admissible (EvAmendResp ?r None) ?d"
    using agents_answer_admissibly [where i = "''a''" and detail = "\<lparr>ad_Price = 5, ad_Qty = 1\<rparr>" and t = 1 and t' = 2 and lm = None and d = ?d] b by blast
  ultimately show ?thesis using s b by blast
qed

text \<open>
  A CoinEx batch creation panics exactly when the exchange reports success for the batch and,
  for one of the orders, there is no entry at its position or a successful entry without data.
\<close>

theorem coinex_batch_panics_iff_incomplete:
  "(\<exists>p. cx_SendOrders_answer ids t res = Inl p) \<longleftrightarrow>
   (\<exists>b. res = Body b \<and> cx_IsRetCodeOK (rs_Base b) \<and>
      (\<exists>i < length ids. length (rs_Data b) \<le> i \<or>
         cx_IsRetCodeOK (rb_Base (rs_Data b ! i)) \<and> rb_Data (rs_Data b ! i) = None))"
proof (cases res)
  case (Body b)
  let ?bad = "\<lambda>(i, oid). length (rs_Data b) \<le> i \<or> cx_IsRetCodeOK (rb_Base (rs_Data b ! i)) \<and> rb_Data (rs_Data b ! i) = None"
  have "(\<exists>p. cx_create_turn t (rs_Data b) x m = Inl p) \<longleftrightarrow> ?bad x" for x m
    by (cases x) (auto simp: cx_create_turn_def Let_def split: option.split)
  from foldM_Inl_iff [where f = "cx_create_turn t (rs_Data b)", OF this]
  have "(\<exists>p. foldM (cx_create_turn t (rs_Data b)) (enumerate 0 ids) m = Inl p) \<longleftrightarrow> (\<exists>x \<in> set (enumerate 0 ids). ?bad x)" for m .
  moreover have "(\<exists>x \<in> set (enumerate 0 ids). ?bad x) \<longleftrightarrow> (\<exists>i < length ids. ?bad (i, ids ! i))"
    by (auto simp: in_set_enumerate_eq)
  ultimately show ?thesis using Body by (auto simp: cx_SendOrders_answer_def Let_def bind_r_eq_Inl)
qed (auto simp: cx_SendOrders_answer_def Let_def)

theorem coinex_batch_panics_iff_incomplete_witness:
  "\<exists>p. cx_SendOrders_answer [''a'', ''b''] 7 (Body \<lparr>rs_Base = \<lparr>cx_Code = 0, cx_Msg = ''OK''\<rparr>,
     rs_Data = [\<lparr>rb_Base = \<lparr>cx_Code = 3109, cx_Msg = ''no balance''\<rparr>, rb_Data = None\<rparr>]\<rparr>) = Inl p"
  using coinex_batch_panics_iff_incomplete [of "[''a'', ''b'']" 7 "Body \<lparr>rs_Base = \<lparr>cx_Code = 0, cx_Msg = ''OK''\<rparr>,
     rs_Data = [\<lparr>rb_Base = \<lparr>cx_Code = 3109, cx_Msg = ''no balance''\<rparr>, rb_Data = None\<rparr>]\<rparr>"]
  by (auto simp: cx_IsRetCodeOK_def)

text \<open>
  The public identifier a CoinEx creation response carries as text is read back when the order
  is cancelled: the request sent has the exchange's own number, if the quota allows it.
\<close>

theorem coinex_cancels_by_public_id:
  assumes "cx_SendOrder_answer oid t (Body b) = Inr (resp, None)" and "cr_Err resp = None"
    and "rb_Data b = Some data" and "- (2 ^ 63) \<le> rd_PublicOrderID data" and "rd_PublicOrderID data < 2 ^ 63"
    and "GetPublicID o1 = cr_PublicID resp" and "1 \<le> rl_quotas (ax_rateLimiter a) GroupCancel"
  shows "\<exists>l. cx_CancelOrder True now sy o1 a =
    (None, a\<lparr>ax_rateLimiter := l, ax_sent := ax_sent a @ [CxCancel (sym_name sy) (rd_PublicOrderID data)]\<rparr>)"
proof -
  have "cr_PublicID resp = FormatInt (rd_PublicOrderID data)"
    using assms(1-3) by (auto simp: cx_SendOrder_answer_def cx_accepted_def create_resp_def Let_def split: if_splits)
  then have "convert_public_id (GetPublicID o1) = Inr (rd_PublicOrderID data)"
    using assms(4-6) ParseInt_FormatInt by (simp add: convert_public_id_def Atoi_def)
  with assms(7) show ?thesis by (auto simp: cx_CancelOrder_def cx_admit_def cx_consume_def cx_send_def)
qed

theorem coinex_cancels_by_public_id_witness:
  "ax_sent (snd (cx_CancelOrder True 9 \<lparr>sym_id = ''s'', sym_exchange = ''coinex'', sym_product = ''futures'', sym_name = ''BTCUSDT'',
       sym_tickSize = 1, sym_minOrderQty = 1, sym_baseAsset = AssetBTC\<rparr> ((zeroOrder :: int Order)\<lparr>o_publicID := ''123''\<rparr>) cx_NewPrivateAPIAgent)) =
     [CxCancel ''BTCUSDT'' 123]"
proof -
  let ?b = "\<lparr>rb_Base = \<lparr>cx_Code = 0, cx_Msg = ''OK''\<rparr>, rb_Data = Some \<lparr>rd_PublicOrderID = 123, rd_ClientID = ''a'', rd_UpdatedAt = 5\<rparr>\<rparr>"
  let ?sy = "\<lparr>sym_id = ''s'', sym_exchange = ''coinex'', sym_product = ''futures'', sym_name = ''BTCUSDT'',
       sym_tickSize = 1, sym_minOrderQty = 1, sym_baseAsset = AssetBTC\<rparr> :: int Symbol"
  let ?o = "(zeroOrder :: int Order)\<lparr>o_publicID := ''123''\<rparr>"
  have "FormatInt 123 = ''123''" by code_simp
  then have r: "cx_SendOrder_answer ''a'' 7 (Body ?b) =
      Inr (\<lparr>cr_OrderID = ''a'', cr_PublicID = ''123'', cr_ArrivedAt = Some 5000000, cr_ConfirmedAt = Some 7, cr_Err = None\<rparr>, None)"
    by (simp add: cx_SendOrder_answer_def cx_IsRetCodeOK_def cx_accepted_def create_resp_def UnixMilli_def)
  have "\<exists>l. cx_CancelOrder True 9 ?sy ?o cx_NewPrivateAPIAgent =
    (None, cx_NewPrivateAPIAgent\<lparr>ax_rateLimiter := l, ax_sent := ax_sent cx_NewPrivateAPIAgent @ [CxCancel (sym_name ?sy) 123]\<rparr>)"
    using coinex_cancels_by_public_id [OF r, of "\<lparr>rd_PublicOrderID = 123, rd_ClientID = ''a'', rd_UpdatedAt = 5\<rparr>" ?o cx_NewPrivateAPIAgent 9 ?sy]
    by (simp add: GetPublicID_def cx_NewPrivateAPIAgent_def cx_newRateLimiter_def cx_limit_def)
  then show ?thesis by (auto simp: cx_NewPrivateAPIAgent_def)
qed

text \<open>
  Order types on their way to the exchange: CoinEx requests of orders that differ in their type
  differ, while Bybit requests of priced orders are the same for every type, so that fill-or-kill,
  immediate-or-cancel and maker-only orders are sent as plain limit orders.
\<close>

theorem order_type_lost_on_bybit:
  "(cx_TranslateToDto str sy (odr\<lparr>o_orderType := ty\<rparr>) = cx_TranslateToDto str sy (odr\<lparr>o_orderType := ty'\<rparr>) \<longrightarrow> ty = ty') \<and>
   (0 < GetPrice odr \<longrightarrow> bb_TranslateToDto str sy (odr\<lparr>o_orderType := ty\<rparr>) = bb_TranslateToDto str sy odr \<and>
      bo_OrderType (bb_TranslateToDto str sy odr) = ''Limit'')"
proof -
  have "cx_translateOrderTypeToDto ty = cx_translateOrderTypeToDto ty' \<Longrightarrow> ty = ty'"
    by (cases ty; cases ty') (simp_all add: cx_translateOrderTypeToDto_def)
  then show ?thesis
    by (auto simp: cx_TranslateToDto_def bb_TranslateToDto_def go_simps Let_def)
qed

theorem order_type_lost_on_bybit_witness:
  "bb_TranslateToDto (\<lambda>_. ''100'') demo_symbol ((zeroOrder :: int Order)\<lparr>o_price := 100, o_orderType := OrderTypeLimitFOK\<rparr>) =
   bb_TranslateToDto (\<lambda>_. ''100'') demo_symbol (zeroOrder\<lparr>o_price := 100\<rparr>)"
  using order_type_lost_on_bybit [where str = "\<lambda>_. ''100''" and sy = demo_symbol and odr = "zeroOrder\<lparr>o_price := 100\<rparr>"
      and ty = OrderTypeLimitFOK and ty' = OrderTypeLimit]
  by (simp add: GetPrice_def)

text \<open>
  A failed HTTP request for a new order leaves a dealer on CoinEx accepting orders, but stops a
  dealer on Bybit, whose agent reports it as an error without a class.
\<close>

theorem failed_request_stops_only_bybit:
  assumes "getSendingOrder (d_heap d) (d_LivingOrders d) oid \<noteq> None"
  shows "\<exists>cresp cerr bresp berr.
    cx_SendOrder_answer oid t (DoFailed msg) = Inr (cresp, cerr) \<and>
    Flag_Get (d_acceptOrder (handleSendOrderResp cresp cerr d)) = Flag_Get (d_acceptOrder d) \<and>
    bb_SendOrder_answer oid t1 t2 (DoFailed msg) lm = Inr ((bresp, berr), lm) \<and>
    \<not> Flag_Get (d_acceptOrder (handleSendOrderResp bresp berr d))"
proof -
  obtain r where r: "getSendingOrder (d_heap d) (d_LivingOrders d) oid = Some r" using assms(1) by auto
  have "Flag_Get (d_acceptOrder (rejectCreate r d)) = Flag_Get (d_acceptOrder d)"
    using stopped_handlers(6) [of r d] by (simp add: stopped_def)
  with r show ?thesis
    by (simp add: cx_SendOrder_answer_def bb_SendOrder_answer_def create_resp_def http_error_def bb_http_error_def
        handleSendOrderResp_def noticeError_def Let_def)
qed

theorem failed_request_stops_only_bybit_witness:
  "\<exists>bresp berr. bb_SendOrder_answer ''a'' 1 2 (DoFailed ''timeout'') None = Inr ((bresp, berr), None) \<and>
     \<not> Flag_Get (d_acceptOrder (handleSendOrderResp bresp berr (k_dealer (after 2))))"
proof -
  have "getSendingOrder (d_heap (k_dealer (after 2))) (d_LivingOrders (k_dealer (after 2))) ''a'' \<noteq> None" by code_simp
  from failed_request_stops_only_bybit [OF this, of 2 "''timeout''" 1 2 None] show ?thesis by blast
qed

end
