(* ===== verification/Http_Correct.thy ===== *)
theory Http_Correct
  imports Http Agents_Correct Dealer_Correct
begin

text \<open>
  What the HTTP side of the agents guarantees: which transport is in use after any requests, that every
  request is signed over what is sent, what a refused batch does to the orders of a dealer, and which
  bodies crash the program.
\<close>

section \<open>The client over its requests\<close>

definition is_reset :: "do_result \<Rightarrow> bool" where
  "is_reset res = (case res of Inl err \<Rightarrow> isConnectionReset err | Inr _ \<Rightarrow> False)"

definition is_refused :: "do_result \<Rightarrow> bool" where
  "is_refused res = (case res of Inl _ \<Rightarrow> False | Inr resp \<Rightarrow> rp_StatusCode resp \<noteq> 200)"

lemma client_after_reset:
  "client_after res c = (if is_reset res then recreateTransport c
     else if is_refused res then c\<lparr>hc_open := Suc (hc_open c)\<rparr> else c)"
  by (simp add: client_after_def HttpClient_Do_def is_reset_def is_refused_def split: sum.split)

text \<open>
  C15. After any requests, the transport in use is the newest and every older one had its idle
  connections closed, once and in order; there is one new transport for every connection reset and
  none otherwise. The bodies of responses with another status than 200 are never closed.
\<close>

theorem client_follows_resets:
  "let c = fold client_after rs NewHttpClient; n = length (filter is_reset rs) in
     hc_client c = n \<and> hc_transport c = n \<and> hc_created c = Suc n \<and> hc_idleClosed c = [0..<n] \<and>
     hc_open c = length (filter is_refused rs)"
proof (induction rs rule: rev_induct)
  case (snoc r rs)
  then show ?case
    by (auto simp: Let_def client_after_reset recreateTransport_def is_reset_def is_refused_def split: sum.splits)
qed (simp add: NewHttpClient_def Let_def)

text \<open>The goroutine that keeps connections warm pings 20 times and once per tick, until it is stopped.\<close>

lemma warm_pings: "hc_pings (fold (\<lambda>i. doPingRequest (warm i)) is c) = hc_pings c + length is"
  by (induction "is" arbitrary: c) (simp_all add: doPingRequest_def)

theorem pings_until_stopped:
  "let (c, stopped) = HttpClient_Start warm (map Tick ts @ CtxDone # es) NewHttpClient in
     stopped \<and> hc_pings c = 20 + length ts"
proof -
  have "snd (client_loop (map Tick ts @ CtxDone # es) c) \<and>
      hc_pings (fst (client_loop (map Tick ts @ CtxDone # es) c)) = hc_pings c + length ts" for c
    by (induction ts arbitrary: c) (simp_all add: doPingRequest_def)
  then show ?thesis
    by (simp add: HttpClient_Start_def case_prod_beta warm_pings NewHttpClient_def)
qed

section \<open>Signatures\<close>

text \<open>
  Every request an agent sends goes to its endpoint with its encoding as the body, names the key, and is
  signed with the secret over exactly what the exchange receives: on CoinEx the method, the path, the
  body and the time stamp of the header, on Bybit the time stamp of the header, the key and the body.
\<close>

theorem requests_are_signed:
  "(let q = cx_wire cxm sign (key, secret) nowMs r in
     hq_Path q = cx_endpoint r \<and> hq_Body q = cxm r \<and> hq_Header q ''X-COINEX-KEY'' = Some key \<and>
     (\<exists>ts. hq_Header q ''X-COINEX-TIMESTAMP'' = Some ts \<and> ts = FormatInt nowMs \<and>
       hq_Header q ''X-COINEX-SIGN'' = Some (sign secret (hq_Method q @ hq_Path q @ hq_Body q @ ts)))) \<and>
   (let q = bb_wire bbm sign (key, secret) nowMs r' in
     hq_Path q = bb_endpoint r' \<and> hq_Body q = bbm r' \<and> hq_Header q ''X-BAPI-API-KEY'' = Some key \<and>
     (\<exists>ts. hq_Header q ''X-BAPI-TIMESTAMP'' = Some ts \<and> ts = FormatInt nowMs \<and>
       hq_Header q ''X-BAPI-SIGN'' = Some (sign secret (ts @ key @ hq_Body q))))"
  by (simp add: cx_wire_def bb_wire_def cx_signHttpPost_def bb_signHttpPost_def cx_signHttp_def bb_signHttp_def
      http_NewRequest_def Header_Set_def Let_def)

section \<open>Bodies that are not what they should be\<close>

lemma outcome_ok:
  "http_outcome read (Inr \<lparr>rp_StatusCode = 200, rp_Body = Inr text\<rparr>) =
     bind_r (read (Inr text)) (\<lambda>(raw, r). Inr (case r of Inl e \<Rightarrow> BadBody raw (error_text e) | Inr b \<Rightarrow> Body b))"
  by (simp add: http_outcome_def)

text \<open>
  C14. A response with the body null crashes every operation of both agents but one: a nil pointer is
  dereferenced. CoinEx's single cancellation takes it for a success.
\<close>

theorem null_body_crashes_agents:
  assumes "parse text = Some JNull"
  shows "let ok = Inr \<lparr>rp_StatusCode = 200, rp_Body = Inr text\<rparr> in
    cx_SendOrder_run parse i t ok = Inl NilDeref \<and> cx_SendOrders_run parse is t ok = Inl NilDeref \<and>
    cx_CancelOrders_run parse is ok = Inl NilDeref \<and> cx_AmendOrder_run parse i ad t ok = Inl NilDeref \<and>
    cx_CancelOrder_run parse i ok = Inr (\<lparr>xr_OrderID = i, xr_Err = None\<rparr>, None) \<and>
    bb_SendOrder_run parse i t u ok lm = Inl NilDeref \<and> bb_CancelOrder_run parse i t u ok lm = Inl NilDeref \<and>
    bb_AmendOrder_run parse i ad t u ok lm = Inl NilDeref"
  using assms
  by (simp add: Let_def outcome_ok cx_SendOrder_run_def cx_SendOrders_run_def cx_CancelOrders_run_def
      cx_AmendOrder_run_def cx_CancelOrder_run_def bb_SendOrder_run_def bb_CancelOrder_run_def
      bb_AmendOrder_run_def cx_readOrderRespBody_def cx_readOrdersRespBody_def bb_readRespBody_def Unmarshal_def
      cx_OrdersRespBody_UnmarshalJSON_def cx_OrderRespBody_dec_def dec_struct_def dec_ptr_def
      cx_OrderRespBody_zero_def cx_BaseRespBody_zero_def cx_IsRetCodeOK_def cx_SendOrder_answer_def
      cx_AmendOrder_answer_def cx_CancelOrder_answer_def bb_SendOrder_answer_def bb_CancelOrder_answer_def
      bb_AmendOrder_answer_def)

theorem null_body_crashes_agents_witness:
  "cx_SendOrders_run (\<lambda>_. Some JNull) [''a''] 7 (Inr \<lparr>rp_StatusCode = 200, rp_Body = Inr ''null''\<rparr>) = Inl NilDeref"
  using null_body_crashes_agents [of "\<lambda>_. Some JNull" "''null''" "''a''" 7 "[''a'']" "\<lparr>ad_Price = 1 :: int, ad_Qty = 1\<rparr>" 8 None]
  by (simp add: Let_def)

section \<open>A batch that is refused\<close>

lemma rejectCreate_status:
  "GetStatus (ord (rejectCreate q d) r) = (if r = q then OrderStatusDone else GetStatus (ord d r))"
  "s_maxLen (d_doneOrders (rejectCreate q d)) = s_maxLen (d_doneOrders d)"
  "s_maxLen (d_doneOrders d) = 0 \<Longrightarrow> s_a (d_doneOrders (rejectCreate q d)) = s_a (d_doneOrders d) @ [q]"
  by (simp_all add: rejectCreate_def dealer_defs go_simps Let_def Slice_Append_def)

lemma rejectCreates_status:
  assumes "s_maxLen (d_doneOrders d) = 0"
  shows "GetStatus (ord (rejectCreates rs d) r) = (if r \<in> set rs then OrderStatusDone else GetStatus (ord d r)) \<and>
    s_a (d_doneOrders (rejectCreates rs d)) = s_a (d_doneOrders d) @ rs"
  using assms
proof (induction rs arbitrary: d)
  case (Cons q rs)
  have "s_maxLen (d_doneOrders (rejectCreate q d)) = 0" using Cons.prems by (simp add: rejectCreate_status)
  from Cons.IH [OF this] Cons.prems show ?case
    by (simp add: rejectCreates_def rejectCreate_status)
qed (simp add: rejectCreates_def)

lemma noticeError_keeps [simp]: "ord (noticeError e d) r = ord d r" "d_doneOrders (noticeError e d) = d_doneOrders d"
  by (simp_all add: noticeError_def ord_def)

text \<open>The documented shape of an error: an object where the answers would be a list.\<close>

lemma decode_refused:
  assumes "ParseInt n = Some c"
  shows "cx_OrdersRespBody_UnmarshalJSON
      (JObj [(''code'', JNum n), (''data'', JObj ms), (''message'', JStr m)]) cx_OrdersRespBody_zero =
    Inr (Inr \<lparr>rs_Base = \<lparr>cx_Code = c, cx_Msg = m\<rparr>, rs_Data = []\<rparr>)"
  using assms
  by (simp add: cx_OrdersRespBody_UnmarshalJSON_def cx_OrdersAux_dec_def dec_struct_def find_field_def
      on_field_def dec_raw_def dec_int_def dec_string_def cx_OrdersRespBody_zero_def cx_BaseRespBody_zero_def)

text \<open>
  C13. When CoinEx refuses a batch of orders, its answer has an object in place of the list of results.
  The decoder accepts that; the goroutine hands the error to the dealer, and every order of the batch
  that is still being sent is done and listed as finished.
\<close>

theorem refused_batch_rejects_orders:
  assumes "reach dinit dstep k" and "d = k_dealer k"
    and "parse text = Some (JObj [(''code'', JNum n), (''data'', JObj ms), (''message'', JStr m)])"
    and "ParseInt n = Some c" and "c \<noteq> 0" and "distinct ks" and "set ks = set orderIDs"
  shows "\<exists>resps e d'. cx_SendOrders_run parse orderIDs t (Inr \<lparr>rp_StatusCode = 200, rp_Body = Inr text\<rparr>) =
      Inr (resps, Some e) \<and> enumerates ks resps \<and>
    handleSendOrdersResp ks resps (Some e) d = Inr d' \<and>
    (\<forall>r. GetID (ord d r) \<in> set orderIDs \<and> GetStatus (ord d r) = OrderStatusSending \<longrightarrow>
       GetStatus (ord d' r) = OrderStatusDone \<and> r \<in> set (s_a (d_doneOrders d')))"
proof -
  let ?resps = "fold (\<lambda>i m. m(i \<mapsto> None)) orderIDs Map.empty :: CreateOrdersRespMap"
  let ?e = "cx_OperationError \<lparr>cx_Code = c, cx_Msg = m\<rparr>"
  let ?rs = "getSendingOrders (d_heap d) (d_LivingOrders d) ks"
  have run: "cx_SendOrders_run parse orderIDs t (Inr \<lparr>rp_StatusCode = 200, rp_Body = Inr text\<rparr>) = Inr (?resps, Some ?e)"
    using assms(3,5) decode_refused [OF assms(4)]
    by (simp add: cx_SendOrders_run_def outcome_ok cx_readOrdersRespBody_def cx_SendOrders_answer_def
        cx_IsRetCodeOK_def)
  have en: "enumerates ks ?resps" using assms(6,7) by (auto simp: enumerates_def dom_nil_map dom_def)
  note inv = dealer.reachable_inv [OF assms(1)]
  have m0: "s_maxLen (d_doneOrders d) = 0" using ainvD(3) [OF inv] assms(2) by (simp add: kview_def)
  have "r \<in> set ?rs" if "GetID (ord d r) \<in> set orderIDs" "GetStatus (ord d r) = OrderStatusSending" for r
  proof -
    have "Map_Get (d_LivingOrders d) (GetID (ord d r)) = Some r"
      using living_iff [OF inv, of "GetID (ord d r)" r] assms(2) that(2)
      by (simp add: kview_def ord_def go_simps active_def)
    then show ?thesis using that assms(7) by (auto simp: getSendingOrders_def with_status_mem ord_def go_simps)
  qed
  with rejectCreates_status [OF m0, of ?rs] run en show ?thesis
    by (auto simp: handleSendOrdersResp_def Let_def)
qed

theorem refused_batch_rejects_orders_witness:
  "\<exists>resps e d'. cx_SendOrders_run
      (\<lambda>_. Some (JObj [(''code'', JNum ''3008''), (''data'', JObj []), (''message'', JStr ''busy'')])) [''a''] 7
      (Inr \<lparr>rp_StatusCode = 200, rp_Body = Inr ''...''\<rparr>) = Inr (resps, Some e) \<and>
    handleSendOrdersResp [''a''] resps (Some e) (k_dealer (after 2)) = Inr d' \<and>
    GetStatus (ord d' 0) = OrderStatusDone"
proof -
  have "GetStatus (ord (k_dealer (after 2)) 0) = OrderStatusSending" "GetID (ord (k_dealer (after 2)) 0) = ''a''"
    "ParseInt ''3008'' = Some 3008" by code_simp+
  then show ?thesis
    using refused_batch_rejects_orders [OF demo_reach [of 2] refl,
        of "\<lambda>_. Some (JObj [(''code'', JNum ''3008''), (''data'', JObj []), (''message'', JStr ''busy'')])"
          "''...''" "''3008''" "[]" "''busy''" 3008 "[''a'']" "[''a'']" 7]
    by fastforce
qed

end
