(* ===== verification/Trading.thy ===== *)
theory Trading
  imports Http_Correct
begin

text \<open>
  The dealer over the agent of its exchange. \<open>Agent\<close> is the interface of \<open>deals/agent.go\<close> as the record of
  its methods over the state of an agent; the private agents of CoinEx and Bybit are two values of it. A
  method answers at once with an error or none; without an error it has started a goroutine that will call
  the handler the dealer gave, which is the field \<open>ag_handler\<close>: what it does with the outcome of the HTTP
  request. \<open>ag_refund\<close> is the goroutine of the agent's rate limiter that gives quota back.

  A desk is a dealer, its agent and the requests under way. A call of the strategy runs the event of the
  dealer with the answer the agent gives to it, a reply runs the handler of a request under way, and quota
  comes back in between.
\<close>

section \<open>The interface\<close>

text \<open>
  The outcome of a request: when it was sent and received, what \<open>Do\<close> gave, and the order in which the
  dealer's handler visits a map of responses.
\<close>

record reply =
  re_sendAt :: time
  re_receivedAt :: time
  re_result :: do_result
  re_ids :: "string list"

record ('d, 'a) Agent =
  ag_SendOrders :: "time \<Rightarrow> 'd Symbol \<Rightarrow> 'd Order list \<Rightarrow> 'a \<Rightarrow> error option \<times> 'a"
  ag_CancelOrders :: "time \<Rightarrow> 'd Symbol \<Rightarrow> 'd Order list \<Rightarrow> 'a \<Rightarrow> error option \<times> 'a"
  ag_AmendOrders :: "time \<Rightarrow> 'd Symbol \<Rightarrow> ('d Order \<times> 'd AmendDetail) list \<Rightarrow> 'a \<Rightarrow> error option \<times> 'a"
  ag_SendOrder :: "time \<Rightarrow> 'd Symbol \<Rightarrow> 'd Order \<Rightarrow> 'a \<Rightarrow> error option \<times> 'a"
  ag_CancelOrder :: "time \<Rightarrow> 'd Symbol \<Rightarrow> 'd Order \<Rightarrow> 'a \<Rightarrow> error option \<times> 'a"
  ag_AmendOrder :: "time \<Rightarrow> 'd Symbol \<Rightarrow> 'd Order \<Rightarrow> 'd AmendDetail \<Rightarrow> 'a \<Rightarrow> error option \<times> 'a"
  ag_handler :: "reply \<Rightarrow> (oref \<Rightarrow> 'd Order) \<Rightarrow> 'd AgentRequest \<Rightarrow> 'a \<Rightarrow> ('d event option \<times> 'a) result"
  ag_refund :: "time \<Rightarrow> nat \<Rightarrow> 'a \<Rightarrow> 'a option"

section \<open>The agents of the exchanges\<close>

text \<open>The goroutine of every method of CoinEx's agent, up to the call of the handler.\<close>

fun cx_goroutine ::
  "(string \<Rightarrow> raw) \<Rightarrow> reply \<Rightarrow> (oref \<Rightarrow> 'd Order) \<Rightarrow> 'd AgentRequest \<Rightarrow> cx_PrivateAPIAgent \<Rightarrow>
     ('d event option \<times> cx_PrivateAPIAgent) result" where
  "cx_goroutine parse re h (ReqSendOrder r) a =
     bind_r (cx_SendOrder_run parse (GetID (h r)) (re_receivedAt re) (re_result re))
       (\<lambda>(resp, err). Inr (Some (EvSendResp resp err), a))"
| "cx_goroutine parse re h (ReqSendOrders rs) a =
     bind_r (cx_SendOrders_run parse (map (\<lambda>r. GetID (h r)) rs) (re_receivedAt re) (re_result re))
       (\<lambda>(resps, err). Inr (Some (EvSendsResp (re_ids re) resps err), a))"
| "cx_goroutine parse re h (ReqAmendOrder r detail) a =
     bind_r (cx_AmendOrder_run parse (GetID (h r)) detail (re_receivedAt re) (re_result re))
       (\<lambda>(resp, err). Inr (Some (EvAmendResp resp err), a))"
| "cx_goroutine parse re h (ReqCancelOrder r) a =
     bind_r (cx_CancelOrder_run parse (GetID (h r)) (re_result re))
       (\<lambda>(resp, err). Inr (Some (EvCancelResp resp err), a))"
| "cx_goroutine parse re h (ReqCancelOrders rs) a =
     bind_r (cx_CancelOrders_run parse (map (\<lambda>r. GetID (h r)) rs) (re_result re))
       (\<lambda>(resps, err). Inr (Some (EvCancelsResp (re_ids re) resps err), a))"

text \<open>The goroutines of Bybit's agent; its batch methods start none.\<close>

fun bb_goroutine ::
  "(string \<Rightarrow> raw) \<Rightarrow> reply \<Rightarrow> (oref \<Rightarrow> 'd Order) \<Rightarrow> 'd AgentRequest \<Rightarrow> bb_PrivateAPIAgent \<Rightarrow>
     ('d event option \<times> bb_PrivateAPIAgent) result" where
  "bb_goroutine parse re h (ReqSendOrder r) a =
     bind_r (bb_SendOrder_run parse (GetID (h r)) (re_sendAt re) (re_receivedAt re) (re_result re) (ab_latencyMeasurer a))
       (\<lambda>((resp, err), lm). Inr (Some (EvSendResp resp err), a\<lparr>ab_latencyMeasurer := lm\<rparr>))"
| "bb_goroutine parse re h (ReqAmendOrder r detail) a =
     bind_r (bb_AmendOrder_run parse (GetID (h r)) detail (re_sendAt re) (re_receivedAt re) (re_result re) (ab_latencyMeasurer a))
       (\<lambda>((resp, err), lm). Inr (Some (EvAmendResp resp err), a\<lparr>ab_latencyMeasurer := lm\<rparr>))"
| "bb_goroutine parse re h (ReqCancelOrder r) a =
     bind_r (bb_CancelOrder_run parse (GetID (h r)) (re_sendAt re) (re_receivedAt re) (re_result re) (ab_latencyMeasurer a))
       (\<lambda>((resp, err), lm). Inr (Some (EvCancelResp resp err), a\<lparr>ab_latencyMeasurer := lm\<rparr>))"
| "bb_goroutine parse re h (ReqSendOrders rs) a = Inr (None, a)"
| "bb_goroutine parse re h (ReqCancelOrders rs) a = Inr (None, a)"

definition cx_quota_back :: "time \<Rightarrow> nat \<Rightarrow> cx_PrivateAPIAgent \<Rightarrow> cx_PrivateAPIAgent option" where
  "cx_quota_back now i a =
     (let l = ax_rateLimiter a in
      if i < length (rl_pending l) \<and> snd (snd (rl_pending l ! i)) \<le> now
      then Some (a\<lparr>ax_rateLimiter := cx_refund i l\<rparr>) else None)"

definition bb_quota_back :: "time \<Rightarrow> nat \<Rightarrow> bb_PrivateAPIAgent \<Rightarrow> bb_PrivateAPIAgent option" where
  "bb_quota_back now i a =
     (let l = ab_rateLimiter a in
      if i < length (rl_pending l) \<and> snd (snd (rl_pending l ! i)) \<le> now
      then Some (a\<lparr>ab_rateLimiter := bb_refund i l\<rparr>) else None)"

definition cx_agent ::
  "('d \<Rightarrow> string) \<Rightarrow> (string \<Rightarrow> raw) \<Rightarrow> ('d :: linordered_idom, cx_PrivateAPIAgent) Agent" where
  "cx_agent str parse =
     \<lparr>ag_SendOrders = cx_SendOrders str True, ag_CancelOrders = cx_CancelOrders True,
      ag_AmendOrders = (\<lambda>now sy details a. cx_AmendOrders a),
      ag_SendOrder = cx_SendOrder str True, ag_CancelOrder = cx_CancelOrder True,
      ag_AmendOrder = cx_AmendOrder str True, ag_handler = cx_goroutine parse, ag_refund = cx_quota_back\<rparr>"

definition bb_agent ::
  "('d \<Rightarrow> string) \<Rightarrow> (string \<Rightarrow> raw) \<Rightarrow> ('d :: linordered_idom, bb_PrivateAPIAgent) Agent" where
  "bb_agent str parse =
     \<lparr>ag_SendOrders = (\<lambda>now sy orders a. bb_batch a), ag_CancelOrders = (\<lambda>now sy orders a. bb_batch a),
      ag_AmendOrders = (\<lambda>now sy details a. bb_batch a),
      ag_SendOrder = bb_SendOrder str True, ag_CancelOrder = bb_CancelOrder True,
      ag_AmendOrder = bb_AmendOrder str True, ag_handler = bb_goroutine parse, ag_refund = bb_quota_back\<rparr>"

section \<open>The desk\<close>

record ('d, 'a) desk =
  dk_market :: "'d market"
  dk_agent :: 'a
  dk_flight :: "'d AgentRequest list"

text \<open>The call of the agent that a request of the dealer stands for; the agent reads the orders of the store.\<close>

fun perform ::
  "('d, 'a) Agent \<Rightarrow> time \<Rightarrow> 'd Symbol \<Rightarrow> (oref \<Rightarrow> 'd Order) \<Rightarrow> 'd AgentRequest \<Rightarrow> 'a \<Rightarrow> error option \<times> 'a" where
  "perform A now sy h (ReqSendOrder r) a = ag_SendOrder A now sy (h r) a"
| "perform A now sy h (ReqSendOrders rs) a = ag_SendOrders A now sy (map h rs) a"
| "perform A now sy h (ReqAmendOrder r detail) a = ag_AmendOrder A now sy (h r) detail a"
| "perform A now sy h (ReqCancelOrder r) a = ag_CancelOrder A now sy (h r) a"
| "perform A now sy h (ReqCancelOrders rs) a = ag_CancelOrders A now sy (map h rs) a"

text \<open>An event with the answer of the agent filled in, and the clock of the events that may call it.\<close>

fun with_answer :: "error option \<Rightarrow> 'd event \<Rightarrow> 'd event" where
  "with_answer ag (EvSendOrder x now r) = EvSendOrder ag now r"
| "with_answer ag (EvSendOrders x now rs) = EvSendOrders ag now rs"
| "with_answer ag (EvAmendOrder x now r detail) = EvAmendOrder ag now r detail"
| "with_answer ag (EvCancelOrder x now r) = EvCancelOrder ag now r"
| "with_answer ag (EvCancelOrders x now ks rs) = EvCancelOrders ag now ks rs"
| "with_answer ag (EvCallback x now i) = EvCallback ag now i"
| "with_answer ag e = e"

fun clock :: "'d event \<Rightarrow> time" where
  "clock (EvSendOrder x now r) = now"
| "clock (EvSendOrders x now rs) = now"
| "clock (EvAmendOrder x now r detail) = now"
| "clock (EvCancelOrder x now r) = now"
| "clock (EvCancelOrders x now ks rs) = now"
| "clock (EvCallback x now i) = now"
| "clock e = 0"

fun is_response :: "'d event \<Rightarrow> bool" where
  "is_response (EvSendResp resp err) = True"
| "is_response (EvSendsResp ids resps err) = True"
| "is_response (EvAmendResp resp err) = True"
| "is_response (EvAmendsResp ids resps err) = True"
| "is_response (EvCancelResp resp err) = True"
| "is_response (EvCancelsResp ids resps err) = True"
| "is_response e = False"

text \<open>
  The request an event makes: the run of the event up to the agent's answer does not depend on the
  answer, and without an error nothing follows, so the agent reads the store that this run leaves.
\<close>

definition asked :: "'d :: linordered_idom event \<Rightarrow> 'd market \<Rightarrow> ('d AgentRequest \<times> (oref \<Rightarrow> 'd Order)) option" where
  "asked e m =
     (case exec (with_answer None e) m of
        Inl p \<Rightarrow> None
      | Inr m1 \<Rightarrow>
          (case drop (length (d_requests (k_dealer m))) (d_requests (k_dealer m1)) of
             [] \<Rightarrow> None
           | q # _ \<Rightarrow> Some (q, d_heap (k_dealer m1))))"

text \<open>What the agent answers to an event, its state after that and the request it has under way.\<close>

definition consult ::
  "('d :: linordered_idom, 'a) Agent \<Rightarrow> 'd Symbol \<Rightarrow> 'd event \<Rightarrow> ('d, 'a) desk \<Rightarrow> error option \<times> 'a \<times> 'd AgentRequest list" where
  "consult A sy e k =
     (case asked e (dk_market k) of
        None \<Rightarrow> (None, dk_agent k, [])
      | Some (q, h) \<Rightarrow>
          (case perform A (clock e) sy h q (dk_agent k) of
             (None, a) \<Rightarrow> (None, a, [q])
           | (Some err, a) \<Rightarrow> (Some err, a, [])))"

definition desk_call ::
  "('d :: linordered_idom, 'a) Agent \<Rightarrow> 'd Symbol \<Rightarrow> 'd event \<Rightarrow> ('d, 'a) desk \<Rightarrow> ('d, 'a) desk result" where
  "desk_call A sy e k =
     (case consult A sy e k of (ag, a, qs) \<Rightarrow>
        bind_r (exec (with_answer ag e) (dk_market k)) (\<lambda>m.
          Inr \<lparr>dk_market = m, dk_agent = a, dk_flight = dk_flight k @ qs\<rparr>))"

definition desk_reply ::
  "('d :: linordered_idom, 'a) Agent \<Rightarrow> reply \<Rightarrow> nat \<Rightarrow> ('d, 'a) desk \<Rightarrow> ('d, 'a) desk result" where
  "desk_reply A re i k =
     bind_r (ag_handler A re (d_heap (k_dealer (dk_market k))) (dk_flight k ! i) (dk_agent k)) (\<lambda>(eo, a).
       bind_r (case eo of None \<Rightarrow> Inr (dk_market k) | Some e \<Rightarrow> exec e (dk_market k)) (\<lambda>m.
         Inr \<lparr>dk_market = m, dk_agent = a, dk_flight = drop_at (dk_flight k) i\<rparr>))"

text \<open>
  What a strategy guarantees is what the dealer asks of it, for the answer the agent gives; its orders come
  from the constructors of \<open>order.go\<close>. A handler visits every key of the map it is given, in some order.
\<close>

definition constructed :: "'d :: linordered_idom Order \<Rightarrow> bool" where
  "constructed o1 \<longleftrightarrow> o1 = zeroOrder\<lparr>o_id := o_id o1, o_orderType := o_orderType o1, o_price := o_price o1,
     o_qty := o_qty o1, o_side := o_side o1, o_status := OrderStatusBorn, o_hide := o_hide o1, o_memo := o_memo o1\<rparr>"

lemma constructors_construct:
  "constructed (NewLimitOrder xid p q s h m)" "constructed (NewLimitFOKOrder xid p q s m)"
  "constructed (NewLimitIOCOrder xid p a q s m)" "constructed (NewLimitMakerOrder xid p q s h m)" "constructed (NewMarketOrder xid q s m)"
  by (simp_all add: constructed_def NewLimitOrder_def NewLimitFOKOrder_def NewLimitIOCOrder_def NewLimitMakerOrder_def
      NewMarketOrder_def zeroOrder_def Let_def)

fun fresh_orders :: "'d :: linordered_idom event \<Rightarrow> bool" where
  "fresh_orders (EvNew o1) = constructed o1"
| "fresh_orders e = True"

definition permitted :: "('d :: linordered_idom, 'a) Agent \<Rightarrow> 'd Symbol \<Rightarrow> 'd event \<Rightarrow> ('d, 'a) desk \<Rightarrow> bool" where
  "permitted A sy e k \<longleftrightarrow>
     \<not> is_response e \<and> fresh_orders e \<and> admissible (with_answer (fst (consult A sy e k)) e) (k_dealer (dk_market k))"

fun visits_all :: "'d event option \<Rightarrow> bool" where
  "visits_all (Some (EvSendsResp ids resps err)) = enumerates ids resps"
| "visits_all (Some (EvCancelsResp ids resps err)) = enumerates ids resps"
| "visits_all e = True"

inductive desk_step :: "('d :: linordered_idom, 'a) Agent \<Rightarrow> 'd Symbol \<Rightarrow> ('d, 'a) desk \<Rightarrow> ('d, 'a) desk \<Rightarrow> bool"
  for A sy where
  call: "permitted A sy e k \<Longrightarrow> desk_call A sy e k = Inr k' \<Longrightarrow> desk_step A sy k k'"
| reply: "i < length (dk_flight k) \<Longrightarrow>
    ag_handler A re (d_heap (k_dealer (dk_market k))) (dk_flight k ! i) (dk_agent k) = Inr (eo, a) \<Longrightarrow> visits_all eo \<Longrightarrow>
    desk_reply A re i k = Inr k' \<Longrightarrow> desk_step A sy k k'"
| quota_back: "ag_refund A now i (dk_agent k) = Some a \<Longrightarrow> desk_step A sy k (k\<lparr>dk_agent := a\<rparr>)"

definition desk_init :: "'a \<Rightarrow> ('d :: linordered_idom, 'a) desk \<Rightarrow> bool" where
  "desk_init a k \<longleftrightarrow> dinit (dk_market k) \<and> dk_agent k = a \<and> dk_flight k = []"

end
