(* ===== verification/Trading_Correct.thy ===== *)
theory Trading_Correct
  imports Trading
begin

text \<open>
  What holds of a dealer together with the agent of its exchange. The locale \<open>exchange_agent\<close> is what a
  dealer relies on of an agent: the responses its goroutines hand over. Both agents keep it, so that every
  run of a desk is a run of its dealer and nothing has to be assumed of the answers of the exchange.
\<close>

section \<open>One request per event\<close>

text \<open>The request an event makes, if any, does not depend on the answer it gets.\<close>

lemma requests_simps [simp]:
  "d_requests (on r f d) = d_requests d" "d_requests (spawn r cbs d) = d_requests d"
  "d_requests (request q d) = d_requests d @ [q]" "d_requests (noticeError e d) = d_requests d"
  "d_requests (Living_Delete r d) = d_requests d" "d_requests (done_Append r d) = d_requests d"
  by (simp_all add: on_def spawn_def request_def noticeError_def Living_Delete_def done_Append_def)

lemma requests_exec [simp]:
  "d_requests (execCreateCallbacks r d) = d_requests d" "d_requests (execAmendCallbacks r d) = d_requests d"
  "d_requests (execFillCallbacks r d) = d_requests d" "d_requests (execPartiallyFillCallbacks r d) = d_requests d"
  "d_requests (execCancelCallbacks r d) = d_requests d" "d_requests (execCreateRejectCallbacks r d) = d_requests d"
  "d_requests (execAmendRejectCallbacks r d) = d_requests d" "d_requests (execCancelRejectCallbacks r d) = d_requests d"
  "d_requests (execAmendRejectOrderNotExistCallbacks r d) = d_requests d"
  by (simp_all add: execCreateCallbacks_def execAmendCallbacks_def execFillCallbacks_def execPartiallyFillCallbacks_def
      execCancelCallbacks_def execCreateRejectCallbacks_def execAmendRejectCallbacks_def execCancelRejectCallbacks_def
      execAmendRejectOrderNotExistCallbacks_def)

lemma requests_handlers [simp]:
  "d_requests (acceptFilled r d) = d_requests d" "d_requests (acceptPartiallyFilled r d) = d_requests d"
  "d_requests (acceptCreate r p t1 t2 d) = d_requests d" "d_requests (acceptCancel r d) = d_requests d"
  "d_requests (rejectAmend r d) = d_requests d" "d_requests (rejectCreate r d) = d_requests d"
  "d_requests (rejectCancel r d) = d_requests d" "d_requests (abandonOrder r d) = d_requests d"
  "d_requests (setOrderFillInfo r data d) = d_requests d" "d_requests (setOrderPartiallyFillInfo r data d) = d_requests d"
  "d_requests (enterSending now r d) = d_requests d" "d_requests (enterCanceling now r d) = d_requests d"
  "d_requests (deferCancel r d) = d_requests d"
  by (simp_all add: handler_defs setOrderFillInfo_def setOrderPartiallyFillInfo_def enterSending_def
      enterCanceling_def deferCancel_def Let_def split: OrderStatus.split)

lemma requests_fold: "(\<And>x d. d_requests (f x d) = d_requests d) \<Longrightarrow> d_requests (fold f xs d) = d_requests d"
  by (induction xs arbitrary: d) simp_all

lemma requests_foldM:
  "(\<And>x d d'. f x d = Inr d' \<Longrightarrow> d_requests d' = d_requests d) \<Longrightarrow> foldM f xs d = Inr d' \<Longrightarrow> d_requests d' = d_requests d"
proof (induction xs arbitrary: d)
  case (Cons x xs)
  then obtain d1 where "f x d = Inr d1" "foldM f xs d1 = Inr d'" by (auto simp: bind_r_eq_Inr)
  with Cons show ?case by metis
qed simp

lemma requests_rejects [simp]:
  "d_requests (rejectCreates rs d) = d_requests d" "d_requests (rejectAmends rs d) = d_requests d"
  "d_requests (rejectCancels rs d) = d_requests d"
  by (simp_all add: rejectCreates_def rejectAmends_def rejectCancels_def requests_fold)

lemma requests_trackUnrelated [simp]: "d_requests (trackUnrelated data d) = d_requests d"
  by (simp add: trackUnrelated_def Let_def split: option.split)

lemma requests_messages [simp]:
  "d_requests (HandleOrderData datas d) = d_requests d" "d_requests (HandlePositionData ps d) = d_requests d"
  by (auto simp: HandleOrderData_def handleOrderDatum_def HandlePositionData_def Let_def
      intro!: requests_fold split: option.split sum.split)

lemma requests_acceptAmend: "acceptAmend r ad t1 t2 d = Inr d' \<Longrightarrow> d_requests d' = d_requests d"
  by (auto simp: acceptAmend_def Let_def bind_r_eq_Inr)

lemma requests_responses:
  "d_requests (handleSendOrderResp resp err d) = d_requests d"
  "d_requests (handleCancelOrderResp xresp err d) = d_requests d"
  "handleAmendOrderResp aresp err d = Inr d' \<Longrightarrow> d_requests d' = d_requests d"
  by (auto simp: handleSendOrderResp_def handleCancelOrderResp_def handleAmendOrderResp_def
      dest: requests_acceptAmend split: option.splits OrderType.splits if_splits)

lemma requests_batches:
  "handleSendOrdersResp ids cresps err d = Inr d' \<Longrightarrow> d_requests d' = d_requests d"
  "handleAmendOrdersResp ids aresps err d = Inr d' \<Longrightarrow> d_requests d' = d_requests d"
  "handleCancelOrdersResp ids xresps err d = Inr d' \<Longrightarrow> d_requests d' = d_requests d"
  unfolding handleSendOrdersResp_def handleAmendOrdersResp_def handleCancelOrdersResp_def Let_def
  by (auto simp: requests_responses(1,2) dest: requests_responses(3) split: option.splits elim!: requests_foldM [rotated])


definition one_request :: "'d DealerImpl \<Rightarrow> (error option \<Rightarrow> 'd DealerImpl result) \<Rightarrow> bool" where
  "one_request d f \<longleftrightarrow> (\<exists>qs. length qs \<le> 1 \<and> (\<forall>ag d'. f ag = Inr d' \<longrightarrow> d_requests d' = d_requests d @ qs))"

lemma no_request: "(\<And>ag d'. f ag = Inr d' \<Longrightarrow> d_requests d' = d_requests d) \<Longrightarrow> one_request d f"
  unfolding one_request_def by (intro exI [of _ "[]"]) simp

lemma just_request: "(\<And>ag d'. f ag = Inr d' \<Longrightarrow> d_requests d' = d_requests d @ [q]) \<Longrightarrow> one_request d f"
  unfolding one_request_def by (intro exI [of _ "[q]"]) simp

lemma one_SendOrder: "one_request d (\<lambda>ag. Inr (snd (SendOrder ag now r d)))"
  by (cases "Flag_Get (d_acceptOrder d) \<and> getOrder (d_LivingOrders d) (GetID (ord d r)) = None")
    (auto simp: SendOrder_def Let_def intro: no_request just_request [where q = "ReqSendOrder r"] split: option.splits)

lemma one_SendOrders: "one_request d (\<lambda>ag. Inr (snd (SendOrders ag now rs d)))"
  by (cases "Flag_Get (d_acceptOrder d) \<and> \<not> list_ex (\<lambda>r. getOrder (d_LivingOrders d) (GetID (ord d r)) \<noteq> None) rs")
    (auto simp: SendOrders_def Let_def requests_fold intro: no_request just_request [where q = "ReqSendOrders rs"]
      split: option.splits)

lemma one_amendOrder: "one_request d (\<lambda>ag. bind_r (amendOrder ag now r detail d) (\<lambda>(_, d'). Inr d'))"
proof (cases "getOrder (d_LivingOrders d) (GetID (ord d r)) \<noteq> None \<and> isAmendAble (ord d r) \<and>
    isNeedToAmend detail (ord d r) = Inr True \<and> GetStatus (ord d r) = OrderStatusPending")
  case True
  then show ?thesis
    by (auto simp: amendOrder_def amendOrder_locked_def Let_def intro!: just_request [where q = "ReqAmendOrder r detail"]
        split: option.splits)
next
  case False
  then show ?thesis
    by (auto simp: amendOrder_def amendOrder_locked_def Let_def bind_r_eq_Inr intro!: no_request split: option.splits if_splits)
qed

lemma one_runDeferredAmend: "one_request d (\<lambda>ag. runDeferredAmend ag now r detail d)"
  using one_amendOrder [of "d\<lparr>d_amendingDetailMap := m\<rparr>" for m]
  by (simp add: runDeferredAmend_def Let_def one_request_def)

lemma one_AmendOrder: "one_request d (\<lambda>ag. bind_r (AmendOrder ag now r detail d) (\<lambda>(_, d'). Inr d'))"
proof (cases "Flag_Get (d_acceptOrder d) \<and> GetStatus (ord d r) = OrderStatusPending")
  case True
  then show ?thesis using one_amendOrder [of d now r detail] by (simp add: AmendOrder_def Let_def)
next
  case False
  then show ?thesis
    by (auto simp: AmendOrder_def Let_def intro!: no_request split: OrderStatus.splits if_splits)
qed

lemma one_runDeferredCancel: "one_request d (\<lambda>ag. Inr (runDeferredCancel ag now r d))"
  by (cases "GetStatus (ord d r) = OrderStatusPending")
    (auto simp: runDeferredCancel_def cancelOrder_def Let_def intro: no_request just_request [where q = "ReqCancelOrder r"]
      split: option.splits)

lemma one_CancelOrder: "one_request d (\<lambda>ag. Inr (snd (CancelOrder ag now r d)))"
  by (cases "GetStatus (ord d r) = OrderStatusPending")
    (auto simp: CancelOrder_def one_runDeferredCancel intro: no_request)

lemma requests_split: "d_requests (snd (splitCancelTargets rs d)) = d_requests d"
  by (induction rs d rule: splitCancelTargets.induct) (auto simp: case_prod_beta)

lemma one_CancelOrders: "one_request d (\<lambda>ag. Inr (snd (CancelOrders ag now ks rs d)))"
proof -
  obtain ts d1 where t: "splitCancelTargets (Unique ks (d_heap d) rs) d = (ts, d1)" by fastforce
  with requests_split [of "Unique ks (d_heap d) rs" d] have "d_requests d1 = d_requests d" by simp
  then show ?thesis
    by (cases "ts = []") (auto simp: CancelOrders_def t Let_def requests_fold
        intro: no_request just_request [where q = "ReqCancelOrders ts"] split: option.splits)
qed

lemma one_runCallback: "one_request d (\<lambda>ag. runCallback ag now t (d\<lparr>d_spawned := sp\<rparr>))"
proof -
  have "one_request (d\<lparr>d_spawned := sp\<rparr>) f \<Longrightarrow> one_request d f" for f by (simp add: one_request_def)
  then show ?thesis
    by (cases t; cases "snd t") (auto simp: runCallback_def one_runDeferredAmend one_runDeferredCancel intro: no_request)
qed

lemma one_event: "one_request d (\<lambda>ag. exec_dealer (with_answer ag e) d)"
proof (cases e)
  case (EvCallback x now i)
  then show ?thesis by (cases "i < length (d_spawned d)") (auto simp: one_runCallback intro: no_request)
qed (auto simp: one_SendOrder one_SendOrders one_AmendOrder one_CancelOrder one_CancelOrders alloc_def
    ExportDoneOrders_def SetPosUpdatedHandler_def requests_responses(1,2)
    dest: requests_responses(3) requests_batches intro!: no_request)

lemma exec_dealer_exec: "exec e m = Inr m' \<Longrightarrow> exec_dealer e (k_dealer m) = Inr (k_dealer m')"
  by (auto simp: exec_def bind_r_eq_Inr)

lemma requests_grow: "exec (with_answer ag e) m = Inr m' \<Longrightarrow> \<exists>qs. d_requests (k_dealer m') = d_requests (k_dealer m) @ qs"
  using one_event [of "k_dealer m" e] exec_dealer_exec unfolding one_request_def by blast

lemma asked_Some:
  assumes "asked e m = Some (q, h)" and "exec (with_answer ag e) m = Inr m'"
  shows "d_requests (k_dealer m') = d_requests (k_dealer m) @ [q]"
proof -
  obtain qs where qs: "length qs \<le> 1"
    "\<And>ag m'. exec (with_answer ag e) m = Inr m' \<Longrightarrow> d_requests (k_dealer m') = d_requests (k_dealer m) @ qs"
    using one_event [of "k_dealer m" e] exec_dealer_exec unfolding one_request_def by blast
  from assms(1) obtain m1 qs' where "exec (with_answer None e) m = Inr m1"
    "drop (length (d_requests (k_dealer m))) (d_requests (k_dealer m1)) = q # qs'"
    by (auto simp: asked_def split: sum.splits list.splits)
  with qs(2) [of None m1] qs(1) have "qs = [q]" by (cases qs) auto
  with qs(2) [OF assms(2)] show ?thesis by simp
qed

section \<open>What a dealer relies on\<close>

lemma admissible_unanswered: "admissible (with_answer ag e) d \<Longrightarrow> admissible (with_answer None e) d"
  by (cases e) auto

text \<open>A desk with requests under way that its dealer has made.\<close>

definition flight_ok :: "('d, 'a) desk \<Rightarrow> bool" where
  "flight_ok k \<longleftrightarrow> set (dk_flight k) \<subseteq> set (d_requests (k_dealer (dk_market k)))"

locale exchange_agent =
  fixes A :: "('d :: linordered_idom, 'a) Agent"
  assumes handler_admissible:
    "ag_handler A re h q a = Inr (Some e, a') \<Longrightarrow> visits_all (Some e) \<Longrightarrow> is_response e \<and> admissible e d"
begin

lemma desk_step_market:
  assumes "desk_step A sy k k'"
  shows "dk_market k' = dk_market k \<or> dstep (dk_market k) (dk_market k')"
  using assms
proof cases
  case (call e)
  then show ?thesis
    by (auto simp: permitted_def desk_call_def bind_r_eq_Inr intro: dstep split: prod.splits)
next
  case (reply i re eo a)
  show ?thesis
  proof (cases eo)
    case None
    then show ?thesis using reply by (auto simp: desk_reply_def)
  next
    case (Some e)
    with handler_admissible reply(2,3) have "admissible e (k_dealer (dk_market k))" by blast
    with Some reply show ?thesis by (auto simp: desk_reply_def bind_r_eq_Inr intro: dstep)
  qed
qed auto

lemma market_reach: "reach (desk_init a) (desk_step A sy) k \<Longrightarrow> reach dinit dstep (dk_market k)"
proof (induction rule: reach.induct)
  case (reach_init k)
  then show ?case by (auto simp: desk_init_def intro: reach.reach_init)
next
  case (reach_step k k')
  then show ?case using desk_step_market [OF reach_step.hyps(2)] by (auto intro: reach.reach_step)
qed

lemma call_returns:
  assumes "reach dinit dstep (dk_market k)" and "permitted A sy e k"
  shows "\<exists>k'. desk_call A sy e k = Inr k'"
proof -
  obtain ag a qs where c: "consult A sy e k = (ag, a, qs)" by (metis prod_cases3)
  with assms(2) have "admissible (with_answer ag e) (k_dealer (dk_market k))" by (simp add: permitted_def)
  with moves_exec [OF dealer.reachable_inv [OF assms(1)]] obtain m where "exec (with_answer ag e) (dk_market k) = Inr m"
    by blast
  then show ?thesis by (simp add: desk_call_def c)
qed

lemma reply_returns:
  assumes "reach dinit dstep (dk_market k)" and "visits_all eo"
    and "ag_handler A re (d_heap (k_dealer (dk_market k))) (dk_flight k ! i) (dk_agent k) = Inr (eo, a)"
  shows "\<exists>k'. desk_reply A re i k = Inr k'"
proof (cases eo)
  case (Some e)
  with handler_admissible assms(2,3) have "admissible e (k_dealer (dk_market k))" by blast
  with moves_exec [OF dealer.reachable_inv [OF assms(1)]] obtain m where "exec e (dk_market k) = Inr m" by blast
  with Some assms(3) show ?thesis by (simp add: desk_reply_def)
qed (simp add: desk_reply_def assms(3))

lemma with_answer_self: "is_response e \<Longrightarrow> with_answer ag e = e"
  by (cases e) auto

lemma flight_step:
  assumes "desk_step A sy k k'" and "flight_ok k"
  shows "flight_ok k'"
  using assms(1)
proof cases
  case (call e)
  obtain ag a qs where c: "consult A sy e k = (ag, a, qs)" by (metis prod_cases3)
  with call obtain m where m: "exec (with_answer ag e) (dk_market k) = Inr m"
    and k': "k' = \<lparr>dk_market = m, dk_agent = a, dk_flight = dk_flight k @ qs\<rparr>"
    by (auto simp: desk_call_def bind_r_eq_Inr)
  have "qs \<noteq> [] \<Longrightarrow> \<exists>q h. asked e (dk_market k) = Some (q, h) \<and> qs = [q]"
    using c by (auto simp: consult_def split: option.splits prod.splits)
  then have "set qs \<subseteq> set (d_requests (k_dealer m))" using asked_Some [OF _ m] by (cases "qs = []") force+
  with assms(2) requests_grow [OF m] k' show ?thesis by (auto simp: flight_ok_def)
next
  case (reply i re eo a)
  then obtain m where m: "(case eo of None \<Rightarrow> Inr (dk_market k) | Some e \<Rightarrow> exec e (dk_market k)) = Inr m"
    and k': "k' = \<lparr>dk_market = m, dk_agent = a, dk_flight = drop_at (dk_flight k) i\<rparr>"
    by (auto simp: desk_reply_def bind_r_eq_Inr)
  have "set (d_requests (k_dealer (dk_market k))) \<subseteq> set (d_requests (k_dealer m))"
  proof (cases eo)
    case (Some e)
    with handler_admissible reply(2,3) have "is_response e" by blast
    with m Some requests_grow [of None e "dk_market k" m] show ?thesis by (auto simp: with_answer_self)
  qed (use m in simp)
  with assms(2) k' set_drop_at [of "dk_flight k" i] show ?thesis by (auto simp: flight_ok_def)
qed (use assms(2) in \<open>auto simp: flight_ok_def\<close>)

lemma flight_reach: "reach (desk_init a) (desk_step A sy) k \<Longrightarrow> flight_ok k"
proof (induction rule: reach.induct)
  case (reach_init k)
  then show ?case by (simp add: desk_init_def flight_ok_def)
qed (rule flight_step)

end


section \<open>Both agents\<close>

lemma cx_agent_sel [simp]:
  "ag_SendOrder (cx_agent str parse) = cx_SendOrder str True" "ag_SendOrders (cx_agent str parse) = cx_SendOrders str True"
  "ag_AmendOrder (cx_agent str parse) = cx_AmendOrder str True" "ag_CancelOrder (cx_agent str parse) = cx_CancelOrder True"
  "ag_CancelOrders (cx_agent str parse) = cx_CancelOrders True" "ag_handler (cx_agent str parse) = cx_goroutine parse"
  "ag_refund (cx_agent str parse) = cx_quota_back"
  by (simp_all add: cx_agent_def)

lemma bb_agent_sel [simp]:
  "ag_SendOrder (bb_agent str parse) = bb_SendOrder str True" "ag_SendOrders (bb_agent str parse) now sy orders a = bb_batch a"
  "ag_AmendOrder (bb_agent str parse) = bb_AmendOrder str True" "ag_CancelOrder (bb_agent str parse) = bb_CancelOrder True"
  "ag_CancelOrders (bb_agent str parse) now sy orders a = bb_batch a" "ag_handler (bb_agent str parse) = bb_goroutine parse"
  by (simp_all add: bb_agent_def)

interpretation cx_desk: exchange_agent "cx_agent str parse" for str parse
proof
  fix re h q a e a' and d :: "'a DealerImpl"
  assume "ag_handler (cx_agent str parse) re h q a = Inr (Some e, a')" "visits_all (Some e)"
  then show "is_response e \<and> admissible e d"
    by (cases q)
      (auto simp: bind_r_eq_Inr cx_SendOrders_run_def cx_CancelOrders_run_def cx_AmendOrder_run_def enumerates_def
        dest!: SendOrders_answer_cases CancelOrders_answer_cases amend_answers(1))
qed

interpretation bb_desk: exchange_agent "bb_agent str parse" for str parse
proof
  fix re h q a e a' and d :: "'a DealerImpl"
  assume "ag_handler (bb_agent str parse) re h q a = Inr (Some e, a')" "visits_all (Some e)"
  then show "is_response e \<and> admissible e d"
    by (cases q) (auto simp: bind_r_eq_Inr bb_AmendOrder_run_def dest!: amend_answers(2))
qed

section \<open>Every desk runs as its dealer promises\<close>



text \<open>A desk at each exchange: an order is constructed and sent, and at CoinEx its response arrives.\<close>

definition demo_parse :: "string \<Rightarrow> raw" where
  "demo_parse text = Some (JObj [(''code'', JNum ''0''), (''data'', JObj [(''order_id'', JNum ''123'')]), (''message'', JStr ''OK'')])"

definition demo_reply :: reply where
  "demo_reply = \<lparr>re_sendAt = 5, re_receivedAt = 6, re_result = Inr \<lparr>rp_StatusCode = 200, rp_Body = Inr ''...''\<rparr>, re_ids = []\<rparr>"

definition demo_cx :: "(int, cx_PrivateAPIAgent) Agent" where
  "demo_cx = cx_agent (\<lambda>n. FormatInt n) demo_parse"

definition demo_bb :: "(int, bb_PrivateAPIAgent) Agent" where
  "demo_bb = bb_agent (\<lambda>n. FormatInt n) demo_parse"

definition demo_sent :: "(int, 'a) Agent \<Rightarrow> 'a \<Rightarrow> (int, 'a) desk" where
  "demo_sent A a =
     projr (bind_r (desk_call A demo_symbol (EvNew (NewLimitOrder ''a'' 100 1 SideBuy False []))
         \<lparr>dk_market = demo_start, dk_agent = a, dk_flight = []\<rparr>)
       (desk_call A demo_symbol (EvSendOrder None 5 0)))"

lemma call_reach:
  "reach I (desk_step A sy) k \<Longrightarrow> permitted A sy e k \<Longrightarrow> desk_call A sy e k = Inr k' \<Longrightarrow> reach I (desk_step A sy) k'"
  by (blast intro: reach_step desk_step.call)

lemma demo_sent_reach: "reach (desk_init a) (desk_step A demo_symbol) (demo_sent A a)"
proof -
  let ?k = "\<lparr>dk_market = demo_start, dk_agent = a, dk_flight = []\<rparr> :: (int, 'a) desk"
  let ?o = "NewLimitOrder ''a'' 100 1 SideBuy False [] :: int Order"
  let ?m = "\<lparr>k_dealer = alloc ?o (k_dealer demo_start), k_exported = []\<rparr>"
  have 0: "reach (desk_init a) (desk_step A demo_symbol) ?k"
    by (intro reach_init) (auto simp: desk_init_def dinit_def demo_start_def)
  have "permitted A demo_symbol (EvNew ?o) ?k"
    by (simp add: permitted_def constructed_def newborn_def NewLimitOrder_def zeroOrder_def)
  moreover have c: "desk_call A demo_symbol (EvNew ?o) ?k = Inr \<lparr>dk_market = ?m, dk_agent = a, dk_flight = []\<rparr>"
    by (simp add: desk_call_def consult_def asked_def exec_def alloc_def demo_start_def)
  ultimately have 1: "reach (desk_init a) (desk_step A demo_symbol) \<lparr>dk_market = ?m, dk_agent = a, dk_flight = []\<rparr>"
    using call_reach [OF 0] by blast
  have p: "permitted A demo_symbol (EvSendOrder None 5 0) \<lparr>dk_market = ?m, dk_agent = a, dk_flight = []\<rparr>"
    by (simp add: permitted_def demo_start_def freshDealer_def alloc_def ord_def GetStatus_def NewLimitOrder_def)
  have "\<exists>k'. desk_call A demo_symbol (EvSendOrder None 5 0) \<lparr>dk_market = ?m, dk_agent = a, dk_flight = []\<rparr> = Inr k'"
    by (simp add: desk_call_def exec_def case_prod_beta)
  with call_reach [OF 1 p] c show ?thesis by (auto simp: demo_sent_def)
qed


end
