(* ===== verification/Trading_Ids.thy ===== *)
theory Trading_Ids
  imports Trading_Correct
begin

text \<open>
  The numbers by which CoinEx knows the orders of a desk. The agent needs them to cancel and to amend: the
  public identifier of an order must be a 64-bit number in decimal. It is set from the response to the
  creation alone, so that every order that is pending, being amended or being cancelled must have it.
\<close>

section \<open>The invariant\<close>

definition numbered :: "string \<Rightarrow> bool" where
  "numbered s \<longleftrightarrow> (\<exists>n. - (2 ^ 63) \<le> n \<and> n < 2 ^ 63 \<and> s = FormatInt n)"

fun at_exchange :: "OrderStatus \<Rightarrow> bool" where
  "at_exchange OrderStatusPending = True"
| "at_exchange OrderStatusAmending = True"
| "at_exchange OrderStatusCanceling = True"
| "at_exchange _ = False"

fun is_deferred :: "'d OrderCallback \<Rightarrow> bool" where
  "is_deferred (UserCallback n) = False"
| "is_deferred _ = True"

text \<open>Only the callbacks of creation and amendment hold operations that were deferred.\<close>

definition user_callbacks :: "'d Order \<Rightarrow> 'd OrderCallback set" where
  "user_callbacks o1 = set (o_createRejectCallbacks o1) \<union> set (o_cancelCallbacks o1) \<union> set (o_cancelRejectCallbacks o1) \<union>
     set (o_amendRejectCallbacks o1) \<union> set (o_amendRejectOrderNotExistCallbacks o1) \<union> set (o_fillCallbacks o1) \<union>
     set (o_partiallyFillCallBacks o1)"

definition order_named :: "'d Order \<Rightarrow> bool" where
  "order_named o1 \<longleftrightarrow> (at_exchange (o_status o1) \<longrightarrow> numbered (o_publicID o1)) \<and> (\<forall>cb \<in> user_callbacks o1. \<not> is_deferred cb)"

definition named_ok :: "'d DealerImpl \<Rightarrow> bool" where
  "named_ok d \<longleftrightarrow> (\<forall>r. order_named (d_heap d r)) \<and>
     (\<forall>(r, cb) \<in> set (d_spawned d). is_deferred cb \<longrightarrow> numbered (o_publicID (d_heap d r))) \<and>
     (\<forall>r \<ge> d_next d. o_publicID (d_heap d r) = [])"

lemma named_frame [simp]:
  "named_ok (d\<lparr>d_LivingOrders := m\<rparr>) = named_ok d" "named_ok (d\<lparr>d_amendingDetailMap := am\<rparr>) = named_ok d"
  "named_ok (d\<lparr>d_doneOrders := s\<rparr>) = named_ok d" "named_ok (request q d) = named_ok d"
  "named_ok (noticeError e d) = named_ok d" "named_ok (Living_Delete r d) = named_ok d"
  "named_ok (done_Append r d) = named_ok d" "named_ok (d\<lparr>d_UnrelatedOrders := m\<rparr>) = named_ok d"
  "named_ok (d\<lparr>d_posUpdatedHandlers := hs\<rparr>) = named_ok d"
  by (simp_all add: named_ok_def request_def noticeError_def Living_Delete_def done_Append_def)

lemma named_on:
  "named_ok d \<Longrightarrow> order_named (f (d_heap d r)) \<Longrightarrow> o_publicID (f (d_heap d r)) = o_publicID (d_heap d r) \<Longrightarrow> named_ok (on r f d)"
  by (auto simp: named_ok_def on_def)

lemma named_spawn:
  "named_ok d \<Longrightarrow> (\<And>cb. cb \<in> set cbs \<Longrightarrow> is_deferred cb \<Longrightarrow> numbered (o_publicID (d_heap d r))) \<Longrightarrow> named_ok (spawn r cbs d)"
  by (auto simp: named_ok_def spawn_def)

lemma named_users:
  assumes "named_ok d"
  shows "named_ok (execFillCallbacks r d)" "named_ok (execPartiallyFillCallbacks r d)" "named_ok (execCancelCallbacks r d)"
    "named_ok (execCreateRejectCallbacks r d)" "named_ok (execAmendRejectCallbacks r d)"
    "named_ok (execAmendRejectOrderNotExistCallbacks r d)" "named_ok (execCancelRejectCallbacks r d)"
proof -
  have "\<forall>cb \<in> user_callbacks (d_heap d r). \<not> is_deferred cb" using assms by (auto simp: named_ok_def order_named_def)
  then show "named_ok (execFillCallbacks r d)" "named_ok (execPartiallyFillCallbacks r d)" "named_ok (execCancelCallbacks r d)"
    "named_ok (execCreateRejectCallbacks r d)" "named_ok (execAmendRejectCallbacks r d)"
    "named_ok (execAmendRejectOrderNotExistCallbacks r d)" "named_ok (execCancelRejectCallbacks r d)"
    unfolding execFillCallbacks_def execPartiallyFillCallbacks_def execCancelCallbacks_def execCreateRejectCallbacks_def
      execAmendRejectCallbacks_def execAmendRejectOrderNotExistCallbacks_def execCancelRejectCallbacks_def ord_def
    by (auto intro!: named_spawn [OF assms] simp: user_callbacks_def)
qed

lemma heap_frame [simp]:
  "d_heap (d\<lparr>d_LivingOrders := m\<rparr>) = d_heap d" "d_heap (Living_Delete r d) = d_heap d" "d_heap (done_Append r d) = d_heap d"
  "d_heap (on r f d) = (d_heap d)(r := f (d_heap d r))" "ord d r = d_heap d r" "d_heap (request q d) = d_heap d"
  by (simp_all add: Living_Delete_def done_Append_def on_def ord_def request_def)

text \<open>The part of an order that the invariant reads.\<close>

lemma order_namedI:
  "order_named o1 \<Longrightarrow> user_callbacks o2 = user_callbacks o1 \<Longrightarrow> o_publicID o2 = o_publicID o1 \<Longrightarrow>
   (at_exchange (o_status o2) \<Longrightarrow> at_exchange (o_status o1) \<or> numbered (o_publicID o1)) \<Longrightarrow> order_named o2"
  by (auto simp: order_named_def)

lemma named_heap: "named_ok d \<Longrightarrow> order_named (d_heap d r)"
  by (simp add: named_ok_def)

lemma named_done:
  assumes "named_ok d"
  shows "named_ok (acceptFilled r d)" "named_ok (acceptPartiallyFilled r d)" "named_ok (acceptCancel r d)"
    "named_ok (rejectCreate r d)" "named_ok (abandonOrder r d)"
  using assms named_heap [OF assms, of r]
  by (auto simp: handler_defs Let_def go_simps user_callbacks_def order_named_def intro!: named_users named_on)

lemma named_rejects:
  assumes "named_ok d" "numbered (o_publicID (d_heap d r))"
  shows "named_ok (rejectAmend r d)" "named_ok (rejectCancel r d)"
  using assms named_heap [OF assms(1), of r]
  by (auto simp: handler_defs Let_def go_simps user_callbacks_def order_named_def intro!: named_users named_on)


lemma numbered_nonempty: "numbered s \<Longrightarrow> s \<noteq> []"
proof -
  have "format_nat n \<noteq> []" "[] \<noteq> format_nat n" for n using format_nat_digits [of n] by auto
  then show "numbered s \<Longrightarrow> s \<noteq> []" by (auto simp: numbered_def FormatInt_def split: if_splits)
qed

lemma named_pending:
  assumes "named_ok d" and "at_exchange (o_status (d_heap d r))"
  shows "numbered (o_publicID (d_heap d r))"
  using named_heap [OF assms(1), of r] assms(2) by (simp add: order_named_def)

lemma named_info:
  assumes "named_ok d"
  shows "named_ok (setOrderFillInfo r data d)" "named_ok (setOrderPartiallyFillInfo r data d)"
  using assms named_heap [OF assms, of r] unfolding setOrderFillInfo_def setOrderPartiallyFillInfo_def
  by (auto simp: Let_def go_simps user_callbacks_def order_named_def intro!: named_on)

lemma named_acceptAmend:
  assumes "named_ok d" and "at_exchange (o_status (d_heap d r))" and "acceptAmend r ad t1 t2 d = Inr d'"
  shows "named_ok d'"
proof -
  have n: "numbered (o_publicID (d_heap d r))" by (rule named_pending [OF assms(1,2)])
  from assms(3) obtain o3 where o3: "amend ad ((d_heap d r)\<lparr>o_status := OrderStatusPending, o_amendingDetail := None\<rparr>) = Inr o3"
    and d': "d' = execAmendCallbacks r (on r (setConfirmTimestamps t1 t2)
      (on r (setSentTimestamp (getLastOperatedTimestamp o3)) (on r (\<lambda>_. o3)
        (on r (setAmendingDetail None) (on r (setStatus OrderStatusPending) d)))))"
    by (auto simp: acceptAmend_def Let_def bind_r_eq_Inr go_simps)
  have sel: "o_publicID o3 = o_publicID (d_heap d r)" "user_callbacks o3 = user_callbacks (d_heap d r)" "o_status o3 = OrderStatusPending"
    using o3 by (auto simp: amend_def user_callbacks_def go_simps split: option.splits)
  have "named_ok (on r (setConfirmTimestamps t1 t2)
      (on r (setSentTimestamp (getLastOperatedTimestamp o3)) (on r (\<lambda>_. o3)
        (on r (setAmendingDetail None) (on r (setStatus OrderStatusPending) d)))))"
    using assms(1) named_heap [OF assms(1), of r] n sel
    by (auto simp: go_simps user_callbacks_def order_named_def intro!: named_on)
  then show ?thesis unfolding d' execAmendCallbacks_def
    by (rule named_spawn) (use n sel in \<open>simp add: go_simps\<close>)
qed

lemma on_twice: "on r f (on r g d) = on r (\<lambda>x. f (g x)) d"
  by (simp add: on_def)

lemma named_renumber:
  "named_ok d \<Longrightarrow> order_named (f (d_heap d r)) \<Longrightarrow> numbered (o_publicID (f (d_heap d r))) \<Longrightarrow> r < d_next d \<Longrightarrow> named_ok (on r f d)"
  by (auto simp: named_ok_def on_def)

lemma named_acceptCreate:
  fixes d :: "'a DealerImpl"
  assumes "named_ok d" and "numbered p" and "r < d_next d"
  shows "named_ok (acceptCreate r p t1 t2 d)"
proof -
  define f where "f = (\<lambda>x :: 'a Order. setConfirmTimestamps t1 t2 (setSentTimestamp (getLastOperatedTimestamp (d_heap d r))
    (setPublicID p (setStatus OrderStatusPending x))))"
  have f: "acceptCreate r p t1 t2 d = execCreateCallbacks r (on r f d)"
    using numbered_nonempty [OF assms(2)] unfolding f_def
    by (simp add: acceptCreate_def Let_def on_twice) (simp add: setStatus_def setPublicID_def getLastOperatedTimestamp_def)
  have p: "o_publicID (f (d_heap d r)) = p" "user_callbacks (f (d_heap d r)) = user_callbacks (d_heap d r)"
    by (simp_all add: f_def go_simps user_callbacks_def Let_def)
  have "named_ok (on r f d)"
    using assms named_heap [OF assms(1), of r] p by (intro named_renumber) (auto simp: order_named_def)
  then show ?thesis unfolding f execCreateCallbacks_def by (rule named_spawn) (use p assms(2) in simp)
qed

section \<open>Responses\<close>

definition living_ok :: "'d DealerImpl \<Rightarrow> bool" where
  "living_ok d \<longleftrightarrow> (\<forall>i r. Map_Get (d_LivingOrders d) i = Some r \<longrightarrow> r < d_next d)"

text \<open>A response to a creation that is a success has a number.\<close>

definition resp_numbered :: "CreateOrderResp \<Rightarrow> bool" where
  "resp_numbered resp \<longleftrightarrow> (cr_Err resp = None \<longrightarrow> numbered (cr_PublicID resp))"

lemma named_handleSendOrderResp:
  assumes "named_ok d" and "living_ok d" and "err = None \<Longrightarrow> resp_numbered resp"
  shows "named_ok (handleSendOrderResp resp err d)"
proof -
  have "getSendingOrder (d_heap d) (d_LivingOrders d) (cr_OrderID resp) = Some r \<Longrightarrow> r < d_next d" for r
    using assms(2) by (auto simp: getSendingOrder_def living_ok_def split: option.splits if_splits)
  with assms show ?thesis
    by (auto simp: handleSendOrderResp_def resp_numbered_def named_done named_acceptCreate split: option.split OrderType.split)
qed

lemma living_handleSendOrderResp: "living_ok d \<Longrightarrow> living_ok (handleSendOrderResp resp err d)"
  by (auto simp: living_ok_def handleSendOrderResp_def handler_defs dealer_defs noticeError_def Let_def go_simps Map_Get_def
      Map_Delete_def split: option.splits OrderType.splits if_splits)

lemma named_handleSendOrdersResp:
  fixes d :: "'d DealerImpl"
  assumes "named_ok d" and "living_ok d" and "handleSendOrdersResp ids resps err d = Inr d'"
    and "err = None \<Longrightarrow> (\<And>i resp. resps i = Some (Some resp) \<Longrightarrow> resp_numbered resp)"
  shows "named_ok d'"
proof (cases err)
  case None
  have "named_ok d' \<and> living_ok d'" if "foldM (\<lambda>r d. case resps (GetID (ord d r)) of
      Some (Some resp) \<Rightarrow> Inr (handleSendOrderResp resp None d) | _ \<Rightarrow> Inl NilDeref) rs d = Inr d'"
      "named_ok d" "living_ok d" for rs and d :: "'d DealerImpl"
    using that
  proof (induction rs arbitrary: d)
    case (Cons r rs)
    then obtain resp where "resps (GetID (ord d r)) = Some (Some resp)"
      and rs: "foldM (\<lambda>r d. case resps (GetID (ord d r)) of
        Some (Some resp) \<Rightarrow> Inr (handleSendOrderResp resp None d) | _ \<Rightarrow> Inl NilDeref) rs (handleSendOrderResp resp None d) = Inr d'"
      by (auto simp: bind_r_eq_Inr split: option.splits)
    with Cons.prems assms(4) [OF None] have "named_ok (handleSendOrderResp resp None d)"
      by (intro named_handleSendOrderResp) auto
    with Cons.IH [OF rs] Cons.prems living_handleSendOrderResp show ?case by blast
  qed simp
  with assms None show ?thesis by (auto simp: handleSendOrdersResp_def Let_def)
next
  case (Some e)
  have "named_ok (fold rejectCreate rs d)" if "named_ok d" for rs and d :: "'d DealerImpl"
    using that by (induction rs arbitrary: d) (simp_all add: named_done)
  with assms Some show ?thesis by (auto simp: handleSendOrdersResp_def rejectCreates_def Let_def)
qed


lemma named_handleAmendOrderResp:
  assumes "named_ok d" and "handleAmendOrderResp resp err d = Inr d'"
  shows "named_ok d'"
proof -
  have "getAmendingOrder (d_heap d) (d_LivingOrders d) (ar_OrderID resp) = Some r \<Longrightarrow> at_exchange (o_status (d_heap d r))" for r
    by (auto simp: getAmendingOrder_def GetStatus_def split: option.splits if_splits)
  with assms named_pending [OF assms(1)] show ?thesis
    by (auto simp: handleAmendOrderResp_def named_done named_rejects dest: named_acceptAmend [OF assms(1)]
        split: option.splits if_splits)
qed

lemma named_handleCancelOrderResp:
  assumes "named_ok d"
  shows "named_ok (handleCancelOrderResp resp err d)"
proof -
  have "getCancelingOrder (d_heap d) (d_LivingOrders d) (xr_OrderID resp) = Some r \<Longrightarrow> at_exchange (o_status (d_heap d r))" for r
    by (auto simp: getCancelingOrder_def GetStatus_def split: option.splits if_splits)
  with assms named_pending [OF assms] show ?thesis
    by (auto simp: handleCancelOrderResp_def named_done named_rejects split: option.splits)
qed

lemma id_rejectCancel [simp]: "o_publicID (d_heap (rejectCancel r d) q) = o_publicID (d_heap d q)"
  by (simp add: rejectCancel_def execCancelRejectCallbacks_def spawn_def Let_def go_simps)

lemma named_rejectCancels:
  "named_ok d \<Longrightarrow> \<forall>r \<in> set rs. numbered (o_publicID (d_heap d r)) \<Longrightarrow> named_ok (rejectCancels rs d)"
  unfolding rejectCancels_def by (induction rs arbitrary: d) (simp_all add: named_rejects)

lemma named_handleCancelOrdersResp:
  fixes d :: "'d DealerImpl"
  assumes "named_ok d" and "handleCancelOrdersResp ids resps err d = Inr d'"
  shows "named_ok d'"
proof (cases err)
  case None
  have "named_ok d'" if "foldM (\<lambda>r d. case resps (GetID (ord d r)) of
      Some (Some resp) \<Rightarrow> Inr (handleCancelOrderResp resp None d) | _ \<Rightarrow> Inl NilDeref) rs d = Inr d'" "named_ok d"
    for rs and d :: "'d DealerImpl"
    using that
    by (induction rs arbitrary: d) (auto simp: bind_r_eq_Inr named_handleCancelOrderResp split: option.splits)
  with assms None show ?thesis by (auto simp: handleCancelOrdersResp_def Let_def)
next
  case (Some e)
  have "\<forall>r \<in> set (getCancelingOrders (d_heap d) (d_LivingOrders d) ids). at_exchange (o_status (d_heap d r))"
    by (auto simp: getCancelingOrders_def with_status_mem GetStatus_def)
  then have "\<forall>r \<in> set (getCancelingOrders (d_heap d) (d_LivingOrders d) ids). numbered (o_publicID (d_heap d r))"
    using named_pending [OF assms(1)] by blast
  with assms Some show ?thesis by (auto simp: handleCancelOrdersResp_def Let_def named_rejectCancels)
qed

section \<open>Calls\<close>

lemma named_enterSending: "named_ok d \<Longrightarrow> named_ok (enterSending now r d)"
  using named_heap [of d r]
  by (auto simp: enterSending_def Let_def go_simps user_callbacks_def order_named_def intro!: named_on)

lemma named_SendOrder: "named_ok d \<Longrightarrow> named_ok (snd (SendOrder ag now r d))"
  by (auto simp: SendOrder_def Let_def named_enterSending named_done split: option.split)

lemma named_fold: "(\<And>x d. named_ok d \<Longrightarrow> named_ok (f x d)) \<Longrightarrow> named_ok d \<Longrightarrow> named_ok (fold f xs d)"
  by (induction xs arbitrary: d) simp_all

lemma named_SendOrders: "named_ok d \<Longrightarrow> named_ok (snd (SendOrders ag now rs d))"
  by (auto simp: SendOrders_def rejectCreates_def Let_def named_enterSending named_done intro!: named_fold split: option.split)

lemma named_amendOrder:
  assumes "named_ok d" and "numbered (o_publicID (d_heap d r))" and "amendOrder ag now r detail d = Inr (err, d')"
  shows "named_ok d'"
proof -
  have "named_ok d1 \<and> numbered (o_publicID (d_heap d1 r))" if "amendOrder_locked ag now r detail d = Inr (e, d1)" for e d1
    using that assms(1,2) named_heap [OF assms(1), of r]
    by (auto simp: amendOrder_locked_def Let_def bind_r_eq_Inr go_simps user_callbacks_def order_named_def intro!: named_on
        split: if_splits)
  with assms show ?thesis
    by (auto simp: amendOrder_def bind_r_eq_Inr named_users named_rejects split: if_splits option.splits)
qed

lemma named_registered:
  assumes "named_ok d" and "o_publicID (f (d_heap d r)) = o_publicID (d_heap d r)"
    and "o_status (f (d_heap d r)) = o_status (d_heap d r)" and "\<forall>cb \<in> user_callbacks (f (d_heap d r)) - user_callbacks (d_heap d r). \<not> is_deferred cb"
  shows "named_ok (on r f d)"
  using assms named_heap [OF assms(1), of r] by (intro named_on) (auto simp: order_named_def)

lemma named_AmendOrder:
  assumes "named_ok d" and "AmendOrder ag now r detail d = Inr (err, d')"
  shows "named_ok d'"
proof (cases "Flag_Get (d_acceptOrder d) \<and> GetStatus (ord d r) = OrderStatusPending")
  case True
  then have "numbered (o_publicID (d_heap d r))" using named_pending [OF assms(1)] by (simp add: GetStatus_def)
  with True assms named_amendOrder show ?thesis by (auto simp: AmendOrder_def Let_def)
next
  case False
  with assms show ?thesis
    by (auto simp: AmendOrder_def Let_def named_users go_simps user_callbacks_def intro!: named_registered
        split: OrderStatus.splits if_splits)
qed

lemma named_runDeferredCancel: "named_ok d \<Longrightarrow> named_ok (runDeferredCancel ag now r d)"
  using named_heap [of d r] named_pending [of d r]
  by (auto simp: runDeferredCancel_def cancelOrder_def Let_def go_simps user_callbacks_def order_named_def
      intro!: named_rejects named_on split: option.split)

lemma named_deferCancel: "named_ok d \<Longrightarrow> named_ok (deferCancel r d)"
  by (auto simp: deferCancel_def Let_def go_simps user_callbacks_def intro!: named_registered split: OrderStatus.split)

lemma named_CancelOrder: "named_ok d \<Longrightarrow> named_ok (snd (CancelOrder ag now r d))"
  by (simp add: CancelOrder_def named_runDeferredCancel named_deferCancel)


lemma id_deferCancel [simp]: "o_publicID (d_heap (deferCancel r d) q) = o_publicID (d_heap d q)"
  by (simp add: deferCancel_def Let_def go_simps split: OrderStatus.split)

lemma named_split:
  "splitCancelTargets rs d = (ts, d1) \<Longrightarrow> named_ok d \<Longrightarrow>
   named_ok d1 \<and> (\<forall>q. o_publicID (d_heap d1 q) = o_publicID (d_heap d q)) \<and> (\<forall>t \<in> set ts. o_status (d_heap d t) = OrderStatusPending)"
proof (induction rs d arbitrary: ts rule: splitCancelTargets.induct)
  case (2 r rs d)
  show ?case
  proof (cases "GetStatus (ord d r) = OrderStatusPending")
    case True
    with 2 obtain ts' where "splitCancelTargets rs d = (ts', d1)" "ts = r # ts'" by (auto split: prod.splits)
    with 2(1) [OF True] 2(4) True show ?thesis by (simp add: GetStatus_def)
  next
    case False
    with 2(2) [OF False] 2(3) named_deferCancel [OF 2(4), of r] show ?thesis by simp
  qed
qed simp

lemma named_enterCanceling:
  "named_ok d \<Longrightarrow> \<forall>r \<in> set ts. numbered (o_publicID (d_heap d r)) \<Longrightarrow>
   named_ok (fold (enterCanceling now) ts d) \<and> (\<forall>q. o_publicID (d_heap (fold (enterCanceling now) ts d) q) = o_publicID (d_heap d q))"
proof (induction ts arbitrary: d)
  case (Cons t ts)
  have id: "o_publicID (d_heap (enterCanceling now t d) q) = o_publicID (d_heap d q)" for q
    by (simp add: enterCanceling_def go_simps)
  have "named_ok (enterCanceling now t d)"
    using Cons.prems named_heap [OF Cons.prems(1), of t]
    by (auto simp: enterCanceling_def go_simps user_callbacks_def order_named_def intro!: named_on)
  from Cons.IH [OF this] Cons.prems id show ?case by simp
qed simp

lemma named_CancelOrders:
  assumes "named_ok d" and "ag \<noteq> None \<Longrightarrow> \<forall>r \<in> set orders. o_status (d_heap d r) = OrderStatusPending"
  shows "named_ok (snd (CancelOrders ag now ks orders d))"
proof -
  obtain ts d1 where t: "splitCancelTargets (Unique ks (d_heap d) orders) d = (ts, d1)" by fastforce
  note s = named_split [OF t assms(1)]
  have n: "numbered (o_publicID (d_heap d r))" if "o_status (d_heap d r) = OrderStatusPending" for r
    using named_pending [OF assms(1), of r] that by simp
  have c: "named_ok (fold (enterCanceling now) ts d1) \<and>
      (\<forall>q. o_publicID (d_heap (fold (enterCanceling now) ts d1) q) = o_publicID (d_heap d q))"
    using named_enterCanceling [of d1 ts now] s n by simp
  have "set (Unique ks (d_heap d) orders) \<subseteq> set orders"
    by (auto simp: Unique_def List.map_filter_def dest: unique_map_Some split: option.splits)
  with assms(2) n have "ag \<noteq> None \<Longrightarrow> \<forall>r \<in> set (Unique ks (d_heap d) orders). numbered (o_publicID (d_heap d r))" by blast
  then show ?thesis
    using s c by (cases "ts = []") (auto simp: CancelOrders_def t Let_def intro!: named_rejectCancels split: option.split)
qed

section \<open>Messages and new orders\<close>

lemma named_alloc:
  assumes "named_ok d" and "order_named o1"
  shows "named_ok (d\<lparr>d_heap := (d_heap d)(d_next d := o1), d_next := Suc (d_next d)\<rparr>)"
proof -
  have "(r, cb) \<in> set (d_spawned d) \<Longrightarrow> is_deferred cb \<Longrightarrow> r \<noteq> d_next d" for r cb
    using assms(1) numbered_nonempty by (fastforce simp: named_ok_def)
  with assms show ?thesis by (auto simp: named_ok_def)
qed

lemma named_zero: "order_named (zeroOrder\<lparr>o_publicID := p\<rparr> :: 'd :: linordered_idom Order)"
  by (simp add: order_named_def zeroOrder_def user_callbacks_def)

lemma named_confirm: "order_named o1 \<Longrightarrow> order_named (setConfirmTimestamps t u o1)"
  by (simp add: order_named_def user_callbacks_def go_simps Let_def)

lemma named_trackUnrelated: "named_ok d \<Longrightarrow> named_ok (trackUnrelated data d)"
  by (auto simp: trackUnrelated_def Let_def named_alloc named_zero named_confirm split: option.split)

lemma named_HandleOrderData: "named_ok d \<Longrightarrow> named_ok (HandleOrderData datas d)"
  unfolding HandleOrderData_def
  by (rule named_fold) (auto simp: handleOrderDatum_def Let_def named_trackUnrelated named_done named_info split: option.split)

lemma named_HandlePositionData: "named_ok d \<Longrightarrow> named_ok (HandlePositionData datas d)"
  by (auto simp: HandlePositionData_def named_ok_def Let_def split: sum.split)

lemma named_constructed: "constructed o1 \<Longrightarrow> order_named o1"
  unfolding constructed_def by (erule ssubst) (simp add: order_named_def user_callbacks_def zeroOrder_def)

lemma named_register: "named_ok d \<Longrightarrow> named_ok (on r (register g) d)"
  by (cases g) (auto intro!: named_registered simp: go_simps user_callbacks_def split: if_splits)

lemma named_runCallback:
  assumes "named_ok d" and "t \<in> set (d_spawned d)" and "runCallback ag now t (d\<lparr>d_spawned := drop_at (d_spawned d) i\<rparr>) = Inr d'"
  shows "named_ok d'"
proof -
  let ?d = "d\<lparr>d_spawned := drop_at (d_spawned d) i\<rparr>"
  have d: "named_ok ?d" using assms(1) set_drop_at [of "d_spawned d" i] by (fastforce simp: named_ok_def)
  obtain r cb where t: "t = (r, cb)" by fastforce
  have n: "is_deferred cb \<Longrightarrow> numbered (o_publicID (d_heap d r))" using assms(1,2) t by (fastforce simp: named_ok_def)
  show ?thesis
    using assms(3) d n
    by (cases cb) (auto simp: t runCallback_def runDeferredAmend_def Let_def bind_r_eq_Inr named_runDeferredCancel
        elim!: named_amendOrder [rotated 2])
qed

fun resp_ok :: "'d event \<Rightarrow> bool" where
  "resp_ok (EvSendResp resp err) = (err = None \<longrightarrow> resp_numbered resp)"
| "resp_ok (EvSendsResp ids resps err) = (err = None \<longrightarrow> (\<forall>i resp. resps i = Some (Some resp) \<longrightarrow> resp_numbered resp))"
| "resp_ok (EvAmendsResp ids resps err) = False"
| "resp_ok e = True"

lemma named_event:
  assumes "named_ok d" and "living_ok d" and "fresh_orders e" and "admissible e d" and "resp_ok e" and "exec_dealer e d = Inr d'"
  shows "named_ok d'"
proof (cases e)
  case (EvCallback ag now i)
  with assms(1,6) named_runCallback [OF assms(1), of "d_spawned d ! i" ag now i d'] show ?thesis by (auto split: if_splits)
next
  case (EvCancelOrders ag now ks rs)
  with assms named_CancelOrders [of d ag rs now ks] show ?thesis by (auto simp: GetStatus_def)
qed (use assms in \<open>auto simp: alloc_def named_alloc named_constructed named_register named_SendOrder named_SendOrders named_CancelOrder
    ExportDoneOrders_def named_handleCancelOrderResp named_HandleOrderData named_HandlePositionData
    SetPosUpdatedHandler_def bind_r_eq_Inr intro!: named_handleSendOrderResp dest: named_AmendOrder named_handleSendOrdersResp named_handleAmendOrderResp
    named_handleCancelOrdersResp\<close>)

end
