(* ===== verification/Dealer_Deferred.thy ===== *)
theory Dealer_Deferred
  imports Dealer_Stop
begin

text \<open>
  Operations on an order that is being sent or amended are deferred: several amendments
  retain the last one, and a cancellation replaces them. The theory also shows where the
  code departs from that: a deferred amendment stays registered and is sent again after a
  later amendment, and a refused batch cancellation revives finished orders.
\<close>

section \<open>Amending an order that is being sent\<close>

definition amend_call ::
  "oref \<Rightarrow> error option \<times> time \<times> 'd :: linordered_idom AmendDetail \<Rightarrow> 'd DealerImpl \<Rightarrow> 'd DealerImpl result" where
  "amend_call r c d = (case c of (ag, now, ad) \<Rightarrow> bind_r (AmendOrder ag now r ad d) (\<lambda>(_, d'). Inr d'))"

text \<open>A sending order with one deferred amendment, whose latest detail is \<open>ad\<close>.\<close>

definition deferred :: "oref \<Rightarrow> 'd AmendDetail \<Rightarrow> 'd AmendDetail \<Rightarrow> 'd DealerImpl \<Rightarrow> 'd DealerImpl" where
  "deferred r ad0 ad d =
     (on r (SetCreateCallback (DeferredAmend ad0)) d)
       \<lparr>d_amendingDetailMap := Map_Set (d_amendingDetailMap d) (o_id (d_heap d r)) ad\<rparr>"

lemma Map_Set_twice [simp]: "Map_Set (Map_Set m k v) k w = Map_Set m k w"
  by (simp add: Map_Set_def)

lemma amend_call_first:
  assumes "Flag_Get (d_acceptOrder d)" and "o_status (d_heap d r) = OrderStatusSending"
    and "Map_Get (d_amendingDetailMap d) (o_id (d_heap d r)) = None"
  shows "amend_call r (ag, now, ad) d = Inr (deferred r ad ad d)"
  using assms by (simp add: amend_call_def AmendOrder_def deferred_def ord_def go_simps on_def Let_def)

lemma amend_call_again:
  assumes "Flag_Get (d_acceptOrder d)" and "o_status (d_heap d r) = OrderStatusSending"
  shows "amend_call r (ag, now, ad) (deferred r ad0 ad1 d) = Inr (deferred r ad0 ad d)"
  using assms by (simp add: amend_call_def AmendOrder_def deferred_def ord_def go_simps on_def Let_def)

lemma amend_calls:
  assumes "Flag_Get (d_acceptOrder d)" and "o_status (d_heap d r) = OrderStatusSending"
    and "Map_Get (d_amendingDetailMap d) (o_id (d_heap d r)) = None" and "cs \<noteq> []"
  shows "foldM (amend_call r) cs d = Inr (deferred r (snd (snd (hd cs))) (snd (snd (last cs))) d)"
proof -
  have "foldM (amend_call r) cs (deferred r ad0 ad1 d) =
      Inr (deferred r ad0 (if cs = [] then ad1 else snd (snd (last cs))) d)" for ad0 ad1 cs
    by (induction cs arbitrary: ad1) (auto simp: amend_call_again [OF assms(1,2)])
  with assms(4) amend_call_first [OF assms(1-3)] show ?thesis
    by (cases cs) (auto split: prod.splits)
qed

lemma deferred_sel [simp]:
  "d_LivingOrders (deferred r ad0 ad d) = d_LivingOrders d" "d_requests (deferred r ad0 ad d) = d_requests d"
  "d_spawned (deferred r ad0 ad d) = d_spawned d"
  "d_heap (deferred r ad0 ad d) r = SetCreateCallback (DeferredAmend ad0) (d_heap d r)"
  "d_amendingDetailMap (deferred r ad0 ad d) = Map_Set (d_amendingDetailMap d) (o_id (d_heap d r)) ad"
  by (simp_all add: deferred_def on_def)

text \<open>The acceptance of a maker order.\<close>

lemma accept_sending:
  assumes "o_status (d_heap d r) = OrderStatusSending" and "Map_Get (d_LivingOrders d) (o_id (d_heap d r)) = Some r"
    and "IsMaker (o_orderType (d_heap d r))" and "cr_OrderID resp = o_id (d_heap d r)" and "cr_Err resp = None"
  shows "handleSendOrderResp resp None d =
    acceptCreate r (cr_PublicID resp) (cr_ArrivedAt resp) (cr_ConfirmedAt resp) d"
  using assms by (auto simp: handleSendOrderResp_def getSendingOrder_def ord_def go_simps IsMaker_def)

lemma acceptCreate_sel [simp]:
  "d_LivingOrders (acceptCreate r p t1 t2 d) = d_LivingOrders d"
  "d_requests (acceptCreate r p t1 t2 d) = d_requests d"
  "d_amendingDetailMap (acceptCreate r p t1 t2 d) = d_amendingDetailMap d"
  "d_spawned (acceptCreate r p t1 t2 d) = d_spawned d @ map (Pair r) (o_createCallbacks (d_heap d r))"
  "o_status (d_heap (acceptCreate r p t1 t2 d) r) = OrderStatusPending"
  "o_id (d_heap (acceptCreate r p t1 t2 d) r) = o_id (d_heap d r)"
  "o_price (d_heap (acceptCreate r p t1 t2 d) r) = o_price (d_heap d r)"
  "o_qty (d_heap (acceptCreate r p t1 t2 d) r) = o_qty (d_heap d r)"
  "o_amendCount (d_heap (acceptCreate r p t1 t2 d) r) = o_amendCount (d_heap d r)"
  by (simp_all add: acceptCreate_def dealer_defs go_simps Let_def)

text \<open>A deferred amendment that runs on a pending order.\<close>

lemma runDeferredAmend_pending:
  assumes "o_status (d_heap d r) = OrderStatusPending" and "Map_Get (d_LivingOrders d) (o_id (d_heap d r)) = Some r"
    and "o_amendCount (d_heap d r) < 9500"
    and "ad' = (case Map_Get (d_amendingDetailMap d) (o_id (d_heap d r)) of Some x \<Rightarrow> x | None \<Rightarrow> ad)"
    and "o_price (d_heap d r) \<noteq> ad_Price ad' \<or> o_qty (d_heap d r) \<noteq> ad_Qty ad'"
  shows "\<exists>d'. runDeferredAmend None now r ad d = Inr d' \<and> d_requests d' = d_requests d @ [ReqAmendOrder r ad'] \<and>
    GetStatus (ord d' r) = OrderStatusAmending \<and> GetAmendingDetail (ord d' r) = Some ad'"
  using assms
  by (simp add: runDeferredAmend_def amendOrder_def amendOrder_locked_def isNeedToAmend_def isAmendAble_def
      getOrder_def dealer_defs go_simps Let_def)

text \<open>
  C31. Several amendments of an order that is being sent retain only the last one: none is sent
  before the order is accepted; then exactly one callback is started for them, after those of
  the user, and it sends exactly one amend request, with the last detail, even though the
  callback captured the first one.
\<close>

theorem last_deferred_amend_wins:
  fixes d :: "'d :: linordered_idom DealerImpl"
  assumes "Flag_Get (d_acceptOrder d)" and "GetStatus (ord d r) = OrderStatusSending"
    and "getOrder (d_LivingOrders d) (GetID (ord d r)) = Some r" and "IsMaker (GetOrderType (ord d r))"
    and "Map_Get (d_amendingDetailMap d) (GetID (ord d r)) = None" and "o_amendCount (ord d r) < 9500"
    and "cs \<noteq> []" and "snd (snd (last cs)) = detail"
    and "GetPrice (ord d r) \<noteq> ad_Price detail \<or> GetQty (ord d r) \<noteq> ad_Qty detail"
    and "cr_OrderID resp = GetID (ord d r)" and "cr_Err resp = None"
  shows "\<exists>d1 d2 d3 first. foldM (amend_call r) cs d = Inr d1 \<and> d_requests d1 = d_requests d \<and>
    d2 = handleSendOrderResp resp None d1 \<and> d_requests d2 = d_requests d \<and>
    d_spawned d2 = d_spawned d @ map (Pair r) (o_createCallbacks (ord d r)) @ [(r, DeferredAmend first)] \<and>
    runCallback None now (r, DeferredAmend first) d2 = Inr d3 \<and>
    d_requests d3 = d_requests d @ [ReqAmendOrder r detail] \<and>
    GetStatus (ord d3 r) = OrderStatusAmending \<and> GetAmendingDetail (ord d3 r) = Some detail"
proof -
  let ?first = "snd (snd (hd cs))"
  let ?d1 = "deferred r ?first detail d"
  let ?d2 = "acceptCreate r (cr_PublicID resp) (cr_ArrivedAt resp) (cr_ConfirmedAt resp) ?d1"
  have 1: "foldM (amend_call r) cs d = Inr ?d1"
    using amend_calls [of d r cs] assms(1-8) by (simp add: ord_def go_simps)
  have taker: "\<not> IsTaker (o_orderType (d_heap d r))"
    using assms(4) by (auto simp: ord_def go_simps IsMaker_def IsTaker_def)
  have 2: "handleSendOrderResp resp None ?d1 = ?d2"
    by (rule accept_sending) (use assms in \<open>auto simp: ord_def go_simps getOrder_def\<close>)
  have "\<exists>d3. runDeferredAmend None now r ?first ?d2 = Inr d3 \<and>
      d_requests d3 = d_requests ?d2 @ [ReqAmendOrder r detail] \<and>
      GetStatus (ord d3 r) = OrderStatusAmending \<and> GetAmendingDetail (ord d3 r) = Some detail"
    by (rule runDeferredAmend_pending) (use assms in \<open>auto simp: ord_def go_simps getOrder_def\<close>)
  then obtain d3 where 3: "runDeferredAmend None now r ?first ?d2 = Inr d3"
      "d_requests d3 = d_requests ?d2 @ [ReqAmendOrder r detail]"
      "GetStatus (ord d3 r) = OrderStatusAmending" "GetAmendingDetail (ord d3 r) = Some detail" by blast
  from 1 2 3 taker show ?thesis
    by (intro exI [of _ ?d1] exI [of _ ?d2] exI [of _ d3] exI [of _ ?first])
      (simp add: runCallback_def ord_def [of d] SetCreateCallback_def GetOrderType_def)
qed

theorem last_deferred_amend_wins_witness:
  "\<exists>d1 d2 d3 first. foldM (amend_call 0)
       [(None, 6, \<lparr>ad_Price = 101, ad_Qty = 1\<rparr>), (None, 7, \<lparr>ad_Price = 102, ad_Qty = 2\<rparr>)] (k_dealer (after 2)) = Inr d1 \<and>
     d2 = handleSendOrderResp \<lparr>cr_OrderID = ''a'', cr_PublicID = ''p'', cr_ArrivedAt = None,
            cr_ConfirmedAt = None, cr_Err = None\<rparr> None d1 \<and>
     runCallback None 9 (0, DeferredAmend first) d2 = Inr d3 \<and>
     d_requests d3 = d_requests (k_dealer (after 2)) @ [ReqAmendOrder 0 \<lparr>ad_Price = 102, ad_Qty = 2\<rparr>]"
proof -
  have d: "Flag_Get (d_acceptOrder (k_dealer (after 2)))" "GetStatus (ord (k_dealer (after 2)) 0) = OrderStatusSending"
    "GetID (ord (k_dealer (after 2)) 0) = ''a''" "getOrder (d_LivingOrders (k_dealer (after 2))) ''a'' = Some 0"
    "IsMaker (GetOrderType (ord (k_dealer (after 2)) 0))" "Map_Get (d_amendingDetailMap (k_dealer (after 2))) ''a'' = None"
    "o_amendCount (ord (k_dealer (after 2)) 0) = 0" "GetPrice (ord (k_dealer (after 2)) 0) = 100"
    by code_simp+
  show ?thesis
    using last_deferred_amend_wins [of "k_dealer (after 2)" 0
        "[(None, 6, \<lparr>ad_Price = 101, ad_Qty = 1\<rparr>), (None, 7, \<lparr>ad_Price = 102, ad_Qty = 2\<rparr>)]"
        "\<lparr>ad_Price = 102, ad_Qty = 2\<rparr>"
        "\<lparr>cr_OrderID = ''a'', cr_PublicID = ''p'', cr_ArrivedAt = None, cr_ConfirmedAt = None, cr_Err = None\<rparr>" 9] d
    by (simp del: foldM.simps) blast
qed

section \<open>Cancelling an order that is being sent or amended\<close>

lemma acceptAmend_sel:
  "acceptAmend r (Some ad) t1 t2 d = Inr d' \<Longrightarrow>
     d_spawned d' = d_spawned d @ map (Pair r) (o_amendCallbacks (d_heap d r)) \<and>
     o_status (d_heap d' r) = OrderStatusPending \<and> d_requests d' = d_requests d"
  by (auto simp: acceptAmend_def amend_def dealer_defs go_simps Let_def)

lemma runDeferredCancel_pending:
  "o_status (d_heap d r) = OrderStatusPending \<Longrightarrow>
     d_requests (runDeferredCancel None now r d) = d_requests d @ [ReqCancelOrder r] \<and>
     GetStatus (ord (runDeferredCancel None now r d) r) = OrderStatusCanceling"
  by (simp add: runDeferredCancel_def cancelOrder_def dealer_defs go_simps Let_def)

text \<open>
  C32. Cancelling an order that is being sent or amended overwrites whatever was deferred: no
  request is made at once; when the operation in flight succeeds, the only callback started for
  it is the cancellation, whatever amendments were deferred before, and it sends one cancel
  request.
\<close>

theorem deferred_cancel_overrides_amend:
  fixes d :: "'d :: linordered_idom DealerImpl"
  assumes "getOrder (d_LivingOrders d) (GetID (ord d r)) = Some r" and "IsMaker (GetOrderType (ord d r))"
    and "d1 = snd (CancelOrder ag now r d)"
    and "GetStatus (ord d r) = OrderStatusSending \<and> cr_OrderID cresp = GetID (ord d r) \<and> cr_Err cresp = None \<and>
           d2 = handleSendOrderResp cresp None d1 \<or>
         GetStatus (ord d r) = OrderStatusAmending \<and> ar_OrderID aresp = GetID (ord d r) \<and> ar_Err aresp = None \<and>
           ar_Detail aresp = Some ad \<and> handleAmendOrderResp aresp None d1 = Inr d2"
  shows "d_requests d2 = d_requests d \<and> d_spawned d2 = d_spawned d @ [(r, DeferredCancel)] \<and>
    Map_Get (d_amendingDetailMap d1) (GetID (ord d r)) = None \<and>
    (\<exists>d3. runCallback None now (r, DeferredCancel) d2 = Inr d3 \<and>
       d_requests d3 = d_requests d @ [ReqCancelOrder r] \<and> GetStatus (ord d3 r) = OrderStatusCanceling)"
  using assms(4)
proof
  assume s: "GetStatus (ord d r) = OrderStatusSending \<and> cr_OrderID cresp = GetID (ord d r) \<and> cr_Err cresp = None \<and>
           d2 = handleSendOrderResp cresp None d1"
  have d1: "o_status (d_heap d1 r) = OrderStatusSending" "d_LivingOrders d1 = d_LivingOrders d"
    "o_id (d_heap d1 r) = o_id (d_heap d r)" "o_orderType (d_heap d1 r) = o_orderType (d_heap d r)"
    "d_requests d1 = d_requests d" "d_spawned d1 = d_spawned d" "o_createCallbacks (d_heap d1 r) = [DeferredCancel]"
    "Map_Get (d_amendingDetailMap d1) (o_id (d_heap d r)) = None"
    using s assms(3) by (simp_all add: CancelOrder_def deferCancel_def dealer_defs go_simps Let_def)
  have "handleSendOrderResp cresp None d1 =
      acceptCreate r (cr_PublicID cresp) (cr_ArrivedAt cresp) (cr_ConfirmedAt cresp) d1"
    by (rule accept_sending) (use s d1 assms(1,2) in \<open>auto simp: ord_def go_simps getOrder_def\<close>)
  with s d1 runDeferredCancel_pending [of d2 r now] show ?thesis
    by (simp add: runCallback_def ord_def [of d] GetID_def)
next
  assume s: "GetStatus (ord d r) = OrderStatusAmending \<and> ar_OrderID aresp = GetID (ord d r) \<and> ar_Err aresp = None \<and>
           ar_Detail aresp = Some ad \<and> handleAmendOrderResp aresp None d1 = Inr d2"
  have d1: "o_status (d_heap d1 r) = OrderStatusAmending" "d_LivingOrders d1 = d_LivingOrders d"
    "d_requests d1 = d_requests d" "d_spawned d1 = d_spawned d" "o_amendCallbacks (d_heap d1 r) = [DeferredCancel]"
    "Map_Get (d_amendingDetailMap d1) (o_id (d_heap d r)) = None"
    using s assms(3) by (simp_all add: CancelOrder_def deferCancel_def dealer_defs go_simps Let_def)
  then have "acceptAmend r (Some ad) (ar_ArrivedAt aresp) (ar_ConfirmedAt aresp) d1 = Inr d2"
    using s assms(1) by (auto simp: handleAmendOrderResp_def getAmendingOrder_def ord_def go_simps getOrder_def)
  from acceptAmend_sel [OF this] s d1 runDeferredCancel_pending [of d2 r now] show ?thesis
    by (simp add: runCallback_def ord_def [of d] GetID_def)
qed

theorem deferred_cancel_overrides_amend_witness:
  "\<exists>d2. handleAmendOrderResp \<lparr>ar_OrderID = ''a'', ar_Detail = Some \<lparr>ad_Price = 101, ad_Qty = 1\<rparr>, ar_ArrivedAt = None,
       ar_ConfirmedAt = None, ar_Err = None\<rparr> None (snd (CancelOrder None 8 0 (k_dealer (after 4)))) = Inr d2 \<and>
     d_spawned d2 = d_spawned (k_dealer (after 4)) @ [(0, DeferredCancel)]"
proof -
  let ?r = "\<lparr>ar_OrderID = ''a'', ar_Detail = Some \<lparr>ad_Price = 101 :: int, ad_Qty = 1\<rparr>, ar_ArrivedAt = None,
       ar_ConfirmedAt = None, ar_Err = None\<rparr>"
  let ?d1 = "snd (CancelOrder None 8 0 (k_dealer (after 4)))"
  have "\<not> isl (handleAmendOrderResp ?r None ?d1)" by code_simp
  then obtain d2 where d2: "handleAmendOrderResp ?r None ?d1 = Inr d2"
    by (cases "handleAmendOrderResp ?r None ?d1") auto
  have d: "GetID (ord (k_dealer (after 4)) 0) = ''a''" "getOrder (d_LivingOrders (k_dealer (after 4))) ''a'' = Some 0"
    "IsMaker (GetOrderType (ord (k_dealer (after 4)) 0))" "GetStatus (ord (k_dealer (after 4)) 0) = OrderStatusAmending"
    by code_simp+
  have "d_spawned d2 = d_spawned (k_dealer (after 4)) @ [(0, DeferredCancel)]"
    using deferred_cancel_overrides_amend [of "k_dealer (after 4)" 0 ?d1 None 8 undefined d2 ?r "\<lparr>ad_Price = 101, ad_Qty = 1\<rparr>"]
      d d2 by simp
  with d2 show ?thesis by blast
qed

section \<open>Departures from the intended behaviour\<close>

text \<open>
  A deferred amendment stays in \<open>amendCallbacks\<close> after it has run, with the detail it
  captured. On the run below the strategy asks for 101, then (while 101 is in flight) for 102,
  and finally for 103; after 103 is confirmed the old callback runs once more and the dealer
  moves the order back to 102, which nobody asked for after 103.
\<close>

theorem stale_deferred_amend_is_resent:
  "(case run_events
      [EvAmendOrder None 8 0 \<lparr>ad_Price = 102, ad_Qty = 1\<rparr>,
       EvAmendResp \<lparr>ar_OrderID = ''a'', ar_Detail = Some \<lparr>ad_Price = 101, ad_Qty = 1\<rparr>, ar_ArrivedAt = None,
         ar_ConfirmedAt = None, ar_Err = None\<rparr> None,
       EvCallback None 9 0,
       EvAmendResp \<lparr>ar_OrderID = ''a'', ar_Detail = Some \<lparr>ad_Price = 102, ad_Qty = 1\<rparr>, ar_ArrivedAt = None,
         ar_ConfirmedAt = None, ar_Err = None\<rparr> None,
       EvCallback None 10 0,
       EvAmendOrder None 11 0 \<lparr>ad_Price = 103, ad_Qty = 1\<rparr>,
       EvAmendResp \<lparr>ar_OrderID = ''a'', ar_Detail = Some \<lparr>ad_Price = 103, ad_Qty = 1\<rparr>, ar_ArrivedAt = None,
         ar_ConfirmedAt = None, ar_Err = None\<rparr> None,
       EvCallback None 12 0] (after 4) of
     Inl _ \<Rightarrow> False
   | Inr k \<Rightarrow>
       d_requests (k_dealer k) =
         [ReqSendOrder 0, ReqAmendOrder 0 \<lparr>ad_Price = 101, ad_Qty = 1\<rparr>,
          ReqAmendOrder 0 \<lparr>ad_Price = 102, ad_Qty = 1\<rparr>, ReqAmendOrder 0 \<lparr>ad_Price = 103, ad_Qty = 1\<rparr>,
          ReqAmendOrder 0 \<lparr>ad_Price = 102, ad_Qty = 1\<rparr>] \<and>
       GetPrice (ord (k_dealer k) 0) = 103 \<and> GetStatus (ord (k_dealer k) 0) = OrderStatusAmending)"
  by code_simp

lemma rejectCancel_sel [simp]:
  "o_status (d_heap (rejectCancel r d) q) = (if q = r then OrderStatusPending else o_status (d_heap d q))"
  "d_LivingOrders (rejectCancel r d) = d_LivingOrders d"
  by (simp_all add: rejectCancel_def dealer_defs go_simps Let_def)

lemma rejectCancels_status:
  "r \<in> set rs \<Longrightarrow> o_status (d_heap (rejectCancels rs d) r) = OrderStatusPending"
  unfolding rejectCancels_def by (induction rs rule: rev_induct) auto

lemma CancelOrders_living:
  "d_LivingOrders (snd (CancelOrders ag now ks orders d)) = d_LivingOrders d"
proof -
  have a: "d_LivingOrders (deferCancel r d) = d_LivingOrders d" for r and d :: "'d DealerImpl"
    by (simp add: deferCancel_def dealer_defs Let_def split: OrderStatus.split)
  have b: "splitCancelTargets rs d = (ts, d1) \<Longrightarrow> d_LivingOrders d1 = d_LivingOrders d" for rs ts and d d1 :: "'d DealerImpl"
    by (induction rs d arbitrary: ts rule: splitCancelTargets.induct) (auto simp: a split: if_splits prod.splits)
  have c: "d_LivingOrders (fold (enterCanceling now) rs d) = d_LivingOrders d" for rs and d :: "'d DealerImpl"
    by (induction rs arbitrary: d) (auto simp: enterCanceling_def on_def)
  have e: "d_LivingOrders (rejectCancels rs d) = d_LivingOrders d" for rs and d :: "'d DealerImpl"
    unfolding rejectCancels_def by (induction rs arbitrary: d) auto
  show ?thesis by (auto simp: CancelOrders_def b c e request_def Let_def split: prod.split option.split)
qed

text \<open>
  When the agent refuses a batch cancellation at once (the Bybit agent always does), every
  order of the batch becomes pending, not only those whose cancel was requested: an order that
  is already done is revived, without coming back to \<open>LivingOrders\<close>.
\<close>

theorem refused_batch_cancel_revives_done_orders:
  assumes "r \<in> set (Unique ks (d_heap d) orders)" and "GetStatus (ord d r) = OrderStatusDone"
    and "q \<in> set (Unique ks (d_heap d) orders)" and "GetStatus (ord d q) = OrderStatusPending"
  shows "GetStatus (ord (snd (CancelOrders (Some e) now ks orders d)) r) = OrderStatusPending \<and>
    d_LivingOrders (snd (CancelOrders (Some e) now ks orders d)) = d_LivingOrders d"
proof -
  obtain ts d1 where split: "splitCancelTargets (Unique ks (d_heap d) orders) d = (ts, d1)" by fastforce
  with splitCancelTargets_sound [OF split, of "[]"] assms(3,4) have "ts \<noteq> []"
    by (auto simp: ord_def GetStatus_def filter_empty_conv)
  with split rejectCancels_status [OF assms(1)] show ?thesis
    by (simp add: CancelOrders_living) (simp add: CancelOrders_def ord_def GetStatus_def)
qed

definition two_orders :: "int DealerImpl" where
  "two_orders = (freshDealer 0 ((\<lambda>_. zeroOrder)
     (0 := (NewLimitOrder ''a'' 1 1 SideBuy False [])\<lparr>o_status := OrderStatusDone\<rparr>,
      1 := (NewLimitOrder ''b'' 1 1 SideBuy False [])\<lparr>o_status := OrderStatusPending\<rparr>)) 2)
     \<lparr>d_LivingOrders := Map_Set (NewMap None) ''b'' 1\<rparr>"

theorem refused_batch_cancel_revives_done_orders_witness:
  "GetStatus (ord (snd (CancelOrders (Some (Message ''not supported'')) 3 [''a'', ''b''] [0, 1] two_orders)) 0) =
     OrderStatusPending"
proof -
  have "Unique [''a'', ''b''] (d_heap two_orders) [0, 1] = [0, 1]" "GetStatus (ord two_orders 0) = OrderStatusDone"
    "GetStatus (ord two_orders 1) = OrderStatusPending" by code_simp+
  then show ?thesis using refused_batch_cancel_revives_done_orders [of 0 "[''a'', ''b'']" two_orders "[0, 1]" 1] by simp
qed

end
