(* ===== verification/Dealer_Api.thy ===== *)
theory Dealer_Api
  imports Dealer_Correct
begin

text \<open>
  The interface \<open>Dealer\<close> of \<open>deals/providers.go\<close> and the functions of the package with which strategies use it
  (\<open>SendOrder\<close>, \<open>SendOrders\<close>, \<open>AmendOrder\<close>, \<open>CancelOrder\<close>, \<open>CancelOrders\<close> of \<open>dealer.go\<close>). The interface is the record of
  its methods over the state of what implements it; \<open>dealer_impl\<close> is \<open>DealerImpl\<close> as a value of it, for the answer of
  its agent, the clock and the order in which a map is visited. The functions call the method of the dealer
  and log the error it answers; an amendment or a cancellation of a nil order is caught before. The log is a
  list of the messages with their errors, \<open>None\<close> where the message is about the nil order.
\<close>

record ('s, 'd) Dealer =
  dl_GetSymbol :: "'s \<Rightarrow> 'd Symbol"
  dl_GetLivingOrders :: "'s \<Rightarrow> (string, oref) Map"
  dl_GetUnrelatedOrders :: "'s \<Rightarrow> (string, oref) Map"
  dl_GetCurrentPosition :: "'s \<Rightarrow> 'd Position"
  dl_SendOrder :: "oref \<Rightarrow> 's \<Rightarrow> error option \<times> 's"
  dl_SendOrders :: "oref list \<Rightarrow> 's \<Rightarrow> error option \<times> 's"
  dl_AmendOrder :: "oref \<Rightarrow> 'd AmendDetail \<Rightarrow> 's \<Rightarrow> (error option \<times> 's) result"
  dl_AmendOrders :: "(oref \<times> 'd AmendDetail) list \<Rightarrow> 's \<Rightarrow> error option \<times> 's"
  dl_CancelOrder :: "oref \<Rightarrow> 's \<Rightarrow> error option \<times> 's"
  dl_CancelOrders :: "oref list \<Rightarrow> 's \<Rightarrow> error option \<times> 's"
  dl_ExportDoneOrders :: "'s \<Rightarrow> oref Slice \<times> 's"
  dl_SetPosUpdatedHandler :: "nat \<Rightarrow> 's \<Rightarrow> 's"

definition dealer_impl ::
  "'d Symbol \<Rightarrow> error option \<Rightarrow> time \<Rightarrow> string list \<Rightarrow> ('d :: linordered_idom DealerImpl, 'd) Dealer" where
  "dealer_impl sy ag now ks =
     \<lparr>dl_GetSymbol = (\<lambda>d. sy), dl_GetLivingOrders = d_LivingOrders, dl_GetUnrelatedOrders = d_UnrelatedOrders,
      dl_GetCurrentPosition = d_CurrentPosition, dl_SendOrder = SendOrder ag now, dl_SendOrders = SendOrders ag now,
      dl_AmendOrder = AmendOrder ag now, dl_AmendOrders = (\<lambda>details. AmendOrders), dl_CancelOrder = CancelOrder ag now,
      dl_CancelOrders = CancelOrders ag now ks, dl_ExportDoneOrders = ExportDoneOrders,
      dl_SetPosUpdatedHandler = SetPosUpdatedHandler\<rparr>"

type_synonym api_log = "(string \<times> error option) list"

definition api_report :: "string \<Rightarrow> error option \<times> 's \<Rightarrow> api_log \<Rightarrow> 's \<times> api_log" where
  "api_report msg res l = (case res of (err, d) \<Rightarrow> (d, if err \<noteq> None then l @ [(msg, err)] else l))"

definition api_SendOrder :: "('s, 'd) Dealer \<Rightarrow> oref \<Rightarrow> 's \<times> api_log \<Rightarrow> 's \<times> api_log" where
  "api_SendOrder dealer r s = (case s of (d, l) \<Rightarrow> api_report ''failed to send order'' (dl_SendOrder dealer r d) l)"

definition api_SendOrders :: "('s, 'd) Dealer \<Rightarrow> oref list \<Rightarrow> 's \<times> api_log \<Rightarrow> 's \<times> api_log" where
  "api_SendOrders dealer rs s = (case s of (d, l) \<Rightarrow> api_report ''failed to send orders'' (dl_SendOrders dealer rs d) l)"

definition api_AmendOrder ::
  "('s, 'd) Dealer \<Rightarrow> oref option \<Rightarrow> 'd AmendDetail \<Rightarrow> 's \<times> api_log \<Rightarrow> ('s \<times> api_log) result" where
  "api_AmendOrder dealer order detail s = (case s of (d, l) \<Rightarrow>
     (case order of
        None \<Rightarrow> Inr (d, l @ [(''failed to amend order'', None)])
      | Some r \<Rightarrow> bind_r (dl_AmendOrder dealer r detail d) (\<lambda>res. Inr (api_report ''failed to amend order'' res l))))"

definition api_CancelOrder :: "('s, 'd) Dealer \<Rightarrow> oref option \<Rightarrow> 's \<times> api_log \<Rightarrow> 's \<times> api_log" where
  "api_CancelOrder dealer order s = (case s of (d, l) \<Rightarrow>
     (case order of
        None \<Rightarrow> (d, l)
      | Some r \<Rightarrow> api_report ''failed to cancel order'' (dl_CancelOrder dealer r d) l))"

definition api_CancelOrders :: "('s, 'd) Dealer \<Rightarrow> oref list \<Rightarrow> 's \<times> api_log \<Rightarrow> 's \<times> api_log" where
  "api_CancelOrders dealer orders s = (case s of (d, l) \<Rightarrow>
     (if length orders = 0 then (d, l)
      else api_report ''failed to cancel orders'' (dl_CancelOrders dealer orders d) l))"

lemmas api_defs = dealer_impl_def api_report_def api_SendOrder_def api_SendOrders_def api_AmendOrder_def api_CancelOrder_def
  api_CancelOrders_def

text \<open>The method \<open>CancelOrders\<close> drops the error of the agent.\<close>

lemma CancelOrders_no_error: "fst (CancelOrders ag now ks orders d) = None"
  by (auto simp: CancelOrders_def Let_def split: prod.split option.split)

text \<open>
  The functions of the package leave the dealer as the methods do, so whatever holds of the methods holds
  of them; they log exactly when a method answers an error. A nil order never reaches the dealer. The
  cancelling functions never log anything: when the agent refuses a cancellation neither they nor the
  methods report it, and the orders just go back to pending.
\<close>

theorem package_functions_report_all_but_cancellations:
  "let D = dealer_impl sy ag now ks in
   fst (api_SendOrder D r (d, l)) = snd (SendOrder ag now r d) \<and>
   (snd (api_SendOrder D r (d, l)) = l \<longleftrightarrow> fst (SendOrder ag now r d) = None) \<and>
   fst (api_SendOrders D rs (d, l)) = snd (SendOrders ag now rs d) \<and>
   (snd (api_SendOrders D rs (d, l)) = l \<longleftrightarrow> fst (SendOrders ag now rs d) = None) \<and>
   (\<exists>s. api_AmendOrder D None detail (d, l) = Inr s \<and> fst s = d \<and> snd s \<noteq> l) \<and>
   bind_r (api_AmendOrder D (Some r) detail (d, l)) (\<lambda>s. Inr (fst s)) =
     bind_r (AmendOrder ag now r detail d) (\<lambda>(_, d'). Inr d') \<and>
   fst (api_CancelOrder D (Some r) (d, l)) = snd (CancelOrder ag now r d) \<and>
   fst (api_CancelOrder D None (d, l)) = d \<and> snd (api_CancelOrder D order (d, l)) = l \<and>
   fst (api_CancelOrders D rs (d, l)) = (if rs = [] then d else snd (CancelOrders ag now ks rs d)) \<and>
   snd (api_CancelOrders D rs (d, l)) = l"
  using CancelOrders_no_error [of ag now ks rs d]
  by (cases "AmendOrder ag now r detail d")
    (auto simp: Let_def api_defs CancelOrder_def case_prod_beta split: option.split)

end
