(* ===== verification/Trading_Names.thy ===== *)
theory Trading_Names
  imports Trading_Ids Dealer_Deferred Dealer_Api
begin

text \<open>
  What the numbers of CoinEx are good for: the decoders of its responses yield 64-bit numbers, so that
  every order a desk holds at CoinEx can be cancelled and amended by its number. On Bybit, whose agent has
  no batch requests, a batch never reaches the exchange.
\<close>

section \<open>Decoded numbers\<close>

lemma ParseInt_int64: "ParseInt s = Some n \<Longrightarrow> int64 n"
  by (auto simp: ParseInt_def int64_def Let_def split: prod.splits option.splits if_splits)

lemma dec_int_int64: "dec_int j x = Some y \<Longrightarrow> int64 x \<Longrightarrow> int64 y"
  by (auto simp: dec_int_def dest: ParseInt_int64 split: json.splits)

lemma dec_struct_inv:
  assumes "dec_struct fs j r = Some r'" and "P r" and "\<And>k d j x y. (k, d) \<in> set fs \<Longrightarrow> d j x = Some y \<Longrightarrow> P x \<Longrightarrow> P y"
  shows "P r'"
proof -
  have "dec_members fs ms r = Some r' \<Longrightarrow> P r \<Longrightarrow> P r'" for ms r
  proof (induction ms arbitrary: r)
    case (Cons m ms)
    obtain k v where m: "m = (k, v)" by fastforce
    show ?case
    proof (cases "find_field fs k")
      case None
      with Cons show ?thesis by (simp add: m)
    next
      case (Some d)
      have "\<exists>k'. (k', d) \<in> set fs"
        using Some by (auto simp: find_field_def find_Some_iff dest: map_of_SomeD split: option.splits) (metis nth_mem)
      with Cons Some assms(3) show ?thesis by (auto simp: m split: option.splits)
    qed
  qed simp
  with assms(1,2) show ?thesis by (auto simp: dec_struct_def split: json.splits)
qed

definition data64 :: "cx_OrderRespBody \<Rightarrow> bool" where
  "data64 b \<longleftrightarrow> (\<forall>data. rb_Data b = Some data \<longrightarrow> int64 (rd_PublicOrderID data))"

lemma OrderRespData_int64:
  assumes "cx_OrderRespData_dec j x = Some y" and "int64 (rd_PublicOrderID x)"
  shows "int64 (rd_PublicOrderID y)"
  using assms(1) unfolding cx_OrderRespData_dec_def
  by (rule dec_struct_inv [where P = "\<lambda>x. int64 (rd_PublicOrderID x)"])
    (use assms(2) dec_int_int64 in \<open>auto simp: on_field_def\<close>)

lemma OrderRespBody_data64:
  assumes "cx_OrderRespBody_dec j x = Some y" and "data64 x"
  shows "data64 y"
  using assms(1) unfolding cx_OrderRespBody_dec_def
proof (rule dec_struct_inv [where P = data64])
  have z: "int64 0" by (simp add: int64_def)
  show "data64 b'" if "(k, d) \<in> set [(''code'', on_field rb_Base rb_Base_update (on_field cx_Code cx_Code_update dec_int)),
      (''message'', on_field rb_Base rb_Base_update (on_field cx_Msg cx_Msg_update dec_string)),
      (''data'', on_field rb_Data rb_Data_update
         (dec_ptr \<lparr>rd_PublicOrderID = 0, rd_ClientID = [], rd_UpdatedAt = 0\<rparr> cx_OrderRespData_dec))]"
    "d j b = Some b'" "data64 b" for k d j b b'
    using that z OrderRespData_int64
    by (auto simp: on_field_def data64_def dec_ptr_def split: json.splits option.splits)
qed (use assms(2) in simp_all)

lemma OrdersRespBody_data64:
  assumes "cx_OrdersRespBody_UnmarshalJSON j cx_OrdersRespBody_zero = Inr (Inr b)"
  shows "\<forall>x \<in> set (rs_Data b). data64 x"
proof -
  have z: "data64 cx_OrderRespBody_zero" by (simp add: data64_def cx_OrderRespBody_zero_def)
  have "those (map (\<lambda>j. cx_OrderRespBody_dec j cx_OrderRespBody_zero) js) = Some xs \<Longrightarrow> \<forall>x \<in> set xs. data64 x" for js xs
    by (induction js arbitrary: xs) (auto split: option.splits dest: OrderRespBody_data64 [OF _ z])
  with assms show ?thesis
    by (auto simp: cx_OrdersRespBody_UnmarshalJSON_def dec_list_def Let_def split: if_splits option.splits json.splits)
qed

section \<open>The responses of CoinEx have numbers\<close>

lemma accepted_numbered: "int64 (rd_PublicOrderID data) \<Longrightarrow> resp_numbered (cx_accepted data t r)"
  by (auto simp: resp_numbered_def numbered_def int64_def cx_accepted_def)

lemma outcome_single:
  assumes "http_outcome (cx_readOrderRespBody parse) res = Inr (Body b)"
  shows "data64 b"
proof -
  have z: "data64 cx_OrderRespBody_zero" by (simp add: data64_def cx_OrderRespBody_zero_def)
  from assms show ?thesis
    by (auto simp: http_outcome_def cx_readOrderRespBody_def Unmarshal_def bind_r_eq_Inr
        dest: OrderRespBody_data64 [OF _ z] split: sum.splits if_splits option.splits)
qed

lemma outcome_batch:
  assumes "http_outcome (cx_readOrdersRespBody parse) res = Inr (Body b)"
  shows "\<forall>x \<in> set (rs_Data b). data64 x"
proof -
  from assms obtain resp where "res = Inr resp"
    and "bind_r (cx_readOrdersRespBody parse (rp_Body resp)) (\<lambda>(raw, r).
      Inr (case r of Inl e \<Rightarrow> BadBody raw (error_text e) | Inr b \<Rightarrow> Body b)) = Inr (Body b)"
    by (auto simp: http_outcome_def split: sum.splits if_splits)
  then obtain raw x where x: "cx_readOrdersRespBody parse (rp_Body resp) = Inr (raw, x)"
    "(case x of Inl e \<Rightarrow> BadBody raw (error_text e) | Inr b \<Rightarrow> Body b) = Body b"
    unfolding bind_r_eq_Inr by (metis (no_types, lifting) case_prod_conv old.sum.inject(2) surj_pair)
  then have "cx_readOrdersRespBody parse (rp_Body resp) = Inr (raw, Inr b)" by (cases x) auto
  then obtain j where "cx_OrdersRespBody_UnmarshalJSON j cx_OrdersRespBody_zero = Inr (Inr b)"
    by (auto simp: cx_readOrdersRespBody_def bind_r_eq_Inr split: sum.splits option.splits)
  then show ?thesis by (rule OrdersRespBody_data64)
qed

lemma SendOrder_numbered:
  assumes "cx_SendOrder_run parse i t res = Inr (resp, None)"
  shows "resp_numbered resp"
proof -
  from assms obtain out where out: "http_outcome (cx_readOrderRespBody parse) res = Inr out"
    "cx_SendOrder_answer i t out = Inr (resp, None)" by (auto simp: cx_SendOrder_run_def bind_r_eq_Inr)
  from out(2) obtain b where b: "out = Body b"
    by (auto simp: cx_SendOrder_answer_def http_error_def Let_def split: http_result.splits)
  with out outcome_single [of parse res b] accepted_numbered show ?thesis
    by (auto simp: cx_SendOrder_answer_def Let_def data64_def resp_numbered_def [of "_\<lparr>cr_Err := _\<rparr>"] split: if_splits option.splits)
qed

lemma turns_numbered:
  assumes "foldM (cx_create_turn t datas) xs m = Inr m'" and "\<forall>x \<in> set datas. data64 x"
    and "\<forall>i resp. m i = Some (Some resp) \<longrightarrow> resp_numbered resp"
  shows "\<forall>i resp. m' i = Some (Some resp) \<longrightarrow> resp_numbered resp"
  using assms(1,3)
proof (induction xs arbitrary: m)
  case (Cons x xs)
  then obtain m1 where x: "cx_create_turn t datas x m = Inr m1" and xs: "foldM (cx_create_turn t datas) xs m1 = Inr m'"
    by (auto simp: bind_r_eq_Inr)
  have d: "n < length datas \<Longrightarrow> data64 (datas ! n)" for n using assms(2) by simp
  have "\<forall>i resp. m1 i = Some (Some resp) \<longrightarrow> resp_numbered resp"
    using x Cons.prems(2) d accepted_numbered
    by (auto simp: cx_create_turn_def Let_def data64_def resp_numbered_def [of "_\<lparr>cr_Err := _\<rparr>"] not_le
        split: prod.splits if_splits option.splits)
  from Cons.IH [OF xs this] show ?case .
qed simp

lemma SendOrders_numbered:
  assumes "cx_SendOrders_run parse is t res = Inr (resps, None)"
  shows "\<forall>i resp. resps i = Some (Some resp) \<longrightarrow> resp_numbered resp"
proof -
  from assms obtain out where out: "http_outcome (cx_readOrdersRespBody parse) res = Inr out"
    "cx_SendOrders_answer is t out = Inr (resps, None)" by (auto simp: cx_SendOrders_run_def bind_r_eq_Inr)
  from out(2) obtain b where b: "out = Body b"
    by (auto simp: cx_SendOrders_answer_def http_error_def Let_def split: http_result.splits)
  with out(2) have "foldM (cx_create_turn t (rs_Data b)) (enumerate 0 is) (fold (\<lambda>i m. m(i \<mapsto> None)) is Map.empty) = Inr resps"
    by (auto simp: cx_SendOrders_answer_def Let_def bind_r_eq_Inr split: if_splits)
  then show ?thesis
  proof (rule turns_numbered)
    show "\<forall>x \<in> set (rs_Data b). data64 x" using outcome_batch [of parse res b] out(1) b by simp
    show "\<forall>i resp. fold (\<lambda>i m. m(i \<mapsto> None)) is Map.empty i = Some (Some resp) \<longrightarrow> resp_numbered resp"
      by (simp add: dom_nil_map)
  qed
qed

lemma goroutine_resp_ok: "cx_goroutine parse re h q a = Inr (Some e, a') \<Longrightarrow> resp_ok e"
  by (cases q) (auto simp: bind_r_eq_Inr dest: SendOrder_numbered SendOrders_numbered [rule_format])


lemma living_allocated: "reach dinit dstep m \<Longrightarrow> living_ok (k_dealer m)"
  using living_iff [OF dealer.reachable_inv, of m] active_allocated [OF dealer.reachable_inv [of m, unfolded kview_def]]
  by (auto simp: living_ok_def kview_def)

lemma named_init: "dinit m \<Longrightarrow> named_ok (k_dealer m)"
  by (auto simp: dinit_def freshDealer_def named_ok_def order_named_def user_callbacks_def zeroOrder_def)

lemma response_fresh: "is_response e \<Longrightarrow> fresh_orders e"
  by (cases e) auto

lemma call_resp_ok: "\<not> is_response e \<Longrightarrow> resp_ok (with_answer ag e) \<and> fresh_orders (with_answer ag e) = fresh_orders e"
  by (cases e) auto

lemma named_desk:
  assumes "reach (desk_init a) (desk_step (cx_agent str parse) sy) k"
  shows "named_ok (k_dealer (dk_market k))"
  using assms
proof (induction rule: reach.induct)
  case (reach_init k)
  then show ?case by (auto simp: desk_init_def intro: named_init)
next
  case (reach_step k k')
  note live = living_allocated [OF cx_desk.market_reach [OF reach_step.hyps(1)]]
  from reach_step.hyps(2) show ?case
  proof cases
    case (call e)
    then obtain ag b qs m where c: "consult (cx_agent str parse) sy e k = (ag, b, qs)" "exec (with_answer ag e) (dk_market k) = Inr m"
      "k' = \<lparr>dk_market = m, dk_agent = b, dk_flight = dk_flight k @ qs\<rparr>"
      by (auto simp: desk_call_def bind_r_eq_Inr split: prod.splits)
    with call(1) have "\<not> is_response e" "fresh_orders e" "admissible (with_answer ag e) (k_dealer (dk_market k))"
      by (auto simp: permitted_def)
    with named_event [OF reach_step.IH live _ _ _ exec_dealer_exec [OF c(2)]] call_resp_ok [of e ag] c(3) show ?thesis by simp
  next
    case (reply i re eo b)
    then obtain m where m: "(case eo of None \<Rightarrow> Inr (dk_market k) | Some e \<Rightarrow> exec e (dk_market k)) = Inr m" "dk_market k' = m"
      by (auto simp: desk_reply_def bind_r_eq_Inr)
    show ?thesis
    proof (cases eo)
      case (Some e)
      with reply(2,3) cx_desk.handler_admissible have e: "is_response e" "admissible e (k_dealer (dk_market k))" by blast+
      from Some reply(2) have "resp_ok e" by (auto intro: goroutine_resp_ok)
      with named_event [OF reach_step.IH live response_fresh [OF e(1)] e(2)] exec_dealer_exec m Some show ?thesis by fastforce
    qed (use m reach_step.IH in simp)
  next
    case (quota_back now i b)
    then show ?thesis using reach_step.IH by simp
  qed
qed

section \<open>Cancelling at CoinEx\<close>

lemma CancelOrder_pending:
  assumes "GetStatus (ord d r) = OrderStatusPending"
  shows "\<exists>d'. exec_dealer (EvCancelOrder ag now r) d = Inr d' \<and> d_requests d' = d_requests d @ [ReqCancelOrder r] \<and>
    GetStatus (ord d' r) = (if ag = None then OrderStatusCanceling else OrderStatusPending) \<and>
    (ag = None \<longrightarrow> GetPublicID (d_heap d' r) = GetPublicID (d_heap d r))"
  using assms
  by (auto simp: CancelOrder_def runDeferredCancel_def cancelOrder_def Let_def rejectCancel_def execCancelRejectCallbacks_def
      spawn_def request_def go_simps split: option.split)




definition demo_pending :: "(int, cx_PrivateAPIAgent) desk" where
  "demo_pending = projr (desk_reply demo_cx demo_reply 0 (demo_sent demo_cx cx_NewPrivateAPIAgent))"

lemma demo_pending_reach:
  "reach (desk_init cx_NewPrivateAPIAgent) (desk_step (cx_agent (\<lambda>n. FormatInt n) demo_parse) demo_symbol) demo_pending"
proof -
  let ?k = "demo_sent demo_cx cx_NewPrivateAPIAgent"
  have f: "dk_flight ?k = [ReqSendOrder 0]" by code_simp
  have "\<not> isl (desk_reply demo_cx demo_reply 0 ?k)" by code_simp
  then have k': "desk_reply demo_cx demo_reply 0 ?k = Inr demo_pending" by (simp add: demo_pending_def)
  then obtain eo a where "ag_handler demo_cx demo_reply (d_heap (k_dealer (dk_market ?k))) (dk_flight ?k ! 0) (dk_agent ?k) = Inr (eo, a)"
    by (auto simp: desk_reply_def bind_r_eq_Inr)
  moreover have "ag_handler demo_cx = cx_goroutine demo_parse" by (simp add: demo_cx_def)
  ultimately have "visits_all eo" by (auto simp: f bind_r_eq_Inr)
  note this \<open>ag_handler demo_cx demo_reply (d_heap (k_dealer (dk_market ?k))) (dk_flight ?k ! 0) (dk_agent ?k) = Inr (eo, a)\<close>
  with k' f have "desk_step demo_cx demo_symbol ?k demo_pending" by (intro desk_step.reply [where i = 0]) auto
  with demo_sent_reach [where A = demo_cx and a = cx_NewPrivateAPIAgent] show ?thesis
    by (auto simp: demo_cx_def intro: reach_step)
qed


section \<open>Batches at Bybit\<close>

lemma SendOrders_rejects:
  assumes "Flag_Get (d_acceptOrder d)" and "\<forall>r \<in> set rs. getOrder (d_LivingOrders d) (GetID (ord d r)) = None" and "r \<in> set rs"
  shows "GetStatus (ord (snd (SendOrders (Some e) now rs d)) r) = OrderStatusDone"
proof -
  have "q \<in> set qs \<Longrightarrow> GetStatus (ord (rejectCreates qs d) q) = OrderStatusDone" for q qs and d :: "'a DealerImpl"
    unfolding rejectCreates_def by (induction qs rule: rev_induct) (auto simp: rejectCreate_status simp del: heap_frame)
  with assms show ?thesis by (auto simp: SendOrders_def list_ex_iff Let_def simp del: heap_frame)
qed

lemma consult_bybit:
  assumes "\<And>q h. asked e (dk_market k) = Some (q, h) \<Longrightarrow> \<exists>rs. q = ReqSendOrders rs \<or> q = ReqCancelOrders rs"
  shows "consult (bb_agent str parse) sy e k =
    (if asked e (dk_market k) = None then None else Some (Message ''not implemented''), dk_agent k, [])"
  using assms by (cases "asked e (dk_market k)") (fastforce simp: consult_def bb_batch_def)+


lemma asked_batches:
  "asked (EvSendOrders x now rs) m = Some (q, h) \<Longrightarrow> q = ReqSendOrders rs"
  "asked (EvCancelOrders x now ks rs) m = Some (q, h) \<Longrightarrow> \<exists>ts. q = ReqCancelOrders ts"
proof -
  show "asked (EvSendOrders x now rs) m = Some (q, h) \<Longrightarrow> q = ReqSendOrders rs"
    by (auto simp: asked_def exec_def SendOrders_def Let_def requests_fold split: if_splits)
  obtain ts d1 where t: "splitCancelTargets (Unique ks (d_heap (k_dealer m)) rs) (k_dealer m) = (ts, d1)" by fastforce
  with requests_split [of "Unique ks (d_heap (k_dealer m)) rs" "k_dealer m"] have "d_requests d1 = d_requests (k_dealer m)" by simp
  then show "asked (EvCancelOrders x now ks rs) m = Some (q, h) \<Longrightarrow> \<exists>ts. q = ReqCancelOrders ts"
    by (auto simp: asked_def exec_def CancelOrders_def t Let_def requests_fold split: if_splits)
qed

lemma bybit_batch_call:
  assumes "e = EvSendOrders None now rs \<or> e = EvCancelOrders None now ks rs"
  shows "\<exists>ag. desk_call (bb_agent str parse) sy e k =
    bind_r (exec (with_answer ag e) (dk_market k)) (\<lambda>m. Inr (k\<lparr>dk_market := m\<rparr>)) \<and>
    (asked e (dk_market k) \<noteq> None \<longrightarrow> ag = Some (Message ''not implemented''))"
proof -
  have "consult (bb_agent str parse) sy e k =
    (if asked e (dk_market k) = None then None else Some (Message ''not implemented''), dk_agent k, [])"
    by (rule consult_bybit) (use assms asked_batches in blast)
  then show ?thesis by (cases k) (auto simp: desk_call_def)
qed

lemma asked_sends:
  "Flag_Get (d_acceptOrder (k_dealer m)) \<Longrightarrow> \<forall>r \<in> set rs. getOrder (d_LivingOrders (k_dealer m)) (GetID (ord (k_dealer m) r)) = None \<Longrightarrow>
   asked (EvSendOrders None now rs) m \<noteq> None"
  by (auto simp: asked_def exec_def SendOrders_def Let_def requests_fold list_ex_iff simp del: heap_frame)

lemma asked_cancels:
  assumes "q \<in> set (Unique ks (d_heap (k_dealer m)) rs)" and "GetStatus (ord (k_dealer m) q) = OrderStatusPending"
  shows "asked (EvCancelOrders None now ks rs) m \<noteq> None"
proof -
  obtain ts d1 where t: "splitCancelTargets (Unique ks (d_heap (k_dealer m)) rs) (k_dealer m) = (ts, d1)" by fastforce
  with splitCancelTargets_sound [OF t, of "[]"] assms have "ts \<noteq> []"
    by (auto simp: GetStatus_def filter_empty_conv)
  moreover have "d_requests d1 = d_requests (k_dealer m)"
    using t requests_split [of "Unique ks (d_heap (k_dealer m)) rs" "k_dealer m"] by simp
  ultimately show ?thesis by (simp add: asked_def exec_def CancelOrders_def t Let_def requests_fold)
qed

lemma bybit_sends:
  "\<exists>k'. desk_call (bb_agent str parse) sy (EvSendOrders None now rs) k = Inr k' \<and>
     dk_agent k' = dk_agent k \<and> dk_flight k' = dk_flight k \<and>
     (Flag_Get (d_acceptOrder (k_dealer (dk_market k))) \<and>
      (\<forall>r \<in> set rs. getOrder (d_LivingOrders (k_dealer (dk_market k))) (GetID (ord (k_dealer (dk_market k)) r)) = None) \<longrightarrow>
      (\<forall>r \<in> set rs. GetStatus (ord (k_dealer (dk_market k')) r) = OrderStatusDone))"
proof -
  let ?e = "EvSendOrders None now rs" and ?d = "k_dealer (dk_market k)"
  obtain ag where ag: "desk_call (bb_agent str parse) sy ?e k = bind_r (exec (with_answer ag ?e) (dk_market k)) (\<lambda>m. Inr (k\<lparr>dk_market := m\<rparr>))"
    "asked ?e (dk_market k) \<noteq> None \<longrightarrow> ag = Some (Message ''not implemented'')"
    using bybit_batch_call [of ?e now rs "[]" str parse sy k] by blast
  have "Flag_Get (d_acceptOrder ?d) \<and> (\<forall>r \<in> set rs. getOrder (d_LivingOrders ?d) (GetID (ord ?d r)) = None) \<longrightarrow>
    (\<forall>r \<in> set rs. GetStatus (ord (snd (SendOrders ag now rs ?d)) r) = OrderStatusDone)"
    using ag(2) asked_sends [of "dk_market k" rs now] SendOrders_rejects by blast
  then show ?thesis by (simp add: ag(1) exec_def del: heap_frame)
qed

lemma bybit_cancels:
  "\<exists>k'. desk_call (bb_agent str parse) sy (EvCancelOrders None now ks rs) k = Inr k' \<and>
     dk_agent k' = dk_agent k \<and> dk_flight k' = dk_flight k \<and>
     ((\<exists>q \<in> set (Unique ks (d_heap (k_dealer (dk_market k))) rs). GetStatus (ord (k_dealer (dk_market k)) q) = OrderStatusPending) \<longrightarrow>
      (\<forall>r \<in> set (Unique ks (d_heap (k_dealer (dk_market k))) rs). GetStatus (ord (k_dealer (dk_market k')) r) = OrderStatusPending))"
proof -
  let ?e = "EvCancelOrders None now ks rs" and ?d = "k_dealer (dk_market k)"
  let ?rs = "Unique ks (d_heap ?d) rs"
  obtain ag where ag: "desk_call (bb_agent str parse) sy ?e k = bind_r (exec (with_answer ag ?e) (dk_market k)) (\<lambda>m. Inr (k\<lparr>dk_market := m\<rparr>))"
    "asked ?e (dk_market k) \<noteq> None \<longrightarrow> ag = Some (Message ''not implemented'')"
    using bybit_batch_call [of ?e now rs ks str parse sy k] by blast
  obtain ts d1 where t: "splitCancelTargets ?rs ?d = (ts, d1)" by fastforce
  have "GetStatus (ord (snd (CancelOrders ag now ks rs ?d)) r) = OrderStatusPending"
    if "q \<in> set ?rs" "GetStatus (ord ?d q) = OrderStatusPending" "r \<in> set ?rs" for q r
  proof -
    have "ag = Some (Message ''not implemented'')" using ag(2) asked_cancels [OF that(1,2)] by blast
    moreover have "ts \<noteq> []" using splitCancelTargets_sound [OF t, of "[]"] that(1,2) by (auto simp: GetStatus_def filter_empty_conv)
    ultimately show ?thesis using rejectCancels_status [OF that(3)] by (simp add: CancelOrders_def t GetStatus_def)
  qed
  then have "(\<exists>q \<in> set ?rs. GetStatus (ord ?d q) = OrderStatusPending) \<longrightarrow>
    (\<forall>r \<in> set ?rs. GetStatus (ord (snd (CancelOrders ag now ks rs ?d)) r) = OrderStatusPending)" by blast
  then show ?thesis by (simp add: ag(1) exec_def del: heap_frame)
qed

text \<open>
  C12. On Bybit a batch never reaches the exchange: the agent has no batch requests. Orders sent as a batch are
  all done at once, rejected. A batch with a pending order leaves every order of it pending, whatever its
  state was: nothing is cancelled, an order that is done becomes pending, and no error is returned.
\<close>

theorem bybit_batches_never_sent:
  "(\<exists>k'. desk_call (bb_agent str parse) sy (EvSendOrders None now rs) k = Inr k' \<and>
     dk_agent k' = dk_agent k \<and> dk_flight k' = dk_flight k \<and>
     (Flag_Get (d_acceptOrder (k_dealer (dk_market k))) \<and>
      (\<forall>r \<in> set rs. getOrder (d_LivingOrders (k_dealer (dk_market k))) (GetID (ord (k_dealer (dk_market k)) r)) = None) \<longrightarrow>
      (\<forall>r \<in> set rs. GetStatus (ord (k_dealer (dk_market k')) r) = OrderStatusDone))) \<and>
   (\<forall>ag. fst (CancelOrders ag now ks rs (k_dealer (dk_market k))) = None) \<and>
   (\<exists>k'. desk_call (bb_agent str parse) sy (EvCancelOrders None now ks rs) k = Inr k' \<and>
     dk_agent k' = dk_agent k \<and> dk_flight k' = dk_flight k \<and>
     ((\<exists>q \<in> set (Unique ks (d_heap (k_dealer (dk_market k))) rs). GetStatus (ord (k_dealer (dk_market k)) q) = OrderStatusPending) \<longrightarrow>
      (\<forall>r \<in> set (Unique ks (d_heap (k_dealer (dk_market k))) rs). GetStatus (ord (k_dealer (dk_market k')) r) = OrderStatusPending)))"
  by (intro conjI bybit_sends bybit_cancels allI CancelOrders_no_error)

theorem bybit_batches_never_sent_witness:
  "\<exists>k'. desk_call demo_bb demo_symbol (EvCancelOrders None 3 [''a'', ''b''] [0, 1])
       \<lparr>dk_market = \<lparr>k_dealer = two_orders, k_exported = []\<rparr>, dk_agent = bb_NewPrivateAPIAgent None, dk_flight = []\<rparr> = Inr k' \<and>
     ab_sent (dk_agent k') = [] \<and> GetStatus (ord two_orders 0) = OrderStatusDone \<and>
     GetStatus (ord (k_dealer (dk_market k')) 0) = OrderStatusPending"
proof -
  let ?k = "\<lparr>dk_market = \<lparr>k_dealer = two_orders, k_exported = []\<rparr>, dk_agent = bb_NewPrivateAPIAgent None, dk_flight = []\<rparr>"
  have "Unique [''a'', ''b''] (d_heap two_orders) [0, 1] = [0, 1]" "GetStatus (ord two_orders 0) = OrderStatusDone"
    "GetStatus (ord two_orders 1) = OrderStatusPending" by code_simp+
  then show ?thesis
    using bybit_batches_never_sent [of "\<lambda>n. FormatInt n" demo_parse demo_symbol 3 "[0, 1]" ?k "[''a'', ''b'']"]
    by (auto simp: demo_bb_def bb_NewPrivateAPIAgent_def simp del: heap_frame)
qed

end
