(* ===== verification/Connection.thy ===== *)
theory Connection
  imports Prelude
begin

text \<open>
  The three goroutines that serve one WebSocket connection: the health checker
  (\<open>internal/gateways/health_checker.go\<close>), the authenticator (\<open>author.go\<close>) and the message
  receiver (\<open>message_receiver.go\<close>). Each is modelled by its state and one operation per branch
  of its \<open>select\<close>; what it sends on its error channel is part of the operation's result. A
  send on a closed channel panics.
\<close>

section \<open>health\_checker.go\<close>

datatype HealthErr = HealthErrFailedToSendPing | HealthErrConnectionTimeout

text \<open>The zero \<open>time.Time\<close> is \<open>None\<close>; \<open>hc_closed\<close> says that \<open>chanClose\<close> has run.\<close>

record healthChecker =
  hc_pingInterval :: duration
  hc_timeoutDuration :: duration
  hc_lastSendPingAt :: "time option"
  hc_lastReceivedAt :: "time option"
  hc_closed :: bool

definition NewHealthChecker :: "duration \<Rightarrow> duration \<Rightarrow> healthChecker" where
  "NewHealthChecker pingInterval timeoutDuration =
     \<lparr>hc_pingInterval = pingInterval, hc_timeoutDuration = timeoutDuration,
      hc_lastSendPingAt = None, hc_lastReceivedAt = None, hc_closed = False\<rparr>"

definition isTimeout :: "time \<Rightarrow> healthChecker \<Rightarrow> bool" where
  "isTimeout now c =
     (case hc_lastSendPingAt c of
        None \<Rightarrow> False
      | Some s \<Rightarrow>
          (case hc_lastReceivedAt c of
             None \<Rightarrow> hc_timeoutDuration c < Time_Sub now s
           | Some r \<Rightarrow> hc_timeoutDuration c < Time_Sub now r))"

definition hc_chanClose :: "healthChecker \<Rightarrow> healthChecker" where
  "hc_chanClose c = c\<lparr>hc_closed := True\<rparr>"

text \<open>
  The three branches of \<open>Start\<close>. A ping tick reads the clock twice: \<open>t1\<close> when it records the
  ping, \<open>t2\<close> inside \<open>isTimeout\<close>; \<open>sent\<close> says whether \<open>sendPing\<close> returned nil.
\<close>

definition hc_tick :: "bool \<Rightarrow> time \<Rightarrow> time \<Rightarrow> healthChecker \<Rightarrow> HealthErr list \<times> healthChecker" where
  "hc_tick sent t1 t2 c =
     (let a1 = (if sent then [] else [HealthErrFailedToSendPing]);
          c1 = c\<lparr>hc_lastSendPingAt := Some t1\<rparr>;
          a2 = (if isTimeout t2 c1 then [HealthErrConnectionTimeout] else [])
      in (a1 @ a2, c1))"

definition hc_pong :: "time \<Rightarrow> healthChecker \<Rightarrow> healthChecker" where
  "hc_pong now c = c\<lparr>hc_lastReceivedAt := Some now\<rparr>"

definition hc_done :: "healthChecker \<Rightarrow> healthChecker" where
  "hc_done c = hc_chanClose c"

text \<open>
  The pong handler of the connection and \<open>PongReceiveHandleFunc\<close>, which hand the pong to the
  loop through the unbuffered \<open>pongChan\<close>: the send completes when the loop takes it, at \<open>now\<close>.
\<close>

definition send_pong :: "time \<Rightarrow> healthChecker \<Rightarrow> healthChecker result" where
  "send_pong now c = (if hc_closed c then Inl SendOnClosedChannel else Inr (hc_pong now c))"

definition PongReceiveHandleFunc :: "('m \<Rightarrow> bool) option \<Rightarrow> time \<Rightarrow> 'm \<Rightarrow> healthChecker \<Rightarrow> healthChecker result" where
  "PongReceiveHandleFunc matchPong now rawMsg c =
     (case matchPong of
        None \<Rightarrow> Inr c
      | Some f \<Rightarrow> if f rawMsg then send_pong now c else Inr c)"

section \<open>author.go\<close>

datatype AuthErr = AuthErrFailedToSendAuthRequest | AuthErrRetryLimitReached

text \<open>\<open>au_requests\<close> counts the requests sent; \<open>au_closed\<close> says that \<open>chanClose\<close> has run.\<close>

record author =
  au_numOfRetry :: int
  au_retryCount :: int
  au_retryInterval :: duration
  au_requests :: nat
  au_closed :: bool

definition NewAuthor :: "int \<Rightarrow> duration \<Rightarrow> author" where
  "NewAuthor numOfRetry retryInterval =
     \<lparr>au_numOfRetry = numOfRetry, au_retryCount = 0, au_retryInterval = retryInterval, au_requests = 0, au_closed = False\<rparr>"

definition au_chanClose :: "author \<Rightarrow> author" where
  "au_chanClose a = a\<lparr>au_closed := True\<rparr>"

text \<open>
  \<open>Start\<close> up to its loop; \<open>sent\<close> says whether \<open>sendRequest\<close> returned nil. Every return of
  \<open>Start\<close> closes the channels.
\<close>

definition au_begin :: "bool \<Rightarrow> author \<Rightarrow> AuthErr list \<times> author" where
  "au_begin sent a =
     (let a1 = a\<lparr>au_requests := au_requests a + 1\<rparr> in
      if sent then ([], a1) else ([AuthErrFailedToSendAuthRequest], au_chanClose a1))"

definition au_done :: "author \<Rightarrow> author" where
  "au_done a = au_chanClose a"

definition au_result :: "bool \<Rightarrow> bool \<Rightarrow> author \<Rightarrow> AuthErr list \<times> author" where
  "au_result success sent a =
     (if success then ([], a)
      else if au_numOfRetry a \<le> au_retryCount a then ([AuthErrRetryLimitReached], au_chanClose a)
      else
        (let a1 = a\<lparr>au_retryCount := au_retryCount a + 1\<rparr>;
             a2 = a1\<lparr>au_requests := au_requests a1 + 1\<rparr>
         in if sent then ([], a2) else ([AuthErrFailedToSendAuthRequest], au_chanClose a2)))"

text \<open>
  \<open>Start\<close> over the authentication results it receives, each with what \<open>sendRequest\<close> answers
  should it be called: the errors it sends on \<open>authErrChan\<close>, until it returns.
\<close>

fun au_loop :: "(bool \<times> bool) list \<Rightarrow> author \<Rightarrow> AuthErr list \<times> author" where
  "au_loop [] a = ([], a)"
| "au_loop ((success, sent) # rs) a =
     (case au_result success sent a of (errs, a') \<Rightarrow>
        if au_closed a' then (errs, a')
        else (case au_loop rs a' of (errs', a'') \<Rightarrow> (errs @ errs', a'')))"

definition au_Start :: "bool \<Rightarrow> (bool \<times> bool) list \<Rightarrow> author \<Rightarrow> AuthErr list \<times> author" where
  "au_Start sent rs a =
     (case au_begin sent a of (errs, a') \<Rightarrow>
        if au_closed a' then (errs, a')
        else (case au_loop rs a' of (errs', a'') \<Rightarrow> (errs @ errs', a'')))"

text \<open>
  \<open>checkResponse\<close> answers an error, or whether the message is an authentication response and
  a successful one. \<open>sent\<close> is for the request a failure may cause.
\<close>

definition HandleAuthMessage ::
  "('m \<Rightarrow> 'e + bool \<times> bool) \<Rightarrow> bool \<Rightarrow> 'm \<Rightarrow> author \<Rightarrow> ('e option \<times> AuthErr list \<times> author) result" where
  "HandleAuthMessage checkResponse sent rawMsg a =
     (case checkResponse rawMsg of
        Inl err \<Rightarrow> Inr (Some err, [], a)
      | Inr (isAuthResp, success) \<Rightarrow>
          if \<not> isAuthResp then Inr (None, [], a)
          else if au_closed a then Inl SendOnClosedChannel
          else (case au_result success sent a of (errs, a') \<Rightarrow> Inr (None, errs, a')))"

section \<open>message\_receiver.go\<close>

text \<open>
  A read of the connection fails with an error or delivers a message, marked as binary or not.
  \<open>decode\<close> is \<open>decodeGzip\<close>. The handlers work on a state \<open>'s\<close> of their own and may answer an
  error or panic.
\<close>

type_synonym ('m, 'e, 's) MessageReceiveHandleFunc = "'m \<Rightarrow> 's \<Rightarrow> ('e option \<times> 's) result"

definition SetHandler ::
  "('m, 'e, 's) MessageReceiveHandleFunc \<Rightarrow> ('m, 'e, 's) MessageReceiveHandleFunc list \<Rightarrow> ('m, 'e, 's) MessageReceiveHandleFunc list" where
  "SetHandler h hs = hs @ [h]"

fun run_handlers :: "('m, 'e, 's) MessageReceiveHandleFunc list \<Rightarrow> 'm \<Rightarrow> 's \<Rightarrow> ('e option \<times> 's) result" where
  "run_handlers [] msg s = Inr (None, s)"
| "run_handlers (h # hs) msg s = bind_r (h msg s) (\<lambda>(err, s').
     case err of Some e \<Rightarrow> Inr (Some e, s') | None \<Rightarrow> run_handlers hs msg s')"

text \<open>One turn of the loop: the message to forward on \<open>msgChan\<close>, or the error to send on \<open>errChan\<close>.\<close>

definition mr_turn ::
  "('m \<Rightarrow> 'e + 'm) \<Rightarrow> ('m, 'e, 's) MessageReceiveHandleFunc list \<Rightarrow> 'e + bool \<times> 'm \<Rightarrow> 's \<Rightarrow> (('e + 'm) \<times> 's) result" where
  "mr_turn decode handlers rd s =
     (case rd of
        Inl err \<Rightarrow> Inr (Inl err, s)
      | Inr (binary, raw) \<Rightarrow>
          (case (if binary then decode raw else Inr raw) of
             Inl err \<Rightarrow> Inr (Inl err, s)
           | Inr msg \<Rightarrow> bind_r (run_handlers handlers msg s) (\<lambda>(err, s').
               case err of Some e \<Rightarrow> Inr (Inl e, s') | None \<Rightarrow> Inr (Inr msg, s'))))"

text \<open>
  \<open>Start\<close> over what the connection delivers: the forwarded messages, the error that ended the
  loop (\<open>None\<close>: still reading), the handlers' state.
\<close>

fun mr_Start ::
  "('m \<Rightarrow> 'e + 'm) \<Rightarrow> ('m, 'e, 's) MessageReceiveHandleFunc list \<Rightarrow> ('e + bool \<times> 'm) list \<Rightarrow> 's \<Rightarrow> ('m list \<times> 'e option \<times> 's) result" where
  "mr_Start decode handlers [] s = Inr ([], None, s)"
| "mr_Start decode handlers (rd # rds) s = bind_r (mr_turn decode handlers rd s) (\<lambda>(out, s').
     case out of
       Inl err \<Rightarrow> Inr ([], Some err, s')
     | Inr msg \<Rightarrow> bind_r (mr_Start decode handlers rds s') (\<lambda>(msgs, err, s''). Inr (msg # msgs, err, s'')))"

section \<open>Runs of the health checker\<close>

datatype hc_event = PingTicked bool time time | PongTaken time

fun hc_run :: "hc_event list \<Rightarrow> healthChecker \<Rightarrow> HealthErr list \<times> healthChecker" where
  "hc_run [] c = ([], c)"
| "hc_run (PingTicked sent t1 t2 # es) c =
     (case hc_tick sent t1 t2 c of (errs, c') \<Rightarrow> case hc_run es c' of (errs', c'') \<Rightarrow> (errs @ errs', c''))"
| "hc_run (PongTaken now # es) c = hc_run es (hc_pong now c)"

fun last_pong :: "hc_event list \<Rightarrow> time option \<Rightarrow> time option" where
  "last_pong [] p = p"
| "last_pong (PingTicked sent t1 t2 # es) p = last_pong es p"
| "last_pong (PongTaken now # es) p = last_pong es (Some now)"

lemma hc_run_last_pong:
  "hc_lastReceivedAt (snd (hc_run es c)) = last_pong es (hc_lastReceivedAt c) \<and>
   hc_timeoutDuration (snd (hc_run es c)) = hc_timeoutDuration c"
  by (induction es c rule: hc_run.induct) (auto simp: hc_tick_def hc_pong_def Let_def split: prod.splits)

lemma tick_alert:
  "HealthErrConnectionTimeout \<in> set (fst (hc_tick sent t1 t2 c)) \<longleftrightarrow>
     hc_timeoutDuration c < Time_Sub t2 (case hc_lastReceivedAt c of None \<Rightarrow> t1 | Some r \<Rightarrow> r)"
  by (simp add: hc_tick_def isTimeout_def Let_def split: option.split)

lemma silent_run:
  assumes "hc_lastReceivedAt c = None" and "\<And>sent t1 t2. PingTicked sent t1 t2 \<in> set es \<Longrightarrow> Time_Sub t2 t1 \<le> hc_timeoutDuration c"
    and "\<And>t. PongTaken t \<notin> set es"
  shows "HealthErrConnectionTimeout \<notin> set (fst (hc_run es c))"
  using assms
proof (induction es arbitrary: c)
  case (Cons e es)
  then obtain sent t1 t2 where e: "e = PingTicked sent t1 t2" by (cases e) (blast, metis list.set_intros(1))
  let ?c = "snd (hc_tick sent t1 t2 c)"
  have "HealthErrConnectionTimeout \<notin> set (fst (hc_run es ?c))"
    by (rule Cons.IH) (use Cons.prems in \<open>auto simp: hc_tick_def Let_def\<close>)
  moreover have "HealthErrConnectionTimeout \<notin> set (fst (hc_tick sent t1 t2 c))"
    using tick_alert [of sent t1 t2 c] Cons.prems(1) Cons.prems(2) [of sent t1 t2] e by simp
  ultimately show ?case by (simp add: e case_prod_beta)
qed simp

section \<open>The authenticator's loop\<close>

lemma au_loop_failures:
  "au_retryCount a \<le> au_numOfRetry a \<Longrightarrow> \<not> au_closed a \<Longrightarrow> au_loop (map (\<lambda>s. (s, True)) rs) a = (errs, a') \<Longrightarrow>
   (let fails = int (length (filter Not rs)); left = au_numOfRetry a - au_retryCount a in
    errs = (if left < fails then [AuthErrRetryLimitReached] else []) \<and> (au_closed a' \<longleftrightarrow> left < fails) \<and>
    int (au_requests a') = int (au_requests a) + min fails left)"
proof (induction rs arbitrary: a errs)
  case (Cons r rs)
  show ?case
  proof (cases "r \<or> au_retryCount a < au_numOfRetry a")
    case True
    let ?a = "snd (au_result r True a)"
    have a: "au_result r True a = ([], ?a)" "\<not> au_closed ?a" "au_retryCount ?a \<le> au_numOfRetry ?a"
      "au_numOfRetry ?a = au_numOfRetry a" "au_retryCount ?a = au_retryCount a + (if r then 0 else 1)"
      "au_requests ?a = au_requests a + (if r then 0 else 1)"
      using True Cons.prems(1,2) by (auto simp: au_result_def Let_def)
    then have "au_loop (map (\<lambda>s. (s, True)) rs) ?a = (errs, a')" using Cons.prems(3) by (auto split: prod.splits)
    from Cons.IH [OF a(3,2) this] a(4-6) show ?thesis by (auto simp: Let_def split: if_splits)
  next
    case False
    then have "au_result r True a = ([AuthErrRetryLimitReached], au_chanClose a)" "\<not> r" "au_numOfRetry a = au_retryCount a"
      using Cons.prems(1) by (auto simp: au_result_def)
    with Cons.prems show ?thesis by (auto simp: au_chanClose_def Let_def)
  qed
qed (auto simp: Let_def)

section \<open>The receiver's loop\<close>

definition decoded :: "('m \<Rightarrow> 'e + 'm) \<Rightarrow> 'e + bool \<times> 'm \<Rightarrow> 'e + 'm" where
  "decoded decode rd = (case rd of Inl err \<Rightarrow> Inl err | Inr (binary, raw) \<Rightarrow> if binary then decode raw else Inr raw)"

lemma mr_turn_forwards: "mr_turn decode handlers rd s = Inr (Inr msg, s') \<Longrightarrow> decoded decode rd = Inr msg"
  by (auto simp: mr_turn_def decoded_def bind_r_eq_Inr split: sum.splits if_splits option.splits)

lemma mr_Start_prefix:
  "mr_Start decode handlers rds s = Inr (msgs, err, s') \<Longrightarrow>
   map Inr msgs = map (decoded decode) (take (length msgs) rds) \<and> length msgs \<le> length rds \<and>
   (err = None \<longleftrightarrow> length msgs = length rds)"
proof (induction rds arbitrary: s msgs)
  case (Cons rd rds)
  from Cons.prems obtain out s1 where t: "mr_turn decode handlers rd s = Inr (out, s1)"
    by (auto simp: bind_r_eq_Inr)
  show ?case
  proof (cases out)
    case (Inl e)
    with t Cons.prems show ?thesis by auto
  next
    case (Inr msg)
    with t Cons.prems obtain ms where "msgs = msg # ms" "mr_Start decode handlers rds s1 = Inr (ms, err, s')"
      by (auto simp: bind_r_eq_Inr)
    with Cons.IH mr_turn_forwards t Inr show ?thesis by fastforce
  qed
qed simp

section \<open>Properties\<close>

text \<open>
  At every ping tick of every run of the health checker, a timeout alert is raised exactly
  when the last pong taken is more than the timeout ago; while no pong has been taken yet, the
  time compared with the timeout is that between the two clock readings of the tick itself.
\<close>

theorem timeout_alert_iff_pong_overdue:
  "HealthErrConnectionTimeout \<in> set (fst (hc_tick sent t1 t2 (snd (hc_run es (NewHealthChecker pingInterval timeoutDuration))))) \<longleftrightarrow>
   timeoutDuration < Time_Sub t2 (case last_pong es None of None \<Rightarrow> t1 | Some p \<Rightarrow> p)"
  by (simp add: tick_alert hc_run_last_pong) (simp add: NewHealthChecker_def)

text \<open>
  A connection that never answers is never reported: as long as no pong arrives and no tick
  takes longer than the timeout itself, no number of unanswered pings raises the timeout alert,
  because \<open>lastSendPingAt\<close> is overwritten just before it is compared with the clock.
\<close>

lemma silent_connection_never_times_out:
  assumes "\<And>t. PongTaken t \<notin> set es"
    and "\<And>sent t1 t2. PingTicked sent t1 t2 \<in> set es \<Longrightarrow> Time_Sub t2 t1 \<le> timeoutDuration"
  shows "HealthErrConnectionTimeout \<notin> set (fst (hc_run es (NewHealthChecker pingInterval timeoutDuration)))"
  by (rule silent_run) (use assms in \<open>auto simp: NewHealthChecker_def\<close>)

text \<open>
  C40. The authenticator's retry budget, when its requests can be sent: after any sequence of
  answers it has sent one request and one more per failure, up to the limit; it reports
  \<open>AuthErrRetryLimitReached\<close>, once, exactly when the failures exceed the limit, and returns then.
\<close>

theorem author_gives_up_after_retries:
  assumes "0 \<le> numOfRetry" and "au_Start True (map (\<lambda>s. (s, True)) rs) (NewAuthor numOfRetry d) = (errs, a)"
  shows "let fails = int (length (filter Not rs)) in
     errs = (if numOfRetry < fails then [AuthErrRetryLimitReached] else []) \<and> (au_closed a \<longleftrightarrow> numOfRetry < fails) \<and>
     int (au_requests a) = 1 + min fails numOfRetry"
proof -
  let ?a = "(NewAuthor numOfRetry d)\<lparr>au_requests := 1\<rparr>"
  have a: "au_retryCount ?a \<le> au_numOfRetry ?a" "\<not> au_closed ?a" using assms(1) by (simp_all add: NewAuthor_def)
  have "au_loop (map (\<lambda>s. (s, True)) rs) ?a = (errs, a)"
    using assms(2) by (auto simp: au_Start_def au_begin_def NewAuthor_def split: prod.splits)
  from au_loop_failures [OF a this] show ?thesis by (simp add: NewAuthor_def Let_def)
qed

theorem author_gives_up_after_retries_witness:
  "fst (au_Start True (map (\<lambda>s. (s, True)) [False, True, False, False, False]) (NewAuthor 3 1000000000)) = [AuthErrRetryLimitReached]"
  using author_gives_up_after_retries [OF _ surjective_pairing, of 3 "[False, True, False, False, False]" 1000000000]
  by (simp add: Let_def)

text \<open>
  The receiver forwards, in order and without gaps, the decoded messages of an initial
  segment of what the connection delivers, and that segment is everything read unless the
  loop has ended with an error, after which nothing is forwarded.
\<close>

theorem receiver_forwards_prefix:
  assumes "mr_Start decode handlers rds s = Inr (msgs, err, s')"
  shows "map Inr msgs = map (decoded decode) (take (length msgs) rds) \<and> length msgs \<le> length rds \<and>
    (err = None \<longleftrightarrow> length msgs = length rds)"
  using assms by (rule mr_Start_prefix)

theorem receiver_forwards_prefix_witness:
  "(map Inr [''a'', ''b''] :: (string + string) list) =
     map (decoded (\<lambda>m. Inr m)) (take 2 [Inr (False, ''a''), Inr (True, ''b''), Inl ''eof'', Inr (False, ''c'')])"
  using receiver_forwards_prefix [of "\<lambda>m. Inr m" "[\<lambda>m n. Inr (None, n + 1)]"
      "[Inr (False, ''a''), Inr (True, ''b''), Inl ''eof'', Inr (False, ''c'')]" "0::nat" "[''a'', ''b'']" "Some ''eof''" 2]
  by (simp add: mr_turn_def)

end
