(* ===== verification/Channel.thy ===== *)
theory Channel
  imports Connection Latency
begin

text \<open>
  \<open>internal/gateways/channel.go\<close>: a WebSocket channel, its main loop and the goroutines of
  every connection it has dialled. The state keeps all connections, the last one being
  \<open>c.conn\<close>: \<open>Start\<close> replaces a connection on reconnection, and the goroutines of the
  replaced one live on until they notice. Dialling, writing, the topic manager and the
  exchange-specific predicates are the environment.
\<close>

section \<open>Types\<close>

datatype ScopeType = ScopeTypeUnknown | ScopeTypePublic | ScopeTypePrivate

definition ScopeType_String :: "ScopeType \<Rightarrow> string" where
  "ScopeType_String t = (case t of ScopeTypePublic \<Rightarrow> ''public'' | ScopeTypePrivate \<Rightarrow> ''private'' | _ \<Rightarrow> '''')"

datatype ChannelStatus = ChannelStatusUnknown | ChannelStatusConnected | ChannelStatusDisconnected | ChannelStatusReconnecting

type_synonym msg = string
type_synonym errmsg = string

text \<open>
  What the channel is built with: the topic manager (over a state \<open>'s\<close> of its own), the pong
  matcher, the checker of authentication responses, the gzip decoder.
\<close>

record 's ChannelEnv =
  ce_SubscribeRequests :: "msg list"
  ce_HandleTopicMessage :: "time \<Rightarrow> msg \<Rightarrow> 's \<Rightarrow> errmsg option \<times> 's"
  ce_HandleSubscribeResp :: "msg \<Rightarrow> 's \<Rightarrow> errmsg option \<times> 's"
  ce_MeasureLatency :: "msg \<Rightarrow> errmsg + string \<times> duration"
  ce_matchPong :: "(msg \<Rightarrow> bool) option"
  ce_checkResponse :: "msg \<Rightarrow> errmsg + bool \<times> bool"
  ce_decodeGzip :: "msg \<Rightarrow> errmsg + msg"

text \<open>
  A connection with its goroutines. \<open>cn_reading\<close>: the receiver has not returned;
  \<open>cn_msgs\<close>: what waits in \<open>msgChan\<close>; \<open>cn_alerts\<close>: what the health checker is sending on
  its alert channel; \<open>cn_cancelled\<close>: the context of its goroutines is cancelled.
\<close>

record conn =
  cn_open :: bool
  cn_reading :: bool
  cn_msgs :: "msg list"
  cn_hc :: healthChecker
  cn_alerts :: "HealthErr list"
  cn_author :: "author option"
  cn_cancelled :: bool

text \<open>Where \<open>Start\<close> is: not called, at its \<open>select\<close>, in the reconnection branch, blocked in a send on the full \<open>reconnectSigChan\<close>, returned.\<close>

datatype loop = LoopIdle | LoopSelect | LoopReconnect | LoopBlocked | LoopReturned "errmsg option"

record 's Channel =
  ch_isRunning :: bool
  ch_status :: ChannelStatus
  ch_scopeType :: ScopeType
  ch_conns :: "conn list"
  ch_topicMg :: 's
  ch_reconnectInterval :: duration
  ch_latencyMeasurer :: "LatencyMeasurer option"
  ch_reconnectCount :: int
  ch_sigs :: nat
  ch_loop :: loop

definition NewChannel :: "ScopeType \<Rightarrow> LatencyMeasurer option \<Rightarrow> 's \<Rightarrow> 's Channel" where
  "NewChannel scope measurer mg =
     \<lparr>ch_isRunning = False, ch_status = ChannelStatusUnknown, ch_scopeType = scope, ch_conns = [], ch_topicMg = mg,
      ch_reconnectInterval = 1000000000, ch_latencyMeasurer = measurer, ch_reconnectCount = 0, ch_sigs = 0, ch_loop = LoopIdle\<rparr>"

definition GetTopicMg :: "'s Channel \<Rightarrow> 's" where
  "GetTopicMg c = ch_topicMg c"
definition IsRunning :: "'s Channel \<Rightarrow> bool" where
  "IsRunning c = ch_isRunning c"
definition GetLatencyMeasurer :: "'s Channel \<Rightarrow> LatencyMeasurer option" where
  "GetLatencyMeasurer c = ch_latencyMeasurer c"
definition Channel_GetStatus :: "'s Channel \<Rightarrow> ChannelStatus" where
  "Channel_GetStatus c = ch_status c"

definition sigCap :: nat where "sigCap = 1000"
definition msgCap :: nat where "msgCap = 300"

section \<open>Operations\<close>

definition SetTopicMg :: "'s \<Rightarrow> 's Channel \<Rightarrow> 's Channel" where
  "SetTopicMg mg c = c\<lparr>ch_topicMg := mg\<rparr>"

definition isPrivateChan :: "'s Channel \<Rightarrow> bool" where
  "isPrivateChan c \<longleftrightarrow> ch_scopeType c = ScopeTypePrivate"

definition ch_setStatus :: "ChannelStatus \<Rightarrow> 's Channel \<Rightarrow> 's Channel" where
  "ch_setStatus st c = c\<lparr>ch_status := st\<rparr>"

definition upd_conn :: "nat \<Rightarrow> (conn \<Rightarrow> conn) \<Rightarrow> 's Channel \<Rightarrow> 's Channel" where
  "upd_conn i f c = c\<lparr>ch_conns := (ch_conns c)[i := f (ch_conns c ! i)]\<rparr>"

text \<open>\<open>write\<close> is what \<open>WriteMessage\<close> answers for a message.\<close>

fun sendSubscribeRequest :: "(msg \<Rightarrow> errmsg option) \<Rightarrow> msg list \<Rightarrow> errmsg option" where
  "sendSubscribeRequest write [] = None"
| "sendSubscribeRequest write (m # ms) = (case write m of Some e \<Rightarrow> Some e | None \<Rightarrow> sendSubscribeRequest write ms)"

definition resetReconnectSigChan :: "'s Channel \<Rightarrow> 's Channel" where
  "resetReconnectSigChan c = c\<lparr>ch_sigs := 0\<rparr>"

definition pingInterval :: duration where "pingInterval = 3 * 1000000000"
definition timeoutDuration :: duration where "timeoutDuration = 3 * 1000000000"
definition authNumOfRetry :: int where "authNumOfRetry = 3"
definition authRetryInterval :: duration where "authRetryInterval = 1 * 1000000000"

definition new_conn :: "'s Channel \<Rightarrow> conn" where
  "new_conn c =
     \<lparr>cn_open = True, cn_reading = False, cn_msgs = [], cn_hc = NewHealthChecker pingInterval timeoutDuration, cn_alerts = [],
      cn_author = (if isPrivateChan c then Some (NewAuthor authNumOfRetry authRetryInterval) else None), cn_cancelled = False\<rparr>"

text \<open>\<open>dial\<close> is the error of \<open>Dial\<close>, if any.\<close>

definition initialize :: "errmsg option \<Rightarrow> 's Channel \<Rightarrow> errmsg option \<times> 's Channel" where
  "initialize dial c =
     (case dial of
        Some err \<Rightarrow> (Some (''failed to dial websocket: '' @ err), c)
      | None \<Rightarrow> (None, c\<lparr>ch_conns := ch_conns c @ [new_conn c]\<rparr>))"

text \<open>The goroutines it starts: the receiver reads; the author sends its request (\<open>authSent\<close>: it was sent).\<close>

definition start_goroutines :: "bool \<Rightarrow> conn \<Rightarrow> conn" where
  "start_goroutines authSent k =
     k\<lparr>cn_reading := True, cn_author := map_option (\<lambda>a. snd (au_begin authSent a)) (cn_author k)\<rparr>"

definition initAndListen :: "'s ChannelEnv \<Rightarrow> errmsg option \<Rightarrow> bool \<Rightarrow> (msg \<Rightarrow> errmsg option) \<Rightarrow> 's Channel \<Rightarrow> errmsg option \<times> 's Channel" where
  "initAndListen E dial authSent write c =
     (case initialize dial c of
        (Some err, c1) \<Rightarrow> (Some (''failed to initialize channel: '' @ err), c1)
      | (None, c1) \<Rightarrow>
          let c2 = upd_conn (length (ch_conns c1) - 1) (start_goroutines authSent) c1 in
          (case sendSubscribeRequest write (ce_SubscribeRequests E) of
             Some err \<Rightarrow> (Some (''failed to send subscribe request: '' @ err), c2)
           | None \<Rightarrow> (None, c2)))"

definition handleTopicMessage :: "'s ChannelEnv \<Rightarrow> time \<Rightarrow> msg \<Rightarrow> 's Channel \<Rightarrow> errmsg option \<times> 's Channel" where
  "handleTopicMessage E timestamp rawMsg c =
     (if rawMsg = '''' then (None, c)
      else (case ce_HandleTopicMessage E timestamp rawMsg (ch_topicMg c) of (err, s) \<Rightarrow> (err, c\<lparr>ch_topicMg := s\<rparr>)))"

definition recordLatencyHandleFunc :: "'s ChannelEnv \<Rightarrow> msg \<Rightarrow> 's Channel \<Rightarrow> errmsg option \<times> 's Channel" where
  "recordLatencyHandleFunc E rawMsg c =
     (case ch_latencyMeasurer c of
        None \<Rightarrow> (None, c)
      | Some m \<Rightarrow>
          (case ce_MeasureLatency E rawMsg of
             Inl err \<Rightarrow> (Some err, c)
           | Inr (tName, latency) \<Rightarrow>
               if tName = '''' then (None, c)
               else (None, c\<lparr>ch_latencyMeasurer := Some (RecordLatency tName latency m)\<rparr>)))"

text \<open>Cancelling the context stops the goroutines of every connection dialled so far; it closes no connection.\<close>

definition wsCancel :: "'s Channel \<Rightarrow> 's Channel" where
  "wsCancel c = c\<lparr>ch_conns := map (\<lambda>k. k\<lparr>cn_cancelled := True\<rparr>) (ch_conns c)\<rparr>"

definition reconnect :: "'s ChannelEnv \<Rightarrow> errmsg option \<Rightarrow> bool \<Rightarrow> (msg \<Rightarrow> errmsg option) \<Rightarrow> 's Channel \<Rightarrow> errmsg option \<times> 's Channel" where
  "reconnect E dial authSent write c = initAndListen E dial authSent write (wsCancel c)"

section \<open>Start\<close>

definition Start_begin :: "'s ChannelEnv \<Rightarrow> errmsg option \<Rightarrow> bool \<Rightarrow> (msg \<Rightarrow> errmsg option) \<Rightarrow> 's Channel \<Rightarrow> 's Channel" where
  "Start_begin E dial authSent write c =
     (case initAndListen E dial authSent write (c\<lparr>ch_isRunning := True\<rparr>) of
        (Some err, c1) \<Rightarrow> (wsCancel c1)\<lparr>ch_loop := LoopReturned (Some err)\<rparr>
      | (None, c1) \<Rightarrow> (ch_setStatus ChannelStatusConnected c1)\<lparr>ch_loop := LoopSelect\<rparr>)"

text \<open>A send on \<open>reconnectSigChan\<close> from the loop itself: when the buffer is full nobody can empty it.\<close>

definition send_sig :: "('s Channel \<Rightarrow> 's Channel) \<Rightarrow> 's Channel \<Rightarrow> 's Channel" where
  "send_sig k c = (if ch_sigs c < sigCap then k (c\<lparr>ch_sigs := ch_sigs c + 1\<rparr>) else c\<lparr>ch_loop := LoopBlocked\<rparr>)"

text \<open>The common body of the branches of \<open>alertChan\<close>, \<open>errChan\<close> and \<open>authErrChan\<close>.\<close>

definition on_failure :: "'s Channel \<Rightarrow> 's Channel" where
  "on_failure c = send_sig (ch_setStatus ChannelStatusDisconnected) c"

definition on_ctx_done :: "'s Channel \<Rightarrow> 's Channel" where
  "on_ctx_done c =
     (let c1 = upd_conn (length (ch_conns c) - 1) (cn_open_update (\<lambda>_. False)) c;
          c2 = wsCancel c1
      in c2\<lparr>ch_isRunning := False, ch_loop := LoopReturned None\<rparr>)"

text \<open>The branch of \<open>reconnectSigChan\<close>, before and after the outcome of \<open>reconnect\<close>.\<close>

definition on_sig :: "'s Channel \<Rightarrow> 's Channel" where
  "on_sig c = (resetReconnectSigChan (ch_setStatus ChannelStatusReconnecting (c\<lparr>ch_sigs := ch_sigs c - 1\<rparr>)))\<lparr>ch_loop := LoopReconnect\<rparr>"

definition on_reconnect :: "'s ChannelEnv \<Rightarrow> errmsg option \<Rightarrow> bool \<Rightarrow> (msg \<Rightarrow> errmsg option) \<Rightarrow> 's Channel \<Rightarrow> 's Channel" where
  "on_reconnect E dial authSent write c =
     (case reconnect E dial authSent write c of
        (Some err, c1) \<Rightarrow>
          (let c2 = ch_setStatus ChannelStatusDisconnected c1;
               c3 = c2\<lparr>ch_reconnectCount := ch_reconnectCount c2 + 1, ch_loop := LoopSelect\<rparr>
           in send_sig id c3)
      | (None, c1) \<Rightarrow> (ch_setStatus ChannelStatusConnected c1)\<lparr>ch_reconnectCount := 0, ch_loop := LoopSelect\<rparr>)"

text \<open>The branch of \<open>msgChan\<close>: a closed and empty channel delivers the empty message.\<close>

definition on_msg :: "'s ChannelEnv \<Rightarrow> time \<Rightarrow> 's Channel \<Rightarrow> 's Channel" where
  "on_msg E now c =
     (let i = length (ch_conns c) - 1; k = ch_conns c ! i in
      case cn_msgs k of
        [] \<Rightarrow> snd (handleTopicMessage E now '''' c)
      | m # ms \<Rightarrow> snd (handleTopicMessage E now m (upd_conn i (cn_msgs_update (\<lambda>_. ms)) c)))"

section \<open>Goroutines of a connection\<close>

text \<open>The handlers \<open>initialize\<close> registers for connection \<open>i\<close>; \<open>sent\<close> is for a repeated authentication request.\<close>

definition pong_handler :: "'s ChannelEnv \<Rightarrow> nat \<Rightarrow> time \<Rightarrow> (msg, errmsg, 's Channel) MessageReceiveHandleFunc" where
  "pong_handler E i now rawMsg c =
     bind_r (PongReceiveHandleFunc (ce_matchPong E) now rawMsg (cn_hc (ch_conns c ! i)))
       (\<lambda>hc. Inr (None, upd_conn i (cn_hc_update (\<lambda>_. hc)) c))"

definition auth_handler :: "'s ChannelEnv \<Rightarrow> nat \<Rightarrow> bool \<Rightarrow> (msg, errmsg, 's Channel) MessageReceiveHandleFunc" where
  "auth_handler E i sent rawMsg c =
     (case cn_author (ch_conns c ! i) of
        None \<Rightarrow> Inr (None, c)
      | Some a \<Rightarrow> bind_r (HandleAuthMessage (ce_checkResponse E) sent rawMsg a)
          (\<lambda>(err, errs, a'). Inr (err, upd_conn i (cn_author_update (\<lambda>_. Some a')) c)))"

definition conn_handlers :: "'s ChannelEnv \<Rightarrow> nat \<Rightarrow> time \<Rightarrow> bool \<Rightarrow> 's Channel \<Rightarrow> (msg, errmsg, 's Channel) MessageReceiveHandleFunc list" where
  "conn_handlers E i now sent c =
     (let hs = SetHandler (pong_handler E i now) [];
          hs = SetHandler (\<lambda>m c. Inr (recordLatencyHandleFunc E m c)) hs;
          hs = SetHandler (\<lambda>m c. Inr (case ce_HandleSubscribeResp E m (ch_topicMg c) of (err, s) \<Rightarrow> (err, c\<lparr>ch_topicMg := s\<rparr>))) hs
      in if isPrivateChan c then SetHandler (auth_handler E i sent) hs else hs)"

definition conn_receive :: "'s ChannelEnv \<Rightarrow> nat \<Rightarrow> time \<Rightarrow> bool \<Rightarrow> errmsg + bool \<times> msg \<Rightarrow> 's Channel \<Rightarrow> 's Channel result" where
  "conn_receive E i now sent rd c =
     bind_r (mr_turn (ce_decodeGzip E) (conn_handlers E i now sent c) rd c) (\<lambda>(out, c1).
       Inr (case out of
              Inl err \<Rightarrow> upd_conn i (cn_reading_update (\<lambda>_. False)) c1
            | Inr m \<Rightarrow> upd_conn i (cn_msgs_update (\<lambda>ms. ms @ [m])) c1))"

definition conn_ping :: "nat \<Rightarrow> bool \<Rightarrow> time \<Rightarrow> time \<Rightarrow> 's Channel \<Rightarrow> 's Channel" where
  "conn_ping i sent t1 t2 c =
     (case hc_tick sent t1 t2 (cn_hc (ch_conns c ! i)) of (alerts, hc) \<Rightarrow>
        upd_conn i (\<lambda>k. k\<lparr>cn_hc := hc, cn_alerts := alerts\<rparr>) c)"

section \<open>Events\<close>

datatype ch_event =
    EvStart "errmsg option" bool "msg \<Rightarrow> errmsg option"
  | EvAlert | EvErr | EvAuthErr
  | EvSig | EvReconnect "errmsg option" bool "msg \<Rightarrow> errmsg option"
  | EvMsg time | EvDone
  | EvReceive nat time bool "errmsg + bool \<times> msg"
  | EvPing nat bool time time
  | EvHcDone nat | EvAuDone nat

definition cur :: "'s Channel \<Rightarrow> conn" where
  "cur c = ch_conns c ! (length (ch_conns c) - 1)"

text \<open>When a branch of the \<open>select\<close> or a goroutine can move: a closed channel is always ready.\<close>

fun ch_enabled :: "ch_event \<Rightarrow> 's Channel \<Rightarrow> bool" where
  "ch_enabled (EvStart dial a w) c = (ch_loop c = LoopIdle)"
| "ch_enabled EvAlert c = (ch_loop c = LoopSelect \<and> (cn_alerts (cur c) \<noteq> [] \<or> hc_closed (cn_hc (cur c))))"
| "ch_enabled EvErr c = (ch_loop c = LoopSelect \<and> \<not> cn_reading (cur c))"
| "ch_enabled EvAuthErr c = (ch_loop c = LoopSelect \<and> (case cn_author (cur c) of None \<Rightarrow> False | Some a \<Rightarrow> au_closed a))"
| "ch_enabled EvSig c = (ch_loop c = LoopSelect \<and> 0 < ch_sigs c)"
| "ch_enabled (EvReconnect dial a w) c = (ch_loop c = LoopReconnect)"
| "ch_enabled (EvMsg now) c = (ch_loop c = LoopSelect \<and> (cn_msgs (cur c) \<noteq> [] \<or> \<not> cn_reading (cur c)))"
| "ch_enabled EvDone c = (ch_loop c = LoopSelect)"
| "ch_enabled (EvReceive i now sent rd) c =
     (i < length (ch_conns c) \<and> cn_reading (ch_conns c ! i) \<and> length (cn_msgs (ch_conns c ! i)) < msgCap \<and>
      (cn_open (ch_conns c ! i) \<or> isl rd))"
| "ch_enabled (EvPing i sent t1 t2) c =
     (i < length (ch_conns c) \<and> \<not> hc_closed (cn_hc (ch_conns c ! i)) \<and> cn_alerts (ch_conns c ! i) = [])"
| "ch_enabled (EvHcDone i) c = (i < length (ch_conns c) \<and> cn_cancelled (ch_conns c ! i) \<and> cn_alerts (ch_conns c ! i) = [])"
| "ch_enabled (EvAuDone i) c = (i < length (ch_conns c) \<and> cn_cancelled (ch_conns c ! i))"

fun ch_exec :: "'s ChannelEnv \<Rightarrow> ch_event \<Rightarrow> 's Channel \<Rightarrow> 's Channel result" where
  "ch_exec E (EvStart dial a w) c = Inr (Start_begin E dial a w c)"
| "ch_exec E EvAlert c = Inr (on_failure (upd_conn (length (ch_conns c) - 1) (cn_alerts_update tl) c))"
| "ch_exec E EvErr c = Inr (on_failure c)"
| "ch_exec E EvAuthErr c = Inr (on_failure c)"
| "ch_exec E EvSig c = Inr (on_sig c)"
| "ch_exec E (EvReconnect dial a w) c = Inr (on_reconnect E dial a w c)"
| "ch_exec E (EvMsg now) c = Inr (on_msg E now c)"
| "ch_exec E EvDone c = Inr (on_ctx_done c)"
| "ch_exec E (EvReceive i now sent rd) c = conn_receive E i now sent rd c"
| "ch_exec E (EvPing i sent t1 t2) c = Inr (conn_ping i sent t1 t2 c)"
| "ch_exec E (EvHcDone i) c = Inr (upd_conn i (cn_hc_update hc_done) c)"
| "ch_exec E (EvAuDone i) c = Inr (upd_conn i (cn_author_update (map_option au_done)) c)"

inductive ch_step :: "'s ChannelEnv \<Rightarrow> 's Channel \<Rightarrow> 's Channel \<Rightarrow> bool" for E where
  "ch_enabled e c \<Longrightarrow> ch_exec E e c = Inr c' \<Longrightarrow> ch_step E c c'"

section \<open>Control state\<close>

text \<open>What the loop decides on, and which connections are open; the goroutines do not touch it.\<close>

definition ctl :: "'s Channel \<Rightarrow> bool \<times> ChannelStatus \<times> int \<times> nat \<times> loop \<times> bool list" where
  "ctl c = (ch_isRunning c, ch_status c, ch_reconnectCount c, ch_sigs c, ch_loop c, map cn_open (ch_conns c))"

lemma ctl_upd_conn:
  assumes "\<And>k. cn_open (f k) = cn_open k"
  shows "ctl (upd_conn i f c) = ctl c"
proof -
  have "(map cn_open (ch_conns c))[i := cn_open (ch_conns c ! i)] = map cn_open (ch_conns c)"
    by (cases "i < length (ch_conns c)") (simp_all add: list_update_beyond flip: nth_map)
  then show ?thesis by (simp add: ctl_def upd_conn_def map_update assms)
qed

lemma ctl_topicMg [simp]: "ctl (c\<lparr>ch_topicMg := s\<rparr>) = ctl c"
  by (simp add: ctl_def)

lemma run_handlers_inv:
  assumes "run_handlers hs m s = Inr (err, s')" and "P s"
    and "\<And>h s e s'. h \<in> set hs \<Longrightarrow> P s \<Longrightarrow> h m s = Inr (e, s') \<Longrightarrow> P s'"
  shows "P s'"
  using assms
proof (induction hs arbitrary: s)
  case (Cons h hs)
  from Cons.prems(1) obtain e s1 where h: "h m s = Inr (e, s1)" by (auto simp: bind_r_eq_Inr)
  then have P: "P s1" using Cons.prems(2,3) by (meson list.set_intros(1))
  show ?case
  proof (cases e)
    case None
    with h Cons.prems(1) have "run_handlers hs m s1 = Inr (err, s')" by simp
    from Cons.IH [OF this P] Cons.prems(3) show ?thesis by (meson list.set_intros(2))
  next
    case (Some x)
    with h Cons.prems(1) P show ?thesis by simp
  qed
qed simp

lemma mr_turn_inv:
  assumes "mr_turn decode hs rd s = Inr (out, s')" and "P s"
    and "\<And>h m s e s'. h \<in> set hs \<Longrightarrow> P s \<Longrightarrow> h m s = Inr (e, s') \<Longrightarrow> P s'"
  shows "P s'"
proof -
  consider "s' = s" | m e where "run_handlers hs m s = Inr (e, s')"
    using assms(1) by (auto simp: mr_turn_def bind_r_eq_Inr split: sum.splits if_splits option.splits)
  then show ?thesis by cases (use assms run_handlers_inv [of hs _ s _ s' P] in blast)+
qed

lemma ctl_conn_handlers:
  assumes "h \<in> set (conn_handlers E i now sent c0)" and "h m c = Inr (e, c')"
  shows "ctl c' = ctl c"
proof -
  consider "h = pong_handler E i now" | "h = (\<lambda>m c. Inr (recordLatencyHandleFunc E m c))"
    | "h = (\<lambda>m c. Inr (case ce_HandleSubscribeResp E m (ch_topicMg c) of (err, s) \<Rightarrow> (err, c\<lparr>ch_topicMg := s\<rparr>)))"
    | "h = auth_handler E i sent"
    using assms(1) by (auto simp: conn_handlers_def SetHandler_def Let_def split: if_splits)
  then show ?thesis
  proof cases
    case 1
    with assms(2) show ?thesis by (auto simp: pong_handler_def bind_r_eq_Inr ctl_upd_conn)
  next
    case 2
    with assms(2) show ?thesis
      by (auto simp: recordLatencyHandleFunc_def ctl_def split: option.splits sum.splits if_splits)
  next
    case 3
    with assms(2) show ?thesis by (auto split: prod.splits)
  next
    case 4
    with assms(2) show ?thesis by (auto simp: auth_handler_def bind_r_eq_Inr ctl_upd_conn split: option.splits)
  qed
qed

lemma ctl_receive: "conn_receive E i now sent rd c = Inr c' \<Longrightarrow> ctl c' = ctl c"
proof -
  assume "conn_receive E i now sent rd c = Inr c'"
  then obtain out c1 where "mr_turn (ce_decodeGzip E) (conn_handlers E i now sent c) rd c = Inr (out, c1)"
    and c': "c' = (case out of Inl err \<Rightarrow> upd_conn i (cn_reading_update (\<lambda>_. False)) c1
            | Inr m \<Rightarrow> upd_conn i (cn_msgs_update (\<lambda>ms. ms @ [m])) c1)"
    by (auto simp: conn_receive_def bind_r_eq_Inr)
  then have "ctl c1 = ctl c" by (elim mr_turn_inv [where P = "\<lambda>x. ctl x = ctl c"]) (auto dest: ctl_conn_handlers)
  then show ?thesis by (auto simp: c' ctl_upd_conn split: sum.split)
qed

lemma ctl_topic_message: "ctl (snd (handleTopicMessage E now m c)) = ctl c"
  by (simp add: handleTopicMessage_def split: prod.split)

lemma ctl_goroutine:
  assumes "ch_exec E e c = Inr c'"
    and "case e of EvMsg now \<Rightarrow> True | EvReceive i now sent rd \<Rightarrow> True | EvPing i sent t1 t2 \<Rightarrow> True | EvHcDone i \<Rightarrow> True | EvAuDone i \<Rightarrow> True | _ \<Rightarrow> False"
  shows "ctl c' = ctl c"
  using assms
  by (cases e) (auto simp: on_msg_def conn_ping_def ctl_topic_message ctl_upd_conn Let_def split: list.split prod.split intro: ctl_receive)

end
