(* ===== verification/Channel_Correct.thy ===== *)
theory Channel_Correct
  imports Channel
begin

text \<open>
  Correctness of the channel's loop over every interleaving of its branches with the
  goroutines of its connections: the invariant that ties the status to the pending
  reconnection signals, the status machine, and what reconnection leaves behind.
\<close>

section \<open>Invariant\<close>

fun ctl_ok :: "bool \<times> ChannelStatus \<times> int \<times> nat \<times> loop \<times> bool list \<Rightarrow> bool" where
  "ctl_ok (run, st, cnt, sg, LoopIdle, opens) = (\<not> run \<and> st = ChannelStatusUnknown \<and> cnt = 0 \<and> sg = 0 \<and> opens = [])"
| "ctl_ok (run, st, cnt, sg, LoopSelect, opens) = (run \<and> opens \<noteq> [] \<and> list_all id opens \<and> 0 \<le> cnt \<and>
     (st = ChannelStatusConnected \<and> sg = 0 \<and> cnt = 0 \<or> st = ChannelStatusDisconnected \<and> 0 < sg \<and> sg \<le> sigCap))"
| "ctl_ok (run, st, cnt, sg, LoopReconnect, opens) =
     (run \<and> opens \<noteq> [] \<and> list_all id opens \<and> 0 \<le> cnt \<and> st = ChannelStatusReconnecting \<and> sg = 0)"
| "ctl_ok (run, st, cnt, sg, LoopBlocked, opens) =
     (run \<and> list_all id opens \<and> st = ChannelStatusDisconnected \<and> sg = sigCap)"
| "ctl_ok (run, st, cnt, sg, LoopReturned (Some e), opens) = (run \<and> st = ChannelStatusUnknown \<and> list_all id opens)"
| "ctl_ok (run, st, cnt, sg, LoopReturned None, opens) = (\<not> run)"

definition chinv :: "'s Channel \<Rightarrow> bool" where
  "chinv c = ctl_ok (ctl c)"

lemma opens_wsCancel [simp]: "map cn_open (ch_conns (wsCancel c)) = map cn_open (ch_conns c)"
  by (simp add: wsCancel_def comp_def)

lemma wsCancel_frame [simp]:
  "ch_isRunning (wsCancel c) = ch_isRunning c" "ch_status (wsCancel c) = ch_status c" "ch_reconnectCount (wsCancel c) = ch_reconnectCount c"
  "ch_sigs (wsCancel c) = ch_sigs c" "ch_loop (wsCancel c) = ch_loop c"
  by (simp_all add: wsCancel_def)

text \<open>A successful dial adds an open connection, whatever happens next; a failed one changes nothing.\<close>

lemma initAndListen_ctl:
  assumes "initAndListen E dial a w c = (err, c')"
  shows "ch_isRunning c' = ch_isRunning c \<and> ch_status c' = ch_status c \<and> ch_reconnectCount c' = ch_reconnectCount c \<and>
    ch_sigs c' = ch_sigs c \<and> ch_loop c' = ch_loop c \<and>
    map cn_open (ch_conns c') = map cn_open (ch_conns c) @ (if dial = None then [True] else []) \<and>
    (dial \<noteq> None \<longrightarrow> err \<noteq> None)"
proof (cases dial)
  case (Some e)
  with assms show ?thesis by (auto simp: initAndListen_def initialize_def)
next
  case None
  let ?c = "c\<lparr>ch_conns := ch_conns c @ [new_conn c]\<rparr>"
  have "c' = upd_conn (length (ch_conns ?c) - 1) (start_goroutines a) ?c"
    using assms None by (auto simp: initAndListen_def initialize_def Let_def split: option.splits)
  moreover have "ctl (upd_conn (length (ch_conns ?c) - 1) (start_goroutines a) ?c) = ctl ?c"
    by (rule ctl_upd_conn) (simp add: start_goroutines_def)
  ultimately have "ctl c' = ctl ?c" by simp
  with None show ?thesis by (simp add: ctl_def new_conn_def)
qed

lemma Start_begin_cases:
  assumes "initAndListen E dial a w (c\<lparr>ch_isRunning := True\<rparr>) = (err, c1)"
  shows "Start_begin E dial a w c = (case err of Some e \<Rightarrow> (wsCancel c1)\<lparr>ch_loop := LoopReturned (Some e)\<rparr>
      | None \<Rightarrow> c1\<lparr>ch_status := ChannelStatusConnected, ch_loop := LoopSelect\<rparr>)"
  using assms by (simp add: Start_begin_def ch_setStatus_def split: option.split)

lemma chinv_start: "chinv c \<Longrightarrow> ch_loop c = LoopIdle \<Longrightarrow> chinv (Start_begin E dial a w c)"
proof -
  assume c: "chinv c" "ch_loop c = LoopIdle"
  obtain err c1 where r: "initAndListen E dial a w (c\<lparr>ch_isRunning := True\<rparr>) = (err, c1)" by fastforce
  from initAndListen_ctl [OF r] c show "chinv (Start_begin E dial a w c)"
    by (auto simp: Start_begin_cases [OF r] chinv_def ctl_def split: option.split)
qed

lemma on_failure_eq:
  "on_failure c = (if ch_sigs c < sigCap then c\<lparr>ch_sigs := ch_sigs c + 1, ch_status := ChannelStatusDisconnected\<rparr>
     else c\<lparr>ch_loop := LoopBlocked\<rparr>)"
  by (simp add: on_failure_def send_sig_def ch_setStatus_def)

lemma chinv_failure: "chinv c \<Longrightarrow> ch_loop c = LoopSelect \<Longrightarrow> chinv (on_failure c)"
  by (auto simp: on_failure_eq chinv_def ctl_def sigCap_def)

lemma chinv_sig: "chinv c \<Longrightarrow> ch_loop c = LoopSelect \<Longrightarrow> chinv (on_sig c)"
  by (auto simp: on_sig_def resetReconnectSigChan_def ch_setStatus_def chinv_def ctl_def)

lemma on_reconnect_cases:
  assumes "reconnect E dial a w c = (err, c1)"
  shows "on_reconnect E dial a w c =
    (case err of Some e \<Rightarrow> send_sig id (c1\<lparr>ch_status := ChannelStatusDisconnected, ch_reconnectCount := ch_reconnectCount c1 + 1, ch_loop := LoopSelect\<rparr>)
     | None \<Rightarrow> c1\<lparr>ch_status := ChannelStatusConnected, ch_reconnectCount := 0, ch_loop := LoopSelect\<rparr>)"
  using assms by (simp add: on_reconnect_def ch_setStatus_def Let_def split: option.split)

lemma chinv_reconnect:
  assumes "chinv c" and "ch_loop c = LoopReconnect"
  shows "chinv (on_reconnect E dial a w c)"
proof -
  obtain err c1 where r: "reconnect E dial a w c = (err, c1)" by fastforce
  with initAndListen_ctl [of E dial a w "wsCancel c" err c1] assms show ?thesis
    by (auto simp: on_reconnect_cases [OF r] reconnect_def send_sig_def chinv_def ctl_def sigCap_def split: option.split)
qed

lemma chinv_done: "chinv (on_ctx_done c)"
  by (simp add: on_ctx_done_def chinv_def ctl_def Let_def)

lemma chinv_ctl: "ctl c' = ctl c \<Longrightarrow> chinv c' = chinv c"
  by (simp add: chinv_def)

lemma chinv_step:
  assumes "chinv c" and "ch_step E c c'"
  shows "chinv c'"
  using assms(2)
proof cases
  case (1 e)
  show ?thesis
  proof (cases "case e of EvMsg now \<Rightarrow> True | EvReceive i now sent rd \<Rightarrow> True | EvPing i sent t1 t2 \<Rightarrow> True | EvHcDone i \<Rightarrow> True | EvAuDone i \<Rightarrow> True | _ \<Rightarrow> False")
    case True
    with ctl_goroutine [OF 1(2)] assms(1) show ?thesis by (simp add: chinv_def)
  next
    case False
    let ?alert = "upd_conn (length (ch_conns c) - 1) (cn_alerts_update tl) c"
    have "chinv ?alert" "ch_loop ?alert = ch_loop c"
      using assms(1) chinv_ctl [OF ctl_upd_conn [of "cn_alerts_update tl" "length (ch_conns c) - 1" c]] by (simp_all add: upd_conn_def)
    with False 1 assms(1) show ?thesis
      by (cases e) (auto intro: chinv_start chinv_failure chinv_sig chinv_reconnect chinv_done)
  qed
qed

definition ch_init :: "ScopeType \<Rightarrow> LatencyMeasurer option \<Rightarrow> 's \<Rightarrow> 's Channel \<Rightarrow> bool" where
  "ch_init scope measurer mg c \<longleftrightarrow> c = NewChannel scope measurer mg"

interpretation channel: invariant_system "ch_init scope measurer mg" "ch_step E" chinv
proof unfold_locales
  show "chinv s" if "ch_init scope measurer mg s" for s :: "'a Channel"
    using that by (simp add: ch_init_def NewChannel_def chinv_def ctl_def)
qed (rule chinv_step)

section \<open>The status machine\<close>

fun status_edge :: "ChannelStatus \<Rightarrow> ChannelStatus \<Rightarrow> bool" where
  "status_edge ChannelStatusUnknown s = (s = ChannelStatusConnected)"
| "status_edge ChannelStatusConnected s = (s = ChannelStatusDisconnected)"
| "status_edge ChannelStatusDisconnected s = (s = ChannelStatusReconnecting)"
| "status_edge ChannelStatusReconnecting s = (s = ChannelStatusConnected \<or> s = ChannelStatusDisconnected)"

lemma failure_edge:
  "ch_status c = ChannelStatusConnected \<or> ch_status c = ChannelStatusDisconnected \<Longrightarrow>
   ch_status (on_failure c) = ch_status c \<or> status_edge (ch_status c) (ch_status (on_failure c))"
  by (auto simp: on_failure_eq)

lemma step_edge:
  assumes "chinv c" and "ch_step E c c'"
  shows "ch_status c' = ch_status c \<or> status_edge (ch_status c) (ch_status c')"
  using assms(2)
proof cases
  case (1 e)
  note inv = assms(1) [unfolded chinv_def ctl_def]
  have sel: "ch_loop c = LoopSelect \<Longrightarrow> ch_status c = ChannelStatusConnected \<or> ch_status c = ChannelStatusDisconnected"
    using inv by auto
  show ?thesis
  proof (cases e)
    case (EvStart dial a w)
    obtain err c1 where r: "initAndListen E dial a w (c\<lparr>ch_isRunning := True\<rparr>) = (err, c1)" by fastforce
    have "ch_status c = ChannelStatusUnknown" "c' = Start_begin E dial a w c" using EvStart 1 inv by auto
    moreover have "ch_status c1 = ch_status c" using initAndListen_ctl [OF r] by simp
    ultimately show ?thesis by (cases err) (simp_all add: Start_begin_cases [OF r])
  next
    case (EvReconnect dial a w)
    obtain err c1 where r: "reconnect E dial a w c = (err, c1)" by fastforce
    have "ch_status c = ChannelStatusReconnecting" "c' = on_reconnect E dial a w c" using EvReconnect 1 inv by auto
    then show ?thesis by (cases err) (simp_all add: on_reconnect_cases [OF r] send_sig_def)
  next
    case EvAlert
    with 1 sel failure_edge [of "upd_conn (length (ch_conns c) - 1) (cn_alerts_update tl) c"] show ?thesis
      by (simp add: upd_conn_def)
  next
    case EvErr
    with 1 sel failure_edge [of c] show ?thesis by simp
  next
    case EvAuthErr
    with 1 sel failure_edge [of c] show ?thesis by simp
  next
    case EvSig
    with 1 inv show ?thesis by (auto simp: on_sig_def resetReconnectSigChan_def ch_setStatus_def)
  next
    case EvDone
    with 1 show ?thesis by (auto simp: on_ctx_done_def Let_def upd_conn_def)
  qed (use ctl_goroutine [OF 1(2)] in \<open>auto simp: ctl_def\<close>)
qed

section \<open>Connections left behind\<close>

lemma initAndListen_old_conn:
  assumes "i < length (ch_conns c)" and "initAndListen E dial a w c = (err, c')"
  shows "ch_conns c' ! i = ch_conns c ! i \<and> i < length (ch_conns c')"
  using assms by (auto simp: initAndListen_def initialize_def upd_conn_def nth_append Let_def split: option.splits)

lemma reconnect_old_conn:
  assumes "i < length (ch_conns c)"
  shows "ch_conns (on_reconnect E dial a w c) ! i = (ch_conns c ! i)\<lparr>cn_cancelled := True\<rparr> \<and>
    i < length (ch_conns (on_reconnect E dial a w c))"
proof -
  obtain err c1 where r: "reconnect E dial a w c = (err, c1)" by fastforce
  have "ch_conns (on_reconnect E dial a w c) = ch_conns c1"
    by (simp add: on_reconnect_cases [OF r] send_sig_def split: option.split)
  moreover have "i < length (ch_conns (wsCancel c))" "ch_conns (wsCancel c) ! i = (ch_conns c ! i)\<lparr>cn_cancelled := True\<rparr>"
    using assms by (simp_all add: wsCancel_def)
  ultimately show ?thesis using initAndListen_old_conn [of i "wsCancel c" E dial a w err c1] r by (simp add: reconnect_def)
qed

lemma reconnect_opens:
  "map cn_open (ch_conns (on_reconnect E None a w c)) = map cn_open (ch_conns c) @ [True]"
proof -
  obtain err c1 where r: "reconnect E None a w c = (err, c1)" by fastforce
  have "ch_conns (on_reconnect E None a w c) = ch_conns c1"
    by (simp add: on_reconnect_cases [OF r] send_sig_def split: option.split)
  with initAndListen_ctl [of E None a w "wsCancel c" err c1] r show ?thesis by (simp add: reconnect_def)
qed

lemma receive_pong_closed:
  assumes "ce_matchPong E = Some f" and "f pong" and "hc_closed (cn_hc (ch_conns c ! i))"
  shows "conn_receive E i now sent (Inr (False, pong)) c = Inl SendOnClosedChannel"
proof -
  have "\<exists>hs. conn_handlers E i now sent c = pong_handler E i now # hs"
    by (simp add: conn_handlers_def SetHandler_def Let_def)
  then show ?thesis
    using assms by (auto simp: conn_receive_def mr_turn_def pong_handler_def PongReceiveHandleFunc_def send_pong_def)
qed

lemma all_open: "chinv c \<Longrightarrow> ch_loop c \<noteq> LoopReturned None \<Longrightarrow> list_all id (map cn_open (ch_conns c))"
  by (cases "(ch_isRunning c, ch_status c, ch_reconnectCount c, ch_sigs c, ch_loop c, map cn_open (ch_conns c))" rule: ctl_ok.cases)
    (auto simp: chinv_def ctl_def)

section \<open>A concrete channel\<close>

text \<open>
  A public channel whose first ping fails: it connects, is told of the failure and starts a
  reconnection.
\<close>

fun ch_play :: "'s ChannelEnv \<Rightarrow> ch_event list \<Rightarrow> 's Channel \<Rightarrow> 's Channel option" where
  "ch_play E [] c = Some c"
| "ch_play E (e # es) c =
     (if ch_enabled e c then (case ch_exec E e c of Inr c' \<Rightarrow> ch_play E es c' | Inl _ \<Rightarrow> None) else None)"

lemma play_reach: "ch_play E es c = Some c' \<Longrightarrow> reach ini (ch_step E) c \<Longrightarrow> reach ini (ch_step E) c'"
proof (induction es arbitrary: c)
  case (Cons e es)
  then obtain c1 where "ch_enabled e c" "ch_exec E e c = Inr c1" "ch_play E es c1 = Some c'"
    by (auto split: if_splits sum.splits)
  with Cons show ?case by (meson ch_step.intros reach_step)
qed simp

definition demo_env :: "nat ChannelEnv" where
  "demo_env = \<lparr>ce_SubscribeRequests = [''subscribe''], ce_HandleTopicMessage = \<lambda>t m n. (None, n + 1),
     ce_HandleSubscribeResp = \<lambda>m n. (None, n), ce_MeasureLatency = \<lambda>m. Inr ([], 0),
     ce_matchPong = Some (\<lambda>m. m = ''pong''), ce_checkResponse = \<lambda>m. Inr (False, False), ce_decodeGzip = \<lambda>m. Inr m\<rparr>"

definition demo_channel_events :: "ch_event list" where
  "demo_channel_events = [EvStart None True (\<lambda>_. None), EvPing 0 False 5 5, EvAlert, EvSig]"

definition demo_channel :: "nat \<Rightarrow> nat Channel" where
  "demo_channel n = the (ch_play demo_env (take n demo_channel_events) (NewChannel ScopeTypePublic None 0))"

lemmas demo_defs = demo_channel_events_def NewChannel_def Start_begin_def initAndListen_def initialize_def new_conn_def
  start_goroutines_def isPrivateChan_def upd_conn_def ch_setStatus_def demo_env_def conn_ping_def hc_tick_def isTimeout_def
  NewHealthChecker_def cur_def on_failure_def send_sig_def sigCap_def on_sig_def resetReconnectSigChan_def
  timeoutDuration_def Time_Sub_def maxDuration_def minDuration_def Let_def

lemma demo_connected:
  "ch_play demo_env (take 1 demo_channel_events) (NewChannel ScopeTypePublic None 0) = Some (demo_channel 1)"
  "ch_loop (demo_channel 1) = LoopSelect" "ch_status (demo_channel 1) = ChannelStatusConnected"
  by (simp_all add: demo_channel_def demo_defs)

lemma demo_reconnecting:
  "ch_play demo_env (take 4 demo_channel_events) (NewChannel ScopeTypePublic None 0) = Some (demo_channel 4)"
  "ch_loop (demo_channel 4) = LoopReconnect" "length (ch_conns (demo_channel 4)) = 1"
  "cn_reading (ch_conns (demo_channel 4) ! 0)" "cn_alerts (ch_conns (demo_channel 4) ! 0) = []"
  "cn_msgs (ch_conns (demo_channel 4) ! 0) = []"
  by (simp_all add: demo_channel_def demo_defs)

lemma demo_channel_reach:
  "reach (ch_init ScopeTypePublic None 0) (ch_step demo_env) (demo_channel 1)"
  "reach (ch_init ScopeTypePublic None 0) (ch_step demo_env) (demo_channel 4)"
  by (rule play_reach [OF demo_connected(1)], rule reach_init, simp add: ch_init_def)
    (rule play_reach [OF demo_reconnecting(1)], rule reach_init, simp add: ch_init_def)

section \<open>Properties\<close>

text \<open>
  C25. A channel that has lost its connection never forgets to reconnect: in every reachable
  state in which the loop waits at its \<open>select\<close>, either the channel is connected and no
  reconnection signal is pending, or it is disconnected and one is; during a reconnection the
  status says so; and the loop can block in its own send only with a thousand signals
  pending.
\<close>

theorem disconnected_channel_has_signal:
  assumes "reach (ch_init scope measurer mg) (ch_step E) c"
  shows "(ch_loop c = LoopSelect \<longrightarrow> ch_isRunning c \<and>
       (ch_status c = ChannelStatusConnected \<and> ch_sigs c = 0 \<and> ch_reconnectCount c = 0 \<or>
        ch_status c = ChannelStatusDisconnected \<and> 0 < ch_sigs c \<and> ch_enabled EvSig c)) \<and>
     (ch_loop c = LoopReconnect \<longrightarrow> ch_status c = ChannelStatusReconnecting) \<and>
     (ch_loop c = LoopBlocked \<longrightarrow> ch_sigs c = 1000)"
  using channel.reachable_inv [OF assms]
  by (cases "(ch_isRunning c, ch_status c, ch_reconnectCount c, ch_sigs c, ch_loop c, map cn_open (ch_conns c))" rule: ctl_ok.cases)
    (auto simp: chinv_def ctl_def sigCap_def)

theorem disconnected_channel_has_signal_witness:
  "ch_loop (demo_channel 1) = LoopSelect \<and> ch_sigs (demo_channel 1) = 0 \<and>
   ch_loop (demo_channel 4) = LoopReconnect \<and> ch_status (demo_channel 4) = ChannelStatusReconnecting"
  using disconnected_channel_has_signal [OF demo_channel_reach(1)] disconnected_channel_has_signal [OF demo_channel_reach(2)]
  by (simp add: demo_connected demo_reconnecting del: One_nat_def)

text \<open>
  The channel's status moves only along the edges of its life cycle: unknown to connected,
  connected to disconnected, disconnected to reconnecting, reconnecting to connected or back
  to disconnected.
\<close>

theorem channel_status_life_cycle:
  assumes "reach (ch_init scope measurer mg) (ch_step E) c" and "ch_step E c c'"
  shows "ch_status c' = ch_status c \<or> status_edge (ch_status c) (ch_status c')"
  using channel.reachable_inv [OF assms(1)] assms(2) by (rule step_edge)

theorem channel_status_life_cycle_witness:
  "ch_step demo_env (demo_channel 4) (on_reconnect demo_env (Some ''refused'') True (\<lambda>_. None) (demo_channel 4)) \<and>
   (let s = ch_status (on_reconnect demo_env (Some ''refused'') True (\<lambda>_. None) (demo_channel 4)) in
    s = ch_status (demo_channel 4) \<or> status_edge (ch_status (demo_channel 4)) s)"
proof -
  have "ch_step demo_env (demo_channel 4) (on_reconnect demo_env (Some ''refused'') True (\<lambda>_. None) (demo_channel 4))"
    by (rule ch_step.intros [where e = "EvReconnect (Some ''refused'') True (\<lambda>_. None)"]) (simp_all add: demo_reconnecting)
  with channel_status_life_cycle [OF demo_channel_reach(2) this] show ?thesis by (simp add: Let_def)
qed

text \<open>
  Reconnection never closes the connection it replaces: when a reconnection dials
  successfully, every connection dialled since \<open>Start\<close> is open, the new one in addition to
  all the old ones.
\<close>

theorem reconnect_leaks_connections:
  assumes "reach (ch_init scope measurer mg) (ch_step E) c" and "ch_loop c = LoopReconnect"
  shows "length (ch_conns (on_reconnect E None a w c)) = length (ch_conns c) + 1 \<and>
    (\<forall>k \<in> set (ch_conns (on_reconnect E None a w c)). cn_open k)"
proof -
  have o: "list_all id (map cn_open (ch_conns c))"
    using all_open [OF channel.reachable_inv [OF assms(1)]] assms(2) by simp
  have "length (map cn_open (ch_conns (on_reconnect E None a w c))) = length (ch_conns c) + 1"
    by (simp only: reconnect_opens) simp
  moreover have "list_all id (map cn_open (ch_conns (on_reconnect E None a w c)))"
    using o by (simp only: reconnect_opens) simp
  ultimately show ?thesis by (simp add: list_all_iff)
qed

theorem reconnect_leaks_connections_witness:
  "length (ch_conns (on_reconnect demo_env None True (\<lambda>_. None) (demo_channel 4))) = 2 \<and>
   list_all cn_open (ch_conns (on_reconnect demo_env None True (\<lambda>_. None) (demo_channel 4)))"
  using reconnect_leaks_connections [OF demo_channel_reach(2) demo_reconnecting(2), of True "\<lambda>_. None"]
  by (simp add: demo_reconnecting list_all_iff)

text \<open>
  A late pong crashes the program: the receiver of a replaced connection is still reading,
  and once the health checker of that connection has noticed its cancellation and closed its
  channels, a pong arriving there is sent on a closed channel.
\<close>

theorem late_pong_panics:
  assumes "reach (ch_init scope measurer mg) (ch_step E) c" and "ch_loop c = LoopReconnect"
    and "i < length (ch_conns c)" and "cn_reading (ch_conns c ! i)" and "cn_alerts (ch_conns c ! i) = []"
    and "length (cn_msgs (ch_conns c ! i)) < msgCap"
    and "ce_matchPong E = Some f" and "f pong"
  shows "\<exists>c1 c2. ch_exec E (EvReconnect dial a w) c = Inr c1 \<and>
     ch_enabled (EvHcDone i) c1 \<and> ch_exec E (EvHcDone i) c1 = Inr c2 \<and>
     ch_enabled (EvReceive i now sent (Inr (False, pong))) c2 \<and>
     ch_exec E (EvReceive i now sent (Inr (False, pong))) c2 = Inl SendOnClosedChannel"
proof -
  let ?c1 = "on_reconnect E dial a w c"
  let ?c2 = "upd_conn i (cn_hc_update hc_done) ?c1"
  have k: "ch_conns ?c1 ! i = (ch_conns c ! i)\<lparr>cn_cancelled := True\<rparr>" "i < length (ch_conns ?c1)"
    using reconnect_old_conn [OF assms(3)] by blast+
  have o: "cn_open (ch_conns c ! i)"
    using all_open [OF channel.reachable_inv [OF assms(1)]] assms(2,3) by (simp add: list_all_iff)
  have k2: "ch_conns ?c2 ! i = cn_hc_update hc_done ((ch_conns c ! i)\<lparr>cn_cancelled := True\<rparr>)" "i < length (ch_conns ?c2)"
    using k by (simp_all add: upd_conn_def)
  have "conn_receive E i now sent (Inr (False, pong)) ?c2 = Inl SendOnClosedChannel"
    by (rule receive_pong_closed [OF assms(7,8)]) (simp add: k2 hc_done_def hc_chanClose_def)
  then show ?thesis using k k2 o assms(4-6) by (intro exI [of _ ?c1] exI [of _ ?c2]) simp
qed

theorem late_pong_panics_witness:
  "\<exists>c2. ch_exec demo_env (EvReceive 0 9 True (Inr (False, ''pong''))) c2 = Inl SendOnClosedChannel \<and>
     ch_enabled (EvReceive 0 9 True (Inr (False, ''pong''))) c2"
  using late_pong_panics [OF demo_channel_reach(2) demo_reconnecting(2), of 0 "\<lambda>m. m = ''pong''" "''pong''" None True "\<lambda>_. None" 9 True]
  by (auto simp: demo_reconnecting demo_env_def msgCap_def)

text \<open>
  A channel whose first dial fails stays marked as running: \<open>Start\<close> returns the error,
  and \<open>IsRunning\<close> keeps answering true.
\<close>

lemma failed_start_stays_running:
  "ch_isRunning (Start_begin E (Some err) a w c) \<and>
    ch_loop (Start_begin E (Some err) a w c) = LoopReturned (Some (''failed to initialize channel: failed to dial websocket: '' @ err))"
  by (simp add: Start_begin_def initAndListen_def initialize_def wsCancel_def)

end
