(* ===== verification/Channel_Group.thy ===== *)
theory Channel_Group
  imports Ttl_Cache Orders Strconv
begin

text \<open>
  \<open>internal/gateways/topic_manager.go\<close>, \<open>dedup_topic.go\<close> and \<open>channel_group.go\<close>: the
  interface of a topic, the topic that drops duplicates, and the group of redundant channels
  whose managers share the wrapped topics and one cache.

  An interface value is the record of its methods. The handlers of a topic work on a state
  \<open>'s\<close>; a wrapped topic works on that state together with the cache and the clock
  (\<open>sh_now\<close> is what \<open>time.Now()\<close> answers next).
\<close>

section \<open>topic\_manager.go\<close>

record ('m, 's) Topic =
  t_TopicName :: string
  t_SubscribeMsgID :: string
  t_request :: "int \<Rightarrow> string option"
  t_MsgHandler :: "time \<Rightarrow> 'm \<Rightarrow> 's \<Rightarrow> (error option \<times> 's) result"
  t_MessageID :: "'m \<Rightarrow> string"

text \<open>
  \<open>SubscribeMsg\<close>: a topic that subscribes by itself builds its request around a fresh
  identifier \<open>msgID\<close> and remembers it; the others answer nil.
\<close>

definition SubscribeMsg :: "int \<Rightarrow> ('m, 's) Topic \<Rightarrow> string option \<times> ('m, 's) Topic" where
  "SubscribeMsg msgID t =
     (case t_request t msgID of
        None \<Rightarrow> (None, t)
      | Some msg \<Rightarrow> (Some msg, t\<lparr>t_SubscribeMsgID := FormatInt msgID\<rparr>))"

record ('m, 's) Manager =
  mg_topicMap :: "string \<rightharpoonup> ('m, 's) Topic"
  mg_msgIDMap :: "string \<rightharpoonup> string"

text \<open>\<open>NewManager\<close> and \<open>SetTopics\<close> are the same for both exchanges (Bybit's manager has no \<open>msgIDMap\<close>).\<close>

definition NewManager :: "('m, 's) Manager" where
  "NewManager = \<lparr>mg_topicMap = Map.empty, mg_msgIDMap = Map.empty\<rparr>"

definition put_topic :: "('m, 's) Topic \<Rightarrow> (string \<rightharpoonup> ('m, 's) Topic) \<Rightarrow> (string \<rightharpoonup> ('m, 's) Topic)" where
  "put_topic t m = m(t_TopicName t \<mapsto> t)"

definition SetTopics :: "('m, 's) Topic list \<Rightarrow> ('m, 's) Manager \<Rightarrow> ('m, 's) Manager" where
  "SetTopics ts mg = mg\<lparr>mg_topicMap := fold put_topic ts (mg_topicMap mg)\<rparr>"

section \<open>dedup\_topic.go\<close>

record 's shared =
  sh_now :: time
  sh_cache :: TTLCache
  sh_state :: 's

definition dedup_MsgHandler ::
  "('m, 's) Topic \<Rightarrow> time \<Rightarrow> 'm \<Rightarrow> 's shared \<Rightarrow> (error option \<times> 's shared) result" where
  "dedup_MsgHandler inner timestamp rawMsg sh =
     (let i = t_MessageID inner rawMsg;
          (fresh, c) = (if i \<noteq> [] then AddIfAbsent (sh_now sh) i (sh_cache sh) else (True, sh_cache sh));
          sh' = sh\<lparr>sh_cache := c\<rparr>
      in if i \<noteq> [] \<and> \<not> fresh then Inr (None, sh')
         else bind_r (t_MsgHandler inner timestamp rawMsg (sh_state sh)) (\<lambda>(err, s). Inr (err, sh'\<lparr>sh_state := s\<rparr>)))"

definition newDedupTopic :: "('m, 's) Topic \<Rightarrow> ('m, 's shared) Topic" where
  "newDedupTopic inner =
     \<lparr>t_TopicName = t_TopicName inner, t_SubscribeMsgID = t_SubscribeMsgID inner, t_request = t_request inner,
      t_MsgHandler = dedup_MsgHandler inner, t_MessageID = t_MessageID inner\<rparr>"

section \<open>channel\_group.go\<close>

text \<open>The group keeps one manager per channel; the channels themselves are the subject of \<open>Channel\<close>.\<close>

record ('m, 's) ChannelGroup =
  gr_topicMgs :: "('m, 's shared) Manager list"
  gr_cache :: TTLCache

definition NewChannelGroup :: "nat \<Rightarrow> duration \<Rightarrow> ('m, 's) ChannelGroup" where
  "NewChannelGroup n dedupTTL = \<lparr>gr_topicMgs = replicate n NewManager, gr_cache = NewTTLCache dedupTTL\<rparr>"

definition group_SetTopics :: "('m, 's) Topic list \<Rightarrow> ('m, 's) ChannelGroup \<Rightarrow> ('m, 's) ChannelGroup" where
  "group_SetTopics topics g =
     (let wrapped = map newDedupTopic topics in g\<lparr>gr_topicMgs := map (SetTopics wrapped) (gr_topicMgs g)\<rparr>)"

text \<open>
  \<open>Start\<close> returns the first error a channel returns, or nil when the context is done first:
  the outcomes of the channels in the order they come in, \<open>None\<close> for the context.
\<close>

fun group_Start :: "error option option list \<Rightarrow> error option option" where
  "group_Start [] = None"
| "group_Start (None # evs) = Some None"
| "group_Start (Some (Some err) # evs) = Some (Some err)"
| "group_Start (Some None # evs) = group_Start evs"

section \<open>Routing\<close>

text \<open>
  What a topic manager promises: a message goes to the topic registered under its name,
  and without one nothing happens; a message whose name cannot be read is an error.
\<close>

locale topic_router =
  fixes name_of_msg :: "'m \<Rightarrow> error + string"
    and handle :: "time \<Rightarrow> 'm \<Rightarrow> ('m, 's) Manager \<Rightarrow> 's \<Rightarrow> (error option \<times> 's) result"
  assumes routed: "name_of_msg m = Inr n \<Longrightarrow> n \<noteq> [] \<Longrightarrow> mg_topicMap mg n = Some t \<Longrightarrow>
      handle ts m mg s = t_MsgHandler t ts m s"
    and unrouted: "name_of_msg m = Inr n \<Longrightarrow> mg_topicMap mg n = None \<Longrightarrow> handle ts m mg s = Inr (None, s)"
    and unreadable: "name_of_msg m = Inl e \<Longrightarrow> \<exists>e'. handle ts m mg s = Inr (Some e', s)"
begin

text \<open>A message of one topic never reaches another one.\<close>

lemma only_own_topic:
  assumes "name_of_msg m = Inr n" and "mg_topicMap mg n = mg_topicMap mg' n" and "n \<noteq> []"
  shows "handle ts m mg s = handle ts m mg' s"
proof (cases "mg_topicMap mg n")
  case None
  with assms unrouted [OF assms(1)] show ?thesis by metis
next
  case (Some t)
  with assms routed [OF assms(1,3)] show ?thesis by metis
qed

end

lemma put_topic_same: "put_topic t m (t_TopicName t) = Some t"
  by (simp add: put_topic_def)

lemma fold_topics_None:
  "n \<notin> t_TopicName ` set ts \<Longrightarrow> fold put_topic ts m n = m n"
  by (induction ts arbitrary: m) (auto simp: put_topic_def)

lemma fold_topics_distinct:
  "distinct (map t_TopicName ts) \<Longrightarrow> t \<in> set ts \<Longrightarrow> fold put_topic ts m (t_TopicName t) = Some t"
proof (induction ts arbitrary: m)
  case (Cons x ts)
  then show ?case
    by (cases "t = x") (auto simp: fold_topics_None put_topic_same)
qed simp

text \<open>The topics of a manager that has been given the topics \<open>ts\<close>.\<close>

lemma SetTopics_lookup:
  assumes "distinct (map t_TopicName ts)"
  shows "mg_topicMap (SetTopics ts NewManager) n = find (\<lambda>t. t_TopicName t = n) ts"
proof (cases "find (\<lambda>t. t_TopicName t = n) ts")
  case None
  moreover from None have "n \<notin> t_TopicName ` set ts" by (auto simp: find_None_iff)
  ultimately show ?thesis by (simp add: SetTopics_def NewManager_def fold_topics_None)
next
  case (Some t)
  then have "t \<in> set ts" "t_TopicName t = n" by (auto simp: find_Some_iff)
  with Some fold_topics_distinct [OF assms] show ?thesis by (auto simp: SetTopics_def NewManager_def)
qed

lemma newDedup_fields [simp]:
  "t_TopicName (newDedupTopic t) = t_TopicName t" "t_MessageID (newDedupTopic t) = t_MessageID t"
  "t_MsgHandler (newDedupTopic t) = dedup_MsgHandler t"
  by (simp_all add: newDedupTopic_def)

lemma find_wrapped: "find (\<lambda>t. t_TopicName t = n) (map newDedupTopic ts) = map_option newDedupTopic (find (\<lambda>t. t_TopicName t = n) ts)"
  by (induction ts) auto

section \<open>Runs of a group\<close>

text \<open>
  What happens to a group: a message arrives on channel \<open>i\<close> at time \<open>now\<close> (\<open>ts\<close> is the
  timestamp the channel takes), or the cache is cleaned up.
\<close>

datatype 'm group_event = Arrive nat time time 'm | CleanUp "string list" time

fun event_now :: "'m group_event \<Rightarrow> time" where
  "event_now (Arrive i now ts m) = now"
| "event_now (CleanUp ks now) = now"

text \<open>The event is within \<open>ttl\<close> of \<open>T0\<close>, on one of the \<open>n\<close> channels.\<close>

fun in_window :: "nat \<Rightarrow> time \<Rightarrow> duration \<Rightarrow> 'm group_event \<Rightarrow> bool" where
  "in_window n T0 ttl (Arrive i now ts m) \<longleftrightarrow> i < n \<and> T0 \<le> now \<and> Time_Sub now T0 \<le> ttl"
| "in_window n T0 ttl (CleanUp ks now) \<longleftrightarrow> T0 \<le> now \<and> Time_Sub now T0 \<le> ttl"

definition group_step ::
  "(time \<Rightarrow> 'm \<Rightarrow> ('m, 's shared) Manager \<Rightarrow> 's shared \<Rightarrow> (error option \<times> 's shared) result) \<Rightarrow>
   ('m, 's) ChannelGroup \<Rightarrow> 'm group_event \<Rightarrow> 's shared \<Rightarrow> 's shared result" where
  "group_step handle g ev sh =
     (case ev of
        Arrive i now ts m \<Rightarrow>
          if i < length (gr_topicMgs g)
          then bind_r (handle ts m (gr_topicMgs g ! i) (sh\<lparr>sh_now := now\<rparr>)) (\<lambda>(err, sh'). Inr sh')
          else Inr sh
      | CleanUp ks now \<Rightarrow> Inr (sh\<lparr>sh_cache := cleanup_tick ks now (sh_cache sh)\<rparr>))"

text \<open>The arrivals a deduplicated run handles, and what handling them one after the other does.\<close>

fun first_copies :: "('m \<Rightarrow> string) \<Rightarrow> string set \<Rightarrow> 'm group_event list \<Rightarrow> (time \<times> 'm) list" where
  "first_copies mid seen [] = []"
| "first_copies mid seen (CleanUp ks now # evs) = first_copies mid seen evs"
| "first_copies mid seen (Arrive i now ts m # evs) =
     (if mid m = [] then (ts, m) # first_copies mid seen evs
      else if mid m \<in> seen then first_copies mid seen evs
      else (ts, m) # first_copies mid (insert (mid m) seen) evs)"

definition handle_plain ::
  "(time \<Rightarrow> 'm \<Rightarrow> ('m, 's) Manager \<Rightarrow> 's \<Rightarrow> (error option \<times> 's) result) \<Rightarrow> ('m, 's) Manager \<Rightarrow> time \<times> 'm \<Rightarrow> 's \<Rightarrow> 's result" where
  "handle_plain handle mg tm s = bind_r (handle (fst tm) (snd tm) mg s) (\<lambda>(err, s'). Inr s')"

text \<open>The identifier a group sees: that of the topic the message is routed to.\<close>

definition routed_id :: "('m \<Rightarrow> error + string) \<Rightarrow> ('m, 's) Topic list \<Rightarrow> 'm \<Rightarrow> string" where
  "routed_id name_of_msg topics m =
     (case name_of_msg m of
        Inl e \<Rightarrow> []
      | Inr n \<Rightarrow> (case find (\<lambda>t. t_TopicName t = n) topics of Some t \<Rightarrow> t_MessageID t m | None \<Rightarrow> []))"

text \<open>A cache whose entries are exactly \<open>seen\<close> and cannot expire in the window from \<open>T0\<close> to \<open>T0 + ttl\<close>.\<close>

definition fresh_cache :: "time \<Rightarrow> string set \<Rightarrow> TTLCache \<Rightarrow> bool" where
  "fresh_cache T0 seen c \<longleftrightarrow>
     (\<forall>k. Map_Get (tc_entries c) k \<noteq> None \<longleftrightarrow> k \<in> seen) \<and>
     (\<forall>k t. Map_Get (tc_entries c) k = Some t \<longrightarrow> T0 \<le> t)"

lemma fresh_add:
  assumes "fresh_cache T0 seen c" and "T0 \<le> now" and "Time_Sub now T0 \<le> tc_ttl c"
  shows "fst (AddIfAbsent now k c) \<longleftrightarrow> k \<notin> seen"
    and "fresh_cache T0 (insert k seen) (snd (AddIfAbsent now k c))"
proof -
  have old: "\<not> tc_ttl c < Time_Sub now t" if "Map_Get (tc_entries c) k = Some t" for t
    using assms that Time_Sub_anti [of T0 t now] by (force simp: fresh_cache_def)
  show "fst (AddIfAbsent now k c) \<longleftrightarrow> k \<notin> seen"
  proof -
    have "Map_Get (tc_entries c) k \<noteq> None \<longleftrightarrow> k \<in> seen" using assms(1) by (simp add: fresh_cache_def)
    with old show ?thesis by (auto simp: AddIfAbsent_eq split: option.split)
  qed
  show "fresh_cache T0 (insert k seen) (snd (AddIfAbsent now k c))"
  proof (cases "Map_Get (tc_entries c) k")
    case None
    with assms(1,2) show ?thesis by (auto simp: AddIfAbsent_eq fresh_cache_def)
  next
    case (Some t)
    with assms(1) old [OF Some] show ?thesis by (auto simp: AddIfAbsent_eq fresh_cache_def insert_absorb)
  qed
qed

lemma fresh_cleanup:
  assumes "fresh_cache T0 seen c" and "Time_Sub now T0 \<le> tc_ttl c"
  shows "fresh_cache T0 seen (cleanup_tick ks now c)"
proof -
  have "Map_Get (tc_entries (cleanup_tick ks now c)) k = Map_Get (tc_entries c) k" for k
  proof (cases "Map_Get (tc_entries c) k")
    case None
    then show ?thesis using cleanup_get by (metis not_Some_eq)
  next
    case (Some t)
    then have "\<not> tc_ttl c < Time_Sub now t"
      using assms Time_Sub_anti [of T0 t now] by (force simp: fresh_cache_def)
    then show ?thesis using Some cleanup_dropped cleanup_get by (metis not_Some_eq)
  qed
  with assms(1) show ?thesis by (simp add: fresh_cache_def)
qed

lemma fresh_new: "fresh_cache T0 {} (NewTTLCache ttl)"
  by (simp add: fresh_cache_def NewTTLCache_def)

text \<open>
  The group of a manager: the deduplicated run leaves the state that handling the first
  copies alone leaves.
\<close>

locale redundant_group =
  plain: topic_router name_of_msg handle + wrapped: topic_router name_of_msg ghandle
  for name_of_msg :: "'m \<Rightarrow> error + string"
    and handle :: "time \<Rightarrow> 'm \<Rightarrow> ('m, 's) Manager \<Rightarrow> 's \<Rightarrow> (error option \<times> 's) result"
    and ghandle :: "time \<Rightarrow> 'm \<Rightarrow> ('m, 's shared) Manager \<Rightarrow> 's shared \<Rightarrow> (error option \<times> 's shared) result"
begin

lemma arrive:
  fixes topics :: "('m, 's) Topic list"
  assumes "distinct (map t_TopicName topics)" and "[] \<notin> t_TopicName ` set topics"
    and "fresh_cache T0 seen (sh_cache sh)" and "T0 \<le> sh_now sh" and "Time_Sub (sh_now sh) T0 \<le> tc_ttl (sh_cache sh)"
  shows "let i = routed_id name_of_msg topics m;
             pr = handle_plain handle (SetTopics topics NewManager) (ts, m) (sh_state sh);
             seen' = (if i = [] then seen else insert i seen)
         in \<exists>c. fresh_cache T0 seen' c \<and> tc_ttl c = tc_ttl (sh_cache sh) \<and>
           bind_r (ghandle ts m (SetTopics (map newDedupTopic topics) NewManager) sh) (\<lambda>(err, sh'). Inr sh') =
             (if i \<noteq> [] \<and> i \<in> seen then Inr (sh\<lparr>sh_cache := c\<rparr>)
              else bind_r pr (\<lambda>s. Inr (sh\<lparr>sh_cache := c, sh_state := s\<rparr>)))"
proof (cases "name_of_msg m")
  case (Inl e)
  then show ?thesis
    using plain.unreadable [OF Inl, of ts "SetTopics topics NewManager" "sh_state sh"]
      wrapped.unreadable [OF Inl, of ts "SetTopics (map newDedupTopic topics) NewManager" sh] assms(3)
    by (auto simp: routed_id_def handle_plain_def intro!: exI [of _ "sh_cache sh"])
next
  case (Inr n)
  have dist: "distinct (map t_TopicName (map newDedupTopic topics))" using assms(1) by (simp add: comp_def)
  note look = SetTopics_lookup [OF assms(1), of n] SetTopics_lookup [OF dist, of n, unfolded find_wrapped]
  show ?thesis
  proof (cases "find (\<lambda>t. t_TopicName t = n) topics")
    case None
    with Inr look show ?thesis
      using plain.unrouted [OF Inr, of "SetTopics topics NewManager"]
        wrapped.unrouted [OF Inr, of "SetTopics (map newDedupTopic topics) NewManager"] assms(3)
      by (auto simp: routed_id_def handle_plain_def intro!: exI [of _ "sh_cache sh"])
  next
    case (Some t)
    then have n: "n \<noteq> []" using assms(2) by (force simp: find_Some_iff in_set_conv_nth)
    let ?i = "t_MessageID t m"
    have id: "routed_id name_of_msg topics m = ?i" using Inr Some by (simp add: routed_id_def)
    have h: "handle_plain handle (SetTopics topics NewManager) (ts, m) (sh_state sh) =
        bind_r (t_MsgHandler t ts m (sh_state sh)) (\<lambda>(err, s'). Inr s')"
      using plain.routed [OF Inr n] look Some by (simp add: handle_plain_def)
    have g: "ghandle ts m (SetTopics (map newDedupTopic topics) NewManager) sh = dedup_MsgHandler t ts m sh"
      using wrapped.routed [OF Inr n] look Some by simp
    show ?thesis
    proof (cases "?i = []")
      case True
      with assms(3) show ?thesis
        by (auto simp: id h g dedup_MsgHandler_def Let_def bind_r_def split: sum.splits prod.splits
            intro!: exI [of _ "sh_cache sh"])
    next
      case False
      obtain a c where ac: "AddIfAbsent (sh_now sh) ?i (sh_cache sh) = (a, c)" by fastforce
      with fresh_add [OF assms(3,4,5), of ?i] have "a \<longleftrightarrow> ?i \<notin> seen" "fresh_cache T0 (insert ?i seen) c" by auto
      moreover have "tc_ttl c = tc_ttl (sh_cache sh)" using AddIfAbsent_ttl [of "sh_now sh" ?i "sh_cache sh"] ac by simp
      ultimately show ?thesis using False ac
        by (auto simp: id h g dedup_MsgHandler_def Let_def bind_r_def split: sum.splits prod.splits
            intro!: exI [of _ c])
    qed
  qed
qed

lemma run:
  fixes topics :: "('m, 's) Topic list"
  assumes "distinct (map t_TopicName topics)" and "[] \<notin> t_TopicName ` set topics"
    and "gr_topicMgs g = replicate n (SetTopics (map newDedupTopic topics) NewManager)"
    and "\<forall>ev \<in> set evs. in_window n T0 ttl ev"
    and "fresh_cache T0 seen (sh_cache sh)" and "tc_ttl (sh_cache sh) = ttl"
  shows "bind_r (foldM (group_step ghandle g) evs sh) (\<lambda>sh'. Inr (sh_state sh')) =
     foldM (handle_plain handle (SetTopics topics NewManager))
       (first_copies (routed_id name_of_msg topics) seen evs) (sh_state sh)"
  using assms(4-)
proof (induction evs arbitrary: seen sh)
  case Nil
  then show ?case by simp
next
  case (Cons ev evs)
  have now: "T0 \<le> event_now ev" "Time_Sub (event_now ev) T0 \<le> tc_ttl (sh_cache sh)"
    using Cons.prems(1,3) by (cases ev; simp)+
  have rest: "\<forall>ev \<in> set evs. in_window n T0 ttl ev" using Cons.prems(1) by simp
  note IH = Cons.IH [OF rest]
  show ?case
  proof (cases ev)
    case (CleanUp ks t)
    have "fresh_cache T0 seen (cleanup_tick ks t (sh_cache sh))"
      using fresh_cleanup [OF Cons.prems(2)] now CleanUp by simp
    with IH [of seen "sh\<lparr>sh_cache := cleanup_tick ks t (sh_cache sh)\<rparr>"] CleanUp Cons.prems(3) show ?thesis
      by (simp add: group_step_def)
  next
    case (Arrive i t ts m)
    let ?i = "routed_id name_of_msg topics m" and ?sh = "sh\<lparr>sh_now := t\<rparr>"
    have i: "i < n" using Cons.prems(1) Arrive by simp
    from arrive [OF assms(1,2), of T0 seen ?sh m ts] Cons.prems(2) now Arrive obtain c where
      c: "fresh_cache T0 (if ?i = [] then seen else insert ?i seen) c" "tc_ttl c = ttl" and
      st: "group_step ghandle g ev sh =
        (if ?i \<noteq> [] \<and> ?i \<in> seen then Inr (?sh\<lparr>sh_cache := c\<rparr>)
         else bind_r (handle_plain handle (SetTopics topics NewManager) (ts, m) (sh_state sh)) (\<lambda>s. Inr (?sh\<lparr>sh_cache := c, sh_state := s\<rparr>)))"
      using assms(3) i Cons.prems(3) by (auto simp: group_step_def Let_def)
    show ?thesis
    proof (cases "?i \<noteq> [] \<and> ?i \<in> seen")
      case True
      then have "fresh_cache T0 seen c" using c(1) by (simp add: insert_absorb)
      with IH [of seen "?sh\<lparr>sh_cache := c\<rparr>"] c(2) True st Arrive show ?thesis by simp
    next
      case False
      show ?thesis
      proof (cases "handle_plain handle (SetTopics topics NewManager) (ts, m) (sh_state sh)")
        case (Inl e)
        with False st Arrive show ?thesis by auto
      next
        case (Inr s)
        with IH [of "if ?i = [] then seen else insert ?i seen" "?sh\<lparr>sh_cache := c, sh_state := s\<rparr>"] c False st Arrive
        show ?thesis by (auto split: if_splits)
      qed
    qed
  qed
qed

end

end
