(* ===== verification/Coinex_Topics.thy ===== *)
theory Coinex_Topics
  imports Json Channel_Group Coinex_Translators
begin

text \<open>
  \<open>internal/gateways/exchanges/coinex/ws/topics\<close>: the manager and the five topics of CoinEx,
  with the JSON tags of \<open>coinex/dtos\<close>. The handlers registered with a topic work on a state
  \<open>'s\<close> and may panic; \<open>dec\<close> is \<open>decimal.NewFromString\<close>. The subscription of a manager is one
  step: the managers of a group share their topics, and two of them that subscribe at the same
  time may read each other's identifier, which only the log would show.
\<close>

section \<open>The data of a topic\<close>

type_synonym ('data, 's) data_handler = "'data \<Rightarrow> 's \<Rightarrow> 's result"

record ('data, 's, 'd) topic_obj =
  to_name :: string
  to_symbol :: "'d Symbol"
  to_dataHandlers :: "('data, 's) data_handler list"
  to_msgID :: string

definition topic_SetHandler :: "('data, 's) data_handler \<Rightarrow> ('data, 's, 'd) topic_obj \<Rightarrow> ('data, 's, 'd) topic_obj" where
  "topic_SetHandler h t = t\<lparr>to_dataHandlers := to_dataHandlers t @ [h]\<rparr>"

definition call_handlers :: "('data, 's) data_handler list \<Rightarrow> 'data \<Rightarrow> 's \<Rightarrow> (error option \<times> 's) result" where
  "call_handlers hs data s = bind_r (foldM (\<lambda>h. h data) hs s) (\<lambda>s'. Inr (None, s'))"

text \<open>What \<open>genMsgID\<close> makes of the first eight bytes of a fresh identifier, read as a signed integer.\<close>

definition genMsgID :: "int \<Rightarrow> int" where
  "genMsgID v = (let intVal = wrap64 v in if intVal < 0 then - intVal - 1 else intVal)"

section \<open>order.go\<close>

definition cx_NewOrderTopic :: "'d Symbol \<Rightarrow> ('data, 's, 'd) topic_obj" where
  "cx_NewOrderTopic symbol =
     \<lparr>to_name = ''personal.order@'' @ sym_name symbol, to_symbol = symbol, to_dataHandlers = [], to_msgID = []\<rparr>"

definition nl_tabs :: "nat \<Rightarrow> string" where
  "nl_tabs n = char_of (10 :: nat) # replicate n (char_of (9 :: nat))"

definition cx_order_SubscribeMsg :: "'d Symbol \<Rightarrow> int \<Rightarrow> string" where
  "cx_order_SubscribeMsg symbol msgID =
     ''{'' @ nl_tabs 2 @ ''\"method\": \"order.subscribe\",'' @
     nl_tabs 2 @ ''\"params\": {'' @ nl_tabs 3 @ ''\"market_list\": [\"'' @ sym_name symbol @ ''\"]'' @ nl_tabs 2 @ ''},'' @
     nl_tabs 2 @ ''\"id\": '' @ FormatInt msgID @ nl_tabs 1 @ ''}''"

record cx_order_ident =
  oi_OrderID :: int
  oi_UpdatedAt :: int

definition cx_order_ident_dec :: "cx_order_ident decoder" where
  "cx_order_ident_dec =
     dec_struct [(''data'', dec_struct [(''order'', dec_struct
       [(''order_id'', on_field oi_OrderID oi_OrderID_update dec_int),
        (''updated_at'', on_field oi_UpdatedAt oi_UpdatedAt_update dec_int)])])]"

definition cx_order_MessageID :: "raw \<Rightarrow> string" where
  "cx_order_MessageID rawMsg =
     (case Unmarshal cx_order_ident_dec \<lparr>oi_OrderID = 0, oi_UpdatedAt = 0\<rparr> rawMsg of
        Inl err \<Rightarrow> []
      | Inr msg \<Rightarrow>
          if oi_OrderID msg = 0 then [] else ''order:'' @ FormatInt (oi_OrderID msg) @ '':'' @ FormatInt (oi_UpdatedAt msg))"

definition cx_OrderDataDto_zero :: cx_OrderDataDto where
  "cx_OrderDataDto_zero =
     \<lparr>cd_Event = [], cd_OrderID = 0, cd_Market = [], cd_Side = [], cd_Type = [], cd_Amount = [], cd_Price = [],
      cd_UnfilledAmount = [], cd_FilledAmount = [], cd_FilledValue = [], cd_Fee = [], cd_FeeCcy = [],
      cd_TakerFeeRate = [], cd_MakerFeeRate = [], cd_ClientID = [], cd_LastFilledAmount = [],
      cd_LastFilledPrice = [], cd_CreatedAt = 0, cd_UpdatedAt = 0\<rparr>"

definition cx_OrderMsgDto_dec :: "cx_OrderDataDto option decoder" where
  "cx_OrderMsgDto_dec =
     dec_struct [(''data'', dec_ptr cx_OrderDataDto_zero (dec_struct
       [(''event'', on_field cd_Event cd_Event_update dec_string),
        (''order'', dec_struct
          [(''order_id'', on_field cd_OrderID cd_OrderID_update dec_int),
           (''market'', on_field cd_Market cd_Market_update dec_string),
           (''side'', on_field cd_Side cd_Side_update dec_string),
           (''type'', on_field cd_Type cd_Type_update dec_string),
           (''amount'', on_field cd_Amount cd_Amount_update dec_string),
           (''price'', on_field cd_Price cd_Price_update dec_string),
           (''unfilled_amount'', on_field cd_UnfilledAmount cd_UnfilledAmount_update dec_string),
           (''filled_amount'', on_field cd_FilledAmount cd_FilledAmount_update dec_string),
           (''filled_value'', on_field cd_FilledValue cd_FilledValue_update dec_string),
           (''fee'', on_field cd_Fee cd_Fee_update dec_string),
           (''fee_ccy'', on_field cd_FeeCcy cd_FeeCcy_update dec_string),
           (''taker_fee_rate'', on_field cd_TakerFeeRate cd_TakerFeeRate_update dec_string),
           (''maker_fee_rate'', on_field cd_MakerFeeRate cd_MakerFeeRate_update dec_string),
           (''client_id'', on_field cd_ClientID cd_ClientID_update dec_string),
           (''last_filled_amount'', on_field cd_LastFilledAmount cd_LastFilledAmount_update dec_string),
           (''last_filled_price'', on_field cd_LastFilledPrice cd_LastFilledPrice_update dec_string),
           (''created_at'', on_field cd_CreatedAt cd_CreatedAt_update dec_int),
           (''updated_at'', on_field cd_UpdatedAt cd_UpdatedAt_update dec_int)])]))]"

text \<open>A message without \<open>data\<close> makes the translator read a nil pointer.\<close>

definition cx_order_MsgHandler ::
  "(string \<Rightarrow> error + 'd :: linordered_idom) \<Rightarrow> ('d OrderData list, 's) data_handler list \<Rightarrow> time \<Rightarrow> raw \<Rightarrow> 's \<Rightarrow>
     (error option \<times> 's) result" where
  "cx_order_MsgHandler dec hs timestamp rawMsg s =
     (case Unmarshal cx_OrderMsgDto_dec None rawMsg of
        Inl err \<Rightarrow> Inr (Some err, s)
      | Inr None \<Rightarrow> Inl NilDeref
      | Inr (Some dto) \<Rightarrow>
          (case cx_TranslateOrderData dec (Some timestamp) dto of
             Inl err \<Rightarrow> Inr (Some err, s)
           | Inr data \<Rightarrow> call_handlers hs [data] s))"

definition cx_OrderTopic ::
  "(string \<Rightarrow> error + 'd :: linordered_idom) \<Rightarrow> ('d OrderData list, 's, 'd) topic_obj \<Rightarrow> (raw, 's) Topic" where
  "cx_OrderTopic dec t =
     \<lparr>t_TopicName = to_name t, t_SubscribeMsgID = to_msgID t, t_request = (\<lambda>i. Some (cx_order_SubscribeMsg (to_symbol t) i)),
      t_MsgHandler = cx_order_MsgHandler dec (to_dataHandlers t), t_MessageID = cx_order_MessageID\<rparr>"

section \<open>position.go\<close>

definition cx_NewPositionTopic :: "'d Symbol \<Rightarrow> ('data, 's, 'd) topic_obj" where
  "cx_NewPositionTopic symbol =
     \<lparr>to_name = ''personal.position@'' @ sym_name symbol, to_symbol = symbol, to_dataHandlers = [], to_msgID = []\<rparr>"

text \<open>The requests of the other topics have one shape.\<close>

definition subscribe_json :: "string \<Rightarrow> string \<Rightarrow> int \<Rightarrow> string" where
  "subscribe_json cmd market i =
     ''{\"method\":\"'' @ cmd @ ''\",\"params\":{\"market_list\":['' @ market @ '']},\"id\":'' @ FormatInt i @ ''}''"

definition cx_position_SubscribeMsg :: "'d Symbol \<Rightarrow> int \<Rightarrow> string" where
  "cx_position_SubscribeMsg symbol i = subscribe_json ''position.subscribe'' (''\"'' @ sym_name symbol @ ''\"'') i"

record cx_position_ident =
  pi_Market :: string
  pi_Side :: string
  pi_UpdatedAt :: int

definition cx_position_ident_dec :: "cx_position_ident decoder" where
  "cx_position_ident_dec =
     dec_struct [(''data'', dec_struct [(''position'', dec_struct
       [(''market'', on_field pi_Market pi_Market_update dec_string),
        (''side'', on_field pi_Side pi_Side_update dec_string),
        (''updated_at'', on_field pi_UpdatedAt pi_UpdatedAt_update dec_int)])])]"

definition cx_position_MessageID :: "raw \<Rightarrow> string" where
  "cx_position_MessageID rawMsg =
     (case Unmarshal cx_position_ident_dec \<lparr>pi_Market = [], pi_Side = [], pi_UpdatedAt = 0\<rparr> rawMsg of
        Inl err \<Rightarrow> []
      | Inr msg \<Rightarrow>
          if pi_Market msg = [] then []
          else ''pos:'' @ pi_Market msg @ '':'' @ pi_Side msg @ '':'' @ FormatInt (pi_UpdatedAt msg))"

definition cx_PositionDataDto_zero :: cx_PositionDataDto where
  "cx_PositionDataDto_zero =
     \<lparr>cp_Event = [], cp_Market = [], cp_Side = [], cp_OpenInterest = [], cp_CreatedAt = 0, cp_UpdatedAt = 0\<rparr>"

record cx_PositionMsgDto =
  pm_Method :: string
  pm_Data :: "cx_PositionDataDto option"

definition cx_PositionMsgDto_dec :: "cx_PositionMsgDto decoder" where
  "cx_PositionMsgDto_dec =
     dec_struct
       [(''method'', on_field pm_Method pm_Method_update dec_string),
        (''data'', on_field pm_Data pm_Data_update (dec_ptr cx_PositionDataDto_zero (dec_struct
          [(''event'', on_field cp_Event cp_Event_update dec_string),
           (''position'', dec_struct
             [(''market'', on_field cp_Market cp_Market_update dec_string),
              (''side'', on_field cp_Side cp_Side_update dec_string),
              (''open_interest'', on_field cp_OpenInterest cp_OpenInterest_update dec_string),
              (''created_at'', on_field cp_CreatedAt cp_CreatedAt_update dec_int),
              (''updated_at'', on_field cp_UpdatedAt cp_UpdatedAt_update dec_int)])]))),
        (''id'', (\<lambda>j r. Some r))]"

definition cx_position_MsgHandler ::
  "(string \<Rightarrow> error + 'd) \<Rightarrow> ('d PositionData list, 's) data_handler list \<Rightarrow> time \<Rightarrow> raw \<Rightarrow> 's \<Rightarrow>
     (error option \<times> 's) result" where
  "cx_position_MsgHandler dec hs ts rawMsg s =
     (case Unmarshal cx_PositionMsgDto_dec \<lparr>pm_Method = [], pm_Data = None\<rparr> rawMsg of
        Inl err \<Rightarrow> Inr (Some err, s)
      | Inr msgDto \<Rightarrow>
          (case pm_Data msgDto of
             None \<Rightarrow> Inl NilDeref
           | Some dto \<Rightarrow>
               (case cx_TranslatePosition dec dto of
                  Inl err \<Rightarrow> Inr (Some err, s)
                | Inr data \<Rightarrow> call_handlers hs [data] s)))"

definition cx_PositionTopic ::
  "(string \<Rightarrow> error + 'd) \<Rightarrow> ('d PositionData list, 's, 'd) topic_obj \<Rightarrow> (raw, 's) Topic" where
  "cx_PositionTopic dec t =
     \<lparr>t_TopicName = to_name t, t_SubscribeMsgID = to_msgID t, t_request = (\<lambda>i. Some (cx_position_SubscribeMsg (to_symbol t) i)),
      t_MsgHandler = cx_position_MsgHandler dec (to_dataHandlers t), t_MessageID = cx_position_MessageID\<rparr>"

section \<open>orderbook.go\<close>

definition cx_NewOrderBookTopic :: "'d Symbol \<Rightarrow> ('data, 's, 'd) topic_obj" where
  "cx_NewOrderBookTopic symbol =
     \<lparr>to_name = ''orderBook@'' @ sym_name symbol, to_symbol = symbol, to_dataHandlers = [], to_msgID = []\<rparr>"

definition cx_orderbook_SubscribeMsg :: "'d Symbol \<Rightarrow> int \<Rightarrow> string" where
  "cx_orderbook_SubscribeMsg symbol i = subscribe_json ''depth.subscribe'' (''[\"'' @ sym_name symbol @ ''\",50,\"0\",true]'') i"

definition cx_orderbook_MessageID :: "raw \<Rightarrow> string" where
  "cx_orderbook_MessageID rawMsg =
     (case Unmarshal (dec_struct [(''data'', dec_struct [(''depth'', dec_struct [(''updated_at'', dec_int)])])]) 0 rawMsg of
        Inl err \<Rightarrow> []
      | Inr updatedAt \<Rightarrow> if updatedAt = 0 then [] else ''ob:'' @ FormatInt updatedAt)"

definition cx_OrderBookMsgDto_zero :: cx_OrderBookMsgDto where
  "cx_OrderBookMsgDto_zero = \<lparr>cm_Symbol = [], cm_IsSnapshot = False, cm_UpdatedAt = 0, cm_Bids = [], cm_Asks = []\<rparr>"

definition cx_OrderBookMsgDto_dec :: "cx_OrderBookMsgDto decoder" where
  "cx_OrderBookMsgDto_dec =
     dec_struct [(''data'', dec_struct
       [(''market'', on_field cm_Symbol cm_Symbol_update dec_string),
        (''is_full'', on_field cm_IsSnapshot cm_IsSnapshot_update dec_bool),
        (''depth'', dec_struct
          [(''updated_at'', on_field cm_UpdatedAt cm_UpdatedAt_update dec_int),
           (''bids'', on_field cm_Bids cm_Bids_update (dec_list [] (dec_list [] dec_string))),
           (''asks'', on_field cm_Asks cm_Asks_update (dec_list [] (dec_list [] dec_string)))])])]"

definition cx_orderbook_MsgHandler ::
  "(string \<Rightarrow> error + 'd) \<Rightarrow> ('d OrderBookData, 's) data_handler list \<Rightarrow> time \<Rightarrow> raw \<Rightarrow> 's \<Rightarrow>
     (error option \<times> 's) result" where
  "cx_orderbook_MsgHandler dec hs ts rawMsg s =
     (case Unmarshal cx_OrderBookMsgDto_dec cx_OrderBookMsgDto_zero rawMsg of
        Inl err \<Rightarrow> Inr (Some err, s)
      | Inr dto \<Rightarrow>
          bind_r (cx_TranslateOrderBook dec ts dto) (\<lambda>res.
            case res of Inl err \<Rightarrow> Inr (Some err, s) | Inr data \<Rightarrow> call_handlers hs data s))"

definition cx_OrderBookTopic ::
  "(string \<Rightarrow> error + 'd) \<Rightarrow> ('d OrderBookData, 's, 'd) topic_obj \<Rightarrow> (raw, 's) Topic" where
  "cx_OrderBookTopic dec t =
     \<lparr>t_TopicName = to_name t, t_SubscribeMsgID = to_msgID t, t_request = (\<lambda>i. Some (cx_orderbook_SubscribeMsg (to_symbol t) i)),
      t_MsgHandler = cx_orderbook_MsgHandler dec (to_dataHandlers t), t_MessageID = cx_orderbook_MessageID\<rparr>"

section \<open>bookticker.go\<close>

definition cx_NewBookTickerTopic :: "'d Symbol \<Rightarrow> ('data, 's, 'd) topic_obj" where
  "cx_NewBookTickerTopic symbol =
     \<lparr>to_name = ''bookTicker@'' @ sym_name symbol, to_symbol = symbol, to_dataHandlers = [], to_msgID = []\<rparr>"

definition cx_bookticker_SubscribeMsg :: "'d Symbol \<Rightarrow> int \<Rightarrow> string" where
  "cx_bookticker_SubscribeMsg symbol i = subscribe_json ''bbo.subscribe'' (''\"'' @ sym_name symbol @ ''\"'') i"

definition cx_bookticker_MessageID :: "raw \<Rightarrow> string" where
  "cx_bookticker_MessageID rawMsg =
     (case Unmarshal (dec_struct [(''data'', dec_struct [(''updated_at'', dec_int)])]) 0 rawMsg of
        Inl err \<Rightarrow> []
      | Inr updatedAt \<Rightarrow> if updatedAt = 0 then [] else ''bbo:'' @ FormatInt updatedAt)"

definition cx_BookTickerMsgDto_zero :: cx_BookTickerMsgDto where
  "cx_BookTickerMsgDto_zero = \<lparr>ck_Symbol = [], ck_Ts = 0, ck_BidPrice = [], ck_BidSize = [], ck_AskPrice = [], ck_AskSize = []\<rparr>"

definition cx_BookTickerMsgDto_dec :: "cx_BookTickerMsgDto decoder" where
  "cx_BookTickerMsgDto_dec =
     dec_struct [(''data'', dec_struct
       [(''market'', on_field ck_Symbol ck_Symbol_update dec_string),
        (''updated_at'', on_field ck_Ts ck_Ts_update dec_int),
        (''best_bid_price'', on_field ck_BidPrice ck_BidPrice_update dec_string),
        (''best_bid_size'', on_field ck_BidSize ck_BidSize_update dec_string),
        (''best_ask_price'', on_field ck_AskPrice ck_AskPrice_update dec_string),
        (''best_ask_size'', on_field ck_AskSize ck_AskSize_update dec_string)])]"

definition cx_bookticker_MsgHandler ::
  "(string \<Rightarrow> error + 'd) \<Rightarrow> ('d QuoteData, 's) data_handler list \<Rightarrow> time \<Rightarrow> raw \<Rightarrow> 's \<Rightarrow>
     (error option \<times> 's) result" where
  "cx_bookticker_MsgHandler dec hs ts rawMsg s =
     (case Unmarshal cx_BookTickerMsgDto_dec cx_BookTickerMsgDto_zero rawMsg of
        Inl err \<Rightarrow> Inr (Some err, s)
      | Inr dto \<Rightarrow>
          (case cx_TranslateBookTicker dec ts dto of
             Inl err \<Rightarrow> Inr (Some err, s)
           | Inr data \<Rightarrow> call_handlers hs data s))"

definition cx_BookTickerTopic ::
  "(string \<Rightarrow> error + 'd) \<Rightarrow> ('d QuoteData, 's, 'd) topic_obj \<Rightarrow> (raw, 's) Topic" where
  "cx_BookTickerTopic dec t =
     \<lparr>t_TopicName = to_name t, t_SubscribeMsgID = to_msgID t, t_request = (\<lambda>i. Some (cx_bookticker_SubscribeMsg (to_symbol t) i)),
      t_MsgHandler = cx_bookticker_MsgHandler dec (to_dataHandlers t), t_MessageID = cx_bookticker_MessageID\<rparr>"

section \<open>trade.go\<close>

definition cx_NewTradeTopic :: "'d Symbol \<Rightarrow> ('data, 's, 'd) topic_obj" where
  "cx_NewTradeTopic symbol =
     \<lparr>to_name = ''trade@'' @ sym_name symbol, to_symbol = symbol, to_dataHandlers = [], to_msgID = []\<rparr>"

definition cx_trade_SubscribeMsg :: "'d Symbol \<Rightarrow> int \<Rightarrow> string" where
  "cx_trade_SubscribeMsg symbol i = subscribe_json ''deals.subscribe'' (''\"'' @ sym_name symbol @ ''\"'') i"

definition cx_trade_MessageID :: "raw \<Rightarrow> string" where
  "cx_trade_MessageID rawMsg =
     (case Unmarshal (dec_struct [(''data'', dec_struct
          [(''deal_list'', dec_list 0 (dec_struct [(''deal_id'', dec_int)]))])]) [] rawMsg of
        Inl err \<Rightarrow> []
      | Inr dealList \<Rightarrow> (case dealList of [] \<Rightarrow> [] | d # _ \<Rightarrow> ''trade:'' @ FormatInt d))"

definition cx_TradeDataDto_zero :: cx_TradeDataDto where
  "cx_TradeDataDto_zero = \<lparr>ct_DealID = 0, ct_TransactionTime = 0, ct_Side = [], ct_Price = [], ct_Volume = []\<rparr>"

definition cx_TradeMsgDto_dec :: "cx_TradeDataDto option list decoder" where
  "cx_TradeMsgDto_dec =
     dec_struct [(''data'', dec_struct [(''deal_list'', dec_list None (dec_ptr cx_TradeDataDto_zero (dec_struct
       [(''deal_id'', on_field ct_DealID ct_DealID_update dec_int),
        (''created_at'', on_field ct_TransactionTime ct_TransactionTime_update dec_int),
        (''side'', on_field ct_Side ct_Side_update dec_string),
        (''price'', on_field ct_Price ct_Price_update dec_string),
        (''amount'', on_field ct_Volume ct_Volume_update dec_string)])))])]"

text \<open>The loop of a translator over a slice of pointers: the first error ends it, a nil pointer panics.\<close>

fun translate_ptrs :: "('a \<Rightarrow> error + 'b) \<Rightarrow> 'a option list \<Rightarrow> (error + 'b list) result" where
  "translate_ptrs f [] = Inr (Inr [])"
| "translate_ptrs f (None # ds) = Inl NilDeref"
| "translate_ptrs f (Some d # ds) =
     (case f d of
        Inl err \<Rightarrow> Inr (Inl err)
      | Inr x \<Rightarrow> bind_r (translate_ptrs f ds) (\<lambda>res. Inr (bind_e res (\<lambda>xs. Inr (x # xs)))))"

definition cx_trade_MsgHandler ::
  "(string \<Rightarrow> error + 'd) \<Rightarrow> ('d TradeData list, 's) data_handler list \<Rightarrow> time \<Rightarrow> raw \<Rightarrow> 's \<Rightarrow>
     (error option \<times> 's) result" where
  "cx_trade_MsgHandler dec hs ts rawMsg s =
     (case Unmarshal cx_TradeMsgDto_dec [] rawMsg of
        Inl err \<Rightarrow> Inr (Some err, s)
      | Inr dtos \<Rightarrow>
          bind_r (translate_ptrs (cx_translateTrade dec ts) dtos) (\<lambda>res.
            case res of Inl err \<Rightarrow> Inr (Some err, s) | Inr datas \<Rightarrow> call_handlers hs datas s))"

definition cx_TradeTopic ::
  "(string \<Rightarrow> error + 'd) \<Rightarrow> ('d TradeData list, 's, 'd) topic_obj \<Rightarrow> (raw, 's) Topic" where
  "cx_TradeTopic dec t =
     \<lparr>t_TopicName = to_name t, t_SubscribeMsgID = to_msgID t, t_request = (\<lambda>i. Some (cx_trade_SubscribeMsg (to_symbol t) i)),
      t_MsgHandler = cx_trade_MsgHandler dec (to_dataHandlers t), t_MessageID = cx_trade_MessageID\<rparr>"

section \<open>manager.go\<close>

definition chanBT :: string where "chanBT = ''bbo.update''"
definition chanOB :: string where "chanOB = ''depth.update''"
definition chanTrade :: string where "chanTrade = ''deals.update''"
definition chanOrder :: string where "chanOrder = ''order.update''"
definition chanPos :: string where "chanPos = ''position.update''"

text \<open>
  \<open>ks\<close> is the order in which the loop visits \<open>topicMap\<close>, with the identifier each topic
  generates: the requests to send, and the manager that remembers the identifiers.
\<close>

definition cx_subscribe_turn :: "string \<times> int \<Rightarrow> string list \<times> ('m, 's) Manager \<Rightarrow> string list \<times> ('m, 's) Manager" where
  "cx_subscribe_turn ki rm =
     (case (ki, rm) of ((k, i), (reqs, mg)) \<Rightarrow>
        (case mg_topicMap mg k of
           None \<Rightarrow> rm
         | Some t \<Rightarrow>
             (case SubscribeMsg i t of
                (None, t') \<Rightarrow> rm
              | (Some msg, t') \<Rightarrow>
                  (reqs @ [msg],
                   mg\<lparr>mg_topicMap := (mg_topicMap mg)(k \<mapsto> t'),
                      mg_msgIDMap := (mg_msgIDMap mg)(t_SubscribeMsgID t' \<mapsto> t_TopicName t')\<rparr>))))"

definition cx_SubscribeRequests :: "(string \<times> int) list \<Rightarrow> ('m, 's) Manager \<Rightarrow> string list \<times> ('m, 's) Manager" where
  "cx_SubscribeRequests ks mg = fold cx_subscribe_turn ks ([], mg)"

record cx_header =
  hd_Method :: string
  hd_Symbol :: string
  hd_OrderSymbol :: string
  hd_PositionSymbol :: string

definition cx_header_zero :: cx_header where
  "cx_header_zero = \<lparr>hd_Method = [], hd_Symbol = [], hd_OrderSymbol = [], hd_PositionSymbol = []\<rparr>"

definition cx_header_dec :: "cx_header decoder" where
  "cx_header_dec =
     dec_struct
       [(''method'', on_field hd_Method hd_Method_update dec_string),
        (''data'', dec_struct
          [(''market'', on_field hd_Symbol hd_Symbol_update dec_string),
           (''order'', dec_struct [(''market'', on_field hd_OrderSymbol hd_OrderSymbol_update dec_string)]),
           (''position'', dec_struct [(''market'', on_field hd_PositionSymbol hd_PositionSymbol_update dec_string)])])]"

definition cx_getTopicName :: "raw \<Rightarrow> error + string" where
  "cx_getTopicName rawMsg =
     bind_e (Unmarshal cx_header_dec cx_header_zero rawMsg) (\<lambda>msg. Inr
       (if hd_Method msg = chanBT then ''bookTicker@'' @ hd_Symbol msg
        else if hd_Method msg = chanOB then ''orderBook@'' @ hd_Symbol msg
        else if hd_Method msg = chanTrade then ''trade@'' @ hd_Symbol msg
        else if hd_Method msg = chanOrder then ''personal.order@'' @ hd_OrderSymbol msg
        else if hd_Method msg = chanPos then ''personal.position@'' @ hd_PositionSymbol msg
        else []))"

definition cx_HandleTopicMessage :: "time \<Rightarrow> raw \<Rightarrow> (raw, 's) Manager \<Rightarrow> 's \<Rightarrow> (error option \<times> 's) result" where
  "cx_HandleTopicMessage timestamp rawMsg mg s =
     (case cx_getTopicName rawMsg of
        Inl err \<Rightarrow> Inr (Some (Wrapped err ''failed to identify topic name''), s)
      | Inr name \<Rightarrow>
          (case mg_topicMap mg name of
             Some t \<Rightarrow> t_MsgHandler t timestamp rawMsg s
           | None \<Rightarrow> Inr (None, s)))"

text \<open>
  \<open>HandleSubscribeResp\<close> only writes a log line: the name of the channel and whether its
  subscription succeeded, for a response to a request of this manager.
\<close>

record cx_subscribe_resp =
  sr_ID :: int
  sr_Message :: string

definition cx_HandleSubscribeResp :: "('m, 's) Manager \<Rightarrow> raw \<Rightarrow> error + (string \<times> bool) option" where
  "cx_HandleSubscribeResp mg rawMsg =
     bind_e (Unmarshal (dec_struct [(''id'', on_field sr_ID sr_ID_update dec_int),
         (''message'', on_field sr_Message sr_Message_update dec_string)]) \<lparr>sr_ID = 0, sr_Message = []\<rparr> rawMsg)
       (\<lambda>msg. Inr (case mg_msgIDMap mg (FormatInt (sr_ID msg)) of
          None \<Rightarrow> None
        | Some channelName \<Rightarrow> Some (channelName, sr_Message msg = ''OK'')))"

record cx_latency_data =
  ld_UpdatedAt :: int
  ld_DepthUpdatedAt :: int
  ld_DealList :: "int list"

definition cx_MeasureLatency :: "time \<Rightarrow> raw \<Rightarrow> error + string \<times> duration" where
  "cx_MeasureLatency now rawMsg =
     bind_e (Unmarshal (dec_struct [(''data'', dec_struct
         [(''updated_at'', on_field ld_UpdatedAt ld_UpdatedAt_update dec_int),
          (''depth'', dec_struct [(''updated_at'', on_field ld_DepthUpdatedAt ld_DepthUpdatedAt_update dec_int)]),
          (''deal_list'', on_field ld_DealList ld_DealList_update (dec_list 0 (dec_struct [(''created_at'', dec_int)])))])])
         \<lparr>ld_UpdatedAt = 0, ld_DepthUpdatedAt = 0, ld_DealList = []\<rparr> rawMsg) (\<lambda>msg.
     bind_e (cx_getTopicName rawMsg) (\<lambda>name.
       let ts0 = ld_UpdatedAt msg;
           ts1 = (if ts0 = 0 then ld_DepthUpdatedAt msg else ts0);
           ts = (if ts1 = 0 \<and> 0 < length (ld_DealList msg) then hd (ld_DealList msg) else ts1)
       in if ts = 0 then Inr ([], 0) else Inr (name, Time_Sub now (UnixMilli ts))))"

section \<open>The manager routes\<close>

interpretation cx: topic_router cx_getTopicName cx_HandleTopicMessage
  by unfold_locales (auto simp: cx_HandleTopicMessage_def)

interpretation cx_group: redundant_group cx_getTopicName cx_HandleTopicMessage cx_HandleTopicMessage
  by unfold_locales

end
