(* ===== verification/Bybit_Topics.thy ===== *)
theory Bybit_Topics
  imports Coinex_Topics
begin

text \<open>
  \<open>internal/gateways/exchanges/bybit/ws/topics\<close>: the manager and the four topics of Bybit,
  with the JSON tags of \<open>bybit/dtos\<close>. The order and position topics of Bybit carry the data of
  all symbols: they group the data of a message by symbol and hand each group to the handlers
  registered for it; \<open>rng\<close> is the order in which the loop visits the groups. A document that
  is just null would leave a nil message, which is not modelled: it names no topic.
\<close>

section \<open>topic.go\<close>

record bb_ident =
  bi_Topic :: string
  bi_Ts :: int

definition bb_MessageID :: "raw \<Rightarrow> string" where
  "bb_MessageID rawMsg =
     (case Unmarshal (dec_struct [(''topic'', on_field bi_Topic bi_Topic_update dec_string),
          (''ts'', on_field bi_Ts bi_Ts_update dec_int)]) \<lparr>bi_Topic = [], bi_Ts = 0\<rparr> rawMsg of
        Inl err \<Rightarrow> []
      | Inr msg \<Rightarrow> if bi_Topic msg = [] \<or> bi_Ts msg = 0 then [] else bi_Topic msg @ '':'' @ FormatInt (bi_Ts msg))"

text \<open>The interface value of a Bybit topic: it does not subscribe by itself.\<close>

definition topicBase :: "string \<Rightarrow> (time \<Rightarrow> raw \<Rightarrow> 's \<Rightarrow> (error option \<times> 's) result) \<Rightarrow> (raw, 's) Topic" where
  "topicBase name handler =
     \<lparr>t_TopicName = name, t_SubscribeMsgID = [], t_request = (\<lambda>i. None), t_MsgHandler = handler, t_MessageID = bb_MessageID\<rparr>"

section \<open>orderbook.go, trade.go\<close>

definition bb_NewOrderBookTopic :: "'d Symbol \<Rightarrow> int \<Rightarrow> ('data, 's, 'd) topic_obj" where
  "bb_NewOrderBookTopic symbol depth =
     \<lparr>to_name = ''orderbook.'' @ FormatInt depth @ ''.'' @ sym_name symbol, to_symbol = symbol, to_dataHandlers = [], to_msgID = []\<rparr>"

definition bb_OrderBookMsgDto_zero :: bb_OrderBookMsgDto where
  "bb_OrderBookMsgDto_zero = \<lparr>bm_Topic = [], bm_Type = [], bm_Ts = 0, bm_Bids = [], bm_Asks = [], bm_UpdateID = 0\<rparr>"

definition bb_OrderBookMsgDto_dec :: "bb_OrderBookMsgDto decoder" where
  "bb_OrderBookMsgDto_dec =
     dec_struct
       [(''topic'', on_field bm_Topic bm_Topic_update dec_string),
        (''type'', on_field bm_Type bm_Type_update dec_string),
        (''ts'', on_field bm_Ts bm_Ts_update dec_int),
        (''data'', dec_struct
          [(''b'', on_field bm_Bids bm_Bids_update (dec_list [] (dec_list [] dec_string))),
           (''a'', on_field bm_Asks bm_Asks_update (dec_list [] (dec_list [] dec_string))),
           (''u'', on_field bm_UpdateID bm_UpdateID_update dec_int)])]"

definition bb_orderbook_MsgHandler ::
  "(string \<Rightarrow> error + 'd) \<Rightarrow> ('d OrderBookData, 's) data_handler list \<Rightarrow> time \<Rightarrow> raw \<Rightarrow> 's \<Rightarrow>
     (error option \<times> 's) result" where
  "bb_orderbook_MsgHandler dec hs ts rawMsg s =
     (case Unmarshal bb_OrderBookMsgDto_dec bb_OrderBookMsgDto_zero rawMsg of
        Inl err \<Rightarrow> Inr (None, s)
      | Inr dto \<Rightarrow>
          bind_r (bb_TranslateOrderBook dec ts dto) (\<lambda>res.
            case res of Inl err \<Rightarrow> Inr (Some err, s) | Inr data \<Rightarrow> call_handlers hs data s))"

definition bb_OrderBookTopic ::
  "(string \<Rightarrow> error + 'd) \<Rightarrow> ('d OrderBookData, 's, 'd) topic_obj \<Rightarrow> (raw, 's) Topic" where
  "bb_OrderBookTopic dec t = topicBase (to_name t) (bb_orderbook_MsgHandler dec (to_dataHandlers t))"

definition bb_NewTradeTopic :: "'d Symbol \<Rightarrow> ('data, 's, 'd) topic_obj" where
  "bb_NewTradeTopic symbol =
     \<lparr>to_name = ''publicTrade.'' @ sym_name symbol, to_symbol = symbol, to_dataHandlers = [], to_msgID = []\<rparr>"

definition bb_TradeDataDto_zero :: bb_TradeDataDto where
  "bb_TradeDataDto_zero = \<lparr>bt_Timestamp = 0, bt_TradeID = [], bt_Symbol = [], bt_Side = [], bt_Volume = [], bt_Price = []\<rparr>"

record bb_TradeMsgDto =
  tm_Topic :: string
  tm_Type :: string
  tm_Ts :: int
  tm_Data :: "bb_TradeDataDto option list"

definition bb_TradeMsgDto_dec :: "bb_TradeMsgDto decoder" where
  "bb_TradeMsgDto_dec =
     dec_struct
       [(''topic'', on_field tm_Topic tm_Topic_update dec_string),
        (''type'', on_field tm_Type tm_Type_update dec_string),
        (''ts'', on_field tm_Ts tm_Ts_update dec_int),
        (''data'', on_field tm_Data tm_Data_update (dec_list None (dec_ptr bb_TradeDataDto_zero (dec_struct
          [(''T'', on_field bt_Timestamp bt_Timestamp_update dec_int),
           (''i'', on_field bt_TradeID bt_TradeID_update dec_string),
           (''s'', on_field bt_Symbol bt_Symbol_update dec_string),
           (''S'', on_field bt_Side bt_Side_update dec_string),
           (''v'', on_field bt_Volume bt_Volume_update dec_string),
           (''p'', on_field bt_Price bt_Price_update dec_string)]))))]"

text \<open>A trade that cannot be translated is dropped with its message, without an error.\<close>

definition bb_trade_MsgHandler ::
  "(string \<Rightarrow> error + 'd) \<Rightarrow> ('d TradeData list, 's) data_handler list \<Rightarrow> time \<Rightarrow> raw \<Rightarrow> 's \<Rightarrow>
     (error option \<times> 's) result" where
  "bb_trade_MsgHandler dec hs ts rawMsg s =
     (case Unmarshal bb_TradeMsgDto_dec \<lparr>tm_Topic = [], tm_Type = [], tm_Ts = 0, tm_Data = []\<rparr> rawMsg of
        Inl err \<Rightarrow> Inr (Some err, s)
      | Inr dto \<Rightarrow>
          bind_r (translate_ptrs (bb_translateTrade dec ts) (tm_Data dto)) (\<lambda>res.
            case res of Inl err \<Rightarrow> Inr (None, s) | Inr datas \<Rightarrow> call_handlers hs datas s))"

definition bb_TradeTopic ::
  "(string \<Rightarrow> error + 'd) \<Rightarrow> ('d TradeData list, 's, 'd) topic_obj \<Rightarrow> (raw, 's) Topic" where
  "bb_TradeTopic dec t = topicBase (to_name t) (bb_trade_MsgHandler dec (to_dataHandlers t))"

section \<open>order.go, position.go\<close>

type_synonym ('data, 's, 'd) handlers_map = "'d Symbol \<rightharpoonup> ('data, 's) data_handler list"

definition bb_SetHandlers ::
  "'d Symbol \<Rightarrow> ('data, 's) data_handler \<Rightarrow> ('data, 's, 'd) handlers_map \<Rightarrow> ('data, 's, 'd) handlers_map" where
  "bb_SetHandlers symbol handler m =
     (case m symbol of Some handlers \<Rightarrow> m(symbol \<mapsto> handlers @ [handler]) | None \<Rightarrow> m(symbol \<mapsto> [handler]))"

text \<open>The first loop: translate every entry and append it to the group of its symbol.\<close>

fun group_by_symbol ::
  "('a \<Rightarrow> error + 'b) \<Rightarrow> ('a \<Rightarrow> 'k) \<Rightarrow> 'a option list \<Rightarrow> ('k \<rightharpoonup> 'b list) \<Rightarrow> (error + ('k \<rightharpoonup> 'b list)) result" where
  "group_by_symbol tr key [] acc = Inr (Inr acc)"
| "group_by_symbol tr key (None # ds) acc = Inl NilDeref"
| "group_by_symbol tr key (Some d # ds) acc =
     (case tr d of
        Inl err \<Rightarrow> Inr (Inl err)
      | Inr data \<Rightarrow>
          group_by_symbol tr key ds
            (case acc (key d) of
               Some datas \<Rightarrow> acc(key d \<mapsto> datas @ [data])
             | None \<Rightarrow> acc(key d \<mapsto> [data])))"

text \<open>The second loop: the handlers of each group's symbol.\<close>

definition dispatch_groups ::
  "(('k \<rightharpoonup> 'b list) \<Rightarrow> 'k list) \<Rightarrow> ('k \<rightharpoonup> ('b list, 's) data_handler list) \<Rightarrow> ('k \<rightharpoonup> 'b list) \<Rightarrow> 's \<Rightarrow> 's result" where
  "dispatch_groups rng handlersMap datasBySymbol s =
     foldM (\<lambda>k s. case (datasBySymbol k, handlersMap k) of
         (Some datas, Some handlers) \<Rightarrow> foldM (\<lambda>h. h datas) handlers s
       | _ \<Rightarrow> Inr s) (rng datasBySymbol) s"

definition bb_OrderDataDto_zero :: bb_OrderDataDto where
  "bb_OrderDataDto_zero =
     \<lparr>bx_OrderLinkID = [], bx_OrderID = [], bx_Side = [], bx_Price = [], bx_Qty = [], bx_Fee = [], bx_AvgPrice = [],
      bx_CumExecQty = [], bx_Category = [], bx_Symbol = [], bx_UpdatedTimeMs = [], bx_OrderStatus = []\<rparr>"

record 'dto bb_private_msg =
  pv_Topic :: string
  pv_ID :: string
  pv_CreationTime :: int
  pv_Data :: "'dto option list"

definition bb_private_zero :: "'dto bb_private_msg" where
  "bb_private_zero = \<lparr>pv_Topic = [], pv_ID = [], pv_CreationTime = 0, pv_Data = []\<rparr>"

definition bb_private_dec :: "'dto \<Rightarrow> 'dto decoder \<Rightarrow> 'dto bb_private_msg decoder" where
  "bb_private_dec zero d =
     dec_struct
       [(''topic'', on_field pv_Topic pv_Topic_update dec_string),
        (''id'', on_field pv_ID pv_ID_update dec_string),
        (''creationTime'', on_field pv_CreationTime pv_CreationTime_update dec_int),
        (''data'', on_field pv_Data pv_Data_update (dec_list None (dec_ptr zero d)))]"

definition bb_OrderDataDto_dec :: "bb_OrderDataDto decoder" where
  "bb_OrderDataDto_dec =
     dec_struct
       [(''orderLinkId'', on_field bx_OrderLinkID bx_OrderLinkID_update dec_string),
        (''orderId'', on_field bx_OrderID bx_OrderID_update dec_string),
        (''side'', on_field bx_Side bx_Side_update dec_string),
        (''price'', on_field bx_Price bx_Price_update dec_string),
        (''qty'', on_field bx_Qty bx_Qty_update dec_string),
        (''cumExecFee'', on_field bx_Fee bx_Fee_update dec_string),
        (''avgPrice'', on_field bx_AvgPrice bx_AvgPrice_update dec_string),
        (''cumExecQty'', on_field bx_CumExecQty bx_CumExecQty_update dec_string),
        (''category'', on_field bx_Category bx_Category_update dec_string),
        (''symbol'', on_field bx_Symbol bx_Symbol_update dec_string),
        (''updatedTime'', on_field bx_UpdatedTimeMs bx_UpdatedTimeMs_update dec_string),
        (''orderStatus'', on_field bx_OrderStatus bx_OrderStatus_update dec_string)]"

definition bb_symbol_of :: "(rat \<Rightarrow> 'd) \<Rightarrow> string \<Rightarrow> string \<Rightarrow> 'd Symbol" where
  "bb_symbol_of nf category symbol = GetSymbol nf (''Bybit_'' @ category @ ''_'' @ symbol)"

definition bb_order_MsgHandler ::
  "(string \<Rightarrow> error + 'd :: linordered_idom) \<Rightarrow> (rat \<Rightarrow> 'd) \<Rightarrow> (('d Symbol \<rightharpoonup> 'd OrderData list) \<Rightarrow> 'd Symbol list) \<Rightarrow>
   ('d OrderData list, 's, 'd) handlers_map \<Rightarrow> time \<Rightarrow> raw \<Rightarrow> 's \<Rightarrow> (error option \<times> 's) result" where
  "bb_order_MsgHandler dec nf rng handlersMap timestamp rawMsg s =
     (case Unmarshal (bb_private_dec bb_OrderDataDto_zero bb_OrderDataDto_dec) bb_private_zero rawMsg of
        Inl err \<Rightarrow> Inr (Some err, s)
      | Inr msgDto \<Rightarrow>
          bind_r (group_by_symbol (bb_TranslateOrderData dec (Some timestamp)) (\<lambda>d. bb_symbol_of nf (bx_Category d) (bx_Symbol d))
            (pv_Data msgDto) Map.empty) (\<lambda>res.
            case res of
              Inl err \<Rightarrow> Inr (Some err, s)
            | Inr datasBySymbol \<Rightarrow>
                bind_r (dispatch_groups rng handlersMap datasBySymbol s) (\<lambda>s'. Inr (None, s'))))"

definition bb_OrderTopic ::
  "(string \<Rightarrow> error + 'd :: linordered_idom) \<Rightarrow> (rat \<Rightarrow> 'd) \<Rightarrow> (('d Symbol \<rightharpoonup> 'd OrderData list) \<Rightarrow> 'd Symbol list) \<Rightarrow>
   ('d OrderData list, 's, 'd) handlers_map \<Rightarrow> (raw, 's) Topic" where
  "bb_OrderTopic dec nf rng handlersMap = topicBase ''order'' (bb_order_MsgHandler dec nf rng handlersMap)"

definition bb_PositionDataDto_zero :: bb_PositionDataDto where
  "bb_PositionDataDto_zero =
     \<lparr>bp_PositionIdx = 0, bp_PositionValue = [], bp_Side = [], bp_Qty = [], bp_Category = [], bp_Symbol = [], bp_UpdatedTimeMs = []\<rparr>"

definition bb_PositionDataDto_dec :: "bb_PositionDataDto decoder" where
  "bb_PositionDataDto_dec =
     dec_struct
       [(''positionIdx'', on_field bp_PositionIdx bp_PositionIdx_update dec_int),
        (''positionValue'', on_field bp_PositionValue bp_PositionValue_update dec_string),
        (''side'', on_field bp_Side bp_Side_update dec_string),
        (''size'', on_field bp_Qty bp_Qty_update dec_string),
        (''category'', on_field bp_Category bp_Category_update dec_string),
        (''symbol'', on_field bp_Symbol bp_Symbol_update dec_string),
        (''updatedTime'', on_field bp_UpdatedTimeMs bp_UpdatedTimeMs_update dec_string)]"

definition bb_position_MsgHandler ::
  "(string \<Rightarrow> error + 'd) \<Rightarrow> (rat \<Rightarrow> 'd) \<Rightarrow> (('d Symbol \<rightharpoonup> 'd PositionData list) \<Rightarrow> 'd Symbol list) \<Rightarrow>
   ('d PositionData list, 's, 'd) handlers_map \<Rightarrow> time \<Rightarrow> raw \<Rightarrow> 's \<Rightarrow> (error option \<times> 's) result" where
  "bb_position_MsgHandler dec nf rng handlersMap timestamp rawMsg s =
     (case Unmarshal (bb_private_dec bb_PositionDataDto_zero bb_PositionDataDto_dec) bb_private_zero rawMsg of
        Inl err \<Rightarrow> Inr (Some err, s)
      | Inr msgDto \<Rightarrow>
          bind_r (group_by_symbol (bb_TranslatePosition dec) (\<lambda>d. bb_symbol_of nf (bp_Category d) (bp_Symbol d))
            (pv_Data msgDto) Map.empty) (\<lambda>res.
            case res of
              Inl err \<Rightarrow> Inr (Some err, s)
            | Inr datasBySymbol \<Rightarrow>
                bind_r (dispatch_groups rng handlersMap datasBySymbol s) (\<lambda>s'. Inr (None, s'))))"

definition bb_PositionTopic ::
  "(string \<Rightarrow> error + 'd) \<Rightarrow> (rat \<Rightarrow> 'd) \<Rightarrow> (('d Symbol \<rightharpoonup> 'd PositionData list) \<Rightarrow> 'd Symbol list) \<Rightarrow>
   ('d PositionData list, 's, 'd) handlers_map \<Rightarrow> (raw, 's) Topic" where
  "bb_PositionTopic dec nf rng handlersMap = topicBase ''position'' (bb_position_MsgHandler dec nf rng handlersMap)"

section \<open>manager.go\<close>

text \<open>
  One request for all topics: \<open>ks\<close> is the order in which the loop visits the map; the names
  are quoted as they are, which \<open>json.Marshal\<close> does for names without special characters.
\<close>

fun join_with :: "string \<Rightarrow> string list \<Rightarrow> string" where
  "join_with sep [] = []"
| "join_with sep [x] = x"
| "join_with sep (x # y # ys) = x @ sep @ join_with sep (y # ys)"

definition bb_SubscribeRequests :: "string list \<Rightarrow> ('m, 's) Manager \<Rightarrow> string list" where
  "bb_SubscribeRequests ks mg =
     (let topicNames = filter (\<lambda>k. mg_topicMap mg k \<noteq> None) ks in
      if length topicNames = 0 then []
      else [''{\"op\":\"subscribe\",\"args\":['' @ join_with '','' (map (\<lambda>k. ''\"'' @ k @ ''\"'') topicNames) @ '']}''])"

definition bb_getTopicName :: "raw \<Rightarrow> error + string" where
  "bb_getTopicName rawMsg = Unmarshal (dec_struct [(''topic'', dec_string)]) [] rawMsg"

definition bb_HandleTopicMessage :: "time \<Rightarrow> raw \<Rightarrow> (raw, 's) Manager \<Rightarrow> 's \<Rightarrow> (error option \<times> 's) result" where
  "bb_HandleTopicMessage timestamp rawMsg mg s =
     (case bb_getTopicName rawMsg of
        Inl err \<Rightarrow> Inr (Some (Message ''failed to identify topic name''), s)
      | Inr name \<Rightarrow>
          if name = [] then Inr (None, s)
          else (case mg_topicMap mg name of
                  Some t \<Rightarrow> t_MsgHandler t timestamp rawMsg s
                | None \<Rightarrow> Inr (None, s)))"

record bb_subscribe_resp =
  br_Op :: string
  br_Success :: bool
  br_ConnID :: string

text \<open>\<open>HandleSubscribeResp\<close> only logs whether the subscription succeeded.\<close>

definition bb_HandleSubscribeResp :: "raw \<Rightarrow> error + bool option" where
  "bb_HandleSubscribeResp rawMsg =
     bind_e (Unmarshal (dec_struct [(''op'', on_field br_Op br_Op_update dec_string),
         (''success'', on_field br_Success br_Success_update dec_bool),
         (''conn_id'', on_field br_ConnID br_ConnID_update dec_string)]) \<lparr>br_Op = [], br_Success = False, br_ConnID = []\<rparr> rawMsg)
       (\<lambda>msg. Inr (if br_Op msg \<noteq> ''subscribe'' then None else Some (br_Success msg)))"

record bb_latency_data =
  bl_CreationTime :: int
  bl_Ts :: int
  bl_Topic :: string

definition bb_MeasureLatency :: "time \<Rightarrow> raw \<Rightarrow> error + string \<times> duration" where
  "bb_MeasureLatency now rawMsg =
     bind_e (Unmarshal (dec_struct [(''creationTime'', on_field bl_CreationTime bl_CreationTime_update dec_int),
         (''ts'', on_field bl_Ts bl_Ts_update dec_int), (''topic'', on_field bl_Topic bl_Topic_update dec_string)])
         \<lparr>bl_CreationTime = 0, bl_Ts = 0, bl_Topic = []\<rparr> rawMsg)
       (\<lambda>msg. let t = (if bl_Ts msg = 0 then bl_CreationTime msg else bl_Ts msg) in
          if t = 0 then Inr ([], 0) else Inr (bl_Topic msg, Time_Sub now (UnixMilli t)))"

section \<open>The manager routes\<close>

interpretation bb: topic_router bb_getTopicName bb_HandleTopicMessage
  by unfold_locales (auto simp: bb_HandleTopicMessage_def)

interpretation bb_group: redundant_group bb_getTopicName bb_HandleTopicMessage bb_HandleTopicMessage
  by unfold_locales

end
