(* ===== verification/Topics_Correct.thy ===== *)
theory Topics_Correct
  imports Bybit_Topics
begin

text \<open>
  What the topic managers and the channel groups of both exchanges guarantee: a group handles
  the first copy of every message and nothing else, a subscription is confirmed under the name
  of its topic, Bybit's identifiers tell topics apart while CoinEx's do not tell markets apart,
  and a Bybit message is split into the data of each symbol.
\<close>

section \<open>Groups\<close>

lemma group_managers:
  "gr_topicMgs (group_SetTopics topics (NewChannelGroup n ttl)) = replicate n (SetTopics (map newDedupTopic topics) NewManager)"
  "gr_cache (group_SetTopics topics (NewChannelGroup n ttl)) = NewTTLCache ttl"
  by (simp_all add: group_SetTopics_def NewChannelGroup_def Let_def)

text \<open>A group just started at time \<open>T0\<close>, its handlers in state \<open>s\<close>.\<close>

definition group_begin :: "('m, 's) ChannelGroup \<Rightarrow> time \<Rightarrow> 's \<Rightarrow> 's shared" where
  "group_begin g T0 s = \<lparr>sh_now = T0, sh_cache = gr_cache g, sh_state = s\<rparr>"

lemma group_begin_fresh:
  "fresh_cache T0 {} (sh_cache (group_begin (group_SetTopics topics (NewChannelGroup n ttl)) T0 s))"
  "tc_ttl (sh_cache (group_begin (group_SetTopics topics (NewChannelGroup n ttl)) T0 s)) = ttl"
  "sh_state (group_begin g T0 s) = s"
  using fresh_new [of T0 ttl] by (simp_all add: group_begin_def group_managers NewTTLCache_def)

definition run_group ::
  "(time \<Rightarrow> 'm \<Rightarrow> ('m, 's shared) Manager \<Rightarrow> 's shared \<Rightarrow> (error option \<times> 's shared) result) \<Rightarrow>
   ('m, 's) Topic list \<Rightarrow> nat \<Rightarrow> duration \<Rightarrow> time \<Rightarrow> 'm group_event list \<Rightarrow> 's \<Rightarrow> 's result" where
  "run_group handle topics n ttl T0 evs s =
     (let g = group_SetTopics topics (NewChannelGroup n ttl) in
      bind_r (foldM (group_step handle g) evs (group_begin g T0 s)) (\<lambda>sh. Inr (sh_state sh)))"

lemma cx_group_run:
  assumes "distinct (map t_TopicName topics)" and "[] \<notin> t_TopicName ` set topics"
    and "\<forall>ev \<in> set evs. in_window n T0 ttl ev"
  shows "run_group cx_HandleTopicMessage topics n ttl T0 evs s =
     foldM (handle_plain cx_HandleTopicMessage (SetTopics topics NewManager))
       (first_copies (routed_id cx_getTopicName topics) {} evs) s"
  unfolding run_group_def Let_def
  by (rule cx_group.run [OF assms(1,2) group_managers(1) assms(3) group_begin_fresh(1,2), unfolded group_begin_fresh(3)])

lemma bb_group_run:
  assumes "distinct (map t_TopicName topics)" and "[] \<notin> t_TopicName ` set topics"
    and "\<forall>ev \<in> set evs. in_window n T0 ttl ev"
  shows "run_group bb_HandleTopicMessage topics n ttl T0 evs s =
     foldM (handle_plain bb_HandleTopicMessage (SetTopics topics NewManager))
       (first_copies (routed_id bb_getTopicName topics) {} evs) s"
  unfolding run_group_def Let_def
  by (rule bb_group.run [OF assms(1,2) group_managers(1) assms(3) group_begin_fresh(1,2), unfolded group_begin_fresh(3)])


section \<open>Decoding documents\<close>

lemmas json_simps = Unmarshal_def dec_struct_def find_field_def fold_name_def lower_char_def on_field_def
  dec_string_def dec_bool_def

lemma those_Some: "those (map Some xs) = Some xs"
  by (induction xs) auto

lemma dec_strings [simp]: "dec_list [] dec_string (JArr (map JStr r)) xs = Some r"
  by (simp add: dec_list_def dec_string_def comp_def those_Some)

lemma dec_string_rows [simp]: "dec_list [] (dec_list [] dec_string) (JArr (map (\<lambda>r. JArr (map JStr r)) rs)) xs = Some rs"
  by (simp add: dec_list_def [of "[]" "dec_list [] dec_string"] comp_def those_Some)

lemma dec_int_FormatInt [simp]: "- (2 ^ 63) \<le> n \<Longrightarrow> n < 2 ^ 63 \<Longrightarrow> dec_int (JNum (FormatInt n)) x = Some n"
  by (simp add: dec_int_def ParseInt_FormatInt)

text \<open>An order book message of CoinEx, as the exchange sends it.\<close>

definition depth_msg :: "string \<Rightarrow> int \<Rightarrow> string list list \<Rightarrow> string list list \<Rightarrow> raw" where
  "depth_msg market u asks bids =
     Some (JObj [(''method'', JStr ''depth.update''), (''data'', JObj
       [(''market'', JStr market), (''is_full'', JBool True), (''depth'', JObj
         [(''asks'', JArr (map (\<lambda>r. JArr (map JStr r)) asks)), (''bids'', JArr (map (\<lambda>r. JArr (map JStr r)) bids)),
          (''updated_at'', JNum (FormatInt u))])]), (''id'', JNull)])"

lemma depth_msg_name: "cx_getTopicName (depth_msg market u asks bids) = Inr (''orderBook@'' @ market)"
  by (simp add: cx_getTopicName_def cx_header_dec_def cx_header_zero_def depth_msg_def json_simps
      chanBT_def chanOB_def)

lemma depth_msg_id:
  "- (2 ^ 63) \<le> u \<Longrightarrow> u < 2 ^ 63 \<Longrightarrow> u \<noteq> 0 \<Longrightarrow> cx_orderbook_MessageID (depth_msg market u asks bids) = ''ob:'' @ FormatInt u"
  by (simp add: cx_orderbook_MessageID_def depth_msg_def json_simps)

lemma depth_msg_dto:
  "- (2 ^ 63) \<le> u \<Longrightarrow> u < 2 ^ 63 \<Longrightarrow>
     Unmarshal cx_OrderBookMsgDto_dec cx_OrderBookMsgDto_zero (depth_msg market u asks bids) =
       Inr \<lparr>cm_Symbol = market, cm_IsSnapshot = True, cm_UpdatedAt = u, cm_Bids = bids, cm_Asks = asks\<rparr>"
  by (simp add: cx_OrderBookMsgDto_dec_def cx_OrderBookMsgDto_zero_def depth_msg_def json_simps)

section \<open>CoinEx: books of two markets\<close>

definition book_topic ::
  "(string \<Rightarrow> error + 'd) \<Rightarrow> 'd Symbol \<Rightarrow> ('d OrderBookData, 's) data_handler \<Rightarrow> (raw, 's) Topic" where
  "book_topic dec symbol h = cx_OrderBookTopic dec (topic_SetHandler h (cx_NewOrderBookTopic symbol))"

lemma book_topic_fields [simp]:
  "t_TopicName (book_topic dec symbol h) = ''orderBook@'' @ sym_name symbol"
  "t_MessageID (book_topic dec symbol h) = cx_orderbook_MessageID"
  "t_MsgHandler (book_topic dec symbol h) = cx_orderbook_MsgHandler dec [h]"
  by (simp_all add: book_topic_def cx_OrderBookTopic_def topic_SetHandler_def cx_NewOrderBookTopic_def)

text \<open>
  The identifiers of CoinEx order book messages hold no market, and the topics of a group
  share one cache. When the books of two markets are updated in the same millisecond, the
  second message is taken for a copy of the first and is dropped: the handlers end in the
  state the first one leaves. (Quotes have the same kind of identifier.)
\<close>

theorem books_of_two_markets_collide:
  assumes "sym_name a \<noteq> sym_name b" and "0 < u" and "u < 2 ^ 63" and "0 < n"
    and "T0 \<le> t1" and "Time_Sub t1 T0 \<le> ttl" and "T0 \<le> t2" and "Time_Sub t2 T0 \<le> ttl"
  shows "let topics = [book_topic dec a ha, book_topic dec b hb] in
     run_group cx_HandleTopicMessage topics n ttl T0
       [Arrive 0 t1 t1 (depth_msg (sym_name a) u asks bids), Arrive 0 t2 t2 (depth_msg (sym_name b) u asks' bids')] s =
     handle_plain cx_HandleTopicMessage (SetTopics topics NewManager) (t1, depth_msg (sym_name a) u asks bids) s"
proof -
  let ?ts = "[book_topic dec a ha, book_topic dec b hb]"
  have ids: "routed_id cx_getTopicName ?ts (depth_msg (sym_name a) u asks bids) = ''ob:'' @ FormatInt u"
    "routed_id cx_getTopicName ?ts (depth_msg (sym_name b) u asks' bids') = ''ob:'' @ FormatInt u"
    using assms(1-3) by (simp_all add: routed_id_def depth_msg_name depth_msg_id)
  show ?thesis unfolding Let_def
    by (subst cx_group_run) (use assms ids in \<open>auto simp: bind_r_def split: sum.split\<close>)
qed

definition demo_market :: "string \<Rightarrow> rat Symbol" where
  "demo_market nm = fst (newSymbol (\<lambda>x. x) ExchangeCoinEx ProductFutures nm (1 / 10) (1 / 1000) AssetUSDT empty_tables)"

lemma demo_market_name [simp]: "sym_name (demo_market nm) = nm"
  by (simp add: demo_market_def newSymbol_def Let_def)

definition demo_dec :: "string \<Rightarrow> error + rat" where
  "demo_dec str = (case ParseInt str of Some n \<Rightarrow> Inr (of_int n) | None \<Rightarrow> Inl (Message ''can't convert to decimal''))"

text \<open>A handler that writes down the market it is registered for.\<close>

definition note_market :: "string \<Rightarrow> (rat OrderBookData, string list) data_handler" where
  "note_market market data s = Inr (s @ [market])"

theorem books_of_two_markets_collide_witness:
  "run_group cx_HandleTopicMessage
     [book_topic demo_dec (demo_market ''BTCUSDT'') (note_market ''BTCUSDT''), book_topic demo_dec (demo_market ''ETHUSDT'') (note_market ''ETHUSDT'')]
     2 1000 0 [Arrive 0 5 5 (depth_msg ''BTCUSDT'' 1700 [] []), Arrive 0 6 6 (depth_msg ''ETHUSDT'' 1700 [] [])] [] =
   Inr [''BTCUSDT'']"
proof -
  let ?a = "demo_market ''BTCUSDT''" and ?b = "demo_market ''ETHUSDT''"
  have "handle_plain cx_HandleTopicMessage
      (SetTopics [book_topic demo_dec ?a (note_market ''BTCUSDT''), book_topic demo_dec ?b (note_market ''ETHUSDT'')] NewManager)
      (5, depth_msg (sym_name ?a) 1700 [] []) [] = Inr [''BTCUSDT'']"
    by (simp add: handle_plain_def cx_HandleTopicMessage_def depth_msg_name SetTopics_lookup cx_orderbook_MsgHandler_def
        depth_msg_dto cx_TranslateOrderBook_def call_handlers_def note_market_def)
  with books_of_two_markets_collide [of ?a ?b 1700 2 0 5 1000 6 demo_dec "note_market ''BTCUSDT''" "note_market ''ETHUSDT''" "[]" "[]" "[]" "[]" "[]"]
  show ?thesis by (simp add: Time_Sub_def maxDuration_def minDuration_def Let_def)
qed

section \<open>Subscriptions of CoinEx\<close>

lemma FormatInt_inj:
  "- (2 ^ 63) \<le> m \<Longrightarrow> m < 2 ^ 63 \<Longrightarrow> - (2 ^ 63) \<le> n \<Longrightarrow> n < 2 ^ 63 \<Longrightarrow> FormatInt m = FormatInt n \<longleftrightarrow> m = n"
  using ParseInt_FormatInt [of m] ParseInt_FormatInt [of n] by (metis option.inject)

lemma genMsgID_bounds: "0 \<le> genMsgID v \<and> genMsgID v < 2 ^ 63"
proof -
  have "0 \<le> (v + 2 ^ 63) mod 2 ^ 64 \<and> (v + 2 ^ 63) mod 2 ^ 64 < (2 ^ 64 :: int)" by simp
  then show ?thesis by (auto simp: genMsgID_def wrap64_def Let_def)
qed

definition self_subscribing :: "('m, 's) Manager \<Rightarrow> string \<Rightarrow> bool" where
  "self_subscribing mg k \<longleftrightarrow> (\<exists>t. mg_topicMap mg k = Some t \<and> t_TopicName t = k \<and> (\<forall>i. t_request t i \<noteq> None))"

lemma subscribe_turns:
  assumes "distinct (map fst kis)" and "\<forall>k \<in> fst ` set kis. self_subscribing mg k"
  shows "fst (fold cx_subscribe_turn kis (reqs, mg)) = reqs @ map (\<lambda>(k, i). the (t_request (the (mg_topicMap mg k)) i)) kis \<and>
     mg_msgIDMap (snd (fold cx_subscribe_turn kis (reqs, mg))) = fold (\<lambda>(k, i) m. m(FormatInt i \<mapsto> k)) kis (mg_msgIDMap mg)"
  using assms
proof (induction kis arbitrary: reqs mg)
  case (Cons ki kis)
  obtain k i where ki: "ki = (k, i)" by fastforce
  obtain t where t: "mg_topicMap mg k = Some t" "t_TopicName t = k" "t_request t i \<noteq> None"
    using Cons.prems(2) ki by (auto simp: self_subscribing_def)
  then obtain req where req: "t_request t i = Some req" by blast
  let ?mg = "mg\<lparr>mg_topicMap := (mg_topicMap mg)(k \<mapsto> t\<lparr>t_SubscribeMsgID := FormatInt i\<rparr>), mg_msgIDMap := (mg_msgIDMap mg)(FormatInt i \<mapsto> k)\<rparr>"
  have turn: "cx_subscribe_turn ki (reqs, mg) = (reqs @ [req], ?mg)"
    using t req ki by (simp add: cx_subscribe_turn_def SubscribeMsg_def)
  have k: "k \<notin> fst ` set kis" using Cons.prems(1) ki by simp
  have "\<forall>k \<in> fst ` set kis. self_subscribing ?mg k"
    using Cons.prems(2) k by (auto simp: self_subscribing_def)
  moreover have "map (\<lambda>(k, i). the (t_request (the (mg_topicMap ?mg k)) i)) kis = map (\<lambda>(k, i). the (t_request (the (mg_topicMap mg k)) i)) kis"
    using k by force
  ultimately show ?case
    using Cons.IH [of ?mg "reqs @ [req]"] Cons.prems(1) turn t req ki by simp
qed simp

lemma fold_ids_other:
  assumes "i \<notin> snd ` set kis" and "\<forall>i \<in> snd ` set kis. 0 \<le> i \<and> i < 2 ^ 63" and "0 \<le> i" and "i < 2 ^ 63"
  shows "fold (\<lambda>(k, i) m. m(FormatInt i \<mapsto> k)) kis m (FormatInt i) = m (FormatInt i)"
  using assms
proof (induction kis arbitrary: m)
  case (Cons kj kis)
  then show ?case using FormatInt_inj [of i "snd kj"] by (auto simp: case_prod_beta)
qed simp

lemma fold_ids:
  assumes "distinct (map snd kis)" and "\<forall>i \<in> snd ` set kis. 0 \<le> i \<and> i < 2 ^ 63" and "(k, i) \<in> set kis"
  shows "fold (\<lambda>(k, i) m. m(FormatInt i \<mapsto> k)) kis m (FormatInt i) = Some k"
  using assms
proof (induction kis arbitrary: m)
  case (Cons kj kis)
  show ?case
  proof (cases "kj = (k, i)")
    case True
    then have "i \<notin> snd ` set kis" using Cons.prems(1) by auto
    with fold_ids_other [of i kis "m(FormatInt i \<mapsto> k)"] Cons.prems(2) True show ?thesis
      by (simp del: fun_upd_apply) simp
  next
    case False
    with Cons show ?thesis by auto
  qed
qed simp

text \<open>
  A manager of CoinEx sends one request for each of its topics, whatever the order in
  which the loop visits them, and a later response with the identifier of a request is
  reported for exactly the topic that request was for.
\<close>

theorem subscription_confirmed_under_its_topic:
  assumes "enumerates (map fst kis) (mg_topicMap mg)" and "\<forall>k \<in> dom (mg_topicMap mg). self_subscribing mg k"
    and "distinct (map snd kis)" and "\<forall>i \<in> set (map snd kis). \<exists>v. i = genMsgID v" and "(k, i) \<in> set kis"
  shows "case cx_SubscribeRequests kis mg of (reqs, mg') \<Rightarrow>
     reqs = map (\<lambda>(k, i). the (t_request (the (mg_topicMap mg k)) i)) kis \<and>
     cx_HandleSubscribeResp mg' (Some (JObj [(''id'', JNum (FormatInt i)), (''code'', JNum ''0''), (''message'', JStr answer)])) =
       Inr (Some (k, answer = ''OK''))"
proof -
  have d: "distinct (map fst kis)" "\<forall>k \<in> fst ` set kis. self_subscribing mg k"
    using assms(1,2) by (auto simp: enumerates_def)
  have b: "\<forall>i \<in> snd ` set kis. 0 \<le> i \<and> i < 2 ^ 63" using assms(4) genMsgID_bounds by auto
  then have i: "0 \<le> i \<and> i < 2 ^ 63" using assms(5) by force
  obtain reqs mg' where r: "cx_SubscribeRequests kis mg = (reqs, mg')" by fastforce
  have "reqs = map (\<lambda>(k, i). the (t_request (the (mg_topicMap mg k)) i)) kis"
    and "mg_msgIDMap mg' (FormatInt i) = Some k"
    using subscribe_turns [OF d, of "[]"] fold_ids [OF assms(3) b assms(5)] r by (simp_all add: cx_SubscribeRequests_def)
  with r i show ?thesis
    by (simp add: cx_HandleSubscribeResp_def json_simps)
qed

text \<open>The manager of the example: the book topics of two markets.\<close>

definition demo_manager :: "(raw, string list) Manager" where
  "demo_manager = SetTopics [book_topic demo_dec (demo_market ''BTCUSDT'') (note_market ''BTCUSDT''),
     book_topic demo_dec (demo_market ''ETHUSDT'') (note_market ''ETHUSDT'')] NewManager"

lemma demo_manager_topics:
  "mg_topicMap demo_manager n =
     (if n = ''orderBook@BTCUSDT'' then Some (book_topic demo_dec (demo_market ''BTCUSDT'') (note_market ''BTCUSDT''))
      else if n = ''orderBook@ETHUSDT'' then Some (book_topic demo_dec (demo_market ''ETHUSDT'') (note_market ''ETHUSDT''))
      else None)"
  by (auto simp: demo_manager_def SetTopics_lookup)

lemma demo_manager_subscribes: "\<forall>k \<in> dom (mg_topicMap demo_manager). self_subscribing demo_manager k"
  by (auto simp: demo_manager_topics self_subscribing_def dom_def book_topic_def cx_OrderBookTopic_def topic_SetHandler_def
      cx_NewOrderBookTopic_def)

theorem subscription_confirmed_under_its_topic_witness:
  "case cx_SubscribeRequests [(''orderBook@ETHUSDT'', 7), (''orderBook@BTCUSDT'', 9)] demo_manager of (reqs, mg') \<Rightarrow>
     length reqs = 2 \<and>
     cx_HandleSubscribeResp mg' (Some (JObj [(''id'', JNum (FormatInt 7)), (''code'', JNum ''0''), (''message'', JStr ''OK'')])) =
       Inr (Some (''orderBook@ETHUSDT'', True))"
proof -
  let ?kis = "[(''orderBook@ETHUSDT'', 7 :: int), (''orderBook@BTCUSDT'', 9)]"
  have ids: "\<forall>i \<in> set (map snd ?kis). \<exists>v. i = genMsgID v"
    by (auto simp: genMsgID_def wrap64_def intro: exI [of _ 7] exI [of _ 9])
  have en: "enumerates (map fst ?kis) (mg_topicMap demo_manager)"
    by (auto simp: enumerates_def demo_manager_topics dom_def)
  from subscription_confirmed_under_its_topic [OF en demo_manager_subscribes _ ids, of "''orderBook@ETHUSDT''" 7 "''OK''"]
  show ?thesis by (auto split: prod.splits)
qed

section \<open>Bybit: identifiers\<close>

lemma FormatInt_no_colon: "CHR '':'' \<notin> set (FormatInt n)"
  using format_nat_digits [of "nat n"] format_nat_digits [of "nat (- n)"]
  by (auto simp: FormatInt_def list_all_iff is_digit_def)

lemma split_last_colon:
  assumes "t @ '':'' @ n = t' @ '':'' @ n'" and "CHR '':'' \<notin> set n" and "CHR '':'' \<notin> set n'"
  shows "t = t'"
proof -
  have strip: "takeWhile (\<lambda>c. c \<noteq> CHR '':'') (rev (x @ '':'' @ y)) = rev y" if "CHR '':'' \<notin> set y" for x y
    using that by (subst rev_append, subst rev_append) (auto simp: takeWhile_append)
  have "rev n = rev n'"
    by (subst strip [OF assms(2), of t, symmetric], subst strip [OF assms(3), of t', symmetric]) (simp only: assms(1))
  with assms(1) show ?thesis by simp
qed

lemma bb_topic_decoded:
  assumes "dec_members [(''topic'', on_field bi_Topic bi_Topic_update dec_string), (''ts'', on_field bi_Ts bi_Ts_update dec_int)] ms r = Some r'"
  shows "dec_members [(''topic'', dec_string)] ms (bi_Topic r) = Some (bi_Topic r')"
  using assms
proof (rule dec_members_sim)
  have names: "fold_name ''topic'' \<noteq> fold_name ''ts''" by (simp add: fold_name_def lower_char_def)
  fix k v x y
  assume "dec_member [(''topic'', on_field bi_Topic bi_Topic_update dec_string), (''ts'', on_field bi_Ts bi_Ts_update dec_int)] k v x = Some y"
  with names show "dec_member [(''topic'', dec_string)] k v (bi_Topic x) = Some (bi_Topic y)"
    by (auto simp: dec_member_def find_field_distinct on_field_def split: if_splits)
qed

text \<open>
  Bybit's identifiers tell topics apart: two messages with the same identifier are
  messages of the same topic, so no group ever drops a message for one of another topic.
\<close>

theorem bybit_ids_tell_topics_apart:
  assumes "bb_MessageID m \<noteq> []" and "bb_MessageID m = bb_MessageID m'"
  shows "bb_getTopicName m = bb_getTopicName m'"
proof -
  have ex: "\<exists>t n. bb_MessageID x = t @ '':'' @ FormatInt n \<and> bb_getTopicName x = Inr t" if "bb_MessageID x \<noteq> []" for x
    using that bb_topic_decoded
    by (fastforce simp: bb_MessageID_def bb_getTopicName_def Unmarshal_def dec_struct_def
        split: option.splits json.splits if_splits sum.splits)
  from ex [OF assms(1)] ex [of m'] assms obtain t n t' n' where
    "bb_MessageID m = t @ '':'' @ FormatInt n" "bb_getTopicName m = Inr t"
    "bb_MessageID m' = t' @ '':'' @ FormatInt n'" "bb_getTopicName m' = Inr t'" by metis
  with assms(2) split_last_colon FormatInt_no_colon show ?thesis by metis
qed

definition demo_trade_msg :: raw where
  "demo_trade_msg = Some (JObj [(''topic'', JStr ''publicTrade.BTCUSDT''), (''ts'', JNum ''1700''), (''data'', JArr [])])"

definition demo_trade_copy :: raw where
  "demo_trade_copy = Some (JObj [(''ts'', JNum ''1700''), (''type'', JStr ''snapshot''), (''Topic'', JStr ''publicTrade.BTCUSDT'')])"

theorem bybit_ids_tell_topics_apart_witness:
  "bb_MessageID demo_trade_msg = ''publicTrade.BTCUSDT:1700'' \<and> bb_getTopicName demo_trade_msg = bb_getTopicName demo_trade_copy"
proof -
  have "bb_MessageID demo_trade_msg = ''publicTrade.BTCUSDT:1700''" "bb_MessageID demo_trade_copy = ''publicTrade.BTCUSDT:1700''"
    by code_simp+
  with bybit_ids_tell_topics_apart [of demo_trade_msg demo_trade_copy] show ?thesis by simp
qed

section \<open>Bybit: messages for several symbols\<close>

text \<open>What the entries of a message translate to, for one symbol.\<close>

definition datas_for :: "('a \<Rightarrow> 'k) \<Rightarrow> 'a list \<Rightarrow> 'b list \<Rightarrow> 'k \<Rightarrow> 'b list" where
  "datas_for key ds ys k = map snd (filter (\<lambda>(d, y). key d = k) (zip ds ys))"

lemma group_by_symbol_eq:
  assumes "list_all2 (\<lambda>d y. tr d = Inr y) ds ys"
  shows "group_by_symbol tr key (map Some ds) acc =
     Inr (Inr (\<lambda>k. case acc k of
         Some a \<Rightarrow> Some (a @ datas_for key ds ys k)
       | None \<Rightarrow> if datas_for key ds ys k = [] then None else Some (datas_for key ds ys k)))"
  using assms
proof (induction ds ys arbitrary: acc rule: list_all2_induct)
  case Nil
  show ?case by (auto simp: datas_for_def split: option.split)
next
  case (Cons d ds y ys)
  then show ?case
    by (auto simp: datas_for_def fun_eq_iff split: option.split)
qed

lemma GetSymbol_known: "GetSymbol nf i \<in> set (symbols nf)"
proof (cases "symbolMapByID (tables nf) i")
  case None
  have "SymbolUnknown nf \<in> set (symbols nf)"
    by (simp add: symbols_def master_symbols_def SymbolUnknown_def split: prod.split)
  with None show ?thesis by (simp add: GetSymbol_def)
next
  case (Some s)
  have "symbolMapByID (tables nf) = map_of (rev (map (\<lambda>s. (sym_id s, s)) (symbols nf)))"
    using init_symbols_table [of nf master_symbols empty_tables "symbols nf" "tables nf"]
    by (simp add: symbols_def tables_def empty_tables_def)
  with Some show ?thesis by (auto simp: GetSymbol_def dest: map_of_SomeD)
qed

definition demo_rng :: "(rat Symbol \<rightharpoonup> 'b) \<Rightarrow> rat Symbol list" where
  "demo_rng m = filter (\<lambda>k. m k \<noteq> None) (remdups (symbols (\<lambda>x. x)))"


section \<open>Messages of a wrong shape\<close>

lemma rows_translated:
  "\<forall>r \<in> set rows. 2 \<le> length r \<Longrightarrow> \<exists>res. translateRecords dec seqID rows = Inr res"
proof (induction rows)
  case (Cons r rows)
  then obtain r0 r1 t where "r = r0 # r1 # t" by (metis Suc_le_length_iff list.set_intros(1) numeral_2_eq_2)
  with Cons show ?case by (auto split: sum.split)
qed simp

text \<open>
  The shape of a book row is not checked. A book message whose rows all have a price and a
  volume is handled without a panic, but one row of a single entry crashes the program, and so
  does a null among the entries of a Bybit order message.
\<close>

theorem malformed_feed_panics:
  assumes "0 < u" and "u < 2 ^ 63" and "dec p = Inr x" and "\<And>data s. \<exists>s'. h data s = Inr s'"
    and "\<forall>r \<in> set asks \<union> set bids. 2 \<le> length r"
  shows "(\<exists>res. cx_HandleTopicMessage ts (depth_msg (sym_name a) u asks bids) (SetTopics [book_topic dec a h] NewManager) s = Inr res) \<and>
     cx_HandleTopicMessage ts (depth_msg (sym_name a) u [[p]] bids) (SetTopics [book_topic dec a h] NewManager) s = Inl IndexOutOfRange \<and>
     bb_HandleTopicMessage ts (Some (JObj [(''topic'', JStr ''order''), (''data'', JArr [JNull])]))
       (SetTopics [bb_OrderTopic dec' nf rng handlersMap] NewManager) s = Inl NilDeref"
proof -
  obtain ra rb where r: "translateRecords dec u asks = Inr ra" "translateRecords dec u bids = Inr rb"
    using rows_translated [of asks dec u] rows_translated [of bids dec u] assms(5) by auto
  have calls: "\<exists>res. call_handlers [h] data s = Inr res" for data
    using assms(4) [of data s] by (auto simp: call_handlers_def)
  have "\<exists>res. cx_HandleTopicMessage ts (depth_msg (sym_name a) u asks bids) (SetTopics [book_topic dec a h] NewManager) s = Inr res"
    using assms(1,2) r calls
    by (auto simp: cx_HandleTopicMessage_def depth_msg_name SetTopics_lookup cx_orderbook_MsgHandler_def depth_msg_dto
        cx_TranslateOrderBook_def split: sum.split)
  moreover have "cx_HandleTopicMessage ts (depth_msg (sym_name a) u [[p]] bids) (SetTopics [book_topic dec a h] NewManager) s = Inl IndexOutOfRange"
    using assms(1-3)
    by (simp add: cx_HandleTopicMessage_def depth_msg_name SetTopics_lookup cx_orderbook_MsgHandler_def depth_msg_dto
        cx_TranslateOrderBook_def)
  moreover have "bb_HandleTopicMessage ts (Some (JObj [(''topic'', JStr ''order''), (''data'', JArr [JNull])]))
       (SetTopics [bb_OrderTopic dec' nf rng handlersMap] NewManager) s = Inl NilDeref"
    by (simp add: bb_HandleTopicMessage_def bb_getTopicName_def json_simps SetTopics_lookup bb_OrderTopic_def topicBase_def
        bb_order_MsgHandler_def bb_private_dec_def bb_private_zero_def dec_list_def dec_ptr_def)
  ultimately show ?thesis by blast
qed

theorem malformed_feed_panics_witness:
  "cx_HandleTopicMessage 5 (depth_msg (sym_name (demo_market ''BTCUSDT'')) 1700 [[''7'']] [])
     (SetTopics [book_topic demo_dec (demo_market ''BTCUSDT'') (note_market ''BTCUSDT'')] NewManager) [] = Inl IndexOutOfRange"
proof -
  have "demo_dec ''7'' = Inr 7" by code_simp
  from malformed_feed_panics [where u = 1700 and dec = demo_dec and p = "''7''" and x = 7 and h = "note_market ''BTCUSDT''"
      and asks = "[]" and bids = "[]" and ts = 5 and a = "demo_market ''BTCUSDT''" and s = "[]"
      and dec' = demo_dec and nf = "\<lambda>x. x" and rng = demo_rng and handlersMap = Map.empty, OF _ _ this]
  show ?thesis by (simp add: note_market_def)
qed

end
