(* ===== verification/Exchange_Ws.thy ===== *)
theory Exchange_Ws
  imports Channel Topics_Correct
begin

text \<open>
  \<open>internal/gateways/exchanges/{bybit,coinex}/ws\<close>: endpoints, authentication and health checks
  of the two exchanges, and the channels they build. \<open>sign\<close> is the hexadecimal HMAC-SHA256 of
  a text under a secret; \<open>nowMs\<close> and \<open>now\<close> are the clock in milliseconds and seconds. The
  functions that write to the connection are the messages they write.
\<close>

section \<open>bybit/ws/endpoints.go, channel.go\<close>

definition HostName :: string where "HostName = ''stream.bybit.com''"
definition ScopePathPublic :: string where "ScopePathPublic = ''/public''"
definition ScopePathPrivate :: string where "ScopePathPrivate = ''/private''"
definition APIv5 :: string where "APIv5 = ''/v5''"

datatype WsProduct = WsProductUnknown | WsProductSpot | WsProductLinear | WsProductInverse | WsProductOption

definition Product_Path :: "WsProduct \<Rightarrow> string" where
  "Product_Path t =
     (case t of
        WsProductSpot \<Rightarrow> ''/spot'' | WsProductLinear \<Rightarrow> ''/linear'' | WsProductInverse \<Rightarrow> ''/inverse''
      | WsProductOption \<Rightarrow> ''/option'' | WsProductUnknown \<Rightarrow> '''')"

text \<open>What \<open>NewChannel\<close> is called with: the endpoint to dial and the channel.\<close>

definition bb_NewPublicChannel :: "WsProduct \<Rightarrow> LatencyMeasurer option \<Rightarrow> 's \<Rightarrow> string \<times> 's Channel" where
  "bb_NewPublicChannel product measurer mg =
     (''wss://'' @ HostName @ APIv5 @ ScopePathPublic @ Product_Path product, NewChannel ScopeTypePublic measurer mg)"

definition bb_NewPrivateChannel :: "LatencyMeasurer option \<Rightarrow> 's \<Rightarrow> string \<times> 's Channel" where
  "bb_NewPrivateChannel measurer mg =
     (''wss://'' @ HostName @ APIv5 @ ScopePathPrivate, NewChannel ScopeTypePrivate measurer mg)"

section \<open>bybit/ws/author.go, health\_checker.go\<close>

definition bybitSendAuthRequest :: "(string \<Rightarrow> string \<Rightarrow> string) \<Rightarrow> int \<Rightarrow> string \<Rightarrow> string \<Rightarrow> string" where
  "bybitSendAuthRequest sign nowMs apiKey secret =
     (let expire = nowMs + 3000;
          signature = sign secret (''GET/realtime'' @ FormatInt expire)
      in ''{\"op\": \"auth\", \"args\": [\"'' @ apiKey @ ''\", '' @ FormatInt expire @ '',\"'' @ signature @ ''\"]}'')"

record bb_auth_resp =
  ar_Op :: string
  ar_Success :: bool
  ar_RetMsg :: string

text \<open>Whether the message is an authentication response, whether it is a success, and the detail of a failure.\<close>

definition bybitCheckAuthResponse :: "raw \<Rightarrow> error + bool \<times> bool \<times> string" where
  "bybitCheckAuthResponse rawMsg =
     bind_e (Unmarshal (dec_struct [(''op'', on_field ar_Op ar_Op_update dec_string),
         (''success'', on_field ar_Success ar_Success_update dec_bool),
         (''ret_msg'', on_field ar_RetMsg ar_RetMsg_update dec_string)]) \<lparr>ar_Op = [], ar_Success = False, ar_RetMsg = []\<rparr> rawMsg)
       (\<lambda>msg. Inr (if ar_Op msg \<noteq> ''auth'' then (False, False, [])
                    else if ar_Success msg then (True, True, [])
                    else (True, False, ar_RetMsg msg)))"

definition bybitPingSender :: "int \<Rightarrow> string" where
  "bybitPingSender now = ''{\"req_id\":'' @ FormatInt now @ ''}''"

section \<open>coinex/ws/author.go, health\_checker.go, channel.go\<close>

definition wsEndpoint :: string where "wsEndpoint = ''wss://socket.coinex.com/v2/futures''"

definition cx_NewPublicChannel :: "LatencyMeasurer option \<Rightarrow> 's \<Rightarrow> string \<times> 's Channel" where
  "cx_NewPublicChannel measurer mg = (wsEndpoint, NewChannel ScopeTypePublic measurer mg)"

definition cx_NewPrivateChannel :: "LatencyMeasurer option \<Rightarrow> 's \<Rightarrow> string \<times> 's Channel" where
  "cx_NewPrivateChannel measurer mg = (wsEndpoint, NewChannel ScopeTypePrivate measurer mg)"

text \<open>The state of an author: the identifier of its requests; \<open>genAuthMsgID\<close> is \<open>genMsgID\<close> again.\<close>

record coinexAuthState =
  as_msgID :: int

definition genAuthMsgID :: "int \<Rightarrow> int" where
  "genAuthMsgID v = (let x = wrap64 v in if x < 0 then - x - 1 else x)"

definition newCoinexAuthState :: "int \<Rightarrow> coinexAuthState" where
  "newCoinexAuthState v = \<lparr>as_msgID = genAuthMsgID v\<rparr>"

definition coinexSendRequest :: "(string \<Rightarrow> string \<Rightarrow> string) \<Rightarrow> int \<Rightarrow> string \<Rightarrow> string \<Rightarrow> coinexAuthState \<Rightarrow> string" where
  "coinexSendRequest sign nowMs apiKey secret st =
     (let timestamp = FormatInt nowMs; sgn_str = sign secret timestamp in
      ''{'' @ nl_tabs 2 @ ''\"id\": '' @ FormatInt (as_msgID st) @ '','' @
      nl_tabs 2 @ ''\"method\": \"server.sign\",'' @ nl_tabs 2 @ ''\"params\": {'' @
      nl_tabs 3 @ ''\"access_id\": \"'' @ apiKey @ ''\",'' @ nl_tabs 3 @ ''\"signed_str\": \"'' @ sgn_str @ ''\",'' @
      nl_tabs 3 @ ''\"timestamp\": '' @ timestamp @ nl_tabs 2 @ ''}'' @ nl_tabs 1 @ ''}'')"

record cx_auth_resp =
  ca_ID :: int
  ca_RespCode :: int
  ca_RespMessage :: string

definition coinexCheckResponse :: "coinexAuthState \<Rightarrow> raw \<Rightarrow> error + bool \<times> bool \<times> string" where
  "coinexCheckResponse st rawMsg =
     (case Unmarshal (dec_struct [(''id'', on_field ca_ID ca_ID_update dec_int),
          (''code'', on_field ca_RespCode ca_RespCode_update dec_int),
          (''message'', on_field ca_RespMessage ca_RespMessage_update dec_string)])
          \<lparr>ca_ID = 0, ca_RespCode = 0, ca_RespMessage = []\<rparr> rawMsg of
        Inl err \<Rightarrow> Inr (False, False, [])
      | Inr msg \<Rightarrow>
          Inr (if ca_ID msg \<noteq> as_msgID st then (False, False, [])
               else if ca_RespCode msg = 0 then (True, True, [])
               else (True, False, ''code='' @ FormatInt (ca_RespCode msg) @ '': '' @ ca_RespMessage msg)))"

definition coinexPingSender :: "int \<Rightarrow> string" where
  "coinexPingSender now = ''{\"method\":\"server.ping\",\"params\":{},\"id\":'' @ FormatInt now @ ''}''"

definition coinexPongMatcher :: "raw \<Rightarrow> bool" where
  "coinexPongMatcher rawMsg =
     (case Unmarshal (dec_struct [(''data'', dec_struct [(''result'', dec_string)])]) [] rawMsg of
        Inl err \<Rightarrow> False
      | Inr r \<Rightarrow> r = ''pong'')"

section \<open>Who takes a message\<close>

text \<open>
  On a private CoinEx channel every text message goes through the pong matcher and the author
  before it reaches a topic. Market data and account updates are neither: their identifier is
  null, which decodes as 0, and an author's identifier is only 0 when the random bytes are all
  zeros or all ones.
\<close>

lemma genAuthMsgID_zero: "genAuthMsgID v = 0 \<longleftrightarrow> wrap64 v = 0 \<or> wrap64 v = - 1"
  by (auto simp: genAuthMsgID_def Let_def)

lemma fold_name_eqs:
  "fold_name ''id'' = ''id''" "fold_name ''code'' = ''code''" "fold_name ''message'' = ''message''"
  by (simp_all add: fold_name_def lower_char_def)

lemma no_id_decodes_zero:
  assumes "\<forall>(k, v) \<in> set ms. fold_name k = ''id'' \<longrightarrow> v = JNull"
    and "dec_members [(''id'', on_field ca_ID ca_ID_update dec_int), (''code'', on_field ca_RespCode ca_RespCode_update dec_int),
          (''message'', on_field ca_RespMessage ca_RespMessage_update dec_string)] ms r = Some r'"
  shows "ca_ID r' = ca_ID r"
  using assms
proof (induction ms arbitrary: r)
  case (Cons kv ms)
  obtain k v where kv: "kv = (k, v)" by fastforce
  let ?fs = "[(''id'', on_field ca_ID ca_ID_update dec_int), (''code'', on_field ca_RespCode ca_RespCode_update dec_int),
          (''message'', on_field ca_RespMessage ca_RespMessage_update dec_string)]"
  obtain r1 where r1: "dec_member ?fs k v r = Some r1" "dec_members ?fs ms r1 = Some r'"
    using Cons.prems(2) kv by (auto simp: dec_members_step simp del: dec_members.simps split: Option.bind_splits)
  have "ca_ID r1 = ca_ID r"
    using r1(1) Cons.prems(1) kv
    by (auto simp: dec_member_def find_field_distinct fold_name_eqs on_field_def dec_int_def split: if_splits)
  with Cons r1(2) show ?case by simp
qed simp

text \<open>
  On CoinEx no message without a numeric identifier (data of a topic) is ever taken for an
  authentication response, unless all random bytes of the author's identifier are equal; a
  response with its identifier is, and succeeds exactly with code 0. On Bybit a document that
  cannot be decoded is an error that ends the connection, on CoinEx it is ignored.
\<close>

theorem auth_response_recognised:
  assumes "wrap64 v \<noteq> 0" and "wrap64 v \<noteq> - 1"
    and "\<forall>(k, x) \<in> set ms. fold_name k = ''id'' \<longrightarrow> x = JNull" and "- (2 ^ 63) \<le> code" and "code < 2 ^ 63"
  shows "coinexCheckResponse (newCoinexAuthState v) (Some (JObj ms)) = Inr (False, False, []) \<and>
     coinexCheckResponse (newCoinexAuthState v)
       (Some (JObj [(''id'', JNum (FormatInt (genAuthMsgID v))), (''code'', JNum (FormatInt code)), (''message'', JStr m)])) =
       Inr (True, code = 0, if code = 0 then [] else ''code='' @ FormatInt code @ '': '' @ m) \<and>
     coinexCheckResponse (newCoinexAuthState v) None = Inr (False, False, []) \<and> (\<exists>err. bybitCheckAuthResponse None = Inl err)"
proof -
  have nz: "genAuthMsgID v \<noteq> 0" using assms(1,2) by (simp add: genAuthMsgID_zero)
  have gen: "genAuthMsgID v = genMsgID v" by (simp add: genAuthMsgID_def genMsgID_def)
  have b: "0 \<le> genAuthMsgID v" "genAuthMsgID v < 2 ^ 63" using genMsgID_bounds [of v] unfolding gen by simp_all
  have "coinexCheckResponse (newCoinexAuthState v) (Some (JObj ms)) = Inr (False, False, [])"
    using nz no_id_decodes_zero [OF assms(3)]
    by (fastforce simp: coinexCheckResponse_def newCoinexAuthState_def Unmarshal_def dec_struct_def split: option.split sum.split)
  moreover have "coinexCheckResponse (newCoinexAuthState v)
       (Some (JObj [(''id'', JNum (FormatInt (genAuthMsgID v))), (''code'', JNum (FormatInt code)), (''message'', JStr m)])) =
       Inr (True, code = 0, if code = 0 then [] else ''code='' @ FormatInt code @ '': '' @ m)"
    using b assms(4,5) by (simp add: coinexCheckResponse_def newCoinexAuthState_def json_simps)
  ultimately show ?thesis
    by (simp add: coinexCheckResponse_def bybitCheckAuthResponse_def Unmarshal_def)
qed

theorem auth_response_recognised_witness:
  "coinexCheckResponse (newCoinexAuthState 77) (depth_msg ''BTCUSDT'' 1700 [] []) = Inr (False, False, []) \<and>
   coinexCheckResponse (newCoinexAuthState 77)
     (Some (JObj [(''id'', JNum (FormatInt (genAuthMsgID 77))), (''code'', JNum (FormatInt 0)), (''message'', JStr ''OK'')])) =
     Inr (True, True, [])"
  using auth_response_recognised [of 77 "[(''method'', JStr ''depth.update''), (''data'', JObj
       [(''market'', JStr ''BTCUSDT''), (''is_full'', JBool True), (''depth'', JObj
         [(''asks'', JArr []), (''bids'', JArr []), (''updated_at'', JNum (FormatInt 1700))])]), (''id'', JNull)]" 0 "''OK''"]
  by (simp add: wrap64_def depth_msg_def fold_name_def lower_char_def)

end
