(* ===== verification/Metrics.thy ===== *)
theory Metrics
  imports Latency Strconv
begin

text \<open>
  The package \<open>metrics\<close>: the measurements, the translation of closed latency intervals and the
  exporter that hands both to InfluxDB every five seconds. A point is the sequence of setter
  calls that build it; the InfluxDB client is an answer to every \<open>WritePoints\<close> call.
  Collecting and writing run in goroutines of their own, so a tick only starts them, and they
  run later in any order. A nil metric in the queue is not modelled.
\<close>

section \<open>measurements\<close>

definition wsLatencyMeasurementName :: string where "wsLatencyMeasurementName = ''ws_latency''"

datatype 'f field_value = FieldInt int | FieldFloat 'f

record 'f point =
  pt_measurement :: string
  pt_timestamp :: time
  pt_tags :: "(string \<times> string) list"
  pt_fields :: "(string \<times> 'f field_value) list"

definition SetTag :: "string \<Rightarrow> string \<Rightarrow> 'f point \<Rightarrow> 'f point" where
  "SetTag k v p = p\<lparr>pt_tags := pt_tags p @ [(k, v)]\<rparr>"

definition SetField :: "string \<Rightarrow> 'f field_value \<Rightarrow> 'f point \<Rightarrow> 'f point" where
  "SetField k v p = p\<lparr>pt_fields := pt_fields p @ [(k, v)]\<rparr>"

definition setPointerValue :: "string \<Rightarrow> int option \<Rightarrow> 'f point \<Rightarrow> 'f point" where
  "setPointerValue name ptrValue p = (case ptrValue of Some v \<Rightarrow> SetField name (FieldInt v) p | None \<Rightarrow> p)"

text \<open>A custom metric; the lists are the orders in which \<open>range\<close> visits its two maps.\<close>

record 'f CustomMetric =
  cu_measurement :: string
  cu_timestamp :: time
  cu_tags :: "(string \<times> string) list"
  cu_fields :: "(string \<times> 'f) list"

definition NewCustomMetric :: "time \<Rightarrow> string \<Rightarrow> (string \<times> string) list \<Rightarrow> (string \<times> 'f) list \<Rightarrow> 'f CustomMetric" where
  "NewCustomMetric timestamp measurement tags flds =
     \<lparr>cu_measurement = measurement, cu_timestamp = timestamp, cu_tags = tags, cu_fields = flds\<rparr>"

definition cu_validate :: "'f CustomMetric \<Rightarrow> bool" where
  "cu_validate m \<longleftrightarrow> 0 < length (cu_fields m)"

definition cu_ToPoint :: "string \<Rightarrow> 'f CustomMetric \<Rightarrow> 'f point option" where
  "cu_ToPoint strategyName m =
     (if \<not> cu_validate m then None
      else
        (let p0 = \<lparr>pt_measurement = cu_measurement m, pt_timestamp = cu_timestamp m, pt_tags = [], pt_fields = []\<rparr>;
             p1 = (if strategyName \<noteq> [] then SetTag ''strategy'' strategyName p0 else p0);
             p2 = fold (\<lambda>(k, v). SetTag k v) (cu_tags m) p1
         in Some (fold (\<lambda>(k, v). SetField k (FieldFloat v)) (cu_fields m) p2)))"

record Latency_entry =
  le_Time :: time
  le_Topic :: string
  le_AvgMilliSec :: "int option"
  le_MaxMilliSec :: "int option"
  le_MinMilliSec :: "int option"

definition le_ToPoint :: "string \<Rightarrow> Latency_entry \<Rightarrow> 'f point" where
  "le_ToPoint strategyName l =
     (let p0 = \<lparr>pt_measurement = wsLatencyMeasurementName, pt_timestamp = le_Time l, pt_tags = [(''topic'', le_Topic l)], pt_fields = []\<rparr>;
          p1 = (if strategyName \<noteq> [] then SetTag ''strategy'' strategyName p0 else p0)
      in setPointerValue ''min_ms'' (le_MinMilliSec l)
           (setPointerValue ''max_ms'' (le_MaxMilliSec l) (setPointerValue ''avg_ms'' (le_AvgMilliSec l) p1)))"

definition Latencies_ToPoints :: "string \<Rightarrow> Latency_entry list \<Rightarrow> 'f point list" where
  "Latencies_ToPoints strategyName ls = map (le_ToPoint strategyName) ls"

section \<open>translators/latency.go\<close>

definition Milliseconds :: "duration \<Rightarrow> int" where
  "Milliseconds d = signed_divide d 1000000"

definition translateToLatency :: "time \<Rightarrow> string \<Rightarrow> AggLatency \<Rightarrow> Latency_entry" where
  "translateToLatency t topicName aggLatency =
     \<lparr>le_Time = t, le_Topic = topicName, le_AvgMilliSec = map_option Milliseconds (al_Avg aggLatency),
      le_MaxMilliSec = map_option Milliseconds (al_Max aggLatency), le_MinMilliSec = map_option Milliseconds (al_Min aggLatency)\<rparr>"

text \<open>\<open>rng\<close> is the order in which the loop visits the topics of an interval.\<close>

definition translateToLatencies :: "(AggLatencyMap \<Rightarrow> string list) \<Rightarrow> time \<Rightarrow> AggLatencyMap \<Rightarrow> Latency_entry list" where
  "translateToLatencies rng t aggMap =
     concat (map (\<lambda>k. case aggMap k of Some l \<Rightarrow> [translateToLatency t k l] | None \<Rightarrow> []) (rng aggMap))"

definition TranslateToLatencies ::
  "(AggLatencyMap \<Rightarrow> string list) \<Rightarrow> (time \<times> AggLatencyMap) list \<Rightarrow> Latency_entry list" where
  "TranslateToLatencies rng withTimes = concat (map (\<lambda>(t, m). translateToLatencies rng t m) withTimes)"

section \<open>exporter.go\<close>

definition exportInterval :: duration where "exportInterval = 5000000000"

record 'f Exporter =
  ex_noopMode :: bool
  ex_strategyName :: string
  ex_latencyMeasurer :: "LatencyMeasurer list"
  ex_customMetricQueue :: "'f CustomMetric list"

definition newExporter :: "string \<Rightarrow> bool \<Rightarrow> 'f Exporter" where
  "newExporter strategyName noopMode =
     \<lparr>ex_noopMode = noopMode, ex_strategyName = strategyName, ex_latencyMeasurer = [], ex_customMetricQueue = []\<rparr>"

text \<open>\<open>client url bucket token\<close> is the error with which \<open>NewInfluxDBClient\<close> fails, if it does.\<close>

definition NewExporter ::
  "(string \<Rightarrow> string \<Rightarrow> string \<Rightarrow> string option) \<Rightarrow> string \<Rightarrow> string \<Rightarrow> string \<Rightarrow> string \<Rightarrow> string + 'f Exporter" where
  "NewExporter client bucketName strategyName url token =
     (if url = [] \<or> token = [] then Inr (newExporter [] True)
      else (case client url bucketName token of
              Some err \<Rightarrow> Inl (''failed to create InfluxDB client: '' @ err)
            | None \<Rightarrow> Inr (newExporter strategyName False)))"

definition SetLatencyMeasurer :: "LatencyMeasurer \<Rightarrow> 'f Exporter \<Rightarrow> 'f Exporter" where
  "SetLatencyMeasurer measurer c = c\<lparr>ex_latencyMeasurer := ex_latencyMeasurer c @ [measurer]\<rparr>"

definition WriteCustomMetrics :: "'f CustomMetric list \<Rightarrow> 'f Exporter \<Rightarrow> 'f Exporter" where
  "WriteCustomMetrics metrics c = c\<lparr>ex_customMetricQueue := ex_customMetricQueue c @ metrics\<rparr>"

definition discardWSLatencies :: "'f Exporter \<Rightarrow> 'f Exporter" where
  "discardWSLatencies c = c\<lparr>ex_latencyMeasurer := map (\<lambda>m. snd (lm_Export m)) (ex_latencyMeasurer c)\<rparr>"

definition discardCustomMetrics :: "'f Exporter \<Rightarrow> 'f Exporter" where
  "discardCustomMetrics c = c\<lparr>ex_customMetricQueue := []\<rparr>"

definition collectLatencies :: "(AggLatencyMap \<Rightarrow> string list) \<Rightarrow> 'f Exporter \<Rightarrow> Latency_entry list \<times> 'f Exporter" where
  "collectLatencies rng c =
     (concat (map (\<lambda>m. TranslateToLatencies rng (fst (lm_Export m))) (ex_latencyMeasurer c)),
      c\<lparr>ex_latencyMeasurer := map (\<lambda>m. snd (lm_Export m)) (ex_latencyMeasurer c)\<rparr>)"

text \<open>What an export writes: \<open>None\<close> when it does not call \<open>WritePoints\<close>.\<close>

definition exportLatencies :: "'f Exporter \<Rightarrow> Latency_entry list \<Rightarrow> 'f point list option" where
  "exportLatencies c latencies =
     (if length latencies = 0 then None else Some (Latencies_ToPoints (ex_strategyName c) latencies))"

definition exportCustomMetrics :: "'f Exporter \<Rightarrow> 'f CustomMetric list \<Rightarrow> 'f point list option" where
  "exportCustomMetrics c metrics =
     (if length metrics = 0 then None else Some (List.map_filter (cu_ToPoint (ex_strategyName c)) metrics))"

text \<open>
  The exporter at work. A tick discards in noop mode and otherwise starts one goroutine for
  the latencies and one for the custom metrics; \<open>xs_latencyRuns\<close> and \<open>xs_customRuns\<close> count the
  ones that have not run yet. \<open>xs_latencyWritten\<close> and \<open>xs_customWritten\<close> are the \<open>WritePoints\<close>
  calls of either kind with their outcome.
\<close>

record 'f exporter_state =
  xs_exporter :: "'f Exporter"
  xs_latencyRuns :: nat
  xs_customRuns :: nat
  xs_latencyWritten :: "('f point list \<times> bool) list"
  xs_customWritten :: "('f point list \<times> bool) list"

datatype 'f exporter_event =
    XWrite "'f CustomMetric list"
  | XMeasure nat lm_event
  | XTick
  | XRunLatencies "AggLatencyMap \<Rightarrow> string list" bool
  | XRunCustom bool

definition WritePoints :: "'f point list option \<Rightarrow> bool \<Rightarrow> ('f point list \<times> bool) list \<Rightarrow> ('f point list \<times> bool) list" where
  "WritePoints pts ok written = (case pts of None \<Rightarrow> written | Some ps \<Rightarrow> written @ [(ps, ok)])"

definition Exporter_tick :: "'f exporter_state \<Rightarrow> 'f exporter_state" where
  "Exporter_tick s =
     (if ex_noopMode (xs_exporter s)
      then s\<lparr>xs_exporter := discardCustomMetrics (discardWSLatencies (xs_exporter s))\<rparr>
      else s\<lparr>xs_latencyRuns := xs_latencyRuns s + 1, xs_customRuns := xs_customRuns s + 1\<rparr>)"

definition collectAndExportLatencies :: "(AggLatencyMap \<Rightarrow> string list) \<Rightarrow> bool \<Rightarrow> 'f exporter_state \<Rightarrow> 'f exporter_state" where
  "collectAndExportLatencies rng ok s =
     (case collectLatencies rng (xs_exporter s) of (latencies, c) \<Rightarrow>
        s\<lparr>xs_exporter := c, xs_latencyRuns := xs_latencyRuns s - 1,
          xs_latencyWritten := WritePoints (exportLatencies c latencies) ok (xs_latencyWritten s)\<rparr>)"

definition collectAndExportCustomMetrics :: "bool \<Rightarrow> 'f exporter_state \<Rightarrow> 'f exporter_state" where
  "collectAndExportCustomMetrics ok s =
     (let c = xs_exporter s; metrics = ex_customMetricQueue c; c' = c\<lparr>ex_customMetricQueue := []\<rparr>
      in s\<lparr>xs_exporter := c', xs_customRuns := xs_customRuns s - 1,
           xs_customWritten := WritePoints (exportCustomMetrics c' metrics) ok (xs_customWritten s)\<rparr>)"

definition measure_at :: "nat \<Rightarrow> lm_event \<Rightarrow> 'f Exporter \<Rightarrow> 'f Exporter" where
  "measure_at i e c =
     (if i < length (ex_latencyMeasurer c)
      then c\<lparr>ex_latencyMeasurer := (ex_latencyMeasurer c)[i := fst (lm_exec e (ex_latencyMeasurer c ! i, []))]\<rparr> else c)"

fun exporter_exec :: "'f exporter_event \<Rightarrow> 'f exporter_state \<Rightarrow> 'f exporter_state" where
  "exporter_exec (XWrite ms) s = s\<lparr>xs_exporter := WriteCustomMetrics ms (xs_exporter s)\<rparr>"
| "exporter_exec (XMeasure i e) s = s\<lparr>xs_exporter := measure_at i e (xs_exporter s)\<rparr>"
| "exporter_exec XTick s = Exporter_tick s"
| "exporter_exec (XRunLatencies rng ok) s = (if 0 < xs_latencyRuns s then collectAndExportLatencies rng ok s else s)"
| "exporter_exec (XRunCustom ok) s = (if 0 < xs_customRuns s then collectAndExportCustomMetrics ok s else s)"

section \<open>Every metric is written once\<close>

definition exporter_begin :: "'f Exporter \<Rightarrow> 'f exporter_state" where
  "exporter_begin c = \<lparr>xs_exporter = c, xs_latencyRuns = 0, xs_customRuns = 0, xs_latencyWritten = [], xs_customWritten = []\<rparr>"

fun enqueued :: "'f exporter_event \<Rightarrow> 'f CustomMetric list" where
  "enqueued (XWrite ms) = ms"
| "enqueued _ = []"

lemma map_filter_append: "List.map_filter f (xs @ ys) = List.map_filter f xs @ List.map_filter f ys"
  by (simp add: List.map_filter_def)

lemma measure_at_fields [simp]:
  "ex_noopMode (measure_at i e c) = ex_noopMode c" "ex_strategyName (measure_at i e c) = ex_strategyName c"
  "ex_customMetricQueue (measure_at i e c) = ex_customMetricQueue c"
  by (simp_all add: measure_at_def)

lemma exporter_exec_modes:
  "ex_noopMode (xs_exporter (exporter_exec e s)) = ex_noopMode (xs_exporter s) \<and>
   ex_strategyName (xs_exporter (exporter_exec e s)) = ex_strategyName (xs_exporter s)"
  by (cases e)
    (auto simp: WriteCustomMetrics_def Exporter_tick_def discardCustomMetrics_def discardWSLatencies_def
      collectAndExportLatencies_def collectLatencies_def collectAndExportCustomMetrics_def Let_def)

text \<open>What has been written and what is still queued, as points.\<close>

definition accounted :: "'f exporter_state \<Rightarrow> 'f point list" where
  "accounted s =
     concat (map fst (xs_customWritten s)) @
     List.map_filter (cu_ToPoint (ex_strategyName (xs_exporter s))) (ex_customMetricQueue (xs_exporter s))"

lemma accounted_step:
  assumes "\<not> ex_noopMode (xs_exporter s)"
  shows "accounted (exporter_exec e s) =
     accounted s @ List.map_filter (cu_ToPoint (ex_strategyName (xs_exporter s))) (enqueued e)"
proof (cases e)
  case (XRunCustom ok)
  then show ?thesis
    by (auto simp: accounted_def collectAndExportCustomMetrics_def exportCustomMetrics_def WritePoints_def Let_def
        List.map_filter_def)
qed (use assms in \<open>auto simp: accounted_def WriteCustomMetrics_def Exporter_tick_def collectAndExportLatencies_def
      collectLatencies_def map_filter_append List.map_filter_def\<close>)


definition demo_metric :: "nat \<Rightarrow> int CustomMetric" where
  "demo_metric n = NewCustomMetric 5 ''pnl'' [(''pair'', ''BTC'')] (replicate n (''value'', 1))"


text \<open>An interval is translated into one entry per topic that was measured in it.\<close>

lemma interval_translated_once:
  assumes "enumerates (rng m) m" and "m k = Some l"
  shows "filter (\<lambda>e. le_Topic e = k) (translateToLatencies rng t m) = [translateToLatency t k l]"
proof -
  have "filter (\<lambda>e. le_Topic e = k) (concat (map (\<lambda>k. case m k of Some l \<Rightarrow> [translateToLatency t k l] | None \<Rightarrow> []) ks)) =
      (if k \<in> set ks then [translateToLatency t k l] else [])" if "distinct ks" for ks
    using that assms(2) by (induction ks) (auto simp: translateToLatency_def split: option.split)
  moreover have "k \<in> set (rng m)" "distinct (rng m)" using assms by (auto simp: enumerates_def)
  ultimately show ?thesis by (simp add: translateToLatencies_def)
qed

end
