(* ===== verification/Configs.thy ===== *)
theory Configs
  imports Domains Strconv
begin

text \<open>
  \<open>configs/config.go\<close>, \<open>raw_config.go\<close>, \<open>raw_secret.go\<close> and \<open>secret.go\<close>: the typed access to
  the parameters of a strategy with its cache of the last values that could be parsed, and the
  credentials.

  A value of Go's type \<open>any\<close> carries its dynamic type, so \<open>any\<close> is a datatype with one
  constructor per type the getters store, and the type argument of \<open>cacheHit\<close> and
  \<open>cacheFallback\<close> is a record that says how to store a value as \<open>any\<close>, how to assert its type
  and what its zero value is. A nil slice is the empty list, a nil pointer \<open>None\<close>. What the
  getters use of \<open>strconv.ParseFloat\<close>, \<open>encoding/json\<close> and the decimal package is a
  record of functions, an argument of the getters that use it. Log lines are left out.
\<close>

section \<open>Dynamically typed values\<close>

datatype ('f, 'd) any =
    AnyBool bool
  | AnyInt int
  | AnyInt64 int
  | AnyFloat32 'f
  | AnyListStr "string list"
  | AnyListInt "int list"
  | AnyListInt64 "int list"
  | AnyListFloat32 "'f list"
  | AnySymbol "'d Symbol option"

record ('a, 'v) go_type =
  gt_any :: "'a \<Rightarrow> 'v"
  gt_assert :: "'v \<Rightarrow> 'a option"
  gt_zero :: 'a

text \<open>What the cache relies on: asserting the type a value was stored with succeeds.\<close>

locale go_type_laws =
  fixes T :: "('a, 'v) go_type"
  assumes assert_any: "gt_assert T v = Some x \<longleftrightarrow> v = gt_any T x"
begin

lemma assert_stored [simp]: "gt_assert T (gt_any T x) = Some x"
  by (simp add: assert_any)

lemma assert_fails: "gt_assert T v = None \<longleftrightarrow> v \<notin> range (gt_any T)"
  using assert_any by (metis imageE not_Some_eq rangeI)

end

definition go_bool :: "(bool, ('f, 'd) any) go_type" where
  "go_bool = \<lparr>gt_any = AnyBool, gt_assert = (\<lambda>v. case v of AnyBool x \<Rightarrow> Some x | _ \<Rightarrow> None), gt_zero = False\<rparr>"

definition go_int :: "(int, ('f, 'd) any) go_type" where
  "go_int = \<lparr>gt_any = AnyInt, gt_assert = (\<lambda>v. case v of AnyInt x \<Rightarrow> Some x | _ \<Rightarrow> None), gt_zero = 0\<rparr>"

definition go_int64 :: "(int, ('f, 'd) any) go_type" where
  "go_int64 = \<lparr>gt_any = AnyInt64, gt_assert = (\<lambda>v. case v of AnyInt64 x \<Rightarrow> Some x | _ \<Rightarrow> None), gt_zero = 0\<rparr>"

definition go_float32 :: "('f :: zero, ('f, 'd) any) go_type" where
  "go_float32 = \<lparr>gt_any = AnyFloat32, gt_assert = (\<lambda>v. case v of AnyFloat32 x \<Rightarrow> Some x | _ \<Rightarrow> None), gt_zero = 0\<rparr>"

definition go_strings :: "(string list, ('f, 'd) any) go_type" where
  "go_strings = \<lparr>gt_any = AnyListStr, gt_assert = (\<lambda>v. case v of AnyListStr x \<Rightarrow> Some x | _ \<Rightarrow> None), gt_zero = []\<rparr>"

definition go_ints :: "(int list, ('f, 'd) any) go_type" where
  "go_ints = \<lparr>gt_any = AnyListInt, gt_assert = (\<lambda>v. case v of AnyListInt x \<Rightarrow> Some x | _ \<Rightarrow> None), gt_zero = []\<rparr>"

definition go_int64s :: "(int list, ('f, 'd) any) go_type" where
  "go_int64s = \<lparr>gt_any = AnyListInt64, gt_assert = (\<lambda>v. case v of AnyListInt64 x \<Rightarrow> Some x | _ \<Rightarrow> None), gt_zero = []\<rparr>"

definition go_float32s :: "('f list, ('f, 'd) any) go_type" where
  "go_float32s = \<lparr>gt_any = AnyListFloat32, gt_assert = (\<lambda>v. case v of AnyListFloat32 x \<Rightarrow> Some x | _ \<Rightarrow> None), gt_zero = []\<rparr>"

definition go_symbol :: "('d Symbol option, ('f, 'd) any) go_type" where
  "go_symbol = \<lparr>gt_any = AnySymbol, gt_assert = (\<lambda>v. case v of AnySymbol x \<Rightarrow> Some x | _ \<Rightarrow> None), gt_zero = None\<rparr>"

lemmas go_type_defs = go_bool_def go_int_def go_int64_def go_float32_def go_strings_def go_ints_def
  go_int64s_def go_float32s_def go_symbol_def

interpretation t_bool: go_type_laws go_bool
  by unfold_locales (auto simp: go_bool_def split: any.splits)

interpretation t_int: go_type_laws go_int
  by unfold_locales (auto simp: go_int_def split: any.splits)

interpretation t_int64: go_type_laws go_int64
  by unfold_locales (auto simp: go_int64_def split: any.splits)

interpretation t_float32: go_type_laws go_float32
  by unfold_locales (auto simp: go_float32_def split: any.splits)

interpretation t_strings: go_type_laws go_strings
  by unfold_locales (auto simp: go_strings_def split: any.splits)

interpretation t_ints: go_type_laws go_ints
  by unfold_locales (auto simp: go_ints_def split: any.splits)

interpretation t_int64s: go_type_laws go_int64s
  by unfold_locales (auto simp: go_int64s_def split: any.splits)

interpretation t_float32s: go_type_laws go_float32s
  by unfold_locales (auto simp: go_float32s_def split: any.splits)

interpretation t_symbol: go_type_laws go_symbol
  by unfold_locales (auto simp: go_symbol_def split: any.splits)

section \<open>config.go: the parameter map\<close>

record failedParam =
  fp_rawValue :: string
  fp_typeName :: string

record ('f, 'd) ParamMap =
  pa_m :: "string \<rightharpoonup> string"
  pa_cache :: "string \<rightharpoonup> ('f, 'd) any"
  pa_failedKeys :: "string \<rightharpoonup> failedParam"

definition setParams :: "(string \<rightharpoonup> string) \<Rightarrow> ('f, 'd) ParamMap \<Rightarrow> ('f, 'd) ParamMap" where
  "setParams m p = p\<lparr>pa_m := m, pa_failedKeys := Map.empty\<rparr>"

definition cacheHit ::
  "('a, ('f, 'd) any) go_type \<Rightarrow> ('f, 'd) ParamMap \<Rightarrow> string \<Rightarrow> 'a \<Rightarrow> 'a \<times> ('f, 'd) ParamMap" where
  "cacheHit T p key val =
     (val, p\<lparr>pa_cache := (pa_cache p)(key \<mapsto> gt_any T val), pa_failedKeys := (pa_failedKeys p)(key := None)\<rparr>)"

definition cacheFallback ::
  "('a, ('f, 'd) any) go_type \<Rightarrow> ('f, 'd) ParamMap \<Rightarrow> string \<Rightarrow> string \<Rightarrow> string \<Rightarrow> ('a \<times> ('f, 'd) ParamMap) result" where
  "cacheFallback T p key rawValue typeName =
     (let p' = p\<lparr>pa_failedKeys := (pa_failedKeys p)(key \<mapsto> \<lparr>fp_rawValue = rawValue, fp_typeName = typeName\<rparr>)\<rparr> in
      case pa_cache p' key of
        None \<Rightarrow> Inr (gt_zero T, p')
      | Some cached \<Rightarrow>
          (case gt_assert T cached of Some v \<Rightarrow> Inr (v, p') | None \<Rightarrow> Inl TypeAssertion))"

text \<open>\<open>p.m[key]\<close>: a missing key reads as the empty string.\<close>

definition raw_of :: "(string \<rightharpoonup> string) \<Rightarrow> string \<Rightarrow> string" where
  "raw_of m key = (case m key of Some v \<Rightarrow> v | None \<Rightarrow> [])"

record ('f, 'g, 'd) param_lib =
  ParseFloat :: "string \<Rightarrow> 'g option"
  to_float32 :: "'g \<Rightarrow> 'f"
  json_strings :: "string \<Rightarrow> string list option"
  json_ints :: "string \<Rightarrow> int list option"
  json_int64s :: "string \<Rightarrow> int list option"
  json_float32s :: "string \<Rightarrow> 'f list option"
  NewFromFloat32 :: "'f \<Rightarrow> 'd"
  NewFromInt :: "int \<Rightarrow> 'd"
  NewFromFloat :: "rat \<Rightarrow> 'd"

definition ParseBool :: "string \<Rightarrow> bool option" where
  "ParseBool str =
     (if str \<in> set [''1'', ''t'', ''T'', ''true'', ''TRUE'', ''True''] then Some True
      else if str \<in> set [''0'', ''f'', ''F'', ''false'', ''FALSE'', ''False''] then Some False
      else None)"

definition Param_Get :: "('f, 'd) ParamMap \<Rightarrow> string \<Rightarrow> string" where
  "Param_Get p key = (case pa_m p key of None \<Rightarrow> [] | Some v \<Rightarrow> v)"

definition GetBool :: "('f, 'd) ParamMap \<Rightarrow> string \<Rightarrow> (bool \<times> ('f, 'd) ParamMap) result" where
  "GetBool p key =
     (case pa_m p key of
        None \<Rightarrow> cacheFallback go_bool p key [] ''bool''
      | Some v \<Rightarrow>
          (case ParseBool v of
             None \<Rightarrow> cacheFallback go_bool p key v ''bool''
           | Some boolValue \<Rightarrow> Inr (cacheHit go_bool p key boolValue)))"

definition GetInt :: "('f, 'd) ParamMap \<Rightarrow> string \<Rightarrow> (int \<times> ('f, 'd) ParamMap) result" where
  "GetInt p key =
     (let raw = raw_of (pa_m p) key in
      case Atoi raw of
        None \<Rightarrow> cacheFallback go_int p key raw ''int''
      | Some n \<Rightarrow> Inr (cacheHit go_int p key n))"

definition GetInt64 :: "('f, 'd) ParamMap \<Rightarrow> string \<Rightarrow> (int \<times> ('f, 'd) ParamMap) result" where
  "GetInt64 p key =
     (let raw = raw_of (pa_m p) key in
      case ParseInt raw of
        None \<Rightarrow> cacheFallback go_int64 p key raw ''int64''
      | Some n \<Rightarrow> Inr (cacheHit go_int64 p key n))"

definition GetFloat32 ::
  "('f :: zero, 'g, 'd) param_lib \<Rightarrow> ('f, 'd) ParamMap \<Rightarrow> string \<Rightarrow> ('f \<times> ('f, 'd) ParamMap) result" where
  "GetFloat32 L p key =
     (let raw = raw_of (pa_m p) key in
      case ParseFloat L raw of
        None \<Rightarrow> cacheFallback go_float32 p key raw ''float32''
      | Some n \<Rightarrow> Inr (cacheHit go_float32 p key (to_float32 L n)))"

definition GetListStr ::
  "('f, 'g, 'd) param_lib \<Rightarrow> ('f, 'd) ParamMap \<Rightarrow> string \<Rightarrow> (string list \<times> ('f, 'd) ParamMap) result" where
  "GetListStr L p key =
     (let raw = raw_of (pa_m p) key in
      case json_strings L raw of
        None \<Rightarrow> cacheFallback go_strings p key raw ''[]string''
      | Some l \<Rightarrow> Inr (cacheHit go_strings p key l))"

definition GetListInt ::
  "('f, 'g, 'd) param_lib \<Rightarrow> ('f, 'd) ParamMap \<Rightarrow> string \<Rightarrow> (int list \<times> ('f, 'd) ParamMap) result" where
  "GetListInt L p key =
     (let raw = raw_of (pa_m p) key in
      case json_ints L raw of
        None \<Rightarrow> cacheFallback go_ints p key raw ''[]int''
      | Some l \<Rightarrow> Inr (cacheHit go_ints p key l))"

definition GetListInt64 ::
  "('f, 'g, 'd) param_lib \<Rightarrow> ('f, 'd) ParamMap \<Rightarrow> string \<Rightarrow> (int list \<times> ('f, 'd) ParamMap) result" where
  "GetListInt64 L p key =
     (let raw = raw_of (pa_m p) key in
      case json_int64s L raw of
        None \<Rightarrow> cacheFallback go_int64s p key raw ''[]int64''
      | Some l \<Rightarrow> Inr (cacheHit go_int64s p key l))"

definition GetListFloat ::
  "('f, 'g, 'd) param_lib \<Rightarrow> ('f, 'd) ParamMap \<Rightarrow> string \<Rightarrow> ('f list \<times> ('f, 'd) ParamMap) result" where
  "GetListFloat L p key =
     (let raw = raw_of (pa_m p) key in
      case json_float32s L raw of
        None \<Rightarrow> cacheFallback go_float32s p key raw ''[]float32''
      | Some l \<Rightarrow> Inr (cacheHit go_float32s p key l))"

definition GetListDecimal ::
  "('f, 'g, 'd) param_lib \<Rightarrow> ('f, 'd) ParamMap \<Rightarrow> string \<Rightarrow> ('d list \<times> ('f, 'd) ParamMap) result" where
  "GetListDecimal L p key =
     bind_r (GetListFloat L p key) (\<lambda>(lf32, p'). Inr (map (NewFromFloat32 L) lf32, p'))"

definition GetFromInt ::
  "('f, 'g, 'd) param_lib \<Rightarrow> ('f, 'd) ParamMap \<Rightarrow> string \<Rightarrow> ('d \<times> ('f, 'd) ParamMap) result" where
  "GetFromInt L p key = bind_r (GetInt64 p key) (\<lambda>(n, p'). Inr (NewFromInt L n, p'))"

definition GetFromFloat ::
  "('f :: zero, 'g, 'd) param_lib \<Rightarrow> ('f, 'd) ParamMap \<Rightarrow> string \<Rightarrow> ('d \<times> ('f, 'd) ParamMap) result" where
  "GetFromFloat L p key = bind_r (GetFloat32 L p key) (\<lambda>(x, p'). Inr (NewFromFloat32 L x, p'))"

definition Param_GetSymbol ::
  "('f, 'g, 'd) param_lib \<Rightarrow> ('f, 'd) ParamMap \<Rightarrow> string \<Rightarrow> ('d Symbol option \<times> ('f, 'd) ParamMap) result" where
  "Param_GetSymbol L p key =
     (let raw = raw_of (pa_m p) key;
          symbol = GetSymbol (NewFromFloat L) raw
      in if symbol = SymbolUnknown (NewFromFloat L) then cacheFallback go_symbol p key raw ''Symbol''
         else Inr (cacheHit go_symbol p key (Some symbol)))"

text \<open>\<open>time.Duration\<close> is a 64-bit integer: the product wraps around.\<close>

definition GetMilliSec :: "('f, 'd) ParamMap \<Rightarrow> string \<Rightarrow> (duration \<times> ('f, 'd) ParamMap) result" where
  "GetMilliSec p key = bind_r (GetInt p key) (\<lambda>(n, p'). Inr (wrap64 (n * 1000000), p'))"

definition GetHour :: "('f, 'd) ParamMap \<Rightarrow> string \<Rightarrow> (duration \<times> ('f, 'd) ParamMap) result" where
  "GetHour p key = bind_r (GetInt p key) (\<lambda>(n, p'). Inr (wrap64 (n * 3600000000000), p'))"

definition GetSec :: "('f, 'd) ParamMap \<Rightarrow> string \<Rightarrow> (duration \<times> ('f, 'd) ParamMap) result" where
  "GetSec p key = bind_r (GetInt p key) (\<lambda>(n, p'). Inr (wrap64 (n * 1000000000), p'))"

section \<open>raw\_config.go and the configuration\<close>

record RawConfig =
  rc_strategyName :: string
  rc_params :: "string \<rightharpoonup> string"

datatype file_error = ReadError string | YamlError string | StrategyNameRequired

definition validate :: "RawConfig \<Rightarrow> file_error option" where
  "validate c = (if rc_strategyName c = [] then Some StrategyNameRequired else None)"

text \<open>\<open>read\<close> is \<open>os.ReadFile\<close>, \<open>yaml\<close> what \<open>yaml.Unmarshal\<close> makes of the data.\<close>

definition readRawConfig ::
  "(string \<Rightarrow> string + 'b) \<Rightarrow> ('b \<Rightarrow> string + RawConfig) \<Rightarrow> string \<Rightarrow> file_error + RawConfig" where
  "readRawConfig read yaml filePath =
     (case read filePath of
        Inl e \<Rightarrow> Inl (ReadError e)
      | Inr data \<Rightarrow>
          (case yaml data of
             Inl e \<Rightarrow> Inl (YamlError e)
           | Inr config \<Rightarrow>
               (case validate config of Some e \<Rightarrow> Inl e | None \<Rightarrow> Inr config)))"

record ('f, 'd) Config =
  co_strategyName :: string
  co_params :: "('f, 'd) ParamMap"

definition newConfig :: "RawConfig \<Rightarrow> ('f, 'd) Config" where
  "newConfig raw =
     \<lparr>co_strategyName = rc_strategyName raw,
      co_params = \<lparr>pa_m = rc_params raw, pa_cache = Map.empty, pa_failedKeys = Map.empty\<rparr>\<rparr>"

definition Config_update :: "RawConfig \<Rightarrow> ('f, 'd) Config \<Rightarrow> ('f, 'd) Config" where
  "Config_update raw c = c\<lparr>co_params := setParams (rc_params raw) (co_params c)\<rparr>"

section \<open>raw\_secret.go and secret.go\<close>

record RawCredential =
  raw_apiKey :: string
  raw_secret :: string

record RawAuthConfig =
  raw_url :: string
  raw_token :: string

record RawDiscord =
  raw_infoUrl :: string
  raw_warnUrl :: string
  raw_emergencyUrl :: string

record RawSecret =
  rs_coinex :: RawCredential
  rs_influxdb :: RawAuthConfig
  rs_discord :: RawDiscord

definition readRawSecret ::
  "(string \<Rightarrow> string + 'b) \<Rightarrow> ('b \<Rightarrow> string + RawSecret) \<Rightarrow> string \<Rightarrow> file_error + RawSecret" where
  "readRawSecret read yaml filePath =
     (case read filePath of
        Inl e \<Rightarrow> Inl (ReadError e)
      | Inr data \<Rightarrow> (case yaml data of Inl e \<Rightarrow> Inl (YamlError e) | Inr secret \<Rightarrow> Inr secret))"

record Credential =
  cr_apiKey :: string
  cr_secret :: string

record AuthConfig =
  ac_url :: string
  ac_token :: string

record DiscordConfig =
  dc_infoUrl :: string
  dc_warnUrl :: string
  dc_emergencyUrl :: string

definition setApiKey :: "string \<Rightarrow> Credential \<Rightarrow> Credential" where "setApiKey k c = c\<lparr>cr_apiKey := k\<rparr>"
definition setSecret :: "string \<Rightarrow> Credential \<Rightarrow> Credential" where "setSecret k c = c\<lparr>cr_secret := k\<rparr>"
definition setUrl :: "string \<Rightarrow> AuthConfig \<Rightarrow> AuthConfig" where "setUrl u a = a\<lparr>ac_url := u\<rparr>"
definition setToken :: "string \<Rightarrow> AuthConfig \<Rightarrow> AuthConfig" where "setToken t a = a\<lparr>ac_token := t\<rparr>"
definition setInfoUrl :: "string \<Rightarrow> DiscordConfig \<Rightarrow> DiscordConfig" where "setInfoUrl u d = d\<lparr>dc_infoUrl := u\<rparr>"
definition setWarnUrl :: "string \<Rightarrow> DiscordConfig \<Rightarrow> DiscordConfig" where "setWarnUrl u d = d\<lparr>dc_warnUrl := u\<rparr>"
definition setEmergencyUrl :: "string \<Rightarrow> DiscordConfig \<Rightarrow> DiscordConfig" where
  "setEmergencyUrl u d = d\<lparr>dc_emergencyUrl := u\<rparr>"

record Secret =
  se_CoinEx :: Credential
  se_InfluxDB :: AuthConfig
  se_Discord :: DiscordConfig

definition newSecret :: "RawSecret \<Rightarrow> Secret" where
  "newSecret raw =
     \<lparr>se_CoinEx = \<lparr>cr_apiKey = raw_apiKey (rs_coinex raw), cr_secret = raw_secret (rs_coinex raw)\<rparr>,
      se_InfluxDB = \<lparr>ac_url = raw_url (rs_influxdb raw), ac_token = raw_token (rs_influxdb raw)\<rparr>,
      se_Discord = \<lparr>dc_infoUrl = raw_infoUrl (rs_discord raw), dc_warnUrl = raw_warnUrl (rs_discord raw),
        dc_emergencyUrl = raw_emergencyUrl (rs_discord raw)\<rparr>\<rparr>"

definition Secret_update :: "RawSecret \<Rightarrow> Secret \<Rightarrow> Secret" where
  "Secret_update raw s =
     (let shouldUpdateCoinEx = cr_apiKey (se_CoinEx s) \<noteq> raw_apiKey (rs_coinex raw) \<or>
            cr_secret (se_CoinEx s) \<noteq> raw_secret (rs_coinex raw);
          shouldUpdateInfluxDB = ac_url (se_InfluxDB s) \<noteq> raw_url (rs_influxdb raw) \<or>
            ac_token (se_InfluxDB s) \<noteq> raw_token (rs_influxdb raw);
          s1 = (if shouldUpdateCoinEx
                then s\<lparr>se_CoinEx := setSecret (raw_secret (rs_coinex raw)) (setApiKey (raw_apiKey (rs_coinex raw)) (se_CoinEx s))\<rparr>
                else s);
          s2 = (if shouldUpdateInfluxDB
                then s1\<lparr>se_InfluxDB := setToken (raw_token (rs_influxdb raw)) (setUrl (raw_url (rs_influxdb raw)) (se_InfluxDB s1))\<rparr>
                else s1);
          shouldUpdateDiscord = dc_infoUrl (se_Discord s2) \<noteq> raw_infoUrl (rs_discord raw) \<or>
            dc_warnUrl (se_Discord s2) \<noteq> raw_warnUrl (rs_discord raw) \<or>
            dc_emergencyUrl (se_Discord s2) \<noteq> raw_emergencyUrl (rs_discord raw)
      in if shouldUpdateDiscord
         then s2\<lparr>se_Discord := setEmergencyUrl (raw_emergencyUrl (rs_discord raw))
                (setWarnUrl (raw_warnUrl (rs_discord raw)) (setInfoUrl (raw_infoUrl (rs_discord raw)) (se_Discord s2)))\<rparr>
         else s2)"

lemmas secret_setters = setApiKey_def setSecret_def setUrl_def setToken_def setInfoUrl_def setWarnUrl_def setEmergencyUrl_def

text \<open>Updating only what differs leaves the secret a restart would read.\<close>

lemma Secret_update_eq: "Secret_update raw s = newSecret raw"
  by (cases s) (auto simp: Secret_update_def newSecret_def secret_setters Let_def)

end
