(* ===== verification/Gateways_Init.thy ===== *)
theory Gateways_Init
  imports Exchange_Ws Agents Dealer Quote_Trade Metrics Configs
begin

text \<open>
  \<open>initializers/exchanges/{coinex,bybit}\<close>: the gateway managers and the functions that build
  the insights and the dealers of an exchange and connect them to its topics.

  The objects that topic handlers change are kept in two states: the \<open>market_data\<close> (trades, books
  and quotes, by the keys of the maps of the code) for the public topics, and the dealers, by
  symbol, for the private ones. Symbols stand for their pointers, designators are pointers
  into a store. Where the code ranges over a map, \<open>rng keys\<close> is the order in which it visits
  one that has been given the keys \<open>keys\<close>. The functions are called once per process, so the registry of dealers may already
  hold dealers but the maps of topics are empty.
\<close>

section \<open>Objects behind handlers\<close>

record ('k, 'd, 't) market_data =
  mk_now :: time
  mk_trades :: "'d Symbol \<rightharpoonup> 'd TradeImpl"
  mk_books :: "'k \<rightharpoonup> ('d, 't) OrderBookImpl"
  mk_quotes :: "'d Symbol \<rightharpoonup> 'd QuoteImpl"

type_synonym 'd dealers = "'d Symbol \<rightharpoonup> 'd DealerImpl"

definition alter :: "'k \<Rightarrow> ('v \<Rightarrow> 'v) \<Rightarrow> ('k \<rightharpoonup> 'v) \<Rightarrow> ('k \<rightharpoonup> 'v)" where
  "alter k f m = m(k := map_option f (m k))"

lemma alter_apply [simp]: "alter k f m j = (if j = k then map_option f (m k) else m j)"
  by (simp add: alter_def)

text \<open>The method values \<open>trade.Update\<close>, \<open>ob.UpdateByOBData\<close>, \<open>quote.Update\<close>, \<open>dealer.HandleOrderData\<close>, \<open>dealer.HandlePositionData\<close>.\<close>

definition trade_handler :: "'d Symbol \<Rightarrow> ('d TradeData list, ('k, 'd, 't) market_data) data_handler" where
  "trade_handler symbol msg s = Inr (s\<lparr>mk_trades := alter symbol (Trade_Update (mk_now s) msg) (mk_trades s)\<rparr>)"

definition book_handler ::
  "('d PriceLevel, 't) BTreeOps \<Rightarrow> 'k \<Rightarrow> ('d :: linordered_idom OrderBookData, ('k, 'd, 't) market_data) data_handler" where
  "book_handler B k data s = Inr (s\<lparr>mk_books := alter k (UpdateByOBData B data) (mk_books s)\<rparr>)"

definition quote_handler :: "'d Symbol \<Rightarrow> ('d QuoteData, ('k, 'd, 't) market_data) data_handler" where
  "quote_handler symbol msg s = Inr (s\<lparr>mk_quotes := alter symbol (Quote_Update msg) (mk_quotes s)\<rparr>)"

definition order_handler :: "'d :: linordered_idom Symbol \<Rightarrow> ('d OrderData list, 'd dealers) data_handler" where
  "order_handler symbol datas s = Inr (alter symbol (HandleOrderData datas) s)"

definition pos_handler :: "'d :: linordered_idom Symbol \<Rightarrow> ('d PositionData list, 'd dealers) data_handler" where
  "pos_handler symbol datas s = Inr (alter symbol (HandlePositionData datas) s)"

text \<open>What the start of a gateway leaves running.\<close>

datatype goroutine = MeasurerLoop | AgentLoop | PrivateChannelLoop | PublicGroupLoop

definition defaultDedupTTL :: duration where "defaultDedupTTL = 10000000000"
definition aggInterval :: duration where "aggInterval = 5000000000"

section \<open>bybit/ws/channel\_group.go, coinex/ws/channel\_group.go\<close>

definition NewPublicChannelGroup :: "int \<Rightarrow> duration \<Rightarrow> ('m, 's) ChannelGroup" where
  "NewPublicChannelGroup n dedupTTL = NewChannelGroup (nat n) dedupTTL"

section \<open>coinex/gateways.go\<close>

text \<open>The latency measurer is the one at position \<open>cg_latencyMeasurer\<close> of the exporter.\<close>

record ('s, 'p) cx_GatewayManager =
  cg_cred :: "Credential option"
  cg_latencyMeasurer :: nat
  cg_privateTopicMg :: "(raw, 'p) Manager option"
  cg_publicChGroup :: "(raw, 's) ChannelGroup option"
  cg_privateChannel :: bool
  cg_privateAPIAgent :: "cx_PrivateAPIAgent option"

definition cx_InitGatewayManager ::
  "Credential option \<Rightarrow> int \<Rightarrow> 'f Exporter option \<Rightarrow> (('s, 'p) cx_GatewayManager \<times> 'f Exporter) result" where
  "cx_InitGatewayManager cred publicChannelCount exporter =
     (case exporter of
        None \<Rightarrow> Inl (PanicMsg ''lapua.Exporter must be initialized before calling InitGatewayManager'')
      | Some e \<Rightarrow>
          Inr (\<lparr>cg_cred = cred, cg_latencyMeasurer = length (ex_latencyMeasurer e),
                cg_privateTopicMg = (if cred \<noteq> None then Some NewManager else None),
                cg_publicChGroup = Some (NewPublicChannelGroup publicChannelCount defaultDedupTTL),
                cg_privateChannel = (cred \<noteq> None),
                cg_privateAPIAgent = (if cred \<noteq> None then Some cx_NewPrivateAPIAgent else None)\<rparr>,
               SetLatencyMeasurer (NewLatencyMeasurer aggInterval) e))"

definition not_initialized :: go_panic where
  "not_initialized = PanicMsg ''gatewayManager is not initialized''"

definition cx_StartGateway :: "('s, 'p) cx_GatewayManager option \<Rightarrow> goroutine list result" where
  "cx_StartGateway gm =
     (case gm of
        None \<Rightarrow> Inl not_initialized
      | Some m \<Rightarrow>
          Inr ([MeasurerLoop] @
            (if cg_privateAPIAgent m \<noteq> None then [AgentLoop] else []) @
            (if cg_privateChannel m then [PrivateChannelLoop] else []) @
            (if cg_publicChGroup m \<noteq> None then [PublicGroupLoop] else [])))"

section \<open>coinex/insights\_initializer.go\<close>

definition new_map :: "('k \<Rightarrow> 'v) \<Rightarrow> 'k list \<Rightarrow> ('k \<rightharpoonup> 'v)" where
  "new_map mk keys = fold (\<lambda>k m. m(k \<mapsto> mk k)) keys Map.empty"

type_synonym ('d, 't) cx_market = "('d Symbol, 'd, 't) market_data"

definition cx_tradeTopics ::
  "(string \<Rightarrow> error + 'd) \<Rightarrow> 'd Symbol list \<Rightarrow> (raw, ('k, 'd, 't) market_data) Topic list" where
  "cx_tradeTopics dec ks =
     map (\<lambda>symbol. cx_TradeTopic dec (topic_SetHandler (trade_handler symbol) (cx_NewTradeTopic symbol))) ks"

definition cx_obTopics ::
  "('d PriceLevel, 't) BTreeOps \<Rightarrow> (string \<Rightarrow> error + 'd :: linordered_idom) \<Rightarrow> 'd Symbol list \<Rightarrow> (raw, ('d, 't) cx_market) Topic list" where
  "cx_obTopics B dec ks =
     map (\<lambda>symbol. cx_OrderBookTopic dec (topic_SetHandler (book_handler B symbol) (cx_NewOrderBookTopic symbol))) ks"

definition cx_quoteTopics ::
  "(string \<Rightarrow> error + 'd) \<Rightarrow> 'd Symbol list \<Rightarrow> (raw, ('k, 'd, 't) market_data) Topic list" where
  "cx_quoteTopics dec ks =
     map (\<lambda>symbol. cx_BookTickerTopic dec (topic_SetHandler (quote_handler symbol) (cx_NewBookTickerTopic symbol))) ks"

definition cx_InitInsights ::
  "('d PriceLevel, 't) BTreeOps \<Rightarrow> (string \<Rightarrow> error + 'd :: linordered_idom) \<Rightarrow> ('d Symbol list \<Rightarrow> 'd Symbol list) \<Rightarrow> time \<Rightarrow>
   'd Symbol list \<Rightarrow> 'd Symbol list \<Rightarrow> 'd Symbol list \<Rightarrow> (('d, 't) cx_market, 'p) cx_GatewayManager option \<Rightarrow>
   ((('d, 't) cx_market, 'p) cx_GatewayManager \<times> ('d, 't) cx_market) result" where
  "cx_InitInsights B dec rng now tradeSymbols obSymbols quoteSymbols gm =
     (case gm of
        None \<Rightarrow> Inl not_initialized
      | Some m \<Rightarrow>
          (let trades = new_map (\<lambda>symbol. NewTrade) tradeSymbols;
               tradeTopics = cx_tradeTopics dec (rng tradeSymbols);
               orderBooks = new_map (NewOrderBook B) obSymbols;
               obTopics = cx_obTopics B dec (rng obSymbols);
               quotes = new_map NewQuote quoteSymbols;
               quoteTopics = cx_quoteTopics dec (rng quoteSymbols);
               publicChGroup = map_option (\<lambda>g.
                 group_SetTopics quoteTopics (group_SetTopics obTopics (group_SetTopics tradeTopics g))) (cg_publicChGroup m)
           in Inr (m\<lparr>cg_publicChGroup := publicChGroup\<rparr>,
                   \<lparr>mk_now = now, mk_trades = trades, mk_books = orderBooks, mk_quotes = quotes\<rparr>)))"

definition GetOrderBook :: "('k, 'd, 't) market_data \<Rightarrow> 'k \<Rightarrow> ('d, 't) OrderBookImpl option" where
  "GetOrderBook i k = mk_books i k"
definition GetTrade :: "('k, 'd, 't) market_data \<Rightarrow> 'd Symbol \<Rightarrow> 'd TradeImpl option" where
  "GetTrade i symbol = mk_trades i symbol"
definition GetQuote :: "('k, 'd, 't) market_data \<Rightarrow> 'd Symbol \<Rightarrow> 'd QuoteImpl option" where
  "GetQuote i symbol = mk_quotes i symbol"

text \<open>The loops of \<open>IsEverythingReady\<close> over the lists of keys of the maps.\<close>

definition all_ready :: "('v \<Rightarrow> bool) \<Rightarrow> ('k \<rightharpoonup> 'v) \<Rightarrow> 'k list \<Rightarrow> bool" where
  "all_ready isReady m ks = list_all (\<lambda>k. case m k of Some v \<Rightarrow> isReady v | None \<Rightarrow> True) ks"

definition cx_IsEverythingReady :: "'d Symbol list \<Rightarrow> 'k list \<Rightarrow> 'd Symbol list \<Rightarrow> ('k, 'd, 't) market_data \<Rightarrow> bool" where
  "cx_IsEverythingReady ts bs qs i \<longleftrightarrow>
     all_ready Trade_IsReady (mk_trades i) ts \<and> all_ready ob_IsReady (mk_books i) bs \<and> all_ready qt_IsReady (mk_quotes i) qs"

section \<open>coinex/deals\_initializer.go\<close>

text \<open>\<open>ptr\<close> names the pointers of the registry of dealers; \<open>h\<close> and \<open>n\<close> are the store of orders of a new one.\<close>

definition init_dealers ::
  "('d Symbol \<Rightarrow> nat) \<Rightarrow> time \<Rightarrow> (oref \<Rightarrow> 'd Order) \<Rightarrow> oref \<Rightarrow> 'd :: linordered_idom Symbol list \<Rightarrow> (nat \<rightharpoonup> 'd DealerImpl) \<Rightarrow>
     'd dealers \<times> (nat \<rightharpoonup> 'd DealerImpl)" where
  "init_dealers ptr now h n syms instances =
     fold (\<lambda>symbol (m, reg). case NewDealer reg (ptr symbol) now h n of (d, reg') \<Rightarrow> (m(symbol \<mapsto> d), reg')) syms
       (Map.empty, instances)"

definition cx_InitDeals ::
  "(string \<Rightarrow> error + 'd :: linordered_idom) \<Rightarrow> ('d Symbol list \<Rightarrow> 'd Symbol list) \<Rightarrow> ('d Symbol \<Rightarrow> nat) \<Rightarrow> time \<Rightarrow>
   (oref \<Rightarrow> 'd Order) \<Rightarrow> oref \<Rightarrow> (nat \<rightharpoonup> 'd DealerImpl) \<Rightarrow> 'd Symbol list \<Rightarrow> ('s, 'd dealers) cx_GatewayManager option \<Rightarrow>
   (('s, 'd dealers) cx_GatewayManager \<times> 'd dealers \<times> (nat \<rightharpoonup> 'd DealerImpl)) result" where
  "cx_InitDeals dec rng ptr now h n instances syms gm =
     (case gm of
        None \<Rightarrow> Inl not_initialized
      | Some m \<Rightarrow>
          (let (dealers, instances') = init_dealers ptr now h n syms instances;
               orderTopics = map (\<lambda>symbol. cx_OrderTopic dec (topic_SetHandler (order_handler symbol) (cx_NewOrderTopic symbol)))
                 (rng syms);
               posTopics = map (\<lambda>symbol. cx_PositionTopic dec (topic_SetHandler (pos_handler symbol) (cx_NewPositionTopic symbol)))
                 (rng syms);
               mg = map_option (\<lambda>mg. SetTopics posTopics (SetTopics orderTopics mg)) (cg_privateTopicMg m)
           in Inr (m\<lparr>cg_privateTopicMg := mg\<rparr>, dealers, instances')))"

definition GetDealer :: "'d dealers \<Rightarrow> 'd Symbol \<Rightarrow> 'd DealerImpl option" where
  "GetDealer dealers symbol = dealers symbol"

section \<open>bybit/gateways.go\<close>

record 'd OrderBookDesignator =
  ds_Symbol :: "'d Symbol"
  ds_Depth :: int

definition LinearOBDepth1 :: int where "LinearOBDepth1 = 1"

record ('d, 's, 'p) bb_GatewayManager =
  bg_cred :: "Credential option"
  bg_latencyMeasurer :: nat
  bg_orderTopic :: "('d OrderData list, 'p, 'd) handlers_map"
  bg_posTopic :: "('d PositionData list, 'p, 'd) handlers_map"
  bg_orderBookTopicMap :: "nat \<rightharpoonup> ('d OrderBookData, 's, 'd) topic_obj"
  bg_tradeTopicMap :: "'d Symbol \<rightharpoonup> ('d TradeData list, 's, 'd) topic_obj"
  bg_privateTopicMg :: "(raw, 'p) Manager option"
  bg_privateChannel :: bool
  bg_publicLinearChGroup :: "(raw, 's) ChannelGroup option"
  bg_privateAPIAgent :: "bb_PrivateAPIAgent option"

definition bb_InitGatewayManager ::
  "Credential option \<Rightarrow> int \<Rightarrow> 'f Exporter option \<Rightarrow> (('d, 's, 'p) bb_GatewayManager \<times> 'f Exporter) result" where
  "bb_InitGatewayManager cred publicChannelCount exporter =
     (case exporter of
        None \<Rightarrow> Inl (PanicMsg ''lapua.Exporter must be initialized before calling InitGatewayManager'')
      | Some e \<Rightarrow>
          (let latencyMeasurer = NewLatencyMeasurer aggInterval in
          Inr (\<lparr>bg_cred = cred, bg_latencyMeasurer = length (ex_latencyMeasurer e),
                bg_orderTopic = Map.empty, bg_posTopic = Map.empty,
                bg_orderBookTopicMap = Map.empty, bg_tradeTopicMap = Map.empty,
                bg_privateTopicMg = (if cred \<noteq> None then Some NewManager else None),
                bg_privateChannel = (cred \<noteq> None),
                bg_publicLinearChGroup = Some (NewPublicChannelGroup publicChannelCount defaultDedupTTL),
                bg_privateAPIAgent = (if cred \<noteq> None then Some (bb_NewPrivateAPIAgent (Some latencyMeasurer)) else None)\<rparr>,
               SetLatencyMeasurer latencyMeasurer e)))"

text \<open>The topic of a symbol or of a designator, made when there is none; the pointer to it is its key.\<close>

definition getTradeTopic :: "'d Symbol \<Rightarrow> ('d, 's, 'p) bb_GatewayManager \<Rightarrow> ('d, 's, 'p) bb_GatewayManager" where
  "getTradeTopic symbol m =
     (case bg_tradeTopicMap m symbol of
        None \<Rightarrow> m\<lparr>bg_tradeTopicMap := (bg_tradeTopicMap m)(symbol \<mapsto> bb_NewTradeTopic symbol)\<rparr>
      | Some _ \<Rightarrow> m)"

definition getOrderBookTopic :: "nat \<Rightarrow> 'd OrderBookDesignator \<Rightarrow> ('d, 's, 'p) bb_GatewayManager \<Rightarrow> ('d, 's, 'p) bb_GatewayManager" where
  "getOrderBookTopic p designator m =
     (case bg_orderBookTopicMap m p of
        None \<Rightarrow> m\<lparr>bg_orderBookTopicMap :=
          (bg_orderBookTopicMap m)(p \<mapsto> bb_NewOrderBookTopic (ds_Symbol designator) (ds_Depth designator))\<rparr>
      | Some _ \<Rightarrow> m)"

definition bb_StartGateway :: "('d, 's, 'p) bb_GatewayManager option \<Rightarrow> goroutine list result" where
  "bb_StartGateway gm =
     (case gm of
        None \<Rightarrow> Inl not_initialized
      | Some m \<Rightarrow>
          Inr ([MeasurerLoop] @
            (if bg_privateChannel m then [PrivateChannelLoop] else []) @
            (if bg_publicLinearChGroup m \<noteq> None then [PublicGroupLoop] else [])))"

section \<open>bybit/insights\_initializer.go\<close>

type_synonym ('d, 't) bb_market = "('d Symbol \<times> int, 'd, 't) market_data"
type_synonym ('d, 't, 'p) bb_gm = "('d, ('d, 't) bb_market, 'p) bb_GatewayManager"

definition quote_adapter :: "'d Symbol \<Rightarrow> ('d OrderBookData, ('k, 'd, 't) market_data) data_handler" where
  "quote_adapter symbol data s =
     (case bb_Convert data of
        Inl err \<Rightarrow> Inr s
      | Inr btData \<Rightarrow> quote_handler symbol btData s)"

definition add_trade_topic :: "'d Symbol \<Rightarrow> ('d, 't, 'p) bb_gm \<Rightarrow> ('d, 't, 'p) bb_gm" where
  "add_trade_topic symbol m =
     (let m' = getTradeTopic symbol m
      in m'\<lparr>bg_tradeTopicMap := alter symbol (topic_SetHandler (trade_handler symbol)) (bg_tradeTopicMap m')\<rparr>)"

definition add_ob_topic ::
  "nat \<Rightarrow> 'd OrderBookDesignator \<Rightarrow> ('d OrderBookData, ('d, 't) bb_market) data_handler \<Rightarrow> ('d, 't, 'p) bb_gm \<Rightarrow> ('d, 't, 'p) bb_gm" where
  "add_ob_topic p designator handler m =
     (let m' = getOrderBookTopic p designator m
      in m'\<lparr>bg_orderBookTopicMap := alter p (topic_SetHandler handler) (bg_orderBookTopicMap m')\<rparr>)"

text \<open>Reading \<open>*p\<close> in the store of designators; a pointer beyond it is nil.\<close>

definition deref :: "'d OrderBookDesignator list \<Rightarrow> nat \<Rightarrow> 'd OrderBookDesignator result" where
  "deref store p = (if p < length store then Inr (store ! p) else Inl NilDeref)"

definition bb_orderBooks ::
  "('d PriceLevel, 't) BTreeOps \<Rightarrow> 'd :: linordered_idom OrderBookDesignator list \<Rightarrow> nat list \<Rightarrow>
     ('d Symbol \<times> int \<rightharpoonup> ('d, 't) OrderBookImpl) result" where
  "bb_orderBooks B store ps =
     foldM (\<lambda>p m. bind_r (deref store p) (\<lambda>d.
       Inr (m((ds_Symbol d, ds_Depth d) \<mapsto> NewOrderBook B (ds_Symbol d))))) ps Map.empty"

definition bb_add_books ::
  "('d PriceLevel, 't) BTreeOps \<Rightarrow> 'd :: linordered_idom OrderBookDesignator list \<Rightarrow> nat list \<Rightarrow> ('d, 't, 'p) bb_gm \<Rightarrow> ('d, 't, 'p) bb_gm result" where
  "bb_add_books B store ps m =
     foldM (\<lambda>p m. bind_r (deref store p) (\<lambda>d.
       Inr (add_ob_topic p d (book_handler B (ds_Symbol d, ds_Depth d)) m))) ps m"

text \<open>The loop over the quotes: the store grows by one designator for each, whose topic is added to the list.\<close>

definition bb_add_quote ::
  "'d Symbol \<Rightarrow> 'd OrderBookDesignator list \<times> nat list \<times> ('d Symbol \<rightharpoonup> 'd QuoteImpl) \<times> ('d, 't, 'p) bb_gm \<Rightarrow>
     'd OrderBookDesignator list \<times> nat list \<times> ('d Symbol \<rightharpoonup> 'd QuoteImpl) \<times> ('d, 't, 'p) bb_gm" where
  "bb_add_quote symbol st =
     (case st of (store, linearOBTopics, quotes, m) \<Rightarrow>
        (let designator = \<lparr>ds_Symbol = symbol, ds_Depth = LinearOBDepth1\<rparr>; p = length store
         in (store @ [designator], linearOBTopics @ [p], quotes(symbol \<mapsto> NewQuote symbol),
             add_ob_topic p designator (quote_adapter symbol) m)))"

definition topics_at :: "('o \<Rightarrow> 'tp) \<Rightarrow> ('k \<rightharpoonup> 'o) \<Rightarrow> 'k list \<Rightarrow> 'tp list" where
  "topics_at mk m ks = concat (map (\<lambda>k. case m k of Some t \<Rightarrow> [mk t] | None \<Rightarrow> []) ks)"

definition bb_InitInsights ::
  "('d PriceLevel, 't) BTreeOps \<Rightarrow> (string \<Rightarrow> error + 'd :: linordered_idom) \<Rightarrow> ('d Symbol list \<Rightarrow> 'd Symbol list) \<Rightarrow> time \<Rightarrow>
   'd OrderBookDesignator list \<Rightarrow> 'd Symbol list \<Rightarrow> nat list \<Rightarrow> 'd Symbol list \<Rightarrow> ('d, 't, 'p) bb_gm option \<Rightarrow>
   (('d, 't, 'p) bb_gm \<times> ('d, 't) bb_market) result" where
  "bb_InitInsights B dec rng now store tradeSymbols obDesignators quoteSymbols gm =
     (case gm of
        None \<Rightarrow> Inl not_initialized
      | Some m0 \<Rightarrow>
          (let trades = new_map (\<lambda>symbol. NewTrade) tradeSymbols;
               m1 = fold add_trade_topic (rng tradeSymbols) m0
           in bind_r (bb_orderBooks B store obDesignators) (\<lambda>orderBooks.
              bind_r (bb_add_books B store obDesignators m1) (\<lambda>m2.
                case fold bb_add_quote quoteSymbols (store, obDesignators, Map.empty, m2) of
                  (store', linearOBTopics, quotes, m3) \<Rightarrow>
                    let tradeTopics = topics_at (bb_TradeTopic dec) (bg_tradeTopicMap m3) (rng tradeSymbols);
                        obTopics = topics_at (bb_OrderBookTopic dec) (bg_orderBookTopicMap m3) linearOBTopics;
                        g = map_option (\<lambda>g. group_SetTopics obTopics (group_SetTopics tradeTopics g)) (bg_publicLinearChGroup m3)
                    in Inr (m3\<lparr>bg_publicLinearChGroup := g\<rparr>,
                            \<lparr>mk_now = now, mk_trades = trades, mk_books = orderBooks, mk_quotes = quotes\<rparr>)))))"

text \<open>Unlike CoinEx, Bybit does not wait for trades.\<close>

definition bb_IsEverythingReady :: "'k list \<Rightarrow> 'd Symbol list \<Rightarrow> ('k, 'd, 't) market_data \<Rightarrow> bool" where
  "bb_IsEverythingReady bs qs i \<longleftrightarrow> all_ready ob_IsReady (mk_books i) bs \<and> all_ready qt_IsReady (mk_quotes i) qs"

definition bb_GetOrderBook :: "('d, 't) bb_market \<Rightarrow> 'd OrderBookDesignator \<Rightarrow> ('d, 't) OrderBookImpl option" where
  "bb_GetOrderBook i designator = mk_books i (ds_Symbol designator, ds_Depth designator)"
definition bb_GetTrade :: "('d, 't) bb_market \<Rightarrow> 'd Symbol \<Rightarrow> 'd TradeImpl option" where
  "bb_GetTrade i symbol = mk_trades i symbol"
definition bb_GetQuote :: "('d, 't) bb_market \<Rightarrow> 'd Symbol \<Rightarrow> 'd QuoteImpl option" where
  "bb_GetQuote i symbol = mk_quotes i symbol"

section \<open>bybit/deals\_initializer.go\<close>

definition bb_InitDeals ::
  "(string \<Rightarrow> error + 'd :: linordered_idom) \<Rightarrow> (rat \<Rightarrow> 'd) \<Rightarrow> (('d Symbol \<rightharpoonup> 'd OrderData list) \<Rightarrow> 'd Symbol list) \<Rightarrow>
   (('d Symbol \<rightharpoonup> 'd PositionData list) \<Rightarrow> 'd Symbol list) \<Rightarrow> ('d Symbol list \<Rightarrow> 'd Symbol list) \<Rightarrow> ('d Symbol \<Rightarrow> nat) \<Rightarrow> time \<Rightarrow>
   (oref \<Rightarrow> 'd Order) \<Rightarrow> oref \<Rightarrow> (nat \<rightharpoonup> 'd DealerImpl) \<Rightarrow> 'd Symbol list \<Rightarrow> ('d, 's, 'd dealers) bb_GatewayManager option \<Rightarrow>
   (('d, 's, 'd dealers) bb_GatewayManager \<times> 'd dealers \<times> (nat \<rightharpoonup> 'd DealerImpl)) result" where
  "bb_InitDeals dec nf rngo rngp rng ptr now h n instances syms gm =
     (case gm of
        None \<Rightarrow> Inl not_initialized
      | Some m \<Rightarrow>
          (let (dealers, instances') = init_dealers ptr now h n syms instances;
               orderTopic = fold (\<lambda>symbol. bb_SetHandlers symbol (order_handler symbol)) (rng syms) (bg_orderTopic m);
               posTopic = fold (\<lambda>symbol. bb_SetHandlers symbol (pos_handler symbol)) (rng syms) (bg_posTopic m);
               mg = map_option (SetTopics [bb_OrderTopic dec nf rngo orderTopic, bb_PositionTopic dec nf rngp posTopic])
                 (bg_privateTopicMg m)
           in Inr (m\<lparr>bg_orderTopic := orderTopic, bg_posTopic := posTopic, bg_privateTopicMg := mg\<rparr>, dealers, instances')))"

end
