(* ===== verification/Configs_Correct.thy ===== *)
theory Configs_Correct
  imports Configs
begin

text \<open>
  What the typed getters of \<open>configs/config.go\<close> promise along any sequence of reads and hot
  reloads: under the discipline that every key is read with one type they never panic, they
  return the last value that could be parsed, and the keys reported as failing are the ones
  whose last read since the reload failed. A read panics exactly when the value cannot be parsed
  and the cache holds a value of another type.
\<close>

section \<open>The getters at once\<close>

text \<open>The getters that touch the cache, by the type they store.\<close>

datatype kind = KBool | KInt | KInt64 | KFloat32 | KStrings | KInts | KInt64s | KFloat32s | KSymbol

definition rewrap :: "('a \<Rightarrow> 'v) \<Rightarrow> ('a \<times> 's) result \<Rightarrow> ('v \<times> 's) result" where
  "rewrap f r = bind_r r (\<lambda>(x, s). Inr (f x, s))"

fun read_param ::
  "('f :: zero, 'g, 'd) param_lib \<Rightarrow> kind \<Rightarrow> ('f, 'd) ParamMap \<Rightarrow> string \<Rightarrow> (('f, 'd) any \<times> ('f, 'd) ParamMap) result" where
  "read_param L KBool p key = rewrap AnyBool (GetBool p key)"
| "read_param L KInt p key = rewrap AnyInt (GetInt p key)"
| "read_param L KInt64 p key = rewrap AnyInt64 (GetInt64 p key)"
| "read_param L KFloat32 p key = rewrap AnyFloat32 (GetFloat32 L p key)"
| "read_param L KStrings p key = rewrap AnyListStr (GetListStr L p key)"
| "read_param L KInts p key = rewrap AnyListInt (GetListInt L p key)"
| "read_param L KInt64s p key = rewrap AnyListInt64 (GetListInt64 L p key)"
| "read_param L KFloat32s p key = rewrap AnyListFloat32 (GetListFloat L p key)"
| "read_param L KSymbol p key = rewrap AnySymbol (Param_GetSymbol L p key)"

text \<open>The value a raw string has at a type, the zero value, the name in the log and the type of a value.\<close>

fun parse_as :: "('f, 'g, 'd) param_lib \<Rightarrow> kind \<Rightarrow> string \<Rightarrow> ('f, 'd) any option" where
  "parse_as L KBool raw = map_option AnyBool (ParseBool raw)"
| "parse_as L KInt raw = map_option AnyInt (Atoi raw)"
| "parse_as L KInt64 raw = map_option AnyInt64 (ParseInt raw)"
| "parse_as L KFloat32 raw = map_option (\<lambda>x. AnyFloat32 (to_float32 L x)) (ParseFloat L raw)"
| "parse_as L KStrings raw = map_option AnyListStr (json_strings L raw)"
| "parse_as L KInts raw = map_option AnyListInt (json_ints L raw)"
| "parse_as L KInt64s raw = map_option AnyListInt64 (json_int64s L raw)"
| "parse_as L KFloat32s raw = map_option AnyListFloat32 (json_float32s L raw)"
| "parse_as L KSymbol raw =
     (if GetSymbol (NewFromFloat L) raw = SymbolUnknown (NewFromFloat L) then None
      else Some (AnySymbol (Some (GetSymbol (NewFromFloat L) raw))))"

fun zero_of :: "kind \<Rightarrow> ('f :: zero, 'd) any" where
  "zero_of KBool = AnyBool False"
| "zero_of KInt = AnyInt 0"
| "zero_of KInt64 = AnyInt64 0"
| "zero_of KFloat32 = AnyFloat32 0"
| "zero_of KStrings = AnyListStr []"
| "zero_of KInts = AnyListInt []"
| "zero_of KInt64s = AnyListInt64 []"
| "zero_of KFloat32s = AnyListFloat32 []"
| "zero_of KSymbol = AnySymbol None"

fun name_of :: "kind \<Rightarrow> string" where
  "name_of KBool = ''bool''"
| "name_of KInt = ''int''"
| "name_of KInt64 = ''int64''"
| "name_of KFloat32 = ''float32''"
| "name_of KStrings = ''[]string''"
| "name_of KInts = ''[]int''"
| "name_of KInt64s = ''[]int64''"
| "name_of KFloat32s = ''[]float32''"
| "name_of KSymbol = ''Symbol''"

fun kind_of :: "('f, 'd) any \<Rightarrow> kind" where
  "kind_of (AnyBool x) = KBool"
| "kind_of (AnyInt x) = KInt"
| "kind_of (AnyInt64 x) = KInt64"
| "kind_of (AnyFloat32 x) = KFloat32"
| "kind_of (AnyListStr x) = KStrings"
| "kind_of (AnyListInt x) = KInts"
| "kind_of (AnyListInt64 x) = KInt64s"
| "kind_of (AnyListFloat32 x) = KFloat32s"
| "kind_of (AnySymbol x) = KSymbol"

lemma rewrap_simps [simp]: "rewrap f (Inl e) = Inl e" "rewrap f (Inr (x, s)) = Inr (f x, s)"
  by (simp_all add: rewrap_def)

lemma kind_of_zero [simp]: "kind_of (zero_of k) = k"
  by (cases k) auto

lemma kind_of_parsed: "parse_as L k raw = Some v \<Longrightarrow> kind_of v = k"
  by (cases k) (auto split: if_splits)

lemma ParseBool_empty: "ParseBool [] = None"
  by (simp add: ParseBool_def)

text \<open>All getters in one equation.\<close>

definition mark_failed :: "string \<Rightarrow> string \<Rightarrow> kind \<Rightarrow> ('f, 'd) ParamMap \<Rightarrow> ('f, 'd) ParamMap" where
  "mark_failed key raw k p =
     p\<lparr>pa_failedKeys := (pa_failedKeys p)(key \<mapsto> \<lparr>fp_rawValue = raw, fp_typeName = name_of k\<rparr>)\<rparr>"

definition mark_read :: "string \<Rightarrow> ('f, 'd) any \<Rightarrow> ('f, 'd) ParamMap \<Rightarrow> ('f, 'd) ParamMap" where
  "mark_read key v p =
     p\<lparr>pa_cache := (pa_cache p)(key \<mapsto> v), pa_failedKeys := (pa_failedKeys p)(key := None)\<rparr>"

definition read_as ::
  "kind \<Rightarrow> ('f :: zero, 'd) ParamMap \<Rightarrow> string \<Rightarrow> string \<Rightarrow> ('f, 'd) any option \<Rightarrow> (('f, 'd) any \<times> ('f, 'd) ParamMap) result" where
  "read_as k p key raw parsed =
     (case parsed of
        Some v \<Rightarrow> Inr (v, mark_read key v p)
      | None \<Rightarrow>
          (case pa_cache p key of
             None \<Rightarrow> Inr (zero_of k, mark_failed key raw k p)
           | Some v \<Rightarrow> if kind_of v = k then Inr (v, mark_failed key raw k p) else Inl TypeAssertion))"

locale param_kind = go_type_laws T
  for T :: "('a, ('f :: zero, 'd) any) go_type" +
  fixes k :: kind
  assumes stored_kind: "v \<in> range (gt_any T) \<longleftrightarrow> kind_of v = k"
    and zero_kind: "gt_any T (gt_zero T) = zero_of k"
begin

lemma fallback_eq: "rewrap (gt_any T) (cacheFallback T p key raw (name_of k)) = read_as k p key raw None"
proof (cases "pa_cache p key")
  case None
  then show ?thesis by (simp add: cacheFallback_def read_as_def mark_failed_def zero_kind)
next
  case (Some v)
  show ?thesis
  proof (cases "kind_of v = k")
    case True
    then obtain x where "v = gt_any T x" using stored_kind by blast
    with Some True show ?thesis by (simp add: cacheFallback_def read_as_def mark_failed_def)
  next
    case False
    then have "gt_assert T v = None" using assert_fails stored_kind by blast
    with Some False show ?thesis by (simp add: cacheFallback_def read_as_def mark_failed_def)
  qed
qed

lemma hit_eq: "rewrap (gt_any T) (Inr (cacheHit T p key x)) = read_as k p key raw (Some (gt_any T x))"
  by (simp add: cacheHit_def read_as_def mark_read_def)

lemma read_eq:
  "rewrap (gt_any T) (case r of None \<Rightarrow> cacheFallback T p key raw (name_of k) | Some x \<Rightarrow> Inr (cacheHit T p key (f x))) =
     read_as k p key raw (map_option (\<lambda>x. gt_any T (f x)) r)"
  using fallback_eq hit_eq by (cases r) auto

end

lemma kind_of_eq:
  "kind_of v = KBool \<longleftrightarrow> (\<exists>x. v = AnyBool x)" "kind_of v = KInt \<longleftrightarrow> (\<exists>x. v = AnyInt x)"
  "kind_of v = KInt64 \<longleftrightarrow> (\<exists>x. v = AnyInt64 x)" "kind_of v = KFloat32 \<longleftrightarrow> (\<exists>x. v = AnyFloat32 x)"
  "kind_of v = KStrings \<longleftrightarrow> (\<exists>x. v = AnyListStr x)" "kind_of v = KInts \<longleftrightarrow> (\<exists>x. v = AnyListInt x)"
  "kind_of v = KInt64s \<longleftrightarrow> (\<exists>x. v = AnyListInt64 x)" "kind_of v = KFloat32s \<longleftrightarrow> (\<exists>x. v = AnyListFloat32 x)"
  "kind_of v = KSymbol \<longleftrightarrow> (\<exists>x. v = AnySymbol x)"
  by (cases v; simp)+

interpretation k_bool: param_kind go_bool KBool
  by unfold_locales (auto simp: go_bool_def kind_of_eq)

interpretation k_int: param_kind go_int KInt
  by unfold_locales (auto simp: go_int_def kind_of_eq)

interpretation k_int64: param_kind go_int64 KInt64
  by unfold_locales (auto simp: go_int64_def kind_of_eq)

interpretation k_float32: param_kind go_float32 KFloat32
  by unfold_locales (auto simp: go_float32_def kind_of_eq)

interpretation k_strings: param_kind go_strings KStrings
  by unfold_locales (auto simp: go_strings_def kind_of_eq)

interpretation k_ints: param_kind go_ints KInts
  by unfold_locales (auto simp: go_ints_def kind_of_eq)

interpretation k_int64s: param_kind go_int64s KInt64s
  by unfold_locales (auto simp: go_int64s_def kind_of_eq)

interpretation k_float32s: param_kind go_float32s KFloat32s
  by unfold_locales (auto simp: go_float32s_def kind_of_eq)

interpretation k_symbol: param_kind go_symbol KSymbol
  by unfold_locales (auto simp: go_symbol_def kind_of_eq)

lemma any_of [simp]:
  "gt_any go_bool = AnyBool" "gt_any go_int = AnyInt" "gt_any go_int64 = AnyInt64"
  "gt_any go_float32 = AnyFloat32" "gt_any go_strings = AnyListStr" "gt_any go_ints = AnyListInt"
  "gt_any go_int64s = AnyListInt64" "gt_any go_float32s = AnyListFloat32" "gt_any go_symbol = AnySymbol"
  by (simp_all add: go_type_defs)

lemma GetBool_eq:
  "GetBool p key =
     (case ParseBool (raw_of (pa_m p) key) of
        None \<Rightarrow> cacheFallback go_bool p key (raw_of (pa_m p) key) ''bool''
      | Some x \<Rightarrow> Inr (cacheHit go_bool p key x))"
  by (simp add: GetBool_def raw_of_def ParseBool_empty split: option.split)

theorem read_param_eq:
  "read_param L k p key = read_as k p key (raw_of (pa_m p) key) (parse_as L k (raw_of (pa_m p) key))"
proof (cases k)
  case KBool
  then show ?thesis using k_bool.read_eq [where f = "\<lambda>x. x", unfolded name_of.simps any_of] by (simp add: GetBool_eq Let_def)
next
  case KInt
  then show ?thesis using k_int.read_eq [where f = "\<lambda>x. x", unfolded name_of.simps any_of] by (simp add: GetInt_def Let_def)
next
  case KInt64
  then show ?thesis using k_int64.read_eq [where f = "\<lambda>x. x", unfolded name_of.simps any_of] by (simp add: GetInt64_def Let_def)
next
  case KFloat32
  then show ?thesis using k_float32.read_eq [where f = "to_float32 L", unfolded name_of.simps any_of] by (simp add: GetFloat32_def Let_def)
next
  case KStrings
  then show ?thesis using k_strings.read_eq [where f = "\<lambda>x. x", unfolded name_of.simps any_of] by (simp add: GetListStr_def Let_def)
next
  case KInts
  then show ?thesis using k_ints.read_eq [where f = "\<lambda>x. x", unfolded name_of.simps any_of] by (simp add: GetListInt_def Let_def)
next
  case KInt64s
  then show ?thesis using k_int64s.read_eq [where f = "\<lambda>x. x", unfolded name_of.simps any_of] by (simp add: GetListInt64_def Let_def)
next
  case KFloat32s
  then show ?thesis using k_float32s.read_eq [where f = "\<lambda>x. x", unfolded name_of.simps any_of] by (simp add: GetListFloat_def Let_def)
next
  case KSymbol
  then show ?thesis
    by (simp add: Param_GetSymbol_def Let_def k_symbol.fallback_eq [unfolded name_of.simps any_of] k_symbol.hit_eq [unfolded any_of])
qed

section \<open>Histories of reads and reloads\<close>

datatype param_call = PRead kind string | PReload "string \<rightharpoonup> string"

fun params_run ::
  "('f :: zero, 'g, 'd) param_lib \<Rightarrow> param_call list \<Rightarrow> ('f, 'd) ParamMap \<Rightarrow> ('f, 'd) ParamMap result" where
  "params_run L [] p = Inr p"
| "params_run L (PRead k key # h) p = bind_r (read_param L k p key) (\<lambda>(v, p'). params_run L h p')"
| "params_run L (PReload m # h) p = params_run L h (setParams m p)"

text \<open>The discipline: \<open>\<Gamma>\<close> gives every key the one type it is read with.\<close>

fun typed_call :: "(string \<Rightarrow> kind) \<Rightarrow> param_call \<Rightarrow> bool" where
  "typed_call \<Gamma> (PRead k key) \<longleftrightarrow> k = \<Gamma> key"
| "typed_call \<Gamma> (PReload m) \<longleftrightarrow> True"

text \<open>The parameters in force after a history and the values its reads of a key could parse.\<close>

fun params_after :: "(string \<rightharpoonup> string) \<Rightarrow> param_call list \<Rightarrow> (string \<rightharpoonup> string)" where
  "params_after m [] = m"
| "params_after m (PRead k key # h) = params_after m h"
| "params_after m (PReload m' # h) = params_after m' h"

fun good_reads ::
  "('f, 'g, 'd) param_lib \<Rightarrow> (string \<rightharpoonup> string) \<Rightarrow> param_call list \<Rightarrow> string \<Rightarrow> ('f, 'd) any list" where
  "good_reads L m [] key = []"
| "good_reads L m (PRead k j # h) key =
     (if j = key then (case parse_as L k (raw_of m j) of Some v \<Rightarrow> [v] | None \<Rightarrow> []) else []) @ good_reads L m h key"
| "good_reads L m (PReload m' # h) key = good_reads L m' h key"

text \<open>The outcome of the last read of a key since the last reload.\<close>

fun last_failure ::
  "('f, 'g, 'd) param_lib \<Rightarrow> (string \<rightharpoonup> string) \<Rightarrow> param_call list \<Rightarrow> string \<Rightarrow> failedParam option \<Rightarrow> failedParam option" where
  "last_failure L m [] key acc = acc"
| "last_failure L m (PRead k j # h) key acc =
     last_failure L m h key
       (if j = key
        then (case parse_as L k (raw_of m j) of
                Some v \<Rightarrow> None | None \<Rightarrow> Some \<lparr>fp_rawValue = raw_of m j, fp_typeName = name_of k\<rparr>)
        else acc)"
| "last_failure L m (PReload m' # h) key acc = last_failure L m' h key None"

definition well_typed_cache :: "(string \<Rightarrow> kind) \<Rightarrow> ('f, 'd) ParamMap \<Rightarrow> bool" where
  "well_typed_cache \<Gamma> p \<longleftrightarrow> (\<forall>key v. pa_cache p key = Some v \<longrightarrow> kind_of v = \<Gamma> key)"

lemma mark_fields [simp]:
  "pa_m (mark_failed key raw k p) = pa_m p" "pa_m (mark_read key v p) = pa_m p"
  "pa_cache (mark_failed key raw k p) = pa_cache p" "pa_cache (mark_read key v p) = (pa_cache p)(key \<mapsto> v)"
  "pa_failedKeys (mark_failed key raw k p) = (pa_failedKeys p)(key \<mapsto> \<lparr>fp_rawValue = raw, fp_typeName = name_of k\<rparr>)"
  "pa_failedKeys (mark_read key v p) = (pa_failedKeys p)(key := None)"
  "pa_m (setParams m p) = m" "pa_cache (setParams m p) = pa_cache p" "pa_failedKeys (setParams m p) = Map.empty"
  by (simp_all add: mark_failed_def mark_read_def setParams_def)

lemma well_typed_read:
  assumes "well_typed_cache \<Gamma> p" and "k = \<Gamma> key"
  shows "\<exists>v p'. read_param L k p key = Inr (v, p') \<and> well_typed_cache \<Gamma> p' \<and>
     p' = (case parse_as L k (raw_of (pa_m p) key) of
             Some v \<Rightarrow> mark_read key v p | None \<Rightarrow> mark_failed key (raw_of (pa_m p) key) k p) \<and>
     v = (case parse_as L k (raw_of (pa_m p) key) of
            Some v \<Rightarrow> v | None \<Rightarrow> (case pa_cache p key of Some v \<Rightarrow> v | None \<Rightarrow> zero_of k))"
  using assms kind_of_parsed [of L k "raw_of (pa_m p) key"]
  by (auto simp: read_param_eq read_as_def well_typed_cache_def split: option.split)

text \<open>A well-typed history runs to its end, and what it leaves in the map.\<close>

lemma typed_history:
  assumes "list_all (typed_call \<Gamma>) h" and "well_typed_cache \<Gamma> p"
  shows "\<exists>p'. params_run L h p = Inr p' \<and> well_typed_cache \<Gamma> p' \<and> pa_m p' = params_after (pa_m p) h \<and>
     (\<forall>key. pa_cache p' key =
        (let vs = good_reads L (pa_m p) h key in if vs = [] then pa_cache p key else Some (last vs))) \<and>
     (\<forall>key. pa_failedKeys p' key = last_failure L (pa_m p) h key (pa_failedKeys p key))"
  using assms
proof (induction h arbitrary: p)
  case Nil
  then show ?case by simp
next
  case (Cons c h)
  show ?case
  proof (cases c)
    case (PReload m)
    have "well_typed_cache \<Gamma> (setParams m p)" using Cons.prems by (simp add: well_typed_cache_def)
    from Cons.IH [OF _ this] Cons.prems PReload show ?thesis by (simp add: Let_def cong: if_cong)
  next
    case (PRead k key)
    from Cons.prems PRead have k: "k = \<Gamma> key" by simp
    obtain v p1 where r: "read_param L k p key = Inr (v, p1)" and w: "well_typed_cache \<Gamma> p1"
      and p1: "p1 = (case parse_as L k (raw_of (pa_m p) key) of
             Some v \<Rightarrow> mark_read key v p | None \<Rightarrow> mark_failed key (raw_of (pa_m p) key) k p)"
      using well_typed_read [OF Cons.prems(2) k, of L] by blast
    have m: "pa_m p1 = pa_m p" by (simp add: p1 split: option.split)
    from Cons.prems have t: "list_all (typed_call \<Gamma>) h" by simp
    from Cons.IH [OF t w] r PRead m show ?thesis
      by (auto simp: p1 Let_def split: option.splits)
  qed
qed

lemma new_cache_typed: "well_typed_cache \<Gamma> (co_params (newConfig raw))"
  by (simp add: well_typed_cache_def newConfig_def)

section \<open>Properties\<close>


text \<open>The parameter functions of the examples: floats are rationals, and no list can be decoded.\<close>

definition demo_lib :: "(rat, rat, rat) param_lib" where
  "demo_lib =
     \<lparr>ParseFloat = (\<lambda>s. map_option of_int (ParseInt s)), to_float32 = (\<lambda>x. x),
      json_strings = (\<lambda>s. None), json_ints = (\<lambda>s. None), json_int64s = (\<lambda>s. None), json_float32s = (\<lambda>s. None),
      NewFromFloat32 = (\<lambda>x. x), NewFromInt = of_int, NewFromFloat = (\<lambda>x. x)\<rparr>"

definition demo_raw :: RawConfig where
  "demo_raw = \<lparr>rc_strategyName = ''demo'', rc_params = [''lot'' \<mapsto> ''7'', ''live'' \<mapsto> ''true'']\<rparr>"

definition demo_kinds :: "string \<Rightarrow> kind" where
  "demo_kinds key = (if key = ''live'' then KBool else KInt)"

definition demo_history :: "param_call list" where
  "demo_history = [PRead KInt ''lot'', PRead KBool ''live'', PReload [''lot'' \<mapsto> ''seven'', ''live'' \<mapsto> ''false''], PRead KInt ''lot'']"

lemma demo_history_typed: "list_all (typed_call demo_kinds) demo_history"
  by (simp add: demo_history_def demo_kinds_def)


text \<open>
  C27. A read returns the value of the parameters in force when it can be parsed; otherwise the
  value of the last read of that key that could be parsed, however many reloads ago, and the
  zero value when there was none.
\<close>

theorem unparsable_parameter_keeps_last_good_value:
  assumes "list_all (typed_call \<Gamma>) h"
  shows "\<exists>p p'. params_run L h (co_params (newConfig raw)) = Inr p \<and>
     read_param L (\<Gamma> key) p key =
       Inr (case parse_as L (\<Gamma> key) (raw_of (params_after (rc_params raw) h) key) of
              Some v \<Rightarrow> v
            | None \<Rightarrow>
                (let vs = good_reads L (rc_params raw) h key in if vs = [] then zero_of (\<Gamma> key) else last vs), p')"
proof -
  have new: "pa_m (co_params (newConfig raw)) = rc_params raw" "pa_cache (co_params (newConfig raw)) = Map.empty"
    by (simp_all add: newConfig_def)
  obtain p where p: "params_run L h (co_params (newConfig raw)) = Inr p" "well_typed_cache \<Gamma> p"
    "pa_m p = params_after (rc_params raw) h"
    "pa_cache p key = (let vs = good_reads L (rc_params raw) h key in if vs = [] then None else Some (last vs))"
    using typed_history [OF assms new_cache_typed, of L raw, unfolded new] by auto
  obtain p' where "read_param L (\<Gamma> key) p key =
     Inr (case parse_as L (\<Gamma> key) (raw_of (pa_m p) key) of
            Some v \<Rightarrow> v | None \<Rightarrow> (case pa_cache p key of Some v \<Rightarrow> v | None \<Rightarrow> zero_of (\<Gamma> key)), p')"
    using well_typed_read [OF p(2) refl] by blast
  with p show ?thesis by (auto simp: Let_def split: option.split)
qed

theorem unparsable_parameter_keeps_last_good_value_witness:
  "list_all (typed_call demo_kinds) demo_history \<and>
   (\<exists>p p'. params_run demo_lib demo_history (co_params (newConfig demo_raw)) = Inr p \<and>
     read_param demo_lib KInt p ''lot'' = Inr (AnyInt 7, p'))"
proof -
  have vs: "good_reads demo_lib (rc_params demo_raw) demo_history ''lot'' = [AnyInt 7]"
    and m: "parse_as demo_lib KInt (raw_of (params_after (rc_params demo_raw) demo_history) ''lot'') = None"
    by code_simp+
  have k: "demo_kinds ''lot'' = KInt" by (simp add: demo_kinds_def)
  show ?thesis
    using unparsable_parameter_keeps_last_good_value [OF demo_history_typed, of demo_lib demo_raw "''lot''", unfolded k m vs]
      demo_history_typed
    by simp
qed

text \<open>
  After any well-typed history the keys reported as failing, with the raw value and the
  expected type, are exactly those whose last read since the last reload could not be parsed.
\<close>

theorem failed_keys_report_last_failures:
  assumes "list_all (typed_call \<Gamma>) h"
  shows "\<exists>p. params_run L h (co_params (newConfig raw)) = Inr p \<and>
     (\<forall>key. pa_failedKeys p key = last_failure L (rc_params raw) h key None)"
  using typed_history [OF assms new_cache_typed, of L raw] by (auto simp: newConfig_def)

theorem failed_keys_report_last_failures_witness:
  "list_all (typed_call demo_kinds) demo_history \<and>
   (\<exists>p. params_run demo_lib demo_history (co_params (newConfig demo_raw)) = Inr p \<and>
     pa_failedKeys p ''lot'' = Some \<lparr>fp_rawValue = ''seven'', fp_typeName = ''int''\<rparr> \<and> pa_failedKeys p ''live'' = None)"
proof -
  have f: "last_failure demo_lib (rc_params demo_raw) demo_history ''lot'' None = Some \<lparr>fp_rawValue = ''seven'', fp_typeName = ''int''\<rparr>"
    "last_failure demo_lib (rc_params demo_raw) demo_history ''live'' None = None"
    by code_simp+
  show ?thesis
    using failed_keys_report_last_failures [OF demo_history_typed, of demo_lib demo_raw] demo_history_typed
    by (metis f)
qed

text \<open>
  A getter panics exactly when the value cannot be parsed and the cache holds a value that
  another getter stored under the same key: \<open>int\<close> and \<open>int64\<close> are different types here.
\<close>

theorem read_panics_iff_cached_with_other_type:
  "read_param L k p key = Inl e \<longleftrightarrow>
     e = TypeAssertion \<and> parse_as L k (raw_of (pa_m p) key) = None \<and>
     (\<exists>v. pa_cache p key = Some v \<and> kind_of v \<noteq> k)"
  by (auto simp: read_param_eq read_as_def split: option.splits)

text \<open>A key read as a number of milliseconds and as a decimal, then reloaded with a bad value.\<close>

lemma mixed_types_panic:
  "params_run demo_lib [PRead KInt ''lot'', PReload [''lot'' \<mapsto> ''seven''], PRead KInt64 ''lot'']
     (co_params (newConfig demo_raw)) = Inl TypeAssertion"
  by (simp add: read_param_eq read_as_def demo_raw_def newConfig_def setParams_def mark_read_def
      raw_of_def Atoi_def ParseInt_def parse_nat_def is_digit_def digit_val_def)

section \<open>Durations\<close>

lemma wrap64_id_iff: "wrap64 x = x \<longleftrightarrow> - (2 ^ 63) \<le> x \<and> x < 2 ^ 63"
proof
  assume "wrap64 x = x"
  then have "(x + 2 ^ 63) mod 2 ^ 64 = x + 2 ^ 63" by (simp add: wrap64_def)
  moreover have "0 \<le> (x + 2 ^ 63) mod (2 ^ 64 :: int)" "(x + 2 ^ 63) mod 2 ^ 64 < (2 ^ 64 :: int)" by simp_all
  ultimately show "- (2 ^ 63) \<le> x \<and> x < 2 ^ 63" by simp
qed (simp add: wrap64_exact)

text \<open>
  A duration parameter is the product of the number and its unit exactly as long as the
  product fits 64 bits: about 292 years; beyond, it wraps around and may be negative.
\<close>

theorem duration_parameters_exact_iff_in_range:
  assumes "GetInt p key = Inr (n, p')"
  shows "(GetMilliSec p key = Inr (n * 1000000, p') \<longleftrightarrow> \<bar>n\<bar> \<le> 9223372036854) \<and>
     (GetSec p key = Inr (n * 1000000000, p') \<longleftrightarrow> \<bar>n\<bar> \<le> 9223372036) \<and>
     (GetHour p key = Inr (n * 3600000000000, p') \<longleftrightarrow> \<bar>n\<bar> \<le> 2562047)"
  using assms by (auto simp: GetMilliSec_def GetSec_def GetHour_def wrap64_id_iff)

theorem duration_parameters_exact_iff_in_range_witness:
  "GetHour (co_params (newConfig demo_raw)) ''lot'' =
     Inr (7 * 3600000000000, snd (cacheHit go_int (co_params (newConfig demo_raw)) ''lot'' (7 :: int)) :: (rat, rat) ParamMap)"
proof -
  let ?p = "co_params (newConfig demo_raw) :: (rat, rat) ParamMap"
  have "GetInt ?p ''lot'' = Inr (7, snd (cacheHit go_int ?p ''lot'' 7))"
    by (simp add: GetInt_def demo_raw_def newConfig_def raw_of_def Atoi_def ParseInt_def parse_nat_def
        is_digit_def digit_val_def cacheHit_def)
  from duration_parameters_exact_iff_in_range [OF this] show ?thesis by simp
qed

end
