(* ===== verification/Watcher.thy ===== *)
theory Watcher
  imports Configs_Correct
begin

text \<open>
  \<open>configs/watcher.go\<close>: the goroutine that reloads the configuration and the secret when their
  files change. The file system, the notification library and the YAML decoder are not part of
  the repository: an event comes with a \<open>file_env\<close> that says what they answer while it is
  handled. \<open>w_causes\<close> records the calls of \<open>cancelCause\<close>. Strategies read parameters of the same
  \<open>Config\<close> between the events, so a run of the program interleaves both.
\<close>

section \<open>watcher.go\<close>

definition warnInterval :: duration where "warnInterval = 60000000000"

record 'b file_env =
  fs_NewWatcher :: "string option"
  fs_Add :: "string \<Rightarrow> string option"
  fs_ReadFile :: "string \<Rightarrow> string + 'b"
  yaml_config :: "'b \<Rightarrow> string + RawConfig"
  yaml_secret :: "'b \<Rightarrow> string + RawSecret"

datatype fs_op = OpCreate | OpWrite | OpRemove | OpRename | OpChmod

record fs_event =
  ev_Name :: string
  ev_Op :: "fs_op list"

definition Has :: "fs_event \<Rightarrow> fs_op \<Rightarrow> bool" where
  "Has ev op \<longleftrightarrow> op \<in> set (ev_Op ev)"

datatype watch_error =
    CreateWatcher string
  | WatchConfigFile string
  | WatchSecretFile string
  | ReadConfigFile file_error
  | ReadSecretFile file_error
  | ReWatchConfigFile string
  | ReWatchSecretFile string

record ('f, 'd) Watcher =
  w_configFilePath :: string
  w_secretFilePath :: string
  w_config :: "('f, 'd) Config"
  w_secret :: Secret
  w_causes :: "watch_error list"

definition NewWatcher :: "'b file_env \<Rightarrow> string \<Rightarrow> string \<Rightarrow> watch_error + ('f, 'd) Watcher" where
  "NewWatcher E configFilePath secretFilePath =
     (case fs_NewWatcher E of
        Some e \<Rightarrow> Inl (CreateWatcher e)
      | None \<Rightarrow>
     (case fs_Add E configFilePath of
        Some e \<Rightarrow> Inl (WatchConfigFile e)
      | None \<Rightarrow>
     (case fs_Add E secretFilePath of
        Some e \<Rightarrow> Inl (WatchSecretFile e)
      | None \<Rightarrow>
     (case readRawConfig (fs_ReadFile E) (yaml_config E) configFilePath of
        Inl e \<Rightarrow> Inl (ReadConfigFile e)
      | Inr rawConf \<Rightarrow>
     (case readRawSecret (fs_ReadFile E) (yaml_secret E) secretFilePath of
        Inl e \<Rightarrow> Inl (ReadSecretFile e)
      | Inr rawSecret \<Rightarrow>
          Inr \<lparr>w_configFilePath = configFilePath, w_secretFilePath = secretFilePath,
               w_config = newConfig rawConf, w_secret = newSecret rawSecret, w_causes = []\<rparr>)))))"

definition resetFilePath :: "'b file_env \<Rightarrow> string \<Rightarrow> string option" where
  "resetFilePath E filePath = fs_Add E filePath"

definition updateConfig :: "'b file_env \<Rightarrow> ('f, 'd) Watcher \<Rightarrow> file_error option \<times> ('f, 'd) Watcher" where
  "updateConfig E w =
     (case readRawConfig (fs_ReadFile E) (yaml_config E) (w_configFilePath w) of
        Inl e \<Rightarrow> (Some e, w)
      | Inr rawConf \<Rightarrow> (None, w\<lparr>w_config := Config_update rawConf (w_config w)\<rparr>))"

definition updateSecretFromFile :: "'b file_env \<Rightarrow> ('f, 'd) Watcher \<Rightarrow> file_error option \<times> ('f, 'd) Watcher" where
  "updateSecretFromFile E w =
     (case readRawSecret (fs_ReadFile E) (yaml_secret E) (w_secretFilePath w) of
        Inl e \<Rightarrow> (Some e, w)
      | Inr rawSecret \<Rightarrow> (None, w\<lparr>w_secret := Secret_update rawSecret (w_secret w)\<rparr>))"

definition handleConfigEvent :: "'b file_env \<Rightarrow> fs_event \<Rightarrow> ('f, 'd) Watcher \<Rightarrow> ('f, 'd) Watcher" where
  "handleConfigEvent E event w =
     (case (if Has event OpRename then resetFilePath E (w_configFilePath w) else None) of
        Some e \<Rightarrow> w\<lparr>w_causes := w_causes w @ [ReWatchConfigFile e]\<rparr>
      | None \<Rightarrow>
          if Has event OpWrite \<or> Has event OpRename then snd (updateConfig E w) else w)"

definition handleSecretEvent :: "'b file_env \<Rightarrow> fs_event \<Rightarrow> ('f, 'd) Watcher \<Rightarrow> ('f, 'd) Watcher" where
  "handleSecretEvent E event w =
     (case (if Has event OpRename then resetFilePath E (w_secretFilePath w) else None) of
        Some e \<Rightarrow> w\<lparr>w_causes := w_causes w @ [ReWatchSecretFile e]\<rparr>
      | None \<Rightarrow>
          if Has event OpWrite \<or> Has event OpRename then snd (updateSecretFromFile E w) else w)"

definition handleEvent :: "'b file_env \<Rightarrow> fs_event \<Rightarrow> ('f, 'd) Watcher \<Rightarrow> ('f, 'd) Watcher" where
  "handleEvent E event w =
     (if ev_Name event = w_configFilePath w then handleConfigEvent E event w
      else if ev_Name event = w_secretFilePath w then handleSecretEvent E event w
      else w)"

text \<open>
  The choices of the \<open>select\<close> of \<open>Start\<close>, interleaved with the reads of the strategies; the
  ticker only logs. A run stops when the context is done.
\<close>

datatype 'b watch_step = WEvent "'b file_env" fs_event | WTick | WRead kind string | WDone

fun Watcher_run ::
  "('f :: zero, 'g, 'd) param_lib \<Rightarrow> 'b watch_step list \<Rightarrow> ('f, 'd) Watcher \<Rightarrow> ('f, 'd) Watcher result" where
  "Watcher_run L [] w = Inr w"
| "Watcher_run L (WEvent E event # ss) w = Watcher_run L ss (handleEvent E event w)"
| "Watcher_run L (WTick # ss) w = Watcher_run L ss w"
| "Watcher_run L (WRead k key # ss) w =
     bind_r (read_param L k (co_params (w_config w)) key)
       (\<lambda>(v, p). Watcher_run L ss (w\<lparr>w_config := (w_config w)\<lparr>co_params := p\<rparr>\<rparr>))"
| "Watcher_run L (WDone # ss) w = Inr w"

section \<open>What a run leaves\<close>

text \<open>The configuration and the secret an event brings into force, if it does.\<close>

definition reloads :: "'b file_env \<Rightarrow> fs_event \<Rightarrow> string \<Rightarrow> bool" where
  "reloads E event path \<longleftrightarrow>
     ev_Name event = path \<and>
     (if OpRename \<in> set (ev_Op event) then fs_Add E path = None else OpWrite \<in> set (ev_Op event))"

definition loaded_config :: "string \<Rightarrow> 'b file_env \<Rightarrow> fs_event \<Rightarrow> RawConfig option" where
  "loaded_config cfg E event =
     (if reloads E event cfg
      then (case readRawConfig (fs_ReadFile E) (yaml_config E) cfg of Inr raw \<Rightarrow> Some raw | Inl _ \<Rightarrow> None) else None)"

definition loaded_secret :: "string \<Rightarrow> 'b file_env \<Rightarrow> fs_event \<Rightarrow> RawSecret option" where
  "loaded_secret sec E event =
     (if reloads E event sec
      then (case readRawSecret (fs_ReadFile E) (yaml_secret E) sec of Inr raw \<Rightarrow> Some raw | Inl _ \<Rightarrow> None) else None)"

text \<open>The reads and reloads the parameters see, and the last secret loaded.\<close>

fun param_history :: "string \<Rightarrow> 'b watch_step list \<Rightarrow> param_call list" where
  "param_history cfg [] = []"
| "param_history cfg (WEvent E event # ss) =
     (case loaded_config cfg E event of Some raw \<Rightarrow> [PReload (rc_params raw)] | None \<Rightarrow> []) @ param_history cfg ss"
| "param_history cfg (WTick # ss) = param_history cfg ss"
| "param_history cfg (WRead k key # ss) = PRead k key # param_history cfg ss"
| "param_history cfg (WDone # ss) = []"

fun last_secret :: "string \<Rightarrow> 'b watch_step list \<Rightarrow> Secret \<Rightarrow> Secret" where
  "last_secret sec [] s = s"
| "last_secret sec (WEvent E event # ss) s =
     last_secret sec ss (case loaded_secret sec E event of Some raw \<Rightarrow> newSecret raw | None \<Rightarrow> s)"
| "last_secret sec (WTick # ss) s = last_secret sec ss s"
| "last_secret sec (WRead k key # ss) s = last_secret sec ss s"
| "last_secret sec (WDone # ss) s = s"

lemma handleEvent_eq:
  assumes "w_configFilePath w \<noteq> w_secretFilePath w"
  shows "w_configFilePath (handleEvent E event w) = w_configFilePath w"
    "w_secretFilePath (handleEvent E event w) = w_secretFilePath w"
    "w_config (handleEvent E event w) =
       (case loaded_config (w_configFilePath w) E event of
          Some raw \<Rightarrow> Config_update raw (w_config w) | None \<Rightarrow> w_config w)"
    "w_secret (handleEvent E event w) =
       (case loaded_secret (w_secretFilePath w) E event of Some raw \<Rightarrow> newSecret raw | None \<Rightarrow> w_secret w)"
  using assms
  by (auto simp: handleEvent_def handleConfigEvent_def handleSecretEvent_def updateConfig_def updateSecretFromFile_def
      loaded_config_def loaded_secret_def reloads_def resetFilePath_def Has_def Secret_update_eq
      split: option.splits sum.splits if_splits)

lemma Config_update_fields [simp]:
  "co_strategyName (Config_update raw c) = co_strategyName c"
  "co_params (Config_update raw c) = setParams (rc_params raw) (co_params c)"
  by (simp_all add: Config_update_def)

text \<open>A run of the watcher is the run of its parameter history.\<close>

lemma Watcher_run_eq:
  assumes "w_configFilePath w \<noteq> w_secretFilePath w"
    and "params_run L (param_history (w_configFilePath w) ss) (co_params (w_config w)) = Inr p"
  shows "\<exists>w'. Watcher_run L ss w = Inr w' \<and> co_params (w_config w') = p \<and>
     co_strategyName (w_config w') = co_strategyName (w_config w) \<and>
     w_secret w' = last_secret (w_secretFilePath w) ss (w_secret w)"
  using assms
proof (induction L ss w rule: Watcher_run.induct)
  case (2 L E event ss w)
  note h = handleEvent_eq [OF 2(2), of E event]
  from 2(2,3) show ?case
    using 2(1) by (simp add: h split: option.splits)
next
  case (4 L k key ss w)
  then obtain v q where r: "read_param L k (co_params (w_config w)) key = Inr (v, q)"
    "params_run L (param_history (w_configFilePath w) ss) q = Inr p"
    by (auto simp: bind_r_eq_Inr)
  with 4(1) [of q] 4(2) show ?case by simp
qed auto

lemma NewWatcher_fields:
  "NewWatcher E cfg sec = Inr w \<Longrightarrow>
     w_configFilePath w = cfg \<and> w_secretFilePath w = sec \<and> w_causes w = [] \<and>
     (\<exists>raw. w_config w = newConfig raw \<and> rc_strategyName raw \<noteq> [])"
  by (auto simp: NewWatcher_def readRawConfig_def validate_def split: option.splits sum.splits if_splits)

section \<open>Properties\<close>

text \<open>
  C28. Whatever happens to the two files and however the strategies read their parameters in
  between (each key with one type), the watcher keeps running without a panic; the strategy
  name never changes, the parameters in force are those of the last configuration file that
  could be read, decoded and validated, the secret that of the last secret file that could be
  read, and a bad file or a failed re-watch leaves both as they were.
\<close>

theorem watcher_serves_last_good_files:
  assumes "NewWatcher E cfg sec = Inr w" and "cfg \<noteq> sec"
    and "list_all (typed_call \<Gamma>) (param_history cfg ss)"
  shows "\<exists>w'. Watcher_run L ss w = Inr w' \<and>
     co_strategyName (w_config w') = co_strategyName (w_config w) \<and> co_strategyName (w_config w') \<noteq> [] \<and>
     pa_m (co_params (w_config w')) = params_after (pa_m (co_params (w_config w))) (param_history cfg ss) \<and>
     w_secret w' = last_secret sec ss (w_secret w)"
proof -
  obtain raw where w: "w_configFilePath w = cfg" "w_secretFilePath w = sec"
    "w_config w = newConfig raw" "rc_strategyName raw \<noteq> []"
    using NewWatcher_fields [OF assms(1)] by blast
  have "well_typed_cache \<Gamma> (co_params (w_config w))" by (simp add: w(3) new_cache_typed)
  from typed_history [OF assms(3) this] obtain p where
    p: "params_run L (param_history cfg ss) (co_params (w_config w)) = Inr p"
      "pa_m p = params_after (pa_m (co_params (w_config w))) (param_history cfg ss)" by blast
  from Watcher_run_eq [of w L ss p] w(1,2) p(1) assms(2) obtain w' where
    "Watcher_run L ss w = Inr w'" "co_params (w_config w') = p"
    "co_strategyName (w_config w') = co_strategyName (w_config w)" "w_secret w' = last_secret sec ss (w_secret w)" by auto
  with p w(3,4) show ?thesis by (auto simp: newConfig_def)
qed

text \<open>The file system of the example: the data of a file is its decoded content.\<close>

definition demo_secret :: RawSecret where
  "demo_secret = \<lparr>rs_coinex = \<lparr>raw_apiKey = ''k'', raw_secret = ''s''\<rparr>, rs_influxdb = \<lparr>raw_url = [], raw_token = []\<rparr>,
     rs_discord = \<lparr>raw_infoUrl = [], raw_warnUrl = [], raw_emergencyUrl = []\<rparr>\<rparr>"

definition demo_files :: "RawConfig \<Rightarrow> string option \<Rightarrow> (RawConfig + RawSecret) file_env" where
  "demo_files raw add_error =
     \<lparr>fs_NewWatcher = None, fs_Add = (\<lambda>path. add_error),
      fs_ReadFile = (\<lambda>path. if path = ''c'' then Inr (Inl raw) else Inr (Inr demo_secret)),
      yaml_config = (\<lambda>b. case b of Inl r \<Rightarrow> Inr r | Inr _ \<Rightarrow> Inl ''not a config''),
      yaml_secret = (\<lambda>b. case b of Inr r \<Rightarrow> Inr r | Inl _ \<Rightarrow> Inl ''not a secret'')\<rparr>"

definition demo_watcher :: "(rat, rat) Watcher" where
  "demo_watcher =
     \<lparr>w_configFilePath = ''c'', w_secretFilePath = ''s'', w_config = newConfig demo_raw, w_secret = newSecret demo_secret,
      w_causes = []\<rparr>"

definition demo_steps :: "(RawConfig + RawSecret) watch_step list" where
  "demo_steps =
     [WRead KInt ''lot'',
      WEvent (demo_files (demo_raw\<lparr>rc_strategyName := []\<rparr>) None) \<lparr>ev_Name = ''c'', ev_Op = [OpWrite]\<rparr>,
      WEvent (demo_files (demo_raw\<lparr>rc_params := [''lot'' \<mapsto> ''8'']\<rparr>) None) \<lparr>ev_Name = ''c'', ev_Op = [OpRename]\<rparr>,
      WEvent (demo_files (demo_raw\<lparr>rc_params := [''lot'' \<mapsto> ''9'']\<rparr>) (Some ''gone'')) \<lparr>ev_Name = ''c'', ev_Op = [OpRename]\<rparr>, WDone]"

lemma demo_watcher_new: "NewWatcher (demo_files demo_raw None) ''c'' ''s'' = Inr demo_watcher"
  by (simp add: NewWatcher_def demo_files_def demo_watcher_def readRawConfig_def readRawSecret_def validate_def demo_raw_def)

lemma demo_steps_history: "param_history ''c'' demo_steps = [PRead KInt ''lot'', PReload [''lot'' \<mapsto> ''8'']]"
  by (simp add: demo_steps_def demo_files_def loaded_config_def reloads_def readRawConfig_def validate_def demo_raw_def)

theorem watcher_serves_last_good_files_witness:
  "\<exists>w'. Watcher_run demo_lib demo_steps demo_watcher = Inr w' \<and> co_strategyName (w_config w') = ''demo'' \<and>
     pa_m (co_params (w_config w')) = [''lot'' \<mapsto> ''8'']"
proof -
  have "list_all (typed_call demo_kinds) (param_history ''c'' demo_steps)"
    by (simp add: demo_steps_history demo_kinds_def)
  from watcher_serves_last_good_files [OF demo_watcher_new _ this, of demo_lib] show ?thesis
    by (auto simp: demo_steps_history demo_watcher_def newConfig_def demo_raw_def)
qed

text \<open>
  A file that can no longer be watched shuts the program down only when the library
  reports a rename: the handler then tries to watch the path again and passes the error to
  \<open>cancelCause\<close>. The removal of a watched file changes nothing and cancels nothing, although
  nothing watches the path any more.
\<close>

theorem lost_watch_reported_only_on_rename:
  "(w_causes (handleEvent E event w) \<noteq> w_causes w \<longleftrightarrow>
      Has event OpRename \<and> ev_Name event \<in> {w_configFilePath w, w_secretFilePath w} \<and>
      fs_Add E (ev_Name event) \<noteq> None) \<and>
   handleEvent E \<lparr>ev_Name = path, ev_Op = [OpRemove]\<rparr> w = w"
  by (auto simp: handleEvent_def handleConfigEvent_def handleSecretEvent_def resetFilePath_def Has_def
      updateConfig_def updateSecretFromFile_def split: option.splits sum.splits)

end
