(* ===== verification/Startup.thy ===== *)
theory Startup
  imports Gateways_Init Watcher
begin

text \<open>
  \<open>initializers/context.go\<close>, \<open>logger\<close>, \<open>discord\<close>, \<open>exchanges/common.go\<close> and \<open>lapua\<close>: how the
  process starts, waits for its market data and shuts down. The environment variables, the
  file system, the InfluxDB client and the clock are parameters; a request to Discord is the
  message that is posted, and its answer is only logged.
\<close>

section \<open>context.go\<close>

text \<open>
  The context together with the goroutine that waits for a signal: when and with what cause
  it was cancelled, and when the process is forced to exit. Only the first signal is read and
  only the first cancellation counts.
\<close>

record 'e ctx_state =
  ct_done :: "(time \<times> 'e option) option"
  ct_exitAt :: "time option"

definition NewCancellableContext :: "'e ctx_state" where
  "NewCancellableContext = \<lparr>ct_done = None, ct_exitAt = None\<rparr>"

definition ctx_cancel :: "time \<Rightarrow> 'e option \<Rightarrow> 'e ctx_state \<Rightarrow> 'e ctx_state" where
  "ctx_cancel now cause c = (if ct_done c = None then c\<lparr>ct_done := Some (now, cause)\<rparr> else c)"

definition ctx_signal :: "time \<Rightarrow> 'e ctx_state \<Rightarrow> 'e ctx_state" where
  "ctx_signal now c =
     (if ct_exitAt c = None then (ctx_cancel now None c)\<lparr>ct_exitAt := Some (now + 10000000000)\<rparr> else c)"

section \<open>logger/initializer.go\<close>

datatype init_panic = PanicValue string | PanicWatch watch_error | PanicError string

text \<open>\<open>openFile\<close> is the error with which the file cannot be opened, if it cannot; the result says whether the log goes to the file.\<close>

definition InitLogger :: "(string \<Rightarrow> string) \<Rightarrow> (string \<Rightarrow> string option) \<Rightarrow> string \<Rightarrow> init_panic + bool" where
  "InitLogger env openFile logFilePath =
     (if env ''LAPUA_FILE_LOGGING'' \<noteq> ''true'' then Inr False
      else (case openFile logFilePath of Some err \<Rightarrow> Inl (PanicError err) | None \<Rightarrow> Inr True))"

section \<open>discord/client.go\<close>

record Client =
  cl_strategyName :: string
  cl_infoUrl :: string
  cl_warnUrl :: string
  cl_emergencyUrl :: string
  cl_noopMode :: bool

definition NewClient :: "string \<Rightarrow> string \<Rightarrow> string \<Rightarrow> string \<Rightarrow> Client" where
  "NewClient strategyName infoUrl warnUrl emergencyUrl =
     (if strategyName = [] \<or> (infoUrl = [] \<and> warnUrl = [] \<and> emergencyUrl = [])
      then \<lparr>cl_strategyName = [], cl_infoUrl = [], cl_warnUrl = [], cl_emergencyUrl = [], cl_noopMode = True\<rparr>
      else \<lparr>cl_strategyName = strategyName, cl_infoUrl = infoUrl, cl_warnUrl = warnUrl, cl_emergencyUrl = emergencyUrl,
            cl_noopMode = False\<rparr>)"

record http_post =
  hp_url :: string
  hp_contentType :: string
  hp_body :: json

definition sendMsg :: "string \<Rightarrow> string \<Rightarrow> string \<Rightarrow> http_post" where
  "sendMsg url strategyName msg =
     \<lparr>hp_url = url, hp_contentType = ''application/json'',
      hp_body = JObj [(''username'', JStr strategyName), (''content'', JStr msg)]\<rparr>"

text \<open>The variants with \<open>Sync\<close> wait for the answer; they post the same message.\<close>

definition SendInfo :: "Client \<Rightarrow> string \<Rightarrow> http_post option" where
  "SendInfo c msg = (if cl_noopMode c then None else Some (sendMsg (cl_infoUrl c) (cl_strategyName c) msg))"
definition SendEmergency :: "Client \<Rightarrow> string \<Rightarrow> http_post option" where
  "SendEmergency c msg = (if cl_noopMode c then None else Some (sendMsg (cl_emergencyUrl c) (cl_strategyName c) msg))"
definition SendWarn :: "Client \<Rightarrow> string \<Rightarrow> http_post option" where
  "SendWarn c msg = (if cl_noopMode c then None else Some (sendMsg (cl_warnUrl c) (cl_strategyName c) msg))"

definition SyncSendInfo :: "Client \<Rightarrow> string \<Rightarrow> http_post option" where "SyncSendInfo c msg = SendInfo c msg"
definition SyncSendEmergency :: "Client \<Rightarrow> string \<Rightarrow> http_post option" where "SyncSendEmergency c msg = SendEmergency c msg"
definition SyncSendWarn :: "Client \<Rightarrow> string \<Rightarrow> http_post option" where "SyncSendWarn c msg = SendWarn c msg"

section \<open>exchanges/common.go\<close>

definition AppendInsight :: "'i \<Rightarrow> 'i list \<Rightarrow> 'i list" where
  "AppendInsight ins insights = insights @ [ins]"

section \<open>lapua/initializer.go\<close>

text \<open>
  The public variables. \<open>Params\<close> and \<open>Secrets\<close> point into the watcher; without a watcher they
  are nil.
\<close>

record ('f, 'd) lapua =
  lp_Ctx :: "watch_error ctx_state option"
  lp_watcher :: "('f, 'd) Watcher option"
  lp_Exporter :: "'f Exporter option"
  lp_Discord :: "Client option"
  lp_fileLog :: bool
  lp_watching :: bool
  lp_exporting :: bool

definition lapua_zero :: "('f, 'd) lapua" where
  "lapua_zero = \<lparr>lp_Ctx = None, lp_watcher = None, lp_Exporter = None, lp_Discord = None, lp_fileLog = False,
     lp_watching = False, lp_exporting = False\<rparr>"

definition Params :: "('f, 'd) lapua \<Rightarrow> ('f, 'd) ParamMap option" where
  "Params l = map_option (\<lambda>w. co_params (w_config w)) (lp_watcher l)"
definition Secrets :: "('f, 'd) lapua \<Rightarrow> Secret option" where
  "Secrets l = map_option w_secret (lp_watcher l)"

definition IsInitialized :: "('f, 'd) lapua \<Rightarrow> bool" where
  "IsInitialized l \<longleftrightarrow> lp_Ctx l \<noteq> None \<and> lp_Exporter l \<noteq> None"

definition initFilePaths :: "(string \<Rightarrow> string) \<Rightarrow> init_panic + string \<times> string \<times> string" where
  "initFilePaths env =
     (let configFilePath = env ''LAPUA_CONFIG_PATH''; secretFilePath = env ''LAPUA_SECRET_PATH''; logFilePath = env ''LAPUA_LOG_PATH''
      in if configFilePath = [] then Inl (PanicValue ''LAPUA_CONFIG_PATH environment variable is not set'')
         else if secretFilePath = [] then Inl (PanicValue ''LAPUA_SECRET_PATH environment variable is not set'')
         else if logFilePath = [] then Inl (PanicValue ''LAPUA_LOG_PATH environment variable is not set'')
         else Inr (configFilePath, secretFilePath, logFilePath))"

text \<open>What both modes do first: paths, context, log file, watcher.\<close>

record 'b init_env =
  ie_env :: "string \<Rightarrow> string"
  ie_openFile :: "string \<Rightarrow> string option"
  ie_files :: "'b file_env"
  ie_influx :: "string \<Rightarrow> string \<Rightarrow> string \<Rightarrow> string option"

definition bind_i :: "init_panic + 'a \<Rightarrow> ('a \<Rightarrow> init_panic + 'b) \<Rightarrow> init_panic + 'b" where
  "bind_i m f = (case m of Inl e \<Rightarrow> Inl e | Inr x \<Rightarrow> f x)"

lemma bind_i_simps [simp]: "bind_i (Inl e) f = Inl e" "bind_i (Inr x) f = f x"
  by (simp_all add: bind_i_def)

definition start_watcher :: "'b init_env \<Rightarrow> init_panic + ('f, 'd) Watcher \<times> bool" where
  "start_watcher E =
     bind_i (initFilePaths (ie_env E)) (\<lambda>(configFilePath, secretFilePath, logFilePath).
     bind_i (InitLogger (ie_env E) (ie_openFile E) logFilePath) (\<lambda>fileLog.
       case NewWatcher (ie_files E) configFilePath secretFilePath of
         Inl err \<Rightarrow> Inl (PanicWatch err)
       | Inr watcher \<Rightarrow> Inr (watcher, fileLog)))"

text \<open>What both modes do last: exporter and Discord client with the secrets as they are now.\<close>

definition start_clients ::
  "'b init_env \<Rightarrow> string \<Rightarrow> string \<Rightarrow> ('f, 'd) Watcher \<times> bool \<Rightarrow> init_panic + ('f, 'd) lapua" where
  "start_clients E bucketName strategyName wl =
     (case wl of (watcher, fileLog) \<Rightarrow>
        (let secret = w_secret watcher in
         case NewExporter (ie_influx E) bucketName strategyName (ac_url (se_InfluxDB secret)) (ac_token (se_InfluxDB secret)) of
           Inl err \<Rightarrow> Inl (PanicError err)
         | Inr exporter \<Rightarrow>
             Inr \<lparr>lp_Ctx = Some NewCancellableContext, lp_watcher = Some watcher, lp_Exporter = Some exporter,
                  lp_Discord = Some (NewClient bucketName (dc_infoUrl (se_Discord secret)) (dc_warnUrl (se_Discord secret))
                    (dc_emergencyUrl (se_Discord secret))),
                  lp_fileLog = fileLog, lp_watching = True, lp_exporting = True\<rparr>))"

definition InitAndStart :: "'b init_env \<Rightarrow> init_panic + ('f, 'd) lapua" where
  "InitAndStart E =
     bind_i (start_watcher E) (\<lambda>wl.
       let name = co_strategyName (w_config (fst wl)) in start_clients E name name wl)"

definition InitAndStartDCMode :: "'b init_env \<Rightarrow> init_panic + ('f, 'd) lapua" where
  "InitAndStartDCMode E =
     bind_i (start_watcher E) (\<lambda>wl.
       let bucketName = Param_Get (co_params (w_config (fst wl))) ''bucketName'' in
       if bucketName = [] then Inl (PanicValue ''influx db bucket name must be specified in config file'')
       else start_clients E bucketName [] wl)"

definition InitAndStartNoopMode :: "(string \<Rightarrow> string \<Rightarrow> string \<Rightarrow> string option) \<Rightarrow> ('f, 'd) lapua" where
  "InitAndStartNoopMode influx =
     lapua_zero\<lparr>lp_Ctx := Some NewCancellableContext,
       lp_Exporter := (case NewExporter influx [] [] [] [] of Inl _ \<Rightarrow> None | Inr e \<Rightarrow> Some e),
       lp_Discord := Some (NewClient [] [] [] []), lp_exporting := True\<rparr>"

text \<open>
  \<open>WaitForInsightsToBeReady\<close>: \<open>ready t ins\<close> is what \<open>ins.IsEverythingReady()\<close> answers in turn
  \<open>t\<close> of the loop, one second after the turn before, and \<open>ks t\<close> the order in which that turn
  visits the insights. The value is the turn that returns; \<open>None\<close> means that none does.
\<close>

definition genInsReadyStates :: "'i list \<Rightarrow> ('i \<rightharpoonup> bool)" where
  "genInsReadyStates insights = fold (\<lambda>ins states. states(ins \<mapsto> False)) insights Map.empty"

definition areAllInsReady :: "'i list \<Rightarrow> ('i \<rightharpoonup> bool) \<Rightarrow> bool" where
  "areAllInsReady ks states = list_all (\<lambda>ins. states ins \<noteq> Some False) ks"

definition updateInsReadyStates :: "('i \<Rightarrow> bool) \<Rightarrow> 'i list \<Rightarrow> ('i \<rightharpoonup> bool) \<Rightarrow> ('i \<rightharpoonup> bool)" where
  "updateInsReadyStates ready ks states = fold (\<lambda>ins st. st(ins \<mapsto> ready ins)) ks states"

partial_function (option) wait_loop ::
  "(nat \<Rightarrow> 'i \<Rightarrow> bool) \<Rightarrow> (nat \<Rightarrow> 'i list) \<Rightarrow> ('i \<rightharpoonup> bool) \<Rightarrow> nat \<Rightarrow> nat option" where
  "wait_loop ready ks states t =
     (let states' = updateInsReadyStates (ready t) (ks t) states
      in if areAllInsReady (ks t) states' then Some t else wait_loop ready ks states' (Suc t))"

definition WaitForInsightsToBeReady :: "'i list \<Rightarrow> (nat \<Rightarrow> 'i list) \<Rightarrow> (nat \<Rightarrow> 'i \<Rightarrow> bool) \<Rightarrow> nat option" where
  "WaitForInsightsToBeReady insights ks ready = wait_loop ready ks (genInsReadyStates insights) 0"

text \<open>When \<open>WaitForCtxDone\<close> returns, for a context that is done.\<close>

definition WaitForCtxDone :: "'e ctx_state \<Rightarrow> time option" where
  "WaitForCtxDone c = map_option (\<lambda>(t, cause). t + 3000000000) (ct_done c)"

text \<open>The turns of the goroutine of \<open>StartHeartBeat\<close>: the ticker fires (\<open>True\<close>) until the context is done (\<open>False\<close>).\<close>

fun StartHeartBeat :: "Client \<Rightarrow> bool list \<Rightarrow> http_post option list" where
  "StartHeartBeat c [] = []"
| "StartHeartBeat c (True # ts) = SendInfo c ''heart beat'' # StartHeartBeat c ts"
| "StartHeartBeat c (False # ts) = []"

end
