(* ===== verification/Startup_Correct.thy ===== *)
theory Startup_Correct
  imports Startup
begin

text \<open>
  The start-up wait: it returns in the first turn in which everything is ready.
\<close>

section \<open>Waiting for the insights\<close>

lemma update_states:
  "updateInsReadyStates ready ks states ins = (if ins \<in> set ks then Some (ready ins) else states ins)"
  unfolding updateInsReadyStates_def by (induction ks arbitrary: states) auto

lemma all_ready_turn:
  "areAllInsReady ks (updateInsReadyStates ready ks states) \<longleftrightarrow> (\<forall>ins \<in> set ks. ready ins)"
  by (auto simp: areAllInsReady_def update_states list_all_iff)

definition first_ready :: "(nat \<Rightarrow> 'i \<Rightarrow> bool) \<Rightarrow> (nat \<Rightarrow> 'i list) \<Rightarrow> nat \<Rightarrow> nat \<Rightarrow> bool" where
  "first_ready ready ks t r \<longleftrightarrow>
     t \<le> r \<and> (\<forall>ins \<in> set (ks r). ready r ins) \<and> (\<forall>u. t \<le> u \<and> u < r \<longrightarrow> (\<exists>ins \<in> set (ks u). \<not> ready u ins))"

lemma first_ready_step:
  "first_ready ready ks (Suc t) r \<Longrightarrow> ins \<in> set (ks t) \<Longrightarrow> \<not> ready t ins \<Longrightarrow> first_ready ready ks t r"
  unfolding first_ready_def by (metis Suc_leI Suc_le_lessD le_neq_implies_less less_imp_le)

lemma wait_sound: "wait_loop ready ks states t = Some r \<Longrightarrow> first_ready ready ks t r"
proof (rule wait_loop.raw_induct [where P = "\<lambda>ready ks states t r. first_ready ready ks t r"])
  fix wait :: "(nat \<Rightarrow> 'i \<Rightarrow> bool) \<Rightarrow> (nat \<Rightarrow> 'i list) \<Rightarrow> ('i \<rightharpoonup> bool) \<Rightarrow> nat \<Rightarrow> nat option" and ready ks states t r
  assume ih: "\<And>ready ks states t r. wait ready ks states t = Some r \<Longrightarrow> first_ready ready ks t r"
    and eq: "(let states' = updateInsReadyStates (ready t) (ks t) states
      in if areAllInsReady (ks t) states' then Some t else wait ready ks states' (Suc t)) = Some r"
  show "first_ready ready ks t r"
  proof (cases "areAllInsReady (ks t) (updateInsReadyStates (ready t) (ks t) states)")
    case True
    with eq show ?thesis by (auto simp: all_ready_turn Let_def first_ready_def)
  next
    case False
    with eq ih have "first_ready ready ks (Suc t) r" by (simp add: Let_def)
    with False first_ready_step show ?thesis by (fastforce simp: all_ready_turn)
  qed
qed

lemma wait_returns:
  assumes "t \<le> r" and "\<forall>ins \<in> set (ks r). ready r ins"
  shows "\<exists>r'. wait_loop ready ks states t = Some r'"
  using assms(1)
proof (induction arbitrary: states rule: inc_induct)
  case base
  show ?case using assms(2) by (subst wait_loop.simps) (simp add: all_ready_turn Let_def)
next
  case (step t)
  then show ?case by (subst wait_loop.simps) (simp add: Let_def)
qed

lemma wait_turn_iff:
  "wait_loop ready ks states 0 = Some r \<longleftrightarrow>
     (\<forall>ins \<in> set (ks r). ready r ins) \<and> (\<forall>u < r. \<exists>ins \<in> set (ks u). \<not> ready u ins)"
proof
  assume r: "(\<forall>ins \<in> set (ks r). ready r ins) \<and> (\<forall>u < r. \<exists>ins \<in> set (ks u). \<not> ready u ins)"
  then obtain r' where r': "wait_loop ready ks states 0 = Some r'" using wait_returns [of 0 r ks ready states] by auto
  with wait_sound [OF this] r show "wait_loop ready ks states 0 = Some r"
    by (metis first_ready_def le0 linorder_neqE_nat)
qed (use wait_sound in \<open>fastforce simp: first_ready_def\<close>)

lemma wait_first_turn:
  assumes "\<forall>t. set (ks t) = set insights"
  shows "WaitForInsightsToBeReady insights ks ready = Some r \<longleftrightarrow>
    (\<forall>ins \<in> set insights. ready r ins) \<and> (\<forall>u < r. \<exists>ins \<in> set insights. \<not> ready u ins)"
  using wait_turn_iff [of ready ks _ r] assms by (simp add: WaitForInsightsToBeReady_def)

text \<open>
  C29. The start-up wait returns in the first turn in which every registered insight reports
  that everything is ready, whatever the order in which the turns visit the insights and
  however they report in between; it blocks forever exactly if there is no such turn.
\<close>

theorem wait_returns_in_first_ready_turn:
  assumes "\<forall>t. set (ks t) = set insights"
  shows "(WaitForInsightsToBeReady insights ks ready = Some r \<longleftrightarrow>
      (\<forall>ins \<in> set insights. ready r ins) \<and> (\<forall>u < r. \<exists>ins \<in> set insights. \<not> ready u ins)) \<and>
    (WaitForInsightsToBeReady insights ks ready = None \<longleftrightarrow> (\<forall>u. \<exists>ins \<in> set insights. \<not> ready u ins))"
proof -
  note eq = wait_first_turn [OF assms]
  have "WaitForInsightsToBeReady insights ks ready = None" if "\<forall>u. \<exists>ins \<in> set insights. \<not> ready u ins"
    using that eq by (metis not_Some_eq)
  moreover have "\<forall>u. \<exists>ins \<in> set insights. \<not> ready u ins" if none: "WaitForInsightsToBeReady insights ks ready = None"
  proof (rule ccontr)
    assume "\<not> (\<forall>u. \<exists>ins \<in> set insights. \<not> ready u ins)"
    then obtain u where "\<forall>ins \<in> set (ks u). ready u ins" using assms by auto
    with wait_returns [of 0 u ks ready "genInsReadyStates insights"] none show False
      by (simp add: WaitForInsightsToBeReady_def)
  qed
  ultimately show ?thesis using eq by blast
qed

text \<open>Two exchanges, the second one ready from turn 2 on, the first one in turns 1 and 3.\<close>

theorem wait_returns_in_first_ready_turn_witness:
  "WaitForInsightsToBeReady [''coinex'', ''bybit''] (\<lambda>t. rev [''coinex'', ''bybit''])
     (\<lambda>t ins. if ins = ''coinex'' then t = 1 \<or> t = 3 else 2 \<le> t) = Some 3"
  by (subst wait_returns_in_first_ready_turn [THEN conjunct1]) (simp only: set_rev simp_thms, simp, arith?)

end
