(* ===== verification/Insights_Correct.thy ===== *)
theory Insights_Correct
  imports Startup_Correct Order_Book_Correct
begin

text \<open>
  The insights once they are connected to the topics of a channel group: which objects a
  message can change, for Bybit and for CoinEx.
\<close>

section \<open>What a topic leaves alone\<close>

definition keeps :: "('s \<Rightarrow> bool) \<Rightarrow> ('m, 's) Topic \<Rightarrow> bool" where
  "keeps P t \<longleftrightarrow> (\<forall>ts m s err s'. t_MsgHandler t ts m s = Inr (err, s') \<longrightarrow> P s \<longrightarrow> P s')"

definition h_keeps :: "('s \<Rightarrow> bool) \<Rightarrow> ('data, 's) data_handler \<Rightarrow> bool" where
  "h_keeps P h \<longleftrightarrow> (\<forall>data s s'. h data s = Inr s' \<longrightarrow> P s \<longrightarrow> P s')"

lemma call_handlers_keeps:
  assumes "\<forall>h \<in> set hs. h_keeps P h" and "call_handlers hs data s = Inr (err, s')" and "P s"
  shows "P s'"
proof -
  have "foldM (\<lambda>h. h data) hs s = Inr s'" using assms(2) by (auto simp: call_handlers_def bind_r_def split: sum.splits)
  moreover have "P x'" if "foldM (\<lambda>h. h data) gs x = Inr x'" "\<forall>h \<in> set gs. h_keeps P h" "P x" for gs x x'
    using that
  proof (induction gs arbitrary: x)
    case (Cons h gs)
    then show ?case by (fastforce simp: bind_r_def h_keeps_def split: sum.splits)
  qed simp
  ultimately show ?thesis using assms(1,3) by blast
qed

lemma bb_OrderBookTopic_keeps: "\<forall>h \<in> set (to_dataHandlers t). h_keeps P h \<Longrightarrow> keeps P (bb_OrderBookTopic dec t)"
  using call_handlers_keeps [of "to_dataHandlers t" P]
  by (fastforce simp: keeps_def bb_OrderBookTopic_def topicBase_def bb_orderbook_MsgHandler_def bind_r_def split: sum.splits)

lemma bb_TradeTopic_keeps: "\<forall>h \<in> set (to_dataHandlers t). h_keeps P h \<Longrightarrow> keeps P (bb_TradeTopic dec t)"
  using call_handlers_keeps [of "to_dataHandlers t" P]
  by (fastforce simp: keeps_def bb_TradeTopic_def topicBase_def bb_trade_MsgHandler_def bind_r_def split: sum.splits)

lemma newDedupTopic_keeps: "keeps P t \<Longrightarrow> keeps (\<lambda>sh. P (sh_state sh)) (newDedupTopic t)"
  unfolding keeps_def
  by (auto simp: dedup_MsgHandler_def Let_def bind_r_def split: sum.splits prod.splits if_splits)

lemma group_step_keeps:
  assumes "\<forall>mg \<in> set (gr_topicMgs g). \<forall>t \<in> ran (mg_topicMap mg). keeps (\<lambda>sh. P (sh_state sh)) t"
    and "group_step bb_HandleTopicMessage g ev sh = Inr sh'" and "P (sh_state sh)"
  shows "P (sh_state sh')"
proof (cases ev)
  case (Arrive i now ts m)
  show ?thesis
  proof (cases "i < length (gr_topicMgs g)")
    case True
    then have "\<forall>t \<in> ran (mg_topicMap (gr_topicMgs g ! i)). keeps (\<lambda>sh. P (sh_state sh)) t" using assms(1) nth_mem by blast
    with True Arrive assms(2,3) show ?thesis
      by (fastforce simp: group_step_def bb_HandleTopicMessage_def bind_r_def keeps_def ran_def
          split: sum.splits if_splits option.splits)
  qed (use Arrive assms(2,3) in \<open>simp add: group_step_def\<close>)
qed (use assms(2,3) in \<open>auto simp: group_step_def\<close>)

lemma group_run_keeps:
  assumes "\<forall>mg \<in> set (gr_topicMgs g). \<forall>t \<in> ran (mg_topicMap mg). keeps (\<lambda>sh. P (sh_state sh)) t"
    and "foldM (group_step bb_HandleTopicMessage g) evs sh = Inr sh'" and "P (sh_state sh)"
  shows "P (sh_state sh')"
  using assms(2,3)
proof (induction evs arbitrary: sh)
  case (Cons ev evs)
  then show ?case using group_step_keeps [OF assms(1)] by (auto simp: bind_r_def split: sum.splits)
qed simp

lemma fold_topics_Some:
  "fold put_topic ts m n = Some t \<Longrightarrow> t \<in> set ts \<and> t_TopicName t = n \<or> n \<notin> t_TopicName ` set ts \<and> m n = Some t"
proof (induction ts arbitrary: m)
  case (Cons x ts)
  from Cons.IH [of "put_topic x m"] Cons.prems show ?case by (auto simp: put_topic_def split: if_splits)
qed simp

lemma group_step_Arrive:
  "group_step handle g (Arrive i now ts m) sh =
     (if i < length (gr_topicMgs g)
      then bind_r (handle ts m (gr_topicMgs g ! i) (sh\<lparr>sh_now := now\<rparr>)) (\<lambda>(err, sh'). Inr sh') else Inr sh)"
  by (simp add: group_step_def)

section \<open>Bybit: the topics that InitInsights registers\<close>

definition ob_topic_name :: "'d Symbol \<Rightarrow> int \<Rightarrow> string" where
  "ob_topic_name symbol depth = ''orderbook.'' @ FormatInt depth @ ''.'' @ sym_name symbol"

text \<open>
  The topics of designators: those of \<open>store\<close> update the book of their designator, later ones
  are topics of quotes.
\<close>

definition book_topics_ok ::
  "('d PriceLevel, 't) BTreeOps \<Rightarrow> 'd :: linordered_idom OrderBookDesignator list \<Rightarrow> (nat \<rightharpoonup> ('d OrderBookData, ('d, 't) bb_market, 'd) topic_obj) \<Rightarrow> bool" where
  "book_topics_ok B store m \<longleftrightarrow>
     (\<forall>p t. m p = Some t \<longrightarrow>
       (if p < length store
        then to_name t = ob_topic_name (ds_Symbol (store ! p)) (ds_Depth (store ! p)) \<and>
          (\<forall>h \<in> set (to_dataHandlers t). h = book_handler B (ds_Symbol (store ! p), ds_Depth (store ! p)))
        else \<forall>h \<in> set (to_dataHandlers t). \<exists>symbol. h = quote_adapter symbol))"

lemma add_ob_topic_map:
  "bg_orderBookTopicMap (add_ob_topic p d h m) =
     (bg_orderBookTopicMap m)(p \<mapsto> topic_SetHandler h
       (case bg_orderBookTopicMap m p of Some t \<Rightarrow> t | None \<Rightarrow> bb_NewOrderBookTopic (ds_Symbol d) (ds_Depth d)))"
  by (auto simp: add_ob_topic_def getOrderBookTopic_def Let_def fun_eq_iff split: option.splits)

lemma add_ob_topic_other [simp]:
  "bg_tradeTopicMap (add_ob_topic p d h m) = bg_tradeTopicMap m"
  "bg_publicLinearChGroup (add_ob_topic p d h m) = bg_publicLinearChGroup m"
  by (simp_all add: add_ob_topic_def getOrderBookTopic_def Let_def split: option.splits)

lemma add_book_ok:
  assumes "book_topics_ok B store (bg_orderBookTopicMap m)" and "p < length store"
  shows "book_topics_ok B store (bg_orderBookTopicMap
    (add_ob_topic p (store ! p) (book_handler B (ds_Symbol (store ! p), ds_Depth (store ! p))) m))"
  using assms
  by (auto simp: book_topics_ok_def add_ob_topic_map topic_SetHandler_def bb_NewOrderBookTopic_def ob_topic_name_def split: option.splits)

lemma add_quote_ok:
  assumes "book_topics_ok B store (bg_orderBookTopicMap m)" and "length store \<le> p"
  shows "book_topics_ok B store (bg_orderBookTopicMap (add_ob_topic p d (quote_adapter symbol) m))"
  using assms
  by (auto simp: book_topics_ok_def add_ob_topic_map topic_SetHandler_def bb_NewOrderBookTopic_def split: option.splits)

lemma bb_add_books_ok:
  assumes "bb_add_books B store ps m = Inr m'" and "book_topics_ok B store (bg_orderBookTopicMap m)"
    and "\<forall>p \<ge> length store. bg_orderBookTopicMap m p = None"
  shows "book_topics_ok B store (bg_orderBookTopicMap m') \<and> (\<forall>p \<ge> length store. bg_orderBookTopicMap m' p = None) \<and>
    bg_tradeTopicMap m' = bg_tradeTopicMap m \<and> bg_publicLinearChGroup m' = bg_publicLinearChGroup m"
  using assms
proof (induction ps arbitrary: m)
  case (Cons p ps)
  then have p: "p < length store" by (auto simp: bb_add_books_def deref_def split: if_splits)
  let ?m = "add_ob_topic p (store ! p) (book_handler B (ds_Symbol (store ! p), ds_Depth (store ! p))) m"
  have "bb_add_books B store ps ?m = Inr m'" using Cons.prems(1) p by (simp add: bb_add_books_def deref_def)
  moreover have "\<forall>q \<ge> length store. bg_orderBookTopicMap ?m q = None" using Cons.prems(3) p by (simp add: add_ob_topic_map)
  ultimately show ?case using Cons.IH [of ?m] add_book_ok [OF Cons.prems(2) p] by simp
qed (simp add: bb_add_books_def)

lemma bb_add_quote_apply:
  "bb_add_quote s (st, l, q, m) =
     (st @ [\<lparr>ds_Symbol = s, ds_Depth = LinearOBDepth1\<rparr>], l @ [length st], q(s \<mapsto> NewQuote s),
      add_ob_topic (length st) \<lparr>ds_Symbol = s, ds_Depth = LinearOBDepth1\<rparr> (quote_adapter s) m)"
  by (simp add: bb_add_quote_def Let_def)

lemma bb_add_quotes_ok:
  assumes "fold bb_add_quote qs (st, l, q, m) = (st', l', q', m')" and "book_topics_ok B store (bg_orderBookTopicMap m)"
    and "length store \<le> length st" and "\<forall>p \<ge> length st. bg_orderBookTopicMap m p = None"
  shows "book_topics_ok B store (bg_orderBookTopicMap m') \<and> l' = l @ [length st ..< length st + length qs] \<and>
    (\<forall>p < length st. bg_orderBookTopicMap m' p = bg_orderBookTopicMap m p) \<and>
    (\<forall>i < length qs. \<exists>t. bg_orderBookTopicMap m' (length st + i) = Some t \<and> to_name t = ob_topic_name (qs ! i) 1) \<and>
    bg_tradeTopicMap m' = bg_tradeTopicMap m \<and> bg_publicLinearChGroup m' = bg_publicLinearChGroup m"
  using assms
proof (induction qs arbitrary: st l q m)
  case (Cons s qs)
  let ?d = "\<lparr>ds_Symbol = s, ds_Depth = LinearOBDepth1\<rparr>"
  let ?m = "add_ob_topic (length st) ?d (quote_adapter s) m"
  have run: "fold bb_add_quote qs (st @ [?d], l @ [length st], q(s \<mapsto> NewQuote s), ?m) = (st', l', q', m')"
    using Cons.prems(1) by (simp add: bb_add_quote_apply)
  have free: "\<forall>p \<ge> length (st @ [?d]). bg_orderBookTopicMap ?m p = None" using Cons.prems(4) by (simp add: add_ob_topic_map)
  note ih = Cons.IH [OF run add_quote_ok [OF Cons.prems(2,3)] _ free]
  have here: "\<exists>t. bg_orderBookTopicMap ?m (length st) = Some t \<and> to_name t = ob_topic_name s 1"
    using Cons.prems(4) by (simp add: add_ob_topic_map topic_SetHandler_def bb_NewOrderBookTopic_def ob_topic_name_def LinearOBDepth1_def)
  have "\<exists>t. bg_orderBookTopicMap m' (length st + i) = Some t \<and> to_name t = ob_topic_name ((s # qs) ! i) 1" if "i < length (s # qs)" for i
    using ih here that Cons.prems(3) by (cases i) auto
  moreover have "bg_orderBookTopicMap m' p = bg_orderBookTopicMap m p" if "p < length st" for p
    using ih that Cons.prems(3) by (simp add: add_ob_topic_map)
  moreover have "l' = l @ [length st ..< length st + length (s # qs)]"
    using ih Cons.prems(3) by (simp add: upt_conv_Cons del: upt_Suc)
  ultimately show ?case using ih Cons.prems(3) by simp
qed simp

definition trade_topics_ok :: "('d Symbol \<rightharpoonup> ('d TradeData list, ('k, 'd, 't) market_data, 'd) topic_obj) \<Rightarrow> bool" where
  "trade_topics_ok m \<longleftrightarrow> (\<forall>t \<in> ran m. \<forall>h \<in> set (to_dataHandlers t). \<exists>symbol. h = trade_handler symbol)"

lemma add_trade_topic_map:
  "bg_tradeTopicMap (add_trade_topic s m) =
     (bg_tradeTopicMap m)(s \<mapsto> topic_SetHandler (trade_handler s)
       (case bg_tradeTopicMap m s of Some t \<Rightarrow> t | None \<Rightarrow> bb_NewTradeTopic s))"
  "bg_orderBookTopicMap (add_trade_topic s m) = bg_orderBookTopicMap m"
  "bg_publicLinearChGroup (add_trade_topic s m) = bg_publicLinearChGroup m"
  by (auto simp: add_trade_topic_def getTradeTopic_def Let_def fun_eq_iff split: option.splits)

lemma fold_add_trade_topic:
  "trade_topics_ok (bg_tradeTopicMap m) \<Longrightarrow>
     trade_topics_ok (bg_tradeTopicMap (fold add_trade_topic ss m)) \<and>
     bg_orderBookTopicMap (fold add_trade_topic ss m) = bg_orderBookTopicMap m \<and>
     bg_publicLinearChGroup (fold add_trade_topic ss m) = bg_publicLinearChGroup m"
proof (induction ss arbitrary: m)
  case (Cons s ss)
  have "trade_topics_ok (bg_tradeTopicMap (add_trade_topic s m))"
    using Cons.prems
    by (auto simp: trade_topics_ok_def add_trade_topic_map ran_def topic_SetHandler_def bb_NewTradeTopic_def split: option.splits if_splits) blast
  from Cons.IH [OF this] show ?case by (simp add: add_trade_topic_map(2,3))
qed simp

lemma bb_orderBooks_new:
  assumes "bb_orderBooks B store ps = Inr m" and "p \<in> set ps"
  shows "p < length store \<and> m (ds_Symbol (store ! p), ds_Depth (store ! p)) = Some (NewOrderBook B (ds_Symbol (store ! p)))"
proof -
  define step where "step p m = bind_r (deref store p) (\<lambda>d. Inr (m((ds_Symbol d, ds_Depth d) \<mapsto> NewOrderBook B (ds_Symbol d))))"
    for p and m :: "'a Symbol \<times> int \<rightharpoonup> ('a, 'b) OrderBookImpl"
  have keep: "m' k = Some (NewOrderBook B (fst k))" if "foldM step qs m0 = Inr m'" "m0 k = Some (NewOrderBook B (fst k))" for qs m0 m' k
    using that
  proof (induction qs arbitrary: m0)
    case (Cons q qs)
    then obtain m1 where m1: "step q m0 = Inr m1" "foldM step qs m1 = Inr m'" by (cases "step q m0") auto
    with Cons.prems(2) have "m1 k = Some (NewOrderBook B (fst k))" by (auto simp: step_def deref_def split: if_splits)
    with Cons.IH m1(2) show ?case by blast
  qed simp
  have "p < length store \<and> m' (ds_Symbol (store ! p), ds_Depth (store ! p)) = Some (NewOrderBook B (ds_Symbol (store ! p)))"
    if "foldM step qs m0 = Inr m'" "p \<in> set qs" for qs m0 m'
    using that
  proof (induction qs arbitrary: m0)
    case (Cons q qs)
    from Cons.prems(1) obtain m1 where m1: "step q m0 = Inr m1" "foldM step qs m1 = Inr m'" by (cases "step q m0") auto
    then have q: "q < length store" "m1 = m0((ds_Symbol (store ! q), ds_Depth (store ! q)) \<mapsto> NewOrderBook B (ds_Symbol (store ! q)))"
      by (auto simp: step_def deref_def split: if_splits)
    show ?case
    proof (cases "p = q")
      case True
      with q keep [OF m1(2), of "(ds_Symbol (store ! q), ds_Depth (store ! q))"] show ?thesis by simp
    next
      case False
      with Cons.IH [OF m1(2)] Cons.prems(2) show ?thesis by simp
    qed
  qed simp
  with assms show ?thesis unfolding bb_orderBooks_def step_def by blast
qed

lemma topics_at_in: "t \<in> set (topics_at mk m ks) \<longleftrightarrow> (\<exists>k \<in> set ks. \<exists>o'. m k = Some o' \<and> t = mk o')"
  by (force simp: topics_at_def split: option.splits)

lemma topics_at_append: "topics_at mk m (ks @ ks') = topics_at mk m ks @ topics_at mk m ks'"
  by (simp add: topics_at_def)

lemma bb_OrderBookTopic_name [simp]: "t_TopicName (bb_OrderBookTopic dec t) = to_name t"
  by (simp add: bb_OrderBookTopic_def topicBase_def)

text \<open>The handlers that do not touch the book of \<open>k\<close>.\<close>

lemma handlers_keep_book:
  "h_keeps (\<lambda>s. mk_books s k = b) (trade_handler symbol)"
  "h_keeps (\<lambda>s. mk_books s k = b) (quote_adapter symbol)"
  "k' \<noteq> k \<Longrightarrow> h_keeps (\<lambda>s. mk_books s k = b) (book_handler B k')"
  by (auto simp: h_keeps_def trade_handler_def quote_adapter_def quote_handler_def book_handler_def split: sum.splits)

text \<open>The group that the initialisation of Bybit leaves.\<close>

lemma bb_init_group:
  assumes "bb_InitGatewayManager cred n (Some e) = Inr (gm0, e')"
    and "bb_InitInsights B dec rng now store ts ps qs (Some gm0) = Inr (gm, ins)"
    and "bg_publicLinearChGroup gm = Some g"
  shows "\<exists>otm ttm ks. g = group_SetTopics (topics_at (bb_OrderBookTopic dec) otm (ps @ [length store ..< length store + length qs]))
        (group_SetTopics (topics_at (bb_TradeTopic dec) ttm ks) (NewPublicChannelGroup n defaultDedupTTL)) \<and>
      book_topics_ok B store otm \<and> trade_topics_ok ttm \<and>
      (\<forall>i < length qs. \<exists>t. otm (length store + i) = Some t \<and> to_name t = ob_topic_name (qs ! i) 1)"
proof -
  have gm0: "bg_orderBookTopicMap gm0 = Map.empty" "bg_tradeTopicMap gm0 = Map.empty"
    "bg_publicLinearChGroup gm0 = Some (NewPublicChannelGroup n defaultDedupTTL)"
    using assms(1) by (auto simp: bb_InitGatewayManager_def Let_def)
  let ?ks = "rng ts"
  let ?m1 = "fold add_trade_topic ?ks gm0"
  have m1: "trade_topics_ok (bg_tradeTopicMap ?m1)" "bg_orderBookTopicMap ?m1 = Map.empty"
    "bg_publicLinearChGroup ?m1 = bg_publicLinearChGroup gm0"
    using fold_add_trade_topic [of gm0 ?ks] gm0 by (simp_all add: trade_topics_ok_def)
  obtain m2 where m2: "bb_add_books B store ps ?m1 = Inr m2"
    using assms(2) by (auto simp: bb_InitInsights_def Let_def bind_r_def split: sum.splits)
  have ok2: "book_topics_ok B store (bg_orderBookTopicMap m2)" "\<forall>p \<ge> length store. bg_orderBookTopicMap m2 p = None"
    "bg_tradeTopicMap m2 = bg_tradeTopicMap ?m1" "bg_publicLinearChGroup m2 = bg_publicLinearChGroup ?m1"
    using bb_add_books_ok [OF m2] m1(2) by (simp_all add: book_topics_ok_def)
  obtain st' l' q' m3 where m3: "fold bb_add_quote qs (store, ps, Map.empty, m2) = (st', l', q', m3)"
    by (metis prod_cases4)
  note ok3 = bb_add_quotes_ok [OF m3 ok2(1) order_refl ok2(2)]
  have "g = group_SetTopics (topics_at (bb_OrderBookTopic dec) (bg_orderBookTopicMap m3) l')
      (group_SetTopics (topics_at (bb_TradeTopic dec) (bg_tradeTopicMap m3) ?ks) (NewPublicChannelGroup n defaultDedupTTL))"
    using assms(2,3) m2 m3 ok3 ok2 m1 gm0(3) by (auto simp: bb_InitInsights_def Let_def bind_r_def split: sum.splits)
  with ok3 ok2(3) m1(1) show ?thesis by metis
qed

text \<open>
  No topic of the group changes the book of depth 1 of a symbol that has a quote: the topic of
  the book is replaced by that of the quote, which has the same name.
\<close>

lemma hidden_book_kept:
  fixes B :: "('d :: linordered_idom PriceLevel, 't) BTreeOps"
  assumes "g = group_SetTopics (topics_at (bb_OrderBookTopic dec) otm (ps @ qps))
      (group_SetTopics (topics_at (bb_TradeTopic dec) ttm ks) (NewPublicChannelGroup n ttl))"
    and "book_topics_ok B store otm" and "trade_topics_ok ttm" and "\<forall>p \<in> set qps. length store \<le> p"
    and "q \<in> set qps" and "otm q = Some tq" and "to_name tq = ob_topic_name s 1"
    and "mg \<in> set (gr_topicMgs g)" and "t \<in> ran (mg_topicMap mg)"
  shows "keeps (\<lambda>sh. mk_books (sh_state sh) (s, 1) = b) t"
proof -
  let ?A = "topics_at (bb_OrderBookTopic dec) otm ps" and ?Q = "topics_at (bb_OrderBookTopic dec) otm qps"
    and ?T = "topics_at (bb_TradeTopic dec) ttm ks" and ?P = "\<lambda>m. mk_books m (s, 1) = b"
  have mg: "mg = SetTopics (map newDedupTopic (?A @ ?Q)) (SetTopics (map newDedupTopic ?T) NewManager)"
    using assms(1,8) by (auto simp: group_SetTopics_def NewPublicChannelGroup_def NewChannelGroup_def Let_def topics_at_append)
  have quotes: "keeps ?P x" if "x \<in> set ?Q" for x
    using that assms(2,4) bb_OrderBookTopic_keeps handlers_keep_book(2)
    by (fastforce simp: topics_at_in book_topics_ok_def)
  have trades: "keeps ?P x" if "x \<in> set ?T" for x
    using that assms(3) bb_TradeTopic_keeps handlers_keep_book(1)
    by (fastforce simp: topics_at_in trade_topics_ok_def ran_def)
  have books: "keeps ?P x" if x: "x \<in> set ?A" "t_TopicName x \<noteq> ob_topic_name s 1" for x
  proof -
    obtain p o' where o': "otm p = Some o'" "x = bb_OrderBookTopic dec o'" using x(1) by (auto simp: topics_at_in)
    have "h_keeps ?P h" if "h \<in> set (to_dataHandlers o')" for h
      using o' x(2) assms(2) that handlers_keep_book(2) handlers_keep_book(3) [of "(ds_Symbol (store ! p), ds_Depth (store ! p))" "(s, 1)" b B]
      by (fastforce simp: book_topics_ok_def split: if_splits)
    then show ?thesis using o'(2) bb_OrderBookTopic_keeps by blast
  qed
  obtain k where "mg_topicMap mg k = Some t" using assms(9) by (auto simp: ran_def)
  then have fin: "fold put_topic (map newDedupTopic ?Q) (fold put_topic (map newDedupTopic ?A)
      (fold put_topic (map newDedupTopic ?T) Map.empty)) k = Some t"
    by (simp add: mg SetTopics_def NewManager_def)
  have inQ: "ob_topic_name s 1 \<in> t_TopicName ` set ?Q" using assms(5-7) by (force simp: topics_at_in)
  have "\<exists>x. t = newDedupTopic x \<and> keeps ?P x"
  proof (cases "\<exists>x \<in> set ?Q. t = newDedupTopic x")
    case True
    with quotes show ?thesis by blast
  next
    case False
    with fold_topics_Some [OF fin] have k: "k \<notin> t_TopicName ` set ?Q" and
      fin2: "fold put_topic (map newDedupTopic ?A) (fold put_topic (map newDedupTopic ?T) Map.empty) k = Some t"
      by (auto simp: image_image)
    from k inQ have "k \<noteq> ob_topic_name s 1" by blast
    with fold_topics_Some [OF fin2] fold_topics_Some [of "map newDedupTopic ?T" Map.empty k t] books trades
    show ?thesis by fastforce
  qed
  then show ?thesis using newDedupTopic_keeps [where P = ?P] by blast
qed

text \<open>
  C30. A Bybit symbol with both a quote and an order book of depth 1 blocks the start: the
  quote registers its own topic under the name of the book's, so no message ever reaches the
  book, whatever the channels deliver, and the start-up wait never returns.
\<close>

theorem bybit_quote_starves_depth1_book:
  assumes "bb_InitGatewayManager cred n (Some e) = Inr (gm0, e')"
    and "bb_InitInsights B dec rng now store tradeSymbols obDesignators quoteSymbols (Some gm0) = Inr (gm, ins)"
    and "bg_publicLinearChGroup gm = Some g"
    and "p \<in> set obDesignators" and "store ! p = \<lparr>ds_Symbol = s, ds_Depth = LinearOBDepth1\<rparr>" and "s \<in> set quoteSymbols"
    and "\<forall>t. foldM (group_step bb_HandleTopicMessage g) (evs t) (group_begin g T0 ins) = Inr (sh t)"
    and "set bs = dom (mk_books ins)" and "\<forall>t. set (ks t) = set insights" and "i \<in> set insights"
    and "\<forall>t. ready t i = bb_IsEverythingReady bs qs (sh_state (sh t))"
  shows "(\<forall>t. mk_books (sh_state (sh t)) (s, 1) = Some (NewOrderBook B s)) \<and>
    WaitForInsightsToBeReady insights ks ready = None"
proof -
  obtain otm ttm tks where g: "g = group_SetTopics (topics_at (bb_OrderBookTopic dec) otm (obDesignators @ [length store ..< length store + length quoteSymbols]))
        (group_SetTopics (topics_at (bb_TradeTopic dec) ttm tks) (NewPublicChannelGroup n defaultDedupTTL))"
      "book_topics_ok B store otm" "trade_topics_ok ttm"
      "\<forall>j < length quoteSymbols. \<exists>t. otm (length store + j) = Some t \<and> to_name t = ob_topic_name (quoteSymbols ! j) 1"
    using bb_init_group [OF assms(1-3)] by blast
  obtain j where "j < length quoteSymbols" "quoteSymbols ! j = s" using assms(6) by (auto simp: in_set_conv_nth)
  with g(4) obtain tq where tq: "otm (length store + j) = Some tq" "to_name tq = ob_topic_name s 1"
    "length store + j \<in> set [length store ..< length store + length quoteSymbols]" by auto
  have keep: "\<forall>mg \<in> set (gr_topicMgs g). \<forall>t \<in> ran (mg_topicMap mg).
      keeps (\<lambda>sh. mk_books (sh_state sh) (s, 1) = Some (NewOrderBook B s)) t"
    using hidden_book_kept [OF g(1-3) _ tq(3,1,2), where b = "Some (NewOrderBook B s)"] by auto
  obtain books where b: "bb_orderBooks B store obDesignators = Inr books" "mk_books ins = books"
    using assms(2) by (auto simp: bb_InitInsights_def Let_def bind_r_def split: sum.splits prod.splits)
  with bb_orderBooks_new [OF b(1) assms(4)] assms(5) have new: "mk_books ins (s, 1) = Some (NewOrderBook B s)"
    by (simp add: LinearOBDepth1_def)
  then have book: "mk_books (sh_state (sh t)) (s, 1) = Some (NewOrderBook B s)" for t
    using group_run_keeps [OF keep, of "evs t" "group_begin g T0 ins"] assms(7) by (simp add: group_begin_def)
  have "(s, 1) \<in> set bs" using new assms(8) by auto
  moreover have "\<not> ob_IsReady (NewOrderBook B s)" by (simp add: ob_IsReady_def NewOrderBook_def)
  ultimately have "\<not> all_ready ob_IsReady (mk_books (sh_state (sh t))) bs" for t
    using book [of t] by (auto simp: all_ready_def list_all_iff intro!: bexI [of _ "(s, 1)"])
  then have "\<not> ready t i" for t using assms(11) by (simp add: bb_IsEverythingReady_def)
  then have "wait_loop ready ks states 0 \<noteq> Some r" for states r using wait_turn_iff [of ready ks states r] assms(9,10) by blast
  then have "wait_loop ready ks states 0 = None" for states by (metis not_Some_eq)
  then show ?thesis using book by (simp add: WaitForInsightsToBeReady_def)
qed

text \<open>Bitcoin with a book of depth 1 and a quote, and a message of that depth.\<close>

type_synonym demo_tree = "(rat PriceLevel \<Rightarrow> rat PriceLevel \<Rightarrow> bool) \<times> rat PriceLevel list"

definition demo_btc :: "rat Symbol" where
  "demo_btc = demo_market ''BTCUSDT''"

definition demo_store :: "rat OrderBookDesignator list" where
  "demo_store = [\<lparr>ds_Symbol = demo_btc, ds_Depth = 1\<rparr>]"

definition demo_gm :: "(rat, demo_tree, unit) bb_gm" where
  "demo_gm = fst (projr (bb_InitGatewayManager None 2 (Some (newExporter [] True :: unit Exporter))))"

definition demo_bybit :: "((rat, demo_tree, unit) bb_gm \<times> (rat, demo_tree) bb_market) result" where
  "demo_bybit = bb_InitInsights list_btree demo_dec (\<lambda>keys. keys) 0 demo_store [] [0] [demo_btc] (Some demo_gm)"

definition demo_group :: "(raw, (rat, demo_tree) bb_market) ChannelGroup" where
  "demo_group = the (bg_publicLinearChGroup (fst (projr demo_bybit)))"

definition demo_depth1 :: raw where
  "demo_depth1 = Some (JObj [(''topic'', JStr ''orderbook.1.BTCUSDT''), (''type'', JStr ''snapshot''), (''ts'', JNum ''1700''),
     (''data'', JObj [(''b'', JArr [JArr [JStr ''5'', JStr ''1'']]), (''a'', JArr [JArr [JStr ''6'', JStr ''2'']]), (''u'', JNum ''7'')])])"

definition demo_depth1_data :: "rat OrderBookData" where
  "demo_depth1_data = \<lparr>bd_Type = DataTypeSnapshot, bd_ExecAt = UnixMilli 1700, bd_ArrivedAt = 5,
     bd_Bids = [\<lparr>pl_SeqID = 7, pl_Price = 5, pl_Volume = 1\<rparr>], bd_Asks = [\<lparr>pl_SeqID = 7, pl_Price = 6, pl_Volume = 2\<rparr>], bd_SeqID = 7\<rparr>"

lemma demo_gm_eq:
  "bb_InitGatewayManager None 2 (Some (newExporter [] True :: unit Exporter)) =
     Inr (demo_gm, SetLatencyMeasurer (NewLatencyMeasurer aggInterval) (newExporter [] True))"
  by (simp add: demo_gm_def bb_InitGatewayManager_def Let_def)

lemma demo_bybit_eq:
  "\<exists>gm ins. demo_bybit = Inr (gm, ins) \<and> bg_publicLinearChGroup gm = Some demo_group \<and> mk_books ins = [(demo_btc, 1) \<mapsto> NewOrderBook list_btree demo_btc]"
proof -
  have r: "\<not> isl demo_bybit" "bg_publicLinearChGroup (fst (projr demo_bybit)) \<noteq> None" by code_simp+
  then obtain gm ins where eq: "demo_bybit = Inr (gm, ins)" by (metis isl_def old.sum.exhaust surj_pair)
  have "mk_books (snd (projr demo_bybit)) = [(demo_btc, 1) \<mapsto> NewOrderBook list_btree demo_btc]"
    by (simp add: demo_bybit_def bb_InitInsights_def Let_def bb_orderBooks_def bb_add_books_def demo_store_def deref_def bb_add_quote_apply)
  moreover have "projr demo_bybit = (gm, ins)" unfolding eq by simp
  ultimately show ?thesis using r(2) eq by (auto simp: demo_group_def intro!: exI [of _ gm] exI [of _ ins])
qed

lemma demo_group_run:
  "\<exists>sh. foldM (group_step bb_HandleTopicMessage demo_group) [Arrive 0 5 5 demo_depth1] (group_begin demo_group 0 ins) = Inr sh"
proof -
  let ?T = "bb_OrderBookTopic demo_dec (topic_SetHandler (quote_adapter demo_btc) (bb_NewOrderBookTopic demo_btc 1))"
  have one: "FormatInt 1 = ''1''" by code_simp
  have n: "to_name (topic_SetHandler h (bb_NewOrderBookTopic demo_btc 1)) = ''orderbook.1.BTCUSDT''" for h
    by (simp add: topic_SetHandler_def bb_NewOrderBookTopic_def demo_btc_def one)
  have top: "0 < length (gr_topicMgs demo_group)"
    "mg_topicMap (gr_topicMgs demo_group ! 0) ''orderbook.1.BTCUSDT'' = Some (newDedupTopic ?T)"
    by (simp_all add: demo_group_def demo_bybit_def bb_InitInsights_def Let_def bb_orderBooks_def bb_add_books_def demo_store_def
        deref_def bb_add_quote_apply topics_at_def demo_gm_def bb_InitGatewayManager_def add_ob_topic_map group_SetTopics_def
        NewPublicChannelGroup_def NewChannelGroup_def SetTopics_def put_topic_def n LinearOBDepth1_def)
  have name: "bb_getTopicName demo_depth1 = Inr ''orderbook.1.BTCUSDT''" by code_simp
  obtain dto where dto: "Unmarshal bb_OrderBookMsgDto_dec bb_OrderBookMsgDto_zero demo_depth1 = Inr dto"
    "bb_TranslateOrderBook demo_dec 5 dto = Inr (Inr demo_depth1_data)"
  proof -
    have "\<not> isl (Unmarshal bb_OrderBookMsgDto_dec bb_OrderBookMsgDto_zero demo_depth1)"
      "bb_TranslateOrderBook demo_dec 5 (projr (Unmarshal bb_OrderBookMsgDto_dec bb_OrderBookMsgDto_zero demo_depth1)) = Inr (Inr demo_depth1_data)"
      by code_simp+
    then show ?thesis using that by (cases "Unmarshal bb_OrderBookMsgDto_dec bb_OrderBookMsgDto_zero demo_depth1") auto
  qed
  have "\<exists>r. t_MsgHandler ?T 5 demo_depth1 s = Inr r" for s
    using dto by (simp add: bb_OrderBookTopic_def topicBase_def bb_orderbook_MsgHandler_def topic_SetHandler_def bb_NewOrderBookTopic_def
        call_handlers_def quote_adapter_def quote_handler_def demo_depth1_data_def bb_Convert_def)
  then have total: "\<exists>err s'. t_MsgHandler ?T 5 demo_depth1 s = Inr (err, s')" for s by (metis surj_pair)
  have "\<exists>err sh'. dedup_MsgHandler ?T 5 demo_depth1 sh = Inr (err, sh')" for sh
    using total [of "sh_state sh"] by (auto simp: dedup_MsgHandler_def Let_def split: prod.splits)
  then obtain err sh' where "dedup_MsgHandler ?T 5 demo_depth1 ((group_begin demo_group 0 ins)\<lparr>sh_now := 5\<rparr>) = Inr (err, sh')" by blast
  with top name show ?thesis by (simp add: group_step_Arrive bb_HandleTopicMessage_def)
qed

theorem bybit_quote_starves_depth1_book_witness:
  "\<exists>gm ins g sh. demo_bybit = Inr (gm, ins) \<and> bg_publicLinearChGroup gm = Some g \<and>
     foldM (group_step bb_HandleTopicMessage g) [Arrive 0 5 5 demo_depth1] (group_begin g 0 ins) = Inr sh \<and>
     WaitForInsightsToBeReady [''bybit''] (\<lambda>t. [''bybit'']) (\<lambda>t i. bb_IsEverythingReady [(demo_btc, 1)] [demo_btc] (sh_state sh)) = None"
proof -
  obtain gm ins where gm: "demo_bybit = Inr (gm, ins)" "bg_publicLinearChGroup gm = Some demo_group"
    "mk_books ins = [(demo_btc, 1) \<mapsto> NewOrderBook list_btree demo_btc]" using demo_bybit_eq by blast
  obtain sh where sh: "foldM (group_step bb_HandleTopicMessage demo_group) [Arrive 0 5 5 demo_depth1] (group_begin demo_group 0 ins) = Inr sh"
    using demo_group_run by blast
  have "WaitForInsightsToBeReady [''bybit''] (\<lambda>t. [''bybit'']) (\<lambda>t i. bb_IsEverythingReady [(demo_btc, 1)] [demo_btc] (sh_state sh)) = None"
    using bybit_quote_starves_depth1_book [OF demo_gm_eq gm(1) [unfolded demo_bybit_def] gm(2), of 0 demo_btc "\<lambda>t. [Arrive 0 5 5 demo_depth1]" 0
        "\<lambda>t. sh" "[(demo_btc, 1)]" "\<lambda>t. [''bybit'']" "[''bybit'']" "''bybit''" _ "[demo_btc]"] gm(3) sh
    by (simp add: demo_store_def LinearOBDepth1_def)
  with gm sh show ?thesis by blast
qed

end
