(* ===== verification/Feed_Correct.thy ===== *)
theory Feed_Correct
  imports Insights_Correct
begin

text \<open>
  From the wire to the objects a strategy reads: the order books of CoinEx behind a group of
  redundant channels, and the dealers of Bybit behind the private channel.
\<close>

section \<open>CoinEx: the topics that InitInsights registers\<close>

lemma group_SetTopics_twice: "group_SetTopics us (group_SetTopics ts g) = group_SetTopics (ts @ us) g"
  by (simp add: group_SetTopics_def SetTopics_def Let_def)

definition cx_topics ::
  "('d PriceLevel, 't) BTreeOps \<Rightarrow> (string \<Rightarrow> error + 'd :: linordered_idom) \<Rightarrow> 'd Symbol list \<Rightarrow> 'd Symbol list \<Rightarrow> 'd Symbol list \<Rightarrow>
   (raw, ('d, 't) cx_market) Topic list" where
  "cx_topics B dec ts bs qs = cx_tradeTopics dec ts @ cx_obTopics B dec bs @ cx_quoteTopics dec qs"

lemma cx_obTopics_eq: "cx_obTopics B dec ks = map (\<lambda>symbol. book_topic dec symbol (book_handler B symbol)) ks"
  by (simp add: cx_obTopics_def book_topic_def)

lemma cx_topic_names:
  "map t_TopicName (cx_tradeTopics dec ks) = map (\<lambda>s. ''trade@'' @ sym_name s) ks"
  "map t_TopicName (cx_quoteTopics dec ks) = map (\<lambda>s. ''bookTicker@'' @ sym_name s) ks"
  "map t_TopicName (cx_obTopics B dec ks) = map (\<lambda>s. ''orderBook@'' @ sym_name s) ks"
  by (simp_all add: cx_tradeTopics_def cx_quoteTopics_def cx_obTopics_eq cx_TradeTopic_def cx_BookTickerTopic_def
      topic_SetHandler_def cx_NewTradeTopic_def cx_NewBookTickerTopic_def)

lemma names_distinct: "distinct ks \<Longrightarrow> inj_on sym_name (set ks) \<Longrightarrow> distinct (map (\<lambda>s. pre @ sym_name s) ks)"
  by (auto simp: distinct_map inj_on_def)

lemma cx_topics_names:
  "map t_TopicName (cx_topics B dec ts bs qs) =
     map (\<lambda>s. ''trade@'' @ sym_name s) ts @ map (\<lambda>s. ''orderBook@'' @ sym_name s) bs @ map (\<lambda>s. ''bookTicker@'' @ sym_name s) qs"
  by (simp only: cx_topics_def map_append cx_topic_names)

lemma cx_topics_distinct:
  assumes "distinct ts" "distinct bs" "distinct qs"
    and "inj_on sym_name (set ts)" "inj_on sym_name (set bs)" "inj_on sym_name (set qs)"
  shows "distinct (map t_TopicName (cx_topics B dec ts bs qs))" "[] \<notin> t_TopicName ` set (cx_topics B dec ts bs qs)"
proof -
  let ?t = "map (\<lambda>s. ''trade@'' @ sym_name s) ts" and ?b = "map (\<lambda>s. ''orderBook@'' @ sym_name s) bs"
    and ?q = "map (\<lambda>s. ''bookTicker@'' @ sym_name s) qs"
  have "set ?t \<inter> (set ?b \<union> set ?q) = {}" "set ?b \<inter> set ?q = {}" by auto
  moreover have "distinct ?t" "distinct ?b" "distinct ?q" by (rule names_distinct, fact+)+
  ultimately show "distinct (map t_TopicName (cx_topics B dec ts bs qs))"
    unfolding cx_topics_names distinct_append set_append by blast
  have "[] \<notin> set (map t_TopicName (cx_topics B dec ts bs qs))" unfolding cx_topics_names by auto
  then show "[] \<notin> t_TopicName ` set (cx_topics B dec ts bs qs)" by simp
qed

lemma find_append: "find P (xs @ ys) = (case find P xs of None \<Rightarrow> find P ys | Some x \<Rightarrow> Some x)"
  by (induction xs) auto

lemma cx_book_topic_found:
  fixes B :: "('d :: linordered_idom PriceLevel, 't) BTreeOps"
  assumes "inj_on sym_name (set bs)" and "s \<in> set bs"
  shows "find (\<lambda>t. t_TopicName t = ''orderBook@'' @ sym_name s) (cx_topics B dec ts bs qs) = Some (book_topic dec s (book_handler B s))"
proof -
  let ?P = "\<lambda>t :: (raw, ('d, 't) cx_market) Topic. t_TopicName t = ''orderBook@'' @ sym_name s"
  have "find ?P (cx_tradeTopics dec ts) = None"
    by (auto simp: find_None_iff cx_tradeTopics_def cx_TradeTopic_def topic_SetHandler_def cx_NewTradeTopic_def)
  moreover have "find ?P (cx_obTopics B dec xs) = Some (book_topic dec s (book_handler B s))" if "s \<in> set xs" "set xs \<subseteq> set bs" for xs
    using that
  proof (induction xs)
    case (Cons x xs)
    then show ?case using inj_onD [OF assms(1), of x s] assms(2) by (auto simp: cx_obTopics_eq)
  qed simp
  ultimately show ?thesis using assms(2) by (simp add: cx_topics_def find_append)
qed

section \<open>CoinEx: a feed of books\<close>

text \<open>One update of a book, and the channel and the time it arrives on.\<close>

record 'd depth_update =
  du_chan :: nat
  du_at :: time
  du_symbol :: "'d Symbol"
  du_updated :: int
  du_asks :: "string list list"
  du_bids :: "string list list"

definition du_event :: "'d depth_update \<Rightarrow> raw group_event" where
  "du_event u = Arrive (du_chan u) (du_at u) (du_at u) (depth_msg (sym_name (du_symbol u)) (du_updated u) (du_asks u) (du_bids u))"

text \<open>What the update is translated to; \<open>None\<close> when a number cannot be read.\<close>

definition du_data :: "(string \<Rightarrow> error + 'd) \<Rightarrow> 'd depth_update \<Rightarrow> 'd OrderBookData option" where
  "du_data dec u =
     (case cx_TranslateOrderBook dec (du_at u) \<lparr>cm_Symbol = sym_name (du_symbol u), cm_IsSnapshot = True, cm_UpdatedAt = du_updated u,
         cm_Bids = du_bids u, cm_Asks = du_asks u\<rparr> of
        Inr (Inr data) \<Rightarrow> Some data
      | _ \<Rightarrow> None)"

text \<open>The updates whose time stamp has not been seen before, on any channel and for any symbol.\<close>

fun first_updates :: "int set \<Rightarrow> 'd depth_update list \<Rightarrow> 'd depth_update list" where
  "first_updates seen [] = []"
| "first_updates seen (u # us) =
     (if du_updated u \<in> seen then first_updates seen us else u # first_updates (insert (du_updated u) seen) us)"

definition datas_of :: "(string \<Rightarrow> error + 'd) \<Rightarrow> 'd depth_update list \<Rightarrow> 'd Symbol \<Rightarrow> 'd OrderBookData list" where
  "datas_of dec us s = map (\<lambda>u. the (du_data dec u)) (filter (\<lambda>u. du_symbol u = s) us)"

lemma first_updates_subset: "set (first_updates seen us) \<subseteq> set us"
  by (induction us arbitrary: seen) auto

lemma first_copies_updates:
  assumes "\<forall>u \<in> set us. 0 < du_updated u \<and> du_updated u < 2 ^ 63 \<and>
      mid (depth_msg (sym_name (du_symbol u)) (du_updated u) (du_asks u) (du_bids u)) = ''ob:'' @ FormatInt (du_updated u)"
    and "\<forall>x \<in> seen. 0 < x \<and> x < 2 ^ 63"
  shows "first_copies mid ((\<lambda>x. ''ob:'' @ FormatInt x) ` seen) (map du_event us) =
     map (\<lambda>u. (du_at u, depth_msg (sym_name (du_symbol u)) (du_updated u) (du_asks u) (du_bids u))) (first_updates seen us)"
  using assms
proof (induction us arbitrary: seen)
  case (Cons u us)
  have mem: "''ob:'' @ FormatInt (du_updated u) \<in> (\<lambda>x. ''ob:'' @ FormatInt x) ` seen \<longleftrightarrow> du_updated u \<in> seen"
  proof
    assume "''ob:'' @ FormatInt (du_updated u) \<in> (\<lambda>x. ''ob:'' @ FormatInt x) ` seen"
    then obtain x where x: "x \<in> seen" "FormatInt (du_updated u) = FormatInt x" by auto
    moreover have "0 < x \<and> x < 2 ^ 63" "0 < du_updated u \<and> du_updated u < 2 ^ 63" using Cons.prems x(1) by auto
    ultimately show "du_updated u \<in> seen" using FormatInt_inj [of "du_updated u" x] by simp
  qed blast
  have ins: "insert (''ob:'' @ FormatInt (du_updated u)) ((\<lambda>x. ''ob:'' @ FormatInt x) ` seen) =
      (\<lambda>x. ''ob:'' @ FormatInt x) ` insert (du_updated u) seen" by simp
  have m: "mid (depth_msg (sym_name (du_symbol u)) (du_updated u) (du_asks u) (du_bids u)) = ''ob:'' @ FormatInt (du_updated u)"
    using Cons.prems(1) by simp
  show ?case
  proof (cases "du_updated u \<in> seen")
    case True
    with Cons m mem show ?thesis by (simp add: du_event_def)
  next
    case False
    with Cons.IH [of "insert (du_updated u) seen"] Cons.prems m mem ins show ?thesis by (simp add: du_event_def)
  qed
qed simp

lemma du_handled:
  assumes "inj_on sym_name (set bs)" and "du_symbol u \<in> set bs" and "0 < du_updated u" and "du_updated u < 2 ^ 63"
    and "du_data dec u = Some data" and "distinct (map t_TopicName (cx_topics B dec ts bs qs))"
  shows "handle_plain cx_HandleTopicMessage (SetTopics (cx_topics B dec ts bs qs) NewManager)
      (du_at u, depth_msg (sym_name (du_symbol u)) (du_updated u) (du_asks u) (du_bids u)) m =
     Inr (m\<lparr>mk_books := alter (du_symbol u) (UpdateByOBData B data) (mk_books m)\<rparr>)"
proof -
  have tr: "cx_TranslateOrderBook dec (du_at u) \<lparr>cm_Symbol = sym_name (du_symbol u), cm_IsSnapshot = True, cm_UpdatedAt = du_updated u,
         cm_Bids = du_bids u, cm_Asks = du_asks u\<rparr> = Inr (Inr data)"
    using assms(5) by (auto simp: du_data_def split: sum.splits)
  show ?thesis
    using cx_book_topic_found [OF assms(1,2), of B dec ts qs] assms(3,4,6) tr
    by (simp add: handle_plain_def cx_HandleTopicMessage_def depth_msg_name SetTopics_lookup cx_orderbook_MsgHandler_def
        depth_msg_dto call_handlers_def book_handler_def)
qed

lemma feed_handled:
  assumes "inj_on sym_name (set bs)" and "distinct (map t_TopicName (cx_topics B dec ts bs qs))"
    and "\<forall>u \<in> set us. du_symbol u \<in> set bs \<and> 0 < du_updated u \<and> du_updated u < 2 ^ 63 \<and> du_data dec u \<noteq> None"
  shows "foldM (handle_plain cx_HandleTopicMessage (SetTopics (cx_topics B dec ts bs qs) NewManager))
      (map (\<lambda>u. (du_at u, depth_msg (sym_name (du_symbol u)) (du_updated u) (du_asks u) (du_bids u))) us) m =
     Inr (m\<lparr>mk_books := \<lambda>s. map_option (fold (UpdateByOBData B) (datas_of dec us s)) (mk_books m s)\<rparr>)"
  using assms(3)
proof (induction us arbitrary: m)
  case Nil
  show ?case by (simp add: datas_of_def option.map_ident)
next
  case (Cons u us)
  then obtain data where data: "du_data dec u = Some data" by auto
  let ?m = "m\<lparr>mk_books := alter (du_symbol u) (UpdateByOBData B data) (mk_books m)\<rparr>"
  have "map_option (fold (UpdateByOBData B) (datas_of dec us s)) (mk_books ?m s) =
      map_option (fold (UpdateByOBData B) (datas_of dec (u # us) s)) (mk_books m s)" for s
    using data by (simp add: datas_of_def option.map_comp comp_def)
  with Cons.IH [of ?m] Cons.prems du_handled [OF assms(1) _ _ _ data assms(2), of m] show ?case by simp
qed

text \<open>A book is ready after its second update.\<close>

lemma book_ready_iff: "ob_IsReady (fold (UpdateByOBData B) ds (NewOrderBook B s)) \<longleftrightarrow> 2 \<le> length ds"
proof (cases ds rule: rev_cases)
  case Nil
  then show ?thesis by (simp add: ob_IsReady_def NewOrderBook_def)
next
  case (snoc ds' d)
  then show ?thesis
  proof (cases ds' rule: rev_cases)
    case Nil
    with snoc show ?thesis
      by (simp add: ob_IsReady_def UpdateByOBData_before UpdateByOBData_current) (simp add: NewOrderBook_def)
  next
    case (snoc ds'' d')
    with \<open>ds = ds' @ [d]\<close> show ?thesis by (simp add: ob_IsReady_def UpdateByOBData_before UpdateByOBData_current)
  qed
qed

lemma new_map_apply: "new_map mk ks k = (if k \<in> set ks then Some (mk k) else None)"
proof -
  have "fold (\<lambda>k m. m(k \<mapsto> mk k)) ks m k = (if k \<in> set ks then Some (mk k) else m k)" for m
    by (induction ks arbitrary: m) auto
  then show ?thesis by (simp add: new_map_def)
qed

text \<open>The order in which a loop visits a map with the keys \<open>ks\<close>.\<close>

definition visits :: "('k list \<Rightarrow> 'k list) \<Rightarrow> bool" where
  "visits rng \<longleftrightarrow> (\<forall>ks. distinct (rng ks) \<and> set (rng ks) = set ks)"

lemma coinex_feed:
  assumes "cx_InitGatewayManager cred n (Some e) = Inr (gm0, e')"
    and "cx_InitInsights B dec rng now tradeSymbols obSymbols quoteSymbols (Some gm0) = Inr (gm, ins)"
    and "cg_publicChGroup gm = Some g" and "visits rng"
    and "inj_on sym_name (set tradeSymbols)" and "inj_on sym_name (set obSymbols)" and "inj_on sym_name (set quoteSymbols)"
    and "\<forall>u \<in> set us. in_window (nat n) T0 defaultDedupTTL (du_event u) \<and> du_symbol u \<in> set obSymbols \<and>
      0 < du_updated u \<and> du_updated u < 2 ^ 63 \<and> du_data dec u \<noteq> None"
  shows "\<exists>sh. foldM (group_step cx_HandleTopicMessage g) (map du_event us) (group_begin g T0 ins) = Inr sh \<and>
    mk_trades (sh_state sh) = mk_trades ins \<and> mk_quotes (sh_state sh) = mk_quotes ins \<and>
    (\<forall>s \<in> set obSymbols.
       let datas = datas_of dec (first_updates {} us) s; book = fold (UpdateByOBData B) datas (NewOrderBook B s)
       in GetOrderBook (sh_state sh) s = Some book \<and> (ob_IsReady book \<longleftrightarrow> 2 \<le> length datas))"
proof -
  have dist: "distinct (rng xs)" "set (rng xs) = set xs" for xs using assms(4) by (simp_all add: visits_def)
  let ?ts = "cx_topics B dec (rng tradeSymbols) (rng obSymbols) (rng quoteSymbols)"
  have g: "g = group_SetTopics ?ts (NewChannelGroup (nat n) defaultDedupTTL)" and
    books: "mk_books ins = new_map (NewOrderBook B) obSymbols"
    using assms(1-3)
    by (auto simp: cx_InitGatewayManager_def cx_InitInsights_def Let_def group_SetTopics_twice cx_topics_def NewPublicChannelGroup_def)
  have inj: "inj_on sym_name (set (rng obSymbols))" using assms(6) dist(2) by simp
  have names: "distinct (map t_TopicName ?ts)" "[] \<notin> t_TopicName ` set ?ts"
    using cx_topics_distinct [OF dist(1) dist(1) dist(1)] assms(5-7) dist(2) by simp_all
  let ?m = "ins\<lparr>mk_books := \<lambda>s. map_option (fold (UpdateByOBData B) (datas_of dec (first_updates {} us) s)) (mk_books ins s)\<rparr>"
  have "run_group cx_HandleTopicMessage ?ts (nat n) defaultDedupTTL T0 (map du_event us) ins = Inr ?m"
  proof -
    have id: "routed_id cx_getTopicName ?ts (depth_msg (sym_name (du_symbol u)) (du_updated u) (du_asks u) (du_bids u)) =
        ''ob:'' @ FormatInt (du_updated u)" if u: "u \<in> set us" for u
    proof -
      have "0 < du_updated u" "du_updated u < 2 ^ 63" "du_symbol u \<in> set (rng obSymbols)" using u assms(8) dist(2) by auto
      then show ?thesis
        using cx_book_topic_found [OF inj, of "du_symbol u" B dec "rng tradeSymbols" "rng quoteSymbols"]
        by (simp add: routed_id_def depth_msg_name depth_msg_id)
    qed
    have "run_group cx_HandleTopicMessage ?ts (nat n) defaultDedupTTL T0 (map du_event us) ins =
        foldM (handle_plain cx_HandleTopicMessage (SetTopics ?ts NewManager))
          (first_copies (routed_id cx_getTopicName ?ts) {} (map du_event us)) ins"
      using assms(8) by (intro cx_group_run [OF names]) auto
    also have "first_copies (routed_id cx_getTopicName ?ts) {} (map du_event us) =
        map (\<lambda>u. (du_at u, depth_msg (sym_name (du_symbol u)) (du_updated u) (du_asks u) (du_bids u))) (first_updates {} us)"
      using first_copies_updates [of us "routed_id cx_getTopicName ?ts" "{}"] id assms(8) by simp
    also have "foldM (handle_plain cx_HandleTopicMessage (SetTopics ?ts NewManager)) \<dots> ins = Inr ?m"
      using feed_handled [OF inj names(1), of "first_updates {} us" ins] first_updates_subset [of "{}" us] assms(8) dist(2) by blast
    finally show ?thesis .
  qed
  then obtain sh where "foldM (group_step cx_HandleTopicMessage g) (map du_event us) (group_begin g T0 ins) = Inr sh" "sh_state sh = ?m"
    by (auto simp: run_group_def g [symmetric] Let_def bind_r_def split: sum.splits)
  then show ?thesis
    by (auto simp: books new_map_apply GetOrderBook_def Let_def book_ready_iff intro!: exI [of _ sh])
qed


text \<open>Two markets on two channels: Bitcoin updated twice, its first update on both channels, Ether once.\<close>

definition demo_update :: "nat \<Rightarrow> time \<Rightarrow> string \<Rightarrow> int \<Rightarrow> rat depth_update" where
  "demo_update i now market u =
     \<lparr>du_chan = i, du_at = now, du_symbol = demo_market market, du_updated = u, du_asks = [[''7'', ''1'']], du_bids = [[''6'', ''2'']]\<rparr>"

definition demo_feed :: "rat depth_update list" where
  "demo_feed = [demo_update 0 5 ''BTCUSDT'' 1700, demo_update 1 6 ''BTCUSDT'' 1700, demo_update 1 7 ''ETHUSDT'' 1701,
     demo_update 0 8 ''BTCUSDT'' 1702]"

definition demo_markets :: "rat Symbol list" where
  "demo_markets = [demo_market ''BTCUSDT'', demo_market ''ETHUSDT'']"

definition demo_cx_gm :: "((rat, demo_tree) cx_market, unit) cx_GatewayManager" where
  "demo_cx_gm = fst (projr (cx_InitGatewayManager None 2 (Some (newExporter [] True :: unit Exporter))))"

lemma demo_cx_gm_eq:
  "cx_InitGatewayManager None 2 (Some (newExporter [] True :: unit Exporter)) =
     Inr (demo_cx_gm, SetLatencyMeasurer (NewLatencyMeasurer aggInterval) (newExporter [] True))"
  by (simp add: demo_cx_gm_def cx_InitGatewayManager_def)

lemma demo_market_eq [simp]: "demo_market a = demo_market b \<longleftrightarrow> a = b"
  by (metis demo_market_name)

lemma visits_remdups: "visits remdups"
  by (simp add: visits_def)

lemma demo_feed_ok:
  "\<forall>u \<in> set demo_feed. in_window (nat 2) 0 defaultDedupTTL (du_event u) \<and> du_symbol u \<in> set demo_markets \<and>
     0 < du_updated u \<and> du_updated u < 2 ^ 63 \<and> du_data demo_dec u \<noteq> None"
proof -
  have "\<forall>u \<in> set demo_feed. du_data demo_dec u \<noteq> None" by code_simp
  moreover have "\<forall>u \<in> set demo_feed. in_window (nat 2) 0 defaultDedupTTL (du_event u)"
    by (simp add: demo_feed_def demo_update_def du_event_def defaultDedupTTL_def Time_Sub_def maxDuration_def minDuration_def)
  moreover have "\<forall>u \<in> set demo_feed. du_symbol u \<in> set demo_markets \<and> 0 < du_updated u \<and> du_updated u < 2 ^ 63"
    by (simp add: demo_feed_def demo_update_def demo_markets_def)
  ultimately show ?thesis by blast
qed


section \<open>Bybit: orders reach their dealers\<close>

lemma fold_SetHandlers:
  "distinct ks \<Longrightarrow> \<forall>k \<in> set ks. m k = None \<Longrightarrow>
     fold (\<lambda>s. bb_SetHandlers s (f s)) ks m k = (if k \<in> set ks then Some [f k] else m k)"
proof (induction ks arbitrary: m)
  case (Cons x ks)
  then have "fold (\<lambda>s. bb_SetHandlers s (f s)) ks (m(x \<mapsto> [f x])) k = (if k \<in> set ks then Some [f k] else (m(x \<mapsto> [f x])) k)"
    by (intro Cons.IH) auto
  moreover have "bb_SetHandlers x (f x) m = m(x \<mapsto> [f x])" using Cons.prems(2) by (simp add: bb_SetHandlers_def)
  ultimately show ?case using Cons.prems(1) by auto
qed simp

lemma dispatch_alter:
  assumes "enumerates (rng m) m" and "\<forall>k. hm k = (if k \<in> S then Some [\<lambda>datas s. Inr (alter k (f datas) s)] else None)"
    and "dom dealers = S"
  shows "dispatch_groups rng hm m dealers = Inr (\<lambda>k. case m k of Some datas \<Rightarrow> map_option (f datas) (dealers k) | None \<Rightarrow> dealers k)"
proof -
  have "foldM (\<lambda>k s. case (m k, hm k) of
         (Some datas, Some handlers) \<Rightarrow> foldM (\<lambda>h. h datas) handlers s
       | _ \<Rightarrow> Inr s) ks s =
     Inr (\<lambda>k. if k \<in> set ks then (case m k of Some datas \<Rightarrow> map_option (f datas) (s k) | None \<Rightarrow> s k) else s k)"
    if "distinct ks" "dom s = S" for ks s
    using that
  proof (induction ks arbitrary: s)
    case (Cons k ks)
    have "dom (alter k g s) = S" for g using Cons.prems(2) by (auto simp: alter_def split: if_splits)
    with Cons assms(2) show ?case by (fastforce simp: fun_eq_iff split: option.splits)
  qed simp
  with assms(1,3) show ?thesis
    by (auto simp: dispatch_groups_def enumerates_def fun_eq_iff dom_def split: option.splits)
qed

text \<open>The manager that the initialisation of the dealers leaves.\<close>

lemma bb_init_deals:
  assumes "bb_InitGatewayManager (Some cred) n (Some e) = Inr (gm0, e')"
    and "bb_InitDeals dec nf rngo rngp rng ptr now h r instances syms (Some gm0) = Inr (gm, dealers, instances')"
    and "bg_privateTopicMg gm = Some mg" and "visits rng"
  shows "\<exists>hm. mg_topicMap mg ''order'' = Some (bb_OrderTopic dec nf rngo hm) \<and>
    (\<forall>k. hm k = (if k \<in> set syms then Some [order_handler k] else None))"
proof -
  let ?hm = "fold (\<lambda>s. bb_SetHandlers s (order_handler s)) (rng syms) Map.empty"
  let ?pm = "fold (\<lambda>s. bb_SetHandlers s (pos_handler s)) (rng syms) Map.empty"
  have "mg = SetTopics [bb_OrderTopic dec nf rngo ?hm, bb_PositionTopic dec nf rngp ?pm] NewManager"
    using assms(1-3) by (auto simp: bb_InitGatewayManager_def bb_InitDeals_def Let_def split: prod.splits)
  then have "mg_topicMap mg ''order'' = Some (bb_OrderTopic dec nf rngo ?hm)"
    by (simp add: SetTopics_def NewManager_def put_topic_def bb_OrderTopic_def bb_PositionTopic_def topicBase_def)
  moreover have "\<forall>k. ?hm k = (if k \<in> set syms then Some [order_handler k] else None)"
    using fold_SetHandlers [of "rng syms" Map.empty order_handler] assms(4) by (simp add: visits_def)
  ultimately show ?thesis by blast
qed

lemma datas_for_known:
  assumes "\<And>m. dom m \<subseteq> set (symbols nf) \<Longrightarrow> enumerates (rng m) m"
    and "m = (\<lambda>k. if datas_for (\<lambda>d. bb_symbol_of nf (cat d) (sy d)) ds ys k = [] then None
      else Some (datas_for (\<lambda>d. bb_symbol_of nf (cat d) (sy d)) ds ys k))"
  shows "enumerates (rng m) m"
  by (rule assms(1))
    (auto simp: assms(2) dom_def datas_for_def filter_empty_conv bb_symbol_of_def GetSymbol_known split: if_splits)

text \<open>
  C20. Order messages of Bybit reach the dealers. After the initialisation of the dealers of
  \<open>syms\<close>, an order message on the private channel whose entries can be translated is split by
  symbol: every dealer handles exactly the entries of its own symbol, in the order of the
  message, whatever the order in which the groups are visited, and entries of other symbols
  change nothing.
\<close>

theorem bybit_orders_reach_their_dealers:
  assumes "bb_InitGatewayManager (Some cred) n (Some e) = Inr (gm0, e')"
    and "bb_InitDeals dec nf rngo rngp rng ptr now h r instances syms (Some gm0) = Inr (gm, dealers0, instances')"
    and "bg_privateTopicMg gm = Some mg" and "visits rng"
    and "\<And>m. dom m \<subseteq> set (symbols nf) \<Longrightarrow> enumerates (rngo m) m"
    and "bb_getTopicName rawMsg = Inr ''order''"
    and "Unmarshal (bb_private_dec bb_OrderDataDto_zero bb_OrderDataDto_dec) bb_private_zero rawMsg = Inr msg"
    and "pv_Data msg = map Some ds"
    and "list_all2 (\<lambda>d y. bb_TranslateOrderData dec (Some ts) d = Inr y) ds ys" and "dom dealers = set syms"
  shows "bb_HandleTopicMessage ts rawMsg mg dealers =
     Inr (None, \<lambda>k. map_option (HandleOrderData (datas_for (\<lambda>d. bb_symbol_of nf (bx_Category d) (bx_Symbol d)) ds ys k)) (dealers k))"
proof -
  let ?key = "\<lambda>d. bb_symbol_of nf (bx_Category d) (bx_Symbol d)"
  let ?m = "\<lambda>k. if datas_for ?key ds ys k = [] then None else Some (datas_for ?key ds ys k)"
  obtain hm where hm: "mg_topicMap mg ''order'' = Some (bb_OrderTopic dec nf rngo hm)"
    "\<forall>k. hm k = (if k \<in> set syms then Some [\<lambda>datas s. Inr (alter k (HandleOrderData datas) s)] else None)"
    using bb_init_deals [OF assms(1-4)] by (auto simp: order_handler_def [abs_def])
  have nil: "map_option (HandleOrderData []) x = x" for x :: "'a DealerImpl option"
    by (cases x) (simp_all add: HandleOrderData_def)
  have "enumerates (rngo ?m) ?m" by (rule datas_for_known [OF assms(5) refl])
  from dispatch_alter [where rng = rngo and m = ?m and hm = hm and f = HandleOrderData, OF this hm(2) assms(10)] have "dispatch_groups rngo hm ?m dealers =
      Inr (\<lambda>k. map_option (HandleOrderData (datas_for ?key ds ys k)) (dealers k))"
    by (auto simp: fun_eq_iff nil)
  moreover have "group_by_symbol (bb_TranslateOrderData dec (Some ts)) ?key (map Some ds) Map.empty = Inr (Inr ?m)"
    using group_by_symbol_eq [OF assms(9), of ?key Map.empty] by simp
  ultimately show ?thesis
    using hm(1) assms(6-8) by (simp add: bb_HandleTopicMessage_def bb_OrderTopic_def topicBase_def bb_order_MsgHandler_def)
qed

definition demo_order_json :: "string \<Rightarrow> string \<Rightarrow> json" where
  "demo_order_json symbol i =
     JObj [(''category'', JStr ''linear''), (''symbol'', JStr symbol), (''orderLinkId'', JStr i), (''price'', JStr ''5''),
       (''qty'', JStr ''1''), (''cumExecFee'', JStr ''0''), (''cumExecQty'', JStr ''0''), (''updatedTime'', JStr ''1700'')]"

definition demo_order_dto :: "string \<Rightarrow> string \<Rightarrow> bb_OrderDataDto" where
  "demo_order_dto symbol i =
     bb_OrderDataDto_zero\<lparr>bx_Category := ''linear'', bx_Symbol := symbol, bx_OrderLinkID := i, bx_Price := ''5'', bx_Qty := ''1'',
       bx_Fee := ''0'', bx_CumExecQty := ''0'', bx_UpdatedTimeMs := ''1700''\<rparr>"

definition demo_order_data :: "string \<Rightarrow> rat OrderData" where
  "demo_order_data i =
     \<lparr>od_ID = i, od_PublicID = [], od_Side = bb_Side_Translate [], od_Price = 5, od_Qty = 1, od_AvgExecPrice = 0, od_CumFee = 0,
      od_CumExecQty = 0, od_Status = bb_OrderStatus_Translate [], od_ArrivedAt = Some (UnixMilli 1700), od_ConfirmedAt = Some 8\<rparr>"

definition demo_order_msg :: raw where
  "demo_order_msg = Some (JObj [(''topic'', JStr ''order''), (''data'',
     JArr [demo_order_json ''BTCUSDT'' ''o1'', demo_order_json ''ETHUSDT'' ''o2'', demo_order_json ''BTCUSDT'' ''o3''])])"

definition demo_ids :: "(string \<times> string) list" where
  "demo_ids = [(''BTCUSDT'', ''o1''), (''ETHUSDT'', ''o2''), (''BTCUSDT'', ''o3'')]"

lemma demo_orders_decoded:
  "Unmarshal (bb_private_dec bb_OrderDataDto_zero bb_OrderDataDto_dec) bb_private_zero demo_order_msg =
     Inr \<lparr>pv_Topic = ''order'', pv_ID = [], pv_CreationTime = 0, pv_Data = map Some (map (\<lambda>(symbol, i). demo_order_dto symbol i) demo_ids)\<rparr>"
  "bb_getTopicName demo_order_msg = Inr ''order''"
  by code_simp+

lemma demo_orders_translated:
  "list_all2 (\<lambda>d y. bb_TranslateOrderData demo_dec (Some 8) d = Inr y) (map (\<lambda>(symbol, i). demo_order_dto symbol i) demo_ids)
     (map (\<lambda>(symbol, i). demo_order_data i) demo_ids)"
  by code_simp

definition demo_bb_gm :: "(rat, unit, rat dealers) bb_GatewayManager" where
  "demo_bb_gm = fst (projr (bb_InitGatewayManager (Some \<lparr>cr_apiKey = ''k'', cr_secret = ''s''\<rparr>) 2 (Some (newExporter [] True :: unit Exporter))))"

lemma demo_bb_gm_eq:
  "bb_InitGatewayManager (Some \<lparr>cr_apiKey = ''k'', cr_secret = ''s''\<rparr>) 2 (Some (newExporter [] True :: unit Exporter)) =
     Inr (demo_bb_gm, SetLatencyMeasurer (NewLatencyMeasurer aggInterval) (newExporter [] True))"
  by (simp add: demo_bb_gm_def bb_InitGatewayManager_def Let_def)

theorem bybit_orders_reach_their_dealers_witness:
  "\<exists>gm dealers inst mg. bb_InitDeals demo_dec (\<lambda>x. x) demo_rng demo_rng remdups (\<lambda>s. 0) 0 (\<lambda>r. zeroOrder) 0 Map.empty
       [bb_symbol_of (\<lambda>x. x) ''linear'' ''BTCUSDT''] (Some demo_bb_gm) = Inr (gm, dealers, inst) \<and>
     bg_privateTopicMg gm = Some mg \<and>
     bb_HandleTopicMessage 8 demo_order_msg mg dealers =
       Inr (None, [bb_symbol_of (\<lambda>x. x) ''linear'' ''BTCUSDT'' \<mapsto>
         HandleOrderData [demo_order_data ''o1'', demo_order_data ''o3''] (freshDealer 0 (\<lambda>r. zeroOrder) 0)])"
proof -
  let ?btc = "bb_symbol_of (\<lambda>x. x) ''linear'' ''BTCUSDT'' :: rat Symbol" and ?eth = "bb_symbol_of (\<lambda>x. x) ''linear'' ''ETHUSDT'' :: rat Symbol"
  have ne: "?eth \<noteq> ?btc" by code_simp
  have r: "enumerates (demo_rng m) m" if "dom m \<subseteq> set (symbols (\<lambda>x. x))" for m :: "rat Symbol \<rightharpoonup> rat OrderData list"
    using that by (auto simp: enumerates_def demo_rng_def dom_def)
  obtain gm inst mg where init: "bb_InitDeals demo_dec (\<lambda>x. x) demo_rng demo_rng remdups (\<lambda>s. 0) 0 (\<lambda>r. zeroOrder) 0 Map.empty [?btc] (Some demo_bb_gm) =
      Inr (gm, [?btc \<mapsto> freshDealer 0 (\<lambda>r. zeroOrder) 0], inst)" "bg_privateTopicMg gm = Some mg"
    by (simp add: bb_InitDeals_def Let_def demo_bb_gm_def bb_InitGatewayManager_def init_dealers_def NewDealer_def)
  from bybit_orders_reach_their_dealers [OF demo_bb_gm_eq init visits_remdups r demo_orders_decoded(2,1) _ demo_orders_translated,
      of "[?btc \<mapsto> freshDealer 0 (\<lambda>r. zeroOrder) 0]"]
  have "bb_HandleTopicMessage 8 demo_order_msg mg [?btc \<mapsto> freshDealer 0 (\<lambda>r. zeroOrder) 0] =
      Inr (None, [?btc \<mapsto> HandleOrderData [demo_order_data ''o1'', demo_order_data ''o3''] (freshDealer 0 (\<lambda>r. zeroOrder) 0)])"
    using ne by (auto simp: datas_for_def demo_ids_def demo_order_dto_def fun_eq_iff)
  with init show ?thesis by blast
qed

end
