(* ===== verification/Deals_Feed.thy ===== *)
theory Deals_Feed
  imports Feed_Correct
begin

text \<open>
  From the wire to the dealers of CoinEx: the order and position messages of the private channel, as the
  exchange sends them, decoded, translated and handed to the dealer of their market.
\<close>

section \<open>Messages of the private channel\<close>

definition cx_order_msg :: "cx_OrderDataDto \<Rightarrow> raw" where
  "cx_order_msg d =
     Some (JObj [(''method'', JStr ''order.update''), (''data'', JObj
       [(''event'', JStr (cd_Event d)), (''order'', JObj
         [(''order_id'', JNum (FormatInt (cd_OrderID d))), (''market'', JStr (cd_Market d)), (''side'', JStr (cd_Side d)),
          (''type'', JStr (cd_Type d)), (''amount'', JStr (cd_Amount d)), (''price'', JStr (cd_Price d)),
          (''unfilled_amount'', JStr (cd_UnfilledAmount d)), (''filled_amount'', JStr (cd_FilledAmount d)),
          (''filled_value'', JStr (cd_FilledValue d)), (''fee'', JStr (cd_Fee d)), (''fee_ccy'', JStr (cd_FeeCcy d)),
          (''taker_fee_rate'', JStr (cd_TakerFeeRate d)), (''maker_fee_rate'', JStr (cd_MakerFeeRate d)),
          (''client_id'', JStr (cd_ClientID d)), (''last_filled_amount'', JStr (cd_LastFilledAmount d)),
          (''last_filled_price'', JStr (cd_LastFilledPrice d)), (''created_at'', JNum (FormatInt (cd_CreatedAt d))),
          (''updated_at'', JNum (FormatInt (cd_UpdatedAt d)))])]), (''id'', JNull)])"

definition cx_position_msg :: "cx_PositionDataDto \<Rightarrow> raw" where
  "cx_position_msg d =
     Some (JObj [(''method'', JStr ''position.update''), (''data'', JObj
       [(''event'', JStr (cp_Event d)), (''position'', JObj
         [(''market'', JStr (cp_Market d)), (''side'', JStr (cp_Side d)), (''open_interest'', JStr (cp_OpenInterest d)),
          (''created_at'', JNum (FormatInt (cp_CreatedAt d))), (''updated_at'', JNum (FormatInt (cp_UpdatedAt d)))])]),
       (''id'', JNull)])"

lemma dec_int64 [simp]: "int64 n \<Longrightarrow> dec_int (JNum (FormatInt n)) x = Some n"
  by (simp add: int64_def)

text \<open>Decoding gives back what was sent.\<close>

lemma order_msg_dto:
  "int64 (cd_OrderID d) \<Longrightarrow> int64 (cd_CreatedAt d) \<Longrightarrow> int64 (cd_UpdatedAt d) \<Longrightarrow>
     Unmarshal cx_OrderMsgDto_dec None (cx_order_msg d) = Inr (Some d)"
  by (cases d) (simp add: cx_OrderMsgDto_dec_def cx_OrderDataDto_zero_def cx_order_msg_def json_simps dec_ptr_def)

lemma position_msg_dto:
  "int64 (cp_CreatedAt d) \<Longrightarrow> int64 (cp_UpdatedAt d) \<Longrightarrow>
     Unmarshal cx_PositionMsgDto_dec \<lparr>pm_Method = [], pm_Data = None\<rparr> (cx_position_msg d) =
       Inr \<lparr>pm_Method = ''position.update'', pm_Data = Some d\<rparr>"
  by (cases d) (simp add: cx_PositionMsgDto_dec_def cx_PositionDataDto_zero_def cx_position_msg_def json_simps dec_ptr_def)

lemma private_msg_names:
  "cx_getTopicName (cx_order_msg d) = Inr (''personal.order@'' @ cd_Market d)"
  "cx_getTopicName (cx_position_msg p) = Inr (''personal.position@'' @ cp_Market p)"
  by (simp_all add: cx_getTopicName_def cx_header_dec_def cx_header_zero_def cx_order_msg_def cx_position_msg_def json_simps
      chanBT_def chanOB_def chanTrade_def chanOrder_def chanPos_def)

section \<open>The dealers behind the channel\<close>

datatype private_update = OrderUpdate time cx_OrderDataDto | PositionUpdate time cx_PositionDataDto

fun pu_market :: "private_update \<Rightarrow> string" where
  "pu_market (OrderUpdate ts d) = cd_Market d"
| "pu_market (PositionUpdate ts p) = cp_Market p"

fun pu_msg :: "private_update \<Rightarrow> time \<times> raw" where
  "pu_msg (OrderUpdate ts d) = (ts, cx_order_msg d)"
| "pu_msg (PositionUpdate ts p) = (ts, cx_position_msg p)"

fun pu_int64 :: "private_update \<Rightarrow> bool" where
  "pu_int64 (OrderUpdate ts d) \<longleftrightarrow> int64 (cd_OrderID d) \<and> int64 (cd_CreatedAt d) \<and> int64 (cd_UpdatedAt d)"
| "pu_int64 (PositionUpdate ts p) \<longleftrightarrow> int64 (cp_CreatedAt p) \<and> int64 (cp_UpdatedAt p)"

text \<open>What an update does to the dealer of its market; one with a number that cannot be read does nothing.\<close>

fun pu_effect :: "(string \<Rightarrow> error + 'd :: linordered_idom) \<Rightarrow> private_update \<Rightarrow> 'd DealerImpl \<Rightarrow> 'd DealerImpl" where
  "pu_effect dec (OrderUpdate ts d) =
     (case cx_TranslateOrderData dec (Some ts) d of Inr data \<Rightarrow> HandleOrderData [data] | Inl _ \<Rightarrow> (\<lambda>x. x))"
| "pu_effect dec (PositionUpdate ts p) =
     (case cx_TranslatePosition dec p of Inr data \<Rightarrow> HandlePositionData [data] | Inl _ \<Rightarrow> (\<lambda>x. x))"

definition cx_order_topic :: "(string \<Rightarrow> error + 'd) \<Rightarrow> 'd :: linordered_idom Symbol \<Rightarrow> (raw, 'd dealers) Topic" where
  "cx_order_topic dec symbol = cx_OrderTopic dec (topic_SetHandler (order_handler symbol) (cx_NewOrderTopic symbol))"

definition cx_position_topic :: "(string \<Rightarrow> error + 'd) \<Rightarrow> 'd :: linordered_idom Symbol \<Rightarrow> (raw, 'd dealers) Topic" where
  "cx_position_topic dec symbol = cx_PositionTopic dec (topic_SetHandler (pos_handler symbol) (cx_NewPositionTopic symbol))"

lemma private_topic_fields [simp]:
  "t_TopicName (cx_order_topic dec symbol) = ''personal.order@'' @ sym_name symbol"
  "t_TopicName (cx_position_topic dec symbol) = ''personal.position@'' @ sym_name symbol"
  "t_MsgHandler (cx_order_topic dec symbol) = cx_order_MsgHandler dec [order_handler symbol]"
  "t_MsgHandler (cx_position_topic dec symbol) = cx_position_MsgHandler dec [pos_handler symbol]"
  by (simp_all add: cx_order_topic_def cx_position_topic_def cx_OrderTopic_def cx_PositionTopic_def topic_SetHandler_def
      cx_NewOrderTopic_def cx_NewPositionTopic_def)

definition cx_private_topics :: "(string \<Rightarrow> error + 'd) \<Rightarrow> 'd :: linordered_idom Symbol list \<Rightarrow> (raw, 'd dealers) Topic list" where
  "cx_private_topics dec ks = map (cx_order_topic dec) ks @ map (cx_position_topic dec) ks"

lemma cx_init_deals:
  assumes "cx_InitGatewayManager (Some cred) n (Some e) = Inr (gm0, e')"
    and "cx_InitDeals dec rng ptr now h r instances syms (Some gm0) = Inr (gm, dealers0, instances')"
    and "cg_privateTopicMg gm = Some mg"
  shows "mg = SetTopics (cx_private_topics dec (rng syms)) NewManager"
  using assms
  by (auto simp: cx_InitGatewayManager_def cx_InitDeals_def Let_def cx_private_topics_def cx_order_topic_def [abs_def]
      cx_position_topic_def [abs_def] SetTopics_def split: prod.splits)

lemma private_names_distinct:
  assumes "distinct ks" and "inj_on sym_name (set ks)"
  shows "distinct (map t_TopicName (cx_private_topics dec ks))"
proof -
  have "map t_TopicName (cx_private_topics dec ks) = map (\<lambda>s. ''personal.order@'' @ sym_name s) ks @ map (\<lambda>s. ''personal.position@'' @ sym_name s) ks"
    by (simp add: cx_private_topics_def)
  moreover have "set (map (\<lambda>s. ''personal.order@'' @ sym_name s) ks) \<inter> set (map (\<lambda>s. ''personal.position@'' @ sym_name s) ks) = {}" by auto
  ultimately show ?thesis using names_distinct [OF assms, of "''personal.order@''"] names_distinct [OF assms, of "''personal.position@''"] by simp
qed

text \<open>The topic of a name is that of the symbol with the market, if it is registered.\<close>

lemma find_map: "find P (map f xs) = map_option f (find (P \<circ> f) xs)"
  by (induction xs) auto

lemma private_topic_found:
  "find (\<lambda>t. t_TopicName t = ''personal.order@'' @ m) (cx_private_topics dec ks) = map_option (cx_order_topic dec) (find (\<lambda>s. sym_name s = m) ks)"
  "find (\<lambda>t. t_TopicName t = ''personal.position@'' @ m) (cx_private_topics dec ks) = map_option (cx_position_topic dec) (find (\<lambda>s. sym_name s = m) ks)"
proof -
  have "find (\<lambda>x. False) ks = None" by (simp add: find_None_iff)
  then show "find (\<lambda>t. t_TopicName t = ''personal.order@'' @ m) (cx_private_topics dec ks) = map_option (cx_order_topic dec) (find (\<lambda>s. sym_name s = m) ks)"
    "find (\<lambda>t. t_TopicName t = ''personal.position@'' @ m) (cx_private_topics dec ks) = map_option (cx_position_topic dec) (find (\<lambda>s. sym_name s = m) ks)"
    by (auto simp: cx_private_topics_def find_append find_map comp_def split: option.split)
qed

lemma found_market: "find (\<lambda>s. sym_name s = m) ks = Some s \<Longrightarrow> s \<in> set ks \<and> sym_name s = m"
  by (induction ks) (auto split: if_splits)

lemma private_update_handled:
  assumes "distinct ks" and "inj_on sym_name (set ks)" and "pu_int64 u" and "dom dealers = set ks"
  shows "handle_plain cx_HandleTopicMessage (SetTopics (cx_private_topics dec ks) NewManager) (pu_msg u) dealers =
    Inr (\<lambda>k. if sym_name k = pu_market u then map_option (pu_effect dec u) (dealers k) else dealers k)"
proof -
  note names = SetTopics_lookup [OF private_names_distinct [OF assms(1,2)]]
  have out: "dealers k = None" if "find (\<lambda>s. sym_name s = m) ks = None" "sym_name k = m" for k m
    using that assms(4) by (auto simp: find_None_iff)
  have eq: "(\<lambda>k. if sym_name k = m then map_option f (dealers k) else dealers k) = alter s f dealers"
    if "find (\<lambda>s. sym_name s = m) ks = Some s" for m s and f :: "'a DealerImpl \<Rightarrow> 'a DealerImpl"
  proof
    fix k
    note s = found_market [OF that]
    show "(if sym_name k = m then map_option f (dealers k) else dealers k) = alter s f dealers k"
    proof (cases "k \<in> set ks")
      case True
      then have "sym_name k = m \<longleftrightarrow> k = s" using s inj_onD [OF assms(2), of k s] by auto
      then show ?thesis by simp
    next
      case False
      then have "dealers k = None" "k \<noteq> s" using assms(4) s by auto
      then show ?thesis by simp
    qed
  qed
  show ?thesis
  proof (cases "find (\<lambda>s. sym_name s = pu_market u) ks")
    case None
    then have "(\<lambda>k. if sym_name k = pu_market u then map_option (pu_effect dec u) (dealers k) else dealers k) = dealers"
      using out by (auto simp: fun_eq_iff)
    with None show ?thesis
      by (cases u) (simp_all add: handle_plain_def cx_HandleTopicMessage_def private_msg_names names private_topic_found [simplified append_Cons append_Nil])
  next
    case (Some s)
    show ?thesis
    proof (cases u)
      case (OrderUpdate ts d)
      with Some assms(3) show ?thesis unfolding eq [OF Some]
        by (auto simp: handle_plain_def cx_HandleTopicMessage_def private_msg_names names private_topic_found [simplified append_Cons append_Nil] order_msg_dto
            cx_order_MsgHandler_def call_handlers_def order_handler_def option.map_ident alter_def split: sum.split)
    next
      case (PositionUpdate ts p)
      with Some assms(3) show ?thesis unfolding eq [OF Some]
        by (auto simp: handle_plain_def cx_HandleTopicMessage_def private_msg_names names private_topic_found [simplified append_Cons append_Nil] position_msg_dto
            cx_position_MsgHandler_def call_handlers_def pos_handler_def option.map_ident alter_def split: sum.split)
    qed
  qed
qed

lemma private_feed_handled:
  assumes "distinct ks" and "inj_on sym_name (set ks)" and "\<forall>u \<in> set us. pu_int64 u" and "dom dealers = set ks"
  shows "foldM (handle_plain cx_HandleTopicMessage (SetTopics (cx_private_topics dec ks) NewManager)) (map pu_msg us) dealers =
    Inr (\<lambda>k. map_option (fold (pu_effect dec) (filter (\<lambda>u. pu_market u = sym_name k) us)) (dealers k))"
  using assms(3,4)
proof (induction us arbitrary: dealers)
  case (Cons u us)
  let ?d = "\<lambda>k. if sym_name k = pu_market u then map_option (pu_effect dec u) (dealers k) else dealers k"
  have "dom ?d = set ks" using Cons.prems(2) by (auto simp: dom_def split: if_splits)
  with Cons private_update_handled [OF assms(1,2), of u dealers dec] show ?case
    by (auto simp: fun_eq_iff option.map_comp comp_def)
qed (simp add: option.map_id0 [unfolded id_def] option.map_id fun_eq_iff)

text \<open>
  C21. The dealers of CoinEx follow their feed. After the initialisation of the dealers of \<open>syms\<close>, let order and position
  messages arrive on the private channel: every dealer ends as the messages of its own market leave it, in the order of
  their arrival. A message of another market, or one with a number that cannot be read, changes nothing.
\<close>

theorem coinex_dealers_follow_their_feed:
  assumes "cx_InitGatewayManager (Some cred) n (Some e) = Inr (gm0, e')"
    and "cx_InitDeals dec rng ptr now h r instances syms (Some gm0) = Inr (gm, dealers0, instances')"
    and "cg_privateTopicMg gm = Some mg" and "visits rng" and "inj_on sym_name (set syms)"
    and "\<forall>u \<in> set us. pu_int64 u" and "dom dealers = set syms"
  shows "foldM (handle_plain cx_HandleTopicMessage mg) (map pu_msg us) dealers =
    Inr (\<lambda>k. map_option (fold (pu_effect dec) (filter (\<lambda>u. pu_market u = sym_name k) us)) (dealers k))"
  unfolding cx_init_deals [OF assms(1-3)]
  using assms(4-7) by (intro private_feed_handled) (auto simp: visits_def)

text \<open>A dealer of Bitcoin: an order of its market, one of another market, and its position.\<close>

definition demo_private_feed :: "private_update list" where
  "demo_private_feed =
     (let d = cx_OrderDataDto_zero\<lparr>cd_Event := ''put'', cd_OrderID := 7, cd_Market := ''BTCUSDT'', cd_Side := ''buy'', cd_Amount := ''1'',
        cd_Price := ''5'', cd_UnfilledAmount := ''1'', cd_FilledAmount := ''0'', cd_Fee := ''0'', cd_LastFilledAmount := ''0'',
        cd_LastFilledPrice := ''0'', cd_ClientID := ''o1'', cd_UpdatedAt := 1700\<rparr>
      in [OrderUpdate 8 d, OrderUpdate 9 (d\<lparr>cd_Market := ''ETHUSDT'', cd_ClientID := ''o2''\<rparr>),
          PositionUpdate 10 (cx_PositionDataDto_zero\<lparr>cp_Market := ''BTCUSDT'', cp_Side := ''long'', cp_OpenInterest := ''1'', cp_UpdatedAt := 1701\<rparr>)])"

definition demo_private_gm :: "(unit, rat dealers) cx_GatewayManager" where
  "demo_private_gm = fst (projr (cx_InitGatewayManager (Some \<lparr>cr_apiKey = ''k'', cr_secret = ''s''\<rparr>) 2 (Some (newExporter [] True :: unit Exporter))))"

lemma demo_private_gm_eq:
  "cx_InitGatewayManager (Some \<lparr>cr_apiKey = ''k'', cr_secret = ''s''\<rparr>) 2 (Some (newExporter [] True :: unit Exporter)) =
     Inr (demo_private_gm, SetLatencyMeasurer (NewLatencyMeasurer aggInterval) (newExporter [] True))"
  by (simp add: demo_private_gm_def cx_InitGatewayManager_def Let_def)

theorem coinex_dealers_follow_their_feed_witness:
  "\<exists>gm dealers inst mg. cx_InitDeals demo_dec remdups (\<lambda>s. 0) 0 (\<lambda>r. zeroOrder) 0 Map.empty [demo_market ''BTCUSDT''] (Some demo_private_gm) =
       Inr (gm, dealers, inst) \<and> cg_privateTopicMg gm = Some mg \<and>
     foldM (handle_plain cx_HandleTopicMessage mg) (map pu_msg demo_private_feed) dealers =
       Inr [demo_market ''BTCUSDT'' \<mapsto>
         pu_effect demo_dec (demo_private_feed ! 2) (pu_effect demo_dec (demo_private_feed ! 0) (freshDealer 0 (\<lambda>r. zeroOrder) 0))]"
proof -
  let ?btc = "demo_market ''BTCUSDT''" and ?d = "freshDealer 0 (\<lambda>r. zeroOrder) 0 :: rat DealerImpl"
  obtain gm inst mg where init: "cx_InitDeals demo_dec remdups (\<lambda>s. 0) 0 (\<lambda>r. zeroOrder) 0 Map.empty [?btc] (Some demo_private_gm) =
      Inr (gm, [?btc \<mapsto> ?d], inst)" "cg_privateTopicMg gm = Some mg"
    by (simp add: cx_InitDeals_def Let_def demo_private_gm_def cx_InitGatewayManager_def init_dealers_def NewDealer_def)
  have ok: "\<forall>u \<in> set demo_private_feed. pu_int64 u"
    by (simp add: demo_private_feed_def Let_def int64_def cx_OrderDataDto_zero_def cx_PositionDataDto_zero_def)
  have own: "filter (\<lambda>u. pu_market u = sym_name ?btc) demo_private_feed = [demo_private_feed ! 0, demo_private_feed ! 2]"
    by (simp add: demo_private_feed_def Let_def cx_OrderDataDto_zero_def cx_PositionDataDto_zero_def demo_market_name)
  from coinex_dealers_follow_their_feed [OF demo_private_gm_eq init visits_remdups _ ok, of "[?btc \<mapsto> ?d]"]
  have "foldM (handle_plain cx_HandleTopicMessage mg) (map pu_msg demo_private_feed) [?btc \<mapsto> ?d] =
      Inr (\<lambda>k. map_option (fold (pu_effect demo_dec) (filter (\<lambda>u. pu_market u = sym_name k) demo_private_feed)) ([?btc \<mapsto> ?d] k))"
    by simp
  also have "(\<lambda>k. map_option (fold (pu_effect demo_dec) (filter (\<lambda>u. pu_market u = sym_name k) demo_private_feed)) ([?btc \<mapsto> ?d] k)) =
      [?btc \<mapsto> pu_effect demo_dec (demo_private_feed ! 2) (pu_effect demo_dec (demo_private_feed ! 0) ?d)]"
    using own by (auto simp: fun_eq_iff)
  finally show ?thesis using init by blast
qed

end
