(* ===== verification/Serialize.thy ===== *)
theory Serialize
  imports Goroutines
begin

text \<open>
  Goroutines that change a shared state only while they hold one and the same mutex from beginning to
  end, together with goroutines that only read. Whatever the interleaving, once all have returned the
  state is the one the updates leave when they run one after the other in some order.
\<close>

section \<open>Updates and readers\<close>

text \<open>A program that only accesses the state.\<close>

primrec lock_free :: "('s, 'l, 'v) prog \<Rightarrow> bool" where
  "lock_free (Return v) = True"
| "lock_free (Act f k) = (\<forall>s. lock_free (k s))"
| "lock_free (Lock l p) = False"
| "lock_free (Unlock l p) = False"

primrec read_only :: "('s, 'l, 'v) prog \<Rightarrow> bool" where
  "read_only (Return v) = True"
| "read_only (Act f k) = ((\<forall>s. f s = Inr s) \<and> (\<forall>s. read_only (k s)))"
| "read_only (Lock l p) = False"
| "read_only (Unlock l p) = False"

text \<open>\<open>mu.Lock(); defer mu.Unlock(); body\<close>.\<close>

definition guarded :: "'l \<Rightarrow> ('s, 'l, unit) prog \<Rightarrow> ('s, 'l, unit) prog" where
  "guarded l p = Lock l (bind_p p (\<lambda>_. Unlock l (Return ())))"

text \<open>What is left of a guarded body that has its mutex.\<close>

primrec in_section :: "'l \<Rightarrow> ('s, 'l, unit) prog \<Rightarrow> bool" where
  "in_section l (Return v) = False"
| "in_section l (Act f k) = (\<forall>s. in_section l (k s))"
| "in_section l (Lock l' p) = False"
| "in_section l (Unlock l' p) = (l' = l \<and> p = Return ())"

lemma in_section_body: "lock_free p \<Longrightarrow> in_section l (bind_p p (\<lambda>_. Unlock l (Return ())))"
  by (induction p) auto

lemma lock_free_upd [simp]: "lock_free (upd_p f)"
  by (simp add: upd_p_def)

lemma lock_free_read [simp]: "lock_free (read_p g)" "read_only (read_p g)"
  by (simp_all add: read_p_def)

lemma lock_free_bind: "lock_free p \<Longrightarrow> (\<And>v. lock_free (g v)) \<Longrightarrow> lock_free (bind_p p g)"
  by (induction p) auto

lemma read_only_bind: "read_only p \<Longrightarrow> (\<And>v. read_only (g v)) \<Longrightarrow> read_only (bind_p p g)"
  by (induction p) auto

lemma lock_free_then [simp]: "lock_free p \<Longrightarrow> lock_free q \<Longrightarrow> lock_free (then_p p q)"
  by (simp add: then_p_def lock_free_bind)

lemma lock_free_acts [simp]: "lock_free (acts fs)"
  by (induction fs) simp_all

lemma lock_free_for [simp]: "(\<And>x. lock_free (body x)) \<Longrightarrow> lock_free (for_p body xs)"
  by (induction xs) simp_all

lemma lock_free_locks: "lock_free p \<Longrightarrow> (\<And>v. Q v H) \<Longrightarrow> locks m p H Q"
  by (induction p) auto

lemma locks_guarded: "lock_free p \<Longrightarrow> locks m (guarded l p) {} nothing_held"
  by (simp add: guarded_def lock_free_locks nothing_held_def)

section \<open>Some order of the updates\<close>

text \<open>The updates \<open>us\<close> one after the other.\<close>

definition serial :: "('s, 'l, unit) prog list \<Rightarrow> nat list \<Rightarrow> 's \<Rightarrow> 's result" where
  "serial ps us s = foldM (\<lambda>i s. bind_r (alone (ps ! i) s) (\<lambda>(_, s'). Inr s')) us s"

lemma foldM_append: "foldM f (xs @ ys) s = bind_r (foldM f xs s) (foldM f ys)"
proof (induction xs arbitrary: s)
  case (Cons x xs)
  then show ?case by (cases "f x s") simp_all
qed simp

lemma serial_snoc: "serial ps (us @ [i]) s = bind_r (serial ps us s) (\<lambda>s. bind_r (alone (ps ! i) s) (\<lambda>(_, s'). Inr s'))"
  by (simp add: serial_def foldM_append bind_r_assoc bind_r_def split: sum.split)

lemma alone_guarded: "alone (guarded l p) s = alone p s"
  by (simp add: guarded_def) (cases "alone p s", auto)

text \<open>
  The updates are \<open>map (guarded l) us\<close>, the readers \<open>rs\<close>. \<open>fin\<close> are the updates that have returned,
  in the order in which they had the mutex.
\<close>

definition serial_inv ::
  "'l \<Rightarrow> ('s, 'l, unit) prog list \<Rightarrow> 's \<Rightarrow> nat list \<Rightarrow> ('s, 'l) pool \<Rightarrow> bool" where
  "serial_inv l us s0 fin P \<longleftrightarrow>
     distinct fin \<and> set fin \<subseteq> {..<length us} \<and> length us \<le> length (p_threads P) \<and>
     (\<forall>i \<in> set fin. p_threads P ! i = Return ()) \<and>
     (\<forall>i < length us. i \<notin> set fin \<and> p_owner P l \<noteq> Some i \<longrightarrow> p_threads P ! i = guarded l (us ! i)) \<and>
     (\<forall>i < length (p_threads P). length us \<le> i \<longrightarrow> read_only (p_threads P ! i)) \<and>
     (\<forall>l'. l' \<noteq> l \<longrightarrow> p_owner P l' = None) \<and>
     (case p_owner P l of
        None \<Rightarrow> serial us fin s0 = Inr (p_state P)
      | Some i \<Rightarrow> i < length us \<and> i \<notin> set fin \<and> in_section l (p_threads P ! i) \<and>
          (\<exists>s. serial us fin s0 = Inr s \<and> alone (p_threads P ! i) (p_state P) = alone (us ! i) s))"

lemma serial_invD:
  assumes "serial_inv l us s0 fin P"
  shows "i \<in> set fin \<Longrightarrow> p_threads P ! i = Return ()"
    and "i < length us \<Longrightarrow> i \<notin> set fin \<Longrightarrow> p_owner P l \<noteq> Some i \<Longrightarrow> p_threads P ! i = guarded l (us ! i)"
    and "i < length (p_threads P) \<Longrightarrow> length us \<le> i \<Longrightarrow> read_only (p_threads P ! i)"
    and "p_owner P l = Some i \<Longrightarrow> i < length us \<and> i \<notin> set fin \<and> in_section l (p_threads P ! i)"
  using assms by (auto simp: serial_inv_def)

text \<open>A reader runs.\<close>

lemma serial_step_reader:
  assumes "serial_inv l us s0 fin P" and "tstep i P = Some (Inr P')" and "length us \<le> i"
  shows "serial_inv l us s0 fin P'"
proof -
  have i: "i < length (p_threads P)" using assms(2) by (auto simp: tstep_def split: if_splits)
  from serial_invD(3) [OF assms(1) i assms(3)] assms(2) i obtain f k where k: "p_threads P ! i = Act f k"
    "P' = P\<lparr>p_threads := (p_threads P)[i := k (p_state P)]\<rparr>" "read_only (k (p_state P))"
    by (auto simp: tstep_def split: prog.splits)
  have ne: "j < length us \<Longrightarrow> p_threads P' ! j = p_threads P ! j" for j using assms(3) k(2) by simp
  have "read_only (p_threads P' ! j)" if "j < length (p_threads P)" "length us \<le> j" for j
    using that k serial_invD(3) [OF assms(1) that] by (cases "j = i") auto
  with assms(1) ne k(2) show ?thesis by (auto simp: serial_inv_def split: option.splits)
qed

text \<open>An update takes the mutex, goes on, and releases it.\<close>

lemma serial_step_lock:
  assumes "serial_inv l us s0 fin P" and "tstep i P = Some (Inr P')" and "list_all lock_free us"
    and "i < length us" and "i \<notin> set fin" and "p_owner P l \<noteq> Some i"
  shows "serial_inv l us s0 fin P'"
proof -
  have i: "i < length (p_threads P)" using assms(2) by (auto simp: tstep_def split: if_splits)
  let ?q = "bind_p (us ! i) (\<lambda>_. Unlock l (Return ()))"
  have P': "p_owner P l = None" "P' = P\<lparr>p_owner := (p_owner P)(l \<mapsto> i), p_threads := (p_threads P)[i := ?q]\<rparr>"
    using serial_invD(2) [OF assms(1,4,5,6)] assms(2) i by (auto simp: tstep_def guarded_def split: if_splits)
  have "in_section l ?q" using assms(3,4) by (simp add: in_section_body list_all_length)
  moreover have "alone ?q s = alone (us ! i) s" for s by (cases "alone (us ! i) s") auto
  ultimately show ?thesis using assms(1,4,5) P' i by (auto simp: serial_inv_def nth_list_update)
qed

lemma serial_step_owner:
  assumes "serial_inv l us s0 fin P" and "tstep i P = Some (Inr P')" and "p_owner P l = Some i"
  shows "\<exists>fin'. serial_inv l us s0 fin' P'"
proof -
  have i: "i < length (p_threads P)" using assms(2) by (auto simp: tstep_def split: if_splits)
  note own = serial_invD(4) [OF assms(1,3)]
  from assms(1,3) obtain s where s: "serial us fin s0 = Inr s"
    "alone (p_threads P ! i) (p_state P) = alone (us ! i) s" by (auto simp: serial_inv_def)
  show ?thesis
  proof (cases "p_threads P ! i")
    case (Act f k)
    with assms(2) i obtain s1 where s1: "f (p_state P) = Inr s1"
      "P' = P\<lparr>p_state := s1, p_threads := (p_threads P)[i := k (p_state P)]\<rparr>"
      by (auto simp: tstep_def bind_r_eq_Inr)
    with assms(1,3) own s Act i have "serial_inv l us s0 fin P'"
      by (auto simp: serial_inv_def nth_list_update)
    then show ?thesis ..
  next
    case (Unlock l' p)
    with own have p: "l' = l" "p = Return ()" by auto
    with assms(2,3) i Unlock have P': "P' = P\<lparr>p_owner := (p_owner P)(l := None), p_threads := (p_threads P)[i := Return ()]\<rparr>"
      by (auto simp: tstep_def)
    have "serial us (fin @ [i]) s0 = Inr (p_state P)"
      using s Unlock p by (simp add: serial_snoc) (metis bind_r_simps(2) case_prod_conv)
    with assms(1,3) own P' i have "serial_inv l us s0 (fin @ [i]) P'"
      by (auto simp: serial_inv_def nth_list_update)
    then show ?thesis ..
  qed (use own assms(2) i in \<open>auto simp: tstep_def split: if_splits\<close>)
qed

lemma serial_step:
  assumes "serial_inv l us s0 fin P" and "list_all lock_free us" and "pstep P P'"
  shows "\<exists>fin'. serial_inv l us s0 fin' P'"
proof -
  from assms(3) obtain i where i: "tstep i P = Some (Inr P')" by (auto simp: pstep_def)
  have "i \<notin> set fin" using serial_invD(1) [OF assms(1), of i] i by (auto simp: tstep_def split: if_splits)
  then consider "length us \<le> i" | "p_owner P l = Some i" | "i < length us" "i \<notin> set fin" "p_owner P l \<noteq> Some i"
    by linarith
  then show ?thesis
    using serial_step_reader [OF assms(1) i] serial_step_owner [OF assms(1) i]
      serial_step_lock [OF assms(1) i assms(2)] by cases blast+
qed

text \<open>The updates \<open>us\<close> under the mutex \<open>l\<close> and the readers \<open>rs\<close>, started in the state \<open>s\<close>.\<close>

definition serial_pool :: "'l \<Rightarrow> ('s, 'l, unit) prog list \<Rightarrow> ('s, 'l, unit) prog list \<Rightarrow> 's \<Rightarrow> ('s, 'l) pool" where
  "serial_pool l us rs s = \<lparr>p_state = s, p_owner = (\<lambda>_. None), p_threads = map (guarded l) us @ rs\<rparr>"

lemma serial_init: "list_all read_only rs \<Longrightarrow> serial_inv l us s [] (serial_pool l us rs s)"
  by (auto simp: serial_inv_def serial_pool_def serial_def nth_append list_all_length)

theorem updates_serialize:
  assumes "list_all lock_free us" and "list_all read_only rs"
    and "pstep\<^sup>*\<^sup>* (serial_pool l us rs s) P" and "all_returned P"
  shows "\<exists>is. distinct is \<and> set is = {..<length us} \<and> serial us is s = Inr (p_state P)"
proof -
  from assms(3) have "\<exists>fin. serial_inv l us s fin P"
  proof (induction rule: rtranclp_induct)
    case base
    then show ?case using serial_init [OF assms(2)] by blast
  next
    case (step P P')
    then obtain fin where "serial_inv l us s fin P" by blast
    then show ?case using assms(1) step.hyps(2) by (rule serial_step)
  qed
  then obtain fin where inv: "serial_inv l us s fin P" ..
  have len: "length us \<le> length (p_threads P)" using inv by (simp add: serial_inv_def)
  have ret: "returned (p_threads P ! i)" if "i < length us" for i
    using that len assms(4) by (simp add: all_returned_def list_all_length)
  have "p_owner P l \<noteq> Some i" for i
    using serial_invD(4) [OF inv, of i] ret [of i] by (cases "p_threads P ! i") (auto simp: returned_def)
  then have free: "p_owner P l = None" by (cases "p_owner P l") auto
  then have "i \<in> set fin" if "i < length us" for i
    using serial_invD(2) [OF inv that] ret [OF that] by (cases "i \<in> set fin") (auto simp: guarded_def returned_def)
  with inv free show ?thesis by (intro exI [of _ fin]) (auto simp: serial_inv_def)
qed

section \<open>Messages that are handled one at a time\<close>

text \<open>
  The interface of an object with a guarded update: the program of a message never takes or releases a
  mutex, and alone it does what the atomic update says.
\<close>

locale guarded_updates =
  fixes update :: "'m \<Rightarrow> ('s, 'l, unit) prog" and atomic :: "'m \<Rightarrow> 's \<Rightarrow> 's"
  assumes update_alone: "alone (update m) s = Inr ((), atomic m s)" and update_free: "lock_free (update m)"
begin

lemma serial_updates:
  "set is \<subseteq> {..<length ms} \<Longrightarrow> serial (map update ms) is s = Inr (fold atomic (map ((!) ms) is) s)"
  by (induction "is" arbitrary: s) (simp_all add: serial_def update_alone)

lemma concurrent_updates:
  assumes "list_all read_only rs" and "pstep\<^sup>*\<^sup>* (serial_pool l (map update ms) rs s) P" and "all_returned P"
  shows "\<exists>ms'. mset ms' = mset ms \<and> p_state P = fold atomic ms' s"
proof -
  have "list_all lock_free (map update ms)" by (simp add: list_all_iff update_free)
  from updates_serialize [OF this assms] obtain "is" where i: "distinct is" "set is = {..<length ms}"
    "serial (map update ms) is s = Inr (p_state P)" by auto
  have "mset is = mset [0..<length ms]"
    using i(1,2) by (intro iffD1 [OF set_eq_iff_mset_eq_distinct]) (auto simp: atLeast_upt)
  then have "mset (map ((!) ms) is) = mset (map ((!) ms) [0..<length ms])" by (simp only: mset_map)
  then have "mset (map ((!) ms) is) = mset ms" by (simp add: map_nth)
  moreover have "p_state P = fold atomic (map ((!) ms) is) s" using i(2,3) serial_updates [of "is" ms s] by simp
  ultimately show ?thesis by blast
qed

text \<open>The messages can be handled in the order of the goroutines, each to its end.\<close>

lemma updates_in_turn:
  "k \<le> length ms \<Longrightarrow> pstep\<^sup>*\<^sup>* (serial_pool l (map update ms) [] s)
     \<lparr>p_state = fold atomic (take k ms) s, p_owner = (\<lambda>_. None),
       p_threads = replicate k (Return ()) @ map (\<lambda>m. guarded l (update m)) (drop k ms)\<rparr>"
proof (induction k)
  case (Suc k)
  let ?P = "\<lparr>p_state = fold atomic (take k ms) s, p_owner = (\<lambda>_. None),
    p_threads = replicate k (Return ()) @ map (\<lambda>m. guarded l (update m)) (drop k ms)\<rparr>"
  have k: "take (Suc k) ms = take k ms @ [ms ! k]" "drop k ms = ms ! k # drop (Suc k) ms"
    using Suc.prems by (simp_all add: take_Suc_conv_app_nth Cons_nth_drop_Suc)
  have "pstep\<^sup>*\<^sup>* ?P (?P\<lparr>p_state := fold atomic (take (Suc k) ms) s, p_owner := (\<lambda>_. None),
      p_threads := (p_threads ?P)[k := Return ()]\<rparr>)"
    by (rule solo_run [where v = "()" and p = "guarded l (update (ms ! k))"])
      (use Suc.prems k in \<open>simp_all add: nth_append alone_guarded update_alone held_def locks_guarded update_free\<close>)
  moreover have "(p_threads ?P)[k := Return ()] =
      replicate (Suc k) (Return ()) @ map (\<lambda>m. guarded l (update m)) (drop (Suc k) ms)"
    by (simp add: k(2) list_update_append replicate_append_same flip: append_Cons replicate_Suc)
  ultimately show ?case using Suc by (simp del: replicate_Suc)
qed (simp add: serial_pool_def comp_def)

lemma updates_return:
  "\<exists>P. pstep\<^sup>*\<^sup>* (serial_pool l (map update ms) [] s) P \<and> all_returned P \<and> p_state P = fold atomic ms s"
  using updates_in_turn [of "length ms" ms l s]
  by (intro exI [of _ "\<lparr>p_state = fold atomic ms s, p_owner = (\<lambda>_. None), p_threads = replicate (length ms) (Return ())\<rparr>"])
    (simp add: all_returned_def returned_def list_all_iff)

end

section \<open>A part of a program\<close>

text \<open>The first part of a program runs while the others wait; a reader may come next.\<close>

lemma run_prefix:
  assumes "lock_free p" and "alone p (p_state P) = Inr (v, s')" and "i < length (p_threads P)"
    and "p_threads P ! i = bind_p p g"
  shows "pstep\<^sup>*\<^sup>* P (P\<lparr>p_state := s', p_threads := (p_threads P)[i := g v]\<rparr>)"
  using assms
proof (induction p arbitrary: P)
  case (Return u)
  then have "P\<lparr>p_state := s', p_threads := (p_threads P)[i := g v]\<rparr> = P" by (cases P) (simp add: list_update_same_conv)
  then show ?case by simp
next
  case (Act f k)
  then obtain s1 where f: "f (p_state P) = Inr s1" "alone (k (p_state P)) s1 = Inr (v, s')"
    by (auto simp: bind_r_eq_Inr)
  let ?P = "P\<lparr>p_state := s1, p_threads := (p_threads P)[i := bind_p (k (p_state P)) g]\<rparr>"
  have "pstep P ?P" using Act.prems(3,4) f by (auto simp: pstep_def tstep_def intro!: exI [of _ i])
  moreover have "pstep\<^sup>*\<^sup>* ?P (?P\<lparr>p_state := s', p_threads := (p_threads ?P)[i := g v]\<rparr>)"
    by (rule Act.IH) (use Act.prems f in auto)
  ultimately have "pstep\<^sup>*\<^sup>* P (?P\<lparr>p_state := s', p_threads := (p_threads ?P)[i := g v]\<rparr>)"
    by (rule converse_rtranclp_into_rtranclp)
  then show ?case by simp
qed simp_all

end
