(* ===== verification/Insight_Threads.thy ===== *)
theory Insight_Threads
  imports Quote_Trade Order_Book_Correct Serialize
begin

text \<open>
  The updates of a quote and of an order book at the level of their locks. Every getter and setter of
  \<open>quote.go\<close> and \<open>orderbook.go\<close> takes the lock of the fields for itself; an update holds
  \<open>muLockToUpdateHandler\<close> from beginning to end, which readers do not take. Updates that run at the
  same time have the effect of running one after the other; a reader may see a part of one.
\<close>

section \<open>quote.go: accessors and the update\<close>

definition qt_setBestAsk :: "'d PriceLevel option \<Rightarrow> 'd QuoteImpl \<Rightarrow> 'd QuoteImpl" where
  "qt_setBestAsk r q = q\<lparr>qt_bestAsk := r\<rparr>"
definition qt_setBestBid :: "'d PriceLevel option \<Rightarrow> 'd QuoteImpl \<Rightarrow> 'd QuoteImpl" where
  "qt_setBestBid r q = q\<lparr>qt_bestBid := r\<rparr>"
definition qt_setBeforeBestAsk :: "'d PriceLevel option \<Rightarrow> 'd QuoteImpl \<Rightarrow> 'd QuoteImpl" where
  "qt_setBeforeBestAsk r q = q\<lparr>qt_beforeBestAsk := r\<rparr>"
definition qt_setBeforeBestBid :: "'d PriceLevel option \<Rightarrow> 'd QuoteImpl \<Rightarrow> 'd QuoteImpl" where
  "qt_setBeforeBestBid r q = q\<lparr>qt_beforeBestBid := r\<rparr>"
definition qt_setLastExecAt :: "time option \<Rightarrow> 'd QuoteImpl \<Rightarrow> 'd QuoteImpl" where
  "qt_setLastExecAt t q = q\<lparr>qt_lastExecAt := t\<rparr>"
definition qt_setLastEventAt :: "time option \<Rightarrow> 'd QuoteImpl \<Rightarrow> 'd QuoteImpl" where
  "qt_setLastEventAt t q = q\<lparr>qt_lastEventAt := t\<rparr>"
definition qt_setLastArrivedAt :: "time option \<Rightarrow> 'd QuoteImpl \<Rightarrow> 'd QuoteImpl" where
  "qt_setLastArrivedAt t q = q\<lparr>qt_lastArrivedAt := t\<rparr>"
definition qt_setSeqID :: "int \<Rightarrow> 'd QuoteImpl \<Rightarrow> 'd QuoteImpl" where
  "qt_setSeqID i q = q\<lparr>qt_seqID := i\<rparr>"
definition qt_GetLastEventAt :: "'d QuoteImpl \<Rightarrow> time option" where
  "qt_GetLastEventAt q = qt_lastEventAt q"
definition qt_GetLastArrivedAt :: "'d QuoteImpl \<Rightarrow> time option" where
  "qt_GetLastArrivedAt q = qt_lastArrivedAt q"
definition qt_getUpdateCallback :: "'d QuoteImpl \<Rightarrow> nat list" where
  "qt_getUpdateCallback q = qt_updateCallback q"

lemmas qt_accessor_defs = qt_setBestAsk_def qt_setBestBid_def qt_setBeforeBestAsk_def qt_setBeforeBestBid_def
  qt_setLastExecAt_def qt_setLastEventAt_def qt_setLastArrivedAt_def qt_setSeqID_def qt_GetBestAsk_def
  qt_GetBestBid_def qt_GetLastExecAt_def qt_GetSeqID_def qt_getUpdateCallback_def

type_synonym ('d, 'v) qprog = "('d QuoteImpl, unit, 'v) prog"

text \<open>The body of \<open>Update\<close>, without its lock. \<open>GetLastExecAt\<close> is called twice in one condition.\<close>

definition Quote_Update_t :: "'d QuoteData \<Rightarrow> ('d, unit) qprog" where
  "Quote_Update_t msg =
     bind_p (read_p qt_GetBestAsk) (\<lambda>bestAsk. bind_p (read_p qt_GetBestBid) (\<lambda>bestBid.
       then_p
         (case (bestAsk, bestBid) of
            (Some a, Some b) \<Rightarrow> acts [qt_setBeforeBestAsk (Some (PriceLevel_Copy a)), qt_setBeforeBestBid (Some (PriceLevel_Copy b))]
          | _ \<Rightarrow> Return ())
         (bind_p (read_p qt_GetLastExecAt) (\<lambda>e1. bind_p (read_p qt_GetLastExecAt) (\<lambda>e2.
            if e1 \<noteq> None \<and> qd_ExecAt msg < the e2 then Return ()
            else bind_p (read_p qt_GetSeqID) (\<lambda>i.
              if qd_SeqID msg < i then Return ()
              else then_p
                (acts [qt_setSeqID (qd_SeqID msg), qt_setLastExecAt (Some (qd_ExecAt msg)),
                       qt_setLastEventAt (Some (qd_EventAt msg)), qt_setLastArrivedAt (Some (qd_ArrivedAt msg)),
                       qt_setBestAsk (qd_BestAsk msg), qt_setBestBid (qd_BestBid msg)])
                (bind_p (read_p qt_getUpdateCallback)
                  (for_p (\<lambda>c. upd_p (\<lambda>q. q\<lparr>qt_calls := qt_calls q @ [c]\<rparr>))))))))))"

lemma fold_calls: "fold (\<lambda>c q. q\<lparr>qt_calls := qt_calls q @ [c]\<rparr>) cs q = q\<lparr>qt_calls := qt_calls q @ cs\<rparr>"
  by (induction cs arbitrary: q) simp_all

lemma alone_Quote_Update: "alone (Quote_Update_t msg) q = Inr ((), Quote_Update msg q)"
  by (auto simp: Quote_Update_t_def Quote_Update_def qt_accessor_defs Let_def alone_for fold_calls
      split: option.split)

lemma lock_free_Quote_Update: "lock_free (Quote_Update_t msg)"
  by (auto simp: Quote_Update_t_def intro!: lock_free_bind lock_free_then split: option.split)

section \<open>orderbook.go: accessors and the update\<close>

definition ob_setCurrentBestAsk :: "'d PriceLevel option \<Rightarrow> ('d, 't) OrderBookImpl \<Rightarrow> ('d, 't) OrderBookImpl" where
  "ob_setCurrentBestAsk r p = p\<lparr>ob_currentBestAsk := r\<rparr>"
definition ob_setCurrentBestBid :: "'d PriceLevel option \<Rightarrow> ('d, 't) OrderBookImpl \<Rightarrow> ('d, 't) OrderBookImpl" where
  "ob_setCurrentBestBid r p = p\<lparr>ob_currentBestBid := r\<rparr>"
definition ob_setBeforeBestAsk :: "'d PriceLevel option \<Rightarrow> ('d, 't) OrderBookImpl \<Rightarrow> ('d, 't) OrderBookImpl" where
  "ob_setBeforeBestAsk r p = p\<lparr>ob_beforeBestAsk := r\<rparr>"
definition ob_setBeforeBestBid :: "'d PriceLevel option \<Rightarrow> ('d, 't) OrderBookImpl \<Rightarrow> ('d, 't) OrderBookImpl" where
  "ob_setBeforeBestBid r p = p\<lparr>ob_beforeBestBid := r\<rparr>"
definition ob_setLastExecAt :: "time option \<Rightarrow> ('d, 't) OrderBookImpl \<Rightarrow> ('d, 't) OrderBookImpl" where
  "ob_setLastExecAt t p = p\<lparr>ob_lastExecAt := t\<rparr>"
definition ob_setLastArrivedAt :: "time option \<Rightarrow> ('d, 't) OrderBookImpl \<Rightarrow> ('d, 't) OrderBookImpl" where
  "ob_setLastArrivedAt t p = p\<lparr>ob_lastArrivedAt := t\<rparr>"
definition ob_GetLastExecAt :: "('d, 't) OrderBookImpl \<Rightarrow> time option" where
  "ob_GetLastExecAt p = ob_lastExecAt p"
definition ob_GetLastArrivedAt :: "('d, 't) OrderBookImpl \<Rightarrow> time option" where
  "ob_GetLastArrivedAt p = ob_lastArrivedAt p"
definition ob_getUpdateCallback :: "('d, 't) OrderBookImpl \<Rightarrow> book_callback list" where
  "ob_getUpdateCallback p = ob_updateCallback p"
definition ob_getDeferUpdateCallback :: "('d, 't) OrderBookImpl \<Rightarrow> book_callback option" where
  "ob_getDeferUpdateCallback p = ob_deferCallback p"

lemmas ob_accessor_defs = ob_setCurrentBestAsk_def ob_setCurrentBestBid_def ob_setBeforeBestAsk_def
  ob_setBeforeBestBid_def ob_setLastExecAt_def ob_setLastArrivedAt_def ob_getUpdateCallback_def
  ob_getDeferUpdateCallback_def ob_GetBestAsk_def ob_GetBestBid_def

type_synonym ('d, 't, 'v) bprog = "(('d, 't) OrderBookImpl, unit, 'v) prog"

text \<open>
  The body of \<open>UpdateByOBData\<close>. A delta changes a side row by row: the row is looked up, then set or
  dropped. A snapshot builds the new side apart and puts it in place at once.
\<close>

definition delta_row_t ::
  "('d PriceLevel, 't) BTreeOps \<Rightarrow> (('d, 't) OrderBookImpl \<Rightarrow> ('d, 't) PriceLevelMap) \<Rightarrow>
     ((('d, 't) PriceLevelMap \<Rightarrow> ('d, 't) PriceLevelMap) \<Rightarrow> ('d, 't) OrderBookImpl \<Rightarrow> ('d, 't) OrderBookImpl) \<Rightarrow>
     'd :: linordered_idom PriceLevel \<Rightarrow> ('d, 't, unit) bprog" where
  "delta_row_t B side upd a =
     bind_p (read_p (\<lambda>p. pm_Get B (side p) (pl_Price a))) (\<lambda>found.
       if (case found of Some r \<Rightarrow> \<not> isOld r (pl_SeqID a) | None \<Rightarrow> False) then Return ()
       else if pl_Volume a = 0 then upd_p (upd (\<lambda>m. pm_drop B m (pl_Price a)))
       else upd_p (upd (\<lambda>m. pm_set B m a)))"

definition updateByDelta_t ::
  "('d PriceLevel, 't) BTreeOps \<Rightarrow> 'd :: linordered_idom OrderBookData \<Rightarrow> ('d, 't, unit) bprog" where
  "updateByDelta_t B delta =
     then_p (for_p (delta_row_t B ob_AsksMap ob_AsksMap_update) (bd_Asks delta))
       (for_p (delta_row_t B ob_BidsMap ob_BidsMap_update) (bd_Bids delta))"

definition snapshot_side_t ::
  "('d PriceLevel, 't) BTreeOps \<Rightarrow> BookSide \<Rightarrow> (('d, 't) OrderBookImpl \<Rightarrow> ('d, 't) PriceLevelMap) \<Rightarrow>
     ((('d, 't) PriceLevelMap \<Rightarrow> ('d, 't) PriceLevelMap) \<Rightarrow> ('d, 't) OrderBookImpl \<Rightarrow> ('d, 't) OrderBookImpl) \<Rightarrow>
     'd :: linordered_idom PriceLevel list \<Rightarrow> ('d, 't, unit) bprog" where
  "snapshot_side_t B s side upd rows =
     (if 0 < length rows then
        bind_p (read_p (\<lambda>p. snapshot_rows B s (sym_tickSize (ob_symbol p)) rows (side p))) (\<lambda>newMap.
          upd_p (upd (\<lambda>m. pm_replace m newMap)))
      else Return ())"

definition resetBySnapshot_t ::
  "('d PriceLevel, 't) BTreeOps \<Rightarrow> 'd :: linordered_idom OrderBookData \<Rightarrow> ('d, 't, unit) bprog" where
  "resetBySnapshot_t B snapshot =
     then_p (snapshot_side_t B BookSideAsk ob_AsksMap ob_AsksMap_update (bd_Asks snapshot))
       (snapshot_side_t B BookSideBid ob_BidsMap ob_BidsMap_update (bd_Bids snapshot))"

text \<open>The update up to the moment the sides are in place, and the rest of it.\<close>

definition book_sides_t ::
  "('d PriceLevel, 't) BTreeOps \<Rightarrow> 'd :: linordered_idom OrderBookData \<Rightarrow> ('d, 't, unit) bprog" where
  "book_sides_t B data =
     bind_p (read_p ob_GetBestAsk) (\<lambda>bestAsk. bind_p (read_p ob_GetBestBid) (\<lambda>bestBid.
       then_p
         (case (bestAsk, bestBid) of
            (Some a, Some b) \<Rightarrow> acts [ob_setBeforeBestAsk (Some (PriceLevel_Copy a)), ob_setBeforeBestBid (Some (PriceLevel_Copy b))]
          | _ \<Rightarrow> Return ())
         (then_p (acts [ob_setLastExecAt (Some (bd_ExecAt data)), ob_setLastArrivedAt (Some (bd_ArrivedAt data))])
           (case bd_Type data of
              DataTypeSnapshot \<Rightarrow> resetBySnapshot_t B data
            | DataTypeDelta \<Rightarrow> updateByDelta_t B data
            | DataTypeUnknown \<Rightarrow> Return ()))))"

definition book_record_t :: "('d :: linordered_idom PriceLevel, 't) BTreeOps \<Rightarrow> ('d, 't, unit) bprog" where
  "book_record_t B =
     bind_p (read_p (\<lambda>p. BestLevel B (ob_AsksMap p))) (\<lambda>a. bind_p (read_p (\<lambda>p. BestLevel B (ob_BidsMap p))) (\<lambda>b.
       acts [ob_setCurrentBestAsk (Some (PriceLevel_Copy a)), ob_setCurrentBestBid (Some (PriceLevel_Copy b))]))"

text \<open>The callbacks of the book that \<open>ob\<close> finds in the state; \<open>call\<close> is what calling one of them does.\<close>

definition book_callbacks_t ::
  "('s \<Rightarrow> ('d, 't) OrderBookImpl) \<Rightarrow> (book_callback \<Rightarrow> ('s, 'l, unit) prog) \<Rightarrow> ('s, 'l, unit) prog" where
  "book_callbacks_t ob call =
     then_p (bind_p (read_p (\<lambda>s. ob_getUpdateCallback (ob s))) (for_p call))
       (bind_p (read_p (\<lambda>s. ob_getDeferUpdateCallback (ob s))) (\<lambda>dc. case dc of Some c \<Rightarrow> call c | None \<Rightarrow> Return ()))"

definition book_best_t :: "('d :: linordered_idom PriceLevel, 't) BTreeOps \<Rightarrow> ('d, 't, unit) bprog" where
  "book_best_t B =
     then_p (book_record_t B) (book_callbacks_t (\<lambda>p. p) (\<lambda>c. upd_p (\<lambda>p. p\<lparr>ob_calls := ob_calls p @ [c]\<rparr>)))"

definition UpdateByOBData_t ::
  "('d PriceLevel, 't) BTreeOps \<Rightarrow> 'd :: linordered_idom OrderBookData \<Rightarrow> ('d, 't, unit) bprog" where
  "UpdateByOBData_t B data = then_p (book_sides_t B data) (book_best_t B)"

lemma fold_book_calls: "fold (\<lambda>c p. p\<lparr>ob_calls := ob_calls p @ [c]\<rparr>) cs p = p\<lparr>ob_calls := ob_calls p @ cs\<rparr>"
  by (induction cs arbitrary: p) simp_all

lemma alone_delta_row:
  "alone (delta_row_t B ob_AsksMap ob_AsksMap_update a) p =
     Inr ((), p\<lparr>ob_AsksMap := delta_row (pm_Get B) (pm_set B) (pm_drop B) a (ob_AsksMap p)\<rparr>)"
  "alone (delta_row_t B ob_BidsMap ob_BidsMap_update a) p =
     Inr ((), p\<lparr>ob_BidsMap := delta_row (pm_Get B) (pm_set B) (pm_drop B) a (ob_BidsMap p)\<rparr>)"
  by (auto simp: delta_row_t_def delta_row_def split: option.split)

lemma fold_side:
  "fold (\<lambda>a p. p\<lparr>ob_AsksMap := f a (ob_AsksMap p)\<rparr>) rows p = p\<lparr>ob_AsksMap := fold f rows (ob_AsksMap p)\<rparr>"
  "fold (\<lambda>a p. p\<lparr>ob_BidsMap := f a (ob_BidsMap p)\<rparr>) rows p = p\<lparr>ob_BidsMap := fold f rows (ob_BidsMap p)\<rparr>"
  by (induction rows arbitrary: p) simp_all

lemma alone_updateByDelta: "alone (updateByDelta_t B delta) p = Inr ((), updateByDelta B delta p)"
  by (simp add: updateByDelta_t_def updateByDelta_def delta_rows_def Let_def alone_for [OF alone_delta_row(1)]
      alone_for [OF alone_delta_row(2)] fold_side)

lemma alone_resetBySnapshot: "alone (resetBySnapshot_t B snapshot) p = Inr ((), resetBySnapshot B snapshot p)"
  by (auto simp: resetBySnapshot_t_def resetBySnapshot_def snapshot_side_t_def snapshot_rows_def pm_replace_def Let_def)

lemma alone_UpdateByOBData: "alone (UpdateByOBData_t B data) p = Inr ((), UpdateByOBData B data p)"
  by (auto simp: UpdateByOBData_t_def book_sides_t_def book_best_t_def book_record_t_def book_callbacks_t_def UpdateByOBData_def ob_accessor_defs Let_def alone_for fold_book_calls
      alone_updateByDelta alone_resetBySnapshot split: option.split DataType.split)

lemma lock_free_UpdateByOBData: "lock_free (UpdateByOBData_t B data)"
  by (auto simp: UpdateByOBData_t_def book_sides_t_def book_best_t_def book_record_t_def book_callbacks_t_def updateByDelta_t_def resetBySnapshot_t_def snapshot_side_t_def delta_row_t_def
      intro!: lock_free_bind lock_free_then lock_free_for split: option.split DataType.split)

lemma lock_free_book_sides: "lock_free (book_sides_t B data)"
  by (auto simp: book_sides_t_def updateByDelta_t_def resetBySnapshot_t_def snapshot_side_t_def delta_row_t_def
      intro!: lock_free_bind lock_free_then lock_free_for split: option.split DataType.split)

text \<open>The first part of an update puts the sides in place and leaves the best prices alone.\<close>

lemma sides_keep_best:
  "ob_GetBestAsk (resetBySnapshot B data p) = ob_GetBestAsk p" "ob_GetBestBid (resetBySnapshot B data p) = ob_GetBestBid p"
  "ob_GetBestAsk (updateByDelta B data p) = ob_GetBestAsk p" "ob_GetBestBid (updateByDelta B data p) = ob_GetBestBid p"
  by (simp_all add: resetBySnapshot_def updateByDelta_def ob_GetBestAsk_def ob_GetBestBid_def Let_def)

lemma alone_book_sides:
  "\<exists>s. alone (book_sides_t B data) p = Inr ((), s) \<and> ob_AsksMap s = ob_AsksMap (UpdateByOBData B data p) \<and>
     ob_BidsMap s = ob_BidsMap (UpdateByOBData B data p) \<and>
     ob_GetBestAsk s = ob_GetBestAsk p \<and> ob_GetBestBid s = ob_GetBestBid p"
  by (auto simp: book_sides_t_def UpdateByOBData_def ob_accessor_defs Let_def alone_updateByDelta alone_resetBySnapshot
      sides_keep_best [unfolded ob_GetBestAsk_def ob_GetBestBid_def] split: option.split DataType.split)

section \<open>Updates at the same time\<close>

interpretation quote_updates: guarded_updates Quote_Update_t Quote_Update
  by unfold_locales (simp_all add: alone_Quote_Update lock_free_Quote_Update)

interpretation book_updates: guarded_updates "UpdateByOBData_t B" "UpdateByOBData B" for B
  by unfold_locales (simp_all add: alone_UpdateByOBData lock_free_UpdateByOBData)

text \<open>
  Any number of updates of a book run at the same time as any readers, each access interleaved with the
  others. Once all have returned the book is the one the messages leave when they are handled one
  after the other, in some order.
\<close>

theorem concurrent_book_updates_serialize:
  assumes "list_all read_only rs" and "pstep\<^sup>*\<^sup>* (serial_pool () (map (UpdateByOBData_t B) ms) rs p) P" and "all_returned P"
  shows "\<exists>ms'. mset ms' = mset ms \<and> p_state P = fold (UpdateByOBData B) ms' p"
  using assms by (rule book_updates.concurrent_updates)

theorem concurrent_book_updates_serialize_witness:
  "\<exists>P :: ((int, _) OrderBookImpl, unit) pool. all_returned P \<and> (\<exists>ms'. mset ms' = mset [demo_snapshot, demo_snapshot\<lparr>bd_SeqID := 2\<rparr>] \<and>
     p_state P = fold (UpdateByOBData list_btree) ms' (NewOrderBook list_btree demo_symbol))"
proof -
  obtain P where "pstep\<^sup>*\<^sup>* (serial_pool () (map (UpdateByOBData_t list_btree) [demo_snapshot, demo_snapshot\<lparr>bd_SeqID := 2\<rparr>]) [] (NewOrderBook list_btree demo_symbol)) P" "all_returned P"
    using book_updates.updates_return by blast
  with concurrent_book_updates_serialize [of "[]" list_btree "[demo_snapshot, demo_snapshot\<lparr>bd_SeqID := 2\<rparr>]"
      "NewOrderBook list_btree demo_symbol" P] show ?thesis by auto
qed

lemma delta_rows_fold: "delta_rows B rows m = fold (delta_row (pm_Get B) (pm_set B) (pm_drop B)) rows m"
  by (simp add: delta_rows_def)

lemma fold_deltas:
  assumes "\<forall>x \<in> set ms. bd_Type x = DataTypeDelta"
  shows "ob_AsksMap (fold (UpdateByOBData B) ms p) = delta_rows B (concat (map bd_Asks ms)) (ob_AsksMap p)"
    and "ob_BidsMap (fold (UpdateByOBData B) ms p) = delta_rows B (concat (map bd_Bids ms)) (ob_BidsMap p)"
  using assms
  by (induction ms arbitrary: p)
    (auto simp: delta_rows_fold UpdateByOBData_def updateByDelta_def Let_def split: option.split)

lemma mset_concat_map: "mset xs = mset ys \<Longrightarrow> mset (concat (map f xs)) = mset (concat (map f ys))"
  by (simp add: mset_concat) (metis mset_map sum_mset_sum_list)

definition only_sets :: "'d :: linordered_idom PriceLevel list \<Rightarrow> bool" where
  "only_sets rows \<longleftrightarrow> (\<forall>a \<in> set rows. pl_Volume a \<noteq> 0) \<and> inj_on (\<lambda>a. (pl_Price a, pl_SeqID a)) (set rows)"

text \<open>
  C17. Deltas that only set volumes may be handled at the same time, as when they come in over several
  connections. If no two different rows have the same price and sequence number, the sides of the book
  are the same whatever the interleaving.
\<close>

theorem concurrent_deltas_agree:
  assumes "level_tree B ok" and "side_good B ok BookSideAsk (ob_AsksMap p)" and "side_good B ok BookSideBid (ob_BidsMap p)"
    and "\<forall>x \<in> set ms. bd_Type x = DataTypeDelta" and "only_sets (concat (map bd_Asks ms))" and "only_sets (concat (map bd_Bids ms))"
    and "list_all read_only rs" and "pstep\<^sup>*\<^sup>* (serial_pool () (map (UpdateByOBData_t B) ms) rs p) P" and "all_returned P"
  shows "side_levels B (ob_AsksMap (p_state P)) = side_levels B (delta_rows B (concat (map bd_Asks ms)) (ob_AsksMap p)) \<and>
    side_levels B (ob_BidsMap (p_state P)) = side_levels B (delta_rows B (concat (map bd_Bids ms)) (ob_BidsMap p))"
proof -
  from book_updates.concurrent_updates [OF assms(7-9)] obtain ms' where
    m: "mset ms' = mset ms" "p_state P = fold (UpdateByOBData B) ms' p" by blast
  then have "set ms' = set ms" by (metis set_mset_mset)
  with assms(4) have d: "\<forall>x \<in> set ms'. bd_Type x = DataTypeDelta" by simp
  show ?thesis
    unfolding m(2) fold_deltas [OF d]
    using level_tree.delta_perm [OF assms(1,2) _ _ mset_concat_map [OF m(1)]]
      level_tree.delta_perm [OF assms(1,3) _ _ mset_concat_map [OF m(1)]] assms(5,6) by (simp add: only_sets_def)
qed

definition demo_delta :: "int \<Rightarrow> int \<Rightarrow> int OrderBookData" where
  "demo_delta i v = \<lparr>bd_Type = DataTypeDelta, bd_ExecAt = 1, bd_ArrivedAt = 2, bd_Bids = [],
     bd_Asks = [\<lparr>pl_SeqID = i, pl_Price = 101, pl_Volume = v\<rparr>], bd_SeqID = i\<rparr>"

theorem concurrent_deltas_agree_witness:
  "\<exists>P :: ((int, _) OrderBookImpl, unit) pool. all_returned P \<and> side_levels list_btree (ob_AsksMap (p_state P)) = [\<lparr>pl_SeqID = 7, pl_Price = 101, pl_Volume = 9 :: int\<rparr>]"
proof -
  let ?ms = "[demo_delta 7 9, demo_delta 5 8]" and ?p = "NewOrderBook list_btree demo_symbol"
  obtain P where P: "pstep\<^sup>*\<^sup>* (serial_pool () (map (UpdateByOBData_t list_btree) ?ms) [] ?p) P" "all_returned P"
    using book_updates.updates_return by blast
  have g: "side_good list_btree list_ok BookSideAsk (ob_AsksMap ?p)" "side_good list_btree list_ok BookSideBid (ob_BidsMap ?p)"
    using list_tree.side.good_new by (auto simp: NewOrderBook_def)
  have d: "\<forall>x \<in> set ?ms. bd_Type x = DataTypeDelta" "only_sets (concat (map bd_Asks ?ms))" "only_sets (concat (map bd_Bids ?ms))"
    by (simp_all add: demo_delta_def only_sets_def)
  have "side_levels list_btree (delta_rows list_btree (concat (map bd_Asks ?ms)) (ob_AsksMap ?p)) =
      [\<lparr>pl_SeqID = 7, pl_Price = 101, pl_Volume = 9\<rparr>]" by code_simp
  with concurrent_deltas_agree [OF list_tree.level_tree_axioms g d _ P] P(2) show ?thesis
    by (intro exI [of _ P]) (simp only: list.pred_inject simp_thms)
qed

text \<open>
  C35. Quote messages may be handled at the same time, with any readers: if the message with the largest
  sequence number was also executed last, then once all have returned the quote shows it.
\<close>

theorem newest_quote_wins_concurrently:
  assumes "data \<in> set msgs"
    and "\<forall>x \<in> set msgs. x \<noteq> data \<longrightarrow> qd_SeqID x < qd_SeqID data \<and> qd_ExecAt x \<le> qd_ExecAt data"
    and "qt_GetSeqID q \<le> qd_SeqID data" and "\<forall>t. qt_GetLastExecAt q = Some t \<longrightarrow> t \<le> qd_ExecAt data"
    and "list_all read_only rs" and "pstep\<^sup>*\<^sup>* (serial_pool () (map Quote_Update_t msgs) rs q) P" and "all_returned P"
  shows "qt_GetBestAsk (p_state P) = qd_BestAsk data \<and> qt_GetBestBid (p_state P) = qd_BestBid data \<and>
    qt_GetSeqID (p_state P) = qd_SeqID data \<and> qt_GetLastExecAt (p_state P) = Some (qd_ExecAt data)"
proof -
  from quote_updates.concurrent_updates [OF assms(5-7)] obtain msgs' where
    m: "mset msgs' = mset msgs" "p_state P = fold Quote_Update msgs' q" by blast
  then have "set msgs' = set msgs" by (metis set_mset_mset)
  with newest_quote_wins [of data msgs' q] assms(1-4) m(2) show ?thesis by simp
qed

theorem newest_quote_wins_concurrently_witness:
  "\<exists>P :: (int QuoteImpl, unit) pool. all_returned P \<and> qt_GetBestAsk (p_state P) = Some \<lparr>pl_SeqID = 3, pl_Price = 103, pl_Volume = 1\<rparr>"
proof -
  let ?msgs = "[demo_quote 1, demo_quote 3, demo_quote 2]"
  obtain P where "pstep\<^sup>*\<^sup>* (serial_pool () (map Quote_Update_t ?msgs) [] (NewQuote demo_symbol)) P" "all_returned P"
    using quote_updates.updates_return by blast
  moreover have "\<forall>x \<in> set ?msgs. x \<noteq> demo_quote 3 \<longrightarrow>
      qd_SeqID x < qd_SeqID (demo_quote 3) \<and> qd_ExecAt x \<le> qd_ExecAt (demo_quote 3)"
    "qt_GetSeqID (NewQuote demo_symbol) \<le> qd_SeqID (demo_quote 3)" "qt_GetLastExecAt (NewQuote demo_symbol) = None"
    "qd_BestAsk (demo_quote 3) = Some \<lparr>pl_SeqID = 3, pl_Price = 103, pl_Volume = 1\<rparr>"
    by (simp_all add: demo_quote_def NewQuote_def qt_GetSeqID_def qt_GetLastExecAt_def)
  ultimately show ?thesis
    using newest_quote_wins_concurrently [of "demo_quote 3" ?msgs "NewQuote demo_symbol" "[]" P] by auto
qed

text \<open>
  The lock of an update keeps other updates out, not readers: between the moment a snapshot is in place
  and the moment the best prices are recorded, a reader finds the new side with the old best price.
\<close>

theorem reader_sees_new_book_with_old_best:
  "\<exists>P. pstep\<^sup>*\<^sup>* (serial_pool () [UpdateByOBData_t B data] rs p) P \<and> drop 1 (p_threads P) = rs \<and>
     ob_AsksMap (p_state P) = ob_AsksMap (UpdateByOBData B data p) \<and>
     ob_BidsMap (p_state P) = ob_BidsMap (UpdateByOBData B data p) \<and>
     ob_GetBestAsk (p_state P) = ob_GetBestAsk p \<and> ob_GetBestBid (p_state P) = ob_GetBestBid p"
proof -
  let ?P = "serial_pool () [UpdateByOBData_t B data] rs p"
  let ?rest = "then_p (book_best_t B) (Unlock () (Return ()))"
  let ?P1 = "?P\<lparr>p_owner := (\<lambda>_. Some 0), p_threads := bind_p (book_sides_t B data) (\<lambda>_. ?rest) # rs\<rparr>"
  let ?P2 = "\<lambda>s. ?P1\<lparr>p_state := s, p_threads := ?rest # rs\<rparr>"
  have "pstep ?P ?P1"
    by (auto simp: pstep_def tstep_def serial_pool_def guarded_def UpdateByOBData_t_def then_p_def bind_p_assoc
        fun_eq_iff intro!: exI [of _ 0])
  moreover obtain s where s: "alone (book_sides_t B data) p = Inr ((), s)"
    "ob_AsksMap s = ob_AsksMap (UpdateByOBData B data p)" "ob_BidsMap s = ob_BidsMap (UpdateByOBData B data p)"
    "ob_GetBestAsk s = ob_GetBestAsk p" "ob_GetBestBid s = ob_GetBestBid p"
    using alone_book_sides by blast
  moreover have "pstep\<^sup>*\<^sup>* ?P1 (?P2 s)"
    using run_prefix [of "book_sides_t B data" ?P1 "()" s 0 "\<lambda>_. ?rest"] s(1)
    by (simp add: serial_pool_def lock_free_book_sides)
  ultimately have "pstep\<^sup>*\<^sup>* ?P (?P2 s)" by (blast intro: converse_rtranclp_into_rtranclp)
  moreover have "p_state (?P2 s) = s" "drop 1 (p_threads (?P2 s)) = rs" by simp_all
  ultimately show ?thesis using s(2-5) by (intro exI [of _ "?P2 s"]) (simp only: simp_thms)
qed

end
