(* ===== verification/Insight_Providers.thy ===== *)
theory Insight_Providers
  imports Insight_Threads
begin

text \<open>
  The interfaces through which strategies read market data (\<open>insights/providers.go\<close>): \<open>Quote\<close>, which quotes and
  books implement, \<open>OrderBook\<close>, which extends it, and \<open>Trade\<close>. An interface is the record of its methods over
  the state of what implements it, embedding is extension of records, and the structs of the package are values
  of these types. The locales say what the methods promise and are interpreted on quotes and books.
\<close>

section \<open>The interfaces\<close>

record ('s, 'd) Quote =
  q_IsReady :: "'s \<Rightarrow> bool"
  q_CalcBestPrice :: "'s \<Rightarrow> 'd \<Rightarrow> ('d \<times> 'd) result"
  q_GetBestAsk :: "'s \<Rightarrow> 'd PriceLevel option"
  q_GetBestBid :: "'s \<Rightarrow> 'd PriceLevel option"
  q_GetDiffBestAsk :: "'s \<Rightarrow> 'd PriceLevel result"
  q_GetDiffBestBid :: "'s \<Rightarrow> 'd PriceLevel result"
  q_GetLastExecAt :: "'s \<Rightarrow> time option"
  q_GetLastArrivedAt :: "'s \<Rightarrow> time option"
  q_GetTickSize :: "'s \<Rightarrow> 'd"
  q_GetMinOrderQty :: "'s \<Rightarrow> 'd"
  q_RoundToTickSize :: "'s \<Rightarrow> 'd \<Rightarrow> 'd result"
  q_SetUpdateCallback :: "nat \<Rightarrow> 's \<Rightarrow> 's"

record ('s, 'd, 't) OrderBook = "('s, 'd) Quote" +
  b_SumVolume :: "'s \<Rightarrow> BookSide \<Rightarrow> 'd \<Rightarrow> 'd"
  b_AvgExecPrice :: "'s \<Rightarrow> BookSide \<Rightarrow> 'd \<Rightarrow> 'd result"
  b_AvgExecPriceBySide :: "'s \<Rightarrow> Side \<Rightarrow> 'd \<Rightarrow> 'd result"
  b_CalculateBidsVolSumMap :: "'s \<Rightarrow> ('d, 't) PriceLevelMap"
  b_CalculateAsksVolSumMap :: "'s \<Rightarrow> ('d, 't) PriceLevelMap"
  b_GetAsks :: "'s \<Rightarrow> int \<Rightarrow> 'd PriceLevel list"
  b_GetBids :: "'s \<Rightarrow> int \<Rightarrow> 'd PriceLevel list"
  b_SetDeferUpdateCallBack :: "nat \<Rightarrow> 's \<Rightarrow> 's"
  b_DropDeferUpdateCallBack :: "'s \<Rightarrow> 's"

record ('s, 'd) Trade =
  t_IsReady :: "'s \<Rightarrow> bool"
  t_SetUpdateCallback :: "nat \<Rightarrow> 's \<Rightarrow> 's"

definition quote_impl :: "('d \<Rightarrow> 'd \<Rightarrow> 'd) \<Rightarrow> ('d \<Rightarrow> 'd) \<Rightarrow> ('d :: linordered_idom QuoteImpl, 'd) Quote" where
  "quote_impl dv tr =
     \<lparr>q_IsReady = qt_IsReady, q_CalcBestPrice = qt_CalcBestPrice dv tr, q_GetBestAsk = qt_GetBestAsk,
      q_GetBestBid = qt_GetBestBid, q_GetDiffBestAsk = qt_GetDiffBestAsk, q_GetDiffBestBid = qt_GetDiffBestBid,
      q_GetLastExecAt = qt_GetLastExecAt, q_GetLastArrivedAt = qt_GetLastArrivedAt, q_GetTickSize = qt_GetTickSize,
      q_GetMinOrderQty = qt_GetMinOrderQty, q_RoundToTickSize = qt_RoundToTickSize dv tr,
      q_SetUpdateCallback = qt_SetUpdateCallback\<rparr>"

definition book_impl ::
  "('d PriceLevel, 't) BTreeOps \<Rightarrow> ('d \<Rightarrow> 'd \<Rightarrow> 'd) \<Rightarrow> ('d \<Rightarrow> 'd) \<Rightarrow>
     (('d :: linordered_idom, 't) OrderBookImpl, 'd, 't) OrderBook" where
  "book_impl B dv tr =
     \<lparr>q_IsReady = ob_IsReady, q_CalcBestPrice = ob_CalcBestPrice dv tr, q_GetBestAsk = ob_GetBestAsk,
      q_GetBestBid = ob_GetBestBid, q_GetDiffBestAsk = ob_GetDiffBestAsk, q_GetDiffBestBid = ob_GetDiffBestBid,
      q_GetLastExecAt = ob_GetLastExecAt, q_GetLastArrivedAt = ob_GetLastArrivedAt, q_GetTickSize = ob_GetTickSize,
      q_GetMinOrderQty = ob_GetMinOrderQty, q_RoundToTickSize = ob_RoundToTickSize dv tr,
      q_SetUpdateCallback = ob_SetUpdateCallback,
      b_SumVolume = ob_SumVolume B, b_AvgExecPrice = ob_AvgExecPrice B dv tr,
      b_AvgExecPriceBySide = ob_AvgExecPriceBySide B dv tr,
      b_CalculateBidsVolSumMap = CalculateBidsVolSumMap B, b_CalculateAsksVolSumMap = CalculateAsksVolSumMap B,
      b_GetAsks = GetAsks B, b_GetBids = GetBids B,
      b_SetDeferUpdateCallBack = SetDeferUpdateCallBack, b_DropDeferUpdateCallBack = DropDeferUpdateCallBack\<rparr>"

definition trade_impl :: "('d TradeImpl, 'd) Trade" where
  "trade_impl = \<lparr>t_IsReady = Trade_IsReady, t_SetUpdateCallback = Trade_SetUpdateCallback\<rparr>"

section \<open>What the methods promise\<close>

text \<open>
  \<open>ok\<close> is what holds of the state of a provider in use. Once it is ready every method has an answer, and
  registering a callback changes none of them.
\<close>

locale quote_provider = decimal_ops dv tr
  for dv :: "'d :: linordered_idom \<Rightarrow> 'd \<Rightarrow> 'd" and tr +
  fixes Q :: "('s, 'd, 'm) Quote_scheme" and ok :: "'s \<Rightarrow> bool"
  assumes ready_best: "ok s \<Longrightarrow> q_IsReady Q s \<Longrightarrow> q_GetBestAsk Q s \<noteq> None \<and> q_GetBestBid Q s \<noteq> None"
    and ready_diff: "ok s \<Longrightarrow> q_IsReady Q s \<Longrightarrow>
      (\<exists>a b. q_GetDiffBestAsk Q s = diff_levels (q_GetBestAsk Q s) (Some a) \<and>
        q_GetDiffBestBid Q s = diff_levels (q_GetBestBid Q s) (Some b))"
    and ready_times: "ok s \<Longrightarrow> q_IsReady Q s \<Longrightarrow> q_GetLastExecAt Q s \<noteq> None \<and> q_GetLastArrivedAt Q s \<noteq> None"
    and tick: "ok s \<Longrightarrow> 0 < q_GetTickSize Q s"
    and round: "q_RoundToTickSize Q s p = bind_r (dec_Div dv p (q_GetTickSize Q s)) (\<lambda>x. Inr (tr x * q_GetTickSize Q s))"
    and calc: "q_CalcBestPrice Q s p = bind_r (q_RoundToTickSize Q s p) (\<lambda>r. Inr (r + q_GetTickSize Q s, r))"
    and callback: "ok s \<Longrightarrow> ok (q_SetUpdateCallback Q cb s) \<and> q_IsReady Q (q_SetUpdateCallback Q cb s) = q_IsReady Q s"
begin

lemma ready_answers:
  assumes "ok s" and "q_IsReady Q s"
  shows "\<exists>a b da db t u. q_GetBestAsk Q s = Some a \<and> q_GetBestBid Q s = Some b \<and> q_GetDiffBestAsk Q s = Inr da \<and>
    q_GetDiffBestBid Q s = Inr db \<and> q_GetLastExecAt Q s = Some t \<and> q_GetLastArrivedAt Q s = Some u"
  using ready_best [OF assms] ready_diff [OF assms] ready_times [OF assms] by (auto simp: diff_levels_def)

lemma best_around:
  assumes "ok s" and "0 \<le> p"
  shows "\<exists>r n. q_RoundToTickSize Q s p = Inr r \<and> q_CalcBestPrice Q s p = Inr (r + q_GetTickSize Q s, r) \<and>
    r = of_int n * q_GetTickSize Q s \<and> 2 * 10 ^ 16 * (r - p) \<le> q_GetTickSize Q s \<and>
    2 * 10 ^ 16 * (p - (r + q_GetTickSize Q s)) < q_GetTickSize Q s"
proof -
  let ?t = "q_GetTickSize Q s"
  have t: "0 < ?t" by (rule tick [OF assms(1)])
  then have "q_RoundToTickSize Q s p = Inr (tr (dv p ?t) * ?t)" by (simp add: round dec_Div_def)
  with round_tick [OF t assms(2)] show ?thesis by (auto simp: calc)
qed

end

text \<open>A book answers with the same figures for a side of the book and for the order that meets it.\<close>

locale book_provider = quote_provider dv tr Q ok
  for dv :: "'d :: linordered_idom \<Rightarrow> 'd \<Rightarrow> 'd" and tr and Q :: "('s, 'd, 't) OrderBook" and ok +
  assumes by_side: "b_AvgExecPriceBySide Q s SideBuy q = b_AvgExecPrice Q s BookSideAsk q"
      "b_AvgExecPriceBySide Q s SideSell q = b_AvgExecPrice Q s BookSideBid q"
    and best_first: "ok s \<Longrightarrow> q_IsReady Q s \<Longrightarrow> b_GetAsks Q s n = a # as \<Longrightarrow> q_GetBestAsk Q s = Some a"
      "ok s \<Longrightarrow> q_IsReady Q s \<Longrightarrow> b_GetBids Q s n = b # bs \<Longrightarrow> q_GetBestBid Q s = Some b"
    and ascending: "ok s \<Longrightarrow> sorted_wrt (\<lambda>x y. pl_Price x < pl_Price y) (b_GetAsks Q s n) \<and>
      sorted_wrt (\<lambda>x y. pl_Price y < pl_Price x) (b_GetBids Q s n)"
begin

lemma best_of_listed:
  assumes "ok s" and "q_IsReady Q s"
  shows "b_GetAsks Q s n = [] \<or> (\<exists>a. q_GetBestAsk Q s = Some a \<and> a \<in> set (b_GetAsks Q s n) \<and> (\<forall>l \<in> set (b_GetAsks Q s n). pl_Price a \<le> pl_Price l))"
    "b_GetBids Q s n = [] \<or> (\<exists>b. q_GetBestBid Q s = Some b \<and> b \<in> set (b_GetBids Q s n) \<and> (\<forall>l \<in> set (b_GetBids Q s n). pl_Price l \<le> pl_Price b))"
proof -
  show "b_GetAsks Q s n = [] \<or> (\<exists>a. q_GetBestAsk Q s = Some a \<and> a \<in> set (b_GetAsks Q s n) \<and> (\<forall>l \<in> set (b_GetAsks Q s n). pl_Price a \<le> pl_Price l))"
  proof (cases "b_GetAsks Q s n")
    case (Cons a as)
    with best_first(1) [OF assms Cons] ascending [OF assms(1), of n] show ?thesis by (simp add: less_imp_le)
  qed simp
  show "b_GetBids Q s n = [] \<or> (\<exists>b. q_GetBestBid Q s = Some b \<and> b \<in> set (b_GetBids Q s n) \<and> (\<forall>l \<in> set (b_GetBids Q s n). pl_Price l \<le> pl_Price b))"
  proof (cases "b_GetBids Q s n")
    case (Cons b bs)
    with best_first(2) [OF assms Cons] ascending [OF assms(1), of n] show ?thesis by (simp add: less_imp_le)
  qed simp
qed

end

text \<open>A trade is ready from the first message on.\<close>

lemma trade_ready: "t_IsReady trade_impl (fold (\<lambda>(now, msg). Trade_Update now msg) ms NewTrade) \<longleftrightarrow> ms \<noteq> []"
  by (induction ms rule: rev_induct) (auto simp: trade_impl_def Trade_IsReady_def Trade_Update_def NewTrade_def)

section \<open>Quotes\<close>

definition quote_ok :: "'d :: linordered_idom QuoteImpl \<Rightarrow> bool" where
  "quote_ok q \<longleftrightarrow> 0 < sym_tickSize (qt_symbol q) \<and> (qt_lastArrivedAt q \<noteq> None \<longrightarrow> qt_lastExecAt q \<noteq> None)"

lemma quote_provides: "decimal_ops dv tr \<Longrightarrow> quote_provider dv tr (quote_impl dv tr) quote_ok"
  by (intro quote_provider.intro quote_provider_axioms.intro)
    (auto simp: quote_impl_def quote_ok_def qt_IsReady_def qt_GetBestAsk_def qt_GetBestBid_def qt_GetDiffBestAsk_def
      qt_GetDiffBestBid_def qt_GetLastExecAt_def qt_GetLastArrivedAt_def qt_GetTickSize_def qt_RoundToTickSize_def
      qt_CalcBestPrice_def qt_SetUpdateCallback_def bind_r_def split: sum.splits)

interpretation quotes: quote_provider rat_div16 rat_trunc "quote_impl rat_div16 rat_trunc" quote_ok
  by (rule quote_provides) (rule rat_dec.decimal_ops_axioms)

lemma quote_ok_update: "quote_ok q \<Longrightarrow> quote_ok (Quote_Update msg q)"
  by (auto simp: quote_ok_def Quote_Update_def Let_def split: option.splits if_splits)

lemma quote_ok_new: "0 < sym_tickSize sy \<Longrightarrow> quote_ok (NewQuote sy)"
  by (simp add: quote_ok_def NewQuote_def)

section \<open>Books\<close>

definition cached :: "('d PriceLevel, 't) BTreeOps \<Rightarrow> ('d :: linordered_idom, 't) OrderBookImpl \<Rightarrow> bool" where
  "cached B b \<longleftrightarrow> (ob_currentBestAsk b \<noteq> None \<longrightarrow> ob_currentBestAsk b = Some (top_of B (ob_AsksMap b))) \<and>
     (ob_currentBestBid b \<noteq> None \<longrightarrow> ob_currentBestBid b = Some (top_of B (ob_BidsMap b)))"

definition book_used ::
  "('d PriceLevel, 't) BTreeOps \<Rightarrow> (('d PriceLevel \<Rightarrow> 'd PriceLevel \<Rightarrow> bool) \<Rightarrow> 't \<Rightarrow> bool) \<Rightarrow>
     ('d :: linordered_idom, 't) OrderBookImpl \<Rightarrow> bool" where
  "book_used B ok b \<longleftrightarrow> 0 < sym_tickSize (ob_symbol b) \<and> book_ok B ok b \<and> cached B b \<and>
     (ob_lastExecAt b \<noteq> None \<longrightarrow> ob_lastArrivedAt b \<noteq> None)"

lemma UpdateByOBData_stamp:
  "ob_lastArrivedAt (UpdateByOBData B data b) = Some (bd_ArrivedAt data)" "ob_symbol (UpdateByOBData B data b) = ob_symbol b"
  by (auto simp: UpdateByOBData_def resetBySnapshot_def updateByDelta_def Let_def split: option.split DataType.split)

lemma take_first [simp]: "take (max (Suc 0) n) (x # xs) = x # take (n - 1) xs"
  by (cases n) auto

context level_tree
begin

lemma book_used_new: "0 < sym_tickSize sy \<Longrightarrow> book_used B ok (NewOrderBook B sy)"
  using book_new by (simp add: book_used_def cached_def) (simp add: NewOrderBook_def)

lemma book_used_update: "book_used B ok b \<Longrightarrow> book_used B ok (UpdateByOBData B data b)"
  using book_step [of b data] book_current [of b data] by (simp add: book_used_def cached_def UpdateByOBData_stamp)

lemma book_used_callbacks:
  assumes "book_used B ok b"
  shows "book_used B ok (ob_SetUpdateCallback cb b)" "book_used B ok (SetDeferUpdateCallBack cb b)"
    "book_used B ok (DropDeferUpdateCallBack b)"
  using assms
  by (simp_all add: book_used_def cached_def book_ok_def ob_SetUpdateCallback_def SetDeferUpdateCallBack_def
      DropDeferUpdateCallBack_def)

lemma book_provides:
  assumes "decimal_ops dv tr"
  shows "book_provider dv tr (book_impl B dv tr) (book_used B ok)"
proof -
  have "quote_provider dv tr (book_impl B dv tr) (book_used B ok)"
    using assms
    by (intro quote_provider.intro quote_provider_axioms.intro)
      (auto simp: book_impl_def book_used_callbacks ob_IsReady_def ob_GetBestAsk_def ob_GetBestBid_def
        ob_GetDiffBestAsk_def ob_GetDiffBestBid_def ob_GetLastExecAt_def ob_GetLastArrivedAt_def ob_GetTickSize_def
        ob_RoundToTickSize_def RoundToTick_def ob_CalcBestPrice_def ob_SetUpdateCallback_def bind_r_def
        book_used_def book_ok_def cached_def split: sum.splits)
  moreover have "book_provider_axioms (book_impl B dv tr) (book_used B ok)"
    using book_sides
    by (intro book_provider_axioms.intro)
      (auto simp: book_impl_def ob_AvgExecPriceBySide_def ob_AvgExecPrice_def GetAsks_def GetBids_def top_levels_take
        ob_IsReady_def book_used_def cached_def top_of_def ob_GetBestAsk_def ob_GetBestBid_def sorted_wrt_take
        split: list.splits)
  ultimately show ?thesis by (rule book_provider.intro)
qed

end

interpretation books: book_provider rat_div16 rat_trunc "book_impl list_btree rat_div16 rat_trunc" "book_used list_btree list_ok"
  by (rule list_tree.book_provides) (rule rat_dec.decimal_ops_axioms)

section \<open>Ready means that every method answers\<close>

text \<open>What happens to a quote or a book: messages arrive and the strategy registers and drops callbacks.\<close>

datatype 'm usage = Arrives 'm | Registers nat | Defers nat | Drops

fun use_quote :: "'d QuoteData usage \<Rightarrow> 'd QuoteImpl \<Rightarrow> 'd QuoteImpl" where
  "use_quote (Arrives msg) q = Quote_Update msg q"
| "use_quote (Registers cb) q = qt_SetUpdateCallback cb q"
| "use_quote u q = q"

fun use_book ::
  "('d PriceLevel, 't) BTreeOps \<Rightarrow> 'd :: linordered_idom OrderBookData usage \<Rightarrow> ('d, 't) OrderBookImpl \<Rightarrow> ('d, 't) OrderBookImpl" where
  "use_book B (Arrives data) b = UpdateByOBData B data b"
| "use_book B (Registers cb) b = ob_SetUpdateCallback cb b"
| "use_book B (Defers cb) b = SetDeferUpdateCallBack cb b"
| "use_book B Drops b = DropDeferUpdateCallBack b"

lemma quote_ok_uses: "quote_ok q \<Longrightarrow> quote_ok (fold use_quote us q)"
proof (induction us arbitrary: q)
  case (Cons u us)
  have "quote_ok (qt_SetUpdateCallback cb q)" for cb
    using Cons.prems by (simp add: quote_ok_def qt_SetUpdateCallback_def)
  with Cons show ?case by (cases u) (simp_all add: quote_ok_update)
qed simp

context level_tree
begin

lemma book_used_uses: "book_used B ok b \<Longrightarrow> book_used B ok (fold (use_book B) us b)"
proof (induction us arbitrary: b)
  case (Cons u us)
  then show ?case by (cases u) (simp_all add: book_used_update book_used_callbacks)
qed simp

end




text \<open>Two messages each, at the tick size of a symbol of the registry.\<close>

definition demo_level :: "rat \<Rightarrow> rat PriceLevel" where
  "demo_level p = \<lparr>pl_SeqID = 1, pl_Price = p, pl_Volume = 1\<rparr>"

definition demo_quotes :: "rat QuoteData usage list" where
  "demo_quotes = [Registers 0, Arrives \<lparr>qd_SeqID = 1, qd_ExecAt = 1, qd_EventAt = 1, qd_ArrivedAt = 2, qd_BestAsk = Some (demo_level 102),
      qd_BestBid = Some (demo_level 101)\<rparr>,
    Arrives \<lparr>qd_SeqID = 2, qd_ExecAt = 2, qd_EventAt = 2, qd_ArrivedAt = 3, qd_BestAsk = Some (demo_level 103), qd_BestBid = Some (demo_level 101)\<rparr>]"

definition demo_books :: "rat OrderBookData usage list" where
  "demo_books = [Defers 1, Arrives \<lparr>bd_Type = DataTypeSnapshot, bd_ExecAt = 1, bd_ArrivedAt = 2, bd_Bids = [demo_level 101], bd_Asks = [demo_level 102], bd_SeqID = 1\<rparr>,
    Drops, Arrives \<lparr>bd_Type = DataTypeDelta, bd_ExecAt = 2, bd_ArrivedAt = 3, bd_Bids = [], bd_Asks = [], bd_SeqID = 2\<rparr>]"


end
