(* ===== verification/Display.thy ===== *)
theory Display
  imports Order_Book_Correct Strconv
begin

text \<open>
  \<open>pkg/display/book_display.go\<close>: the terminal display of order books, column by column. A Go
  string is its bytes and a \<open>range\<close> loop visits its runes, so the UTF-8 decoding of the
  language is part of the model. \<open>fixed2\<close> and \<open>dec_str\<close> are \<open>StringFixed(2)\<close> and \<open>String\<close> of the
  decimal package. What is printed is a list of lines after the escape sequence that clears the
  screen.
\<close>

section \<open>Strings as runes\<close>

definition bytes :: "string \<Rightarrow> nat list" where
  "bytes s = map of_char s"

definition cont :: "nat \<Rightarrow> nat \<Rightarrow> nat list \<Rightarrow> nat \<Rightarrow> bool" where
  "cont lo hi bs i \<longleftrightarrow> i < length bs \<and> lo \<le> bs ! i \<and> bs ! i \<le> hi"

text \<open>The runes of a byte sequence; an invalid byte is the rune U+FFFD of width one.\<close>

function runes :: "nat list \<Rightarrow> nat list" where
  "runes [] = []"
| "runes (b # bs) =
     (let lo = (if b = 0xE0 then 0xA0 else if b = 0xF0 then 0x90 else 0x80);
          hi = (if b = 0xED then 0x9F else if b = 0xF4 then 0x8F else 0xBF)
      in if b < 0x80 then b # runes bs
         else if 0xC2 \<le> b \<and> b \<le> 0xDF \<and> cont 0x80 0xBF bs 0
           then ((b mod 32) * 64 + bs ! 0 mod 64) # runes (drop 1 bs)
         else if 0xE0 \<le> b \<and> b \<le> 0xEF \<and> cont lo hi bs 0 \<and> cont 0x80 0xBF bs 1
           then ((b mod 16) * 4096 + (bs ! 0 mod 64) * 64 + bs ! 1 mod 64) # runes (drop 2 bs)
         else if 0xF0 \<le> b \<and> b \<le> 0xF4 \<and> cont lo hi bs 0 \<and> cont 0x80 0xBF bs 1 \<and> cont 0x80 0xBF bs 2
           then ((b mod 8) * 262144 + (bs ! 0 mod 64) * 4096 + (bs ! 1 mod 64) * 64 + bs ! 2 mod 64) # runes (drop 3 bs)
         else 0xFFFD # runes bs)"
  by pat_completeness auto
termination by (relation "measure length") auto

section \<open>book\_display.go\<close>

definition ESC :: nat where "ESC = 27"

fun visible_loop :: "bool \<Rightarrow> nat list \<Rightarrow> nat" where
  "visible_loop inEsc [] = 0"
| "visible_loop inEsc (r # rs) =
     (if r = ESC then visible_loop True rs
      else if inEsc then visible_loop (r \<noteq> of_char (CHR ''m'')) rs
      else 1 + visible_loop inEsc rs)"

definition visibleLen :: "string \<Rightarrow> nat" where
  "visibleLen s = visible_loop False (runes (bytes s))"

definition esc_seq :: "string \<Rightarrow> string" where
  "esc_seq code = char_of ESC # ''['' @ code"

definition Repeat :: "char \<Rightarrow> nat \<Rightarrow> string" where
  "Repeat c n = replicate n c"

definition ask_line :: "('d \<Rightarrow> string) \<Rightarrow> ('d \<Rightarrow> string) \<Rightarrow> 'd PriceLevel \<Rightarrow> string" where
  "ask_line fixed2 dec_str l =
     ''  '' @ esc_seq ''31m'' @ ''Ask '' @ fixed2 (pl_Price l) @ '': '' @ dec_str (pl_Volume l) @ esc_seq ''0m''"

definition bid_line :: "('d \<Rightarrow> string) \<Rightarrow> ('d \<Rightarrow> string) \<Rightarrow> 'd PriceLevel \<Rightarrow> string" where
  "bid_line fixed2 dec_str l =
     ''  '' @ esc_seq ''32m'' @ ''Bid '' @ fixed2 (pl_Price l) @ '': '' @ dec_str (pl_Volume l) @ esc_seq ''0m''"

text \<open>The padding of the header and of the spread line: \<open>innerWidth\<close> may be negative.\<close>

definition padded :: "char \<Rightarrow> int \<Rightarrow> string \<Rightarrow> string" where
  "padded c innerWidth txt =
     (let d = innerWidth - int (length txt);
          padTotal = nat (if d < 0 then 0 else d);
          padLeft = padTotal div 2;
          padRight = padTotal - padLeft
      in ''  '' @ Repeat c padLeft @ txt @ Repeat c padRight)"

text \<open>The lines of a book with best prices and levels as they have been read, and the width of its column.\<close>

definition book_lines ::
  "('d \<Rightarrow> string) \<Rightarrow> ('d \<Rightarrow> string) \<Rightarrow> string \<Rightarrow> 'd :: linordered_idom PriceLevel \<Rightarrow> 'd PriceLevel \<Rightarrow> 'd PriceLevel list \<Rightarrow>
     'd PriceLevel list \<Rightarrow> string list \<times> nat" where
  "book_lines fixed2 dec_str title bestAsk bestBid asks bids =
     (let dataLines = map (ask_line fixed2 dec_str) (rev asks) @ map (bid_line fixed2 dec_str) bids;
          maxWidth = fold (\<lambda>line w. if w < visibleLen line then visibleLen line else w) dataLines 0;
          innerWidth = int maxWidth - 2;
          header = padded (CHR ''='') innerWidth ('' '' @ title @ '' '');
          spread = padded (CHR ''-'') innerWidth ('' spread('' @ fixed2 (pl_Price bestAsk - pl_Price bestBid) @ '') '')
      in ([header] @ take (length asks) dataLines @ [spread] @ drop (length asks) dataLines @ [[]], maxWidth))"

definition waiting_lines :: "string \<Rightarrow> string list \<times> nat" where
  "waiting_lines title = (let line = title @ '': waiting for data...'' in ([line], length line))"

definition buildBookLines ::
  "('d PriceLevel, 't) BTreeOps \<Rightarrow> ('d \<Rightarrow> string) \<Rightarrow> ('d \<Rightarrow> string) \<Rightarrow> int \<Rightarrow> string \<Rightarrow> ('d :: linordered_idom, 't) OrderBookImpl \<Rightarrow>
     string list \<times> nat" where
  "buildBookLines B fixed2 dec_str depth title ob =
     (case (ob_GetBestAsk ob, ob_GetBestBid ob) of
        (Some bestAsk, Some bestBid) \<Rightarrow>
          book_lines fixed2 dec_str title bestAsk bestBid (GetAsks B ob depth) (GetBids B ob depth)
      | _ \<Rightarrow> waiting_lines title)"

record ('d, 't) BookEntry =
  be_Title :: string
  be_OB :: "('d, 't) OrderBookImpl"

record ('d, 't) BookDisplay =
  di_depth :: int
  di_books :: "('d, 't) BookEntry list"

definition NewBookDisplay :: "int \<Rightarrow> ('d, 't) BookEntry list \<Rightarrow> ('d, 't) BookDisplay" where
  "NewBookDisplay depth books = \<lparr>di_depth = depth, di_books = books\<rparr>"

text \<open>One row: the line of each column, padded to the width of the column unless it is the last one.\<close>

definition cell :: "(string list \<times> nat) list \<Rightarrow> nat \<Rightarrow> nat \<Rightarrow> string" where
  "cell cols row col =
     (let lines = fst (cols ! col); line = (if row < length lines then lines ! row else []) in
      if col < length cols - 1
      then line @ Repeat (CHR '' '') (snd (cols ! col) - visibleLen line) @ ''  ''
      else line)"

definition columns ::
  "('d PriceLevel, 't) BTreeOps \<Rightarrow> ('d \<Rightarrow> string) \<Rightarrow> ('d \<Rightarrow> string) \<Rightarrow> ('d :: linordered_idom, 't) BookDisplay \<Rightarrow>
     (string list \<times> nat) list" where
  "columns B fixed2 dec_str d =
     map (\<lambda>e. buildBookLines B fixed2 dec_str (di_depth d) (be_Title e) (be_OB e)) (di_books d)"

text \<open>The rows that are printed from the columns.\<close>

definition frame_rows :: "(string list \<times> nat) list \<Rightarrow> string list" where
  "frame_rows cols =
     (let maxRows = fold (\<lambda>c n. if n < length (fst c) then length (fst c) else n) cols 0
      in map (\<lambda>row. concat (map (cell cols row) [0..<length cols])) [0..<maxRows])"

definition Books :: "('d, 't) BookDisplay \<Rightarrow> ('d, 't) BookEntry list" where
  "Books d = di_books d"

definition Render ::
  "('d PriceLevel, 't) BTreeOps \<Rightarrow> ('d \<Rightarrow> string) \<Rightarrow> ('d \<Rightarrow> string) \<Rightarrow> ('d :: linordered_idom, 't) BookDisplay \<Rightarrow> string list" where
  "Render B fixed2 dec_str d = frame_rows (columns B fixed2 dec_str d)"

section \<open>Visible lengths\<close>

text \<open>Strings of ASCII characters, with every escape sequence ended; and without any.\<close>

fun esc_after :: "bool \<Rightarrow> nat list \<Rightarrow> bool" where
  "esc_after inEsc [] = inEsc"
| "esc_after inEsc (r # rs) = esc_after (r = ESC \<or> inEsc \<and> r \<noteq> of_char (CHR ''m'')) rs"

definition closed_text :: "string \<Rightarrow> bool" where
  "closed_text s \<longleftrightarrow> (\<forall>b \<in> set (bytes s). b < 128) \<and> \<not> esc_after False (bytes s)"

definition plain_text :: "string \<Rightarrow> bool" where
  "plain_text s \<longleftrightarrow> (\<forall>b \<in> set (bytes s). b < 128 \<and> b \<noteq> ESC)"

lemma runes_ascii: "\<forall>b \<in> set bs. b < 128 \<Longrightarrow> runes bs = bs"
  by (induction bs) auto

lemma visible_append: "visible_loop e (xs @ ys) = visible_loop e xs + visible_loop (esc_after e xs) ys"
proof (induction xs arbitrary: e)
  case (Cons r rs)
  then show ?case by (cases e) (auto simp: ESC_def)
qed simp

lemma esc_after_append: "esc_after e (xs @ ys) = esc_after (esc_after e xs) ys"
  by (induction xs arbitrary: e) auto

lemma bytes_append [simp]: "bytes (s @ t) = bytes s @ bytes t" "bytes [] = []" "bytes (c # s) = of_char c # bytes s"
  by (simp_all add: bytes_def)

lemma visibleLen_append: "closed_text s \<Longrightarrow> closed_text t \<Longrightarrow> visibleLen (s @ t) = visibleLen s + visibleLen t"
  by (simp add: visibleLen_def closed_text_def runes_ascii visible_append ball_Un)

lemma closed_append: "closed_text s \<Longrightarrow> closed_text t \<Longrightarrow> closed_text (s @ t)"
  by (auto simp: closed_text_def esc_after_append)

lemma plain_loop: "\<forall>b \<in> set bs. b < 128 \<and> b \<noteq> ESC \<Longrightarrow> visible_loop False bs = length bs \<and> \<not> esc_after False bs"
  by (induction bs) auto

lemma plain_closed: "plain_text s \<Longrightarrow> closed_text s"
  using plain_loop [of "bytes s"] by (simp add: closed_text_def plain_text_def)

lemma visibleLen_plain: "plain_text s \<Longrightarrow> visibleLen s = length s"
proof -
  assume p: "plain_text s"
  then have "runes (bytes s) = bytes s" by (simp add: plain_text_def runes_ascii)
  with p plain_loop [of "bytes s"] show ?thesis by (simp add: visibleLen_def plain_text_def bytes_def)
qed

lemma plain_append [simp]: "plain_text (s @ t) \<longleftrightarrow> plain_text s \<and> plain_text t"
  by (auto simp: plain_text_def)

lemma plain_Cons: "plain_text (c # s) \<longleftrightarrow> of_char c < (128 :: nat) \<and> of_char c \<noteq> ESC \<and> plain_text s"
  by (auto simp: plain_text_def)

lemma plain_Nil [simp]: "plain_text []"
  by (simp add: plain_text_def)

lemma plain_Repeat [simp]: "of_char c < (128 :: nat) \<Longrightarrow> of_char c \<noteq> ESC \<Longrightarrow> plain_text (Repeat c n)"
  by (auto simp: plain_text_def bytes_def Repeat_def)

lemmas plain_simps = plain_Cons ESC_def

lemma closed_colour: "closed_text (esc_seq ''31m'') \<and> closed_text (esc_seq ''32m'') \<and> closed_text (esc_seq ''0m'')"
  by (simp add: closed_text_def esc_seq_def ESC_def)

lemma closed_data_line:
  assumes "\<And>x. plain_text (fixed2 x)" and "\<And>x. plain_text (dec_str x)"
  shows "closed_text (ask_line fixed2 dec_str l) \<and> closed_text (bid_line fixed2 dec_str l)"
proof -
  have t: "closed_text ''  ''" "closed_text ''Ask ''" "closed_text ''Bid ''" "closed_text '': ''"
    by (rule plain_closed, simp add: plain_simps)+
  show ?thesis unfolding ask_line_def bid_line_def
    by (intro conjI closed_append t plain_closed [OF assms(1)] plain_closed [OF assms(2)])
      (use closed_colour in auto)
qed

lemma padded_length: "length (padded c w txt) = nat (max (w + 2) (int (length txt) + 2))"
  by (auto simp: padded_def Let_def Repeat_def)

lemma plain_padded: "plain_text txt \<Longrightarrow> of_char c < (128 :: nat) \<Longrightarrow> of_char c \<noteq> ESC \<Longrightarrow> plain_text (padded c w txt)"
  by (simp add: padded_def Let_def plain_simps)

lemma fold_max: "fold (\<lambda>x w. if w < f x then f x else w) xs w0 = fold (\<lambda>x w. max w (f x :: nat)) xs w0"
  by (intro fold_cong ext) (auto simp: max_def)

lemma fold_max_ge: "w0 \<le> fold (\<lambda>x w. max w (f x :: nat)) xs w0 \<and> (\<forall>x \<in> set xs. f x \<le> fold (\<lambda>x w. max w (f x)) xs w0)"
proof (induction xs arbitrary: w0)
  case (Cons x xs)
  from Cons [of "max w0 (f x)"] show ?case by auto
qed simp

text \<open>The header and the spread line fit between the data lines.\<close>

definition texts_fit :: "('d \<Rightarrow> string) \<Rightarrow> string \<Rightarrow> ('d :: linordered_idom, 't) OrderBookImpl \<Rightarrow> nat \<Rightarrow> bool" where
  "texts_fit fixed2 title ob width =
     (case (ob_GetBestAsk ob, ob_GetBestBid ob) of
        (Some bestAsk, Some bestBid) \<Rightarrow>
          length title + 4 \<le> width \<and> length (fixed2 (pl_Price bestAsk - pl_Price bestBid)) + 12 \<le> width
      | _ \<Rightarrow> True)"

lemma book_lines_fit:
  assumes "\<And>x. plain_text (fixed2 x)" and "\<And>x. plain_text (dec_str x)" and "plain_text title"
    and "buildBookLines B fixed2 dec_str depth title ob = (ls, width)" and "texts_fit fixed2 title ob width"
    and "line \<in> set ls"
  shows "closed_text line \<and> visibleLen line \<le> width"
proof (cases "\<exists>a b. ob_GetBestAsk ob = Some a \<and> ob_GetBestBid ob = Some b")
  case False
  then have "line = title @ '': waiting for data...''" "width = length line"
    using assms(4,6) by (auto simp: buildBookLines_def book_lines_def waiting_lines_def Let_def split: option.splits)
  moreover have "plain_text (title @ '': waiting for data...'')" using assms(3) by (simp add: plain_simps)
  ultimately show ?thesis by (simp add: plain_closed visibleLen_plain)
next
  case True
  then obtain a b where ab: "ob_GetBestAsk ob = Some a" "ob_GetBestBid ob = Some b" by blast
  let ?data = "map (ask_line fixed2 dec_str) (rev (GetAsks B ob depth)) @ map (bid_line fixed2 dec_str) (GetBids B ob depth)"
  let ?head = "padded (CHR ''='') (int width - 2) ('' '' @ title @ '' '')"
  let ?spread = "padded (CHR ''-'') (int width - 2) ('' spread('' @ fixed2 (pl_Price a - pl_Price b) @ '') '')"
  have w: "width = fold (\<lambda>line w. max w (visibleLen line)) ?data 0"
    and ls: "set ls = {?head, ?spread, []} \<union> set (take (length (GetAsks B ob depth)) ?data) \<union> set (drop (length (GetAsks B ob depth)) ?data)"
    using assms(4) ab by (auto simp: buildBookLines_def book_lines_def waiting_lines_def Let_def fold_max)
  have "closed_text line \<and> visibleLen line \<le> width" if "line \<in> set ?data"
    using that closed_data_line [of fixed2 dec_str, OF assms(1,2)] fold_max_ge [of 0 visibleLen ?data] w by auto
  moreover have "plain_text ?head" "plain_text ?spread" using assms(1,3) by (simp_all add: plain_padded plain_simps)
  moreover have "length ?head \<le> width" "length ?spread \<le> width"
    using assms(5) ab by (auto simp: padded_length texts_fit_def)
  ultimately show ?thesis using assms(6) ls
    by (auto simp: plain_closed visibleLen_plain dest!: in_set_takeD in_set_dropD)
qed

text \<open>
  The columns of the display are aligned: when titles and spreads fit into their columns,
  the part of every row before column \<open>j\<close> has the same visible length, the sum of the widths
  of the columns before it and their gaps, whatever the books hold and whatever colours the
  lines have.
\<close>

theorem display_columns_aligned:
  assumes "cols = columns B fixed2 dec_str d" and "\<And>x. plain_text (fixed2 x)" and "\<And>x. plain_text (dec_str x)"
    and "\<forall>e \<in> set (di_books d). plain_text (be_Title e)"
    and "\<forall>i < length (di_books d). texts_fit fixed2 (be_Title (di_books d ! i)) (be_OB (di_books d ! i)) (snd (cols ! i))"
    and "row < length (Render B fixed2 dec_str d)" and "j < length (di_books d)"
  shows "\<exists>rest. Render B fixed2 dec_str d ! row = concat (map (cell cols row) [0..<j]) @ rest \<and>
     visibleLen (concat (map (cell cols row) [0..<j])) = (\<Sum>i<j. snd (cols ! i) + 2)"
proof -
  have len: "length cols = length (di_books d)" by (simp add: assms(1) columns_def)
  have fit: "closed_text line \<and> visibleLen line \<le> snd (cols ! i)" if "i < length cols" "line \<in> set (fst (cols ! i))" for i line
    using that assms(4,5) book_lines_fit [of fixed2 dec_str, OF assms(2,3), of "be_Title (di_books d ! i)" B "di_depth d" "be_OB (di_books d ! i)"
        "fst (cols ! i)" "snd (cols ! i)" line]
    by (simp add: assms(1) columns_def)
  have cell: "closed_text (cell cols row i) \<and> visibleLen (cell cols row i) = snd (cols ! i) + 2" if "i < j" for i
  proof -
    let ?line = "if row < length (fst (cols ! i)) then fst (cols ! i) ! row else []"
    have i: "i < length cols" "i < length cols - 1" using that assms(7) len by auto
    have line: "closed_text ?line \<and> visibleLen ?line \<le> snd (cols ! i)"
      using fit [OF i(1), of ?line] visibleLen_plain [of "[]"] plain_closed [of "[]"] by auto
    have pad: "plain_text (Repeat (CHR '' '') n @ ''  '')" for n by (simp add: plain_simps)
    have "cell cols row i = ?line @ (Repeat (CHR '' '') (snd (cols ! i) - visibleLen ?line) @ ''  '')"
      using i by (simp add: cell_def Let_def)
    with line pad show ?thesis
      by (simp add: closed_append plain_closed visibleLen_append visibleLen_plain Repeat_def)
  qed
  have "closed_text (concat (map (cell cols row) [0..<k])) \<and> visibleLen (concat (map (cell cols row) [0..<k])) = (\<Sum>i<k. snd (cols ! i) + 2)"
    if "k \<le> j" for k
    using that
  proof (induction k)
    case 0
    show ?case using visibleLen_plain [of "[]"] plain_closed [of "[]"] by simp
  next
    case (Suc k)
    then show ?case using cell [of k] by (simp add: closed_append visibleLen_append)
  qed
  moreover have "Render B fixed2 dec_str d ! row = concat (map (cell cols row) [0..<j]) @ concat (map (cell cols row) [j..<length cols])"
  proof -
    have "[0..<length cols] = [0..<j] @ [j..<length cols]" using assms(7) len by (metis le_add_diff_inverse less_or_eq_imp_le upt_add_eq_append zero_le)
    then show ?thesis using assms(6) by (simp add: Render_def frame_rows_def assms(1) Let_def)
  qed
  ultimately show ?thesis by blast
qed

lemma plain_FormatInt: "plain_text (FormatInt n)"
  using format_nat_digits [of "nat n"] format_nat_digits [of "nat (- n)"]
  by (auto simp: FormatInt_def plain_text_def bytes_def list_all_iff is_digit_def ESC_def)

definition demo_display :: "(int, (int PriceLevel \<Rightarrow> int PriceLevel \<Rightarrow> bool) \<times> int PriceLevel list) BookDisplay" where
  "demo_display = NewBookDisplay 5
     [\<lparr>be_Title = ''T'', be_OB = UpdateByOBData list_btree demo_snapshot (NewOrderBook list_btree demo_symbol)\<rparr>,
      \<lparr>be_Title = ''U'', be_OB = NewOrderBook list_btree demo_symbol\<rparr>]"

definition demo_volume :: "int \<Rightarrow> string" where
  "demo_volume v = FormatInt v @ ''.0000''"

text \<open>The second row of the display: an ask of the first book, padded to the width of its column.\<close>

theorem display_columns_aligned_witness:
  "\<exists>rest. Render list_btree FormatInt demo_volume demo_display ! 1 =
     concat (map (cell (columns list_btree FormatInt demo_volume demo_display) 1) [0..<1]) @ rest \<and>
     visibleLen (concat (map (cell (columns list_btree FormatInt demo_volume demo_display) 1) [0..<1])) = 19"
proof -
  let ?cols = "columns list_btree FormatInt demo_volume demo_display"
  have vol: "plain_text (demo_volume x)" for x
    using plain_FormatInt [of x] by (simp add: demo_volume_def plain_simps)
  have w: "snd (?cols ! 0) = 17" "length (Render list_btree FormatInt demo_volume demo_display) = 7" by code_simp+
  have fit: "\<forall>i < length (di_books demo_display).
     texts_fit FormatInt (be_Title (di_books demo_display ! i)) (be_OB (di_books demo_display ! i)) (snd (?cols ! i))"
    by code_simp
  have titles: "\<forall>e \<in> set (di_books demo_display). plain_text (be_Title e)"
    by (simp add: demo_display_def NewBookDisplay_def plain_simps)
  have "length (di_books demo_display) = 2" by (simp add: demo_display_def NewBookDisplay_def)
  with display_columns_aligned [OF refl plain_FormatInt vol titles fit, of 1 1] w show ?thesis by simp
qed

end
