(* ===== verification/Lock_Order.thy ===== *)
theory Lock_Order
  imports Rely
begin

text \<open>
  Goroutines that may hold several mutexes but take them in the order of a rank. Such a pool is never
  stuck: among the goroutines that wait, the one that waits for the mutex of the highest rank waits
  for a goroutine that can run.
\<close>

section \<open>Ranked mutexes\<close>

primrec ordered :: "('l \<Rightarrow> nat) \<Rightarrow> ('s, 'l, 'v) prog \<Rightarrow> 'l set \<Rightarrow> ('v \<Rightarrow> 'l set \<Rightarrow> bool) \<Rightarrow> bool" where
  "ordered rank (Return v) H Q = Q v H"
| "ordered rank (Act f k) H Q = (\<forall>s. ordered rank (k s) H Q)"
| "ordered rank (Lock l p) H Q = ((\<forall>h \<in> H. rank h < rank l) \<and> ordered rank p (insert l H) Q)"
| "ordered rank (Unlock l p) H Q = (l \<in> H \<and> ordered rank p (H - {l}) Q)"

lemma ordered_locks: "ordered rank p H Q \<Longrightarrow> locks True p H Q"
  by (induction p arbitrary: H) auto

lemma ordered_bind [simp]: "ordered rank (bind_p p g) H Q = ordered rank p H (\<lambda>v K. ordered rank (g v) K Q)"
  by (induction p arbitrary: H) simp_all

lemma ordered_then [simp]: "ordered rank (then_p p q) H Q = ordered rank p H (\<lambda>_ K. ordered rank q K Q)"
  by (simp add: then_p_def)

lemma ordered_mono: "ordered rank p H Q \<Longrightarrow> (\<And>v K. Q v K \<Longrightarrow> Q' v K) \<Longrightarrow> ordered rank p H Q'"
  by (induction p arbitrary: H) auto

lemma ordered_read [simp]: "ordered rank (read_p g) H Q = (\<forall>s. Q (g s) H)"
  by (simp add: read_p_def)

lemma ordered_upd [simp]: "ordered rank (upd_p f) H Q = Q () H"
  by (simp add: upd_p_def)

lemma ordered_acts [simp]: "ordered rank (acts fs) H Q = Q () H"
  by (induction fs) simp_all

text \<open>A loop whose body gives back the mutexes it takes.\<close>

lemma ordered_for:
  assumes "\<And>x. ordered rank (body x) H (\<lambda>_ K. K = H)" and "Q () H"
  shows "ordered rank (for_p body xs) H Q"
  using assms(2)
proof (induction xs)
  case (Cons x xs)
  then show ?case using assms(1) [of x] by (auto intro: ordered_mono)
qed simp

section \<open>Pools\<close>

definition ordered_pool :: "('l \<Rightarrow> nat) \<Rightarrow> ('s, 'l) pool \<Rightarrow> bool" where
  "ordered_pool rank P \<longleftrightarrow>
     (\<forall>i < length (p_threads P). ordered rank (p_threads P ! i) (held P i) nothing_held) \<and>
     (\<forall>l i. p_owner P l = Some i \<longrightarrow> i < length (p_threads P))"

lemma ordered_poolD: "ordered_pool rank P \<Longrightarrow> i < length (p_threads P) \<Longrightarrow> ordered rank (p_threads P ! i) (held P i) nothing_held"
  by (simp add: ordered_pool_def)

lemma ordered_pool_disciplined: "ordered_pool rank P \<Longrightarrow> disciplined (\<lambda>_. True) P"
  by (auto simp: ordered_pool_def disciplined_def intro: ordered_locks)

lemma ordered_start:
  "list_all (\<lambda>p. ordered rank p {} nothing_held) ps \<Longrightarrow>
     ordered_pool rank \<lparr>p_state = s, p_owner = (\<lambda>_. None), p_threads = ps\<rparr>"
  by (auto simp: ordered_pool_def held_def list_all_length)

lemma step_ordered:
  assumes "ordered_pool rank P" and "tstep i P = Some (Inr P')"
  shows "ordered_pool rank P'"
proof -
  have i: "i < length (p_threads P)" using assms(2) by (auto simp: tstep_def split: if_splits)
  note ord = ordered_poolD [OF assms(1) i]
  have own: "k < length (p_threads P)" if "p_owner P l = Some k" for l k
    using that assms(1) by (auto simp: ordered_pool_def)
  obtain p where ts: "p_threads P' = (p_threads P)[i := p]" and here: "ordered rank p (held P' i) nothing_held"
    and there: "\<And>k. k \<noteq> i \<Longrightarrow> held P' k = held P k"
  proof (cases "p_threads P ! i")
    case (Act f k)
    with assms(2) i obtain s where "P' = P\<lparr>p_state := s, p_threads := (p_threads P)[i := k (p_state P)]\<rparr>"
      by (auto simp: tstep_def bind_r_eq_Inr)
    with ord Act show thesis by (intro that [of "k (p_state P)"]) (auto simp: held_def)
  next
    case (Lock l p)
    with assms(2) i have l: "p_owner P l = None" and
      P': "P' = P\<lparr>p_owner := (p_owner P)(l \<mapsto> i), p_threads := (p_threads P)[i := p]\<rparr>"
      by (auto simp: tstep_def split: if_splits)
    with ord Lock show thesis by (intro that [of p]) (auto simp: held_lock)
  next
    case (Unlock l p)
    with ord have l: "l \<in> held P i" by simp
    with assms(2) i Unlock have "P' = P\<lparr>p_owner := (p_owner P)(l := None), p_threads := (p_threads P)[i := p]\<rparr>"
      by (auto simp: tstep_def held_def)
    with ord Unlock l show thesis by (intro that [of p]) (auto simp: held_unlock)
  qed (use assms(2) i in \<open>simp add: tstep_def\<close>)
  have "k < length (p_threads P')" if "p_owner P' l = Some k" for l k
  proof (cases "k = i")
    case False
    with that there [of k] have "p_owner P l = Some k" by (auto simp: held_def)
    then show ?thesis using own ts by simp
  qed (use i ts in simp)
  moreover have "ordered rank (p_threads P' ! k) (held P' k) nothing_held" if "k < length (p_threads P)" for k
    using that ts here there ordered_poolD [OF assms(1) that] by (cases "k = i") auto
  ultimately show ?thesis using ts by (simp add: ordered_pool_def)
qed

lemma steps_ordered: "pstep\<^sup>*\<^sup>* P P' \<Longrightarrow> ordered_pool rank P \<Longrightarrow> ordered_pool rank P'"
  by (induction rule: rtranclp_induct) (auto simp: pstep_def intro: step_ordered)

lemma ordered_progress:
  assumes "ordered_pool rank P" and "\<not> all_returned P"
  shows "\<exists>i. tstep i P \<noteq> None"
proof (rule ccontr)
  assume "\<nexists>i. tstep i P \<noteq> None"
  then have stuck: "tstep i P = None" for i by blast
  note dis = ordered_pool_disciplined [OF assms(1)]
  have waits: "\<exists>l p k. p_threads P ! i = Lock l p \<and> p_owner P l = Some k" if "i < length (p_threads P)" "\<not> returned (p_threads P ! i)" for i
    using that stuck [of i] tstep_None_iff [OF that(1)] by blast
  let ?r = "\<lambda>i. case p_threads P ! i of Lock l p \<Rightarrow> rank l | _ \<Rightarrow> 0"
  let ?I = "{i. i < length (p_threads P) \<and> \<not> returned (p_threads P ! i)}"
  have fin: "finite (?r ` ?I)" by simp
  have "?I \<noteq> {}" using assms(2) by (auto simp: all_returned_def list_all_length)
  then have "Max (?r ` ?I) \<in> ?r ` ?I" using fin by (intro Max_in) auto
  then obtain j where j: "j \<in> ?I" "?r j = Max (?r ` ?I)" by auto
  with waits [of j] obtain l p k where l: "p_threads P ! j = Lock l p" "p_owner P l = Some k" by auto
  with holder_not_returned [OF dis] have k: "k \<in> ?I" by blast
  with waits [of k] obtain l' p' where l': "p_threads P ! k = Lock l' p'" by auto
  with ordered_poolD [OF assms(1), of k] k l(2) have "rank l < rank l'" by (auto simp: held_def)
  moreover have "?r k \<le> Max (?r ` ?I)" using fin k by (intro Max_ge) auto
  ultimately show False using j(2) l(1) l' by simp
qed

section \<open>What every access does\<close>

text \<open>No access of the program panics, and each of them relates the states before and after by \<open>R\<close>.\<close>

primrec every :: "('s \<Rightarrow> 's \<Rightarrow> bool) \<Rightarrow> ('s, 'l, 'v) prog \<Rightarrow> bool" where
  "every R (Return v) = True"
| "every R (Act f k) = (\<forall>s. (\<exists>u. f s = Inr u \<and> R s u) \<and> every R (k s))"
| "every R (Lock l p) = every R p"
| "every R (Unlock l p) = every R p"

lemma every_bind: "every R p \<Longrightarrow> (\<And>v. every R (g v)) \<Longrightarrow> every R (bind_p p g)"
  by (induction p) auto

lemma every_then: "every R p \<Longrightarrow> every R q \<Longrightarrow> every R (then_p p q)"
  by (simp add: then_p_def every_bind)

lemma every_access [simp]: "every R (read_p g) = (\<forall>s. R s s)" "every R (upd_p f) = (\<forall>s. R s (f s))"
  by (simp_all add: read_p_def upd_p_def)

lemma every_acts: "list_all (\<lambda>f. \<forall>s. R s (f s)) fs \<Longrightarrow> every R (acts fs)"
  by (induction fs) (auto intro: every_then)

lemma every_for: "(\<And>x. every R (body x)) \<Longrightarrow> every R (for_p body xs)"
  by (induction xs) (auto intro: every_then)

lemma every_mono: "every R p \<Longrightarrow> (\<And>s u. R s u \<Longrightarrow> R' s u) \<Longrightarrow> every R' p"
  by (induction p) (auto, blast)

lemmas every_intros = every_bind every_then every_acts every_for

section \<open>Programs without panics\<close>

abbreviation panic_free :: "('s, 'l, 'v) prog \<Rightarrow> bool" where
  "panic_free \<equiv> every (\<lambda>_ _. True)"

definition panic_free_pool :: "('s, 'l) pool \<Rightarrow> bool" where
  "panic_free_pool P \<longleftrightarrow> list_all panic_free (p_threads P)"

lemma sub_prog_every: "(q, p) \<in> sub_prog \<Longrightarrow> every R p \<Longrightarrow> every R q"
  by (erule sub_prog.cases) auto

lemma step_panic_free: "panic_free_pool P \<Longrightarrow> pstep P P' \<Longrightarrow> panic_free_pool P'"
  by (auto simp: panic_free_pool_def pstep_def list_all_length nth_list_update dest!: tstep_sub_prog dest: sub_prog_every)

lemma steps_panic_free: "pstep\<^sup>*\<^sup>* P P' \<Longrightarrow> panic_free_pool P \<Longrightarrow> panic_free_pool P'"
  by (induction rule: rtranclp_induct) (auto intro: step_panic_free)

lemma panic_free_step:
  assumes "panic_free_pool P" and "ordered_pool rank P"
  shows "tstep i P \<noteq> Some (Inl e)"
proof (cases "i < length (p_threads P)")
  case True
  then have t: "panic_free (p_threads P ! i)" using assms(1) by (simp add: panic_free_pool_def list_all_length)
  show ?thesis
  proof (cases "p_threads P ! i")
    case (Act f k)
    with t obtain u where "f (p_state P) = Inr u" by fastforce
    with True Act show ?thesis by (simp add: tstep_def)
  next
    case (Unlock l p)
    with disciplined_no_bad_unlock [OF ordered_pool_disciplined [OF assms(2)] True] True show ?thesis
      by (simp add: tstep_def)
  qed (use True in \<open>auto simp: tstep_def\<close>)
qed (simp add: tstep_def)

text \<open>Such a pool never panics, never blocks and comes to an end with every goroutine returned.\<close>

lemma ordered_return:
  assumes "panic_free_pool P" and "ordered_pool rank P"
  shows "\<exists>P'. pstep\<^sup>*\<^sup>* P P' \<and> all_returned P'"
  using assms
proof (induction P rule: wf_induct_rule [OF wf_pstep])
  case (1 P)
  show ?case
  proof (cases "all_returned P")
    case False
    then obtain i m where "tstep i P = Some m" using ordered_progress [OF "1.prems"(2)] by blast
    moreover from this obtain P1 where "m = Inr P1"
      using panic_free_step [OF "1.prems", of i] by (cases m) auto
    ultimately have P1: "pstep P P1" "ordered_pool rank P1"
      using step_ordered [OF "1.prems"(2)] by (auto simp: pstep_def)
    with "1.IH" [of P1] step_panic_free [OF "1.prems"(1)] show ?thesis by (auto intro: converse_rtranclp_into_rtranclp)
  qed blast
qed

section \<open>Calls with ordered locks\<close>

text \<open>The interface of calls that run in goroutines: they take their mutexes in the order of a rank and no access panics.\<close>

locale ordered_calls =
  fixes prog_of :: "'e \<Rightarrow> ('s, 'l, unit) prog" and rank :: "'l \<Rightarrow> nat"
  assumes call_ordered: "ordered rank (prog_of e) {} nothing_held" and call_panic_free: "panic_free (prog_of e)"
begin

definition start :: "'e list \<Rightarrow> 's \<Rightarrow> ('s, 'l) pool" where
  "start es s = \<lparr>p_state = s, p_owner = (\<lambda>_. None), p_threads = map prog_of es\<rparr>"

lemma start_ordered: "ordered_pool rank (start es s)"
  unfolding start_def by (rule ordered_start) (simp add: list_all_iff call_ordered)

lemma calls_ordered: "pstep\<^sup>*\<^sup>* (start es s) P \<Longrightarrow> ordered_pool rank P"
  using steps_ordered start_ordered by blast

lemma calls_panic_free: "pstep\<^sup>*\<^sup>* (start es s) P \<Longrightarrow> panic_free_pool P"
  by (erule steps_panic_free) (simp add: start_def panic_free_pool_def list_all_iff call_panic_free)

lemma calls_return:
  assumes "pstep\<^sup>*\<^sup>* (start es s) P"
  shows "tstep i P \<noteq> Some (Inl e)" and "\<not> all_returned P \<Longrightarrow> \<exists>i. tstep i P \<noteq> None"
    and "\<exists>P'. pstep\<^sup>*\<^sup>* P P' \<and> all_returned P'"
  by (rule panic_free_step ordered_progress ordered_return, rule calls_panic_free [OF assms] calls_ordered [OF assms],
      (rule calls_ordered [OF assms] | assumption)?)+

end

end
