(* ===== verification/Book_Monitor.thy ===== *)
theory Book_Monitor
  imports Insight_Threads Display Lock_Order Startup
begin

text \<open>
  \<open>examples/book-monitor/main.go\<close>: the program that shows two order books of CoinEx on the terminal.
  \<open>strategy_init\<close> composes the initialisers as \<open>init\<close> does; \<open>strategy_start\<close> registers \<open>Render\<close> with both
  books, and from then on every update of a book draws the screen before it returns. Updates of the
  two books run in goroutines of their own, so the update and \<open>Render\<close> are modelled access by access:
  a goroutine holds the lock of the update handler of its book and takes the lock of the display inside it.
  A pointer to a book is the symbol of the book.
\<close>

section \<open>main.go: init\<close>

definition SymbolCoinExFuturesBTCUSDT :: "(rat \<Rightarrow> 'd) \<Rightarrow> 'd Symbol" where
  "SymbolCoinExFuturesBTCUSDT nf = fst (newSymbol nf ExchangeCoinEx ProductFutures ''BTCUSDT'' (1/100) (1/10000) AssetUSDT empty_tables)"
definition SymbolCoinExFuturesSOLUSDT :: "(rat \<Rightarrow> 'd) \<Rightarrow> 'd Symbol" where
  "SymbolCoinExFuturesSOLUSDT nf = fst (newSymbol nf ExchangeCoinEx ProductFutures ''SOLUSDT'' (1/100) (5/100) AssetUSDT empty_tables)"

text \<open>The display of the strategy: its depth and, for every book, the title and the pointer.\<close>

record 'd strategy =
  sg_depth :: int
  sg_entries :: "(string \<times> 'd Symbol) list"

definition symbolList :: "(rat \<Rightarrow> 'd) \<Rightarrow> 'd Symbol list" where
  "symbolList nf = [SymbolCoinExFuturesBTCUSDT nf, SymbolCoinExFuturesSOLUSDT nf]"

text \<open>
  \<open>init\<close> up to the wait. \<open>GetOrderBook\<close> of a symbol that is not registered is nil. What is running afterwards
  is the gateway and, since the no-op mode starts it, the exporter.
\<close>

record ('d, 't) monitor_init =
  mi_lapua :: "(unit, 'd) lapua"
  mi_gm :: "(('d, 't) cx_market, unit) cx_GatewayManager"
  mi_insights :: "('d, 't) cx_market"
  mi_running :: "goroutine list"
  mi_strategy :: "'d strategy"

definition book_entry :: "('d, 't) cx_market \<Rightarrow> 'd Symbol \<Rightarrow> (string \<times> 'd Symbol) result" where
  "book_entry ins symbol = (case GetOrderBook ins symbol of Some _ \<Rightarrow> Inr (sym_name symbol, symbol) | None \<Rightarrow> Inl NilDeref)"

definition strategy_init ::
  "('d PriceLevel, 't) BTreeOps \<Rightarrow> (string \<Rightarrow> error + 'd :: linordered_idom) \<Rightarrow> (rat \<Rightarrow> 'd) \<Rightarrow> ('d Symbol list \<Rightarrow> 'd Symbol list) \<Rightarrow>
   (string \<Rightarrow> string \<Rightarrow> string \<Rightarrow> string option) \<Rightarrow> time \<Rightarrow> ('d, 't) monitor_init result" where
  "strategy_init B dec nf rng influx now =
     (let l = InitAndStartNoopMode influx in
      bind_r (cx_InitGatewayManager None 3 (lp_Exporter l)) (\<lambda>(gm0, exporter).
      bind_r (cx_InitInsights B dec rng now [] (symbolList nf) [] (Some gm0)) (\<lambda>(gm, ins).
      bind_r (cx_StartGateway (Some gm)) (\<lambda>running.
      bind_r (book_entry ins (SymbolCoinExFuturesBTCUSDT nf)) (\<lambda>btc.
      bind_r (book_entry ins (SymbolCoinExFuturesSOLUSDT nf)) (\<lambda>sol.
        Inr \<lparr>mi_lapua = l\<lparr>lp_Exporter := Some exporter\<rparr>, mi_gm = gm, mi_insights = ins, mi_running = running,
             mi_strategy = \<lparr>sg_depth = 5, sg_entries = [btc, sol]\<rparr>\<rparr>))))))"

section \<open>book\_display.go: Render while books change\<close>

text \<open>The state the goroutines share: the books and what is on the screen, \<open>None\<close> before the first frame.\<close>

record ('d, 't) monitor =
  mo_books :: "'d Symbol \<Rightarrow> ('d, 't) OrderBookImpl"
  mo_screen :: "string list option"

datatype 'd monitor_lock = HandlerLock "'d Symbol" | DisplayLock

type_synonym ('d, 't, 'v) mprog = "(('d, 't) monitor, 'd monitor_lock, 'v) prog"

text \<open>How the decimals are printed: \<open>StringFixed(2)\<close> and \<open>String\<close>.\<close>

record 'd printers =
  pr_fixed2 :: "'d \<Rightarrow> string"
  pr_string :: "'d \<Rightarrow> string"

definition buildBookLines_t ::
  "('d PriceLevel, 't) BTreeOps \<Rightarrow> 'd printers \<Rightarrow> int \<Rightarrow> string \<times> 'd :: linordered_idom Symbol \<Rightarrow> ('d, 't, string list \<times> nat) mprog" where
  "buildBookLines_t B pr depth e =
     (case e of (title, ob) \<Rightarrow>
        bind_p (read_p (\<lambda>s. ob_GetBestAsk (mo_books s ob))) (\<lambda>a.
        bind_p (read_p (\<lambda>s. ob_GetBestBid (mo_books s ob))) (\<lambda>b.
          case (a, b) of
            (Some bestAsk, Some bestBid) \<Rightarrow>
              bind_p (read_p (\<lambda>s. GetAsks B (mo_books s ob) depth)) (\<lambda>asks.
              bind_p (read_p (\<lambda>s. GetBids B (mo_books s ob) depth)) (\<lambda>bids.
                Return (book_lines (pr_fixed2 pr) (pr_string pr) title bestAsk bestBid asks bids)))
          | _ \<Rightarrow> Return (waiting_lines title))))"

primrec columns_t ::
  "('d PriceLevel, 't) BTreeOps \<Rightarrow> 'd printers \<Rightarrow> int \<Rightarrow> (string \<times> 'd :: linordered_idom Symbol) list \<Rightarrow>
     ('d, 't, (string list \<times> nat) list) mprog" where
  "columns_t B pr depth [] = Return []"
| "columns_t B pr depth (e # es) =
     bind_p (buildBookLines_t B pr depth e) (\<lambda>c. bind_p (columns_t B pr depth es) (\<lambda>cs. Return (c # cs)))"

definition print_frame :: "(string list \<times> nat) list \<Rightarrow> ('d, 't) monitor \<Rightarrow> ('d, 't) monitor" where
  "print_frame cols s = s\<lparr>mo_screen := Some (frame_rows cols)\<rparr>"

definition Render_t ::
  "('d PriceLevel, 't) BTreeOps \<Rightarrow> 'd printers \<Rightarrow> 'd :: linordered_idom strategy \<Rightarrow> ('d, 't, unit) mprog" where
  "Render_t B pr sg =
     Lock DisplayLock (bind_p (columns_t B pr (sg_depth sg) (sg_entries sg)) (\<lambda>cols.
       then_p (upd_p (print_frame cols)) (Unlock DisplayLock (Return ()))))"

text \<open>What a reader at rest would draw.\<close>

definition display_now :: "'d strategy \<Rightarrow> ('d, 't) monitor \<Rightarrow> ('d, 't) BookDisplay" where
  "display_now sg s =
     NewBookDisplay (sg_depth sg) (map (\<lambda>(title, ob). \<lparr>be_Title = title, be_OB = mo_books s ob\<rparr>) (sg_entries sg))"

section \<open>orderbook\_handlers.go: an update that calls Render\<close>

text \<open>An access to the book of \<open>k\<close>; the locks of the accessors are taken for the one access only.\<close>

definition put_book :: "'d Symbol \<Rightarrow> ('d, 't) OrderBookImpl \<Rightarrow> ('d, 't) monitor \<Rightarrow> ('d, 't) monitor" where
  "put_book k p s = s\<lparr>mo_books := (mo_books s)(k := p)\<rparr>"

primrec at_book :: "'d Symbol \<Rightarrow> ('d, 't, 'v) bprog \<Rightarrow> ('d, 't, 'v) mprog" where
  "at_book k (Return v) = Return v"
| "at_book k (Act f g) =
     Act (\<lambda>s. bind_r (f (mo_books s k)) (\<lambda>p. Inr (put_book k p s))) (\<lambda>s. at_book k (g (mo_books s k)))"
| "at_book k (Lock l p) = Lock (HandlerLock k) (at_book k p)"
| "at_book k (Unlock l p) = Unlock (HandlerLock k) (at_book k p)"

text \<open>The only callback of the program is \<open>Render\<close>, as callback 0.\<close>

definition call_t ::
  "('d PriceLevel, 't) BTreeOps \<Rightarrow> 'd printers \<Rightarrow> 'd :: linordered_idom strategy \<Rightarrow> book_callback \<Rightarrow> ('d, 't, unit) mprog" where
  "call_t B pr sg c = (case c of BookCallback _ \<Rightarrow> Render_t B pr sg | NopCallback \<Rightarrow> Return ())"

definition monitor_update_t ::
  "('d PriceLevel, 't) BTreeOps \<Rightarrow> 'd printers \<Rightarrow> 'd :: linordered_idom strategy \<Rightarrow> 'd Symbol \<times> 'd OrderBookData \<Rightarrow> ('d, 't, unit) mprog" where
  "monitor_update_t B pr sg u =
     (case u of (k, data) \<Rightarrow>
        guarded (HandlerLock k)
          (then_p (at_book k (book_sides_t B data))
            (then_p (at_book k (book_record_t B))
              (book_callbacks_t (\<lambda>s. mo_books s k) (call_t B pr sg)))))"

section \<open>main.go: start\<close>

definition strategy_start :: "'d strategy \<Rightarrow> ('d, 't) monitor \<Rightarrow> ('d, 't) monitor" where
  "strategy_start sg s =
     fold (\<lambda>(title, ob) s. put_book ob (ob_SetUpdateCallback 0 (mo_books s ob)) s) (sg_entries sg) s"

text \<open>The pool of updates that arrive once \<open>start\<close> has registered the callbacks.\<close>

definition monitor_pool ::
  "('d PriceLevel, 't) BTreeOps \<Rightarrow> 'd printers \<Rightarrow> 'd :: linordered_idom strategy \<Rightarrow> ('d Symbol \<times> 'd OrderBookData) list \<Rightarrow>
     ('d, 't) monitor \<Rightarrow> (('d, 't) monitor, 'd monitor_lock) pool" where
  "monitor_pool B pr sg us s =
     \<lparr>p_state = s, p_owner = (\<lambda>_. None), p_threads = map (monitor_update_t B pr sg) us\<rparr>"

end
