(* ===== verification/Book_Monitor_Runs.thy ===== *)
theory Book_Monitor_Runs
  imports Book_Monitor
begin

text \<open>
  Runs of the book monitor, access by access: the order of the locks, what a frame shows while books change, the
  invariant by which the screen never stays behind for good, and the one by which every book gets all its
  updates.
\<close>

section \<open>Locks and panics\<close>

definition lock_rank :: "'d monitor_lock \<Rightarrow> nat" where
  "lock_rank l = (case l of HandlerLock _ \<Rightarrow> 0 | DisplayLock \<Rightarrow> 1)"

lemma ordered_lock_free: "lock_free p \<Longrightarrow> (\<And>v. Q v H) \<Longrightarrow> ordered rank p H Q"
  by (induction p) auto

lemma at_book_free: "lock_free p \<Longrightarrow> lock_free (at_book k p)"
  by (induction p) auto

lemma lock_free_book_record: "lock_free (book_record_t B)"
  by (auto simp: book_record_t_def intro!: lock_free_bind)

lemma lock_free_columns: "lock_free (columns_t B pr depth es)" "read_only (columns_t B pr depth es)"
  by (induction es)
    (auto simp: buildBookLines_t_def intro!: lock_free_bind read_only_bind split: prod.split option.split)

lemma ordered_Render: "ordered lock_rank (Render_t B pr sg) {HandlerLock k} (\<lambda>_ K. K = {HandlerLock k})"
  by (auto simp: Render_t_def lock_rank_def intro!: ordered_lock_free lock_free_columns)

lemma ordered_call: "ordered lock_rank (call_t B pr sg c) {HandlerLock k} (\<lambda>_ K. K = {HandlerLock k})"
  by (auto simp: call_t_def ordered_Render split: book_callback.split)

lemma ordered_callbacks:
  assumes "\<And>c. ordered rank (call c) H (\<lambda>_ K. K = H)" and "Q () H"
  shows "ordered rank (book_callbacks_t ob call) H Q"
proof -
  have "ordered rank (case dc of Some c \<Rightarrow> call c | None \<Rightarrow> Return ()) H Q" for dc
    using assms(2) ordered_mono [OF assms(1)] by (cases dc) auto
  then show ?thesis unfolding book_callbacks_t_def by (simp add: ordered_for [OF assms(1)])
qed

lemma ordered_update: "ordered lock_rank (monitor_update_t B pr sg u) {} nothing_held"
proof -
  obtain k data where u: "u = (k, data)" by (cases u)
  have "ordered lock_rank (book_callbacks_t (\<lambda>s. mo_books s k) (call_t B pr sg)) {HandlerLock k}
      (\<lambda>_ K. ordered lock_rank (Unlock (HandlerLock k) (Return ())) K nothing_held)"
    by (rule ordered_callbacks) (simp_all add: ordered_call nothing_held_def)
  then show ?thesis
    unfolding u monitor_update_t_def guarded_def prod.case ordered.simps(3) ordered_bind ordered_then
    by (intro conjI ordered_lock_free [OF at_book_free [OF lock_free_book_sides]]
        ordered_lock_free [OF at_book_free [OF lock_free_book_record]]) simp_all
qed

text \<open>What the accesses of an update leave alone.\<close>

definition same_callbacks :: "('d, 't) OrderBookImpl \<Rightarrow> ('d, 't) OrderBookImpl \<Rightarrow> bool" where
  "same_callbacks p q \<longleftrightarrow> ob_updateCallback q = ob_updateCallback p \<and> ob_deferCallback q = ob_deferCallback p"

definition only_at :: "'d Symbol \<Rightarrow> ('d, 't) monitor \<Rightarrow> ('d, 't) monitor \<Rightarrow> bool" where
  "only_at k s t \<longleftrightarrow> mo_screen t = mo_screen s \<and> (\<forall>j. j \<noteq> k \<longrightarrow> mo_books t j = mo_books s j) \<and>
     same_callbacks (mo_books s k) (mo_books t k)"

lemma every_book_sides: "every same_callbacks (book_sides_t B data)"
  by (auto simp: book_sides_t_def updateByDelta_t_def resetBySnapshot_t_def snapshot_side_t_def delta_row_t_def
      ob_accessor_defs same_callbacks_def intro!: every_intros split: option.split DataType.split)

lemma every_book_record: "every same_callbacks (book_record_t B)"
  by (auto simp: book_record_t_def ob_accessor_defs same_callbacks_def intro!: every_intros)

lemma every_at_book: "every same_callbacks p \<Longrightarrow> every (only_at k) (at_book k p)"
proof (induction p)
  case (Act f g)
  have "\<exists>u. bind_r (f (mo_books s k)) (\<lambda>p. Inr (put_book k p s)) = Inr u \<and> only_at k s u" for s
  proof -
    from Act.prems obtain p where "f (mo_books s k) = Inr p" "same_callbacks (mo_books s k) p" by auto
    then show ?thesis by (simp add: only_at_def put_book_def)
  qed
  with Act show ?case by auto
qed simp_all

lemma panic_free_Render: "panic_free (Render_t B pr sg)"
proof -
  have "panic_free (columns_t B pr depth es)" for depth es
    by (induction es) (auto simp: buildBookLines_t_def intro!: every_intros split: prod.split option.split)
  then show ?thesis by (auto simp: Render_t_def intro!: every_intros)
qed

lemma panic_free_update: "panic_free (monitor_update_t B pr sg u)"
proof -
  have "panic_free (at_book k (book_sides_t B data))" for k data
    by (rule every_mono [OF every_at_book [OF every_book_sides]]) simp
  moreover have "panic_free (at_book k (book_record_t B))" for k
    by (rule every_mono [OF every_at_book [OF every_book_record]]) simp
  moreover have "panic_free (call_t B pr sg c)" for c by (simp add: call_t_def panic_free_Render split: book_callback.split)
  ultimately show ?thesis
    by (auto simp: monitor_update_t_def guarded_def book_callbacks_t_def intro!: every_intros split: prod.split option.split)
qed

interpretation monitor_calls: ordered_calls "monitor_update_t B pr sg" lock_rank for B pr sg
  by unfold_locales (rule ordered_update panic_free_update)+

lemma monitor_pool_start: "monitor_pool B pr sg us s = monitor_calls.start B pr sg us s"
  by (simp add: monitor_pool_def monitor_calls.start_def)

section \<open>A frame and the books\<close>

text \<open>While a frame is drawn the others may change all books but one: its column is drawn as if the books stood still.\<close>

interpretation one_book: rely "\<lambda>_. True" "\<lambda>_ _. True" "\<lambda>_ s t. mo_books s y = mo_books t y" for y
  by unfold_locales simp_all

definition column_of :: "('d PriceLevel, 't) BTreeOps \<Rightarrow> 'd printers \<Rightarrow> 'd :: linordered_idom strategy \<Rightarrow> string \<Rightarrow> ('d, 't) OrderBookImpl \<Rightarrow> string list \<times> nat" where
  "column_of B pr sg title ob = buildBookLines B (pr_fixed2 pr) (pr_string pr) (sg_depth sg) title ob"

text \<open>The columns of the book \<open>y\<close> among \<open>cols\<close> show it as it is in \<open>s\<close>.\<close>

definition shows_book ::
  "('d PriceLevel, 't) BTreeOps \<Rightarrow> 'd printers \<Rightarrow> 'd :: linordered_idom strategy \<Rightarrow> (string \<times> 'd Symbol) list \<Rightarrow> 'd Symbol \<Rightarrow>
     (string list \<times> nat) list \<Rightarrow> ('d, 't) monitor \<Rightarrow> bool" where
  "shows_book B pr sg es y cols s \<longleftrightarrow>
     list_all2 (\<lambda>(title, ob) c. ob = y \<longrightarrow> c = column_of B pr sg title (mo_books s ob)) es cols"

lemma stable_book [simp]: "one_book.stable y H (\<lambda>s. mo_books s y = b \<and> c)"
  by (auto simp: one_book.stable_def)

lemma draw_column:
  "one_book.hoare y H (\<lambda>s. mo_books s y = b) (buildBookLines_t B pr (sg_depth sg) (title, ob))
     (\<lambda>c s. mo_books s y = b \<and> (ob = y \<longrightarrow> c = column_of B pr sg title b))"
proof -
  note read = one_book.hoare_read [of y H]
  let ?A = "\<lambda>a s. mo_books s y = b \<and> (ob = y \<longrightarrow> a = ob_GetBestAsk b)"
  let ?B = "\<lambda>a v s. mo_books s y = b \<and> (ob = y \<longrightarrow> a = ob_GetBestAsk b \<and> v = ob_GetBestBid b)"
  let ?C = "\<lambda>a v asks s. mo_books s y = b \<and> (ob = y \<longrightarrow> a = ob_GetBestAsk b \<and> v = ob_GetBestBid b \<and> asks = GetAsks B b (sg_depth sg))"
  let ?D = "\<lambda>a v asks bids s. mo_books s y = b \<and> (ob = y \<longrightarrow> a = ob_GetBestAsk b \<and> v = ob_GetBestBid b \<and>
    asks = GetAsks B b (sg_depth sg) \<and> bids = GetBids B b (sg_depth sg))"
  let ?post = "\<lambda>c s. mo_books s y = b \<and> (ob = y \<longrightarrow> c = column_of B pr sg title b)"
  have ask: "one_book.hoare y H (\<lambda>s. mo_books s y = b) (read_p (\<lambda>s. ob_GetBestAsk (mo_books s ob))) ?A"
    by (rule read) (auto simp: one_book.stable_def)
  have bid: "one_book.hoare y H (?A a) (read_p (\<lambda>s. ob_GetBestBid (mo_books s ob))) (?B a)" for a
    by (rule read) (auto simp: one_book.stable_def)
  have asks: "one_book.hoare y H (?B a v) (read_p (\<lambda>s. GetAsks B (mo_books s ob) (sg_depth sg))) (?C a v)" for a v
    by (rule read) (auto simp: one_book.stable_def)
  have bids: "one_book.hoare y H (?C a v asks) (read_p (\<lambda>s. GetBids B (mo_books s ob) (sg_depth sg))) (?D a v asks)" for a v asks
    by (rule read) (auto simp: one_book.stable_def)
  have lines: "one_book.hoare y H (?D (Some a) (Some v) asks bids)
      (Return (book_lines (pr_fixed2 pr) (pr_string pr) title a v asks bids)) ?post" for a v asks bids
    by (rule one_book.hoare_return) (auto simp: one_book.stable_def column_of_def buildBookLines_def split: option.split)
  have none: "one_book.hoare y H (?B a v) (Return (waiting_lines title)) ?post" if "a = None \<or> v = None" for a v
    by (rule one_book.hoare_return) (use that in \<open>auto simp: one_book.stable_def column_of_def buildBookLines_def split: option.split\<close>)
  have rest: "one_book.hoare y H (?B a v)
      (case (a, v) of
         (Some bestAsk, Some bestBid) \<Rightarrow>
           bind_p (read_p (\<lambda>s. GetAsks B (mo_books s ob) (sg_depth sg))) (\<lambda>asks.
           bind_p (read_p (\<lambda>s. GetBids B (mo_books s ob) (sg_depth sg))) (\<lambda>bids.
             Return (book_lines (pr_fixed2 pr) (pr_string pr) title bestAsk bestBid asks bids)))
       | _ \<Rightarrow> Return (waiting_lines title)) ?post" for a v
  proof (cases "a = None \<or> v = None")
    case True
    with none [OF True] show ?thesis by (cases a; cases v) simp_all
  next
    case False
    then obtain a' v' where av: "a = Some a'" "v = Some v'" by auto
    show ?thesis unfolding av prod.case option.case
      by (rule one_book.hoare_bind [OF asks], rule one_book.hoare_bind [OF bids], rule lines)
  qed
  show ?thesis
    unfolding buildBookLines_t_def prod.case [of _ title ob]
    by (rule one_book.hoare_bind [OF ask], rule one_book.hoare_bind [OF bid], rule rest)
qed

lemma draw_columns:
  "one_book.hoare y H (\<lambda>s. mo_books s y = b) (columns_t B pr (sg_depth sg) es)
     (\<lambda>cols s. mo_books s y = b \<and> shows_book B pr sg es y cols s)"
proof (induction es)
  case Nil
  show ?case by (simp, rule one_book.hoare_return) (auto simp: one_book.stable_def shows_book_def)
next
  case (Cons e es)
  obtain title ob where e: "e = (title, ob)" by (cases e)
  let ?c = "\<lambda>c. ob = y \<longrightarrow> c = column_of B pr sg title b"
  have "one_book.hoare y H (\<lambda>s. mo_books s y = b \<and> ?c c) (columns_t B pr (sg_depth sg) es)
      (\<lambda>cs s. (mo_books s y = b \<and> shows_book B pr sg es y cs s) \<and> ?c c)" for c
    using Cons by (cases "?c c") (auto intro: one_book.hoare_never)
  moreover have "one_book.hoare y H (\<lambda>s. (mo_books s y = b \<and> shows_book B pr sg es y cs s) \<and> ?c c) (Return (c # cs))
      (\<lambda>cols s. mo_books s y = b \<and> shows_book B pr sg (e # es) y cols s)" for c cs
    by (rule one_book.hoare_return) (auto simp: one_book.stable_def shows_book_def e elim!: list.rel_mono_strong)
  ultimately show ?case
    unfolding e columns_t.simps by (blast intro: one_book.hoare_bind draw_column)
qed

text \<open>A frame that is being drawn and will show \<open>y\<close> as it is now, unless \<open>y\<close> changes.\<close>

abbreviation fresh_in where
  "fresh_in B pr sg y q s \<equiv>
     safe (\<lambda>_. True) (\<lambda>_ _. True) (\<lambda>_ s t. mo_books s y = mo_books t y) q {} (\<lambda>cols _ t. shows_book B pr sg (sg_entries sg) y cols t) s"

lemma fresh_start: "fresh_in B pr sg y (columns_t B pr (sg_depth sg) (sg_entries sg)) s"
  using draw_columns [of y "{}" "mo_books s y" B pr sg "sg_entries sg"]
  by (auto simp: one_book.hoare_def elim!: one_book.safe_weaken)

lemma shows_all_columns:
  assumes "\<forall>y \<in> snd ` set (sg_entries sg). shows_book B pr sg (sg_entries sg) y cols s" and "sg_entries sg \<noteq> []"
  shows "frame_rows cols = Render B (pr_fixed2 pr) (pr_string pr) (display_now sg s)"
proof -
  have "cols = map (\<lambda>(title, ob). column_of B pr sg title (mo_books s ob)) es"
    if "\<forall>y \<in> snd ` set es. shows_book B pr sg es y cols s" "list_all2 (\<lambda>_ _. True) es cols" for es
  proof (rule nth_equalityI)
    show "length cols = length (map (\<lambda>(title, ob). column_of B pr sg title (mo_books s ob)) es)"
      using that(2) by (simp add: list_all2_lengthD)
    fix i assume "i < length cols"
    then have i: "i < length es" "i < length cols" using that(2) by (simp_all add: list_all2_lengthD)
    obtain title ob where e: "es ! i = (title, ob)" by (cases "es ! i")
    then have "ob \<in> snd ` set es" using i(1) by (metis image_eqI nth_mem snd_conv)
    with that(1) have "shows_book B pr sg es ob cols s" by blast
    from list_all2_nthD [OF this [unfolded shows_book_def] i(1)] i e
    show "cols ! i = map (\<lambda>(title, ob). column_of B pr sg title (mo_books s ob)) es ! i" by simp
  qed
  moreover obtain y where "y \<in> snd ` set (sg_entries sg)" using assms(2) by (cases "sg_entries sg") auto
  then have "list_all2 (\<lambda>_ _. True) (sg_entries sg) cols"
    using assms(1) by (auto simp: shows_book_def elim: list.rel_mono_strong)
  ultimately have "cols = map (\<lambda>(title, ob). column_of B pr sg title (mo_books s ob)) (sg_entries sg)" using assms(1) by blast
  then show ?thesis by (auto simp: Render_def columns_def display_now_def NewBookDisplay_def column_of_def intro!: arg_cong [where f = frame_rows])
qed

section \<open>Where an update is\<close>

definition calls_Render :: "'d Symbol set \<Rightarrow> ('d, 't) monitor \<Rightarrow> bool" where
  "calls_Render K s \<longleftrightarrow> (\<forall>k \<in> K. ob_updateCallback (mo_books s k) = [BookCallback 0] \<and> ob_deferCallback (mo_books s k) = None)"

lemma only_at_calls_Render: "only_at k s u \<Longrightarrow> calls_Render K s \<Longrightarrow> calls_Render K u"
  by (auto simp: calls_Render_def only_at_def same_callbacks_def) metis+

lemma print_calls_Render [simp]: "calls_Render K (print_frame cols s) = calls_Render K s"
  by (simp add: calls_Render_def print_frame_def)

text \<open>What is left of an update after the frame is printed, and from the moment it has the display.\<close>

definition finish_t ::
  "('d PriceLevel, 't) BTreeOps \<Rightarrow> 'd printers \<Rightarrow> 'd :: linordered_idom strategy \<Rightarrow> 'd Symbol \<Rightarrow> ('d, 't, unit) mprog" where
  "finish_t B pr sg k =
     bind_p (bind_p (read_p (\<lambda>s. ob_getDeferUpdateCallback (mo_books s k)))
         (\<lambda>dc. case dc of Some c \<Rightarrow> call_t B pr sg c | None \<Rightarrow> Return ()))
       (\<lambda>_. Unlock (HandlerLock k) (Return ()))"

definition print_t ::
  "('d PriceLevel, 't) BTreeOps \<Rightarrow> 'd printers \<Rightarrow> 'd :: linordered_idom strategy \<Rightarrow> 'd Symbol \<Rightarrow> (string list \<times> nat) list \<Rightarrow> ('d, 't, unit) mprog" where
  "print_t B pr sg k cols = then_p (upd_p (print_frame cols)) (Unlock DisplayLock (finish_t B pr sg k))"

primrec updating ::
  "('d PriceLevel, 't) BTreeOps \<Rightarrow> 'd printers \<Rightarrow> 'd :: linordered_idom strategy \<Rightarrow> 'd Symbol set \<Rightarrow> 'd Symbol \<Rightarrow> ('d, 't, unit) mprog \<Rightarrow> bool" where
  "updating B pr sg K k (Return v) = False"
| "updating B pr sg K k (Act f g) =
     (\<forall>s. calls_Render K s \<longrightarrow> (\<exists>u. f s = Inr u \<and> only_at k s u) \<and> updating B pr sg K k (g s))"
| "updating B pr sg K k (Lock l p) =
     (l = DisplayLock \<and> p = bind_p (columns_t B pr (sg_depth sg) (sg_entries sg)) (print_t B pr sg k))"
| "updating B pr sg K k (Unlock l p) = False"

primrec finishing :: "'d Symbol set \<Rightarrow> ('d, 't, unit) mprog \<Rightarrow> bool" where
  "finishing K (Return v) = True"
| "finishing K (Act f g) = (\<forall>s. calls_Render K s \<longrightarrow> f s = Inr s \<and> finishing K (g s))"
| "finishing K (Lock l p) = False"
| "finishing K (Unlock l p) = finishing K p"

lemma finishing_finish: "k \<in> K \<Longrightarrow> finishing K (finish_t B pr sg k)"
  by (auto simp: finish_t_def read_p_def ob_getDeferUpdateCallback_def calls_Render_def)

lemma updating_bind:
  "lock_free p \<Longrightarrow> every (only_at k) p \<Longrightarrow> (\<And>v. updating B pr sg K k (g v)) \<Longrightarrow> updating B pr sg K k (bind_p p g)"
  by (induction p) auto

lemma updating_callbacks:
  assumes "k \<in> K"
  shows "updating B pr sg K k
    (bind_p (book_callbacks_t (\<lambda>s. mo_books s k) (call_t B pr sg)) (\<lambda>_. Unlock (HandlerLock k) (Return ())))"
  using assms
  by (auto simp: book_callbacks_t_def then_p_def bind_p_assoc read_p_def ob_getUpdateCallback_def calls_Render_def only_at_def
      same_callbacks_def call_t_def Render_t_def print_t_def [abs_def] finish_t_def fun_eq_iff upd_p_def
      intro!: arg_cong2 [where f = bind_p])

lemma updating_start:
  assumes "fst u \<in> K"
  shows "\<exists>p. monitor_update_t B pr sg u = Lock (HandlerLock (fst u)) p \<and> updating B pr sg K (fst u) p"
proof -
  obtain k data where u: "u = (k, data)" by (cases u)
  let ?rest = "bind_p (book_callbacks_t (\<lambda>s. mo_books s k) (call_t B pr sg)) (\<lambda>_. Unlock (HandlerLock k) (Return ()))"
  have "monitor_update_t B pr sg u = Lock (HandlerLock k)
      (bind_p (at_book k (book_sides_t B data)) (\<lambda>_. bind_p (at_book k (book_record_t B)) (\<lambda>_. ?rest)))"
    by (simp add: u monitor_update_t_def guarded_def then_p_def bind_p_assoc)
  moreover have "updating B pr sg K k (bind_p (at_book k (book_sides_t B data)) (\<lambda>_. bind_p (at_book k (book_record_t B)) (\<lambda>_. ?rest)))"
    by (intro updating_bind at_book_free lock_free_book_sides lock_free_book_record every_at_book every_book_sides every_book_record
        updating_callbacks) (use assms u in simp)
  ultimately show ?thesis using u by simp
qed

section \<open>The screen never stays behind\<close>

datatype phase = Waiting | Updating | Drawing | Done

text \<open>The book \<open>y\<close> is being updated, or has been and its frame is not begun.\<close>

definition pending :: "('d Symbol \<times> 'd OrderBookData) list \<Rightarrow> phase list \<Rightarrow> 'd Symbol \<Rightarrow> bool" where
  "pending us ph y \<longleftrightarrow> (\<exists>i < length us. ph ! i = Updating \<and> fst (us ! i) = y)"

text \<open>What goroutine \<open>i\<close> has left in its phase. A frame that is being drawn is up to date for all books that are not pending.\<close>

definition in_phase ::
  "('d PriceLevel, 't) BTreeOps \<Rightarrow> 'd printers \<Rightarrow> 'd :: linordered_idom strategy \<Rightarrow> 'd Symbol set \<Rightarrow> ('d Symbol \<times> 'd OrderBookData) list \<Rightarrow>
     phase list \<Rightarrow> (('d, 't) monitor, 'd monitor_lock) pool \<Rightarrow> nat \<Rightarrow> bool" where
  "in_phase B pr sg K us ph P i =
     (case ph ! i of
        Waiting \<Rightarrow> p_threads P ! i = monitor_update_t B pr sg (us ! i)
      | Updating \<Rightarrow> updating B pr sg K (fst (us ! i)) (p_threads P ! i)
      | Drawing \<Rightarrow> p_owner P DisplayLock = Some i \<and>
          (\<exists>q. p_threads P ! i = bind_p q (print_t B pr sg (fst (us ! i))) \<and> read_only q \<and>
             (\<forall>y \<in> K. pending us ph y \<or> fresh_in B pr sg y q (p_state P)))
      | Done \<Rightarrow> finishing K (p_threads P ! i))"

definition screen_ok ::
  "('d PriceLevel, 't) BTreeOps \<Rightarrow> 'd printers \<Rightarrow> 'd :: linordered_idom strategy \<Rightarrow> 'd Symbol set \<Rightarrow> ('d Symbol \<times> 'd OrderBookData) list \<Rightarrow>
     phase list \<Rightarrow> ('d, 't) monitor \<Rightarrow> bool" where
  "screen_ok B pr sg K us ph s \<longleftrightarrow>
     Drawing \<in> set ph \<or> Done \<notin> set ph \<or>
     (\<exists>cols. mo_screen s = Some (frame_rows cols) \<and> (\<forall>y \<in> K. pending us ph y \<or> shows_book B pr sg (sg_entries sg) y cols s))"

definition monitor_inv ::
  "('d PriceLevel, 't) BTreeOps \<Rightarrow> 'd printers \<Rightarrow> 'd :: linordered_idom strategy \<Rightarrow> 'd Symbol set \<Rightarrow> ('d Symbol \<times> 'd OrderBookData) list \<Rightarrow>
     phase list \<Rightarrow> (('d, 't) monitor, 'd monitor_lock) pool \<Rightarrow> bool" where
  "monitor_inv B pr sg K us ph P \<longleftrightarrow>
     length ph = length us \<and> length (p_threads P) = length us \<and> ordered_pool lock_rank P \<and> calls_Render K (p_state P) \<and>
     (\<forall>i < length us. in_phase B pr sg K us ph P i) \<and> screen_ok B pr sg K us ph (p_state P)"

lemma monitor_invD:
  assumes "monitor_inv B pr sg K us ph P"
  shows "length ph = length us" "length (p_threads P) = length us" "ordered_pool lock_rank P" "calls_Render K (p_state P)"
    "i < length us \<Longrightarrow> in_phase B pr sg K us ph P i" "screen_ok B pr sg K us ph (p_state P)"
  using assms by (simp_all add: monitor_inv_def)

lemma one_drawing:
  assumes "monitor_inv B pr sg K us ph P" and "i < length us" and "ph ! i = Drawing"
  shows "p_owner P DisplayLock = Some i" and "j < length us \<Longrightarrow> ph ! j = Drawing \<Longrightarrow> j = i"
  using monitor_invD(5) [OF assms(1,2)] monitor_invD(5) [OF assms(1), of j] assms(3) by (auto simp: in_phase_def)

text \<open>A goroutine goes on in a phase of its own; the others are not concerned if the state and the display lock are as before.\<close>

lemma pending_mono:
  "pending us ph y \<Longrightarrow> i < length ph \<Longrightarrow> ph ! i \<noteq> Updating \<or> p = Updating \<Longrightarrow> length ph = length us \<Longrightarrow> pending us (ph[i := p]) y"
  by (auto simp: pending_def nth_list_update)

lemma others_in_phase:
  assumes "monitor_inv B pr sg K us ph P" and "j < length us" and "j \<noteq> i" and "p_threads P' ! j = p_threads P ! j"
    and "ph' ! j = ph ! j" and "ph ! j = Drawing \<Longrightarrow> p_owner P' DisplayLock = Some j"
    and "\<And>y. ph ! j = Drawing \<Longrightarrow> y \<in> K \<Longrightarrow> pending us ph y \<or> mo_books (p_state P') y \<noteq> mo_books (p_state P) y \<Longrightarrow> pending us ph' y"
  shows "in_phase B pr sg K us ph' P' j"
proof (cases "ph ! j")
  case Drawing
  with monitor_invD(5) [OF assms(1,2)] obtain q where q: "p_threads P ! j = bind_p q (print_t B pr sg (fst (us ! j)))" "read_only q"
    "\<forall>y \<in> K. pending us ph y \<or> fresh_in B pr sg y q (p_state P)" by (auto simp: in_phase_def)
  have "pending us ph' y \<or> fresh_in B pr sg y q (p_state P')" if "y \<in> K" for y
  proof (cases "pending us ph y \<or> mo_books (p_state P') y \<noteq> mo_books (p_state P) y")
    case False
    with q(3) that have "fresh_in B pr sg y q (p_state P)" "mo_books (p_state P) y = mo_books (p_state P') y" by auto
    then show ?thesis by (blast intro: one_book.safe_stable)
  qed (use assms(7) [OF Drawing that] in blast)
  with q(1,2) Drawing assms(4-6) show ?thesis by (auto simp: in_phase_def)
qed (use monitor_invD(5) [OF assms(1,2)] assms(4,5) in \<open>simp_all add: in_phase_def\<close>)

lemma phase_kept: "x \<in> set ph \<Longrightarrow> i < length ph \<Longrightarrow> ph ! i \<noteq> x \<Longrightarrow> x \<in> set (ph[i := p])"
  by (auto simp: in_set_conv_nth) (metis nth_list_update_neq)

lemma phase_old: "x \<in> set (ph[i := p]) \<Longrightarrow> x \<noteq> p \<Longrightarrow> x \<in> set ph"
  using set_update_subset_insert [of ph i p] by auto

lemma shows_book_cong: "mo_books t y = mo_books s y \<Longrightarrow> shows_book B pr sg es y cols s = shows_book B pr sg es y cols t"
  unfolding shows_book_def by (rule arg_cong [where f = "\<lambda>R. list_all2 R es cols"]) (auto simp: fun_eq_iff)

lemma monitor_invI:
  assumes "monitor_inv B pr sg K us ph P" and "tstep i P = Some (Inr P')" and "i < length us"
    and "p_threads P' = (p_threads P)[i := p]" and "calls_Render K (p_state P')" and "length ph' = length us"
    and "\<And>j. j \<noteq> i \<Longrightarrow> ph' ! j = ph ! j"
    and "in_phase B pr sg K us ph' P' i"
    and "\<And>j. j < length us \<Longrightarrow> j \<noteq> i \<Longrightarrow> ph ! j = Drawing \<Longrightarrow> p_owner P' DisplayLock = Some j"
    and "\<And>j y. j < length us \<Longrightarrow> j \<noteq> i \<Longrightarrow> ph ! j = Drawing \<Longrightarrow> y \<in> K \<Longrightarrow> pending us ph y \<or> mo_books (p_state P') y \<noteq> mo_books (p_state P) y \<Longrightarrow> pending us ph' y"
    and "screen_ok B pr sg K us ph' (p_state P')"
  shows "monitor_inv B pr sg K us ph' P'"
proof -
  have "in_phase B pr sg K us ph' P' j" if "j < length us" for j
  proof (cases "j = i")
    case False
    show ?thesis
      by (rule others_in_phase [OF assms(1) that False]) (use that False assms(4,7,9,10) in auto)
  qed (use assms(8) in simp)
  with assms(4-6,11) monitor_invD(2,3) [OF assms(1)] step_ordered [OF _ assms(2)] show ?thesis by (simp add: monitor_inv_def)
qed

lemma step_waiting:
  assumes "monitor_inv B pr sg K us ph P" and "tstep i P = Some (Inr P')" and "i < length us" and "ph ! i = Waiting"
    and "fst (us ! i) \<in> K"
  shows "monitor_inv B pr sg K us (ph[i := Updating]) P'"
proof -
  note inv = monitor_invD [OF assms(1)]
  obtain p where p: "monitor_update_t B pr sg (us ! i) = Lock (HandlerLock (fst (us ! i))) p" "updating B pr sg K (fst (us ! i)) p"
    using updating_start [OF assms(5)] by blast
  have P': "P' = P\<lparr>p_owner := (p_owner P)(HandlerLock (fst (us ! i)) \<mapsto> i), p_threads := (p_threads P)[i := p]\<rparr>"
    using inv(5) [OF assms(3)] assms(2-4) inv(2) p(1) by (auto simp: in_phase_def tstep_def split: if_splits)
  have pend: "pending us (ph[i := Updating]) y" if "pending us ph y" for y
    using that assms(3) inv(1) by (auto intro: pending_mono)
  have "screen_ok B pr sg K us (ph[i := Updating]) (p_state P')"
    using inv(6) pend phase_kept [of Drawing ph i Updating] phase_old [of Done ph i Updating] assms(3,4) inv(1) P'
    unfolding screen_ok_def by auto
  then show ?thesis
    using p(2) pend one_drawing(1) [OF assms(1)] assms(3,4) inv(1,2,4) P'
    by (intro monitor_invI [OF assms(1-3)]) (auto simp: in_phase_def)
qed

lemma step_updating:
  assumes "monitor_inv B pr sg K us ph P" and "tstep i P = Some (Inr P')" and "i < length us" and "ph ! i = Updating"
  shows "\<exists>ph'. monitor_inv B pr sg K us ph' P'"
proof -
  note inv = monitor_invD [OF assms(1)]
  let ?k = "fst (us ! i)"
  have up: "updating B pr sg K ?k (p_threads P ! i)" using inv(5) [OF assms(3)] assms(4) by (simp add: in_phase_def)
  have pend: "pending us ph ?k" using assms(3,4) by (auto simp: pending_def)
  show ?thesis
  proof (cases "p_threads P ! i")
    case (Act f g)
    with up inv(4) obtain u where u: "f (p_state P) = Inr u" "only_at ?k (p_state P) u" "updating B pr sg K ?k (g (p_state P))" by auto
    with assms(2,3) Act inv(2) have P': "P' = P\<lparr>p_state := u, p_threads := (p_threads P)[i := g (p_state P)]\<rparr>"
      by (simp add: tstep_def)
    have same: "pending us ph y \<or> mo_books u y = mo_books (p_state P) y" for y
      using u(2) pend by (cases "y = ?k") (auto simp: only_at_def)
    have "screen_ok B pr sg K us ph u"
      using inv(6) same shows_book_cong u(2) unfolding screen_ok_def only_at_def by metis
    then have "monitor_inv B pr sg K us ph P'"
      using u same one_drawing(1) [OF assms(1)] only_at_calls_Render [OF u(2) inv(4)] assms(3,4) inv(1,2) P'
      by (intro monitor_invI [OF assms(1-3)]) (auto simp: in_phase_def)
    then show ?thesis ..
  next
    case (Lock l p)
    with up have l: "l = DisplayLock" "p = bind_p (columns_t B pr (sg_depth sg) (sg_entries sg)) (print_t B pr sg ?k)" by auto
    with assms(2,3) Lock inv(2) have P': "P' = P\<lparr>p_owner := (p_owner P)(DisplayLock \<mapsto> i), p_threads := (p_threads P)[i := p]\<rparr>"
      and free: "p_owner P DisplayLock = None"
      by (auto simp: tstep_def split: if_splits)
    have "ph ! j \<noteq> Drawing" if "j < length us" for j using one_drawing(1) [OF assms(1) that] free by auto
    moreover have "Drawing \<in> set (ph[i := Drawing])" using assms(3) inv(1) by (simp add: set_update_memI)
    moreover have "in_phase B pr sg K us (ph[i := Drawing]) P' i"
      using l(2) assms(3) inv(1,2) P' lock_free_columns(2) fresh_start unfolding in_phase_def
      by (simp, blast)
    ultimately have "monitor_inv B pr sg K us (ph[i := Drawing]) P'"
      using l assms(3) inv(1,2,4) P'
      by (intro monitor_invI [OF assms(1-3)]) (auto simp: screen_ok_def)
    then show ?thesis ..
  qed (use up in simp_all)
qed

lemma step_drawing:
  assumes "monitor_inv B pr sg K us ph P" and "tstep i P = Some (Inr P')" and "i < length us" and "ph ! i = Drawing"
    and "fst (us ! i) \<in> K"
  shows "\<exists>ph'. monitor_inv B pr sg K us ph' P'"
proof -
  note inv = monitor_invD [OF assms(1)]
  let ?k = "fst (us ! i)"
  obtain q where q: "p_threads P ! i = bind_p q (print_t B pr sg ?k)" "read_only q" "p_owner P DisplayLock = Some i"
    "\<forall>y \<in> K. pending us ph y \<or> fresh_in B pr sg y q (p_state P)"
    using inv(5) [OF assms(3)] assms(4) by (auto simp: in_phase_def)
  have alone: "ph ! j \<noteq> Drawing" if "j < length us" "j \<noteq> i" for j
    using one_drawing(2) [OF assms(1,3,4) that(1)] that(2) by blast
  show ?thesis
  proof (cases q)
    case (Act f g)
    with q(1,2) assms(2,3) inv(2) have P': "P' = P\<lparr>p_threads := (p_threads P)[i := bind_p (g (p_state P)) (print_t B pr sg ?k)]\<rparr>"
      and ro: "read_only (g (p_state P))" "f (p_state P) = Inr (p_state P)"
      by (auto simp: tstep_def)
    have "\<forall>y \<in> K. pending us ph y \<or> fresh_in B pr sg y (g (p_state P)) (p_state P)"
      using q(4) Act ro(2) by fastforce
    then have "monitor_inv B pr sg K us ph P'"
      using assms(3,4) alone ro q(3) inv P' by (intro monitor_invI [OF assms(1-3)]) (auto simp: in_phase_def)
    then show ?thesis ..
  next
    case (Return cols)
    with q(1) assms(2,3) inv(2) have P': "P' = P\<lparr>p_state := print_frame cols (p_state P),
        p_threads := (p_threads P)[i := Unlock DisplayLock (finish_t B pr sg ?k)]\<rparr>"
      by (simp add: tstep_def print_t_def then_p_def upd_p_def)
    have "pending us (ph[i := Done]) y \<or> shows_book B pr sg (sg_entries sg) y cols (p_state P')" if "y \<in> K" for y
    proof -
      have "pending us ph y \<or> shows_book B pr sg (sg_entries sg) y cols (p_state P)" using q(4) Return that by auto
      then show ?thesis
        using pending_mono [of us ph y i Done] assms(3,4) inv(1) shows_book_cong [of "p_state P'" y "p_state P"] P'
        by (auto simp: print_frame_def)
    qed
    then have "screen_ok B pr sg K us (ph[i := Done]) (p_state P')" using P' by (auto simp: screen_ok_def print_frame_def)
    then have "monitor_inv B pr sg K us (ph[i := Done]) P'"
      using assms(3-5) alone inv(1,2,4) P' finishing_finish by (intro monitor_invI [OF assms(1-3)]) (auto simp: in_phase_def)
    then show ?thesis ..
  qed (use q(2) in simp_all)
qed

lemma step_done:
  assumes "monitor_inv B pr sg K us ph P" and "tstep i P = Some (Inr P')" and "i < length us" and "ph ! i = Done"
  shows "monitor_inv B pr sg K us ph P'"
proof -
  note inv = monitor_invD [OF assms(1)]
  have fin: "finishing K (p_threads P ! i)" using inv(5) [OF assms(3)] assms(4) by (simp add: in_phase_def)
  show ?thesis
  proof (cases "p_threads P ! i")
    case (Act f g)
    with fin inv(4) assms(2,3) inv(2) have "P' = P\<lparr>p_threads := (p_threads P)[i := g (p_state P)]\<rparr>" "finishing K (g (p_state P))"
      by (auto simp: tstep_def)
    then show ?thesis
      using one_drawing(1) [OF assms(1)] assms(3,4) inv by (intro monitor_invI [OF assms(1-3)]) (auto simp: in_phase_def)
  next
    case (Unlock l p)
    have l: "p_owner P l = Some i"
      using disciplined_no_bad_unlock [OF ordered_pool_disciplined [OF inv(3)]] Unlock assms(3) inv(2) by simp
    with Unlock assms(2,3) inv(2) have "P' = P\<lparr>p_owner := (p_owner P)(l := None), p_threads := (p_threads P)[i := p]\<rparr>"
      by (auto simp: tstep_def)
    then show ?thesis
      using one_drawing(1) [OF assms(1)] assms(3,4) inv fin Unlock l by (intro monitor_invI [OF assms(1-3)]) (auto simp: in_phase_def)
  qed (use fin assms(2,3) inv(2) in \<open>auto simp: tstep_def\<close>)
qed

lemma monitor_step:
  assumes "monitor_inv B pr sg K us ph P" and "pstep P P'" and "fst ` set us \<subseteq> K"
  shows "\<exists>ph'. monitor_inv B pr sg K us ph' P'"
proof -
  from assms(2) obtain i where i: "tstep i P = Some (Inr P')" by (auto simp: pstep_def)
  then have l: "i < length us" using monitor_invD(2) [OF assms(1)] by (auto simp: tstep_def split: if_splits)
  then have "fst (us ! i) \<in> K" using assms(3) by auto
  then show ?thesis
    using step_waiting [OF assms(1) i l] step_updating [OF assms(1) i l] step_drawing [OF assms(1) i l] step_done [OF assms(1) i l]
    by (cases "ph ! i") blast+
qed

lemma monitor_reach:
  assumes "pstep\<^sup>*\<^sup>* (monitor_pool B pr sg us s) P" and "calls_Render K s" and "fst ` set us \<subseteq> K"
  shows "\<exists>ph. monitor_inv B pr sg K us ph P"
  using assms(1)
proof (induction rule: rtranclp_induct)
  case base
  have "monitor_inv B pr sg K us (replicate (length us) Waiting) (monitor_pool B pr sg us s)"
    using assms(2) monitor_calls.start_ordered [of B pr sg us s]
    by (simp add: monitor_inv_def in_phase_def screen_ok_def flip: monitor_pool_start) (simp add: monitor_pool_def)
  then show ?case ..
next
  case (step P P')
  then show ?case using monitor_step assms(3) by blast
qed

text \<open>When all have returned every update has had its frame.\<close>

lemma returned_shows:
  assumes "monitor_inv B pr sg (snd ` set (sg_entries sg)) us ph P" and "all_returned P" and "us \<noteq> []" and "sg_entries sg \<noteq> []"
  shows "mo_screen (p_state P) = Some (Render B (pr_fixed2 pr) (pr_string pr) (display_now sg (p_state P)))"
proof -
  note inv = monitor_invD [OF assms(1)]
  have fin: "ph ! i = Done" if i: "i < length us" for i
  proof -
    have ret: "returned (p_threads P ! i)" using assms(2) i inv(2) by (simp add: all_returned_def list_all_length)
    have "bind_p q (print_t B pr sg k) \<noteq> Return v" for q k v
      by (cases q) (simp_all add: print_t_def then_p_def upd_p_def)
    with inv(5) [OF i] ret show ?thesis
      by (cases "ph ! i"; cases "p_threads P ! i")
        (auto simp: in_phase_def returned_def monitor_update_t_def guarded_def split: prod.splits, metis)
  qed
  have "\<not> pending us ph y" for y using fin by (auto simp: pending_def)
  moreover have "Drawing \<notin> set ph" using fin inv(1) by (auto simp: in_set_conv_nth)
  moreover have "Done \<in> set ph" using fin [of 0] nth_mem [of 0 ph] inv(1) assms(3) by simp
  ultimately obtain cols where cols: "mo_screen (p_state P) = Some (frame_rows cols)"
    "\<forall>y \<in> snd ` set (sg_entries sg). shows_book B pr sg (sg_entries sg) y cols (p_state P)"
    using inv(6) unfolding screen_ok_def by meson
  then show ?thesis using shows_all_columns [OF cols(2) assms(4)] by simp
qed

lemma start_books:
  "distinct (map snd es) \<Longrightarrow>
     mo_books (fold (\<lambda>(title, ob) s. put_book ob (ob_SetUpdateCallback 0 (mo_books s ob)) s) es s) k =
       (if k \<in> snd ` set es then ob_SetUpdateCallback 0 (mo_books s k) else mo_books s k)"
  by (induction es arbitrary: s) (force simp: put_book_def)+

lemma start_calls_Render:
  assumes "distinct (map snd (sg_entries sg))"
    and "\<forall>k \<in> snd ` set (sg_entries sg). ob_updateCallback (mo_books s k) = [] \<and> ob_deferCallback (mo_books s k) = None"
  shows "calls_Render (snd ` set (sg_entries sg)) (strategy_start sg s)"
  using assms(2) unfolding calls_Render_def strategy_start_def start_books [OF assms(1)]
  by (simp add: ob_SetUpdateCallback_def)

section \<open>Every book gets its updates\<close>

text \<open>An update without what its callbacks do.\<close>

definition book_core :: "('d PriceLevel, 't) BTreeOps \<Rightarrow> 'd :: linordered_idom OrderBookData \<Rightarrow> ('d, 't) OrderBookImpl \<Rightarrow> ('d, 't) OrderBookImpl" where
  "book_core B data p = (UpdateByOBData B data p)\<lparr>ob_calls := ob_calls p\<rparr>"

lemma alone_core: "alone (then_p (book_sides_t B data) (book_record_t B)) p = Inr ((), book_core B data p)"
  by (auto simp: book_core_def book_sides_t_def book_record_t_def UpdateByOBData_def ob_accessor_defs Let_def
      alone_updateByDelta alone_resetBySnapshot updateByDelta_def resetBySnapshot_def split: option.split DataType.split)

lemma core_calls: "book_core B data (p\<lparr>ob_calls := c\<rparr>) = (book_core B data p)\<lparr>ob_calls := c\<rparr>"
  by (cases "ob_currentBestAsk p"; cases "ob_currentBestBid p"; cases "bd_Type data")
    (simp_all add: book_core_def UpdateByOBData_def resetBySnapshot_def updateByDelta_def ob_GetBestAsk_def ob_GetBestBid_def Let_def)

lemma fold_core: "fold (book_core B) ds p = (fold (UpdateByOBData B) ds p)\<lparr>ob_calls := ob_calls p\<rparr>"
proof (induction ds rule: rev_induct)
  case (snoc d ds)
  then show ?case by (simp add: core_calls) (simp add: book_core_def)
qed simp

definition keeps_book :: "'d Symbol \<Rightarrow> ('d, 't) monitor \<Rightarrow> ('d, 't) monitor \<Rightarrow> bool" where
  "keeps_book k s u \<longleftrightarrow> mo_books u k = mo_books s k"

definition rest_t ::
  "('d PriceLevel, 't) BTreeOps \<Rightarrow> 'd printers \<Rightarrow> 'd :: linordered_idom strategy \<Rightarrow> 'd Symbol \<Rightarrow> ('d, 't, unit) mprog" where
  "rest_t B pr sg k = bind_p (book_callbacks_t (\<lambda>s. mo_books s k) (call_t B pr sg)) (\<lambda>_. Unlock (HandlerLock k) (Return ()))"

lemma keeps_Render: "every (keeps_book k) (Render_t B pr sg)"
proof -
  have "every (keeps_book k) (columns_t B pr depth es)" for depth es
    by (induction es) (auto simp: buildBookLines_t_def keeps_book_def intro!: every_intros split: prod.split option.split)
  then show ?thesis by (auto simp: Render_t_def keeps_book_def print_frame_def intro!: every_intros)
qed

lemma keeps_rest: "every (keeps_book k) (rest_t B pr sg j)"
proof -
  have "every (keeps_book k) (call_t B pr sg c)" for c by (simp add: call_t_def keeps_Render split: book_callback.split)
  then show ?thesis
    by (auto simp: rest_t_def book_callbacks_t_def keeps_book_def intro!: every_intros split: option.split)
qed

lemma at_book_bind: "at_book k (bind_p p g) = bind_p (at_book k p) (\<lambda>v. at_book k (g v))"
  by (induction p) simp_all

lemma update_split:
  "monitor_update_t B pr sg (k, data) =
     Lock (HandlerLock k) (bind_p (at_book k (then_p (book_sides_t B data) (book_record_t B))) (\<lambda>_. rest_t B pr sg k))"
  by (simp add: monitor_update_t_def guarded_def then_p_def bind_p_assoc at_book_bind rest_t_def)

lemma keeps_update:
  assumes "fst u \<noteq> k"
  shows "every (keeps_book k) (monitor_update_t B pr sg u)"
proof -
  obtain j data where u: "u = (j, data)" by (cases u)
  have "every (keeps_book k) (at_book j (then_p (book_sides_t B data) (book_record_t B)))"
    by (rule every_mono [OF every_at_book [OF every_then [OF every_book_sides every_book_record]]])
      (use assms u in \<open>auto simp: only_at_def keeps_book_def\<close>)
  then show ?thesis unfolding u update_split by (simp add: every_bind keeps_rest)
qed

text \<open>
  The updates of the book \<open>k\<close>: \<open>fin\<close> have changed it, in this order; \<open>act\<close> is changing it and has the program
  \<open>q\<close> left to do so; the others have not begun.
\<close>

definition book_inv ::
  "('d PriceLevel, 't) BTreeOps \<Rightarrow> 'd printers \<Rightarrow> 'd :: linordered_idom strategy \<Rightarrow> 'd Symbol \<Rightarrow> ('d Symbol \<times> 'd OrderBookData) list \<Rightarrow>
     ('d, 't) OrderBookImpl \<Rightarrow> nat list \<Rightarrow> nat option \<Rightarrow> (('d, 't) monitor, 'd monitor_lock) pool \<Rightarrow> bool" where
  "book_inv B pr sg k us b fin act P \<longleftrightarrow>
     length (p_threads P) = length us \<and> ordered_pool lock_rank P \<and> distinct fin \<and>
     (\<forall>i \<in> set fin. i < length us \<and> fst (us ! i) = k) \<and>
     (\<forall>i < length us. i \<in> set fin \<or> fst (us ! i) \<noteq> k \<longrightarrow> every (keeps_book k) (p_threads P ! i)) \<and>
     (\<forall>i < length us. i \<notin> set fin \<and> fst (us ! i) = k \<and> act \<noteq> Some i \<longrightarrow> p_threads P ! i = monitor_update_t B pr sg (us ! i)) \<and>
     (case act of
        None \<Rightarrow> mo_books (p_state P) k = fold (book_core B) (map (\<lambda>i. snd (us ! i)) fin) b
      | Some i \<Rightarrow> i < length us \<and> i \<notin> set fin \<and> fst (us ! i) = k \<and> p_owner P (HandlerLock k) = Some i \<and>
          (\<exists>q. p_threads P ! i = bind_p (at_book k q) (\<lambda>_. rest_t B pr sg k) \<and> lock_free q \<and>
             alone q (mo_books (p_state P) k) =
               Inr ((), fold (book_core B) (map (\<lambda>i. snd (us ! i)) (fin @ [i])) b)))"

lemma book_invD:
  assumes "book_inv B pr sg k us b fin act P"
  shows "length (p_threads P) = length us" "ordered_pool lock_rank P" "distinct fin" "i \<in> set fin \<Longrightarrow> i < length us \<and> fst (us ! i) = k"
    "i < length us \<Longrightarrow> i \<in> set fin \<or> fst (us ! i) \<noteq> k \<Longrightarrow> every (keeps_book k) (p_threads P ! i)"
    "i < length us \<Longrightarrow> i \<notin> set fin \<Longrightarrow> fst (us ! i) = k \<Longrightarrow> act \<noteq> Some i \<Longrightarrow> p_threads P ! i = monitor_update_t B pr sg (us ! i)"
    "act = Some i \<Longrightarrow> i < length us \<and> i \<notin> set fin \<and> fst (us ! i) = k \<and> p_owner P (HandlerLock k) = Some i"
  using assms by (auto simp: book_inv_def)

lemma book_inv_active:
  assumes "book_inv B pr sg k us b fin (Some i) P"
  obtains q where "p_threads P ! i = bind_p (at_book k q) (\<lambda>_. rest_t B pr sg k)" "lock_free q"
    "alone q (mo_books (p_state P) k) = Inr ((), fold (book_core B) (map (\<lambda>i. snd (us ! i)) (fin @ [i])) b)"
  using assms by (auto simp: book_inv_def)

text \<open>A goroutine that has to do with other books, or is past its changes.\<close>

lemma book_step_other:
  assumes "book_inv B pr sg k us b fin act P" and "tstep i P = Some (Inr P')" and "i \<in> set fin \<or> fst (us ! i) \<noteq> k"
  shows "book_inv B pr sg k us b fin act P'"
proof -
  note inv = book_invD [OF assms(1)]
  have i: "i < length us" using assms(2) inv(1) by (auto simp: tstep_def split: if_splits)
  obtain p where p: "p_threads P' = (p_threads P)[i := p]" "(p, p_threads P ! i) \<in> sub_prog"
    using tstep_sub_prog [OF assms(2)] by blast
  note ev = inv(5) [OF i assms(3)]
  have book: "mo_books (p_state P') k = mo_books (p_state P) k"
    using ev assms(2) i inv(1)
    by (cases "p_threads P ! i") (auto simp: tstep_def bind_r_eq_Inr keeps_book_def split: if_splits, metis sum.inject(2))
  have ne: "act \<noteq> Some i" using inv(7) assms(3) by auto
  have own: "p_owner P' (HandlerLock k) = Some j" if "act = Some j" for j
  proof -
    have "p_owner P (HandlerLock k) = Some j" "j \<noteq> i" using inv(7) [OF that] that ne by auto
    with assms(2) i inv(1) disciplined_no_bad_unlock [OF ordered_pool_disciplined [OF inv(2)], of i] show ?thesis
      by (cases "p_threads P ! i") (auto simp: tstep_def bind_r_eq_Inr split: if_splits)
  qed
  have "every (keeps_book k) p" using p(2) ev by (rule sub_prog_every)
  with assms(1,3) p(1) book own ne step_ordered [OF inv(2) assms(2)] i show ?thesis
    by (auto simp: book_inv_def nth_list_update split: option.splits)
qed

text \<open>An update begins, goes on, and is done with its changes.\<close>

lemma book_step_begin:
  assumes "book_inv B pr sg k us b fin act P" and "tstep i P = Some (Inr P')" and "i < length us" "i \<notin> set fin" "fst (us ! i) = k" "act \<noteq> Some i"
  shows "book_inv B pr sg k us b fin (Some i) P'"
proof -
  note inv = book_invD [OF assms(1)]
  obtain data where u: "us ! i = (k, data)" using assms(5) by (cases "us ! i") auto
  let ?q = "then_p (book_sides_t B data) (book_record_t B)"
  have P': "p_owner P (HandlerLock k) = None" "P' = P\<lparr>p_owner := (p_owner P)(HandlerLock k \<mapsto> i),
      p_threads := (p_threads P)[i := bind_p (at_book k ?q) (\<lambda>_. rest_t B pr sg k)]\<rparr>"
    using inv(6) [OF assms(3-6)] assms(2,3) inv(1) u by (auto simp: update_split tstep_def split: if_splits)
  have "act = None" using inv(7) P'(1) by (cases act) auto
  with assms(1) have "mo_books (p_state P) k = fold (book_core B) (map (\<lambda>i. snd (us ! i)) fin) b" by (simp add: book_inv_def)
  then have "alone ?q (mo_books (p_state P) k) = Inr ((), fold (book_core B) (map (\<lambda>i. snd (us ! i)) (fin @ [i])) b)"
    using u by (simp add: alone_core del: alone_then)
  moreover have "lock_free ?q" by (simp add: lock_free_book_sides lock_free_book_record)
  ultimately show ?thesis
    using assms(1,3-6) \<open>act = None\<close> P' step_ordered [OF inv(2) assms(2)]
    by (auto simp: book_inv_def nth_list_update simp del: alone_then)
qed

lemma book_step_cur:
  assumes "book_inv B pr sg k us b fin (Some i) P" and "tstep i P = Some (Inr P')"
  shows "\<exists>fin' act1. book_inv B pr sg k us b fin' act1 P'"
proof -
  note inv = book_invD [OF assms(1)]
  have i: "i < length us" "i \<notin> set fin" "fst (us ! i) = k" "p_owner P (HandlerLock k) = Some i" using inv(7) by auto
  obtain q where q: "p_threads P ! i = bind_p (at_book k q) (\<lambda>_. rest_t B pr sg k)" "lock_free q"
    "alone q (mo_books (p_state P) k) = Inr ((), fold (book_core B) (map (\<lambda>i. snd (us ! i)) (fin @ [i])) b)"
    using book_inv_active [OF assms(1)] .
  show ?thesis
  proof (cases q)
    case (Return v)
    with q assms(1) i have "book_inv B pr sg k us b (fin @ [i]) None P"
      by (auto simp: book_inv_def keeps_rest)
    from book_step_other [OF this assms(2)] show ?thesis by auto
  next
    case (Act f g)
    with q(3) obtain p where p: "f (mo_books (p_state P) k) = Inr p"
      "alone (g (mo_books (p_state P) k)) p = Inr ((), fold (book_core B) (map (\<lambda>i. snd (us ! i)) (fin @ [i])) b)"
      by (auto simp: bind_r_eq_Inr)
    have "P' = P\<lparr>p_state := put_book k p (p_state P),
        p_threads := (p_threads P)[i := bind_p (at_book k (g (mo_books (p_state P) k))) (\<lambda>_. rest_t B pr sg k)]\<rparr>"
      using assms(2) q(1) Act p(1) i(1) inv(1) by (auto simp: tstep_def)
    then have "book_inv B pr sg k us b fin (Some i) P'"
      using assms(1) p(2) q(2) Act i step_ordered [OF inv(2) assms(2)]
      by (auto simp: book_inv_def nth_list_update put_book_def)
    then show ?thesis by blast
  qed (use q(2) in simp_all)
qed

lemma monitor_book_step: "book_inv B pr sg k us b fin act P \<Longrightarrow> pstep P P' \<Longrightarrow> \<exists>fin' act1. book_inv B pr sg k us b fin' act1 P'"
proof -
  assume inv: "book_inv B pr sg k us b fin act P" and "pstep P P'"
  then obtain i where i: "tstep i P = Some (Inr P')" by (auto simp: pstep_def)
  then have "i < length us" using book_invD(1) [OF inv] by (auto simp: tstep_def split: if_splits)
  then show ?thesis
    using book_step_other [OF inv i] book_step_begin [OF inv i] book_step_cur [of B pr sg k us b fin i P P'] inv i by blast
qed

lemma mset_indexes:
  assumes "distinct is" and "set is = {i. i < length us \<and> P (us ! i)}"
  shows "mset (map (\<lambda>i. f (us ! i)) is) = mset (map f (filter P us))"
proof -
  have "set is = set (filter (\<lambda>i. P (us ! i)) [0..<length us])" using assms(2) by auto
  then have "mset is = mset (filter (\<lambda>i. P (us ! i)) [0..<length us])"
    using assms(1) by (intro iffD1 [OF set_eq_iff_mset_eq_distinct]) simp_all
  then have "mset (map (\<lambda>i. f (us ! i)) is) = mset (map (\<lambda>i. f (us ! i)) (filter (\<lambda>i. P (us ! i)) [0..<length us]))"
    by (simp only: mset_map)
  also have "map (\<lambda>i. f (us ! i)) (filter (\<lambda>i. P (us ! i)) [0..<length us]) = map f (filter P (map ((!) us) [0..<length us]))"
    by (simp add: filter_map comp_def)
  finally show ?thesis by (simp only: map_nth)
qed
lemma book_gets_updates:
  assumes "pstep\<^sup>*\<^sup>* (monitor_pool B pr sg us s) P" and "all_returned P"
  shows "\<exists>ds. mset ds = mset (map snd (filter (\<lambda>u. fst u = k) us)) \<and>
    mo_books (p_state P) k = (fold (UpdateByOBData B) ds (mo_books s k))\<lparr>ob_calls := ob_calls (mo_books s k)\<rparr>"
proof -
  let ?b = "mo_books s k"
  have "\<exists>fin act. book_inv B pr sg k us ?b fin act P"
    using assms(1)
  proof (induction rule: rtranclp_induct)
    case base
    have "book_inv B pr sg k us ?b [] None (monitor_pool B pr sg us s)"
      using monitor_calls.start_ordered [of B pr sg us s]
      by (simp add: book_inv_def flip: monitor_pool_start) (simp add: monitor_pool_def keeps_update)
    then show ?case by blast
  qed (use monitor_book_step in blast)
  then obtain fin act where b: "book_inv B pr sg k us ?b fin act P" by blast
  note inv = book_invD [OF b]
  have ret: "returned (p_threads P ! i)" if "i < length us" for i
    using assms(2) that inv(1) by (simp add: all_returned_def list_all_length)
  have rest: "\<not> returned (bind_p (at_book k q) (\<lambda>_. rest_t B pr sg k))" for q :: "('a, 'b, unit) bprog"
    by (cases q) (simp_all add: returned_def rest_t_def book_callbacks_t_def then_p_def read_p_def)
  have "act = None"
  proof (cases act)
    case (Some i)
    from book_inv_active [OF b [unfolded Some]] obtain q :: "('a, 'b, unit) bprog"
      where "p_threads P ! i = bind_p (at_book k q) (\<lambda>_. rest_t B pr sg k)" by blast
    then show ?thesis using inv(7) [OF Some] ret [of i] rest [of q] by simp
  qed
  then have "i \<in> set fin" if "i < length us" "fst (us ! i) = k" for i
    using inv(6) [of i] ret [OF that(1)] that by (cases "us ! i"; cases "i \<in> set fin") (auto simp: update_split returned_def)
  then have "set fin = {i. i < length us \<and> fst (us ! i) = k}" using inv(4) by blast
  from mset_indexes [OF inv(3) this] b \<open>act = None\<close> show ?thesis
    by (intro exI [of _ "map (\<lambda>i. snd (us ! i)) fin"]) (simp add: book_inv_def fold_core)
qed

end
