(* ===== verification/Book_Monitor_Correct.thy ===== *)
theory Book_Monitor_Correct
  imports Book_Monitor_Runs Feed_Correct Startup_Correct
begin

text \<open>
  The book monitor as a whole: how its updates end, and when it begins to draw.
\<close>

section \<open>Updates and frames\<close>

text \<open>
  C18. The book monitor. Any updates of the displayed books run in goroutines of their own, and every access of
  one may come between two accesses of the others, also while a frame is drawn. None of them panics, they never
  lock each other out, all return. Once all have returned every book has had all its updates, each applied as a
  whole in some order, and the screen shows the books as they are.
\<close>

theorem book_monitor_shows_final_books:
  assumes "distinct (map snd (sg_entries sg))" and "fst ` set us \<subseteq> snd ` set (sg_entries sg)"
    and "\<forall>k \<in> snd ` set (sg_entries sg). ob_updateCallback (mo_books s k) = [] \<and> ob_deferCallback (mo_books s k) = None"
    and "pstep\<^sup>*\<^sup>* (monitor_pool B pr sg us (strategy_start sg s)) P"
  shows "(\<forall>i e. tstep i P \<noteq> Some (Inl e)) \<and> (all_returned P \<or> (\<exists>i. tstep i P \<noteq> None)) \<and>
    (\<nexists>f. f 0 = P \<and> (\<forall>n. pstep (f n) (f (Suc n)))) \<and> (\<exists>P'. pstep\<^sup>*\<^sup>* P P' \<and> all_returned P') \<and>
    (all_returned P \<and> us \<noteq> [] \<longrightarrow>
       mo_screen (p_state P) = Some (Render B (pr_fixed2 pr) (pr_string pr) (display_now sg (p_state P))) \<and>
       (\<forall>k. \<exists>ds. mset ds = mset (map snd (filter (\<lambda>u. fst u = k) us)) \<and>
          mo_books (p_state P) k = (fold (UpdateByOBData B) ds (mo_books (strategy_start sg s) k))
            \<lparr>ob_calls := ob_calls (mo_books (strategy_start sg s) k)\<rparr>))"
proof -
  note ret = monitor_calls.calls_return [OF assms(4) [unfolded monitor_pool_start]]
  have "\<nexists>f. f 0 = P \<and> (\<forall>n. pstep (f n) (f (Suc n)))"
    using wf_pstep unfolding wf_iff_no_infinite_down_chain by blast
  moreover obtain ph where inv: "monitor_inv B pr sg (snd ` set (sg_entries sg)) us ph P"
    using monitor_reach [OF assms(4) start_calls_Render [OF assms(1,3)] assms(2)] by blast
  moreover have "sg_entries sg \<noteq> []" if "us \<noteq> []" using assms(2) that by auto
  ultimately show ?thesis using ret(1,2,3) returned_shows [OF inv] book_gets_updates [OF assms(4)] by blast
qed

text \<open>Two books, updated at the same time.\<close>

definition demo_monitor_symbol :: "string \<Rightarrow> int Symbol" where
  "demo_monitor_symbol n = demo_symbol\<lparr>sym_name := n\<rparr>"

definition demo_strategy :: "int strategy" where
  "demo_strategy = \<lparr>sg_depth = 5, sg_entries = map (\<lambda>n. (n, demo_monitor_symbol n)) [''BTC'', ''SOL'']\<rparr>"

definition demo_printers :: "int printers" where
  "demo_printers = \<lparr>pr_fixed2 = FormatInt, pr_string = demo_volume\<rparr>"

definition demo_monitor :: "(int, (int PriceLevel \<Rightarrow> int PriceLevel \<Rightarrow> bool) \<times> int PriceLevel list) monitor" where
  "demo_monitor = \<lparr>mo_books = NewOrderBook list_btree, mo_screen = None\<rparr>"

theorem book_monitor_shows_final_books_witness:
  "\<exists>P. pstep\<^sup>*\<^sup>* (monitor_pool list_btree demo_printers demo_strategy
       [(demo_monitor_symbol ''BTC'', demo_snapshot), (demo_monitor_symbol ''SOL'', demo_snapshot)] (strategy_start demo_strategy demo_monitor)) P \<and>
     all_returned P \<and> mo_screen (p_state P) = Some (Render list_btree FormatInt demo_volume (display_now demo_strategy (p_state P)))"
proof -
  let ?us = "[(demo_monitor_symbol ''BTC'', demo_snapshot), (demo_monitor_symbol ''SOL'', demo_snapshot)]"
  let ?P = "monitor_pool list_btree demo_printers demo_strategy ?us (strategy_start demo_strategy demo_monitor)"
  have d: "distinct (map snd (sg_entries demo_strategy))" "fst ` set ?us \<subseteq> snd ` set (sg_entries demo_strategy)"
    by (simp_all add: demo_strategy_def demo_monitor_symbol_def demo_symbol_def)
  have e: "\<forall>k \<in> snd ` set (sg_entries demo_strategy). ob_updateCallback (mo_books demo_monitor k) = [] \<and>
      ob_deferCallback (mo_books demo_monitor k) = None"
    by (simp add: demo_monitor_def NewOrderBook_def)
  note ok = book_monitor_shows_final_books [OF d e, where B = list_btree and pr = demo_printers]
  obtain P where P: "pstep\<^sup>*\<^sup>* ?P P" "all_returned P" using ok [of ?P] by blast
  with ok [OF P(1)] show ?thesis by (intro exI [of _ P]) (simp add: demo_printers_def)
qed

section \<open>Start-up\<close>

lemma monitor_symbols:
  "inj_on sym_name (set (symbolList nf))" "distinct (symbolList nf)" "map sym_name (symbolList nf) = [''BTCUSDT'', ''SOLUSDT'']"
  by (auto simp: symbolList_def SymbolCoinExFuturesBTCUSDT_def SymbolCoinExFuturesSOLUSDT_def newSymbol_def Let_def inj_on_def)

text \<open>Whether \<open>IsEverythingReady\<close> of the insights answers true after the events of the public channels.\<close>

definition monitor_ready :: "(rat \<Rightarrow> 'd) \<Rightarrow> ('d :: linordered_idom, 't) monitor_init \<Rightarrow> time \<Rightarrow> raw group_event list \<Rightarrow> bool" where
  "monitor_ready nf mi T0 evs =
     (case cg_publicChGroup (mi_gm mi) of
        Some g \<Rightarrow>
          (case foldM (group_step cx_HandleTopicMessage g) evs (group_begin g T0 (mi_insights mi)) of
             Inr sh \<Rightarrow> cx_IsEverythingReady [] (symbolList nf) [] (sh_state sh)
           | Inl _ \<Rightarrow> False)
      | None \<Rightarrow> False)"

text \<open>\<open>init\<close> succeeds up to its wait.\<close>

lemma strategy_init_ok:
  "\<exists>mi gm0 g. strategy_init B dec nf rng influx now = Inr mi \<and>
     cx_InitGatewayManager None 3 (Some (newExporter [] True :: unit Exporter)) =
       Inr (gm0, SetLatencyMeasurer (NewLatencyMeasurer aggInterval) (newExporter [] True)) \<and>
     cx_InitInsights B dec rng now [] (symbolList nf) [] (Some gm0) = Inr (mi_gm mi, mi_insights mi) \<and>
     cg_publicChGroup (mi_gm mi) = Some g \<and> mi_running mi = [MeasurerLoop, PublicGroupLoop] \<and>
     mi_strategy mi = \<lparr>sg_depth = 5, sg_entries = map (\<lambda>s. (sym_name s, s)) (symbolList nf)\<rparr> \<and>
     (\<forall>s \<in> set (symbolList nf). GetOrderBook (mi_insights mi) s = Some (NewOrderBook B s))"
  by (simp add: strategy_init_def Let_def InitAndStartNoopMode_def NewExporter_def cx_InitGatewayManager_def cx_InitInsights_def
      cx_StartGateway_def book_entry_def GetOrderBook_def new_map_apply lapua_zero_def symbolList_def)

text \<open>The updates of a book among the first ones, copies not counted.\<close>

definition updates_seen :: "'d depth_update list \<Rightarrow> 'd Symbol \<Rightarrow> nat" where
  "updates_seen us s = length (filter (\<lambda>u. du_symbol u = s) (first_updates {} us))"

lemma updates_seen_datas: "length (datas_of dec (first_updates {} us) s) = updates_seen us s"
  by (simp add: datas_of_def updates_seen_def)

text \<open>
  The book monitor starts. Its \<open>init\<close> does not panic: three redundant channels and the latency measurer
  are started, no private channel, and the display has the two books in their order. The wait at its end
  returns in the first turn in which both books have been updated twice, copies that arrive over several
  channels counted once; \<open>arrived t\<close> is the number of messages handled before turn \<open>t\<close>.
\<close>

theorem book_monitor_starts:
  assumes "visits rng"
    and "\<forall>u \<in> set us. in_window 3 T0 defaultDedupTTL (du_event u) \<and> du_symbol u \<in> set (symbolList nf) \<and>
      0 < du_updated u \<and> du_updated u < 2 ^ 63 \<and> du_data dec u \<noteq> None"
  shows "\<exists>mi. strategy_init B dec nf rng influx now = Inr mi \<and> mi_running mi = [MeasurerLoop, PublicGroupLoop] \<and>
    map fst (sg_entries (mi_strategy mi)) = [''BTCUSDT'', ''SOLUSDT''] \<and>
    (\<forall>s \<in> set (symbolList nf). GetOrderBook (mi_insights mi) s = Some (NewOrderBook B s)) \<and>
    (\<forall>r. WaitForInsightsToBeReady [''coinex''] (\<lambda>_. [''coinex'']) (\<lambda>t _. monitor_ready nf mi T0 (map du_event (take (arrived t) us))) = Some r \<longleftrightarrow>
       (\<forall>s \<in> set (symbolList nf). 2 \<le> updates_seen (take (arrived r) us) s) \<and>
       (\<forall>t < r. \<exists>s \<in> set (symbolList nf). updates_seen (take (arrived t) us) s < 2))"
proof -
  obtain mi gm0 g where mi: "strategy_init B dec nf rng influx now = Inr mi"
    "cx_InitGatewayManager None 3 (Some (newExporter [] True :: unit Exporter)) =
       Inr (gm0, SetLatencyMeasurer (NewLatencyMeasurer aggInterval) (newExporter [] True))"
    "cx_InitInsights B dec rng now [] (symbolList nf) [] (Some gm0) = Inr (mi_gm mi, mi_insights mi)"
    "cg_publicChGroup (mi_gm mi) = Some g" "mi_running mi = [MeasurerLoop, PublicGroupLoop]"
    "mi_strategy mi = \<lparr>sg_depth = 5, sg_entries = map (\<lambda>s. (sym_name s, s)) (symbolList nf)\<rparr>"
    "\<forall>s \<in> set (symbolList nf). GetOrderBook (mi_insights mi) s = Some (NewOrderBook B s)"
    using strategy_init_ok [of B dec nf rng influx now] by (elim exE conjE) (rule that)
  have ready: "monitor_ready nf mi T0 (map du_event vs) \<longleftrightarrow> (\<forall>s \<in> set (symbolList nf). 2 \<le> updates_seen vs s)"
    if "set vs \<subseteq> set us" for vs
  proof -
    have "\<forall>u \<in> set vs. in_window (nat 3) T0 defaultDedupTTL (du_event u) \<and> du_symbol u \<in> set (symbolList nf) \<and>
        0 < du_updated u \<and> du_updated u < 2 ^ 63 \<and> du_data dec u \<noteq> None"
      using assms(2) that by auto
    from coinex_feed [OF mi(2-4) assms(1) _ monitor_symbols(1) _ this] obtain sh where
      sh: "foldM (group_step cx_HandleTopicMessage g) (map du_event vs) (group_begin g T0 (mi_insights mi)) = Inr sh"
      "\<forall>s \<in> set (symbolList nf). \<exists>book. GetOrderBook (sh_state sh) s = Some book \<and> (ob_IsReady book \<longleftrightarrow> 2 \<le> updates_seen vs s)"
      by (auto simp: Let_def updates_seen_datas)
    then show ?thesis
      using mi(4) by (fastforce simp: monitor_ready_def cx_IsEverythingReady_def all_ready_def list_all_iff GetOrderBook_def)
  qed
  have "WaitForInsightsToBeReady [''coinex''] (\<lambda>_. [''coinex'']) (\<lambda>t _. monitor_ready nf mi T0 (map du_event (take (arrived t) us))) = Some r \<longleftrightarrow>
      (\<forall>s \<in> set (symbolList nf). 2 \<le> updates_seen (take (arrived r) us) s) \<and>
      (\<forall>t < r. \<exists>s \<in> set (symbolList nf). updates_seen (take (arrived t) us) s < 2)" for r
    by (subst wait_first_turn) (auto simp: ready set_take_subset not_le)
  with mi show ?thesis using monitor_symbols(3) by (intro exI [of _ mi]) (simp add: comp_def)
qed

text \<open>Three messages per second; the second update of the slower book is the fifth message.\<close>

definition demo_monitor_feed :: "rat depth_update list" where
  "demo_monitor_feed =
     map (\<lambda>(i, now, s, n). \<lparr>du_chan = i, du_at = now, du_symbol = s, du_updated = n, du_asks = [[''7'', ''1'']], du_bids = [[''6'', ''2'']]\<rparr>)
       [(0, 5, SymbolCoinExFuturesBTCUSDT (\<lambda>x. x), 1700), (1, 6, SymbolCoinExFuturesBTCUSDT (\<lambda>x. x), 1700),
        (2, 7, SymbolCoinExFuturesSOLUSDT (\<lambda>x. x), 1701), (0, 8, SymbolCoinExFuturesBTCUSDT (\<lambda>x. x), 1702),
        (1, 9, SymbolCoinExFuturesSOLUSDT (\<lambda>x. x), 1703)]"

lemma demo_monitor_seen:
  "updates_seen (take 0 demo_monitor_feed) (SymbolCoinExFuturesSOLUSDT (\<lambda>x. x)) = 0"
  "updates_seen (take 3 demo_monitor_feed) (SymbolCoinExFuturesSOLUSDT (\<lambda>x. x)) = 1"
  "\<forall>s \<in> set (symbolList (\<lambda>x. x)). 2 \<le> updates_seen (take 6 demo_monitor_feed) s"
  by code_simp+

theorem book_monitor_starts_witness:
  "\<exists>mi. strategy_init list_btree demo_dec (\<lambda>x. x) remdups (\<lambda>_ _ _. None) 0 = Inr mi \<and>
     WaitForInsightsToBeReady [''coinex''] (\<lambda>_. [''coinex''])
       (\<lambda>t _. monitor_ready (\<lambda>x. x) mi 0 (map du_event (take (3 * t) demo_monitor_feed))) = Some 2"
proof -
  have "\<forall>u \<in> set demo_monitor_feed. du_data demo_dec u \<noteq> None" by code_simp
  moreover have "\<forall>u \<in> set demo_monitor_feed. in_window 3 0 defaultDedupTTL (du_event u)"
    by (simp add: demo_monitor_feed_def du_event_def defaultDedupTTL_def Time_Sub_def maxDuration_def minDuration_def)
  moreover have "\<forall>u \<in> set demo_monitor_feed. du_symbol u \<in> set (symbolList (\<lambda>x. x)) \<and> 0 < du_updated u \<and> du_updated u < 2 ^ 63"
    by (simp add: demo_monitor_feed_def symbolList_def)
  ultimately have ok: "\<forall>u \<in> set demo_monitor_feed. in_window 3 0 defaultDedupTTL (du_event u) \<and> du_symbol u \<in> set (symbolList (\<lambda>x. x)) \<and>
      0 < du_updated u \<and> du_updated u < 2 ^ 63 \<and> du_data demo_dec u \<noteq> None" by blast
  from book_monitor_starts [OF visits_remdups ok, of list_btree "\<lambda>_ _ _. None" 0 "\<lambda>t. 3 * t"]
  obtain mi where mi: "strategy_init list_btree demo_dec (\<lambda>x. x) remdups (\<lambda>_ _ _. None) 0 = Inr mi"
    "WaitForInsightsToBeReady [''coinex''] (\<lambda>_. [''coinex''])
       (\<lambda>t _. monitor_ready (\<lambda>x. x) mi 0 (map du_event (take (3 * t) demo_monitor_feed))) = Some 2 \<longleftrightarrow>
       (\<forall>s \<in> set (symbolList (\<lambda>x. x)). 2 \<le> updates_seen (take (3 * 2) demo_monitor_feed) s) \<and>
       (\<forall>t < 2. \<exists>s \<in> set (symbolList (\<lambda>x. x)). updates_seen (take (3 * t) demo_monitor_feed) s < 2)" by blast
  have "\<exists>s \<in> set (symbolList (\<lambda>x. x)). updates_seen (take (3 * t) demo_monitor_feed) s < 2" if "t < 2" for t
    using that demo_monitor_seen(1,2) by (intro bexI [of _ "SymbolCoinExFuturesSOLUSDT (\<lambda>x. x)"]) (auto simp: less_2_cases_iff symbolList_def)
  with mi demo_monitor_seen(3) show ?thesis by auto
qed

end
