(* ===== verification/Spec2Isabelle.thy ===== *)
theory Spec2Isabelle
  imports Dealer_Races Trading_Names Channel_Correct Deals_Feed Insight_Providers Book_Monitor_Correct
begin

text \<open>
  Verification of lapuacore, a library for automated trading on the exchanges CoinEx and Bybit.

  \<^bold>\<open>The program.\<close> A strategy reads market data and issues orders. Market data and order events
  come over WebSocket channels (\<open>internal/gateways\<close>): each channel keeps one connection alive, and a
  group of redundant channels shares a cache that drops messages already seen. Exchange-specific
  translators turn messages into the data of \<open>domains\<close>. The order book, quotes and trades
  (\<open>domains/insights\<close>) are updated by these messages and call the strategy back. The dealer
  (\<open>domains/deals\<close>) owns the orders of one symbol: the strategy asks it to send, amend and cancel; it
  sends requests through an agent (HTTP, behind a rate limiter) and learns the outcome from
  responses and from order messages, which may come in either order. The parameters of a strategy and
  the secrets come from files that are read again when they change (\<open>configs\<close>), latencies and custom
  metrics go to InfluxDB (\<open>metrics\<close>), and \<open>initializers\<close> builds all parts, connects them and waits until
  the market data is there.

  \<^bold>\<open>Theories and sources.\<close>
  \<^item> \<open>Prelude\<close>: panics as values (\<open>go_panic + 'a\<close>), loops, Go maps and the order in which \<open>range\<close>
    visits them, times with the saturating \<open>Time.Sub\<close>, 64-bit wrap-around, reachable states and the
    locale \<open>invariant_system\<close>.
  \<^item> \<open>Mutex\<close>: \<open>mutex/flag.go\<close>, \<open>map.go\<close>, \<open>slice.go\<close>. The locale \<open>mutex_map\<close> is the contract of the
    map on which its clients rely.
  \<^item> \<open>Domains\<close>: sides, order types, assets and the symbol registry of \<open>domains/*.go\<close>.
  \<^item> \<open>Orders\<close>, \<open>Position\<close>: \<open>order.go\<close>, \<open>errors.go\<close>, \<open>order_data.go\<close>, \<open>order_resps.go\<close>, \<open>position.go\<close>,
    \<open>position_data.go\<close> of \<open>domains/deals\<close>: the record of an order, its accessors, guards, callbacks and
    constructors, and the current position.
  \<^item> \<open>Dealer\<close>: \<open>dealer.go\<close> and \<open>dealing_handlers.go\<close>, one definition per method. Orders are references into
    a heap, since the dealer, its maps and the caller share them. The agent's answer, the clock, the
    generated identifiers and the order of map iteration are arguments.
  \<^item> \<open>Dealer_Spec\<close>: the abstract specification (where every order is in its life cycle, which are listed
    as living and as done). \<open>Dealer_Events\<close>: the events of a running dealer and its step relation.
    \<open>Dealer_Refinement\<close> and \<open>Dealer_Runs\<close>: the abstraction function and, per handler, the moves of the
    specification it makes. \<open>Dealer_Correct\<close>, \<open>Dealer_Stop\<close>, \<open>Dealer_Deferred\<close>: the properties.
    \<open>Dealer_Api\<close>: the interface \<open>Dealer\<close> of \<open>providers.go\<close> as the record of its methods, and the functions of the
    package through which strategies call a dealer.
  \<^item> \<open>Goroutines\<close>: programs of single accesses and lock operations, pools of them, their schedules and the
    locking discipline (locale \<open>locking_calls\<close>). \<open>Rely\<close>: programs that are safe beside others, with the locales
    \<open>rely\<close> (what goroutines leave to each other) and \<open>safe_calls\<close>. \<open>Serialize\<close>: updates under one lock beside
    readers (locale \<open>guarded_updates\<close>). \<open>Lock_Order\<close>: programs that take their locks in the order of a rank and so
    always return (locale \<open>ordered_calls\<close>). \<open>Dealer_Threads\<close>: every operation of the dealer as such a program, with
    \<open>WithOpLock\<close> and \<open>WithOpeLocks\<close> of \<open>order.go\<close>; \<open>Dealer_Rely\<close> interprets \<open>rely\<close> and \<open>safe_calls\<close> on them and
    \<open>Dealer_Races\<close> holds the properties. \<open>Insight_Threads\<close>: the accessors and updates of quotes and books
    as programs, with their properties.
  \<^item> \<open>Price_Level\<close>, \<open>Order_Book\<close>: \<open>price_level.go\<close>, \<open>orderbook.go\<close>, \<open>orderbook_handlers.go\<close> of
    \<open>domains/insights\<close>. The tree of github.com/google/btree is a parameter (the record \<open>BTreeOps\<close>); the
    locales \<open>btree\<close> and \<open>level_tree\<close> state its documented behaviour and are interpreted on sorted lists
    in \<open>Book_Volume\<close>. \<open>Order_Book_Correct\<close>, \<open>Book_Volume\<close> and \<open>Book_Figures\<close> hold the properties.
  \<^item> \<open>Quote_Trade\<close>: \<open>quote.go\<close> and \<open>trade.go\<close>. \<open>Insight_Providers\<close>: the interfaces of \<open>providers.go\<close> as records of methods,
    with quotes and books as their values; the locales \<open>quote_provider\<close> and \<open>book_provider\<close> state what the methods
    promise and are interpreted on both.
  \<^item> \<open>Ttl_Cache\<close>: \<open>ttl_cache.go\<close> of \<open>internal/gateways\<close>. \<open>Channel_Group\<close>: \<open>topic_manager.go\<close>, \<open>dedup_topic.go\<close> and
    \<open>channel_group.go\<close>; the locales \<open>topic_router\<close> and \<open>redundant_group\<close> state what a manager promises and
    what a group of managers does, and are interpreted on the managers of both exchanges.
  \<^item> \<open>Rate_Limiter\<close>: \<open>rate_limiter.go\<close> of both agents; the locale \<open>quota_limiter\<close> is interpreted on each.
  \<^item> \<open>Latency\<close>: \<open>latency_measurer.go\<close>.
  \<^item> \<open>Connection\<close>: \<open>health_checker.go\<close>, \<open>author.go\<close>, \<open>message_receiver.go\<close>. \<open>Channel\<close> and
    \<open>Channel_Correct\<close>: \<open>channel.go\<close>, its main loop and the goroutines of all connections it has dialled.
  \<^item> \<open>Strconv\<close>: what is used of Go's \<open>strconv\<close>. \<open>Bybit_Translators\<close> and \<open>Coinex_Translators\<close>: the packages
    \<open>translators\<close> and \<open>dtos\<close> of each exchange. \<open>Agents\<close> and \<open>Agents_Correct\<close>: \<open>agent.go\<close> of each exchange,
    split into what a method does before it returns and what its goroutine answers to the dealer.
    \<open>Http\<close> and \<open>Http_Correct\<close>: \<open>http_client.go\<close>, \<open>signer.go\<close>, \<open>endpoints.go\<close> and the reading of response bodies, with
    the decoder of batch responses in \<open>dtos/base_resp_body.go\<close>.
  \<^item> \<open>Trading\<close>: the interface \<open>Agent\<close> of \<open>deals/agent.go\<close> as the record of its methods, the agents of both exchanges as its
    values, and a desk, which is a dealer over an agent with the requests under way. \<open>Trading_Correct\<close>: the locale
    \<open>exchange_agent\<close>, what a dealer relies on, interpreted on both agents. \<open>Trading_Ids\<close>: the invariant on public
    identifiers; \<open>Trading_Names\<close>: what it gives on CoinEx, and batches on Bybit.
  \<^item> \<open>Json\<close>: decoding of JSON documents into structs, as far as the program uses it. \<open>Coinex_Topics\<close>,
    \<open>Bybit_Topics\<close>: the packages \<open>ws/topics\<close> (managers and topics) with the JSON tags of \<open>dtos\<close>; \<open>Topics_Correct\<close>:
    their properties. \<open>Exchange_Ws\<close>: endpoints, authentication and health checks of the packages \<open>ws\<close>.
  \<^item> \<open>Configs\<close>, \<open>Configs_Correct\<close>: \<open>config.go\<close>, \<open>raw_config.go\<close>, \<open>raw_secret.go\<close>, \<open>secret.go\<close> of \<open>configs\<close>; the locales
    \<open>go_type_laws\<close> and \<open>param_kind\<close> are interpreted on the nine types a parameter can be read with.
    \<open>Watcher\<close>: \<open>watcher.go\<close>.
  \<^item> \<open>Metrics\<close>: \<open>metrics\<close> with its measurements and translators. \<open>Display\<close>: \<open>pkg/display\<close>.
  \<^item> \<open>Gateways_Init\<close>: \<open>initializers/exchanges/{coinex,bybit}\<close>, the gateway managers and the functions that build
    insights and dealers; \<open>Startup\<close>: \<open>context.go\<close>, \<open>logger\<close>, \<open>discord\<close>, \<open>exchanges/common.go\<close> and \<open>lapua\<close> of
    \<open>initializers\<close>. \<open>Startup_Correct\<close>, \<open>Insights_Correct\<close>, \<open>Feed_Correct\<close> and \<open>Deals_Feed\<close>: what holds once the
    parts are connected.
  \<^item> \<open>Book_Monitor\<close>: \<open>examples/book-monitor/main.go\<close>, from its initialisation to the goroutines that update the two
    books and draw the screen; \<open>Book_Monitor_Runs\<close>: its invariant, \<open>Book_Monitor_Correct\<close>: its properties.

  \<^bold>\<open>What is proved.\<close>
  \<^item> The dealer refines its specification over every interleaving of requests, responses and messages;
    hence orders follow their life cycle, finished orders are reported once, the living orders are
    exactly the active ones, and no event makes the dealer panic. Deferred amendments and
    cancellations, critical errors and position messages behave as documented, with two exceptions
    that are proved as such (a deferred amendment that is sent again, a refused batch cancellation
    that revives finished orders).
  \<^item> At the level of single accesses and locks: an operation of the dealer that is not interrupted has its
    atomic effect; goroutines of a dealer never panic and all return, whatever the interleaving, while
    one batch cancellation is under way at a time; two batches can lock each other out, and an answer
    to a cancellation can be applied to an order that was filled in between. Updates of a book or a quote
    at the same time have the effect of some order of them, and for deltas that set volumes it is the
    same for all; readers may see a part of an update.
  \<^item> The book is sorted and consistent with its cached best prices after any messages; delta rows may be
    delivered in any order unless they delete; volume sums and execution prices have the value of
    their definition; rounding to ticks is bounded; the newest quote wins. A quote or a book that says it is
    ready answers every method of its interface.
  \<^item> A dealer over the agent of either exchange only reaches states its theorems speak about: the agents hand
    it only what these assume (or panic, and it is stated when). Every order that CoinEx holds has the
    number CoinEx gave it, so a cancellation reaches the exchange with that number unless the quota is used up;
    a batch on Bybit never reaches the exchange, and its cancellation revives finished orders. Order types survive on CoinEx and not on Bybit; a
    failed request stops a dealer on Bybit only. A batch that CoinEx refuses is rejected order by order;
    a response body \<open>null\<close> crashes both agents; the HTTP client follows connection resets; requests
    carry the signature of what they send.
  \<^item> Deduplication is exact for sequential use; the rate limits hold over every sliding second; no latency
    is lost; a disconnected channel always has a reconnection pending and its status follows its life
    cycle; what goes wrong on reconnection (connections left open, a panic on a late pong, a timeout
    that is never noticed before the first pong) is proved as well.
  \<^item> A group of redundant channels does what one channel without copies does; from the wire to the
    objects of a strategy, every book of CoinEx ends as the first copies of its own updates leave it,
    every dealer of CoinEx as the order and position messages of its market leave it, and
    an order message of Bybit reaches exactly the dealers of its symbols. The identifiers of CoinEx hold
    no market, so updates of two markets in one millisecond are confused; this and the crash on a
    malformed row are proved too.
  \<^item> Parameters that are read with one type never panic and keep their last good value through any
    reloads; the watcher serves the last readable files; the removal of a file goes unnoticed.
  \<^item> The start-up wait returns in the first turn in which everything is ready, and never returns for a
    Bybit symbol with a quote and a book of depth 1, whose topics replace each other.
  \<^item> Custom metrics are written in order and at most once; the columns of the display are aligned.
  \<^item> The example program starts, never locks itself out while its books are updated at the same time, and when all
    updates have been handled the screen shows both books as they are.

  \<^bold>\<open>Modelling choices.\<close> Decimals are an ordered integral domain; division and truncation are parameters
  with the locale \<open>decimal_ops\<close>. An access that runs under one lock is one atomic step; where the
  code releases a lock in the middle (the expired case of the cache) the step is split. The operations of the
  dealer and the updates of insights are atomic functions in \<open>Dealer\<close>, \<open>Order_Book\<close> and \<open>Quote_Trade\<close> and programs of
  single accesses in \<open>Dealer_Threads\<close> and \<open>Insight_Threads\<close>; a program that runs alone equals its function. Channels of
  Go are modelled by what waits in them; a send on a closed channel is a panic, a send that nobody can
  receive blocks. All loops but one are folds or structural recursions, so no fuel is used and every
  definition is total; the start-up wait, which may block forever, is a partial function whose value is
  \<open>None\<close> then. The main loops of goroutines are step relations or runs over lists of events. Handlers
  registered with a topic are functions on the state of the objects they update. Arithmetic on \<open>int\<close> and \<open>time.Duration\<close> is
  wrapped to 64 bits where values accumulate.

  \<^bold>\<open>Not modelled.\<close> The network and \<open>net/http\<close> below the client, the text syntax of JSON and YAML, gzip, HMAC and
  the InfluxDB client: the outcome of an HTTP request, the parser and encoder of JSON, the decoder of a compressed
  message, the signature function, the result of a write and the parsing and printing of decimals are parameters.
  Logging, with the formatting of the keys that failed to parse (\<open>formatFailedKeys\<close>), has no effect on
  any state. Locks of other components than the dealer, the insights and the display are not split further than
  their single methods: the goroutines of a channel are steps that may interleave in any order, and the
  subscriptions of redundant managers to shared topics are one step each.
\<close>

end
